(* ===== verification/Sgx_Prelude.thy ===== *)
theory Sgx_Prelude
  imports Main "HOL-Library.Word"
begin

text \<open>
  Shared vocabulary of the development: machine integers, byte strings and the
  little-endian codec of C structures, byte regions that are read and written at offsets
  (what raw pointer code does), fallible computations that thread the state of the code
  outside the repository, and the collections of rewrite rules the component proofs use.
\<close>

unbundle bit_operations_syntax

section \<open>Machine types\<close>

type_synonym u8 = "8 word"
type_synonym u16 = "16 word"
type_synonym u32 = "32 word"
type_synonym u64 = "64 word"
type_synonym bytes = "u8 list"

text \<open>
  A length (\<^verbatim>\<open>usize\<close>) is a \<^typ>\<open>nat\<close>: Rust allocations never exceed \<^verbatim>\<open>isize::MAX\<close> bytes, so no
  length of the code wraps. An address is a 64 bit word.
\<close>

type_synonym usize = nat
type_synonym addr = u64

text \<open>A reference argument: the address of the referent and its value.\<close>

type_synonym 'a mref = "addr \<times> 'a"

definition U32_MAX :: u32 where
  "U32_MAX = 0xFFFFFFFF"

abbreviation (input) u32_max_nat :: nat where
  "u32_max_nat \<equiv> 0xFFFFFFFF"

text \<open>The cast \<^verbatim>\<open>n as u32\<close> keeps the low 32 bits.\<close>

definition as_u32 :: "usize \<Rightarrow> u32" where
  "as_u32 n = word_of_nat n"

lemma unat_less_pow: "unat (x :: 'a::len word) < 2 ^ LENGTH('a)"
  by (rule unsigned_less)

section \<open>Collections of rewrite rules\<close>

named_theorems codec_simps \<open>lengths and slices of encoded structures\<close>
named_theorems wf_simps \<open>well-formedness of the C structures\<close>
named_theorems step_defs \<open>definitions of the operations that are symbolically executed\<close>

section \<open>Outcomes of code that can panic or leave its buffer\<close>

text \<open>
  \<open>Undef\<close> is a memory access outside the region the code was given: undefined behaviour.
\<close>

datatype 'a outcome = Panic | Undef | Ret 'a

definition bind_out :: "'a outcome \<Rightarrow> ('a \<Rightarrow> 'b outcome) \<Rightarrow> 'b outcome" where
  "bind_out x f = (case x of Ret a \<Rightarrow> f a | Undef \<Rightarrow> Undef | Panic \<Rightarrow> Panic)"

lemma bind_out_simps [simp]: "bind_out (Ret a) f = f a" "bind_out Undef f = Undef" "bind_out Panic f = Panic"
  by (simp_all add: bind_out_def)

text \<open>Loops of such code: over a list, and a number of turns.\<close>

primrec for_out :: "('a \<Rightarrow> 's \<Rightarrow> 's outcome) \<Rightarrow> 'a list \<Rightarrow> 's \<Rightarrow> 's outcome" where
  "for_out f [] s = Ret s"
| "for_out f (x # xs) s = bind_out (f x s) (for_out f xs)"

primrec repeat_out :: "nat \<Rightarrow> ('s \<Rightarrow> 's outcome) \<Rightarrow> 's \<Rightarrow> 's outcome" where
  "repeat_out 0 f s = Ret s"
| "repeat_out (Suc n) f s = bind_out (f s) (repeat_out n f)"

lemma for_out_cong [fundef_cong]:
  assumes "xs = ys" and "s = t" and "\<And>x s. x \<in> set ys \<Longrightarrow> f x s = g x s"
  shows "for_out f xs s = for_out g ys t"
proof -
  have "for_out f ys s = for_out g ys s" for s
    using assms(3)
  proof (induction ys arbitrary: s)
    case (Cons y ys)
    then have "for_out f ys = for_out g ys" by (simp add: fun_eq_iff)
    then show ?case using Cons.prems by simp
  qed simp
  then show ?thesis using assms(1,2) by simp
qed

lemma repeat_out_cong [fundef_cong]:
  assumes "m = n" and "s = t" and "\<And>s. f s = g s"
  shows "repeat_out m f s = repeat_out n g t"
proof -
  have "f = g" using assms(3) by (simp add: fun_eq_iff)
  then show ?thesis using assms(1,2) by simp
qed

section \<open>Fallible computations over the state of the outside world\<close>

text \<open>
  Code outside the repository (the Intel SGX libraries behind the FFI) may keep state: every
  call receives the world \<open>'w\<close> and returns the next one. \<open>bindE\<close> is Rust's
  \<^verbatim>\<open>?\<close> on such a call, \<open>map_errW\<close> is \<^verbatim>\<open>Result::map_err\<close>.
\<close>

type_synonym ('w, 'e, 'a) io = "'w \<Rightarrow> ('e + 'a) \<times> 'w"

definition returnE :: "'a \<Rightarrow> ('w, 'e, 'a) io" where
  "returnE x = (\<lambda>w. (Inr x, w))"

definition throwE :: "'e \<Rightarrow> ('w, 'e, 'a) io" where
  "throwE e = (\<lambda>w. (Inl e, w))"

definition bindE :: "('w, 'e, 'a) io \<Rightarrow> ('a \<Rightarrow> ('w, 'e, 'b) io) \<Rightarrow> ('w, 'e, 'b) io" where
  "bindE m f = (\<lambda>w. case m w of (Inl e, w') \<Rightarrow> (Inl e, w') | (Inr x, w') \<Rightarrow> f x w')"

definition map_errW :: "('e \<Rightarrow> 'f) \<Rightarrow> ('w, 'e, 'a) io \<Rightarrow> ('w, 'f, 'a) io" where
  "map_errW g m = (\<lambda>w. case m w of (Inl e, w') \<Rightarrow> (Inl (g e), w') | (Inr x, w') \<Rightarrow> (Inr x, w'))"

lemma returnE_apply [simp]: "returnE x w = (Inr x, w)"
  by (simp add: returnE_def)

lemma throwE_apply [simp]: "throwE e w = (Inl e, w)"
  by (simp add: throwE_def)

lemma bindE_Inr [simp]: "m w = (Inr x, w') \<Longrightarrow> bindE m f w = f x w'"
  by (simp add: bindE_def)

lemma bindE_Inl [simp]: "m w = (Inl e, w') \<Longrightarrow> bindE m f w = (Inl e, w')"
  by (simp add: bindE_def)

lemma map_errW_Inr [simp]: "m w = (Inr x, w') \<Longrightarrow> map_errW g m w = (Inr x, w')"
  by (simp add: map_errW_def)

lemma bindE_InrE:
  assumes "bindE m f w = (Inr y, w2)"
  obtains x w1 where "m w = (Inr x, w1)" and "f x w1 = (Inr y, w2)"
  using assms by (auto simp: bindE_def split: prod.splits sum.splits)

lemma map_errW_InrE:
  assumes "map_errW g m w = (Inr y, w2)"
  obtains "m w = (Inr y, w2)"
  using assms by (auto simp: map_errW_def split: prod.splits sum.splits)

lemma bindE_assoc: "bindE (bindE m f) g = bindE m (\<lambda>x. bindE (f x) g)"
  by (auto simp: bindE_def fun_eq_iff split: prod.splits sum.splits)

text \<open>
  What a computation achieves from a world that satisfies \<open>A\<close>: if it returns, the postcondition holds of
  its result and the new world; with \<open>b\<close> it does return. One predicate serves the safety and the
  liveness theorems, so that each operation is symbolically executed once. \<open>hoareE\<close> is the special case
  of a computation that works in every world and whose postcondition is on the result alone.
\<close>

definition hoareW :: "bool \<Rightarrow> ('w \<Rightarrow> bool) \<Rightarrow> ('w, 'e, 'a) io \<Rightarrow> ('a \<Rightarrow> 'w \<Rightarrow> bool) \<Rightarrow> bool" where
  "hoareW b A m Q \<longleftrightarrow>
     (\<forall>w. A w \<longrightarrow> (\<forall>x w'. m w = (Inr x, w') \<longrightarrow> Q x w') \<and> (\<forall>e w'. m w = (Inl e, w') \<longrightarrow> \<not> b))"

definition hoareE :: "bool \<Rightarrow> ('w, 'e, 'a) io \<Rightarrow> ('a \<Rightarrow> bool) \<Rightarrow> bool" where
  "hoareE b m Q \<longleftrightarrow> hoareW b (\<lambda>_. True) m (\<lambda>x _. Q x)"

lemma hoareW_bindE:
  "hoareW b A m R \<Longrightarrow> (\<And>x. hoareW b (R x) (f x) Q) \<Longrightarrow> hoareW b A (bindE m f) Q"
  unfolding hoareW_def bindE_def by (auto split: prod.splits sum.splits)

lemma hoareW_map_errW [simp]: "hoareW b A (map_errW g m) Q \<longleftrightarrow> hoareW b A m Q"
  unfolding hoareW_def map_errW_def by (auto split: prod.splits sum.splits)

lemma hoareW_pure: "(c \<Longrightarrow> hoareW b (\<lambda>_. True) m Q) \<Longrightarrow> hoareW b (\<lambda>_. c) m Q"
  by (simp add: hoareW_def)

lemma hoareW_drop_pre: "hoareW b (\<lambda>_. True) m Q \<Longrightarrow> hoareW b A m Q"
  by (simp add: hoareW_def)

lemma hoareE_returnE [intro]: "Q x \<Longrightarrow> hoareE b (returnE x) Q"
  by (simp add: hoareE_def hoareW_def)

lemma hoareE_throwE [intro]: "\<not> b \<Longrightarrow> hoareE b (throwE e) Q"
  by (simp add: hoareE_def hoareW_def)

lemma hoareE_bindE:
  "hoareE b m R \<Longrightarrow> (\<And>x. R x \<Longrightarrow> hoareE b (f x) Q) \<Longrightarrow> hoareE b (bindE m f) Q"
  unfolding hoareE_def by (rule hoareW_bindE [where R = "\<lambda>x _. R x"]) (simp_all add: hoareW_pure)

lemma hoareE_map_errW [simp]: "hoareE b (map_errW g m) Q \<longleftrightarrow> hoareE b m Q"
  by (simp add: hoareE_def)

lemma hoareE_if_throwE:
  "(c \<Longrightarrow> \<not> b) \<Longrightarrow> (\<not> c \<Longrightarrow> hoareE b m Q) \<Longrightarrow> hoareE b (if c then throwE e else m) Q"
  by (cases c) (simp_all add: hoareE_throwE)

lemma hoareE_weaken: "hoareE b m R \<Longrightarrow> (\<And>x. R x \<Longrightarrow> Q x) \<Longrightarrow> hoareE b m Q"
  by (simp add: hoareE_def hoareW_def)

lemma hoareE_Inr: "hoareE b m Q \<Longrightarrow> m w = (Inr x, w') \<Longrightarrow> Q x"
  unfolding hoareE_def hoareW_def by blast

lemma hoareE_total:
  assumes "hoareE True m Q"
  obtains x w' where "m w = (Inr x, w')" and "Q x"
proof -
  obtain r w' where r: "m w = (r, w')" by fastforce
  with assms that show ?thesis by (cases r) (auto simp: hoareE_def hoareW_def)
qed

section \<open>Byte regions\<close>

text \<open>
  \<open>bslice off n bs\<close> is the \<open>n\<close> bytes at offset \<open>off\<close>, \<open>bsplice off src bs\<close> is a
  \<^verbatim>\<open>memcpy\<close> of \<open>src\<close> to offset \<open>off\<close>. \<open>fit n bs\<close> is what an
  \<open>n\<close>-byte zeroed array holds after foreign code has written \<open>bs\<close> to it.
\<close>

definition bslice :: "nat \<Rightarrow> nat \<Rightarrow> 'a list \<Rightarrow> 'a list" where
  "bslice off n bs = take n (drop off bs)"

definition bsplice :: "nat \<Rightarrow> 'a list \<Rightarrow> 'a list \<Rightarrow> 'a list" where
  "bsplice off src bs = take off bs @ src @ drop (off + length src) bs"

definition fit :: "nat \<Rightarrow> bytes \<Rightarrow> bytes" where
  "fit n bs = take n bs @ replicate (n - length bs) 0"

abbreviation zeros :: "nat \<Rightarrow> bytes" where
  "zeros n \<equiv> replicate n 0"

lemma length_bslice [simp]: "off + n \<le> length bs \<Longrightarrow> length (bslice off n bs) = n"
  by (simp add: bslice_def)

lemma length_bsplice [simp]:
  "off + length src \<le> length bs \<Longrightarrow> length (bsplice off src bs) = length bs"
  by (simp add: bsplice_def)

lemma length_fit [simp]: "length (fit n bs) = n"
  by (simp add: fit_def)

lemma fit_id [simp]: "length bs = n \<Longrightarrow> fit n bs = bs"
  by (simp add: fit_def)

lemma bslice_append_left: "off + n \<le> length xs \<Longrightarrow> bslice off n (xs @ ys) = bslice off n xs"
  by (simp add: bslice_def)

lemma bslice_append_right: "length xs \<le> off \<Longrightarrow> bslice off n (xs @ ys) = bslice (off - length xs) n ys"
  by (simp add: bslice_def)

lemma bslice_all: "n = length bs \<Longrightarrow> bslice 0 n bs = bs"
  by (simp add: bslice_def)

lemma bslice_zeros: "off + n \<le> k \<Longrightarrow> bslice off n (zeros k) = zeros n"
  by (simp add: bslice_def)

lemma bslice_slice: "off2 + n2 \<le> n1 \<Longrightarrow> bslice off2 n2 (bslice off1 n1 bs) = bslice (off1 + off2) n2 bs"
  by (simp add: bslice_def drop_take add.commute)

lemma bslice_bsplice_same:
  assumes "off + length src \<le> length bs"
  shows "bslice off (length src) (bsplice off src bs) = src"
proof -
  have "drop off (take off bs @ src @ drop (off + length src) bs) = src @ drop (off + length src) bs"
    using assms by (simp add: drop_append)
  then show ?thesis by (simp add: bslice_def bsplice_def)
qed

lemma bslice_bsplice_before:
  assumes "a + n \<le> off" and "off \<le> length bs"
  shows "bslice a n (bsplice off src bs) = bslice a n bs"
proof -
  have "n \<le> off - a" and "a \<le> off" using assms by auto
  then show ?thesis using assms by (simp add: bslice_def bsplice_def drop_take min_absorb1 min_absorb2)
qed

lemma bslice_bsplice_after:
  assumes "off + length src \<le> a" and "off + length src \<le> length bs"
  shows "bslice a n (bsplice off src bs) = bslice a n bs"
  using assms by (simp add: bslice_def bsplice_def)

lemma bsplice_append_left:
  "off + length src \<le> length xs \<Longrightarrow> bsplice off src (xs @ ys) = bsplice off src xs @ ys"
  by (simp add: bsplice_def)

lemma bsplice_append_right:
  "length xs \<le> off \<Longrightarrow> bsplice off src (xs @ ys) = xs @ bsplice (off - length xs) src ys"
  by (simp add: bsplice_def)

lemma bsplice_all: "length src = length bs \<Longrightarrow> bsplice 0 src bs = src"
  by (simp add: bsplice_def)

lemmas bslice_bsplice [codec_simps] = bslice_bsplice_same bslice_bsplice_before bslice_bsplice_after

section \<open>Little-endian integers\<close>

primrec le_bytes :: "nat \<Rightarrow> nat \<Rightarrow> bytes" where
  "le_bytes 0 v = []"
| "le_bytes (Suc n) v = word_of_nat v # le_bytes n (v div 256)"

primrec le_val :: "bytes \<Rightarrow> nat" where
  "le_val [] = 0"
| "le_val (b # bs) = unat b + 256 * le_val bs"

lemma length_le_bytes [simp]: "length (le_bytes n v) = n"
  by (induction n arbitrary: v) simp_all

lemma unat_of_nat_u8: "unat (word_of_nat v :: u8) = v mod 256"
  by (simp add: unat_of_nat)

lemma le_val_le_bytes: "le_val (le_bytes n v) = v mod 256 ^ n"
proof (induction n arbitrary: v)
  case 0
  then show ?case by simp
next
  case (Suc n)
  have "v mod 256 ^ Suc n = v mod 256 + 256 * (v div 256 mod 256 ^ n)"
    by (simp add: mod_mult2_eq)
  with Suc show ?case by (simp add: unat_of_nat_u8)
qed

lemma le_val_bound: "le_val bs < 256 ^ length bs"
proof (induction bs)
  case Nil
  then show ?case by simp
next
  case (Cons b bs)
  have "unat b < 256" using unat_less_pow [of b] by simp
  with Cons have "unat b + 256 * le_val bs < 256 * Suc (le_val bs)" by simp
  also from Cons have "256 * Suc (le_val bs) \<le> 256 * 256 ^ length bs" by simp
  finally show ?case by simp
qed

lemma le_bytes_le_val: "le_bytes (length bs) (le_val bs) = bs"
proof (induction bs)
  case Nil
  then show ?case by simp
next
  case (Cons b bs)
  have b: "unat b < 256" using unat_less_pow [of b] by simp
  have z: "(256 :: u8) = 0" by (rule word_unat_eq_iff [THEN iffD2]) simp
  have "(word_of_nat (unat b + 256 * le_val bs) :: u8) = b" by (simp add: z)
  moreover have "(unat b + 256 * le_val bs) div 256 = le_val bs" using b by simp
  ultimately show ?case using Cons by simp
qed

lemma le_val_zeros [simp]: "le_val (zeros n) = 0"
  by (induction n) simp_all

definition enc16 :: "u16 \<Rightarrow> bytes" where "enc16 x = le_bytes 2 (unat x)"
definition enc32 :: "u32 \<Rightarrow> bytes" where "enc32 x = le_bytes 4 (unat x)"
definition enc64 :: "u64 \<Rightarrow> bytes" where "enc64 x = le_bytes 8 (unat x)"
definition dec16 :: "bytes \<Rightarrow> u16" where "dec16 bs = word_of_nat (le_val bs)"
definition dec32 :: "bytes \<Rightarrow> u32" where "dec32 bs = word_of_nat (le_val bs)"
definition dec64 :: "bytes \<Rightarrow> u64" where "dec64 bs = word_of_nat (le_val bs)"

lemma length_enc [simp, codec_simps]:
  "length (enc16 x) = 2" "length (enc32 y) = 4" "length (enc64 z) = 8"
  by (simp_all add: enc16_def enc32_def enc64_def)

lemma dec16_enc16 [simp]: "dec16 (enc16 x) = x"
  using unat_less_pow [of x] by (simp add: dec16_def enc16_def le_val_le_bytes)

lemma dec32_enc32 [simp]: "dec32 (enc32 x) = x"
  using unat_less_pow [of x] by (simp add: dec32_def enc32_def le_val_le_bytes)

lemma dec64_enc64 [simp]: "dec64 (enc64 x) = x"
  using unat_less_pow [of x] by (simp add: dec64_def enc64_def le_val_le_bytes)

lemma enc16_dec16: "length bs = 2 \<Longrightarrow> enc16 (dec16 bs) = bs"
  using le_val_bound [of bs] le_bytes_le_val [of bs] by (simp add: dec16_def enc16_def unat_of_nat)

lemma enc32_dec32: "length bs = 4 \<Longrightarrow> enc32 (dec32 bs) = bs"
  using le_val_bound [of bs] le_bytes_le_val [of bs] by (simp add: dec32_def enc32_def unat_of_nat)

lemma enc64_dec64: "length bs = 8 \<Longrightarrow> enc64 (dec64 bs) = bs"
  using le_val_bound [of bs] le_bytes_le_val [of bs] by (simp add: dec64_def enc64_def unat_of_nat)

lemma dec_zeros [simp]: "dec16 (zeros n) = 0" "dec32 (zeros n) = 0" "dec64 (zeros n) = 0"
  by (simp_all add: dec16_def dec32_def dec64_def)

lemma le_bytes_zero [simp]: "le_bytes n 0 = zeros n"
  by (induction n) simp_all

lemma enc_zero [simp]: "enc16 0 = zeros 2" "enc32 0 = zeros 4" "enc64 0 = zeros 8"
  by (simp_all add: enc16_def enc32_def enc64_def)

section \<open>Casts\<close>

lemma unat_as_u32: "unat (as_u32 n) = n mod 2 ^ 32"
  by (simp add: as_u32_def unat_of_nat)

lemma unat_as_u32_small [simp]: "n \<le> u32_max_nat \<Longrightarrow> unat (as_u32 n) = n"
  by (simp add: unat_as_u32)

lemma unat_U32_MAX [simp]: "unat U32_MAX = u32_max_nat"
  by (simp add: U32_MAX_def)

lemma unat_le_U32_MAX: "unat (x :: u32) \<le> u32_max_nat"
  using unat_less_pow [of x] by simp

end
