(* ===== verification/Sgx_Error.thy ===== *)
theory Sgx_Error
  imports Sgx_Prelude
begin

text \<open>
  The status codes of \<^verbatim>\<open>src/sgx_types/src/error.rs\<close>: the enumeration \<^verbatim>\<open>sgx_status_t\<close> with the
  representation the FFI uses, the conversions that the macro \<^verbatim>\<open>impl_enum!\<close> generates from the
  variant table (\<^verbatim>\<open>from_key\<close>, \<^verbatim>\<open>from_repr\<close>), and the two tables of texts. The lemmas show
  that the representation is injective, that \<^verbatim>\<open>from_repr\<close> inverts it, and that the names are
  pairwise different.
\<close>

section \<open>The enumeration\<close>

datatype (plugins only: size) sgx_status_t =
    SGX_SUCCESS
  | SGX_ERROR_UNEXPECTED
  | SGX_ERROR_INVALID_PARAMETER
  | SGX_ERROR_OUT_OF_MEMORY
  | SGX_ERROR_ENCLAVE_LOST
  | SGX_ERROR_INVALID_STATE
  | SGX_ERROR_FEATURE_NOT_SUPPORTED
  | SGX_PTHREAD_EXIT
  | SGX_ERROR_MEMORY_MAP_FAILURE
  | SGX_ERROR_INVALID_FUNCTION
  | SGX_ERROR_OUT_OF_TCS
  | SGX_ERROR_ENCLAVE_CRASHED
  | SGX_ERROR_ECALL_NOT_ALLOWED
  | SGX_ERROR_OCALL_NOT_ALLOWED
  | SGX_ERROR_STACK_OVERRUN
  | SGX_ERROR_UNDEFINED_SYMBOL
  | SGX_ERROR_INVALID_ENCLAVE
  | SGX_ERROR_INVALID_ENCLAVE_ID
  | SGX_ERROR_INVALID_SIGNATURE
  | SGX_ERROR_NDEBUG_ENCLAVE
  | SGX_ERROR_OUT_OF_EPC
  | SGX_ERROR_NO_DEVICE
  | SGX_ERROR_MEMORY_MAP_CONFLICT
  | SGX_ERROR_INVALID_METADATA
  | SGX_ERROR_DEVICE_BUSY
  | SGX_ERROR_INVALID_VERSION
  | SGX_ERROR_MODE_INCOMPATIBLE
  | SGX_ERROR_ENCLAVE_FILE_ACCESS
  | SGX_ERROR_INVALID_MISC
  | SGX_ERROR_INVALID_LAUNCH_TOKEN
  | SGX_ERROR_MAC_MISMATCH
  | SGX_ERROR_INVALID_ATTRIBUTE
  | SGX_ERROR_INVALID_CPUSVN
  | SGX_ERROR_INVALID_ISVSVN
  | SGX_ERROR_INVALID_KEYNAME
  | SGX_ERROR_SERVICE_UNAVAILABLE
  | SGX_ERROR_SERVICE_TIMEOUT
  | SGX_ERROR_AE_INVALID_EPIDBLOB
  | SGX_ERROR_SERVICE_INVALID_PRIVILEGE
  | SGX_ERROR_EPID_MEMBER_REVOKED
  | SGX_ERROR_UPDATE_NEEDED
  | SGX_ERROR_NETWORK_FAILURE
  | SGX_ERROR_AE_SESSION_INVALID
  | SGX_ERROR_BUSY
  | SGX_ERROR_MC_NOT_FOUND
  | SGX_ERROR_MC_NO_ACCESS_RIGHT
  | SGX_ERROR_MC_USED_UP
  | SGX_ERROR_MC_OVER_QUOTA
  | SGX_ERROR_KDF_MISMATCH
  | SGX_ERROR_UNRECOGNIZED_PLATFORM
  | SGX_ERROR_UNSUPPORTED_CONFIG
  | SGX_ERROR_NO_PRIVILEGE
  | SGX_ERROR_PCL_ENCRYPTED
  | SGX_ERROR_PCL_NOT_ENCRYPTED
  | SGX_ERROR_PCL_MAC_MISMATCH
  | SGX_ERROR_PCL_SHA_MISMATCH
  | SGX_ERROR_PCL_GUID_MISMATCH
  | SGX_ERROR_FILE_BAD_STATUS
  | SGX_ERROR_FILE_NO_KEY_ID
  | SGX_ERROR_FILE_NAME_MISMATCH
  | SGX_ERROR_FILE_NOT_SGX_FILE
  | SGX_ERROR_FILE_CANT_OPEN_RECOVERY_FILE
  | SGX_ERROR_FILE_CANT_WRITE_RECOVERY_FILE
  | SGX_ERROR_FILE_RECOVERY_NEEDED
  | SGX_ERROR_FILE_FLUSH_FAILED
  | SGX_ERROR_FILE_CLOSE_FAILED
  | SGX_ERROR_UNSUPPORTED_ATT_KEY_ID
  | SGX_ERROR_ATT_KEY_CERTIFICATION_FAILURE
  | SGX_ERROR_ATT_KEY_UNINITIALIZED
  | SGX_ERROR_INVALID_ATT_KEY_CERT_DATA
  | SGX_ERROR_PLATFORM_CERT_UNAVAILABLE
  | SGX_INTERNAL_ERROR_ENCLAVE_CREATE_INTERRUPTED
  | SGX_ERROR_WASM_BUFFER_TOO_SHORT
  | SGX_ERROR_WASM_INTERPRETER_ERROR
  | SGX_ERROR_WASM_LOAD_MODULE_ERROR
  | SGX_ERROR_WASM_TRY_LOAD_ERROR
  | SGX_ERROR_WASM_REGISTER_ERROR
  | SGX_ERROR_FAAS_BUFFER_TOO_SHORT
  | SGX_ERROR_FAAS_INTERNAL_ERROR

text \<open>A result of the SGX API: \<^verbatim>\<open>SgxResult<T>\<close>; \<^verbatim>\<open>SgxError\<close> is \<^verbatim>\<open>SgxResult<()>\<close>.\<close>

type_synonym 'a SgxResult = "sgx_status_t + 'a"
type_synonym SgxError = "unit SgxResult"

primrec from_key :: "sgx_status_t \<Rightarrow> u32" where
  "from_key SGX_SUCCESS = 0x00000000"
| "from_key SGX_ERROR_UNEXPECTED = 0x00000001"
| "from_key SGX_ERROR_INVALID_PARAMETER = 0x00000002"
| "from_key SGX_ERROR_OUT_OF_MEMORY = 0x00000003"
| "from_key SGX_ERROR_ENCLAVE_LOST = 0x00000004"
| "from_key SGX_ERROR_INVALID_STATE = 0x00000005"
| "from_key SGX_ERROR_FEATURE_NOT_SUPPORTED = 0x00000008"
| "from_key SGX_PTHREAD_EXIT = 0x00000009"
| "from_key SGX_ERROR_MEMORY_MAP_FAILURE = 0x0000000A"
| "from_key SGX_ERROR_INVALID_FUNCTION = 0x00001001"
| "from_key SGX_ERROR_OUT_OF_TCS = 0x00001003"
| "from_key SGX_ERROR_ENCLAVE_CRASHED = 0x00001006"
| "from_key SGX_ERROR_ECALL_NOT_ALLOWED = 0x00001007"
| "from_key SGX_ERROR_OCALL_NOT_ALLOWED = 0x00001008"
| "from_key SGX_ERROR_STACK_OVERRUN = 0x00001009"
| "from_key SGX_ERROR_UNDEFINED_SYMBOL = 0x00002000"
| "from_key SGX_ERROR_INVALID_ENCLAVE = 0x00002001"
| "from_key SGX_ERROR_INVALID_ENCLAVE_ID = 0x00002002"
| "from_key SGX_ERROR_INVALID_SIGNATURE = 0x00002003"
| "from_key SGX_ERROR_NDEBUG_ENCLAVE = 0x00002004"
| "from_key SGX_ERROR_OUT_OF_EPC = 0x00002005"
| "from_key SGX_ERROR_NO_DEVICE = 0x00002006"
| "from_key SGX_ERROR_MEMORY_MAP_CONFLICT = 0x00002007"
| "from_key SGX_ERROR_INVALID_METADATA = 0x00002009"
| "from_key SGX_ERROR_DEVICE_BUSY = 0x0000200C"
| "from_key SGX_ERROR_INVALID_VERSION = 0x0000200D"
| "from_key SGX_ERROR_MODE_INCOMPATIBLE = 0x0000200E"
| "from_key SGX_ERROR_ENCLAVE_FILE_ACCESS = 0x0000200F"
| "from_key SGX_ERROR_INVALID_MISC = 0x00002010"
| "from_key SGX_ERROR_INVALID_LAUNCH_TOKEN = 0x00002011"
| "from_key SGX_ERROR_MAC_MISMATCH = 0x00003001"
| "from_key SGX_ERROR_INVALID_ATTRIBUTE = 0x00003002"
| "from_key SGX_ERROR_INVALID_CPUSVN = 0x00003003"
| "from_key SGX_ERROR_INVALID_ISVSVN = 0x00003004"
| "from_key SGX_ERROR_INVALID_KEYNAME = 0x00003005"
| "from_key SGX_ERROR_SERVICE_UNAVAILABLE = 0x00004001"
| "from_key SGX_ERROR_SERVICE_TIMEOUT = 0x00004002"
| "from_key SGX_ERROR_AE_INVALID_EPIDBLOB = 0x00004003"
| "from_key SGX_ERROR_SERVICE_INVALID_PRIVILEGE = 0x00004004"
| "from_key SGX_ERROR_EPID_MEMBER_REVOKED = 0x00004005"
| "from_key SGX_ERROR_UPDATE_NEEDED = 0x00004006"
| "from_key SGX_ERROR_NETWORK_FAILURE = 0x00004007"
| "from_key SGX_ERROR_AE_SESSION_INVALID = 0x00004008"
| "from_key SGX_ERROR_BUSY = 0x0000400A"
| "from_key SGX_ERROR_MC_NOT_FOUND = 0x0000400C"
| "from_key SGX_ERROR_MC_NO_ACCESS_RIGHT = 0x0000400D"
| "from_key SGX_ERROR_MC_USED_UP = 0x0000400E"
| "from_key SGX_ERROR_MC_OVER_QUOTA = 0x0000400F"
| "from_key SGX_ERROR_KDF_MISMATCH = 0x00004011"
| "from_key SGX_ERROR_UNRECOGNIZED_PLATFORM = 0x00004012"
| "from_key SGX_ERROR_UNSUPPORTED_CONFIG = 0x00004013"
| "from_key SGX_ERROR_NO_PRIVILEGE = 0x00005002"
| "from_key SGX_ERROR_PCL_ENCRYPTED = 0x00006001"
| "from_key SGX_ERROR_PCL_NOT_ENCRYPTED = 0x00006002"
| "from_key SGX_ERROR_PCL_MAC_MISMATCH = 0x00006003"
| "from_key SGX_ERROR_PCL_SHA_MISMATCH = 0x00006004"
| "from_key SGX_ERROR_PCL_GUID_MISMATCH = 0x00006005"
| "from_key SGX_ERROR_FILE_BAD_STATUS = 0x00007001"
| "from_key SGX_ERROR_FILE_NO_KEY_ID = 0x00007002"
| "from_key SGX_ERROR_FILE_NAME_MISMATCH = 0x00007003"
| "from_key SGX_ERROR_FILE_NOT_SGX_FILE = 0x00007004"
| "from_key SGX_ERROR_FILE_CANT_OPEN_RECOVERY_FILE = 0x00007005"
| "from_key SGX_ERROR_FILE_CANT_WRITE_RECOVERY_FILE = 0x00007006"
| "from_key SGX_ERROR_FILE_RECOVERY_NEEDED = 0x00007007"
| "from_key SGX_ERROR_FILE_FLUSH_FAILED = 0x00007008"
| "from_key SGX_ERROR_FILE_CLOSE_FAILED = 0x00007009"
| "from_key SGX_ERROR_UNSUPPORTED_ATT_KEY_ID = 0x00008001"
| "from_key SGX_ERROR_ATT_KEY_CERTIFICATION_FAILURE = 0x00008002"
| "from_key SGX_ERROR_ATT_KEY_UNINITIALIZED = 0x00008003"
| "from_key SGX_ERROR_INVALID_ATT_KEY_CERT_DATA = 0x00008004"
| "from_key SGX_ERROR_PLATFORM_CERT_UNAVAILABLE = 0x00008005"
| "from_key SGX_INTERNAL_ERROR_ENCLAVE_CREATE_INTERRUPTED = 0x0000F001"
| "from_key SGX_ERROR_WASM_BUFFER_TOO_SHORT = 0x0F00F001"
| "from_key SGX_ERROR_WASM_INTERPRETER_ERROR = 0x0F00F002"
| "from_key SGX_ERROR_WASM_LOAD_MODULE_ERROR = 0x0F00F003"
| "from_key SGX_ERROR_WASM_TRY_LOAD_ERROR = 0x0F00F004"
| "from_key SGX_ERROR_WASM_REGISTER_ERROR = 0x0F00F005"
| "from_key SGX_ERROR_FAAS_BUFFER_TOO_SHORT = 0x0F00E001"
| "from_key SGX_ERROR_FAAS_INTERNAL_ERROR = 0x0F00E002"

text \<open>The arms of the \<^verbatim>\<open>match\<close> in \<^verbatim>\<open>from_repr\<close>, in the order of the declaration.\<close>

definition from_repr_arms :: "(u32 \<times> sgx_status_t) list" where
  "from_repr_arms = [
     (0x00000000, SGX_SUCCESS),
     (0x00000001, SGX_ERROR_UNEXPECTED),
     (0x00000002, SGX_ERROR_INVALID_PARAMETER),
     (0x00000003, SGX_ERROR_OUT_OF_MEMORY),
     (0x00000004, SGX_ERROR_ENCLAVE_LOST),
     (0x00000005, SGX_ERROR_INVALID_STATE),
     (0x00000008, SGX_ERROR_FEATURE_NOT_SUPPORTED),
     (0x00000009, SGX_PTHREAD_EXIT),
     (0x0000000A, SGX_ERROR_MEMORY_MAP_FAILURE),
     (0x00001001, SGX_ERROR_INVALID_FUNCTION),
     (0x00001003, SGX_ERROR_OUT_OF_TCS),
     (0x00001006, SGX_ERROR_ENCLAVE_CRASHED),
     (0x00001007, SGX_ERROR_ECALL_NOT_ALLOWED),
     (0x00001008, SGX_ERROR_OCALL_NOT_ALLOWED),
     (0x00001009, SGX_ERROR_STACK_OVERRUN),
     (0x00002000, SGX_ERROR_UNDEFINED_SYMBOL),
     (0x00002001, SGX_ERROR_INVALID_ENCLAVE),
     (0x00002002, SGX_ERROR_INVALID_ENCLAVE_ID),
     (0x00002003, SGX_ERROR_INVALID_SIGNATURE),
     (0x00002004, SGX_ERROR_NDEBUG_ENCLAVE),
     (0x00002005, SGX_ERROR_OUT_OF_EPC),
     (0x00002006, SGX_ERROR_NO_DEVICE),
     (0x00002007, SGX_ERROR_MEMORY_MAP_CONFLICT),
     (0x00002009, SGX_ERROR_INVALID_METADATA),
     (0x0000200C, SGX_ERROR_DEVICE_BUSY),
     (0x0000200D, SGX_ERROR_INVALID_VERSION),
     (0x0000200E, SGX_ERROR_MODE_INCOMPATIBLE),
     (0x0000200F, SGX_ERROR_ENCLAVE_FILE_ACCESS),
     (0x00002010, SGX_ERROR_INVALID_MISC),
     (0x00002011, SGX_ERROR_INVALID_LAUNCH_TOKEN),
     (0x00003001, SGX_ERROR_MAC_MISMATCH),
     (0x00003002, SGX_ERROR_INVALID_ATTRIBUTE),
     (0x00003003, SGX_ERROR_INVALID_CPUSVN),
     (0x00003004, SGX_ERROR_INVALID_ISVSVN),
     (0x00003005, SGX_ERROR_INVALID_KEYNAME),
     (0x00004001, SGX_ERROR_SERVICE_UNAVAILABLE),
     (0x00004002, SGX_ERROR_SERVICE_TIMEOUT),
     (0x00004003, SGX_ERROR_AE_INVALID_EPIDBLOB),
     (0x00004004, SGX_ERROR_SERVICE_INVALID_PRIVILEGE),
     (0x00004005, SGX_ERROR_EPID_MEMBER_REVOKED),
     (0x00004006, SGX_ERROR_UPDATE_NEEDED),
     (0x00004007, SGX_ERROR_NETWORK_FAILURE),
     (0x00004008, SGX_ERROR_AE_SESSION_INVALID),
     (0x0000400A, SGX_ERROR_BUSY),
     (0x0000400C, SGX_ERROR_MC_NOT_FOUND),
     (0x0000400D, SGX_ERROR_MC_NO_ACCESS_RIGHT),
     (0x0000400E, SGX_ERROR_MC_USED_UP),
     (0x0000400F, SGX_ERROR_MC_OVER_QUOTA),
     (0x00004011, SGX_ERROR_KDF_MISMATCH),
     (0x00004012, SGX_ERROR_UNRECOGNIZED_PLATFORM),
     (0x00004013, SGX_ERROR_UNSUPPORTED_CONFIG),
     (0x00005002, SGX_ERROR_NO_PRIVILEGE),
     (0x00006001, SGX_ERROR_PCL_ENCRYPTED),
     (0x00006002, SGX_ERROR_PCL_NOT_ENCRYPTED),
     (0x00006003, SGX_ERROR_PCL_MAC_MISMATCH),
     (0x00006004, SGX_ERROR_PCL_SHA_MISMATCH),
     (0x00006005, SGX_ERROR_PCL_GUID_MISMATCH),
     (0x00007001, SGX_ERROR_FILE_BAD_STATUS),
     (0x00007002, SGX_ERROR_FILE_NO_KEY_ID),
     (0x00007003, SGX_ERROR_FILE_NAME_MISMATCH),
     (0x00007004, SGX_ERROR_FILE_NOT_SGX_FILE),
     (0x00007005, SGX_ERROR_FILE_CANT_OPEN_RECOVERY_FILE),
     (0x00007006, SGX_ERROR_FILE_CANT_WRITE_RECOVERY_FILE),
     (0x00007007, SGX_ERROR_FILE_RECOVERY_NEEDED),
     (0x00007008, SGX_ERROR_FILE_FLUSH_FAILED),
     (0x00007009, SGX_ERROR_FILE_CLOSE_FAILED),
     (0x00008001, SGX_ERROR_UNSUPPORTED_ATT_KEY_ID),
     (0x00008002, SGX_ERROR_ATT_KEY_CERTIFICATION_FAILURE),
     (0x00008003, SGX_ERROR_ATT_KEY_UNINITIALIZED),
     (0x00008004, SGX_ERROR_INVALID_ATT_KEY_CERT_DATA),
     (0x00008005, SGX_ERROR_PLATFORM_CERT_UNAVAILABLE),
     (0x0000F001, SGX_INTERNAL_ERROR_ENCLAVE_CREATE_INTERRUPTED),
     (0x0F00F001, SGX_ERROR_WASM_BUFFER_TOO_SHORT),
     (0x0F00F002, SGX_ERROR_WASM_INTERPRETER_ERROR),
     (0x0F00F003, SGX_ERROR_WASM_LOAD_MODULE_ERROR),
     (0x0F00F004, SGX_ERROR_WASM_TRY_LOAD_ERROR),
     (0x0F00F005, SGX_ERROR_WASM_REGISTER_ERROR),
     (0x0F00E001, SGX_ERROR_FAAS_BUFFER_TOO_SHORT),
     (0x0F00E002, SGX_ERROR_FAAS_INTERNAL_ERROR)]"

definition from_repr :: "u32 \<Rightarrow> sgx_status_t option" where
  "from_repr v = map_of from_repr_arms v"

primrec description :: "sgx_status_t \<Rightarrow> string" where
  "description SGX_SUCCESS = ''Success.''"
| "description SGX_ERROR_UNEXPECTED = ''Unexpected error occurred.''"
| "description SGX_ERROR_INVALID_PARAMETER = ''The parameter is incorrect.''"
| "description SGX_ERROR_OUT_OF_MEMORY = ''Not enough memory is available to complete this operation.''"
| "description SGX_ERROR_ENCLAVE_LOST = ''Enclave lost after power transition or used in child process created.''"
| "description SGX_ERROR_INVALID_STATE = ''SGX API is invoked in incorrect order or state.''"
| "description SGX_ERROR_FEATURE_NOT_SUPPORTED = ''Feature is not supported on this platform.''"
| "description SGX_PTHREAD_EXIT = ''Enclave is exited with pthread_exit.''"
| "description SGX_ERROR_MEMORY_MAP_FAILURE = ''Failed to reserve memory for the enclave.''"
| "description SGX_ERROR_INVALID_FUNCTION = ''The ecall/ocall index is invalid.''"
| "description SGX_ERROR_OUT_OF_TCS = ''The enclave is out of TCS.''"
| "description SGX_ERROR_ENCLAVE_CRASHED = ''The enclave is crashed.''"
| "description SGX_ERROR_ECALL_NOT_ALLOWED = ''The ECALL is not allowed at this time.''"
| "description SGX_ERROR_OCALL_NOT_ALLOWED = ''The OCALL is not allowed at this time.''"
| "description SGX_ERROR_STACK_OVERRUN = ''The enclave is running out of stack.''"
| "description SGX_ERROR_UNDEFINED_SYMBOL = ''The enclave image has undefined symbol.''"
| "description SGX_ERROR_INVALID_ENCLAVE = ''The enclave image is not correct.''"
| "description SGX_ERROR_INVALID_ENCLAVE_ID = ''The enclave id is invalid.''"
| "description SGX_ERROR_INVALID_SIGNATURE = ''The signature is invalid.''"
| "description SGX_ERROR_NDEBUG_ENCLAVE = ''The enclave can not be created as debuggable enclave.''"
| "description SGX_ERROR_OUT_OF_EPC = ''Not enough EPC is available to load the enclave.''"
| "description SGX_ERROR_NO_DEVICE = ''Can't open SGX device.''"
| "description SGX_ERROR_MEMORY_MAP_CONFLICT = ''Page mapping failed in driver.''"
| "description SGX_ERROR_INVALID_METADATA = ''The metadata is incorrect.''"
| "description SGX_ERROR_DEVICE_BUSY = ''Device is busy, mostly EINIT failed.''"
| "description SGX_ERROR_INVALID_VERSION = ''Enclave version was invalid.''"
| "description SGX_ERROR_MODE_INCOMPATIBLE = ''The target enclave mode is incompatible with the mode of current uRTS.''"
| "description SGX_ERROR_ENCLAVE_FILE_ACCESS = ''Can't open enclave file.''"
| "description SGX_ERROR_INVALID_MISC = ''The MiscSelct/MiscMask settings are not correct.''"
| "description SGX_ERROR_INVALID_LAUNCH_TOKEN = ''The launch token is not correct.''"
| "description SGX_ERROR_MAC_MISMATCH = ''Indicates verification error for reports, sealed datas, etc.''"
| "description SGX_ERROR_INVALID_ATTRIBUTE = ''The enclave is not authorized.''"
| "description SGX_ERROR_INVALID_CPUSVN = ''The cpu svn is beyond platform's cpu svn value.''"
| "description SGX_ERROR_INVALID_ISVSVN = ''The isv svn is greater than the enclave's isv svn.''"
| "description SGX_ERROR_INVALID_KEYNAME = ''The key name is an unsupported value.''"
| "description SGX_ERROR_SERVICE_UNAVAILABLE = ''Indicates aesm didn't response or the requested service is not supported.''"
| "description SGX_ERROR_SERVICE_TIMEOUT = ''The request to aesm time out.''"
| "description SGX_ERROR_AE_INVALID_EPIDBLOB = ''Indicates epid blob verification error.''"
| "description SGX_ERROR_SERVICE_INVALID_PRIVILEGE = ''Enclave has no privilege to get launch token.''"
| "description SGX_ERROR_EPID_MEMBER_REVOKED = ''The EPID group membership is revoked.''"
| "description SGX_ERROR_UPDATE_NEEDED = ''SGX needs to be updated.''"
| "description SGX_ERROR_NETWORK_FAILURE = ''Network connecting or proxy setting issue is encountered.''"
| "description SGX_ERROR_AE_SESSION_INVALID = ''Session is invalid or ended by server.''"
| "description SGX_ERROR_BUSY = ''The requested service is temporarily not availabe.''"
| "description SGX_ERROR_MC_NOT_FOUND = ''The Monotonic Counter doesn't exist or has been invalided.''"
| "description SGX_ERROR_MC_NO_ACCESS_RIGHT = ''Caller doesn't have the access right to specified VMC.''"
| "description SGX_ERROR_MC_USED_UP = ''Monotonic counters are used out.''"
| "description SGX_ERROR_MC_OVER_QUOTA = ''Monotonic counters exceeds quota limitation.''"
| "description SGX_ERROR_KDF_MISMATCH = ''Key derivation function doesn't match during key exchange.''"
| "description SGX_ERROR_UNRECOGNIZED_PLATFORM = ''EPID Provisioning failed due to platform not recognized by backend server.''"
| "description SGX_ERROR_UNSUPPORTED_CONFIG = ''The config for trigging EPID Provisiong or PSE Provisiong&LTP is invalid.''"
| "description SGX_ERROR_NO_PRIVILEGE = ''Not enough privilege to perform the operation.''"
| "description SGX_ERROR_PCL_ENCRYPTED = ''Trying to encrypt an already encrypted enclave.''"
| "description SGX_ERROR_PCL_NOT_ENCRYPTED = ''Trying to load a plain enclave using sgx_create_encrypted_enclave.''"
| "description SGX_ERROR_PCL_MAC_MISMATCH = ''Section mac result does not match build time mac.''"
| "description SGX_ERROR_PCL_SHA_MISMATCH = ''Unsealed key MAC does not match MAC of key hardcoded in enclave binary.''"
| "description SGX_ERROR_PCL_GUID_MISMATCH = ''GUID in sealed blob does not match GUID hardcoded in enclave binary.''"
| "description SGX_ERROR_FILE_BAD_STATUS = ''The file is in bad status.''"
| "description SGX_ERROR_FILE_NO_KEY_ID = ''The Key ID field is all zeros, can't regenerate the encryption key.''"
| "description SGX_ERROR_FILE_NAME_MISMATCH = ''The current file name is different then the original file name.''"
| "description SGX_ERROR_FILE_NOT_SGX_FILE = ''The file is not an SGX file.''"
| "description SGX_ERROR_FILE_CANT_OPEN_RECOVERY_FILE = ''A recovery file can't be opened, so flush operation can't continue.''"
| "description SGX_ERROR_FILE_CANT_WRITE_RECOVERY_FILE = ''A recovery file can't be written, so flush operation can't continue.''"
| "description SGX_ERROR_FILE_RECOVERY_NEEDED = ''When openeing the file, recovery is needed, but the recovery process failed.''"
| "description SGX_ERROR_FILE_FLUSH_FAILED = ''fflush operation failed.''"
| "description SGX_ERROR_FILE_CLOSE_FAILED = ''fclose operation failed.''"
| "description SGX_ERROR_UNSUPPORTED_ATT_KEY_ID = ''platform quoting infrastructure does not support the key.''"
| "description SGX_ERROR_ATT_KEY_CERTIFICATION_FAILURE = ''Failed to generate and certify the attestation key.''"
| "description SGX_ERROR_ATT_KEY_UNINITIALIZED = ''The platform quoting infrastructure does not have the attestation key available to generate quote.''"
| "description SGX_ERROR_INVALID_ATT_KEY_CERT_DATA = ''The data returned by the platform library is invalid.''"
| "description SGX_ERROR_PLATFORM_CERT_UNAVAILABLE = ''The PCK Cert for the platform is not available.''"
| "description SGX_INTERNAL_ERROR_ENCLAVE_CREATE_INTERRUPTED = ''The ioctl for enclave_create unexpectedly failed with EINTR.''"
| "description SGX_ERROR_WASM_BUFFER_TOO_SHORT = ''sgx wasm output buffer too small.''"
| "description SGX_ERROR_WASM_INTERPRETER_ERROR = ''sgx wasm interpreter error.''"
| "description SGX_ERROR_WASM_LOAD_MODULE_ERROR = ''sgxwasm loadmodule error.''"
| "description SGX_ERROR_WASM_TRY_LOAD_ERROR = ''sgxwasm tryload error.''"
| "description SGX_ERROR_WASM_REGISTER_ERROR = ''sgxwasm register error.''"
| "description SGX_ERROR_FAAS_BUFFER_TOO_SHORT = ''faas output buffer too short.''"
| "description SGX_ERROR_FAAS_INTERNAL_ERROR = ''faas exec internal error.''"

primrec as_str :: "sgx_status_t \<Rightarrow> string" where
  "as_str SGX_SUCCESS = ''SGX_SUCCESS.''"
| "as_str SGX_ERROR_UNEXPECTED = ''SGX_ERROR_UNEXPECTED''"
| "as_str SGX_ERROR_INVALID_PARAMETER = ''SGX_ERROR_INVALID_PARAMETER''"
| "as_str SGX_ERROR_OUT_OF_MEMORY = ''SGX_ERROR_OUT_OF_MEMORY''"
| "as_str SGX_ERROR_ENCLAVE_LOST = ''SGX_ERROR_ENCLAVE_LOST''"
| "as_str SGX_ERROR_INVALID_STATE = ''SGX_ERROR_INVALID_STATE''"
| "as_str SGX_ERROR_FEATURE_NOT_SUPPORTED = ''SGX_ERROR_FEATURE_NOT_SUPPORTED''"
| "as_str SGX_PTHREAD_EXIT = ''SGX_PTHREAD_EXIT''"
| "as_str SGX_ERROR_MEMORY_MAP_FAILURE = ''SGX_ERROR_MEMORY_MAP_FAILURE''"
| "as_str SGX_ERROR_INVALID_FUNCTION = ''SGX_ERROR_INVALID_FUNCTION''"
| "as_str SGX_ERROR_OUT_OF_TCS = ''SGX_ERROR_OUT_OF_TCS''"
| "as_str SGX_ERROR_ENCLAVE_CRASHED = ''SGX_ERROR_ENCLAVE_CRASHED''"
| "as_str SGX_ERROR_ECALL_NOT_ALLOWED = ''SGX_ERROR_ECALL_NOT_ALLOWED''"
| "as_str SGX_ERROR_OCALL_NOT_ALLOWED = ''SGX_ERROR_OCALL_NOT_ALLOWED''"
| "as_str SGX_ERROR_STACK_OVERRUN = ''SGX_ERROR_STACK_OVERRUN''"
| "as_str SGX_ERROR_UNDEFINED_SYMBOL = ''SGX_ERROR_UNDEFINED_SYMBOL''"
| "as_str SGX_ERROR_INVALID_ENCLAVE = ''SGX_ERROR_INVALID_ENCLAVE''"
| "as_str SGX_ERROR_INVALID_ENCLAVE_ID = ''SGX_ERROR_INVALID_ENCLAVE_ID''"
| "as_str SGX_ERROR_INVALID_SIGNATURE = ''SGX_ERROR_INVALID_SIGNATURE''"
| "as_str SGX_ERROR_NDEBUG_ENCLAVE = ''SGX_ERROR_NDEBUG_ENCLAVE''"
| "as_str SGX_ERROR_OUT_OF_EPC = ''SGX_ERROR_OUT_OF_EPC''"
| "as_str SGX_ERROR_NO_DEVICE = ''SGX_ERROR_NO_DEVICE''"
| "as_str SGX_ERROR_MEMORY_MAP_CONFLICT = ''SGX_ERROR_MEMORY_MAP_CONFLICT''"
| "as_str SGX_ERROR_INVALID_METADATA = ''SGX_ERROR_INVALID_METADATA''"
| "as_str SGX_ERROR_DEVICE_BUSY = ''SGX_ERROR_DEVICE_BUSY''"
| "as_str SGX_ERROR_INVALID_VERSION = ''SGX_ERROR_INVALID_VERSION''"
| "as_str SGX_ERROR_MODE_INCOMPATIBLE = ''SGX_ERROR_MODE_INCOMPATIBLE''"
| "as_str SGX_ERROR_ENCLAVE_FILE_ACCESS = ''SGX_ERROR_ENCLAVE_FILE_ACCESS''"
| "as_str SGX_ERROR_INVALID_MISC = ''SGX_ERROR_INVALID_MISC''"
| "as_str SGX_ERROR_INVALID_LAUNCH_TOKEN = ''SGX_ERROR_INVALID_LAUNCH_TOKEN''"
| "as_str SGX_ERROR_MAC_MISMATCH = ''SGX_ERROR_MAC_MISMATCH''"
| "as_str SGX_ERROR_INVALID_ATTRIBUTE = ''SGX_ERROR_INVALID_ATTRIBUTE''"
| "as_str SGX_ERROR_INVALID_CPUSVN = ''SGX_ERROR_INVALID_CPUSVN''"
| "as_str SGX_ERROR_INVALID_ISVSVN = ''SGX_ERROR_INVALID_ISVSVN''"
| "as_str SGX_ERROR_INVALID_KEYNAME = ''SGX_ERROR_INVALID_KEYNAME''"
| "as_str SGX_ERROR_SERVICE_UNAVAILABLE = ''SGX_ERROR_SERVICE_UNAVAILABLE''"
| "as_str SGX_ERROR_SERVICE_TIMEOUT = ''SGX_ERROR_SERVICE_TIMEOUT''"
| "as_str SGX_ERROR_AE_INVALID_EPIDBLOB = ''SGX_ERROR_AE_INVALID_EPIDBLOB''"
| "as_str SGX_ERROR_SERVICE_INVALID_PRIVILEGE = ''SGX_ERROR_SERVICE_INVALID_PRIVILEGE''"
| "as_str SGX_ERROR_EPID_MEMBER_REVOKED = ''SGX_ERROR_EPID_MEMBER_REVOKED''"
| "as_str SGX_ERROR_UPDATE_NEEDED = ''SGX_ERROR_UPDATE_NEEDED''"
| "as_str SGX_ERROR_NETWORK_FAILURE = ''SGX_ERROR_NETWORK_FAILURE''"
| "as_str SGX_ERROR_AE_SESSION_INVALID = ''SGX_ERROR_AE_SESSION_INVALID''"
| "as_str SGX_ERROR_BUSY = ''SGX_ERROR_BUSY''"
| "as_str SGX_ERROR_MC_NOT_FOUND = ''SGX_ERROR_MC_NOT_FOUND''"
| "as_str SGX_ERROR_MC_NO_ACCESS_RIGHT = ''SGX_ERROR_MC_NO_ACCESS_RIGHT''"
| "as_str SGX_ERROR_MC_USED_UP = ''SGX_ERROR_MC_USED_UP''"
| "as_str SGX_ERROR_MC_OVER_QUOTA = ''SGX_ERROR_MC_OVER_QUOTA''"
| "as_str SGX_ERROR_KDF_MISMATCH = ''SGX_ERROR_KDF_MISMATCH''"
| "as_str SGX_ERROR_UNRECOGNIZED_PLATFORM = ''SGX_ERROR_UNRECOGNIZED_PLATFORM''"
| "as_str SGX_ERROR_UNSUPPORTED_CONFIG = ''SGX_ERROR_UNSUPPORTED_CONFIG''"
| "as_str SGX_ERROR_NO_PRIVILEGE = ''SGX_ERROR_NO_PRIVILEGE''"
| "as_str SGX_ERROR_PCL_ENCRYPTED = ''SGX_ERROR_PCL_ENCRYPTED''"
| "as_str SGX_ERROR_PCL_NOT_ENCRYPTED = ''SGX_ERROR_PCL_NOT_ENCRYPTED''"
| "as_str SGX_ERROR_PCL_MAC_MISMATCH = ''SGX_ERROR_PCL_MAC_MISMATCH''"
| "as_str SGX_ERROR_PCL_SHA_MISMATCH = ''SGX_ERROR_PCL_SHA_MISMATCH''"
| "as_str SGX_ERROR_PCL_GUID_MISMATCH = ''SGX_ERROR_PCL_GUID_MISMATCH''"
| "as_str SGX_ERROR_FILE_BAD_STATUS = ''SGX_ERROR_FILE_BAD_STATUS''"
| "as_str SGX_ERROR_FILE_NO_KEY_ID = ''SGX_ERROR_FILE_NO_KEY_ID''"
| "as_str SGX_ERROR_FILE_NAME_MISMATCH = ''SGX_ERROR_FILE_NAME_MISMATCH''"
| "as_str SGX_ERROR_FILE_NOT_SGX_FILE = ''SGX_ERROR_FILE_NOT_SGX_FILE''"
| "as_str SGX_ERROR_FILE_CANT_OPEN_RECOVERY_FILE = ''SGX_ERROR_FILE_CANT_OPEN_RECOVERY_FILE''"
| "as_str SGX_ERROR_FILE_CANT_WRITE_RECOVERY_FILE = ''SGX_ERROR_FILE_CANT_WRITE_RECOVERY_FILE''"
| "as_str SGX_ERROR_FILE_RECOVERY_NEEDED = ''SGX_ERROR_FILE_RECOVERY_NEEDED''"
| "as_str SGX_ERROR_FILE_FLUSH_FAILED = ''SGX_ERROR_FILE_FLUSH_FAILED''"
| "as_str SGX_ERROR_FILE_CLOSE_FAILED = ''SGX_ERROR_FILE_CLOSE_FAILED''"
| "as_str SGX_ERROR_UNSUPPORTED_ATT_KEY_ID = ''SGX_ERROR_UNSUPPORTED_ATT_KEY_ID''"
| "as_str SGX_ERROR_ATT_KEY_CERTIFICATION_FAILURE = ''SGX_ERROR_ATT_KEY_CERTIFICATION_FAILURE''"
| "as_str SGX_ERROR_ATT_KEY_UNINITIALIZED = ''SGX_ERROR_ATT_KEY_UNINITIALIZED''"
| "as_str SGX_ERROR_INVALID_ATT_KEY_CERT_DATA = ''SGX_ERROR_INVALID_ATT_KEY_CERT_DATA''"
| "as_str SGX_ERROR_PLATFORM_CERT_UNAVAILABLE = ''SGX_ERROR_PLATFORM_CERT_UNAVAILABLE''"
| "as_str SGX_INTERNAL_ERROR_ENCLAVE_CREATE_INTERRUPTED = ''SGX_INTERNAL_ERROR_ENCLAVE_CREATE_INTERRUPTED''"
| "as_str SGX_ERROR_WASM_BUFFER_TOO_SHORT = ''SGX_ERROR_WASM_BUFFER_TOO_SHORT''"
| "as_str SGX_ERROR_WASM_INTERPRETER_ERROR = ''SGX_ERROR_WASM_INTERPRETER_ERROR''"
| "as_str SGX_ERROR_WASM_LOAD_MODULE_ERROR = ''SGX_ERROR_WASM_LOAD_MODULE_ERROR''"
| "as_str SGX_ERROR_WASM_TRY_LOAD_ERROR = ''SGX_ERROR_WASM_TRY_LOAD_ERROR''"
| "as_str SGX_ERROR_WASM_REGISTER_ERROR = ''SGX_ERROR_WASM_REGISTER_ERROR''"
| "as_str SGX_ERROR_FAAS_BUFFER_TOO_SHORT = ''SGX_ERROR_FAAS_BUFFER_TOO_SHORT''"
| "as_str SGX_ERROR_FAAS_INTERNAL_ERROR = ''SGX_ERROR_FAAS_INTERNAL_ERROR''"

section \<open>Properties\<close>

lemma from_repr_arms_keys: "map fst from_repr_arms = map (from_key \<circ> snd) from_repr_arms"
  by (simp add: from_repr_arms_def)

lemma distinct_from_repr_arms: "distinct (map fst from_repr_arms)"
  by (simp add: from_repr_arms_def)

lemma from_repr_arms_complete: "(from_key s, s) \<in> set from_repr_arms"
  by (cases s) (simp_all add: from_repr_arms_def)

lemma from_repr_from_key [simp]: "from_repr (from_key s) = Some s"
  unfolding from_repr_def
  by (rule map_of_is_SomeI [OF distinct_from_repr_arms from_repr_arms_complete])

lemma from_repr_arms_sound: "(v, s) \<in> set from_repr_arms \<Longrightarrow> from_key s = v"
  using from_repr_arms_keys by (auto simp: list_eq_iff_nth_eq in_set_conv_nth)

lemma from_key_inject [simp]: "from_key s = from_key t \<longleftrightarrow> s = t"
proof
  assume "from_key s = from_key t"
  then have "from_repr (from_key s) = from_repr (from_key t)" by (rule arg_cong)
  then show "s = t" by simp
qed simp

lemma from_repr_Some: "from_repr v = Some s \<Longrightarrow> from_key s = v"
  unfolding from_repr_def by (rule from_repr_arms_sound [OF map_of_SomeD])

text \<open>
  The derived \<^verbatim>\<open>PartialEq\<close> and \<^verbatim>\<open>Ord\<close> of the enumeration compare discriminants.
\<close>

instantiation sgx_status_t :: equal
begin

definition equal_sgx_status_t :: "sgx_status_t \<Rightarrow> sgx_status_t \<Rightarrow> bool" where
  "equal_sgx_status_t s t \<longleftrightarrow> from_key s = from_key t"

instance
  by standard (simp add: equal_sgx_status_t_def)

end

instantiation sgx_status_t :: linorder
begin

definition less_eq_sgx_status_t :: "sgx_status_t \<Rightarrow> sgx_status_t \<Rightarrow> bool" where
  "less_eq_sgx_status_t s t \<longleftrightarrow> from_key s \<le> from_key t"

definition less_sgx_status_t :: "sgx_status_t \<Rightarrow> sgx_status_t \<Rightarrow> bool" where
  "less_sgx_status_t s t \<longleftrightarrow> from_key s < from_key t"

instance
proof
  fix x y z :: sgx_status_t
  show "x < y \<longleftrightarrow> x \<le> y \<and> \<not> y \<le> x"
    by (simp add: less_eq_sgx_status_t_def less_sgx_status_t_def less_le_not_le)
  show "x \<le> x" by (simp add: less_eq_sgx_status_t_def)
  show "x \<le> y \<Longrightarrow> y \<le> z \<Longrightarrow> x \<le> z" by (simp add: less_eq_sgx_status_t_def)
  show "x \<le> y \<Longrightarrow> y \<le> x \<Longrightarrow> x = y"
    by (metis from_key_inject less_eq_sgx_status_t_def order_antisym)
  show "x \<le> y \<or> y \<le> x" by (simp add: less_eq_sgx_status_t_def linear)
qed

end

text \<open>
  The numeric codes of the status enumeration identify it: \<^verbatim>\<open>from_repr\<close> maps a \<^verbatim>\<open>u32\<close> to a status exactly
  when it is the code \<^verbatim>\<open>from_key\<close> gives that status, so no two statuses share a code and every other
  value is refused.
\<close>

theorem from_repr_iff: "from_repr v = Some s \<longleftrightarrow> v = from_key s"
  using from_repr_Some by auto

end
