(* ===== verification/Sgx_Types.thy ===== *)
theory Sgx_Types
  imports Sgx_Error
begin

text \<open>
  The C structures of \<^verbatim>\<open>src/sgx_types/src/types.rs\<close> that the trusted libraries exchange with the
  SGX instructions: attributes, key requests, reports, target infos, and the Diffie-Hellman
  messages. Each structure is a record with the source's fields and comes with its memory image
  (\<open>..._to_bytes\<close>, \<open>..._of_bytes\<close>: \<^verbatim>\<open>repr(C)\<close>, little endian, no padding) because the code hashes,
  MACs and copies these images. A fixed-size array is a byte list; \<open>wf_...\<close> states the lengths the
  Rust types fix.
\<close>

section \<open>Constants\<close>

definition SGX_FLAGS_INITTED :: u64 where "SGX_FLAGS_INITTED = 0x1"
definition SGX_FLAGS_DEBUG :: u64 where "SGX_FLAGS_DEBUG = 0x2"
definition SGX_FLAGS_MODE64BIT :: u64 where "SGX_FLAGS_MODE64BIT = 0x4"
definition SGX_FLAGS_PROVISION_KEY :: u64 where "SGX_FLAGS_PROVISION_KEY = 0x10"
definition SGX_FLAGS_EINITTOKEN_KEY :: u64 where "SGX_FLAGS_EINITTOKEN_KEY = 0x20"
definition SGX_FLAGS_KSS :: u64 where "SGX_FLAGS_KSS = 0x80"

definition FLAGS_NON_SECURITY_BITS :: u64 where
  "FLAGS_NON_SECURITY_BITS =
     0x00FFFFFFFFFFFFC0 OR SGX_FLAGS_MODE64BIT OR SGX_FLAGS_PROVISION_KEY OR SGX_FLAGS_EINITTOKEN_KEY"

definition TSEAL_DEFAULT_FLAGSMASK :: u64 where
  "TSEAL_DEFAULT_FLAGSMASK = NOT FLAGS_NON_SECURITY_BITS"

definition MISC_NON_SECURITY_BITS :: u32 where "MISC_NON_SECURITY_BITS = 0x0FFFFFFF"

definition TSEAL_DEFAULT_MISCMASK :: u32 where
  "TSEAL_DEFAULT_MISCMASK = NOT MISC_NON_SECURITY_BITS"

definition SGX_KEYSELECT_SEAL :: u16 where "SGX_KEYSELECT_SEAL = 4"
definition SGX_KEYPOLICY_MRENCLAVE :: u16 where "SGX_KEYPOLICY_MRENCLAVE = 0x1"
definition SGX_KEYPOLICY_MRSIGNER :: u16 where "SGX_KEYPOLICY_MRSIGNER = 0x2"
definition SGX_KEYPOLICY_NOISVPRODID :: u16 where "SGX_KEYPOLICY_NOISVPRODID = 0x4"
definition SGX_KEYPOLICY_CONFIGID :: u16 where "SGX_KEYPOLICY_CONFIGID = 0x8"
definition SGX_KEYPOLICY_ISVFAMILYID :: u16 where "SGX_KEYPOLICY_ISVFAMILYID = 0x10"
definition SGX_KEYPOLICY_ISVEXTPRODID :: u16 where "SGX_KEYPOLICY_ISVEXTPRODID = 0x20"

abbreviation (input) SGX_SHA256_HASH_SIZE :: nat where "SGX_SHA256_HASH_SIZE \<equiv> 32"
abbreviation (input) SGX_AESGCM_IV_SIZE :: nat where "SGX_AESGCM_IV_SIZE \<equiv> 12"
abbreviation (input) SGX_DH_MAC_SIZE :: nat where "SGX_DH_MAC_SIZE \<equiv> 16"

section \<open>Structures\<close>

record sgx_attributes_t =
  flags :: u64
  xfrm :: u64

record sgx_key_request_t =
  kr_key_name :: u16
  kr_key_policy :: u16
  kr_isv_svn :: u16
  kr_reserved1 :: u16
  kr_cpu_svn :: bytes
  kr_attribute_mask :: sgx_attributes_t
  kr_key_id :: bytes
  kr_misc_mask :: u32
  kr_config_svn :: u16
  kr_reserved2 :: bytes

record sgx_target_info_t =
  ti_mr_enclave :: bytes
  ti_attributes :: sgx_attributes_t
  ti_reserved1 :: bytes
  ti_config_svn :: u16
  ti_misc_select :: u32
  ti_reserved2 :: bytes
  ti_config_id :: bytes
  ti_reserved3 :: bytes

record sgx_report_body_t =
  cpu_svn :: bytes
  misc_select :: u32
  reserved1 :: bytes
  isv_ext_prod_id :: bytes
  attributes :: sgx_attributes_t
  mr_enclave :: bytes
  reserved2 :: bytes
  mr_signer :: bytes
  reserved3 :: bytes
  config_id :: bytes
  isv_prod_id :: u16
  isv_svn :: u16
  config_svn :: u16
  reserved4 :: bytes
  isv_family_id :: bytes
  report_data :: bytes

record sgx_report_t =
  body :: sgx_report_body_t
  key_id :: bytes
  mac :: bytes

record sgx_dh_msg1_t =
  g_a :: bytes
  target :: sgx_target_info_t

record sgx_dh_msg2_t =
  g_b :: bytes
  msg2_report :: sgx_report_t
  msg2_cmac :: bytes

record sgx_dh_session_enclave_identity_t =
  id_cpu_svn :: bytes
  id_misc_select :: u32
  id_reserved_1 :: bytes
  id_attributes :: sgx_attributes_t
  id_mr_enclave :: bytes
  id_reserved_2 :: bytes
  id_mr_signer :: bytes
  id_reserved_3 :: bytes
  id_isv_prod_id :: u16
  id_isv_svn :: u16

section \<open>Memory images\<close>

definition attributes_to_bytes :: "sgx_attributes_t \<Rightarrow> bytes" where
  "attributes_to_bytes a = enc64 (flags a) @ enc64 (xfrm a)"

definition attributes_of_bytes :: "bytes \<Rightarrow> sgx_attributes_t" where
  "attributes_of_bytes bs = \<lparr>flags = dec64 (bslice 0 8 bs), xfrm = dec64 (bslice 8 8 bs)\<rparr>"

definition key_request_to_bytes :: "sgx_key_request_t \<Rightarrow> bytes" where
  "key_request_to_bytes k =
     enc16 (kr_key_name k) @ enc16 (kr_key_policy k) @ enc16 (kr_isv_svn k) @ enc16 (kr_reserved1 k) @
     kr_cpu_svn k @ attributes_to_bytes (kr_attribute_mask k) @ kr_key_id k @
     enc32 (kr_misc_mask k) @ enc16 (kr_config_svn k) @ kr_reserved2 k"

definition key_request_of_bytes :: "bytes \<Rightarrow> sgx_key_request_t" where
  "key_request_of_bytes bs =
     \<lparr>kr_key_name = dec16 (bslice 0 2 bs), kr_key_policy = dec16 (bslice 2 2 bs),
      kr_isv_svn = dec16 (bslice 4 2 bs), kr_reserved1 = dec16 (bslice 6 2 bs),
      kr_cpu_svn = bslice 8 16 bs, kr_attribute_mask = attributes_of_bytes (bslice 24 16 bs),
      kr_key_id = bslice 40 32 bs, kr_misc_mask = dec32 (bslice 72 4 bs),
      kr_config_svn = dec16 (bslice 76 2 bs), kr_reserved2 = bslice 78 434 bs\<rparr>"

definition target_info_to_bytes :: "sgx_target_info_t \<Rightarrow> bytes" where
  "target_info_to_bytes t =
     ti_mr_enclave t @ attributes_to_bytes (ti_attributes t) @ ti_reserved1 t @
     enc16 (ti_config_svn t) @ enc32 (ti_misc_select t) @ ti_reserved2 t @ ti_config_id t @
     ti_reserved3 t"

definition target_info_of_bytes :: "bytes \<Rightarrow> sgx_target_info_t" where
  "target_info_of_bytes bs =
     \<lparr>ti_mr_enclave = bslice 0 32 bs, ti_attributes = attributes_of_bytes (bslice 32 16 bs),
      ti_reserved1 = bslice 48 2 bs, ti_config_svn = dec16 (bslice 50 2 bs),
      ti_misc_select = dec32 (bslice 52 4 bs), ti_reserved2 = bslice 56 8 bs,
      ti_config_id = bslice 64 64 bs, ti_reserved3 = bslice 128 384 bs\<rparr>"

definition report_body_to_bytes :: "sgx_report_body_t \<Rightarrow> bytes" where
  "report_body_to_bytes b =
     cpu_svn b @ enc32 (misc_select b) @ reserved1 b @ isv_ext_prod_id b @
     attributes_to_bytes (attributes b) @ mr_enclave b @ reserved2 b @ mr_signer b @ reserved3 b @
     config_id b @ enc16 (isv_prod_id b) @ enc16 (isv_svn b) @ enc16 (config_svn b) @ reserved4 b @
     isv_family_id b @ report_data b"

definition report_body_of_bytes :: "bytes \<Rightarrow> sgx_report_body_t" where
  "report_body_of_bytes bs =
     \<lparr>cpu_svn = bslice 0 16 bs, misc_select = dec32 (bslice 16 4 bs), reserved1 = bslice 20 12 bs,
      isv_ext_prod_id = bslice 32 16 bs, attributes = attributes_of_bytes (bslice 48 16 bs),
      mr_enclave = bslice 64 32 bs, reserved2 = bslice 96 32 bs, mr_signer = bslice 128 32 bs,
      reserved3 = bslice 160 32 bs, config_id = bslice 192 64 bs,
      isv_prod_id = dec16 (bslice 256 2 bs), isv_svn = dec16 (bslice 258 2 bs),
      config_svn = dec16 (bslice 260 2 bs), reserved4 = bslice 262 42 bs,
      isv_family_id = bslice 304 16 bs, report_data = bslice 320 64 bs\<rparr>"

definition report_to_bytes :: "sgx_report_t \<Rightarrow> bytes" where
  "report_to_bytes r = report_body_to_bytes (body r) @ key_id r @ mac r"

definition report_of_bytes :: "bytes \<Rightarrow> sgx_report_t" where
  "report_of_bytes bs =
     \<lparr>body = report_body_of_bytes (bslice 0 384 bs), key_id = bslice 384 32 bs,
      mac = bslice 416 16 bs\<rparr>"

section \<open>Defaults: all bytes zero\<close>

definition attributes_default :: sgx_attributes_t where
  "attributes_default = attributes_of_bytes (zeros 16)"

definition key_request_default :: sgx_key_request_t where
  "key_request_default = key_request_of_bytes (zeros 512)"

definition target_info_default :: sgx_target_info_t where
  "target_info_default = target_info_of_bytes (zeros 512)"

definition report_default :: sgx_report_t where
  "report_default = report_of_bytes (zeros 432)"

definition report_data_default :: bytes where
  "report_data_default = zeros 64"

section \<open>Well-formedness\<close>

definition wf_key_request :: "sgx_key_request_t \<Rightarrow> bool" where
  "wf_key_request k \<longleftrightarrow>
     length (kr_cpu_svn k) = 16 \<and> length (kr_key_id k) = 32 \<and> length (kr_reserved2 k) = 434"

definition wf_target_info :: "sgx_target_info_t \<Rightarrow> bool" where
  "wf_target_info t \<longleftrightarrow>
     length (ti_mr_enclave t) = 32 \<and> length (ti_reserved1 t) = 2 \<and> length (ti_reserved2 t) = 8 \<and>
     length (ti_config_id t) = 64 \<and> length (ti_reserved3 t) = 384"

definition wf_report_body :: "sgx_report_body_t \<Rightarrow> bool" where
  "wf_report_body b \<longleftrightarrow>
     length (cpu_svn b) = 16 \<and> length (reserved1 b) = 12 \<and> length (isv_ext_prod_id b) = 16 \<and>
     length (mr_enclave b) = 32 \<and> length (reserved2 b) = 32 \<and> length (mr_signer b) = 32 \<and>
     length (reserved3 b) = 32 \<and> length (config_id b) = 64 \<and> length (reserved4 b) = 42 \<and>
     length (isv_family_id b) = 16 \<and> length (report_data b) = 64"

definition wf_report :: "sgx_report_t \<Rightarrow> bool" where
  "wf_report r \<longleftrightarrow> wf_report_body (body r) \<and> length (key_id r) = 32 \<and> length (mac r) = 16"

lemmas [wf_simps] = wf_key_request_def wf_target_info_def wf_report_body_def wf_report_def

section \<open>The codec is a bijection on well-formed structures\<close>

lemma bslice_join: "b = a + n \<Longrightarrow> bslice a n bs @ bslice b m bs = bslice a (n + m) bs"
  by (simp add: bslice_def take_add add.commute [of n a])

lemma bslice_join_append: "b = a + n \<Longrightarrow> bslice a n bs @ bslice b m bs @ zs = bslice a (n + m) bs @ zs"
  by (simp add: bslice_join [symmetric])

lemmas codec_lens = length_bslice length_append length_enc
lemmas codec_slices = bslice_append_left bslice_append_right bslice_all bslice_slice bslice_zeros

lemma length_attributes_to_bytes [simp]: "length (attributes_to_bytes a) = 16"
  by (simp add: attributes_to_bytes_def)

lemma attributes_roundtrip [simp]: "attributes_of_bytes (attributes_to_bytes a) = a"
  by (simp add: attributes_of_bytes_def attributes_to_bytes_def codec_slices)

lemma attributes_roundtrip' [simp]: "length bs = 16 \<Longrightarrow> attributes_to_bytes (attributes_of_bytes bs) = bs"
  by (simp add: attributes_of_bytes_def attributes_to_bytes_def enc64_dec64 bslice_join bslice_all)

lemma length_key_request_to_bytes [simp]: "wf_key_request k \<Longrightarrow> length (key_request_to_bytes k) = 512"
  by (simp add: key_request_to_bytes_def wf_key_request_def)

lemma key_request_roundtrip [simp]:
  "wf_key_request k \<Longrightarrow> key_request_of_bytes (key_request_to_bytes k) = k"
  by (simp add: key_request_of_bytes_def key_request_to_bytes_def wf_key_request_def codec_slices)

lemma wf_key_request_of_bytes [simp]: "length bs = 512 \<Longrightarrow> wf_key_request (key_request_of_bytes bs)"
  by (simp add: key_request_of_bytes_def wf_key_request_def)

lemma length_target_info_to_bytes [simp]: "wf_target_info t \<Longrightarrow> length (target_info_to_bytes t) = 512"
  by (simp add: target_info_to_bytes_def wf_target_info_def)

lemma target_info_roundtrip [simp]:
  "wf_target_info t \<Longrightarrow> target_info_of_bytes (target_info_to_bytes t) = t"
  by (simp add: target_info_of_bytes_def target_info_to_bytes_def wf_target_info_def codec_slices)

lemma wf_target_info_of_bytes [simp]: "length bs = 512 \<Longrightarrow> wf_target_info (target_info_of_bytes bs)"
  by (simp add: target_info_of_bytes_def wf_target_info_def)

lemma target_info_roundtrip' [simp]:
  "length bs = 512 \<Longrightarrow> target_info_to_bytes (target_info_of_bytes bs) = bs"
  by (simp add: target_info_of_bytes_def target_info_to_bytes_def enc16_dec16 enc32_dec32
      bslice_join bslice_join_append bslice_all)

lemma length_report_body_to_bytes [simp]: "wf_report_body b \<Longrightarrow> length (report_body_to_bytes b) = 384"
  by (simp add: report_body_to_bytes_def wf_report_body_def)

lemma report_body_roundtrip [simp]:
  "wf_report_body b \<Longrightarrow> report_body_of_bytes (report_body_to_bytes b) = b"
  by (simp add: report_body_of_bytes_def report_body_to_bytes_def wf_report_body_def codec_slices)

lemma wf_report_body_of_bytes [simp]: "length bs = 384 \<Longrightarrow> wf_report_body (report_body_of_bytes bs)"
  by (simp add: report_body_of_bytes_def wf_report_body_def)

lemma report_body_roundtrip' [simp]:
  "length bs = 384 \<Longrightarrow> report_body_to_bytes (report_body_of_bytes bs) = bs"
  by (simp add: report_body_of_bytes_def report_body_to_bytes_def enc16_dec16 enc32_dec32
      bslice_join bslice_join_append bslice_all)

lemma length_report_to_bytes [simp]: "wf_report r \<Longrightarrow> length (report_to_bytes r) = 432"
  by (simp add: report_to_bytes_def wf_report_def)

lemma report_roundtrip [simp]: "wf_report r \<Longrightarrow> report_of_bytes (report_to_bytes r) = r"
  by (simp add: report_of_bytes_def report_to_bytes_def wf_report_def codec_slices)

lemma wf_report_of_bytes [simp]: "length bs = 432 \<Longrightarrow> wf_report (report_of_bytes bs)"
  by (simp add: report_of_bytes_def wf_report_def)

lemma report_roundtrip' [simp]: "length bs = 432 \<Longrightarrow> report_to_bytes (report_of_bytes bs) = bs"
  by (simp add: report_of_bytes_def report_to_bytes_def bslice_join bslice_join_append bslice_all)

lemma wf_defaults [simp]:
  "wf_target_info target_info_default" "wf_report report_default" "wf_key_request key_request_default"
  by (simp_all add: target_info_default_def report_default_def key_request_default_def)

end
