(* ===== verification/Sgx_Trts.thy ===== *)
theory Sgx_Trts
  imports Sgx_Types
begin

text \<open>
  The trusted runtime (\<^verbatim>\<open>src/sgx_trts/src/trts.rs\<close>, \<^verbatim>\<open>memeq.rs\<close>) and the trusted service library
  (\<^verbatim>\<open>src/sgx_tse/src/se.rs\<close>). Both are thin layers over foreign functions of Intel's SDK, which are
  the fields of the records \<open>trts_ffi\<close> and \<open>tse_ffi\<close>: parameters of the model, over a world \<open>'w\<close> that
  holds whatever state that code keeps. The comparison in constant time is the repository's own code;
  it is shown to be equality.
\<close>

section \<open>Foreign functions\<close>

record 'w trts_ffi =
  sgx_is_within_enclave :: "addr \<Rightarrow> usize \<Rightarrow> int"
  sgx_is_outside_enclave :: "addr \<Rightarrow> usize \<Rightarrow> int"
  sgx_read_rand :: "usize \<Rightarrow> 'w \<Rightarrow> (sgx_status_t \<times> bytes) \<times> 'w"

record 'w tse_ffi = "'w trts_ffi" +
  sgx_create_report :: "bytes \<Rightarrow> bytes \<Rightarrow> 'w \<Rightarrow> (sgx_status_t \<times> bytes) \<times> 'w"
  sgx_verify_report :: "bytes \<Rightarrow> 'w \<Rightarrow> sgx_status_t \<times> 'w"
  sgx_get_key :: "bytes \<Rightarrow> 'w \<Rightarrow> (sgx_status_t \<times> bytes) \<times> 'w"
  sgx_self_report :: "'w \<Rightarrow> bytes"

text \<open>
  The idiom \<^verbatim>\<open>match ret { SGX_SUCCESS => Ok(out), _ => Err(ret) }\<close> that ends every wrapper.
\<close>

definition ffi_result :: "sgx_status_t \<Rightarrow> 'a \<Rightarrow> 'a SgxResult" where
  "ffi_result ret out = (if ret = SGX_SUCCESS then Inr out else Inl ret)"

lemma ffi_result_simps [simp]:
  "ffi_result SGX_SUCCESS x = Inr x"
  "ret \<noteq> SGX_SUCCESS \<Longrightarrow> ffi_result ret x = Inl ret"
  by (simp_all add: ffi_result_def)

lemma ffi_result_Inr_iff [simp]: "ffi_result ret x = Inr y \<longleftrightarrow> ret = SGX_SUCCESS \<and> x = y"
  by (auto simp: ffi_result_def)

lemma ffi_result_Inl_iff: "ffi_result ret x = Inl e \<longleftrightarrow> ret = e \<and> e \<noteq> SGX_SUCCESS"
  by (auto simp: ffi_result_def)

text \<open>The rules for a foreign call whose result goes through this idiom.\<close>

lemma hoareW_ffi:
  assumes "\<And>w ret out w'. A w \<Longrightarrow> ffi w = ((ret, out), w') \<Longrightarrow> if ret = SGX_SUCCESS then Q (g out) w' else \<not> b"
  shows "hoareW b A (\<lambda>w. case ffi w of ((ret, out), w') \<Rightarrow> (ffi_result ret (g out), w')) Q"
  unfolding hoareW_def
proof (intro allI impI)
  fix w assume A: "A w"
  obtain ret out w' where f: "ffi w = ((ret, out), w')" by (metis prod.exhaust)
  with assms [OF A f]
  show "(\<forall>x w'. (case ffi w of ((ret, out), w') \<Rightarrow> (ffi_result ret (g out), w')) = (Inr x, w') \<longrightarrow> Q x w') \<and>
        (\<forall>e w'. (case ffi w of ((ret, out), w') \<Rightarrow> (ffi_result ret (g out), w')) = (Inl e, w') \<longrightarrow> \<not> b)"
    by (simp add: ffi_result_def)
qed

lemma hoareW_ffi_unit:
  assumes "\<And>w ret w'. A w \<Longrightarrow> ffi w = (ret, w') \<Longrightarrow> if ret = SGX_SUCCESS then Q () w' else \<not> b"
  shows "hoareW b A (\<lambda>w. case ffi w of (ret, w') \<Rightarrow> (ffi_result ret (), w')) Q"
  unfolding hoareW_def
proof (intro allI impI)
  fix w assume A: "A w"
  obtain ret w' where f: "ffi w = (ret, w')" by fastforce
  with assms [OF A f]
  show "(\<forall>x w'. (case ffi w of (ret, w') \<Rightarrow> (ffi_result ret (), w')) = (Inr x, w') \<longrightarrow> Q x w') \<and>
        (\<forall>e w'. (case ffi w of (ret, w') \<Rightarrow> (ffi_result ret (), w')) = (Inl e, w') \<longrightarrow> \<not> b)"
    by (simp add: ffi_result_def)
qed

section \<open>trts.rs\<close>

definition rsgx_read_rand ::
  "('w, 'z) trts_ffi_scheme \<Rightarrow> bytes \<Rightarrow> 'w \<Rightarrow> (SgxError \<times> bytes) \<times> 'w" where
  "rsgx_read_rand P rand w =
     (case sgx_read_rand P (length rand) w of
        ((ret, out), w') \<Rightarrow> ((ffi_result ret (), fit (length rand) out), w'))"

definition rsgx_raw_is_within_enclave :: "('w, 'z) trts_ffi_scheme \<Rightarrow> addr \<Rightarrow> usize \<Rightarrow> bool" where
  "rsgx_raw_is_within_enclave P p sz \<longleftrightarrow> sgx_is_within_enclave P p sz \<noteq> 0"

definition rsgx_raw_is_outside_enclave :: "('w, 'z) trts_ffi_scheme \<Rightarrow> addr \<Rightarrow> usize \<Rightarrow> bool" where
  "rsgx_raw_is_outside_enclave P p sz \<longleftrightarrow> sgx_is_outside_enclave P p sz \<noteq> 0"

text \<open>
  \<^verbatim>\<open>rsgx_data_is_within_enclave::<T>\<close> passes \<^verbatim>\<open>size_of::<T>()\<close>: the size is an argument here.
\<close>

definition rsgx_data_is_within_enclave :: "('w, 'z) trts_ffi_scheme \<Rightarrow> usize \<Rightarrow> addr \<Rightarrow> bool" where
  "rsgx_data_is_within_enclave P size_of_T p = rsgx_raw_is_within_enclave P p size_of_T"

definition rsgx_data_is_outside_enclave :: "('w, 'z) trts_ffi_scheme \<Rightarrow> usize \<Rightarrow> addr \<Rightarrow> bool" where
  "rsgx_data_is_outside_enclave P size_of_T p = rsgx_raw_is_outside_enclave P p size_of_T"

definition rsgx_slice_is_within_enclave :: "('w, 'z) trts_ffi_scheme \<Rightarrow> bytes mref \<Rightarrow> bool" where
  "rsgx_slice_is_within_enclave P s = rsgx_raw_is_within_enclave P (fst s) (length (snd s))"

definition rsgx_slice_is_outside_enclave :: "('w, 'z) trts_ffi_scheme \<Rightarrow> bytes mref \<Rightarrow> bool" where
  "rsgx_slice_is_outside_enclave P s = rsgx_raw_is_outside_enclave P (fst s) (length (snd s))"

section \<open>se.rs\<close>

definition rsgx_create_report ::
  "('w, 'z) tse_ffi_scheme \<Rightarrow> sgx_target_info_t \<Rightarrow> bytes \<Rightarrow> ('w, sgx_status_t, sgx_report_t) io" where
  "rsgx_create_report P target_info data w =
     (case sgx_create_report P (target_info_to_bytes target_info) data w of
        ((ret, out), w') \<Rightarrow> (ffi_result ret (report_of_bytes (fit 432 out)), w'))"

definition rsgx_verify_report ::
  "('w, 'z) tse_ffi_scheme \<Rightarrow> sgx_report_t \<Rightarrow> ('w, sgx_status_t, unit) io" where
  "rsgx_verify_report P report w =
     (case sgx_verify_report P (report_to_bytes report) w of (ret, w') \<Rightarrow> (ffi_result ret (), w'))"

definition rsgx_get_key ::
  "('w, 'z) tse_ffi_scheme \<Rightarrow> sgx_key_request_t \<Rightarrow> ('w, sgx_status_t, bytes) io" where
  "rsgx_get_key P key_request w =
     (case sgx_get_key P (key_request_to_bytes key_request) w of
        ((ret, out), w') \<Rightarrow> (ffi_result ret (fit 16 out), w'))"

text \<open>\<^verbatim>\<open>rsgx_get_align_key\<close> returns the same key in an aligned box.\<close>

definition rsgx_get_align_key ::
  "('w, 'z) tse_ffi_scheme \<Rightarrow> sgx_key_request_t \<Rightarrow> ('w, sgx_status_t, bytes) io" where
  "rsgx_get_align_key P key_request w =
     (case sgx_get_key P (key_request_to_bytes key_request) w of
        ((ret, out), w') \<Rightarrow> (ffi_result ret (fit 16 out), w'))"

definition rsgx_self_report :: "('w, 'z) tse_ffi_scheme \<Rightarrow> 'w \<Rightarrow> sgx_report_t" where
  "rsgx_self_report P w = report_of_bytes (fit 432 (sgx_self_report P w))"

lemma rsgx_create_report_wf:
  "rsgx_create_report P t d w = (Inr r, w') \<Longrightarrow> wf_report r"
  by (auto simp: rsgx_create_report_def split: prod.splits)

lemma wf_rsgx_self_report [simp]: "wf_report (rsgx_self_report P w)"
  by (simp add: rsgx_self_report_def)

lemma rsgx_verify_report_Inr:
  "rsgx_verify_report P r w = (Inr (), w') \<longleftrightarrow>
     sgx_verify_report P (report_to_bytes r) w = (SGX_SUCCESS, w')"
  by (auto simp: rsgx_verify_report_def split: prod.splits)

lemma length_rsgx_get_align_key:
  "rsgx_get_align_key P k w = (Inr key, w') \<Longrightarrow> length key = 16"
  by (auto simp: rsgx_get_align_key_def split: prod.splits)

section \<open>memeq.rs: comparison in constant time\<close>

text \<open>The loop runs \<open>len\<close> down to 0 and accumulates the differing bits in an \<^verbatim>\<open>i32\<close>.\<close>

fun memequal_loop :: "bytes \<Rightarrow> bytes \<Rightarrow> nat \<Rightarrow> u32 \<Rightarrow> u32" where
  "memequal_loop p1 p2 0 res = res"
| "memequal_loop p1 p2 (Suc len) res = memequal_loop p1 p2 len (res OR ucast (p1 ! len XOR p2 ! len))"

definition consttime_memequal :: "bytes \<Rightarrow> bytes \<Rightarrow> nat \<Rightarrow> u32" where
  "consttime_memequal b1 b2 l = 1 AND signed_drop_bit 8 (memequal_loop b1 b2 l 0 - 1)"

text \<open>The implementation for \<^verbatim>\<open>[T]\<close>, which compares addresses first, and the one for a sized \<^verbatim>\<open>T\<close>.\<close>

definition consttime_memeq_slice :: "bytes mref \<Rightarrow> bytes mref \<Rightarrow> bool" where
  "consttime_memeq_slice self other =
     (if length (snd self) \<noteq> length (snd other) then False
      else if fst self = fst other then True
      else consttime_memequal (snd self) (snd other) (length (snd self)) \<noteq> 0)"

definition consttime_memeq :: "bytes \<Rightarrow> bytes \<Rightarrow> bool" where
  "consttime_memeq self other =
     (if length self = 0 then True else consttime_memequal self other (length self) \<noteq> 0)"

definition consttime_memne :: "bytes \<Rightarrow> bytes \<Rightarrow> bool" where
  "consttime_memne self other = (\<not> consttime_memeq self other)"

lemma xor_zero_iff: "x XOR y = 0 \<longleftrightarrow> x = y" for x y :: "'a::len word"
  by (auto simp: bit_eq_iff bit_xor_iff)

lemma ucast_u8_zero_iff: "(ucast x :: u32) = 0 \<longleftrightarrow> x = 0" for x :: u8
proof -
  have "bit x n \<Longrightarrow> n < 8 \<and> n < 32" for n using bit_imp_le_length [of x n] by simp
  then show ?thesis by (auto simp: bit_eq_iff bit_unsigned_iff)
qed

lemma take_bit_ucast_u8: "take_bit 8 (ucast x :: u32) = ucast x" for x :: u8
  by (rule bit_word_eqI) (auto simp: bit_take_bit_iff bit_unsigned_iff dest: bit_imp_le_length)

lemma or_zero_iff: "x OR y = 0 \<longleftrightarrow> x = 0 \<and> y = 0" for x y :: "'a::len word"
  by (auto simp: bit_eq_iff bit_or_iff)

lemma memequal_loop_zero_iff:
  "memequal_loop p1 p2 n res = 0 \<longleftrightarrow> res = 0 \<and> (\<forall>i<n. p1 ! i = p2 ! i)"
  by (induction n arbitrary: res)
    (auto simp: less_Suc_eq ucast_u8_zero_iff xor_zero_iff or_zero_iff)

lemma memequal_loop_byte:
  "take_bit 8 res = res \<Longrightarrow> take_bit 8 (memequal_loop p1 p2 n res) = memequal_loop p1 p2 n res"
  by (induction n arbitrary: res) (simp_all add: take_bit_ucast_u8)

text \<open>\<^verbatim>\<open>1 & ((res - 1) >> 8)\<close> with an arithmetic shift maps 0 to 1 and every other byte to 0.\<close>

lemma take_bit_8_iff: "take_bit 8 x = x \<longleftrightarrow> unat x < 256" for x :: u32
proof -
  have "take_bit 8 x = x \<longleftrightarrow> unat x mod 256 = unat x"
    by (simp add: take_bit_eq_mod word_unat_eq_iff unat_mod)
  then show ?thesis by (metis mod_less mod_less_divisor zero_less_numeral)
qed

lemma signed_drop_bit_8_byte:
  assumes "take_bit 8 x = (x :: u32)"
  shows "signed_drop_bit 8 x = 0"
proof (rule bit_word_eqI)
  fix n assume n: "n < LENGTH(32)"
  have "\<not> bit x m" if "8 \<le> m" for m
    using that assms bit_take_bit_iff [of 8 x m] by simp
  with n show "bit (signed_drop_bit 8 x) n = bit 0 n" by (simp add: bit_signed_drop_bit_iff)
qed

lemma map_zero_to_one:
  assumes "take_bit 8 res = (res :: u32)"
  shows "1 AND signed_drop_bit 8 (res - 1) \<noteq> 0 \<longleftrightarrow> res = 0"
proof (cases "res = 0")
  case True
  then show ?thesis by simp
next
  case False
  moreover from assms have "unat res < 256" by (simp add: take_bit_8_iff)
  ultimately have "unat (res - 1) < 256" by unat_arith
  then have "signed_drop_bit 8 (res - 1) = 0"
    by (intro signed_drop_bit_8_byte) (simp add: take_bit_8_iff)
  with False show ?thesis by simp
qed

lemma consttime_memequal_iff:
  "consttime_memequal b1 b2 l \<noteq> 0 \<longleftrightarrow> (\<forall>i<l. b1 ! i = b2 ! i)"
proof -
  have "take_bit 8 (memequal_loop b1 b2 l 0) = memequal_loop b1 b2 l 0"
    by (rule memequal_loop_byte) simp
  from map_zero_to_one [OF this] show ?thesis
    by (simp only: consttime_memequal_def memequal_loop_zero_iff simp_thms)
qed

lemma consttime_memeq_iff [simp]:
  assumes "length a = length b"
  shows "consttime_memeq a b \<longleftrightarrow> a = b"
proof -
  have "consttime_memeq a b \<longleftrightarrow> (\<forall>i<length a. a ! i = b ! i)"
    by (simp only: consttime_memeq_def consttime_memequal_iff) simp
  with assms show ?thesis by (auto intro: nth_equalityI)
qed

text \<open>
  The comparison in constant time is equality: on values of equal size \<^verbatim>\<open>consttime_memeq\<close> holds exactly when
  they are equal (and \<^verbatim>\<open>consttime_memne\<close> exactly when they differ), although the loop never branches on a
  byte and the result is computed by an arithmetic shift of a 32 bit accumulator.
\<close>

theorem consttime_memeq_correct:
  assumes "length a = length b"
  shows "(consttime_memeq a b \<longleftrightarrow> a = b) \<and> (consttime_memne a b \<longleftrightarrow> a \<noteq> b)"
  using assms by (simp add: consttime_memne_def)

theorem consttime_memeq_correct_witness:
  "consttime_memne [1, 2, 255] [1, 2, 127] \<and> consttime_memeq [1, 2, 255] [1, 2, 255]"
  using consttime_memeq_correct [of "[1, 2, 255]" "[1, 2, 127]"] consttime_memeq_correct [of "[1, 2, 255]" "[1, 2, 255]"]
  by simp

end
