(* ===== verification/Sgx_Tcrypto.thy ===== *)
theory Sgx_Tcrypto
  imports Sgx_Trts
begin

text \<open>
  The trusted cryptography library \<^verbatim>\<open>src/sgx_tcrypto/src/crypto.rs\<close>: the one-shot wrappers
  (SHA, AES-CMAC, HMAC, AES-GCM) and the handle types \<^verbatim>\<open>SgxShaHandle\<close>, \<^verbatim>\<open>SgxSha384Handle\<close>,
  \<^verbatim>\<open>SgxSha1Handle\<close>, \<^verbatim>\<open>SgxCmacHandle\<close>, \<^verbatim>\<open>SgxHmacHandle\<close> and \<^verbatim>\<open>SgxEccHandle\<close>, each a foreign context
  pointer with an \<^verbatim>\<open>initflag\<close>. The primitives themselves are foreign functions and stay parameters.
  The locale \<open>session_handle\<close> is the contract a handle type offers to the protocol code; it is
  interpreted for each of the digest handles, and its client lemmas cover the scoped use
  (create, init, use, drop) that the Diffie-Hellman code makes of them.
\<close>

section \<open>Foreign functions\<close>

record 'w sha_ffi = "'w tse_ffi" +
  sgx_sha256_msg :: "bytes \<Rightarrow> 'w \<Rightarrow> (sgx_status_t \<times> bytes) \<times> 'w"
  sgx_sha256_init :: "'w \<Rightarrow> (sgx_status_t \<times> addr) \<times> 'w"
  sgx_sha256_update :: "bytes \<Rightarrow> addr \<Rightarrow> 'w \<Rightarrow> sgx_status_t \<times> 'w"
  sgx_sha256_get_hash :: "addr \<Rightarrow> 'w \<Rightarrow> (sgx_status_t \<times> bytes) \<times> 'w"
  sgx_sha256_close :: "addr \<Rightarrow> 'w \<Rightarrow> sgx_status_t \<times> 'w"
  sgx_sha384_init :: "'w \<Rightarrow> (sgx_status_t \<times> addr) \<times> 'w"
  sgx_sha384_update :: "bytes \<Rightarrow> addr \<Rightarrow> 'w \<Rightarrow> sgx_status_t \<times> 'w"
  sgx_sha384_get_hash :: "addr \<Rightarrow> 'w \<Rightarrow> (sgx_status_t \<times> bytes) \<times> 'w"
  sgx_sha384_close :: "addr \<Rightarrow> 'w \<Rightarrow> sgx_status_t \<times> 'w"
  sgx_sha1_init :: "'w \<Rightarrow> (sgx_status_t \<times> addr) \<times> 'w"
  sgx_sha1_update :: "bytes \<Rightarrow> addr \<Rightarrow> 'w \<Rightarrow> sgx_status_t \<times> 'w"
  sgx_sha1_get_hash :: "addr \<Rightarrow> 'w \<Rightarrow> (sgx_status_t \<times> bytes) \<times> 'w"
  sgx_sha1_close :: "addr \<Rightarrow> 'w \<Rightarrow> sgx_status_t \<times> 'w"

record 'w mac_ffi = "'w sha_ffi" +
  sgx_rijndael128_cmac_msg :: "bytes \<Rightarrow> bytes \<Rightarrow> 'w \<Rightarrow> (sgx_status_t \<times> bytes) \<times> 'w"
  sgx_cmac128_init :: "bytes \<Rightarrow> 'w \<Rightarrow> (sgx_status_t \<times> addr) \<times> 'w"
  sgx_cmac128_update :: "bytes \<Rightarrow> addr \<Rightarrow> 'w \<Rightarrow> sgx_status_t \<times> 'w"
  sgx_cmac128_final :: "addr \<Rightarrow> 'w \<Rightarrow> (sgx_status_t \<times> bytes) \<times> 'w"
  sgx_cmac128_close :: "addr \<Rightarrow> 'w \<Rightarrow> sgx_status_t \<times> 'w"
  sgx_hmac256_init :: "bytes \<Rightarrow> 'w \<Rightarrow> (sgx_status_t \<times> addr) \<times> 'w"
  sgx_hmac256_update :: "bytes \<Rightarrow> addr \<Rightarrow> 'w \<Rightarrow> sgx_status_t \<times> 'w"
  sgx_hmac256_final :: "addr \<Rightarrow> 'w \<Rightarrow> (sgx_status_t \<times> bytes) \<times> 'w"
  sgx_hmac256_close :: "addr \<Rightarrow> 'w \<Rightarrow> sgx_status_t \<times> 'w"

record 'w ecc_ffi = "'w mac_ffi" +
  sgx_ecc256_open_context :: "'w \<Rightarrow> (sgx_status_t \<times> addr) \<times> 'w"
  sgx_ecc256_close_context :: "addr \<Rightarrow> 'w \<Rightarrow> sgx_status_t \<times> 'w"
  sgx_ecc256_create_key_pair :: "addr \<Rightarrow> 'w \<Rightarrow> (sgx_status_t \<times> bytes \<times> bytes) \<times> 'w"
  sgx_ecc256_check_point :: "bytes \<Rightarrow> addr \<Rightarrow> 'w \<Rightarrow> (sgx_status_t \<times> int) \<times> 'w"
  sgx_ecc256_compute_shared_dhkey :: "bytes \<Rightarrow> bytes \<Rightarrow> addr \<Rightarrow> 'w \<Rightarrow> (sgx_status_t \<times> bytes) \<times> 'w"

record 'w tcrypto_ffi = "'w ecc_ffi" +
  sgx_rijndael128GCM_encrypt ::
    "bytes \<Rightarrow> bytes \<Rightarrow> bytes \<Rightarrow> bytes \<Rightarrow> 'w \<Rightarrow> (sgx_status_t \<times> bytes \<times> bytes) \<times> 'w"
  sgx_rijndael128GCM_decrypt ::
    "bytes \<Rightarrow> bytes \<Rightarrow> bytes \<Rightarrow> bytes \<Rightarrow> bytes \<Rightarrow> 'w \<Rightarrow> (sgx_status_t \<times> bytes) \<times> 'w"

section \<open>One-shot wrappers\<close>

text \<open>
  The size guard shared by every wrapper that takes a message: the message is non-empty and its
  size fits a \<^verbatim>\<open>u32\<close>. A \<^verbatim>\<open>&T\<close> and a \<^verbatim>\<open>&[T]\<close> argument are their memory images.
\<close>

definition size_ok :: "bytes \<Rightarrow> bool" where
  "size_ok src \<longleftrightarrow> length src \<noteq> 0 \<and> \<not> length src > u32_max_nat"

definition digest_msg ::
  "nat \<Rightarrow> (bytes \<Rightarrow> 'w \<Rightarrow> (sgx_status_t \<times> bytes) \<times> 'w) \<Rightarrow> bytes \<Rightarrow> ('w, sgx_status_t, bytes) io" where
  "digest_msg n ffi src w =
     (if \<not> size_ok src then (Inl SGX_ERROR_INVALID_PARAMETER, w)
      else case ffi src w of ((ret, out), w') \<Rightarrow> (ffi_result ret (fit n out), w'))"

definition rsgx_sha256_msg :: "('w, 'z) sha_ffi_scheme \<Rightarrow> bytes \<Rightarrow> ('w, sgx_status_t, bytes) io" where
  "rsgx_sha256_msg P = digest_msg 32 (sgx_sha256_msg P)"

definition rsgx_sha256_slice :: "('w, 'z) sha_ffi_scheme \<Rightarrow> bytes \<Rightarrow> ('w, sgx_status_t, bytes) io" where
  "rsgx_sha256_slice P = digest_msg 32 (sgx_sha256_msg P)"

definition rsgx_rijndael128_cmac_msg ::
  "('w, 'z) mac_ffi_scheme \<Rightarrow> bytes \<Rightarrow> bytes \<Rightarrow> ('w, sgx_status_t, bytes) io" where
  "rsgx_rijndael128_cmac_msg P key = digest_msg 16 (sgx_rijndael128_cmac_msg P key)"

definition rsgx_rijndael128_align_cmac_msg ::
  "('w, 'z) mac_ffi_scheme \<Rightarrow> bytes \<Rightarrow> bytes \<Rightarrow> ('w, sgx_status_t, bytes) io" where
  "rsgx_rijndael128_align_cmac_msg P key = digest_msg 16 (sgx_rijndael128_cmac_msg P key)"

definition rsgx_rijndael128_cmac_slice ::
  "('w, 'z) mac_ffi_scheme \<Rightarrow> bytes \<Rightarrow> bytes \<Rightarrow> ('w, sgx_status_t, bytes) io" where
  "rsgx_rijndael128_cmac_slice P key = digest_msg 16 (sgx_rijndael128_cmac_msg P key)"

definition rsgx_rijndael128_align_cmac_slice ::
  "('w, 'z) mac_ffi_scheme \<Rightarrow> bytes \<Rightarrow> bytes \<Rightarrow> ('w, sgx_status_t, bytes) io" where
  "rsgx_rijndael128_align_cmac_slice P key = digest_msg 16 (sgx_rijndael128_cmac_msg P key)"

text \<open>
  AES-GCM. The output buffers are passed in and returned as the foreign code leaves them, on every
  path. With an empty message the code passes null pointers, so \<open>dst\<close> is not touched.
\<close>

definition write_dst :: "bytes \<Rightarrow> bytes \<Rightarrow> bytes \<Rightarrow> bytes" where
  "write_dst src dst out = (if length src \<noteq> 0 then bsplice 0 (fit (length src) out) dst else dst)"

definition gcm_lengths_ok :: "bytes \<Rightarrow> bytes \<Rightarrow> bytes \<Rightarrow> bytes \<Rightarrow> bool" where
  "gcm_lengths_ok src iv aad dst \<longleftrightarrow>
     \<not> length src > u32_max_nat \<and> \<not> length iv \<noteq> SGX_AESGCM_IV_SIZE \<and> \<not> length aad > u32_max_nat \<and>
     \<not> length dst > u32_max_nat \<and> \<not> length dst < length src"

definition rsgx_rijndael128GCM_encrypt ::
  "('w, 'z) tcrypto_ffi_scheme \<Rightarrow> bytes \<Rightarrow> bytes \<Rightarrow> bytes \<Rightarrow> bytes \<Rightarrow> bytes \<Rightarrow> bytes \<Rightarrow> 'w
     \<Rightarrow> (SgxError \<times> bytes \<times> bytes) \<times> 'w" where
  "rsgx_rijndael128GCM_encrypt P key src iv aad dst tag w =
     (if \<not> gcm_lengths_ok src iv aad dst then ((Inl SGX_ERROR_INVALID_PARAMETER, dst, tag), w)
      else case sgx_rijndael128GCM_encrypt P key src iv aad w of
             ((ret, out, tag'), w') \<Rightarrow> ((ffi_result ret (), write_dst src dst out, fit 16 tag'), w'))"

definition rsgx_rijndael128GCM_decrypt ::
  "('w, 'z) tcrypto_ffi_scheme \<Rightarrow> bytes \<Rightarrow> bytes \<Rightarrow> bytes \<Rightarrow> bytes \<Rightarrow> bytes \<Rightarrow> bytes \<Rightarrow> 'w
     \<Rightarrow> (SgxError \<times> bytes) \<times> 'w" where
  "rsgx_rijndael128GCM_decrypt P key src iv aad tag dst w =
     (if \<not> gcm_lengths_ok src iv aad dst then ((Inl SGX_ERROR_INVALID_PARAMETER, dst), w)
      else case sgx_rijndael128GCM_decrypt P key src iv aad tag w of
             ((ret, out), w') \<Rightarrow> ((ffi_result ret (), write_dst src dst out), w'))"

lemma length_digest_msg: "digest_msg n ffi src w = (Inr d, w') \<Longrightarrow> length d = n"
  by (auto simp: digest_msg_def split: if_splits prod.splits)

lemmas cmac_defs = rsgx_rijndael128_cmac_msg_def rsgx_rijndael128_align_cmac_slice_def digest_msg_def

section \<open>Handles\<close>

text \<open>
  All handle structures have the same two cells: the foreign context pointer (null is address 0)
  and the flag. The five method bodies are literally the same text for each handle type, up to the
  foreign function they call, so they are written once over that function and instantiated.
\<close>

record handle =
  hnd :: addr
  initflag :: bool

definition handle_new :: handle where
  "handle_new = \<lparr>hnd = 0, initflag = False\<rparr>"

definition handle_init ::
  "('w \<Rightarrow> (sgx_status_t \<times> addr) \<times> 'w) \<Rightarrow> handle \<Rightarrow> 'w \<Rightarrow> (SgxError \<times> handle) \<times> 'w" where
  "handle_init ffi h w =
     (if initflag h then ((Inr (), h), w)
      else case ffi w of
             ((ret, p), w') \<Rightarrow>
               if ret = SGX_SUCCESS then ((Inr (), h\<lparr>hnd := p, initflag := True\<rparr>), w')
               else ((Inl ret, h\<lparr>hnd := p\<rparr>), w'))"

definition handle_update ::
  "(bytes \<Rightarrow> addr \<Rightarrow> 'w \<Rightarrow> sgx_status_t \<times> 'w) \<Rightarrow> bytes \<Rightarrow> handle \<Rightarrow> ('w, sgx_status_t, unit) io" where
  "handle_update ffi src h w =
     (if \<not> initflag h then (Inl SGX_ERROR_INVALID_STATE, w)
      else if \<not> size_ok src then (Inl SGX_ERROR_INVALID_PARAMETER, w)
      else case ffi src (hnd h) w of (ret, w') \<Rightarrow> (ffi_result ret (), w'))"

definition handle_final ::
  "nat \<Rightarrow> (addr \<Rightarrow> 'w \<Rightarrow> (sgx_status_t \<times> bytes) \<times> 'w) \<Rightarrow> handle \<Rightarrow> ('w, sgx_status_t, bytes) io" where
  "handle_final n ffi h w =
     (if \<not> initflag h then (Inl SGX_ERROR_INVALID_STATE, w)
      else case ffi (hnd h) w of ((ret, out), w') \<Rightarrow> (ffi_result ret (fit n out), w'))"

definition handle_close ::
  "(addr \<Rightarrow> 'w \<Rightarrow> sgx_status_t \<times> 'w) \<Rightarrow> handle \<Rightarrow> 'w \<Rightarrow> (SgxError \<times> handle) \<times> 'w" where
  "handle_close ffi h w =
     (if \<not> initflag h then ((Inr (), h), w)
      else case (if hnd h = 0 then (SGX_SUCCESS, w) else ffi (hnd h) w) of
             (ret, w') \<Rightarrow>
               if ret = SGX_SUCCESS then ((Inr (), h\<lparr>initflag := False, hnd := 0\<rparr>), w')
               else ((Inl ret, h), w'))"

text \<open>\<^verbatim>\<open>Drop\<close> closes and ignores the result.\<close>

definition handle_drop :: "(addr \<Rightarrow> 'w \<Rightarrow> sgx_status_t \<times> 'w) \<Rightarrow> handle \<Rightarrow> 'w \<Rightarrow> 'w" where
  "handle_drop ffi h w = snd (handle_close ffi h w)"

lemmas handle_defs =
  handle_new_def handle_init_def handle_update_def handle_final_def handle_close_def

subsection \<open>SgxShaHandle, SgxSha384Handle, SgxSha1Handle\<close>

definition SgxShaHandle_new :: handle where "SgxShaHandle_new = handle_new"
definition SgxShaHandle_init where "SgxShaHandle_init P = handle_init (sgx_sha256_init P)"
definition SgxShaHandle_update_msg where "SgxShaHandle_update_msg P = handle_update (sgx_sha256_update P)"
definition SgxShaHandle_update_slice where "SgxShaHandle_update_slice P = handle_update (sgx_sha256_update P)"
definition SgxShaHandle_get_hash where "SgxShaHandle_get_hash P = handle_final 32 (sgx_sha256_get_hash P)"
definition SgxShaHandle_close where "SgxShaHandle_close P = handle_close (sgx_sha256_close P)"
definition SgxShaHandle_drop where "SgxShaHandle_drop P = handle_drop (sgx_sha256_close P)"

definition SgxSha384Handle_new :: handle where "SgxSha384Handle_new = handle_new"
definition SgxSha384Handle_init where "SgxSha384Handle_init P = handle_init (sgx_sha384_init P)"
definition SgxSha384Handle_update_msg where "SgxSha384Handle_update_msg P = handle_update (sgx_sha384_update P)"
definition SgxSha384Handle_update_slice where "SgxSha384Handle_update_slice P = handle_update (sgx_sha384_update P)"
definition SgxSha384Handle_get_hash where "SgxSha384Handle_get_hash P = handle_final 48 (sgx_sha384_get_hash P)"
definition SgxSha384Handle_close where "SgxSha384Handle_close P = handle_close (sgx_sha384_close P)"

definition SgxSha1Handle_new :: handle where "SgxSha1Handle_new = handle_new"
definition SgxSha1Handle_init where "SgxSha1Handle_init P = handle_init (sgx_sha1_init P)"
definition SgxSha1Handle_update_msg where "SgxSha1Handle_update_msg P = handle_update (sgx_sha1_update P)"
definition SgxSha1Handle_update_slice where "SgxSha1Handle_update_slice P = handle_update (sgx_sha1_update P)"
definition SgxSha1Handle_get_hash where "SgxSha1Handle_get_hash P = handle_final 20 (sgx_sha1_get_hash P)"
definition SgxSha1Handle_close where "SgxSha1Handle_close P = handle_close (sgx_sha1_close P)"

subsection \<open>SgxCmacHandle, SgxHmacHandle\<close>

definition SgxCmacHandle_new :: handle where "SgxCmacHandle_new = handle_new"
definition SgxCmacHandle_init where "SgxCmacHandle_init P key = handle_init (sgx_cmac128_init P key)"
definition SgxCmacHandle_update_msg where "SgxCmacHandle_update_msg P = handle_update (sgx_cmac128_update P)"
definition SgxCmacHandle_update_slice where "SgxCmacHandle_update_slice P = handle_update (sgx_cmac128_update P)"
definition SgxCmacHandle_get_hash where "SgxCmacHandle_get_hash P = handle_final 16 (sgx_cmac128_final P)"
definition SgxCmacHandle_get_align_hash where "SgxCmacHandle_get_align_hash P = handle_final 16 (sgx_cmac128_final P)"
definition SgxCmacHandle_close where "SgxCmacHandle_close P = handle_close (sgx_cmac128_close P)"
definition SgxCmacHandle_drop where "SgxCmacHandle_drop P = handle_drop (sgx_cmac128_close P)"

definition SgxHmacHandle_new :: handle where "SgxHmacHandle_new = handle_new"
definition SgxHmacHandle_init where "SgxHmacHandle_init P key = handle_init (sgx_hmac256_init P key)"
definition SgxHmacHandle_update_msg where "SgxHmacHandle_update_msg P = handle_update (sgx_hmac256_update P)"
definition SgxHmacHandle_update_slice where "SgxHmacHandle_update_slice P = handle_update (sgx_hmac256_update P)"
definition SgxHmacHandle_get_hash where "SgxHmacHandle_get_hash P = handle_final 32 (sgx_hmac256_final P)"
definition SgxHmacHandle_get_align_hash where "SgxHmacHandle_get_align_hash P = handle_final 32 (sgx_hmac256_final P)"
definition SgxHmacHandle_close where "SgxHmacHandle_close P = handle_close (sgx_hmac256_close P)"

subsection \<open>SgxEccHandle\<close>

definition SgxEccHandle_new :: handle where "SgxEccHandle_new = handle_new"
definition SgxEccHandle_open where "SgxEccHandle_open P = handle_init (sgx_ecc256_open_context P)"
definition SgxEccHandle_close where "SgxEccHandle_close P = handle_close (sgx_ecc256_close_context P)"
definition SgxEccHandle_drop where "SgxEccHandle_drop P = handle_drop (sgx_ecc256_close_context P)"

definition SgxEccHandle_create_key_pair ::
  "('w, 'z) ecc_ffi_scheme \<Rightarrow> handle \<Rightarrow> ('w, sgx_status_t, bytes \<times> bytes) io" where
  "SgxEccHandle_create_key_pair P h w =
     (if \<not> initflag h then (Inl SGX_ERROR_INVALID_STATE, w)
      else case sgx_ecc256_create_key_pair P (hnd h) w of
             ((ret, prv, pub), w') \<Rightarrow> (ffi_result ret (fit 32 prv, fit 64 pub), w'))"

definition SgxEccHandle_create_align_key_pair ::
  "('w, 'z) ecc_ffi_scheme \<Rightarrow> handle \<Rightarrow> ('w, sgx_status_t, bytes \<times> bytes) io" where
  "SgxEccHandle_create_align_key_pair P h w =
     (if \<not> initflag h then (Inl SGX_ERROR_INVALID_STATE, w)
      else case sgx_ecc256_create_key_pair P (hnd h) w of
             ((ret, prv, pub), w') \<Rightarrow> (ffi_result ret (fit 32 prv, fit 64 pub), w'))"

definition SgxEccHandle_check_point ::
  "('w, 'z) ecc_ffi_scheme \<Rightarrow> bytes \<Rightarrow> handle \<Rightarrow> ('w, sgx_status_t, bool) io" where
  "SgxEccHandle_check_point P point h w =
     (if \<not> initflag h then (Inl SGX_ERROR_INVALID_STATE, w)
      else case sgx_ecc256_check_point P point (hnd h) w of
             ((ret, valid), w') \<Rightarrow> (ffi_result ret (valid > 0), w'))"

definition SgxEccHandle_compute_shared_dhkey ::
  "('w, 'z) ecc_ffi_scheme \<Rightarrow> bytes \<Rightarrow> bytes \<Rightarrow> handle \<Rightarrow> ('w, sgx_status_t, bytes) io" where
  "SgxEccHandle_compute_shared_dhkey P private_b public_ga h w =
     (if \<not> initflag h then (Inl SGX_ERROR_INVALID_STATE, w)
      else case sgx_ecc256_compute_shared_dhkey P private_b public_ga (hnd h) w of
             ((ret, out), w') \<Rightarrow> (ffi_result ret (fit 32 out), w'))"

definition SgxEccHandle_compute_align_shared_dhkey ::
  "('w, 'z) ecc_ffi_scheme \<Rightarrow> bytes \<Rightarrow> bytes \<Rightarrow> handle \<Rightarrow> ('w, sgx_status_t, bytes) io" where
  "SgxEccHandle_compute_align_shared_dhkey P private_b public_ga h w =
     (if \<not> initflag h then (Inl SGX_ERROR_INVALID_STATE, w)
      else case sgx_ecc256_compute_shared_dhkey P private_b public_ga (hnd h) w of
             ((ret, out), w') \<Rightarrow> (ffi_result ret (fit 32 out), w'))"

section \<open>The contract of a handle type\<close>

text \<open>
  Scoped use of a handle, the shape of every function of the protocol code that needs one: create
  it, initialise it, run the body if that succeeded, drop it when the scope ends.
\<close>

definition with_handle ::
  "'h \<Rightarrow> ('h \<Rightarrow> 'w \<Rightarrow> (SgxError \<times> 'h) \<times> 'w) \<Rightarrow> ('h \<Rightarrow> 'w \<Rightarrow> 'w) \<Rightarrow>
   (sgx_status_t \<Rightarrow> 'r) \<Rightarrow> ('h \<Rightarrow> 'w \<Rightarrow> 'r \<times> 'w) \<Rightarrow> 'w \<Rightarrow> 'r \<times> 'w" where
  "with_handle new ini drp onerr inner w =
     (case ini new w of
        ((Inl e, h), w1) \<Rightarrow> (onerr e, drp h w1)
      | ((Inr _, h), w1) \<Rightarrow> (case inner h w1 of (r, w2) \<Rightarrow> (r, drp h w2)))"

locale session_handle =
  fixes new :: "'h"
    and ini :: "'k \<Rightarrow> 'h \<Rightarrow> 'w \<Rightarrow> (SgxError \<times> 'h) \<times> 'w"
    and upd :: "bytes \<Rightarrow> 'h \<Rightarrow> ('w, sgx_status_t, unit) io"
    and fin :: "'h \<Rightarrow> ('w, sgx_status_t, bytes) io"
    and cls :: "'h \<Rightarrow> 'w \<Rightarrow> (SgxError \<times> 'h) \<times> 'w"
    and ready :: "'h \<Rightarrow> bool"
  assumes new_unready: "\<not> ready new"
    and upd_unready: "\<not> ready h \<Longrightarrow> upd src h w = (Inl SGX_ERROR_INVALID_STATE, w)"
    and fin_unready: "\<not> ready h \<Longrightarrow> fin h w = (Inl SGX_ERROR_INVALID_STATE, w)"
    and ini_ready: "ready h \<Longrightarrow> ini k h w = ((Inr (), h), w)"
    and ini_ok: "ini k h w = ((Inr (), h'), w') \<Longrightarrow> ready h'"
    and ini_err: "ini k h w = ((Inl e, h'), w') \<Longrightarrow> \<not> ready h' \<and> e \<noteq> SGX_SUCCESS"
    and cls_unready: "\<not> ready h \<Longrightarrow> cls h w = ((Inr (), h), w)"
    and cls_ok: "ready h \<Longrightarrow> cls h w = ((Inr (), h'), w') \<Longrightarrow> h' = new"
    and cls_err: "cls h w = ((Inl e, h'), w') \<Longrightarrow> h' = h \<and> e \<noteq> SGX_SUCCESS"
begin

lemma init_idempotent:
  assumes "ini k h w = ((Inr (), h'), w')"
  shows "ini k' h' w' = ((Inr (), h'), w')"
  using ini_ready [OF ini_ok [OF assms]] .

lemma close_idempotent:
  assumes "cls h w = ((Inr (), h'), w')"
  shows "cls h' w' = ((Inr (), h'), w')"
proof (cases "ready h")
  case True
  with assms have "h' = new" by (rule cls_ok [rotated])
  then show ?thesis using cls_unready [OF new_unready] by simp
next
  case False
  with assms show ?thesis by (simp add: cls_unready)
qed

lemma closed_refuses:
  assumes "ready h" and "cls h w = ((Inr (), h'), w')"
  shows "upd src h' w'' = (Inl SGX_ERROR_INVALID_STATE, w'')"
    and "fin h' w'' = (Inl SGX_ERROR_INVALID_STATE, w'')"
  using cls_ok [OF assms] new_unready by (simp_all add: upd_unready fin_unready)

lemma scoped_init_failure:
  assumes "ini k new w = ((Inl e, h), w1)"
  shows "with_handle new (ini k) (\<lambda>h w. snd (cls h w)) onerr inner w = (onerr e, w1)"
  using ini_err [OF assms] by (simp add: with_handle_def assms cls_unready)

lemma scoped_success:
  assumes "ini k new w = ((Inr (), h), w1)" and "inner h w1 = (r, w2)"
  shows "with_handle new (ini k) (\<lambda>h w. snd (cls h w)) onerr inner w = (r, snd (cls h w2))"
  by (simp add: with_handle_def assms)

end

lemma handle_drop_cls: "handle_drop ffi = (\<lambda>h w. snd (handle_close ffi h w))"
  by (simp add: fun_eq_iff handle_drop_def)

lemma session_handle_generic:
  "session_handle handle_new (\<lambda>k. handle_init (f k)) (handle_update g) (handle_final n d)
     (handle_close c) initflag"
  by unfold_locales (auto simp: handle_defs split: if_splits prod.splits)

interpretation sha256: session_handle SgxShaHandle_new "\<lambda>_ :: unit. SgxShaHandle_init P"
  "SgxShaHandle_update_msg P" "SgxShaHandle_get_hash P" "SgxShaHandle_close P" initflag
  for P :: "('w, 'z) sha_ffi_scheme"
  unfolding SgxShaHandle_new_def SgxShaHandle_init_def SgxShaHandle_update_msg_def
    SgxShaHandle_get_hash_def SgxShaHandle_close_def
  by (rule session_handle_generic)

interpretation sha384: session_handle SgxSha384Handle_new "\<lambda>_ :: unit. SgxSha384Handle_init P"
  "SgxSha384Handle_update_msg P" "SgxSha384Handle_get_hash P" "SgxSha384Handle_close P" initflag
  for P :: "('w, 'z) sha_ffi_scheme"
  unfolding SgxSha384Handle_new_def SgxSha384Handle_init_def SgxSha384Handle_update_msg_def
    SgxSha384Handle_get_hash_def SgxSha384Handle_close_def
  by (rule session_handle_generic)

interpretation sha1: session_handle SgxSha1Handle_new "\<lambda>_ :: unit. SgxSha1Handle_init P"
  "SgxSha1Handle_update_msg P" "SgxSha1Handle_get_hash P" "SgxSha1Handle_close P" initflag
  for P :: "('w, 'z) sha_ffi_scheme"
  unfolding SgxSha1Handle_new_def SgxSha1Handle_init_def SgxSha1Handle_update_msg_def
    SgxSha1Handle_get_hash_def SgxSha1Handle_close_def
  by (rule session_handle_generic)

interpretation cmac: session_handle SgxCmacHandle_new "SgxCmacHandle_init P"
  "SgxCmacHandle_update_msg P" "SgxCmacHandle_get_hash P" "SgxCmacHandle_close P" initflag
  for P :: "('w, 'z) mac_ffi_scheme"
  unfolding SgxCmacHandle_new_def SgxCmacHandle_init_def SgxCmacHandle_update_msg_def
    SgxCmacHandle_get_hash_def SgxCmacHandle_close_def
  by (rule session_handle_generic)

interpretation hmac: session_handle SgxHmacHandle_new "SgxHmacHandle_init P"
  "SgxHmacHandle_update_msg P" "SgxHmacHandle_get_hash P" "SgxHmacHandle_close P" initflag
  for P :: "('w, 'z) mac_ffi_scheme"
  unfolding SgxHmacHandle_new_def SgxHmacHandle_init_def SgxHmacHandle_update_msg_def
    SgxHmacHandle_get_hash_def SgxHmacHandle_close_def
  by (rule session_handle_generic)

section \<open>Handles are used in order\<close>

text \<open>
  Which foreign calls does a sequence of method calls on one handle make? Record them: the world is
  the list of calls made so far (latest first), and the foreign code answers with arbitrary functions
  of it, collected in \<open>oracles\<close>.
\<close>

datatype ffi_event =
    EvInit sgx_status_t addr
  | EvUpdate bytes addr
  | EvFinal addr
  | EvClose addr sgx_status_t

record oracles =
  o_init :: "ffi_event list \<Rightarrow> sgx_status_t \<times> addr"
  o_update :: "ffi_event list \<Rightarrow> sgx_status_t"
  o_final :: "ffi_event list \<Rightarrow> sgx_status_t \<times> bytes"
  o_close :: "ffi_event list \<Rightarrow> sgx_status_t"

definition rec_init :: "oracles \<Rightarrow> ffi_event list \<Rightarrow> (sgx_status_t \<times> addr) \<times> ffi_event list" where
  "rec_init orc l = (o_init orc l, EvInit (fst (o_init orc l)) (snd (o_init orc l)) # l)"

definition rec_update :: "oracles \<Rightarrow> bytes \<Rightarrow> addr \<Rightarrow> ffi_event list \<Rightarrow> sgx_status_t \<times> ffi_event list" where
  "rec_update orc src p l = (o_update orc l, EvUpdate src p # l)"

definition rec_final :: "oracles \<Rightarrow> addr \<Rightarrow> ffi_event list \<Rightarrow> (sgx_status_t \<times> bytes) \<times> ffi_event list" where
  "rec_final orc p l = (o_final orc l, EvFinal p # l)"

definition rec_close :: "oracles \<Rightarrow> addr \<Rightarrow> ffi_event list \<Rightarrow> sgx_status_t \<times> ffi_event list" where
  "rec_close orc p l = (o_close orc l, EvClose p (o_close orc l) # l)"

datatype handle_op = OpInit | OpUpdate bytes | OpFinal | OpClose | OpDrop

fun handle_step :: "oracles \<Rightarrow> nat \<Rightarrow> handle_op \<Rightarrow> handle \<times> ffi_event list \<Rightarrow> handle \<times> ffi_event list" where
  "handle_step orc n OpInit (h, l) = (case handle_init (rec_init orc) h l of ((_, h'), l') \<Rightarrow> (h', l'))"
| "handle_step orc n (OpUpdate src) (h, l) = (h, snd (handle_update (rec_update orc) src h l))"
| "handle_step orc n OpFinal (h, l) = (h, snd (handle_final n (rec_final orc) h l))"
| "handle_step orc n OpClose (h, l) = (case handle_close (rec_close orc) h l of ((_, h'), l') \<Rightarrow> (h', l'))"
| "handle_step orc n OpDrop (h, l) = (h, handle_drop (rec_close orc) h l)"

text \<open>
  The context that is open after a sequence of calls, and the discipline: a context is updated, read
  or closed only while it is the open one, and a new one is requested only when none is open (a null
  context that an initialisation reported as a success needs no close).
\<close>

fun open_ctx :: "ffi_event list \<Rightarrow> addr option" where
  "open_ctx [] = None"
| "open_ctx (EvInit ret p # l) = (if ret = SGX_SUCCESS then Some p else open_ctx l)"
| "open_ctx (EvClose p ret # l) = (if ret = SGX_SUCCESS then None else open_ctx l)"
| "open_ctx (_ # l) = open_ctx l"

fun in_order :: "ffi_event list \<Rightarrow> bool" where
  "in_order [] = True"
| "in_order (EvInit ret p # l) = (open_ctx l \<in> {None, Some 0} \<and> in_order l)"
| "in_order (EvUpdate src p # l) = (open_ctx l = Some p \<and> src \<noteq> [] \<and> in_order l)"
| "in_order (EvFinal p # l) = (open_ctx l = Some p \<and> in_order l)"
| "in_order (EvClose p ret # l) = (open_ctx l = Some p \<and> p \<noteq> 0 \<and> in_order l)"

definition handle_inv :: "handle \<times> ffi_event list \<Rightarrow> bool" where
  "handle_inv s \<longleftrightarrow>
     in_order (snd s) \<and>
     (if initflag (fst s) then open_ctx (snd s) = Some (hnd (fst s))
      else open_ctx (snd s) \<in> {None, Some 0})"

lemmas rec_defs = rec_init_def rec_update_def rec_final_def rec_close_def

lemma handle_inv_new: "handle_inv (handle_new, [])"
  by (simp add: handle_inv_def handle_new_def)

text \<open>Every method but the final drop keeps the invariant; the drop keeps the order of the calls.\<close>

lemma handle_step_inv:
  "op \<noteq> OpDrop \<Longrightarrow> handle_inv s \<Longrightarrow> handle_inv (handle_step orc n op s)"
  by (cases s; cases op)
    (auto simp: handle_inv_def handle_defs rec_defs size_ok_def split: if_splits prod.splits)

lemma handle_run_inv:
  "OpDrop \<notin> set ops \<Longrightarrow> handle_inv s \<Longrightarrow> handle_inv (fold (handle_step orc n) ops s)"
proof (induction ops arbitrary: s)
  case (Cons op ops)
  then have "handle_inv (handle_step orc n op s)" by (intro handle_step_inv) auto
  with Cons show ?case by simp
qed simp

lemma handle_drop_in_order:
  "handle_inv (h, l) \<Longrightarrow> in_order (handle_drop (rec_close orc) h l)"
  by (auto simp: handle_inv_def handle_drop_def handle_defs rec_defs split: if_splits prod.splits)

text \<open>
  C20: Whatever sequence of methods an application calls on a handle (before it is dropped) and whatever the
  foreign library answers, the foreign calls come in order: a context is updated, read or closed only
  while it is the open one, never after it was closed, no null context is closed, and a new one is
  requested only when none is open; the final drop keeps this.
\<close>

theorem handle_calls_in_order:
  assumes "OpDrop \<notin> set ops"
  shows "in_order (snd (fold (handle_step orc n) (ops @ [OpDrop]) (handle_new, [])))"
proof -
  obtain h l where hl: "fold (handle_step orc n) ops (handle_new, []) = (h, l)" by fastforce
  with handle_run_inv [OF assms handle_inv_new, of orc n] have "handle_inv (h, l)" by simp
  with handle_drop_in_order [of h l orc] hl show ?thesis by simp
qed

definition sim_oracles :: oracles where
  "sim_oracles = \<lparr>o_init = (\<lambda>_. (SGX_SUCCESS, 16)), o_update = (\<lambda>_. SGX_ERROR_UNEXPECTED),
     o_final = (\<lambda>_. (SGX_SUCCESS, zeros 32)), o_close = (\<lambda>_. SGX_SUCCESS)\<rparr>"

theorem handle_calls_in_order_witness:
  "in_order (snd (fold (handle_step sim_oracles 32)
     ([OpUpdate [1], OpInit, OpUpdate [2], OpFinal, OpClose, OpFinal, OpInit] @ [OpDrop]) (handle_new, [])))"
  by (rule handle_calls_in_order) simp

section \<open>Documented behaviour of the foreign functions\<close>

text \<open>
  What the documentation of Intel's library promises of the digests and of the curve, as predicates on
  the foreign functions: a call that reports success has computed the function it is named after, on
  all that was fed to the context so far (\<open>ctx\<close> reads the key of a context and the data it has
  absorbed). With \<open>b\<close> the calls also succeed. They are hypotheses of the protocol theorems, never
  assumptions of the model.
\<close>

definition digest_laws ::
  "bool \<Rightarrow> nat \<Rightarrow> ('k \<Rightarrow> 'w \<Rightarrow> (sgx_status_t \<times> addr) \<times> 'w) \<Rightarrow> (bytes \<Rightarrow> addr \<Rightarrow> 'w \<Rightarrow> sgx_status_t \<times> 'w)
     \<Rightarrow> (addr \<Rightarrow> 'w \<Rightarrow> (sgx_status_t \<times> bytes) \<times> 'w) \<Rightarrow> ('k \<Rightarrow> bytes \<Rightarrow> bytes)
     \<Rightarrow> ('w \<Rightarrow> addr \<Rightarrow> ('k \<times> bytes) option) \<Rightarrow> bool" where
  "digest_laws b n ini upd fin D ctx \<longleftrightarrow>
     (\<forall>k d. length (D k d) = n) \<and>
     (\<forall>w k ret p w'. ini k w = ((ret, p), w') \<longrightarrow>
        (if ret = SGX_SUCCESS then ctx w' p = Some (k, []) else \<not> b)) \<and>
     (\<forall>w p src k d ret w'. ctx w p = Some (k, d) \<longrightarrow> upd src p w = (ret, w') \<longrightarrow>
        (if ret = SGX_SUCCESS then ctx w' p = Some (k, d @ src) else \<not> b)) \<and>
     (\<forall>w p k d ret out w'. ctx w p = Some (k, d) \<longrightarrow> fin p w = ((ret, out), w') \<longrightarrow>
        (if ret = SGX_SUCCESS then out = D k d else \<not> b))"

definition sha_laws ::
  "bool \<Rightarrow> ('w, 'z) sha_ffi_scheme \<Rightarrow> (bytes \<Rightarrow> bytes) \<Rightarrow> ('w \<Rightarrow> addr \<Rightarrow> (unit \<times> bytes) option) \<Rightarrow> bool" where
  "sha_laws b P sha ctx \<longleftrightarrow>
     digest_laws b 32 (\<lambda>_. sgx_sha256_init P) (sgx_sha256_update P) (sgx_sha256_get_hash P) (\<lambda>_. sha) ctx"

definition cmac_laws ::
  "bool \<Rightarrow> ('w, 'z) mac_ffi_scheme \<Rightarrow> (bytes \<Rightarrow> bytes \<Rightarrow> bytes) \<Rightarrow> ('w \<Rightarrow> addr \<Rightarrow> (bytes \<times> bytes) option) \<Rightarrow> bool" where
  "cmac_laws b P cmac ctx \<longleftrightarrow>
     digest_laws b 16 (sgx_cmac128_init P) (sgx_cmac128_update P) (sgx_cmac128_final P) cmac ctx \<and>
     (\<forall>w k src ret out w'. sgx_rijndael128_cmac_msg P k src w = ((ret, out), w') \<longrightarrow>
        (if ret = SGX_SUCCESS then out = cmac k src else \<not> b))"

text \<open>
  A key pair is a private key with the public key \<open>pub_of\<close> it; the shared secret is a function \<open>dh\<close> of
  a private and a public key, and its computation succeeds on every public key of a pair.
\<close>

definition ecc_laws ::
  "bool \<Rightarrow> ('w, 'z) ecc_ffi_scheme \<Rightarrow> (bytes \<Rightarrow> bytes) \<Rightarrow> (bytes \<Rightarrow> bytes \<Rightarrow> bytes) \<Rightarrow> bool" where
  "ecc_laws b P pub_of dh \<longleftrightarrow>
     (\<forall>x. length (pub_of x) = 64) \<and> (\<forall>x y. length (dh x y) = 32) \<and>
     (\<forall>w ret p w'. sgx_ecc256_open_context P w = ((ret, p), w') \<longrightarrow> b \<longrightarrow> ret = SGX_SUCCESS) \<and>
     (\<forall>w p ret prv pub w'. sgx_ecc256_create_key_pair P p w = ((ret, prv, pub), w') \<longrightarrow>
        (if ret = SGX_SUCCESS then length prv = 32 \<and> pub = pub_of prv else \<not> b)) \<and>
     (\<forall>w p x y ret out w'. sgx_ecc256_compute_shared_dhkey P x y p w = ((ret, out), w') \<longrightarrow>
        (if ret = SGX_SUCCESS then out = dh x y else b \<longrightarrow> y \<notin> range pub_of))"

section \<open>Digests in a scope\<close>

text \<open>
  Under the laws, a handle that was fed some parts returns the digest of their concatenation, and the
  whole scope (create, init, feed, read, drop) is a computation that works in every world.
\<close>

lemma handle_update_law:
  assumes "digest_laws b n ini upd fin D ctx" and "initflag h" and "b \<longrightarrow> size_ok src"
  shows "hoareW b (\<lambda>w. ctx w (hnd h) = Some (k, d)) (handle_update upd src h)
           (\<lambda>_ w. ctx w (hnd h) = Some (k, d @ src))"
proof (cases "size_ok src")
  case True
  have "handle_update upd src h = (\<lambda>w. case upd src (hnd h) w of (ret, w') \<Rightarrow> (ffi_result ret (), w'))"
    using True assms(2) by (simp add: fun_eq_iff handle_update_def)
  moreover have "if ret = SGX_SUCCESS then ctx w' (hnd h) = Some (k, d @ src) else \<not> b"
    if "ctx w (hnd h) = Some (k, d)" and "upd src (hnd h) w = (ret, w')" for w ret w'
    using assms(1) that unfolding digest_laws_def by blast
  ultimately show ?thesis by (simp add: hoareW_ffi_unit)
next
  case False
  with assms(2,3) show ?thesis by (simp add: hoareW_def handle_update_def)
qed

lemma handle_final_law:
  assumes "digest_laws b n ini upd fin D ctx" and "initflag h"
  shows "hoareW b (\<lambda>w. ctx w (hnd h) = Some (k, d)) (handle_final n fin h) (\<lambda>x _. x = D k d)"
proof -
  have "handle_final n fin h = (\<lambda>w. case fin (hnd h) w of ((ret, out), w') \<Rightarrow> (ffi_result ret (fit n out), w'))"
    using assms(2) by (simp add: fun_eq_iff handle_final_def)
  moreover have "if ret = SGX_SUCCESS then fit n out = D k d else \<not> b"
    if "ctx w (hnd h) = Some (k, d)" and "fin (hnd h) w = ((ret, out), w')" for w ret out w'
    using assms(1) that unfolding digest_laws_def by (metis fit_id)
  ultimately show ?thesis by (simp add: hoareW_ffi)
qed

lemma hoareE_digest_msg:
  assumes "\<And>w ret out w'. ffi src w = ((ret, out), w') \<Longrightarrow> if ret = SGX_SUCCESS then Q (fit n out) else \<not> b"
    and "b \<longrightarrow> size_ok src"
  shows "hoareE b (digest_msg n ffi src) Q"
proof (cases "size_ok src")
  case True
  then have "digest_msg n ffi src = (\<lambda>w. case ffi src w of ((ret, out), w') \<Rightarrow> (ffi_result ret (fit n out), w'))"
    by (simp add: fun_eq_iff digest_msg_def)
  with assms(1) show ?thesis by (simp add: hoareE_def hoareW_ffi)
next
  case False
  with assms(2) show ?thesis by (simp add: hoareE_def hoareW_def digest_msg_def)
qed

lemma hoareE_with_handle:
  assumes "\<And>w ret p w'. ini w = ((ret, p), w') \<Longrightarrow>
             if ret = SGX_SUCCESS then A \<lparr>hnd = p, initflag = True\<rparr> w' else \<not> b"
    and "\<And>h. initflag h \<Longrightarrow> hoareW b (A h) (inner h) (\<lambda>x _. Q x)"
    and "\<And>e. isl (onerr e)"
  shows "hoareE b (with_handle handle_new (handle_init ini) drp onerr inner) Q"
  unfolding hoareE_def hoareW_def
proof (intro allI impI)
  fix w
  obtain ret p w1 where i: "ini w = ((ret, p), w1)" by (metis prod.exhaust)
  obtain r w2 where r: "inner \<lparr>hnd = p, initflag = True\<rparr> w1 = (r, w2)" by fastforce
  show "(\<forall>x w'. with_handle handle_new (handle_init ini) drp onerr inner w = (Inr x, w') \<longrightarrow> Q x) \<and>
    (\<forall>e w'. with_handle handle_new (handle_init ini) drp onerr inner w = (Inl e, w') \<longrightarrow> \<not> b)"
  proof (cases "ret = SGX_SUCCESS")
    case True
    with i r have "with_handle handle_new (handle_init ini) drp onerr inner w =
        (r, drp \<lparr>hnd = p, initflag = True\<rparr> w2)"
      by (simp add: with_handle_def handle_init_def handle_new_def)
    with True r assms(1) [OF i] assms(2) [of "\<lparr>hnd = p, initflag = True\<rparr>"] show ?thesis
      unfolding hoareW_def by auto
  next
    case False
    with i have "fst (with_handle handle_new (handle_init ini) drp onerr inner w) = onerr ret"
      by (simp add: with_handle_def handle_init_def handle_new_def)
    with False assms(1) [OF i] assms(3) [of ret] show ?thesis by (metis fst_conv isl_def sum.distinct(1))
  qed
qed

lemma with_digest_law:
  assumes "digest_laws b n ini upd fin D ctx"
    and "\<And>h. initflag h \<Longrightarrow> hoareW b (\<lambda>w. ctx w (hnd h) = Some (k, [])) (inner h) (\<lambda>x _. Q x)"
    and "\<And>e. isl (onerr e)"
  shows "hoareE b (with_handle handle_new (handle_init (ini k)) drp onerr inner) Q"
proof (rule hoareE_with_handle [where A = "\<lambda>h w. ctx w (hnd h) = Some (k, [])"])
  fix w ret p w' assume "ini k w = ((ret, p), w')"
  with assms(1) show "if ret = SGX_SUCCESS then ctx w' (hnd \<lparr>hnd = p, initflag = True\<rparr>) = Some (k, []) else \<not> b"
    unfolding digest_laws_def by (metis handle.select_convs(1))
qed (use assms in simp_all)

end
