(* ===== verification/Sgx_Tdh_Msg.thy ===== *)
theory Sgx_Tdh_Msg
  imports Sgx_Tcrypto
begin

text \<open>
  Messages of the Diffie-Hellman session library (\<^verbatim>\<open>src/sgx_tdh/src/dh.rs\<close>, \<^verbatim>\<open>ecp.rs\<close>): the third
  message and its raw form, the LAv2 protocol specification with the interpreter that copies report
  fields to a target info (\<^verbatim>\<open>make_target_info\<close>), and the key derivation.
\<close>

section \<open>Message 3\<close>

record SgxDhMsg3 =
  m3_cmac :: bytes
  m3_report :: sgx_report_t
  m3_additional_prop :: bytes

definition SgxDhMsg3_new :: SgxDhMsg3 where
  "SgxDhMsg3_new = \<lparr>m3_cmac = zeros 16, m3_report = report_default, m3_additional_prop = []\<rparr>"

definition wf_msg3 :: "SgxDhMsg3 \<Rightarrow> bool" where
  "wf_msg3 m \<longleftrightarrow> length (m3_cmac m) = 16 \<and> wf_report (m3_report m)"

text \<open>\<^verbatim>\<open>mem::size_of::<sgx_dh_msg3_t>()\<close>: 16 bytes of MAC, 432 of report, 4 of length.\<close>

abbreviation (input) dh_msg3_size :: nat where "dh_msg3_size \<equiv> 452"

definition msg3_calc_raw_sealed_data_size :: "SgxDhMsg3 \<Rightarrow> u32" where
  "msg3_calc_raw_sealed_data_size m =
     (let additional_prop_len = length (m3_additional_prop m)
      in if additional_prop_len > u32_max_nat - dh_msg3_size then U32_MAX
         else as_u32 (dh_msg3_size + additional_prop_len))"

text \<open>
  The raw conversions work on the memory at \<open>p\<close>, the bytes \<open>mem\<close>. \<^verbatim>\<open>copy_from_slice\<close> panics when the
  two lengths differ; a read past the end of \<open>mem\<close> is undefined.
\<close>

definition to_raw_dh_msg3_t ::
  "('w, 'z) trts_ffi_scheme \<Rightarrow> SgxDhMsg3 \<Rightarrow> bytes mref \<Rightarrow> u32 \<Rightarrow> (addr option \<times> bytes) outcome" where
  "to_raw_dh_msg3_t P self pm len =
     (let p = fst pm; mem = snd pm; additional_prop_len = length (m3_additional_prop self)
      in if p = 0 then Ret (None, mem)
         else if \<not> rsgx_raw_is_within_enclave P p (unat len) then Ret (None, mem)
         else if additional_prop_len > u32_max_nat - dh_msg3_size then Ret (None, mem)
         else if len < as_u32 (dh_msg3_size + additional_prop_len) then Ret (None, mem)
         else if length mem < unat len then Undef
         else let mem1 = bsplice 0 (m3_cmac self @ report_to_bytes (m3_report self) @
                                    enc32 (as_u32 additional_prop_len)) mem
              in if additional_prop_len > 0 then
                   if unat len - dh_msg3_size \<noteq> additional_prop_len then Panic
                   else Ret (Some p, bsplice dh_msg3_size (m3_additional_prop self) mem1)
                 else Ret (Some p, mem1))"

definition from_raw_dh_msg3_t ::
  "('w, 'z) trts_ffi_scheme \<Rightarrow> bytes mref \<Rightarrow> u32 \<Rightarrow> SgxDhMsg3 option outcome" where
  "from_raw_dh_msg3_t P pm len =
     (let p = fst pm; mem = snd pm
      in if p = 0 then Ret None
         else if \<not> rsgx_raw_is_within_enclave P p (unat len) then Ret None
         else if length mem < dh_msg3_size then Undef
         else let additional_prop_len = dec32 (bslice 448 4 mem)
              in if additional_prop_len > U32_MAX - as_u32 dh_msg3_size then Ret None
                 else if len < as_u32 dh_msg3_size + additional_prop_len then Ret None
                 else if length mem < dh_msg3_size + unat additional_prop_len then Undef
                 else Ret (Some
                   \<lparr>m3_cmac = bslice 0 16 mem, m3_report = report_of_bytes (bslice 16 432 mem),
                    m3_additional_prop =
                      (if additional_prop_len > 0
                       then bslice dh_msg3_size (unat additional_prop_len) mem else [])\<rparr>))"

section \<open>The LAv2 protocol specification\<close>

record SgxLAv2ProtoSpec =
  signature :: bytes
  ver :: u8
  rev_no :: u8
  target_spec :: "u16 list"

definition ts_count :: "SgxLAv2ProtoSpec \<Rightarrow> u16" where
  "ts_count s = drop_bit 8 (target_spec s ! 0)"

definition lav2_is_valid :: "SgxLAv2ProtoSpec \<Rightarrow> bool" where
  "lav2_is_valid s \<longleftrightarrow>
     ver s = 2 \<and> rev_no s = 0 \<and> (ucast (target_spec s ! 0) :: u8) = 0 \<and> ts_count s < 28"

text \<open>
  One iteration per entry: the low four bits are the logarithm of the field's size, the others its
  offset in the report; \<open>to\<close> is the next aligned offset in the target info. The arithmetic is
  \<^verbatim>\<open>i32\<close>; sizes are at most \<open>2^15\<close> and \<open>to\<close> stays below 512 plus one size, so it never wraps.
\<close>

fun copy_fields :: "bytes \<Rightarrow> u16 list \<Rightarrow> int \<Rightarrow> bytes \<Rightarrow> SgxError \<times> bytes" where
  "copy_fields f [] to d = (Inr (), d)"
| "copy_fields f (spec # specs) to d =
     (let sz = push_bit (unat (spec AND 0xF)) 1;
          to1 = (to + (sz - 1)) AND (- sz)
      in if to1 + sz > 512 then (Inl SGX_ERROR_UNEXPECTED, d)
         else let frm = uint (drop_bit 4 spec)
              in if frm \<ge> 0 then
                   if frm + sz > 432 then (Inl SGX_ERROR_UNEXPECTED, d)
                   else copy_fields f specs (to1 + sz)
                          (bsplice (nat to1) (bslice (nat frm) (nat sz) f) d)
                 else if frm = - 1 then (Inr (), d)
                 else (Inl SGX_ERROR_UNEXPECTED, d))"

definition make_target_info ::
  "SgxLAv2ProtoSpec \<Rightarrow> sgx_report_t \<Rightarrow> sgx_target_info_t \<Rightarrow> SgxError \<times> sgx_target_info_t" where
  "make_target_info self rpt ti =
     (if \<not> lav2_is_valid self then (Inl SGX_ERROR_INVALID_PARAMETER, ti)
      else case copy_fields (report_to_bytes rpt)
                  (take (unat (ts_count self)) (drop 1 (target_spec self))) 0 (target_info_to_bytes ti) of
             (ret, d) \<Rightarrow> (ret, target_info_of_bytes d))"

definition SGX_LAV2_PROTO_SPEC :: SgxLAv2ProtoSpec where
  "SGX_LAV2_PROTO_SPEC =
     \<lparr>signature = [0x53, 0x47, 0x58, 0x20, 0x4C, 0x41], ver = 2, rev_no = 0,
      target_spec = [0x0600, 0x0405, 0x0304, 0x0140, 0x1041, 0x0102, 0x0C06] @ replicate 21 0\<rparr>"

definition rsgx_self_target :: "('w, 'z) tse_ffi_scheme \<Rightarrow> 'w \<Rightarrow> sgx_target_info_t SgxResult" where
  "rsgx_self_target P w =
     (case make_target_info SGX_LAV2_PROTO_SPEC (rsgx_self_report P w) target_info_default of
        (Inl e, _) \<Rightarrow> Inl e
      | (Inr _, target_info) \<Rightarrow> Inr target_info)"

section \<open>Key derivation (ecp.rs)\<close>

definition EC_SMK_LABEL :: bytes where "EC_SMK_LABEL = [0x53, 0x4D, 0x4B]"
definition EC_AEK_LABEL :: bytes where "EC_AEK_LABEL = [0x41, 0x45, 0x4B]"

definition ecp_set_error :: "sgx_status_t \<Rightarrow> sgx_status_t" where
  "ecp_set_error ret = (if ret = SGX_ERROR_OUT_OF_MEMORY then SGX_ERROR_OUT_OF_MEMORY else SGX_ERROR_UNEXPECTED)"

definition derivation_buffer :: "bytes \<Rightarrow> bytes" where
  "derivation_buffer label = [0x01, label ! 0, label ! 1, label ! 2, 0x00, 0x80, 0x00]"

definition derive_key ::
  "('w, 'z) mac_ffi_scheme \<Rightarrow> bytes \<Rightarrow> bytes \<Rightarrow> ('w, sgx_status_t, bytes) io" where
  "derive_key P shared_key label =
     bindE (map_errW ecp_set_error (rsgx_rijndael128_cmac_msg P (zeros 16) shared_key))
       (\<lambda>key_derive_key. map_errW ecp_set_error
          (rsgx_rijndael128_align_cmac_slice P key_derive_key (derivation_buffer label)))"

section \<open>What make_target_info copies\<close>

lemma lav2_spec_valid [simp]:
  "lav2_is_valid SGX_LAV2_PROTO_SPEC" "ts_count SGX_LAV2_PROTO_SPEC = 6"
  "take 6 (drop (Suc 0) (target_spec SGX_LAV2_PROTO_SPEC)) =
     [0x0405, 0x0304, 0x0140, 0x1041, 0x0102, 0x0C06]"
  by (simp_all add: lav2_is_valid_def ts_count_def SGX_LAV2_PROTO_SPEC_def)

lemma copy_fields_lav2:
  "copy_fields f [0x0405, 0x0304, 0x0140, 0x1041, 0x0102, 0x0C06] 0 d =
     (Inr (), bsplice 64 (bslice 192 64 f) (bsplice 52 (bslice 16 4 f) (bsplice 50 (bslice 260 2 f)
        (bsplice 48 (bslice 20 1 f) (bsplice 32 (bslice 48 16 f) (bsplice 0 (bslice 64 32 f) d))))))"
  by (simp add: Let_def)

lemma report_field_slices:
  assumes "wf_report r"
  shows "bslice 16 4 (report_to_bytes r) = enc32 (misc_select (body r))"
    and "bslice 20 1 (report_to_bytes r) = [reserved1 (body r) ! 0]"
    and "bslice 48 16 (report_to_bytes r) = attributes_to_bytes (attributes (body r))"
    and "bslice 64 32 (report_to_bytes r) = mr_enclave (body r)"
    and "bslice 192 64 (report_to_bytes r) = config_id (body r)"
    and "bslice 260 2 (report_to_bytes r) = enc16 (config_svn (body r))"
  using assms
  by (simp_all add: report_to_bytes_def report_body_to_bytes_def wf_simps codec_slices)
    (simp add: bslice_def take_Suc_conv_app_nth)

lemma make_target_info_lav2:
  assumes "wf_report rpt" and "wf_target_info ti"
  shows "make_target_info SGX_LAV2_PROTO_SPEC rpt ti =
    (Inr (), ti\<lparr>ti_mr_enclave := mr_enclave (body rpt), ti_attributes := attributes (body rpt),
               ti_reserved1 := [reserved1 (body rpt) ! 0, ti_reserved1 ti ! 1],
               ti_config_svn := config_svn (body rpt), ti_misc_select := misc_select (body rpt),
               ti_config_id := config_id (body rpt)\<rparr>)" (is "_ = (_, ?ti)")
proof -
  obtain r0 r1 where r: "ti_reserved1 ti = [r0, r1]"
    using assms(2) by (auto simp: wf_target_info_def numeral_2_eq_2 length_Suc_conv)
  have wf: "wf_target_info ?ti" using assms by (simp add: wf_simps)
  have "snd (copy_fields (report_to_bytes rpt) [0x0405, 0x0304, 0x0140, 0x1041, 0x0102, 0x0C06] 0
          (target_info_to_bytes ti)) = target_info_to_bytes ?ti"
    using assms(2) wf r unfolding copy_fields_lav2 report_field_slices [OF assms(1)]
    by (simp add: target_info_to_bytes_def wf_simps
        bsplice_append_left bsplice_append_right bsplice_all bsplice_def)
  with wf show ?thesis
    by (simp add: make_target_info_def copy_fields_lav2)
qed

text \<open>Whatever the specification says, the interpreter writes inside the target info only.\<close>

lemma copy_fields_length:
  assumes "length f = 432" and "length d = 512" and "0 \<le> to"
  shows "length (snd (copy_fields f specs to d)) = 512"
  using assms(2,3)
proof (induction specs arbitrary: to d)
  case Nil
  then show ?case by simp
next
  case (Cons spec specs)
  define sz :: int where "sz = push_bit (unat (spec AND 0xF)) 1"
  define to1 where "to1 = (to + (sz - 1)) AND (- sz)"
  define frm where "frm = uint (drop_bit 4 spec)"
  have sz: "0 < sz" by (simp add: sz_def push_bit_eq_mult)
  with Cons.prems have to1: "0 \<le> to1" by (simp add: to1_def)
  have frm: "0 \<le> frm" by (simp add: frm_def)
  show ?case
  proof (cases "to1 + sz > 512 \<or> frm + sz > 432")
    case True
    with Cons.prems show ?thesis by (auto simp: Let_def frm_def sz_def to1_def)
  next
    case False
    define d' where "d' = bsplice (nat to1) (bslice (nat frm) (nat sz) f) d"
    have "length (bslice (nat frm) (nat sz) f) = nat sz"
      using False assms(1) sz frm by (intro length_bslice) arith
    with False Cons.prems(1) sz to1 have "length d' = 512"
      unfolding d'_def by (subst length_bsplice) (simp_all, arith)
    moreover have "copy_fields f (spec # specs) to d = copy_fields f specs (to1 + sz) d'"
      using False by (simp add: Let_def frm_def sz_def to1_def d'_def)
    ultimately show ?thesis using Cons.IH [of d' "to1 + sz"] sz to1 by simp
  qed
qed

section \<open>The raw form of message 3\<close>

definition msg3_header :: "SgxDhMsg3 \<Rightarrow> bytes" where
  "msg3_header m =
     m3_cmac m @ report_to_bytes (m3_report m) @ enc32 (as_u32 (length (m3_additional_prop m)))"

lemma length_msg3_header [simp]: "wf_msg3 m \<Longrightarrow> length (msg3_header m) = 452"
  by (simp add: msg3_header_def wf_msg3_def)

lemma to_raw_exact:
  assumes "wf_msg3 m" and "length (m3_additional_prop m) \<le> u32_max_nat - 452" and "p \<noteq> 0"
    and "rsgx_raw_is_within_enclave P p (452 + length (m3_additional_prop m))"
    and "length mem = 452 + length (m3_additional_prop m)"
  shows "to_raw_dh_msg3_t P m (p, mem) (msg3_calc_raw_sealed_data_size m) =
           Ret (Some p, msg3_header m @ m3_additional_prop m)"
proof -
  let ?n = "length (m3_additional_prop m)"
  have size: "msg3_calc_raw_sealed_data_size m = as_u32 (452 + ?n)"
    using assms(2) by (simp add: msg3_calc_raw_sealed_data_size_def)
  have u: "unat (as_u32 (452 + ?n)) = 452 + ?n" using assms(2) by simp
  have hdr: "bsplice 0 (msg3_header m) mem = msg3_header m @ drop 452 mem"
    using assms(1,5) by (simp add: bsplice_def)
  have all: "bsplice 452 (m3_additional_prop m) (msg3_header m @ drop 452 mem) =
      msg3_header m @ m3_additional_prop m"
    using assms(1,5) by (simp add: bsplice_append_right bsplice_all)
  show ?thesis
    using assms hdr all
    by (auto simp: to_raw_dh_msg3_t_def size u Let_def simp flip: msg3_header_def)
qed

lemma from_raw_exact:
  assumes "wf_msg3 m" and "length (m3_additional_prop m) \<le> u32_max_nat - 452" and "p \<noteq> 0"
    and "rsgx_raw_is_within_enclave P p (unat len)" and "unat len \<ge> 452 + length (m3_additional_prop m)"
  shows "from_raw_dh_msg3_t P (p, msg3_header m @ m3_additional_prop m @ rest) len = Ret (Some m)"
proof -
  let ?n = "length (m3_additional_prop m)"
  let ?mem = "msg3_header m @ m3_additional_prop m @ rest"
  have len: "length (m3_cmac m) = 16" "length (report_to_bytes (m3_report m)) = 432"
    using assms(1) by (simp_all add: wf_msg3_def)
  have fields: "bslice 448 4 ?mem = enc32 (as_u32 ?n)" "bslice 0 16 ?mem = m3_cmac m"
    "report_of_bytes (bslice 16 432 ?mem) = m3_report m" "bslice 452 ?n ?mem = m3_additional_prop m"
    using assms(1) by (simp_all add: msg3_header_def wf_msg3_def len codec_slices)
  have u: "unat (as_u32 ?n) = ?n" using assms(2) by simp
  have guard: "\<not> as_u32 ?n > U32_MAX - as_u32 452"
  proof -
    have "U32_MAX - as_u32 452 = 0xFFFFFE3B" by (simp add: U32_MAX_def as_u32_def)
    with assms(2) show ?thesis by (simp add: word_less_nat_alt u)
  qed
  have "unat (as_u32 452 + as_u32 ?n) = 452 + ?n"
    using assms(2) by (simp add: unat_word_ariths u)
  then have room: "\<not> len < as_u32 452 + as_u32 ?n" using assms(5) by (simp add: word_less_nat_alt)
  have "as_u32 ?n > 0 \<longleftrightarrow> ?n > 0" using u by (simp add: word_less_nat_alt)
  with assms(1,3,4) fields guard room u show ?thesis
    by (simp add: from_raw_dh_msg3_t_def Let_def)
qed

text \<open>
  Converting a message 3 to its raw form and back gives the message, in a buffer of the size
  \<^verbatim>\<open>calc_raw_sealed_data_size\<close> computes; the size, the guards and the copy agree, so the conversion
  neither panics nor leaves the buffer.
\<close>

theorem msg3_raw_roundtrip:
  assumes "wf_msg3 m" and "length (m3_additional_prop m) \<le> u32_max_nat - 452" and "p \<noteq> 0"
    and "rsgx_raw_is_within_enclave P p (452 + length (m3_additional_prop m))"
    and "length mem = 452 + length (m3_additional_prop m)"
  shows "\<exists>mem'. to_raw_dh_msg3_t P m (p, mem) (msg3_calc_raw_sealed_data_size m) = Ret (Some p, mem') \<and>
           length mem' = length mem \<and>
           from_raw_dh_msg3_t P (p, mem') (msg3_calc_raw_sealed_data_size m) = Ret (Some m)"
proof -
  have "unat (msg3_calc_raw_sealed_data_size m) = 452 + length (m3_additional_prop m)"
    using assms(2) by (simp add: msg3_calc_raw_sealed_data_size_def)
  with assms from_raw_exact [of m p P _ "[]"] show ?thesis by (simp add: to_raw_exact)
qed

definition open_enclave :: "unit trts_ffi" where
  "open_enclave = \<lparr>sgx_is_within_enclave = (\<lambda>p n. 1), sgx_is_outside_enclave = (\<lambda>p n. 0),
     sgx_read_rand = (\<lambda>n w. ((SGX_SUCCESS, zeros n), w))\<rparr>"

theorem msg3_raw_roundtrip_witness:
  "\<exists>mem'. to_raw_dh_msg3_t open_enclave (SgxDhMsg3_new\<lparr>m3_additional_prop := [7, 8]\<rparr>) (4096, zeros 454)
       (msg3_calc_raw_sealed_data_size (SgxDhMsg3_new\<lparr>m3_additional_prop := [7, 8]\<rparr>)) = Ret (Some 4096, mem') \<and>
     length mem' = length (zeros 454) \<and>
     from_raw_dh_msg3_t open_enclave (4096, mem')
       (msg3_calc_raw_sealed_data_size (SgxDhMsg3_new\<lparr>m3_additional_prop := [7, 8]\<rparr>)) =
       Ret (Some (SgxDhMsg3_new\<lparr>m3_additional_prop := [7, 8]\<rparr>))"
  by (rule msg3_raw_roundtrip)
    (simp_all add: wf_msg3_def SgxDhMsg3_new_def rsgx_raw_is_within_enclave_def open_enclave_def)

text \<open>
  The guard of \<^verbatim>\<open>to_raw_dh_msg3_t\<close> accepts any buffer that is large enough, but with a non-empty
  property the conversion panics whenever the buffer is strictly larger than needed, because
  \<^verbatim>\<open>copy_from_slice\<close> then sees two different lengths.
\<close>

theorem to_raw_larger_buffer_panics:
  assumes "m3_additional_prop m \<noteq> []" and "452 + length (m3_additional_prop m) < unat len"
    and "p \<noteq> 0" and "rsgx_raw_is_within_enclave P p (unat len)" and "length mem = unat len"
  shows "to_raw_dh_msg3_t P m (p, mem) len = Panic"
proof -
  have small: "452 + length (m3_additional_prop m) \<le> u32_max_nat"
    using assms(2) unat_le_U32_MAX [of len] by simp
  then have "\<not> len < as_u32 (452 + length (m3_additional_prop m))"
    using assms(2) by (simp add: word_less_nat_alt)
  with small assms show ?thesis by (auto simp: to_raw_dh_msg3_t_def Let_def)
qed

theorem to_raw_larger_buffer_panics_witness:
  "to_raw_dh_msg3_t open_enclave (SgxDhMsg3_new\<lparr>m3_additional_prop := [7]\<rparr>) (4096, zeros 512) 512 = Panic"
  by (rule to_raw_larger_buffer_panics)
    (simp_all add: SgxDhMsg3_new_def rsgx_raw_is_within_enclave_def open_enclave_def)

text \<open>
  \<^verbatim>\<open>from_raw_dh_msg3_t\<close> reads the length field of the header before it compares \<^verbatim>\<open>len\<close> with the size
  of the header: on a non-null buffer inside the enclave that is shorter than the header, the read
  leaves the buffer, and on no other buffer.
\<close>

theorem from_raw_reads_outside_iff:
  assumes "length mem = unat len"
  shows "from_raw_dh_msg3_t P (p, mem) len = Undef \<longleftrightarrow>
           p \<noteq> 0 \<and> rsgx_raw_is_within_enclave P p (unat len) \<and> unat len < 452"
proof -
  have "unat (as_u32 452 + a) = 452 + unat a" if "\<not> a > U32_MAX - as_u32 452" for a
  proof -
    have "U32_MAX - as_u32 452 = 0xFFFFFE3B" by (simp add: U32_MAX_def as_u32_def)
    with that have "unat a \<le> 0xFFFFFE3B" by (simp add: word_less_nat_alt)
    then show ?thesis by (simp add: unat_word_ariths)
  qed
  with assms show ?thesis
    by (auto simp: from_raw_dh_msg3_t_def Let_def word_less_nat_alt)
qed

theorem from_raw_reads_outside_iff_witness:
  "from_raw_dh_msg3_t open_enclave (4096, zeros 100) 100 = Undef"
  using from_raw_reads_outside_iff [of "zeros 100" 100 open_enclave 4096]
  by (simp add: rsgx_raw_is_within_enclave_def open_enclave_def)

end
