(* ===== verification/Sgx_Tdh.thy ===== *)
theory Sgx_Tdh
  imports Sgx_Tdh_Msg
begin

text \<open>
  The Diffie-Hellman sessions of \<^verbatim>\<open>src/sgx_tdh/src/dh.rs\<close>: \<^verbatim>\<open>SgxDhResponder\<close> (gen_msg1, proc_msg2)
  and \<^verbatim>\<open>SgxDhInitiator\<close> (proc_msg1, proc_msg3), in both protocol variants (the cargo feature
  \<^verbatim>\<open>use_lav2\<close>). Every operation takes the references it is given with their addresses, because it
  checks that they lie in the enclave, and returns the new values of all that it may write, on error
  paths as well. The lemmas show the session's state machine, that no failure and no completed session
  leaves key material behind, and what a successful return guarantees.
\<close>

section \<open>Configuration\<close>

text \<open>
  What the compiler fixes: the feature flag, the sizes of the three structures without \<^verbatim>\<open>repr(C)\<close>, and
  the memory image of \<^verbatim>\<open>SgxLAv2ProtoSpec\<close>, which \<^verbatim>\<open>mem::transmute\<close> exposes although the structure has
  no declared layout. \<open>wf_cfg\<close> says that the transmutes are inverse to each other.
\<close>

record dh_cfg =
  use_lav2 :: bool
  size_of_SgxDhResponder :: usize
  size_of_SgxDhInitiator :: usize
  size_of_SgxDhMsg3 :: usize
  to_report_data :: "SgxLAv2ProtoSpec \<Rightarrow> bytes"
  from_report_data :: "bytes \<Rightarrow> SgxLAv2ProtoSpec"

definition wf_cfg :: "dh_cfg \<Rightarrow> bool" where
  "wf_cfg C \<longleftrightarrow>
     from_report_data C (to_report_data C SGX_LAV2_PROTO_SPEC) = SGX_LAV2_PROTO_SPEC \<and>
     length (to_report_data C SGX_LAV2_PROTO_SPEC) = 64"

section \<open>Sessions\<close>

datatype SgxDhSessionState =
    SGX_DH_SESSION_STATE_ERROR
  | SGX_DH_SESSION_STATE_RESET
  | SGX_DH_SESSION_RESPONDER_WAIT_M2
  | SGX_DH_SESSION_INITIATOR_WAIT_M1
  | SGX_DH_SESSION_INITIATOR_WAIT_M3
  | SGX_DH_SESSION_ACTIVE

record SgxDhResponder =
  r_state :: SgxDhSessionState
  r_prv_key :: bytes
  r_pub_key :: bytes
  r_smk_aek :: bytes
  r_shared_key :: bytes

definition responder_default :: SgxDhResponder where
  "responder_default =
     \<lparr>r_state = SGX_DH_SESSION_STATE_RESET, r_prv_key = zeros 32, r_pub_key = zeros 64,
      r_smk_aek = zeros 16, r_shared_key = zeros 32\<rparr>"

record SgxDhInitiator =
  i_state :: SgxDhSessionState
  i_smk_aek :: bytes
  i_pub_key :: bytes
  i_peer_pub_key :: bytes
  i_shared_key :: bytes

definition initiator_default :: SgxDhInitiator where
  "initiator_default =
     \<lparr>i_state = SGX_DH_SESSION_INITIATOR_WAIT_M1, i_smk_aek = zeros 16, i_pub_key = zeros 64,
      i_peer_pub_key = zeros 64, i_shared_key = zeros 32\<rparr>"

definition responder_init_session :: SgxDhResponder where
  "responder_init_session = responder_default"

definition initiator_init_session :: SgxDhInitiator where
  "initiator_init_session = initiator_default"

definition AES_CMAC_KDF_ID :: bytes where "AES_CMAC_KDF_ID = [1, 0]"

text \<open>\<^verbatim>\<open>set_error\<close> of the two session types: wipe, enter the error state, map the status.\<close>

definition responder_set_error :: "sgx_status_t \<Rightarrow> SgxDhResponder \<times> sgx_status_t" where
  "responder_set_error ret =
     (responder_default\<lparr>r_state := SGX_DH_SESSION_STATE_ERROR\<rparr>,
      if ret = SGX_ERROR_OUT_OF_MEMORY then SGX_ERROR_OUT_OF_MEMORY
      else if ret = SGX_ERROR_KDF_MISMATCH then SGX_ERROR_KDF_MISMATCH
      else SGX_ERROR_UNEXPECTED)"

definition initiator_set_error :: "sgx_status_t \<Rightarrow> SgxDhInitiator \<times> sgx_status_t" where
  "initiator_set_error ret =
     (initiator_default\<lparr>i_state := SGX_DH_SESSION_STATE_ERROR\<rparr>,
      if ret = SGX_ERROR_OUT_OF_MEMORY then SGX_ERROR_OUT_OF_MEMORY else SGX_ERROR_UNEXPECTED)"

section \<open>Scopes\<close>

text \<open>
  A function that fails after it began to write an output leaves the partly written output behind:
  \<open>atE out m\<close> records \<open>out\<close> with the error of \<open>m\<close>.
\<close>

definition atE :: "'o \<Rightarrow> ('w, sgx_status_t, 'a) io \<Rightarrow> ('w, sgx_status_t \<times> 'o, 'a) io" where
  "atE out = map_errW (\<lambda>e. (e, out))"

definition with_sha where
  "with_sha P = with_handle SgxShaHandle_new (SgxShaHandle_init P) (SgxShaHandle_drop P)"

definition with_cmac where
  "with_cmac P key = with_handle SgxCmacHandle_new (SgxCmacHandle_init P key) (SgxCmacHandle_drop P)"

definition with_ecc where
  "with_ecc P = with_handle SgxEccHandle_new (SgxEccHandle_open P) (SgxEccHandle_drop P)"

section \<open>Responder\<close>

definition dh_generate_message1 ::
  "('w, 'z) ecc_ffi_scheme \<Rightarrow> SgxDhResponder \<Rightarrow> ('w, sgx_status_t \<times> sgx_dh_msg1_t, SgxDhResponder \<times> sgx_dh_msg1_t) io" where
  "dh_generate_message1 P self =
     (let m0 = \<lparr>g_a = zeros 64, target = target_info_default\<rparr>
      in bindE (atE m0 (rsgx_create_report P target_info_default report_data_default)) (\<lambda>report.
           case make_target_info SGX_LAV2_PROTO_SPEC report target_info_default of
             (Inl e, _) \<Rightarrow> throwE (e, m0)
           | (Inr _, tgt) \<Rightarrow>
               with_ecc P (\<lambda>e. Inl (e, m0)) (\<lambda>ecc_state.
                 bindE (atE m0 (SgxEccHandle_create_align_key_pair P ecc_state)) (\<lambda>(prv, pub).
                   returnE (self\<lparr>r_prv_key := prv, r_pub_key := pub\<rparr>,
                            \<lparr>g_a = pub, target = tgt\<rparr>)))))"

definition gen_msg1 ::
  "dh_cfg \<Rightarrow> ('w, 'z) ecc_ffi_scheme \<Rightarrow> SgxDhResponder mref \<Rightarrow> sgx_dh_msg1_t mref \<Rightarrow> 'w
     \<Rightarrow> (SgxError \<times> SgxDhResponder \<times> sgx_dh_msg1_t) \<times> 'w" where
  "gen_msg1 C P = (\<lambda>(pself, self) (pmsg1, msg1) w.
     if \<not> rsgx_data_is_within_enclave P (size_of_SgxDhResponder C) pself then
       ((Inl SGX_ERROR_INVALID_PARAMETER, self, msg1), w)
     else if \<not> rsgx_data_is_within_enclave P 576 pmsg1 then
       ((Inl SGX_ERROR_INVALID_PARAMETER, self, msg1), w)
     else if r_state self \<noteq> SGX_DH_SESSION_STATE_RESET then
       ((Inl SGX_ERROR_INVALID_STATE, responder_default, msg1), w)
     else case dh_generate_message1 P self w of
            (Inl (ret, msg1'), w') \<Rightarrow>
              ((Inl (if ret \<noteq> SGX_ERROR_OUT_OF_MEMORY then SGX_ERROR_UNEXPECTED else ret),
                responder_default, msg1'), w')
          | (Inr (self', msg1'), w') \<Rightarrow>
              ((Inr (), self'\<lparr>r_state := SGX_DH_SESSION_RESPONDER_WAIT_M2\<rparr>, msg1'), w'))"

definition dh_verify_message2 ::
  "('w, 'z) mac_ffi_scheme \<Rightarrow> SgxDhResponder \<Rightarrow> sgx_dh_msg2_t \<Rightarrow> ('w, sgx_status_t, unit) io" where
  "dh_verify_message2 P self msg2 =
     (let report = msg2_report msg2;
          kdf_id = bslice 32 2 (report_data (body report));
          data_hash = bslice 0 32 (report_data (body report))
      in if kdf_id \<noteq> AES_CMAC_KDF_ID then throwE SGX_ERROR_KDF_MISMATCH
         else bindE (rsgx_rijndael128_cmac_msg P (r_smk_aek self) (report_to_bytes report)) (\<lambda>data_mac.
           if \<not> consttime_memeq data_mac (msg2_cmac msg2) then throwE SGX_ERROR_MAC_MISMATCH
           else bindE (rsgx_verify_report P report) (\<lambda>_.
             with_sha P Inl (\<lambda>sha_handle.
               bindE (SgxShaHandle_update_msg P (r_pub_key self) sha_handle) (\<lambda>_.
               bindE (SgxShaHandle_update_msg P (g_b msg2) sha_handle) (\<lambda>_.
               bindE (SgxShaHandle_get_hash P sha_handle) (\<lambda>msg_hash.
                 if msg_hash \<noteq> data_hash then throwE SGX_ERROR_MAC_MISMATCH else returnE ())))))))"

definition lav2_verify_message2 ::
  "dh_cfg \<Rightarrow> ('w, 'z) mac_ffi_scheme \<Rightarrow> SgxDhResponder \<Rightarrow> sgx_dh_msg2_t \<Rightarrow> ('w, sgx_status_t, unit) io" where
  "lav2_verify_message2 C P self msg2 =
     with_sha P Inl (\<lambda>sha_handle.
       bindE (SgxShaHandle_update_msg P (report_data (body (msg2_report msg2))) sha_handle) (\<lambda>_.
       bindE (SgxShaHandle_update_msg P (g_b msg2) sha_handle) (\<lambda>_.
       bindE (SgxShaHandle_get_hash P sha_handle) (\<lambda>msg_hash.
         let report = (msg2_report msg2)
               \<lparr>body := (body (msg2_report msg2))\<lparr>report_data := bsplice 0 msg_hash report_data_default\<rparr>\<rparr>
         in bindE (rsgx_verify_report P report) (\<lambda>_.
            bindE (rsgx_rijndael128_cmac_msg P (r_smk_aek self) (g_b msg2)) (\<lambda>data_mac.
              if \<not> consttime_memeq data_mac (msg2_cmac msg2) then throwE SGX_ERROR_MAC_MISMATCH
              else let proto_spec = from_report_data C (report_data (body (msg2_report msg2)))
                   in if signature proto_spec \<noteq> signature SGX_LAV2_PROTO_SPEC \<or>
                         ver proto_spec \<noteq> ver SGX_LAV2_PROTO_SPEC
                      then throwE SGX_ERROR_UNEXPECTED else returnE ()))))))"

definition dh_generate_message3 ::
  "('w, 'z) mac_ffi_scheme \<Rightarrow> SgxDhResponder \<Rightarrow> sgx_dh_msg2_t \<Rightarrow> SgxDhMsg3
     \<Rightarrow> ('w, sgx_status_t \<times> SgxDhMsg3, SgxDhMsg3) io" where
  "dh_generate_message3 P self msg2 msg3 =
     (let m0 = msg3\<lparr>m3_cmac := zeros 16, m3_report := report_default\<rparr>
      in with_sha P (\<lambda>e. Inl (e, m0)) (\<lambda>sha_handle.
           bindE (atE m0 (SgxShaHandle_update_msg P (g_b msg2) sha_handle)) (\<lambda>_.
           bindE (atE m0 (SgxShaHandle_update_msg P (r_pub_key self) sha_handle)) (\<lambda>_.
           bindE (atE m0 (SgxShaHandle_get_hash P sha_handle)) (\<lambda>msg_hash.
             case make_target_info SGX_LAV2_PROTO_SPEC (msg2_report msg2) target_info_default of
               (Inl e, _) \<Rightarrow> throwE (e, m0)
             | (Inr _, tgt) \<Rightarrow>
                 bindE (atE m0 (rsgx_create_report P tgt (bsplice 0 msg_hash report_data_default))) (\<lambda>report.
                   let m1 = m0\<lparr>m3_report := report\<rparr>;
                       add_prop_len = as_u32 (length (m3_additional_prop m1))
                   in with_cmac P (r_smk_aek self) (\<lambda>e. Inl (e, m1)) (\<lambda>cmac_handle.
                        bindE (atE m1 (SgxCmacHandle_update_msg P (report_to_bytes report) cmac_handle)) (\<lambda>_.
                        bindE (atE m1 (SgxCmacHandle_update_msg P (enc32 add_prop_len) cmac_handle)) (\<lambda>_.
                        bindE (if add_prop_len > 0
                               then atE m1 (SgxCmacHandle_update_slice P (m3_additional_prop m1) cmac_handle)
                               else returnE ()) (\<lambda>_.
                        bindE (atE m1 (SgxCmacHandle_get_hash P cmac_handle)) (\<lambda>hash.
                          returnE (m1\<lparr>m3_cmac := hash\<rparr>))))))))))))"

definition lav2_generate_message3 ::
  "dh_cfg \<Rightarrow> ('w, 'z) mac_ffi_scheme \<Rightarrow> SgxDhResponder \<Rightarrow> sgx_dh_msg2_t \<Rightarrow> SgxDhMsg3
     \<Rightarrow> ('w, sgx_status_t \<times> SgxDhMsg3, SgxDhMsg3) io" where
  "lav2_generate_message3 C P self msg2 msg3 =
     (let m0 = msg3\<lparr>m3_cmac := zeros 16, m3_report := report_default\<rparr>;
          proto_spec = from_report_data C (report_data (body (msg2_report msg2)))
      in with_sha P (\<lambda>e. Inl (e, m0)) (\<lambda>sha_handle.
           bindE (atE m0 (SgxShaHandle_update_msg P (r_pub_key self) sha_handle)) (\<lambda>_.
           bindE (atE m0 (SgxShaHandle_update_msg P (to_report_data C proto_spec) sha_handle)) (\<lambda>_.
           bindE (atE m0 (SgxShaHandle_get_hash P sha_handle)) (\<lambda>msg_hash.
             case make_target_info SGX_LAV2_PROTO_SPEC (msg2_report msg2) target_info_default of
               (Inl e, _) \<Rightarrow> throwE (e, m0)
             | (Inr _, tgt) \<Rightarrow>
                 bindE (atE m0 (rsgx_create_report P tgt (bsplice 0 msg_hash report_data_default))) (\<lambda>report.
                   let m1 = m0\<lparr>m3_report := report\<rparr>
                   in with_cmac P (r_smk_aek self) (\<lambda>e. Inl (e, m1)) (\<lambda>cmac_handle.
                        bindE (if length (m3_additional_prop m1) > 0
                               then atE m1 (SgxCmacHandle_update_slice P (m3_additional_prop m1) cmac_handle)
                               else returnE ()) (\<lambda>_.
                        bindE (atE m1 (SgxCmacHandle_update_msg P (r_pub_key self) cmac_handle)) (\<lambda>_.
                        bindE (atE m1 (SgxCmacHandle_get_hash P cmac_handle)) (\<lambda>hash.
                          returnE (m1\<lparr>m3_cmac := hash\<rparr>)))))))))))"

text \<open>
  The part of \<^verbatim>\<open>proc_msg2\<close> after the guards: every failure in it goes through \<^verbatim>\<open>set_error\<close>. It returns
  the key and the two outputs; \<^verbatim>\<open>initiator_identity\<close> is written before message 3 is generated.
\<close>

definition initiator_identity_of ::
  "sgx_dh_session_enclave_identity_t \<Rightarrow> sgx_report_body_t \<Rightarrow> sgx_dh_session_enclave_identity_t" where
  "initiator_identity_of ident b = ident
     \<lparr>id_isv_svn := isv_svn b, id_isv_prod_id := isv_prod_id b, id_attributes := attributes b,
      id_mr_signer := mr_signer b, id_mr_enclave := mr_enclave b\<rparr>"

definition proc_msg2_inner ::
  "dh_cfg \<Rightarrow> ('w, 'z) ecc_ffi_scheme \<Rightarrow> SgxDhResponder \<Rightarrow> sgx_dh_msg2_t \<Rightarrow> SgxDhMsg3
     \<Rightarrow> sgx_dh_session_enclave_identity_t
     \<Rightarrow> ('w, sgx_status_t \<times> SgxDhMsg3 \<times> sgx_dh_session_enclave_identity_t,
         bytes \<times> SgxDhMsg3 \<times> sgx_dh_session_enclave_identity_t) io" where
  "proc_msg2_inner C P self msg2 msg3 ident =
     with_ecc P (\<lambda>e. Inl (e, msg3, ident)) (\<lambda>ecc_state.
       bindE (atE (msg3, ident)
                (SgxEccHandle_compute_align_shared_dhkey P (r_prv_key self) (g_b msg2) ecc_state)) (\<lambda>shared_key.
       bindE (atE (msg3, ident) (derive_key P shared_key EC_SMK_LABEL)) (\<lambda>smk_aek.
         let self1 = self\<lparr>r_shared_key := shared_key, r_smk_aek := smk_aek\<rparr>
         in bindE (atE (msg3, ident)
                     (if use_lav2 C then lav2_verify_message2 C P self1 msg2
                      else dh_verify_message2 P self1 msg2)) (\<lambda>_.
            let ident1 = initiator_identity_of ident (body (msg2_report msg2))
            in bindE (map_errW (\<lambda>(e, m). (e, m, ident1))
                        (if use_lav2 C then lav2_generate_message3 C P self1 msg2 msg3
                         else dh_generate_message3 P self1 msg2 msg3)) (\<lambda>msg3'.
               bindE (atE (msg3', ident1) (derive_key P shared_key EC_AEK_LABEL)) (\<lambda>aek.
                 returnE (aek, msg3', ident1)))))))"

definition proc_msg2 ::
  "dh_cfg \<Rightarrow> ('w, 'z) ecc_ffi_scheme \<Rightarrow> SgxDhResponder mref \<Rightarrow> sgx_dh_msg2_t mref
     \<Rightarrow> SgxDhMsg3 mref \<Rightarrow> addr \<Rightarrow> bytes mref \<Rightarrow> sgx_dh_session_enclave_identity_t mref \<Rightarrow> 'w
     \<Rightarrow> (SgxError \<times> SgxDhResponder \<times> SgxDhMsg3 \<times> bytes \<times> sgx_dh_session_enclave_identity_t) \<times> 'w" where
  "proc_msg2 C P = (\<lambda>(pself, self) (pmsg2, msg2) (pmsg3, msg3) pprop (paek, aek) (pident, ident) w.
     if \<not> rsgx_data_is_within_enclave P (size_of_SgxDhResponder C) pself then
       ((Inl SGX_ERROR_INVALID_PARAMETER, self, msg3, aek, ident), w)
     else if \<not> rsgx_data_is_within_enclave P 512 pmsg2 \<or> \<not> rsgx_data_is_within_enclave P 16 paek \<or>
             \<not> rsgx_data_is_within_enclave P 260 pident \<or>
             \<not> rsgx_raw_is_within_enclave P pmsg3 (size_of_SgxDhMsg3 C) then
       ((Inl SGX_ERROR_INVALID_PARAMETER, fst (responder_set_error SGX_ERROR_INVALID_PARAMETER), msg3, aek, ident), w)
     else if length (m3_additional_prop msg3) > 0 \<and>
             (\<not> rsgx_slice_is_within_enclave P (pprop, m3_additional_prop msg3) \<or>
              length (m3_additional_prop msg3) > u32_max_nat - dh_msg3_size) then
       ((Inl SGX_ERROR_INVALID_PARAMETER, fst (responder_set_error SGX_ERROR_INVALID_PARAMETER), msg3, aek, ident), w)
     else if r_state self \<noteq> SGX_DH_SESSION_RESPONDER_WAIT_M2 then
       ((Inl SGX_ERROR_INVALID_STATE, fst (responder_set_error SGX_ERROR_INVALID_STATE), msg3, aek, ident), w)
     else case proc_msg2_inner C P self msg2 msg3 ident w of
            (Inl (ret, msg3', ident'), w') \<Rightarrow>
              ((Inl (snd (responder_set_error ret)), fst (responder_set_error ret), msg3', aek, ident'), w')
          | (Inr (aek', msg3', ident'), w') \<Rightarrow>
              ((Inr (), responder_default\<lparr>r_state := SGX_DH_SESSION_ACTIVE\<rparr>, msg3', aek', ident'), w'))"

section \<open>Initiator\<close>

definition dh_generate_message2 ::
  "('w, 'z) mac_ffi_scheme \<Rightarrow> SgxDhInitiator \<Rightarrow> sgx_dh_msg1_t
     \<Rightarrow> ('w, sgx_status_t \<times> sgx_dh_msg2_t, sgx_dh_msg2_t) io" where
  "dh_generate_message2 P self msg1 =
     (let m0 = \<lparr>g_b = i_pub_key self, msg2_report = report_default, msg2_cmac = zeros 16\<rparr>
      in with_sha P (\<lambda>e. Inl (e, m0)) (\<lambda>sha_handle.
           bindE (atE m0 (SgxShaHandle_update_msg P (g_a msg1) sha_handle)) (\<lambda>_.
           bindE (atE m0 (SgxShaHandle_update_msg P (g_b m0) sha_handle)) (\<lambda>_.
           bindE (atE m0 (SgxShaHandle_get_hash P sha_handle)) (\<lambda>msg_hash.
             let rdata = bsplice 32 AES_CMAC_KDF_ID (bsplice 0 msg_hash report_data_default)
             in bindE (atE m0 (rsgx_create_report P (target msg1) rdata)) (\<lambda>report.
                  let m1 = m0\<lparr>msg2_report := report\<rparr>
                  in bindE (atE m1 (rsgx_rijndael128_cmac_msg P (i_smk_aek self) (report_to_bytes report))) (\<lambda>tag.
                       returnE (m1\<lparr>msg2_cmac := tag\<rparr>))))))))"

definition lav2_generate_message2 ::
  "dh_cfg \<Rightarrow> ('w, 'z) mac_ffi_scheme \<Rightarrow> SgxDhInitiator \<Rightarrow> sgx_dh_msg1_t
     \<Rightarrow> ('w, sgx_status_t \<times> sgx_dh_msg2_t, sgx_dh_msg2_t) io" where
  "lav2_generate_message2 C P self msg1 =
     (let m0 = \<lparr>g_b = i_pub_key self, msg2_report = report_default, msg2_cmac = zeros 16\<rparr>
      in with_sha P (\<lambda>e. Inl (e, m0)) (\<lambda>sha_handle.
           bindE (atE m0 (SgxShaHandle_update_msg P (to_report_data C SGX_LAV2_PROTO_SPEC) sha_handle)) (\<lambda>_.
           bindE (atE m0 (SgxShaHandle_update_msg P (g_b m0) sha_handle)) (\<lambda>_.
           bindE (atE m0 (SgxShaHandle_get_hash P sha_handle)) (\<lambda>msg_hash.
             bindE (atE m0 (rsgx_create_report P (target msg1) (bsplice 0 msg_hash report_data_default))) (\<lambda>report.
               let m1 = m0\<lparr>msg2_report :=
                     report\<lparr>body := (body report)\<lparr>report_data := to_report_data C SGX_LAV2_PROTO_SPEC\<rparr>\<rparr>\<rparr>
               in bindE (atE m1 (rsgx_rijndael128_cmac_msg P (i_smk_aek self) (g_b m1))) (\<lambda>tag.
                    returnE (m1\<lparr>msg2_cmac := tag\<rparr>))))))))"

text \<open>
  The part of \<^verbatim>\<open>proc_msg1\<close> after the guards. The private key is a local that is overwritten once the
  shared secret is computed; it does not occur in the result.
\<close>

definition proc_msg1_inner ::
  "dh_cfg \<Rightarrow> ('w, 'z) ecc_ffi_scheme \<Rightarrow> SgxDhInitiator \<Rightarrow> sgx_dh_msg1_t \<Rightarrow> sgx_dh_msg2_t
     \<Rightarrow> ('w, sgx_status_t \<times> sgx_dh_msg2_t, SgxDhInitiator \<times> sgx_dh_msg2_t) io" where
  "proc_msg1_inner C P self msg1 msg2 =
     with_ecc P (\<lambda>e. Inl (e, msg2)) (\<lambda>ecc_state.
       bindE (atE msg2 (SgxEccHandle_create_align_key_pair P ecc_state)) (\<lambda>(prv_key, pub_key).
       bindE (atE msg2 (SgxEccHandle_compute_align_shared_dhkey P prv_key (g_a msg1) ecc_state)) (\<lambda>shared_key.
       bindE (atE msg2 (derive_key P shared_key EC_SMK_LABEL)) (\<lambda>smk_aek.
         let self1 = self\<lparr>i_shared_key := shared_key, i_pub_key := pub_key, i_smk_aek := smk_aek\<rparr>
         in bindE (if use_lav2 C then lav2_generate_message2 C P self1 msg1
                   else dh_generate_message2 P self1 msg1) (\<lambda>msg2'.
              returnE (self1\<lparr>i_peer_pub_key := g_a msg1,
                             i_state := SGX_DH_SESSION_INITIATOR_WAIT_M3\<rparr>, msg2'))))))"

definition proc_msg1 ::
  "dh_cfg \<Rightarrow> ('w, 'z) ecc_ffi_scheme \<Rightarrow> SgxDhInitiator mref \<Rightarrow> sgx_dh_msg1_t mref \<Rightarrow> sgx_dh_msg2_t mref
     \<Rightarrow> 'w \<Rightarrow> (SgxError \<times> SgxDhInitiator \<times> sgx_dh_msg2_t) \<times> 'w" where
  "proc_msg1 C P = (\<lambda>(pself, self) (pmsg1, msg1) (pmsg2, msg2) w.
     if \<not> rsgx_data_is_within_enclave P (size_of_SgxDhInitiator C) pself then
       ((Inl SGX_ERROR_INVALID_PARAMETER, self, msg2), w)
     else if \<not> rsgx_data_is_within_enclave P 576 pmsg1 \<or> \<not> rsgx_data_is_within_enclave P 512 pmsg2 then
       ((Inl SGX_ERROR_INVALID_PARAMETER, fst (initiator_set_error SGX_ERROR_INVALID_PARAMETER), msg2), w)
     else if i_state self \<noteq> SGX_DH_SESSION_INITIATOR_WAIT_M1 then
       ((Inl SGX_ERROR_INVALID_STATE, fst (initiator_set_error SGX_ERROR_INVALID_STATE), msg2), w)
     else case proc_msg1_inner C P self msg1 msg2 w of
            (Inl (ret, msg2'), w') \<Rightarrow>
              ((Inl (snd (initiator_set_error ret)), fst (initiator_set_error ret), msg2'), w')
          | (Inr (self', msg2'), w') \<Rightarrow> ((Inr (), self', msg2'), w'))"

definition dh_verify_message3 ::
  "('w, 'z) mac_ffi_scheme \<Rightarrow> SgxDhInitiator \<Rightarrow> SgxDhMsg3 \<Rightarrow> ('w, sgx_status_t, unit) io" where
  "dh_verify_message3 P self msg3 =
     (let add_prop_len = as_u32 (length (m3_additional_prop msg3))
      in with_cmac P (i_smk_aek self) Inl (\<lambda>cmac_handle.
           bindE (SgxCmacHandle_update_msg P (report_to_bytes (m3_report msg3)) cmac_handle) (\<lambda>_.
           bindE (SgxCmacHandle_update_msg P (enc32 add_prop_len) cmac_handle) (\<lambda>_.
           bindE (if add_prop_len > 0
                  then SgxCmacHandle_update_slice P (m3_additional_prop msg3) cmac_handle
                  else returnE ()) (\<lambda>_.
           bindE (SgxCmacHandle_get_hash P cmac_handle) (\<lambda>data_mac.
             if \<not> consttime_memeq data_mac (m3_cmac msg3) then throwE SGX_ERROR_MAC_MISMATCH
             else bindE (rsgx_verify_report P (m3_report msg3)) (\<lambda>_.
               with_sha P Inl (\<lambda>sha_handle.
                 bindE (SgxShaHandle_update_msg P (i_pub_key self) sha_handle) (\<lambda>_.
                 bindE (SgxShaHandle_update_msg P (i_peer_pub_key self) sha_handle) (\<lambda>_.
                 bindE (SgxShaHandle_get_hash P sha_handle) (\<lambda>msg_hash.
                   if msg_hash \<noteq> bslice 0 32 (report_data (body (m3_report msg3)))
                   then throwE SGX_ERROR_MAC_MISMATCH else returnE ())))))))))))"

definition lav2_verify_message3 ::
  "dh_cfg \<Rightarrow> ('w, 'z) mac_ffi_scheme \<Rightarrow> SgxDhInitiator \<Rightarrow> SgxDhMsg3 \<Rightarrow> ('w, sgx_status_t, unit) io" where
  "lav2_verify_message3 C P self msg3 =
     with_sha P Inl (\<lambda>sha_handle.
       bindE (SgxShaHandle_update_msg P (i_peer_pub_key self) sha_handle) (\<lambda>_.
       bindE (SgxShaHandle_update_msg P (to_report_data C SGX_LAV2_PROTO_SPEC) sha_handle) (\<lambda>_.
       bindE (SgxShaHandle_get_hash P sha_handle) (\<lambda>msg_hash.
         let report = (m3_report msg3)
               \<lparr>body := (body (m3_report msg3))\<lparr>report_data := bsplice 0 msg_hash report_data_default\<rparr>\<rparr>
         in if report_data (body report) \<noteq> report_data (body (m3_report msg3))
            then throwE SGX_ERROR_UNEXPECTED
            else bindE (rsgx_verify_report P report) (\<lambda>_.
              with_cmac P (i_smk_aek self) Inl (\<lambda>cmac_handle.
                bindE (if length (m3_additional_prop msg3) > 0
                       then SgxCmacHandle_update_slice P (m3_additional_prop msg3) cmac_handle
                       else returnE ()) (\<lambda>_.
                bindE (SgxCmacHandle_update_msg P (i_peer_pub_key self) cmac_handle) (\<lambda>_.
                bindE (SgxCmacHandle_get_hash P cmac_handle) (\<lambda>data_mac.
                  if \<not> consttime_memeq data_mac (m3_cmac msg3) then throwE SGX_ERROR_MAC_MISMATCH
                  else returnE ())))))))))"

definition responder_identity_of ::
  "sgx_dh_session_enclave_identity_t \<Rightarrow> sgx_report_body_t \<Rightarrow> sgx_dh_session_enclave_identity_t" where
  "responder_identity_of ident b = ident
     \<lparr>id_cpu_svn := cpu_svn b, id_misc_select := misc_select b, id_isv_svn := isv_svn b,
      id_isv_prod_id := isv_prod_id b, id_attributes := attributes b, id_mr_signer := mr_signer b,
      id_mr_enclave := mr_enclave b\<rparr>"

definition proc_msg3_inner ::
  "dh_cfg \<Rightarrow> ('w, 'z) ecc_ffi_scheme \<Rightarrow> SgxDhInitiator \<Rightarrow> SgxDhMsg3 \<Rightarrow> ('w, sgx_status_t, bytes) io" where
  "proc_msg3_inner C P self msg3 =
     bindE (if use_lav2 C then lav2_verify_message3 C P self msg3 else dh_verify_message3 P self msg3)
       (\<lambda>_. derive_key P (i_shared_key self) EC_AEK_LABEL)"

definition proc_msg3 ::
  "dh_cfg \<Rightarrow> ('w, 'z) ecc_ffi_scheme \<Rightarrow> SgxDhInitiator mref \<Rightarrow> SgxDhMsg3 mref \<Rightarrow> addr
     \<Rightarrow> bytes mref \<Rightarrow> sgx_dh_session_enclave_identity_t mref \<Rightarrow> 'w
     \<Rightarrow> (SgxError \<times> SgxDhInitiator \<times> bytes \<times> sgx_dh_session_enclave_identity_t) \<times> 'w" where
  "proc_msg3 C P = (\<lambda>(pself, self) (pmsg3, msg3) pprop (paek, aek) (pident, ident) w.
     if \<not> rsgx_data_is_within_enclave P (size_of_SgxDhInitiator C) pself then
       ((Inl SGX_ERROR_INVALID_PARAMETER, self, aek, ident), w)
     else if \<not> rsgx_raw_is_within_enclave P pmsg3 (size_of_SgxDhMsg3 C) \<or>
             \<not> rsgx_data_is_within_enclave P 16 paek \<or> \<not> rsgx_data_is_within_enclave P 260 pident then
       ((Inl SGX_ERROR_INVALID_PARAMETER, fst (initiator_set_error SGX_ERROR_INVALID_PARAMETER), aek, ident), w)
     else if length (m3_additional_prop msg3) > 0 \<and>
             (\<not> rsgx_slice_is_within_enclave P (pprop, m3_additional_prop msg3) \<or>
              length (m3_additional_prop msg3) > u32_max_nat - dh_msg3_size) then
       ((Inl SGX_ERROR_INVALID_PARAMETER, fst (initiator_set_error SGX_ERROR_INVALID_PARAMETER), aek, ident), w)
     else if i_state self \<noteq> SGX_DH_SESSION_INITIATOR_WAIT_M3 then
       ((Inl SGX_ERROR_INVALID_STATE, fst (initiator_set_error SGX_ERROR_INVALID_STATE), aek, ident), w)
     else case proc_msg3_inner C P self msg3 w of
            (Inl ret, w') \<Rightarrow>
              ((Inl (snd (initiator_set_error ret)), fst (initiator_set_error ret), aek, ident), w')
          | (Inr aek', w') \<Rightarrow>
              ((Inr (), initiator_default\<lparr>i_state := SGX_DH_SESSION_ACTIVE\<rparr>, aek',
                responder_identity_of ident (body (m3_report msg3))), w'))"

section \<open>Failures\<close>

lemma responder_set_error_fst [simp]:
  "fst (responder_set_error ret) = responder_default\<lparr>r_state := SGX_DH_SESSION_STATE_ERROR\<rparr>"
  by (simp add: responder_set_error_def)

lemma initiator_set_error_fst [simp]:
  "fst (initiator_set_error ret) = initiator_default\<lparr>i_state := SGX_DH_SESSION_STATE_ERROR\<rparr>"
  by (simp add: initiator_set_error_def)

lemma proc_msg2_err:
  assumes "proc_msg2 C P (pself, self) m2 m3 pp (paek, aek) pi w = ((Inl e, self', msg3', aek', ident'), w')"
  shows "aek' = aek"
    and "self' = (if rsgx_data_is_within_enclave P (size_of_SgxDhResponder C) pself
           then responder_default\<lparr>r_state := SGX_DH_SESSION_STATE_ERROR\<rparr> else self)"
    and "e \<in> {SGX_ERROR_INVALID_PARAMETER, SGX_ERROR_INVALID_STATE, SGX_ERROR_OUT_OF_MEMORY,
               SGX_ERROR_KDF_MISMATCH, SGX_ERROR_UNEXPECTED}"
    and "r_state self \<noteq> SGX_DH_SESSION_RESPONDER_WAIT_M2 \<Longrightarrow>
           e \<in> {SGX_ERROR_INVALID_PARAMETER, SGX_ERROR_INVALID_STATE}"
  using assms
  by (auto simp: proc_msg2_def responder_set_error_def split: if_splits prod.splits sum.splits)

lemma proc_msg2_ok:
  assumes "proc_msg2 C P (pself, self) (pmsg2, msg2) (pmsg3, msg3) pp (paek, aek) (pident, ident) w =
             ((Inr (), self', msg3', aek', ident'), w')"
  shows "r_state self = SGX_DH_SESSION_RESPONDER_WAIT_M2"
    and "self' = responder_default\<lparr>r_state := SGX_DH_SESSION_ACTIVE\<rparr>"
    and "proc_msg2_inner C P self msg2 msg3 ident w = (Inr (aek', msg3', ident'), w')"
  using assms by (auto simp: proc_msg2_def split: if_splits prod.splits sum.splits)

lemma gen_msg1_err:
  assumes "gen_msg1 C P (pself, self) (pmsg1, msg1) w = ((Inl e, self', msg1'), w')"
  shows "self' = responder_default \<or> self' = self \<and> e = SGX_ERROR_INVALID_PARAMETER"
    and "e \<in> {SGX_ERROR_INVALID_PARAMETER, SGX_ERROR_INVALID_STATE, SGX_ERROR_OUT_OF_MEMORY, SGX_ERROR_UNEXPECTED}"
  using assms by (auto simp: gen_msg1_def split: if_splits prod.splits sum.splits)

lemma gen_msg1_ok:
  assumes "gen_msg1 C P (pself, self) (pmsg1, msg1) w = ((Inr (), self', msg1'), w')"
  obtains s where "r_state self = SGX_DH_SESSION_STATE_RESET"
    "dh_generate_message1 P self w = (Inr (s, msg1'), w')"
    "self' = s\<lparr>r_state := SGX_DH_SESSION_RESPONDER_WAIT_M2\<rparr>"
  using assms by (auto simp: gen_msg1_def split: if_splits prod.splits sum.splits)

lemma proc_msg1_err:
  assumes "proc_msg1 C P (pself, self) m1 m2 w = ((Inl e, self', msg2'), w')"
  shows "self' = (if rsgx_data_is_within_enclave P (size_of_SgxDhInitiator C) pself
           then initiator_default\<lparr>i_state := SGX_DH_SESSION_STATE_ERROR\<rparr> else self)"
    and "e \<in> {SGX_ERROR_INVALID_PARAMETER, SGX_ERROR_INVALID_STATE, SGX_ERROR_OUT_OF_MEMORY, SGX_ERROR_UNEXPECTED}"
  using assms
  by (auto simp: proc_msg1_def initiator_set_error_def split: if_splits prod.splits sum.splits)

lemma proc_msg1_ok:
  assumes "proc_msg1 C P (pself, self) (pmsg1, msg1) (pmsg2, msg2) w = ((Inr (), self', msg2'), w')"
  shows "i_state self = SGX_DH_SESSION_INITIATOR_WAIT_M1"
    and "proc_msg1_inner C P self msg1 msg2 w = (Inr (self', msg2'), w')"
  using assms by (auto simp: proc_msg1_def split: if_splits prod.splits sum.splits)

lemma proc_msg3_err:
  assumes "proc_msg3 C P (pself, self) m3 pp (paek, aek) (pident, ident) w = ((Inl e, self', aek', ident'), w')"
  shows "aek' = aek" and "ident' = ident"
    and "self' = (if rsgx_data_is_within_enclave P (size_of_SgxDhInitiator C) pself
           then initiator_default\<lparr>i_state := SGX_DH_SESSION_STATE_ERROR\<rparr> else self)"
    and "e \<in> {SGX_ERROR_INVALID_PARAMETER, SGX_ERROR_INVALID_STATE, SGX_ERROR_OUT_OF_MEMORY, SGX_ERROR_UNEXPECTED}"
  using assms
  by (auto simp: proc_msg3_def initiator_set_error_def split: if_splits prod.splits sum.splits)

lemma proc_msg3_ok:
  assumes "proc_msg3 C P (pself, self) (pmsg3, msg3) pp (paek, aek) (pident, ident) w =
             ((Inr (), self', aek', ident'), w')"
  shows "i_state self = SGX_DH_SESSION_INITIATOR_WAIT_M3"
    and "self' = initiator_default\<lparr>i_state := SGX_DH_SESSION_ACTIVE\<rparr>"
    and "ident' = responder_identity_of ident (body (m3_report msg3))"
    and "proc_msg3_inner C P self msg3 w = (Inr aek', w')"
  using assms by (auto simp: proc_msg3_def split: if_splits prod.splits sum.splits)

end
