(* ===== verification/Sgx_Tdh_Spec.thy ===== *)
theory Sgx_Tdh_Spec
  imports Sgx_Tdh
begin

text \<open>
  What the session operations compute, stated over the mathematical functions the foreign code
  implements instead of over its calls: which message 2 a responder accepts, which message 3 it
  answers with, and the same for the initiator. Every operation of \<^verbatim>\<open>dh.rs\<close> is shown to refine this
  specification, for safety (if it returns) and for liveness (it does return) at once.
\<close>

section \<open>The platform\<close>

text \<open>
  \<open>V r\<close>: the report \<open>r\<close> carries a valid MAC for the enclave the code runs in; \<open>R t d r\<close>: \<open>r\<close> is a report
  of this enclave with data \<open>d\<close> for the target \<open>t\<close>.
\<close>

definition report_laws ::
  "bool \<Rightarrow> ('w, 'z) tse_ffi_scheme \<Rightarrow> (sgx_report_t \<Rightarrow> bool)
     \<Rightarrow> (sgx_target_info_t \<Rightarrow> bytes \<Rightarrow> sgx_report_t \<Rightarrow> bool) \<Rightarrow> bool" where
  "report_laws b P V R \<longleftrightarrow>
     (\<forall>t d w ret out w'. sgx_create_report P (target_info_to_bytes t) d w = ((ret, out), w') \<longrightarrow>
        (if ret = SGX_SUCCESS then R t d (report_of_bytes (fit 432 out)) else \<not> b)) \<and>
     (\<forall>r w ret w'. sgx_verify_report P (report_to_bytes r) w = (ret, w') \<longrightarrow>
        (if ret = SGX_SUCCESS then V r else b \<longrightarrow> \<not> V r))"

record platform =
  p_pub :: "bytes \<Rightarrow> bytes"
  p_dh :: "bytes \<Rightarrow> bytes \<Rightarrow> bytes"
  p_sha :: "bytes \<Rightarrow> bytes"
  p_cmac :: "bytes \<Rightarrow> bytes \<Rightarrow> bytes"
  p_valid :: "sgx_report_t \<Rightarrow> bool"
  p_report :: "sgx_target_info_t \<Rightarrow> bytes \<Rightarrow> sgx_report_t \<Rightarrow> bool"

definition platform_laws :: "bool \<Rightarrow> ('w, 'z) ecc_ffi_scheme \<Rightarrow> platform \<Rightarrow> bool" where
  "platform_laws b P M \<longleftrightarrow>
     (\<exists>sctx cctx. sha_laws b P (p_sha M) sctx \<and> cmac_laws b P (p_cmac M) cctx) \<and>
     ecc_laws b P (p_pub M) (p_dh M) \<and> report_laws b P (p_valid M) (p_report M)"

section \<open>Rules for the calls\<close>

lemma hoareW_atE [simp]: "hoareW b A (atE out m) Q \<longleftrightarrow> hoareW b A m Q"
  by (simp add: atE_def)

lemma hoareE_atE [simp]: "hoareE b (atE out m) Q \<longleftrightarrow> hoareE b m Q"
  by (simp add: atE_def)

lemma map_errW_id [simp]: "map_errW (\<lambda>e. e) m = m"
  by (auto simp: map_errW_def fun_eq_iff split: prod.splits sum.splits)

lemma if_nonempty_id [simp]: "(if xs \<noteq> [] then xs else []) = xs"
  by simp

lemma size_ok_small [simp]: "length src = n \<Longrightarrow> 0 < n \<Longrightarrow> n \<le> u32_max_nat \<Longrightarrow> size_ok src"
  by (auto simp: size_ok_def)

lemma hoareE_create_report:
  assumes "report_laws b P V R"
  shows "hoareE b (rsgx_create_report P t d) (\<lambda>r. R t d r \<and> wf_report r)"
proof -
  have "rsgx_create_report P t d = (\<lambda>w. case sgx_create_report P (target_info_to_bytes t) d w of
      ((ret, out), w') \<Rightarrow> (ffi_result ret (report_of_bytes (fit 432 out)), w'))"
    by (simp add: fun_eq_iff rsgx_create_report_def)
  moreover have "if ret = SGX_SUCCESS then R t d (report_of_bytes (fit 432 out)) else \<not> b"
    if "sgx_create_report P (target_info_to_bytes t) d w = ((ret, out), w')" for w ret out w'
    using assms that unfolding report_laws_def by blast
  ultimately show ?thesis by (simp add: hoareE_def hoareW_ffi)
qed

lemma hoareE_verify_report:
  assumes "report_laws b P V R" and "b \<longrightarrow> V r"
  shows "hoareE b (rsgx_verify_report P r) (\<lambda>_. V r)"
proof -
  have "rsgx_verify_report P r = (\<lambda>w. case sgx_verify_report P (report_to_bytes r) w of
      (ret, w') \<Rightarrow> (ffi_result ret (), w'))"
    by (simp add: fun_eq_iff rsgx_verify_report_def)
  moreover have "if ret = SGX_SUCCESS then V r else \<not> b"
    if "sgx_verify_report P (report_to_bytes r) w = (ret, w')" for w ret w'
    using assms that unfolding report_laws_def by metis
  ultimately show ?thesis by (simp add: hoareE_def hoareW_ffi_unit)
qed

lemma hoareE_cmac_msg:
  assumes "cmac_laws b P cmac ctx" and "b \<longrightarrow> size_ok src"
  shows "hoareE b (rsgx_rijndael128_cmac_msg P k src) (\<lambda>x. x = cmac k src)"
    and "hoareE b (rsgx_rijndael128_align_cmac_slice P k src) (\<lambda>x. x = cmac k src)"
proof -
  have "fit 16 (cmac k src) = cmac k src" using assms(1) by (simp add: cmac_laws_def digest_laws_def)
  moreover have "if ret = SGX_SUCCESS then out = cmac k src else \<not> b"
    if "sgx_rijndael128_cmac_msg P k src w = ((ret, out), w')" for w ret out w'
    using assms(1) that unfolding cmac_laws_def by blast
  ultimately have "hoareE b (digest_msg 16 (sgx_rijndael128_cmac_msg P k) src) (\<lambda>x. x = cmac k src)"
    using assms(2) by (intro hoareE_digest_msg) (auto split: if_splits)
  then show "hoareE b (rsgx_rijndael128_cmac_msg P k src) (\<lambda>x. x = cmac k src)"
    "hoareE b (rsgx_rijndael128_align_cmac_slice P k src) (\<lambda>x. x = cmac k src)"
    by (simp_all add: rsgx_rijndael128_cmac_msg_def rsgx_rijndael128_align_cmac_slice_def)
qed

definition kdf :: "(bytes \<Rightarrow> bytes \<Rightarrow> bytes) \<Rightarrow> bytes \<Rightarrow> bytes \<Rightarrow> bytes" where
  "kdf cmac shared label = cmac (cmac (zeros 16) shared) (derivation_buffer label)"

lemma hoareE_derive_key:
  assumes "cmac_laws b P cmac ctx" and "length shared = 32"
  shows "hoareE b (derive_key P shared label) (\<lambda>k. k = kdf cmac shared label)"
  unfolding derive_key_def kdf_def
proof (rule hoareE_bindE)
  show "hoareE b (map_errW ecp_set_error (rsgx_rijndael128_cmac_msg P (zeros 16) shared))
      (\<lambda>x. x = cmac (zeros 16) shared)"
    using assms by (simp add: hoareE_cmac_msg)
  show "hoareE b (map_errW ecp_set_error (rsgx_rijndael128_align_cmac_slice P x (derivation_buffer label)))
      (\<lambda>k. k = cmac (cmac (zeros 16) shared) (derivation_buffer label))"
    if "x = cmac (zeros 16) shared" for x
    using assms(1) that by (simp add: hoareE_cmac_msg derivation_buffer_def)
qed

lemma hoareE_with_ecc:
  assumes "ecc_laws b P pub_of dh" and "\<And>h. initflag h \<Longrightarrow> hoareE b (inner h) Q" and "\<And>e. isl (onerr e)"
  shows "hoareE b (with_ecc P onerr inner) Q"
  unfolding with_ecc_def SgxEccHandle_new_def SgxEccHandle_open_def
proof (rule hoareE_with_handle [where A = "\<lambda>_ _. True"])
  fix w ret p w' assume "sgx_ecc256_open_context P w = ((ret, p), w')"
  with assms(1) show "if ret = SGX_SUCCESS then True else \<not> b" unfolding ecc_laws_def by metis
qed (use assms(2,3) in \<open>simp_all add: hoareE_def\<close>)

lemma hoareE_create_key_pair:
  assumes "ecc_laws b P pub_of dh" and "initflag h"
  shows "hoareE b (SgxEccHandle_create_align_key_pair P h) (\<lambda>(prv, pub). length prv = 32 \<and> pub = pub_of prv)"
proof -
  have "SgxEccHandle_create_align_key_pair P h = (\<lambda>w. case sgx_ecc256_create_key_pair P (hnd h) w of
      ((ret, out), w') \<Rightarrow> (ffi_result ret (fit 32 (fst out), fit 64 (snd out)), w'))"
    using assms(2) by (simp add: fun_eq_iff SgxEccHandle_create_align_key_pair_def case_prod_beta)
  moreover have "if ret = SGX_SUCCESS then case (fit 32 (fst out), fit 64 (snd out)) of
        (prv, pub) \<Rightarrow> length prv = 32 \<and> pub = pub_of prv else \<not> b"
    if "sgx_ecc256_create_key_pair P (hnd h) w = ((ret, out), w')" for w ret out w'
  proof -
    have "if ret = SGX_SUCCESS then length (fst out) = 32 \<and> snd out = pub_of (fst out) else \<not> b"
      using assms(1) that unfolding ecc_laws_def by (metis prod.collapse)
    moreover have "length (pub_of (fst out)) = 64" using assms(1) by (simp add: ecc_laws_def)
    ultimately show ?thesis by simp
  qed
  ultimately show ?thesis unfolding hoareE_def by (simp only:) (rule hoareW_ffi)
qed

lemma hoareE_shared_dhkey:
  assumes "ecc_laws b P pub_of dh" and "initflag h" and "b \<longrightarrow> y \<in> range pub_of"
  shows "hoareE b (SgxEccHandle_compute_align_shared_dhkey P x y h) (\<lambda>s. s = dh x y)"
proof -
  have "SgxEccHandle_compute_align_shared_dhkey P x y h =
      (\<lambda>w. case sgx_ecc256_compute_shared_dhkey P x y (hnd h) w of
        ((ret, out), w') \<Rightarrow> (ffi_result ret (fit 32 out), w'))"
    using assms(2) by (simp add: fun_eq_iff SgxEccHandle_compute_align_shared_dhkey_def)
  moreover have "if ret = SGX_SUCCESS then fit 32 out = dh x y else \<not> b"
    if "sgx_ecc256_compute_shared_dhkey P x y (hnd h) w = ((ret, out), w')" for w ret out w'
    using assms(1,3) that unfolding ecc_laws_def by (metis fit_id)
  ultimately show ?thesis by (simp add: hoareE_def hoareW_ffi)
qed

text \<open>The two-part hash every message uses: feed two values, read the digest, go on with it.\<close>

lemma hoareE_sha2_atE:
  assumes "sha_laws b P sha ctx" and "b \<longrightarrow> size_ok x" and "b \<longrightarrow> size_ok y"
    and "hoareE b (k (sha (x @ y))) Q" and "\<And>e. isl (onerr e)"
  shows "hoareE b (with_sha P onerr (\<lambda>h.
           bindE (map_errW f (SgxShaHandle_update_msg P x h)) (\<lambda>_.
           bindE (map_errW f (SgxShaHandle_update_msg P y h)) (\<lambda>_.
           bindE (map_errW f (SgxShaHandle_get_hash P h)) k)))) Q"
  unfolding with_sha_def SgxShaHandle_new_def SgxShaHandle_init_def
proof (rule with_digest_law [OF assms(1) [unfolded sha_laws_def]])
  fix h :: handle assume h: "initflag h"
  note laws = assms(1) [unfolded sha_laws_def]
  show "hoareW b (\<lambda>w. ctx w (hnd h) = Some ((), []))
     (bindE (map_errW f (SgxShaHandle_update_msg P x h)) (\<lambda>_.
      bindE (map_errW f (SgxShaHandle_update_msg P y h)) (\<lambda>_.
      bindE (map_errW f (SgxShaHandle_get_hash P h)) k))) (\<lambda>x _. Q x)"
    unfolding SgxShaHandle_update_msg_def SgxShaHandle_get_hash_def
    by (rule hoareW_bindE, unfold hoareW_map_errW, rule handle_update_law [OF laws h assms(2)],
        rule hoareW_bindE, unfold hoareW_map_errW, rule handle_update_law [OF laws h assms(3)],
        rule hoareW_bindE, unfold hoareW_map_errW, rule handle_final_law [OF laws h], rule hoareW_pure)
      (use assms(4) in \<open>simp add: hoareE_def\<close>)
qed (rule assms(5))

lemmas hoareE_sha2 = hoareE_sha2_atE [where f = "\<lambda>e. e", unfolded map_errW_id]

text \<open>The MAC of message 3, in its two forms.\<close>

lemma hoareW_optional_update:
  assumes "digest_laws b n ini upd fin D ctx" and "initflag h" and "b \<and> c \<longrightarrow> size_ok src"
  shows "hoareW b (\<lambda>w. ctx w (hnd h) = Some (k, d)) (if c then map_errW f (handle_update upd src h) else returnE ())
           (\<lambda>_ w. ctx w (hnd h) = Some (k, d @ (if c then src else [])))"
proof (cases c)
  case True
  with assms show ?thesis by (simp add: handle_update_law)
next
  case False
  then show ?thesis by (simp add: hoareW_def)
qed

lemma hoareE_cmac3_atE:
  assumes "cmac_laws b P cmac ctx" and "b \<longrightarrow> size_ok x" and "b \<longrightarrow> size_ok y" and "b \<and> c \<longrightarrow> size_ok z"
    and "hoareE b (k (cmac key (x @ y @ (if c then z else [])))) Q" and "\<And>e. isl (onerr e)"
  shows "hoareE b (with_cmac P key onerr (\<lambda>h.
           bindE (map_errW f (SgxCmacHandle_update_msg P x h)) (\<lambda>_.
           bindE (map_errW f (SgxCmacHandle_update_msg P y h)) (\<lambda>_.
           bindE (if c then map_errW f (SgxCmacHandle_update_slice P z h) else returnE ()) (\<lambda>_.
           bindE (map_errW f (SgxCmacHandle_get_hash P h)) k))))) Q"
proof -
  note laws = assms(1) [unfolded cmac_laws_def, THEN conjunct1]
  have "hoareW b (\<lambda>w. ctx w (hnd h) = Some (key, []))
     (bindE (map_errW f (handle_update (sgx_cmac128_update P) x h)) (\<lambda>_.
      bindE (map_errW f (handle_update (sgx_cmac128_update P) y h)) (\<lambda>_.
      bindE (if c then map_errW f (handle_update (sgx_cmac128_update P) z h) else returnE ()) (\<lambda>_.
      bindE (map_errW f (handle_final 16 (sgx_cmac128_final P) h)) k)))) (\<lambda>x _. Q x)"
    if h: "initflag h" for h
    by (rule hoareW_bindE, unfold hoareW_map_errW, rule handle_update_law [OF laws h assms(2)],
        rule hoareW_bindE, unfold hoareW_map_errW, rule handle_update_law [OF laws h assms(3)],
        rule hoareW_bindE, rule hoareW_optional_update [OF laws h assms(4)],
        rule hoareW_bindE, unfold hoareW_map_errW, rule handle_final_law [OF laws h], rule hoareW_pure)
      (use assms(5) in \<open>simp add: hoareE_def\<close>)
  then show ?thesis
    unfolding with_cmac_def SgxCmacHandle_new_def SgxCmacHandle_init_def SgxCmacHandle_update_msg_def
      SgxCmacHandle_update_slice_def SgxCmacHandle_get_hash_def
    by (intro with_digest_law [OF laws] assms(6))
qed

lemma hoareE_cmac2_atE:
  assumes "cmac_laws b P cmac ctx" and "b \<and> c \<longrightarrow> size_ok z" and "b \<longrightarrow> size_ok x"
    and "hoareE b (k (cmac key ((if c then z else []) @ x))) Q" and "\<And>e. isl (onerr e)"
  shows "hoareE b (with_cmac P key onerr (\<lambda>h.
           bindE (if c then map_errW f (SgxCmacHandle_update_slice P z h) else returnE ()) (\<lambda>_.
           bindE (map_errW f (SgxCmacHandle_update_msg P x h)) (\<lambda>_.
           bindE (map_errW f (SgxCmacHandle_get_hash P h)) k)))) Q"
proof -
  note laws = assms(1) [unfolded cmac_laws_def, THEN conjunct1]
  have "hoareW b (\<lambda>w. ctx w (hnd h) = Some (key, []))
     (bindE (if c then map_errW f (handle_update (sgx_cmac128_update P) z h) else returnE ()) (\<lambda>_.
      bindE (map_errW f (handle_update (sgx_cmac128_update P) x h)) (\<lambda>_.
      bindE (map_errW f (handle_final 16 (sgx_cmac128_final P) h)) k))) (\<lambda>x _. Q x)"
    if h: "initflag h" for h
    by (rule hoareW_bindE, rule hoareW_optional_update [OF laws h assms(2)],
        rule hoareW_bindE, unfold hoareW_map_errW, rule handle_update_law [OF laws h assms(3)],
        rule hoareW_bindE, unfold hoareW_map_errW, rule handle_final_law [OF laws h], rule hoareW_pure)
      (use assms(4) in \<open>simp add: hoareE_def\<close>)
  then show ?thesis
    unfolding with_cmac_def SgxCmacHandle_new_def SgxCmacHandle_init_def SgxCmacHandle_update_msg_def
      SgxCmacHandle_update_slice_def SgxCmacHandle_get_hash_def
    by (intro with_digest_law [OF laws] assms(5))
qed

lemmas hoareE_cmac3 = hoareE_cmac3_atE [where f = "\<lambda>e. e", unfolded map_errW_id]
lemmas hoareE_cmac2 = hoareE_cmac2_atE [where f = "\<lambda>e. e", unfolded map_errW_id]

section \<open>The protocol\<close>

definition hash_data :: "platform \<Rightarrow> bytes \<Rightarrow> bytes" where
  "hash_data M x = bsplice 0 (p_sha M x) report_data_default"

definition with_report_data :: "sgx_report_t \<Rightarrow> bytes \<Rightarrow> sgx_report_t" where
  "with_report_data r d = r\<lparr>body := (body r)\<lparr>report_data := d\<rparr>\<rparr>"

definition lav2_data :: "dh_cfg \<Rightarrow> bytes" where
  "lav2_data C = to_report_data C SGX_LAV2_PROTO_SPEC"

definition wf_msg2 :: "sgx_dh_msg2_t \<Rightarrow> bool" where
  "wf_msg2 m \<longleftrightarrow> length (g_b m) = 64 \<and> length (msg2_cmac m) = 16 \<and> wf_report (msg2_report m)"

text \<open>Message 2 of an initiator with public key \<open>pub\<close>, for the message 1 with key \<open>ga\<close> and target \<open>tgt\<close>.\<close>

definition msg2_made ::
  "dh_cfg \<Rightarrow> platform \<Rightarrow> bytes \<Rightarrow> bytes \<Rightarrow> bytes \<Rightarrow> sgx_target_info_t \<Rightarrow> sgx_dh_msg2_t \<Rightarrow> bool" where
  "msg2_made C M smk pub ga tgt m \<longleftrightarrow>
     g_b m = pub \<and>
     (if use_lav2 C then
        (\<exists>r. p_report M tgt (hash_data M (lav2_data C @ pub)) r \<and> wf_report r \<and>
           msg2_report m = with_report_data r (lav2_data C)) \<and> msg2_cmac m = p_cmac M smk pub
      else
        p_report M tgt (bsplice 32 AES_CMAC_KDF_ID (hash_data M (ga @ pub))) (msg2_report m) \<and>
        wf_report (msg2_report m) \<and> msg2_cmac m = p_cmac M smk (report_to_bytes (msg2_report m)))"

text \<open>What the responder with public key \<open>pub\<close> has checked of a message 2 it accepts.\<close>

definition msg2_accepted :: "dh_cfg \<Rightarrow> platform \<Rightarrow> bytes \<Rightarrow> bytes \<Rightarrow> sgx_dh_msg2_t \<Rightarrow> bool" where
  "msg2_accepted C M smk pub m \<longleftrightarrow>
     (let rd = report_data (body (msg2_report m))
      in if use_lav2 C then
           p_valid M (with_report_data (msg2_report m) (hash_data M (rd @ g_b m))) \<and>
           msg2_cmac m = p_cmac M smk (g_b m) \<and>
           signature (from_report_data C rd) = signature SGX_LAV2_PROTO_SPEC \<and>
           ver (from_report_data C rd) = ver SGX_LAV2_PROTO_SPEC
         else
           bslice 32 2 rd = AES_CMAC_KDF_ID \<and> msg2_cmac m = p_cmac M smk (report_to_bytes (msg2_report m)) \<and>
           p_valid M (msg2_report m) \<and> bslice 0 32 rd = p_sha M (pub @ g_b m))"

text \<open>The MAC of message 3, the message 3 of a responder, and what the initiator checks of it.\<close>

definition msg3_mac :: "dh_cfg \<Rightarrow> platform \<Rightarrow> bytes \<Rightarrow> bytes \<Rightarrow> SgxDhMsg3 \<Rightarrow> bytes" where
  "msg3_mac C M smk ga m =
     (if use_lav2 C then p_cmac M smk (m3_additional_prop m @ ga)
      else p_cmac M smk (report_to_bytes (m3_report m) @ enc32 (as_u32 (length (m3_additional_prop m))) @
             m3_additional_prop m))"

definition msg3_made ::
  "dh_cfg \<Rightarrow> platform \<Rightarrow> bytes \<Rightarrow> bytes \<Rightarrow> sgx_dh_msg2_t \<Rightarrow> bytes \<Rightarrow> SgxDhMsg3 \<Rightarrow> bool" where
  "msg3_made C M smk pub m2 prop m \<longleftrightarrow>
     m3_additional_prop m = prop \<and> m3_cmac m = msg3_mac C M smk pub m \<and> wf_report (m3_report m) \<and>
     p_report M (snd (make_target_info SGX_LAV2_PROTO_SPEC (msg2_report m2) target_info_default))
       (hash_data M (if use_lav2 C
          then pub @ to_report_data C (from_report_data C (report_data (body (msg2_report m2))))
          else g_b m2 @ pub)) (m3_report m)"

definition msg3_accepted :: "dh_cfg \<Rightarrow> platform \<Rightarrow> bytes \<Rightarrow> bytes \<Rightarrow> bytes \<Rightarrow> SgxDhMsg3 \<Rightarrow> bool" where
  "msg3_accepted C M smk pub ga m \<longleftrightarrow>
     p_valid M (m3_report m) \<and> m3_cmac m = msg3_mac C M smk ga m \<and>
     (if use_lav2 C then report_data (body (m3_report m)) = hash_data M (ga @ lav2_data C)
      else bslice 0 32 (report_data (body (m3_report m))) = p_sha M (pub @ ga))"

section \<open>The operations refine it\<close>

lemma with_report_data_self [simp]: "with_report_data r (report_data (body r)) = r"
  by (simp add: with_report_data_def)

lemma platform_lawsE:
  assumes "platform_laws b P M"
  obtains sctx cctx where "sha_laws b P (p_sha M) sctx" "cmac_laws b P (p_cmac M) cctx"
    "ecc_laws b P (p_pub M) (p_dh M)" "report_laws b P (p_valid M) (p_report M)"
    "\<And>x. length (p_sha M x) = 32" "\<And>k x. length (p_cmac M k x) = 16"
    "\<And>x. length (p_pub M x) = 64" "\<And>x y. length (p_dh M x y) = 32"
  using assms unfolding platform_laws_def
  by (auto simp: sha_laws_def cmac_laws_def ecc_laws_def digest_laws_def)

lemma hoareE_dh_verify_message2:
  assumes "platform_laws b P M" and "wf_msg2 m" and "length (r_pub_key s) = 64" and "\<not> use_lav2 C"
    and "b \<longrightarrow> msg2_accepted C M (r_smk_aek s) (r_pub_key s) m"
  shows "hoareE b (dh_verify_message2 P s m) (\<lambda>_. msg2_accepted C M (r_smk_aek s) (r_pub_key s) m)"
proof -
  obtain sctx cctx where sha: "sha_laws b P (p_sha M) sctx" and cmac: "cmac_laws b P (p_cmac M) cctx"
    and rep: "report_laws b P (p_valid M) (p_report M)"
    and len: "\<And>x. length (p_sha M x) = 32" "\<And>k x. length (p_cmac M k x) = 16"
    using assms(1) by (elim platform_lawsE) blast
  have wf: "wf_report (msg2_report m)" "length (msg2_cmac m) = 16" "length (g_b m) = 64"
    using assms(2) by (simp_all add: wf_msg2_def)
  have A: "msg2_accepted C M (r_smk_aek s) (r_pub_key s) m \<longleftrightarrow>
      bslice 32 2 (report_data (body (msg2_report m))) = AES_CMAC_KDF_ID \<and>
      p_cmac M (r_smk_aek s) (report_to_bytes (msg2_report m)) = msg2_cmac m \<and> p_valid M (msg2_report m) \<and>
      p_sha M (r_pub_key s @ g_b m) = bslice 0 32 (report_data (body (msg2_report m)))"
    using assms(4) by (auto simp: msg2_accepted_def Let_def)
  show ?thesis
    unfolding dh_verify_message2_def Let_def
    by (intro hoareE_if_throwE hoareE_bindE [OF hoareE_cmac_msg(1) [OF cmac]]
        hoareE_bindE [OF hoareE_verify_report [OF rep]] hoareE_sha2 [OF sha] hoareE_returnE)
      (use A assms(3,5) len wf in auto)
qed

lemma hoareE_lav2_verify_message2:
  assumes "platform_laws b P M" and "wf_msg2 m" and "use_lav2 C"
    and "b \<longrightarrow> msg2_accepted C M (r_smk_aek s) (r_pub_key s) m"
  shows "hoareE b (lav2_verify_message2 C P s m) (\<lambda>_. msg2_accepted C M (r_smk_aek s) (r_pub_key s) m)"
proof -
  obtain sctx cctx where sha: "sha_laws b P (p_sha M) sctx" and cmac: "cmac_laws b P (p_cmac M) cctx"
    and rep: "report_laws b P (p_valid M) (p_report M)"
    and len: "\<And>x. length (p_sha M x) = 32" "\<And>k x. length (p_cmac M k x) = 16"
    using assms(1) by (elim platform_lawsE) blast
  have wf: "wf_report (msg2_report m)" "length (msg2_cmac m) = 16" "length (g_b m) = 64"
    "length (report_data (body (msg2_report m))) = 64"
    using assms(2) by (simp_all add: wf_msg2_def wf_simps)
  let ?rd = "report_data (body (msg2_report m))"
  have A: "msg2_accepted C M (r_smk_aek s) (r_pub_key s) m \<longleftrightarrow>
      p_valid M ((msg2_report m)\<lparr>body := (body (msg2_report m))\<lparr>report_data :=
        bsplice 0 (p_sha M (?rd @ g_b m)) report_data_default\<rparr>\<rparr>) \<and>
      p_cmac M (r_smk_aek s) (g_b m) = msg2_cmac m \<and>
      signature (from_report_data C ?rd) = signature SGX_LAV2_PROTO_SPEC \<and>
      ver (from_report_data C ?rd) = ver SGX_LAV2_PROTO_SPEC"
    using assms(3) by (auto simp: msg2_accepted_def Let_def hash_data_def with_report_data_def)
  show ?thesis
    unfolding lav2_verify_message2_def Let_def
    by (intro hoareE_if_throwE hoareE_bindE [OF hoareE_cmac_msg(1) [OF cmac]]
        hoareE_bindE [OF hoareE_verify_report [OF rep]] hoareE_sha2 [OF sha] hoareE_returnE)
      (use A assms(4) len wf in auto)
qed

lemma make_target_info_ok:
  "wf_report r \<Longrightarrow> make_target_info SGX_LAV2_PROTO_SPEC r target_info_default =
      (Inr (), snd (make_target_info SGX_LAV2_PROTO_SPEC r target_info_default))"
  by (simp add: make_target_info_lav2)

lemma hoareE_dh_generate_message3:
  assumes "platform_laws b P M" and "wf_msg2 m2" and "length (r_pub_key s) = 64" and "\<not> use_lav2 C"
    and "length (m3_additional_prop m3) \<le> u32_max_nat - 452"
  shows "hoareE b (dh_generate_message3 P s m2 m3)
           (msg3_made C M (r_smk_aek s) (r_pub_key s) m2 (m3_additional_prop m3))"
proof -
  obtain sctx cctx where sha: "sha_laws b P (p_sha M) sctx" and cmac: "cmac_laws b P (p_cmac M) cctx"
    and rep: "report_laws b P (p_valid M) (p_report M)"
    using assms(1) by (elim platform_lawsE) blast
  have wf: "wf_report (msg2_report m2)" "length (g_b m2) = 64" using assms(2) by (simp_all add: wf_msg2_def)
  obtain t where t: "make_target_info SGX_LAV2_PROTO_SPEC (msg2_report m2) target_info_default = (Inr (), t)"
    using make_target_info_ok [OF wf(1)] by blast
  have u: "unat (as_u32 (length (m3_additional_prop m3))) = length (m3_additional_prop m3)"
    using assms(5) by simp
  then have c: "as_u32 (length (m3_additional_prop m3)) > 0 \<longleftrightarrow> m3_additional_prop m3 \<noteq> []"
    by (simp add: word_less_nat_alt)
  show ?thesis
    unfolding dh_generate_message3_def Let_def t prod.case sum.case atE_def
    by (intro hoareE_sha2_atE [OF sha] hoareE_bindE [OF iffD2 [OF hoareE_map_errW hoareE_create_report [OF rep]]]
        hoareE_cmac3_atE [OF cmac] hoareE_returnE)
      (use assms(3-5) wf t c in \<open>auto simp: msg3_made_def msg3_mac_def hash_data_def size_ok_def\<close>)
qed

lemma hoareE_lav2_generate_message3:
  assumes "platform_laws b P M" and "wf_msg2 m2" and "length (r_pub_key s) = 64" and "use_lav2 C"
    and "length (m3_additional_prop m3) \<le> u32_max_nat - 452"
    and "b \<longrightarrow> size_ok (to_report_data C (from_report_data C (report_data (body (msg2_report m2)))))"
  shows "hoareE b (lav2_generate_message3 C P s m2 m3)
           (msg3_made C M (r_smk_aek s) (r_pub_key s) m2 (m3_additional_prop m3))"
proof -
  obtain sctx cctx where sha: "sha_laws b P (p_sha M) sctx" and cmac: "cmac_laws b P (p_cmac M) cctx"
    and rep: "report_laws b P (p_valid M) (p_report M)"
    using assms(1) by (elim platform_lawsE) blast
  have wf: "wf_report (msg2_report m2)" "length (g_b m2) = 64" using assms(2) by (simp_all add: wf_msg2_def)
  obtain t where t: "make_target_info SGX_LAV2_PROTO_SPEC (msg2_report m2) target_info_default = (Inr (), t)"
    using make_target_info_ok [OF wf(1)] by blast
  show ?thesis
    unfolding lav2_generate_message3_def Let_def t prod.case sum.case atE_def
    by (intro hoareE_sha2_atE [OF sha] hoareE_bindE [OF iffD2 [OF hoareE_map_errW hoareE_create_report [OF rep]]]
        hoareE_cmac2_atE [OF cmac] hoareE_returnE)
      (use assms(3-6) wf t in \<open>auto simp: msg3_made_def msg3_mac_def hash_data_def size_ok_def\<close>)
qed

lemma hoareE_dh_generate_message2:
  assumes "platform_laws b P M" and "length (i_pub_key s) = 64" and "length (g_a m1) = 64" and "\<not> use_lav2 C"
  shows "hoareE b (dh_generate_message2 P s m1)
           (msg2_made C M (i_smk_aek s) (i_pub_key s) (g_a m1) (target m1))"
proof -
  obtain sctx cctx where sha: "sha_laws b P (p_sha M) sctx" and cmac: "cmac_laws b P (p_cmac M) cctx"
    and rep: "report_laws b P (p_valid M) (p_report M)"
    using assms(1) by (elim platform_lawsE) blast
  show ?thesis
    unfolding dh_generate_message2_def Let_def atE_def
    by (intro hoareE_sha2_atE [OF sha] hoareE_bindE [OF iffD2 [OF hoareE_map_errW hoareE_create_report [OF rep]]]
        hoareE_bindE [OF iffD2 [OF hoareE_map_errW hoareE_cmac_msg(1) [OF cmac]]] hoareE_returnE)
      (use assms(2-) in \<open>auto simp: msg2_made_def hash_data_def\<close>)
qed

lemma hoareE_lav2_generate_message2:
  assumes "platform_laws b P M" and "length (i_pub_key s) = 64" and "use_lav2 C" and "wf_cfg C"
  shows "hoareE b (lav2_generate_message2 C P s m1)
           (msg2_made C M (i_smk_aek s) (i_pub_key s) (g_a m1) (target m1))"
proof -
  obtain sctx cctx where sha: "sha_laws b P (p_sha M) sctx" and cmac: "cmac_laws b P (p_cmac M) cctx"
    and rep: "report_laws b P (p_valid M) (p_report M)"
    using assms(1) by (elim platform_lawsE) blast
  show ?thesis
    unfolding lav2_generate_message2_def Let_def atE_def
    by (intro hoareE_sha2_atE [OF sha] hoareE_bindE [OF iffD2 [OF hoareE_map_errW hoareE_create_report [OF rep]]]
        hoareE_bindE [OF iffD2 [OF hoareE_map_errW hoareE_cmac_msg(1) [OF cmac]]] hoareE_returnE)
      (use assms(2-) in \<open>auto simp: msg2_made_def hash_data_def lav2_data_def with_report_data_def wf_cfg_def\<close>)
qed

lemma hoareE_dh_verify_message3:
  assumes "platform_laws b P M" and "wf_msg3 m" and "length (i_pub_key s) = 64" and "length (i_peer_pub_key s) = 64"
    and "\<not> use_lav2 C" and "length (m3_additional_prop m) \<le> u32_max_nat - 452"
    and "b \<longrightarrow> msg3_accepted C M (i_smk_aek s) (i_pub_key s) (i_peer_pub_key s) m"
  shows "hoareE b (dh_verify_message3 P s m)
           (\<lambda>_. msg3_accepted C M (i_smk_aek s) (i_pub_key s) (i_peer_pub_key s) m)"
proof -
  obtain sctx cctx where sha: "sha_laws b P (p_sha M) sctx" and cmac: "cmac_laws b P (p_cmac M) cctx"
    and rep: "report_laws b P (p_valid M) (p_report M)"
    and len: "\<And>x. length (p_sha M x) = 32" "\<And>k x. length (p_cmac M k x) = 16"
    using assms(1) by (elim platform_lawsE) blast
  have wf: "wf_report (m3_report m)" "length (m3_cmac m) = 16" using assms(2) by (simp_all add: wf_msg3_def)
  have u: "unat (as_u32 (length (m3_additional_prop m))) = length (m3_additional_prop m)"
    using assms(6) by simp
  then have c: "as_u32 (length (m3_additional_prop m)) > 0 \<longleftrightarrow> m3_additional_prop m \<noteq> []"
    by (simp add: word_less_nat_alt)
  have A: "msg3_accepted C M (i_smk_aek s) (i_pub_key s) (i_peer_pub_key s) m \<longleftrightarrow>
      p_valid M (m3_report m) \<and>
      p_cmac M (i_smk_aek s) (report_to_bytes (m3_report m) @ enc32 (as_u32 (length (m3_additional_prop m))) @
        m3_additional_prop m) = m3_cmac m \<and>
      p_sha M (i_pub_key s @ i_peer_pub_key s) = bslice 0 32 (report_data (body (m3_report m)))"
    using assms(5) by (auto simp: msg3_accepted_def msg3_mac_def)
  show ?thesis
    unfolding dh_verify_message3_def Let_def
    by (intro hoareE_cmac3 [OF cmac] hoareE_if_throwE hoareE_sha2 [OF sha]
        hoareE_bindE [OF hoareE_verify_report [OF rep]] hoareE_returnE)
      (use assms(3-7) wf A len in \<open>auto simp: size_ok_def c\<close>)
qed

lemma hoareE_lav2_verify_message3:
  assumes "platform_laws b P M" and "wf_msg3 m" and "length (i_peer_pub_key s) = 64"
    and "use_lav2 C" and "wf_cfg C" and "length (m3_additional_prop m) \<le> u32_max_nat - 452"
    and "b \<longrightarrow> msg3_accepted C M (i_smk_aek s) (i_pub_key s) (i_peer_pub_key s) m"
  shows "hoareE b (lav2_verify_message3 C P s m)
           (\<lambda>_. msg3_accepted C M (i_smk_aek s) (i_pub_key s) (i_peer_pub_key s) m)"
proof -
  obtain sctx cctx where sha: "sha_laws b P (p_sha M) sctx" and cmac: "cmac_laws b P (p_cmac M) cctx"
    and rep: "report_laws b P (p_valid M) (p_report M)"
    and len: "\<And>x. length (p_sha M x) = 32" "\<And>k x. length (p_cmac M k x) = 16"
    using assms(1) by (elim platform_lawsE) blast
  have wf: "wf_report (m3_report m)" "length (m3_cmac m) = 16" using assms(2) by (simp_all add: wf_msg3_def)
  let ?d = "bsplice 0 (p_sha M (i_peer_pub_key s @ lav2_data C)) report_data_default"
  have A: "msg3_accepted C M (i_smk_aek s) (i_pub_key s) (i_peer_pub_key s) m \<longleftrightarrow>
      report_data (body (m3_report m)) = ?d \<and> p_valid M (m3_report m) \<and>
      p_cmac M (i_smk_aek s) (m3_additional_prop m @ i_peer_pub_key s) = m3_cmac m"
    using assms(4) by (auto simp: msg3_accepted_def msg3_mac_def hash_data_def)
  have r: "(m3_report m)\<lparr>body := (body (m3_report m))\<lparr>report_data := d\<rparr>\<rparr> = m3_report m"
    if "report_data (body (m3_report m)) = d" for d
    using with_report_data_self [of "m3_report m"] that by (simp add: with_report_data_def)
  show ?thesis
    unfolding lav2_verify_message3_def Let_def
    by (intro hoareE_sha2 [OF sha] hoareE_if_throwE hoareE_cmac2 [OF cmac]
        hoareE_bindE [OF hoareE_verify_report [OF rep]] hoareE_returnE)
      (use assms(3-7) wf A len r in \<open>auto simp: size_ok_def lav2_data_def wf_cfg_def\<close>)
qed

text \<open>The four operations after their guards.\<close>

definition smk_of :: "platform \<Rightarrow> bytes \<Rightarrow> bytes" where
  "smk_of M shared = kdf (p_cmac M) shared EC_SMK_LABEL"

definition aek_of :: "platform \<Rightarrow> bytes \<Rightarrow> bytes" where
  "aek_of M shared = kdf (p_cmac M) shared EC_AEK_LABEL"

lemma hoareE_dh_generate_message1:
  assumes "platform_laws b P M"
  shows "hoareE b (dh_generate_message1 P s) (\<lambda>(s', m1). \<exists>prv r.
           s' = s\<lparr>r_prv_key := prv, r_pub_key := p_pub M prv\<rparr> \<and> length prv = 32 \<and>
           g_a m1 = p_pub M prv \<and> wf_report r \<and> p_report M target_info_default report_data_default r \<and>
           target m1 = snd (make_target_info SGX_LAV2_PROTO_SPEC r target_info_default))"
proof -
  obtain sctx cctx where ecc: "ecc_laws b P (p_pub M) (p_dh M)"
    and rep: "report_laws b P (p_valid M) (p_report M)"
    using assms by (elim platform_lawsE) blast
  have mk: "(case make_target_info SGX_LAV2_PROTO_SPEC r target_info_default of
       (Inl e, _) \<Rightarrow> f e | (Inr _, t) \<Rightarrow> g t) =
      g (snd (make_target_info SGX_LAV2_PROTO_SPEC r target_info_default))" if "wf_report r" for f g r
    by (subst make_target_info_ok [OF that]) simp
  show ?thesis
    unfolding dh_generate_message1_def Let_def atE_def
    by (rule hoareE_bindE [OF iffD2 [OF hoareE_map_errW hoareE_create_report [OF rep]]],
        subst mk, blast, rule hoareE_with_ecc [OF ecc],
        rule hoareE_bindE [OF iffD2 [OF hoareE_map_errW hoareE_create_key_pair [OF ecc]]])
      (auto intro!: hoareE_returnE, blast)
qed

lemma hoareE_proc_msg1_inner:
  assumes "platform_laws b P M" and "wf_cfg C" and "length (g_a m1) = 64" and "b \<longrightarrow> g_a m1 \<in> range (p_pub M)"
  shows "hoareE b (proc_msg1_inner C P s m1 m2) (\<lambda>(s', m2'). \<exists>prv.
           let shared = p_dh M prv (g_a m1)
           in s' = \<lparr>i_state = SGX_DH_SESSION_INITIATOR_WAIT_M3, i_smk_aek = smk_of M shared,
                    i_pub_key = p_pub M prv, i_peer_pub_key = g_a m1, i_shared_key = shared\<rparr> \<and>
              msg2_made C M (smk_of M shared) (p_pub M prv) (g_a m1) (target m1) m2')"
proof -
  obtain sctx cctx where cmac: "cmac_laws b P (p_cmac M) cctx" and ecc: "ecc_laws b P (p_pub M) (p_dh M)"
    and len: "\<And>x. length (p_pub M x) = 64" "\<And>x y. length (p_dh M x y) = 32"
    using assms(1) by (elim platform_lawsE) blast
  have gen: "hoareE b (if use_lav2 C then lav2_generate_message2 C P s1 m1 else dh_generate_message2 P s1 m1)
      (msg2_made C M (i_smk_aek s1) (i_pub_key s1) (g_a m1) (target m1))" if "length (i_pub_key s1) = 64" for s1
    using assms that by (simp add: hoareE_lav2_generate_message2 hoareE_dh_generate_message2)
  show ?thesis
    unfolding proc_msg1_inner_def Let_def atE_def
    by (rule hoareE_with_ecc [OF ecc],
        rule hoareE_bindE [OF iffD2 [OF hoareE_map_errW hoareE_create_key_pair [OF ecc]]], assumption, clarify,
        rule hoareE_bindE [OF iffD2 [OF hoareE_map_errW hoareE_shared_dhkey [OF ecc _ assms(4)]]], assumption,
        rule hoareE_bindE [OF iffD2 [OF hoareE_map_errW hoareE_derive_key [OF cmac]]], simp add: len,
        rule hoareE_bindE [OF gen], simp add: len, rule hoareE_returnE)
      (auto simp: smk_of_def, rule exI, rule conjI, auto)
qed

lemma wf_msg2_made:
  assumes "platform_laws b P M" and "wf_cfg C" and "msg2_made C M smk (p_pub M prv) ga t m"
  shows "wf_msg2 m"
proof -
  have "\<And>k x. length (p_cmac M k x) = 16" "\<And>x. length (p_pub M x) = 64"
    using assms(1) by (elim platform_lawsE, blast)+
  with assms(2,3) show ?thesis
    by (auto simp: msg2_made_def wf_msg2_def with_report_data_def wf_cfg_def lav2_data_def wf_simps split: if_splits)
qed

lemma hoareE_proc_msg2_inner:
  fixes s m2 M
  defines "shared \<equiv> p_dh M (r_prv_key s) (g_b m2)"
  assumes "platform_laws b P M" and "wf_cfg C" and "wf_msg2 m2" and "length (r_pub_key s) = 64"
    and "length (m3_additional_prop m3) \<le> u32_max_nat - 452"
    and "b \<longrightarrow> g_b m2 \<in> range (p_pub M) \<and> msg2_accepted C M (smk_of M shared) (r_pub_key s) m2 \<and>
           (use_lav2 C \<longrightarrow> size_ok (to_report_data C (from_report_data C (report_data (body (msg2_report m2))))))"
  shows "hoareE b (proc_msg2_inner C P s m2 m3 ident) (\<lambda>(aek, m3', ident').
           aek = aek_of M shared \<and> ident' = initiator_identity_of ident (body (msg2_report m2)) \<and>
           msg2_accepted C M (smk_of M shared) (r_pub_key s) m2 \<and>
           msg3_made C M (smk_of M shared) (r_pub_key s) m2 (m3_additional_prop m3) m3')"
proof -
  obtain sctx cctx where cmac: "cmac_laws b P (p_cmac M) cctx" and ecc: "ecc_laws b P (p_pub M) (p_dh M)"
    and len: "\<And>x y. length (p_dh M x y) = 32"
    using assms(2) by (elim platform_lawsE) blast
  have ver: "hoareE b (if use_lav2 C then lav2_verify_message2 C P s1 m2 else dh_verify_message2 P s1 m2)
      (\<lambda>_. msg2_accepted C M (r_smk_aek s1) (r_pub_key s1) m2)"
    if "r_pub_key s1 = r_pub_key s" "r_smk_aek s1 = smk_of M shared" for s1
    using hoareE_lav2_verify_message2 [OF assms(2,4), of C s1]
      hoareE_dh_verify_message2 [OF assms(2,4), of s1 C] assms(5,7) that by auto
  have gen: "hoareE b (if use_lav2 C then lav2_generate_message3 C P s1 m2 m3 else dh_generate_message3 P s1 m2 m3)
      (msg3_made C M (r_smk_aek s1) (r_pub_key s1) m2 (m3_additional_prop m3))"
    if "r_pub_key s1 = r_pub_key s" for s1
    using hoareE_lav2_generate_message3 [OF assms(2,4), of s1 C m3]
      hoareE_dh_generate_message3 [OF assms(2,4), of s1 C m3] assms(5-7) that by auto
  have dhk: "b \<longrightarrow> g_b m2 \<in> range (p_pub M)" using assms(7) by blast
  show ?thesis
    unfolding proc_msg2_inner_def Let_def atE_def
    by (rule hoareE_with_ecc [OF ecc],
        rule hoareE_bindE [OF iffD2 [OF hoareE_map_errW hoareE_shared_dhkey [OF ecc _ dhk]]], assumption,
        rule hoareE_bindE [OF iffD2 [OF hoareE_map_errW hoareE_derive_key [OF cmac]]], simp add: len,
        rule hoareE_bindE [OF iffD2 [OF hoareE_map_errW ver]], simp, simp add: smk_of_def shared_def,
        rule hoareE_bindE [OF iffD2 [OF hoareE_map_errW gen]], simp,
        rule hoareE_bindE [OF iffD2 [OF hoareE_map_errW hoareE_derive_key [OF cmac]]], simp add: len,
        rule hoareE_returnE)
      (auto simp: smk_of_def aek_of_def shared_def)
qed

lemma hoareE_proc_msg3_inner:
  assumes "platform_laws b P M" and "wf_cfg C" and "wf_msg3 m" and "length (i_pub_key s) = 64"
    and "length (i_peer_pub_key s) = 64" and "length (i_shared_key s) = 32"
    and "length (m3_additional_prop m) \<le> u32_max_nat - 452"
    and "b \<longrightarrow> msg3_accepted C M (i_smk_aek s) (i_pub_key s) (i_peer_pub_key s) m"
  shows "hoareE b (proc_msg3_inner C P s m) (\<lambda>aek. aek = aek_of M (i_shared_key s) \<and>
           msg3_accepted C M (i_smk_aek s) (i_pub_key s) (i_peer_pub_key s) m)"
proof -
  obtain sctx cctx where cmac: "cmac_laws b P (p_cmac M) cctx"
    using assms(1) by (elim platform_lawsE) blast
  have ver: "hoareE b (if use_lav2 C then lav2_verify_message3 C P s m else dh_verify_message3 P s m)
      (\<lambda>_. msg3_accepted C M (i_smk_aek s) (i_pub_key s) (i_peer_pub_key s) m)"
    using hoareE_lav2_verify_message3 [OF assms(1,3,5)] hoareE_dh_verify_message3 [OF assms(1,3,4,5)]
      assms(2,7,8) by auto
  show ?thesis
    unfolding proc_msg3_inner_def
    by (rule hoareE_bindE [OF ver], rule hoareE_weaken, rule hoareE_derive_key [OF cmac assms(6)])
      (simp add: aek_of_def)
qed

end
