(* ===== verification/Sgx_Tdh_Protocol.thy ===== *)
theory Sgx_Tdh_Protocol
  imports Sgx_Tdh_Spec
begin

text \<open>
  The session protocol as a whole: the order of the calls on a session object and the life of its keys
  (the locale \<open>dh_session\<close>, interpreted on the responder and on the initiator), what a completed session
  has established, and the run of two honest enclaves, which ends with both sides active and holding
  the same key.
\<close>

section \<open>Sequences of calls\<close>

text \<open>
  A session object is used through two operations, \<open>first\<close> (gen_msg1, proc_msg1) and \<open>second\<close>
  (proc_msg2, proc_msg3). The application may call them in any order, with any arguments, and the world
  may change arbitrarily between two calls. A trace records the results, latest first.
\<close>

datatype dh_call = First | Second

inductive session_trace ::
  "'s \<Rightarrow> ('a \<Rightarrow> 's \<Rightarrow> 'w \<Rightarrow> (SgxError \<times> 's) \<times> 'w) \<Rightarrow> ('c \<Rightarrow> 's \<Rightarrow> 'w \<Rightarrow> (SgxError \<times> 's) \<times> 'w)
     \<Rightarrow> 's \<Rightarrow> (dh_call \<times> SgxError) list \<Rightarrow> bool"
  for init first_op second_op where
  trace_init: "session_trace init first_op second_op init []"
| trace_first: "session_trace init first_op second_op s tr \<Longrightarrow> first_op a s w = ((r, s'), w') \<Longrightarrow>
    session_trace init first_op second_op s' ((First, r) # tr)"
| trace_second: "session_trace init first_op second_op s tr \<Longrightarrow> second_op c s w = ((r, s'), w') \<Longrightarrow>
    session_trace init first_op second_op s' ((Second, r) # tr)"

text \<open>The successful calls of a trace, and the discipline: each second step follows its own first step.\<close>

definition ok_calls :: "(dh_call \<times> SgxError) list \<Rightarrow> dh_call list" where
  "ok_calls tr = map fst (filter (\<lambda>(c, r). r = Inr ()) tr)"

fun paired :: "dh_call list \<Rightarrow> bool" where
  "paired [] = True"
| "paired (First # l) = paired l"
| "paired (Second # First # l) = paired l"
| "paired (Second # _) = False"

lemma ok_calls_simps [simp]:
  "ok_calls [] = []"
  "ok_calls ((c, Inr ()) # tr) = c # ok_calls tr"
  "ok_calls ((c, Inl e) # tr) = ok_calls tr"
  by (simp_all add: ok_calls_def)

text \<open>
  The contract of a session type: the second step succeeds only while the session waits for it, every
  failure leaves the session alone or wipes it, and a completed session is wiped.
\<close>

locale dh_session =
  fixes init :: "'s"
    and first_op :: "'a \<Rightarrow> 's \<Rightarrow> 'w \<Rightarrow> (SgxError \<times> 's) \<times> 'w"
    and second_op :: "'c \<Rightarrow> 's \<Rightarrow> 'w \<Rightarrow> (SgxError \<times> 's) \<times> 'w"
    and waiting :: "'s \<Rightarrow> bool"
    and active :: "'s \<Rightarrow> bool"
    and wiped :: "'s \<Rightarrow> bool"
  assumes init_idle: "wiped init \<and> \<not> waiting init \<and> \<not> active init"
    and first_ok: "first_op a s w = ((Inr (), s'), w') \<Longrightarrow> waiting s' \<and> \<not> active s'"
    and first_err: "first_op a s w = ((Inl e, s'), w') \<Longrightarrow> s' = s \<or> wiped s' \<and> \<not> waiting s' \<and> \<not> active s'"
    and second_ok: "second_op c s w = ((Inr (), s'), w') \<Longrightarrow> waiting s \<and> wiped s' \<and> \<not> waiting s' \<and> active s'"
    and second_err: "second_op c s w = ((Inl e, s'), w') \<Longrightarrow> s' = s \<or> wiped s' \<and> \<not> waiting s' \<and> \<not> active s'"
begin

lemma trace_inv:
  assumes "session_trace init first_op second_op s tr"
  shows "paired (ok_calls tr) \<and> (\<not> waiting s \<longrightarrow> wiped s) \<and>
         (waiting s \<longrightarrow> (\<exists>l. ok_calls tr = First # l)) \<and> (active s \<longrightarrow> (\<exists>l. ok_calls tr = Second # First # l)) \<and>
         \<not> (waiting s \<and> active s)"
  using assms
proof induction
  case trace_init
  then show ?case using init_idle by simp
next
  case (trace_first s tr a w r s' w')
  then show ?case by (cases r) (auto dest: first_ok first_err)
next
  case (trace_second s tr c w r s' w')
  then show ?case
  proof (cases r)
    case (Inr u)
    with trace_second.hyps(2) have "waiting s \<and> wiped s' \<and> \<not> waiting s' \<and> active s'" by (auto dest: second_ok)
    moreover from this trace_second.IH obtain l where "ok_calls tr = First # l" by blast
    ultimately show ?thesis using trace_second.IH Inr by simp
  qed (auto dest: second_err)
qed

end

section \<open>Responder and initiator as sessions\<close>

definition responder_first where
  "responder_first C P = (\<lambda>(pself, m1) s w. case gen_msg1 C P (pself, s) m1 w of ((r, s', _), w') \<Rightarrow> ((r, s'), w'))"

definition responder_second where
  "responder_second C P = (\<lambda>(pself, m2, m3, pprop, aek, ident) s w.
     case proc_msg2 C P (pself, s) m2 m3 pprop aek ident w of ((r, s', _), w') \<Rightarrow> ((r, s'), w'))"

definition initiator_first where
  "initiator_first C P = (\<lambda>(pself, m1, m2) s w.
     case proc_msg1 C P (pself, s) m1 m2 w of ((r, s', _), w') \<Rightarrow> ((r, s'), w'))"

definition initiator_second where
  "initiator_second C P = (\<lambda>(pself, m3, pprop, aek, ident) s w.
     case proc_msg3 C P (pself, s) m3 pprop aek ident w of ((r, s', _), w') \<Rightarrow> ((r, s'), w'))"

definition responder_wiped :: "SgxDhResponder \<Rightarrow> bool" where
  "responder_wiped s \<longleftrightarrow> r_prv_key s = zeros 32 \<and> r_pub_key s = zeros 64 \<and>
     r_smk_aek s = zeros 16 \<and> r_shared_key s = zeros 32"

definition initiator_wiped :: "SgxDhInitiator \<Rightarrow> bool" where
  "initiator_wiped s \<longleftrightarrow> i_smk_aek s = zeros 16 \<and> i_pub_key s = zeros 64 \<and>
     i_peer_pub_key s = zeros 64 \<and> i_shared_key s = zeros 32"

lemma wiped_defaults [simp]:
  "responder_wiped responder_default" "responder_wiped (s\<lparr>r_state := x\<rparr>) = responder_wiped s"
  "initiator_wiped initiator_default" "initiator_wiped (t\<lparr>i_state := x\<rparr>) = initiator_wiped t"
  by (simp_all add: responder_wiped_def responder_default_def initiator_wiped_def initiator_default_def)

lemma proc_msg1_inner_state:
  assumes "proc_msg1_inner C P s m1 m2 w = (Inr (s', m2'), w')"
  shows "i_state s' = SGX_DH_SESSION_INITIATOR_WAIT_M3"
  using assms
  by (auto simp: proc_msg1_inner_def with_ecc_def with_handle_def Let_def
      elim!: bindE_InrE split: prod.splits sum.splits)

interpretation responder: dh_session responder_init_session "responder_first C P" "responder_second C P"
  "\<lambda>s. r_state s = SGX_DH_SESSION_RESPONDER_WAIT_M2" "\<lambda>s. r_state s = SGX_DH_SESSION_ACTIVE" responder_wiped
  for C :: dh_cfg and P :: "('w, 'z) ecc_ffi_scheme"
proof unfold_locales
  show "responder_wiped responder_init_session \<and> r_state responder_init_session \<noteq> SGX_DH_SESSION_RESPONDER_WAIT_M2 \<and>
    r_state responder_init_session \<noteq> SGX_DH_SESSION_ACTIVE"
    by (simp add: responder_init_session_def) (simp add: responder_default_def)
next
  fix a s w s' w'
  assume "responder_first C P a s w = ((Inr (), s'), w')"
  then show "r_state s' = SGX_DH_SESSION_RESPONDER_WAIT_M2 \<and> r_state s' \<noteq> SGX_DH_SESSION_ACTIVE"
    by (auto simp: responder_first_def split: prod.splits elim!: gen_msg1_ok)
next
  fix a s w e s' w'
  assume "responder_first C P a s w = ((Inl e, s'), w')"
  then have "s' = s \<or> s' = responder_default"
    by (auto simp: responder_first_def split: prod.splits dest!: gen_msg1_err(1))
  then show "s' = s \<or> responder_wiped s' \<and> r_state s' \<noteq> SGX_DH_SESSION_RESPONDER_WAIT_M2 \<and>
      r_state s' \<noteq> SGX_DH_SESSION_ACTIVE"
    by (auto simp: responder_default_def responder_wiped_def)
next
  fix c s w s' w'
  assume "responder_second C P c s w = ((Inr (), s'), w')"
  then show "r_state s = SGX_DH_SESSION_RESPONDER_WAIT_M2 \<and> responder_wiped s' \<and>
      r_state s' \<noteq> SGX_DH_SESSION_RESPONDER_WAIT_M2 \<and> r_state s' = SGX_DH_SESSION_ACTIVE"
    by (auto simp: responder_second_def split: prod.splits dest: proc_msg2_ok)
next
  fix c s w e s' w'
  assume "responder_second C P c s w = ((Inl e, s'), w')"
  then show "s' = s \<or> responder_wiped s' \<and> r_state s' \<noteq> SGX_DH_SESSION_RESPONDER_WAIT_M2 \<and>
      r_state s' \<noteq> SGX_DH_SESSION_ACTIVE"
    by (auto simp: responder_second_def split: prod.splits if_splits dest!: proc_msg2_err(2))
qed

interpretation initiator: dh_session initiator_init_session "initiator_first C P" "initiator_second C P"
  "\<lambda>s. i_state s = SGX_DH_SESSION_INITIATOR_WAIT_M3" "\<lambda>s. i_state s = SGX_DH_SESSION_ACTIVE" initiator_wiped
  for C :: dh_cfg and P :: "('w, 'z) ecc_ffi_scheme"
proof unfold_locales
  show "initiator_wiped initiator_init_session \<and> i_state initiator_init_session \<noteq> SGX_DH_SESSION_INITIATOR_WAIT_M3 \<and>
    i_state initiator_init_session \<noteq> SGX_DH_SESSION_ACTIVE"
    by (simp add: initiator_init_session_def) (simp add: initiator_default_def)
next
  fix a s w s' w'
  assume "initiator_first C P a s w = ((Inr (), s'), w')"
  then show "i_state s' = SGX_DH_SESSION_INITIATOR_WAIT_M3 \<and> i_state s' \<noteq> SGX_DH_SESSION_ACTIVE"
    by (auto simp: initiator_first_def split: prod.splits dest!: proc_msg1_ok(2) proc_msg1_inner_state)
next
  fix a s w e s' w'
  assume "initiator_first C P a s w = ((Inl e, s'), w')"
  then show "s' = s \<or> initiator_wiped s' \<and> i_state s' \<noteq> SGX_DH_SESSION_INITIATOR_WAIT_M3 \<and>
      i_state s' \<noteq> SGX_DH_SESSION_ACTIVE"
    by (auto simp: initiator_first_def split: prod.splits if_splits dest!: proc_msg1_err(1))
next
  fix c s w s' w'
  assume "initiator_second C P c s w = ((Inr (), s'), w')"
  then show "i_state s = SGX_DH_SESSION_INITIATOR_WAIT_M3 \<and> initiator_wiped s' \<and>
      i_state s' \<noteq> SGX_DH_SESSION_INITIATOR_WAIT_M3 \<and> i_state s' = SGX_DH_SESSION_ACTIVE"
    by (auto simp: initiator_second_def split: prod.splits dest: proc_msg3_ok)
next
  fix c s w e s' w'
  assume "initiator_second C P c s w = ((Inl e, s'), w')"
  then show "s' = s \<or> initiator_wiped s' \<and> i_state s' \<noteq> SGX_DH_SESSION_INITIATOR_WAIT_M3 \<and>
      i_state s' \<noteq> SGX_DH_SESSION_ACTIVE"
    by (auto simp: initiator_second_def split: prod.splits if_splits dest!: proc_msg3_err(3))
qed

section \<open>Two honest enclaves\<close>

text \<open>
  What the processor documents of reports, for a target info and data of their fixed sizes: a report
  carries the identity \<open>E\<close> of the enclave that asked for it and the data it was given, and it is valid at
  the enclave its target info identifies.
\<close>

definition targets :: "sgx_target_info_t \<Rightarrow> sgx_report_body_t \<Rightarrow> bool" where
  "targets t E \<longleftrightarrow> ti_mr_enclave t = mr_enclave E \<and> ti_attributes t = attributes E \<and>
     ti_config_svn t = config_svn E \<and> ti_misc_select t = misc_select E \<and> ti_config_id t = config_id E"

definition report_of_enclave :: "platform \<Rightarrow> sgx_report_body_t \<Rightarrow> bool" where
  "report_of_enclave M E \<longleftrightarrow> 
     (\<forall>t d r. wf_target_info t \<longrightarrow> length d = 64 \<longrightarrow> p_report M t d r \<longrightarrow> body r = E\<lparr>report_data := d\<rparr>)"

definition valid_at_target :: "platform \<Rightarrow> platform \<Rightarrow> sgx_report_body_t \<Rightarrow> bool" where
  "valid_at_target M' M E \<longleftrightarrow> 
     (\<forall>t d r. wf_target_info t \<longrightarrow> length d = 64 \<longrightarrow> p_report M' t d r \<longrightarrow> targets t E \<longrightarrow> p_valid M r)"

definition same_crypto :: "platform \<Rightarrow> platform \<Rightarrow> bool" where
  "same_crypto M M' \<longleftrightarrow> p_pub M' = p_pub M \<and> p_dh M' = p_dh M \<and> p_sha M' = p_sha M \<and> p_cmac M' = p_cmac M"

definition all_inside :: "('w, 'z) trts_ffi_scheme \<Rightarrow> (addr \<times> usize) list \<Rightarrow> bool" where
  "all_inside P rs \<longleftrightarrow> list_all (\<lambda>(p, n). rsgx_raw_is_within_enclave P p n) rs"

lemma same_crypto_keys:
  assumes "same_crypto M M'"
  shows "smk_of M' = smk_of M" "aek_of M' = aek_of M" "hash_data M' = hash_data M"
  using assms unfolding same_crypto_def smk_of_def aek_of_def hash_data_def by presburger+

lemma wf_make_target_info:
  assumes "wf_report r"
  shows "wf_target_info (snd (make_target_info SGX_LAV2_PROTO_SPEC r target_info_default))"
proof -
  have wf: "wf_target_info target_info_default" by simp
  with assms show ?thesis unfolding make_target_info_lav2 [OF assms wf] by (simp add: wf_simps)
qed

lemma targets_make_target_info:
  assumes "wf_report r" and "body r = E\<lparr>report_data := d\<rparr>"
  shows "targets (snd (make_target_info SGX_LAV2_PROTO_SPEC r target_info_default)) E"
  using assms by (simp add: make_target_info_lav2 targets_def)

lemma hash_data_facts:
  assumes "platform_laws b P M"
  shows "length (hash_data M x) = 64" "bslice 0 32 (hash_data M x) = p_sha M x"
    "bslice 0 32 (bsplice 32 AES_CMAC_KDF_ID (hash_data M x)) = p_sha M x"
    "bslice 32 2 (bsplice 32 AES_CMAC_KDF_ID (hash_data M x)) = AES_CMAC_KDF_ID"
    "length (bsplice 32 AES_CMAC_KDF_ID (hash_data M x)) = 64"
proof -
  have "length (p_sha M x) = 32" using assms by (elim platform_lawsE) blast
  then show "length (hash_data M x) = 64" "bslice 0 32 (hash_data M x) = p_sha M x"
    "bslice 0 32 (bsplice 32 AES_CMAC_KDF_ID (hash_data M x)) = p_sha M x"
    "bslice 32 2 (bsplice 32 AES_CMAC_KDF_ID (hash_data M x)) = AES_CMAC_KDF_ID"
    "length (bsplice 32 AES_CMAC_KDF_ID (hash_data M x)) = 64"
    by (simp_all add: hash_data_def report_data_default_def bslice_def bsplice_def AES_CMAC_KDF_ID_def)
qed

text \<open>The reports in the messages carry the identity of the enclave that made the message.\<close>

lemma msg2_made_body:
  assumes "platform_laws b P M" and "report_of_enclave M E" and "wf_target_info t"
    and "msg2_made C M smk pub ga t m"
  obtains d where "body (msg2_report m) = E\<lparr>report_data := d\<rparr>"
proof (cases "use_lav2 C")
  case True
  with assms(4) obtain r where r: "p_report M t (hash_data M (lav2_data C @ pub)) r"
    and m: "msg2_report m = with_report_data r (lav2_data C)"
    by (auto simp: msg2_made_def)
  from r assms(2,3) hash_data_facts(1) [OF assms(1)] have "body r = E\<lparr>report_data := hash_data M (lav2_data C @ pub)\<rparr>"
    unfolding report_of_enclave_def by blast
  with m that [of "lav2_data C"] show ?thesis by (simp add: with_report_data_def)
next
  case False
  with assms(4) have "p_report M t (bsplice 32 AES_CMAC_KDF_ID (hash_data M (ga @ pub))) (msg2_report m)"
    by (simp add: msg2_made_def)
  with assms(2,3) hash_data_facts(5) [OF assms(1)] that show ?thesis unfolding report_of_enclave_def by blast
qed

lemma initiator_identity_of_report_data:
  "initiator_identity_of ident (E\<lparr>report_data := d\<rparr>) = initiator_identity_of ident E"
  by (simp add: initiator_identity_of_def)

lemma msg3_made_body:
  assumes "platform_laws b P M" and "report_of_enclave M E" and "wf_report (msg2_report m2)"
    and "msg3_made C M smk ga m2 addp m"
  shows "body (m3_report m) = E\<lparr>report_data := hash_data M (if use_lav2 C
      then ga @ to_report_data C (from_report_data C (report_data (body (msg2_report m2)))) else g_b m2 @ ga)\<rparr>"
  using assms(2,4) wf_make_target_info [OF assms(3)] hash_data_facts(1) [OF assms(1)]
  unfolding report_of_enclave_def msg3_made_def by blast

text \<open>The responder accepts the message 2 of an honest initiator, and the initiator its message 3.\<close>

lemma honest_msg2_accepted:
  assumes "platform_laws b P M" and "wf_cfg C" and "same_crypto M M'" and "report_of_enclave M' E'"
    and "valid_at_target M' M E" and "targets t E" and "msg2_made C M' smk pub ga t m" and "wf_target_info t"
  shows "msg2_accepted C M smk ga m"
proof (cases "use_lav2 C")
  case True
  note len = hash_data_facts(1) [OF assms(1), folded same_crypto_keys(3) [OF assms(3)]]
  from True assms(7) obtain r where r: "p_report M' t (hash_data M' (lav2_data C @ pub)) r"
    and m: "msg2_report m = with_report_data r (lav2_data C)" "g_b m = pub" "msg2_cmac m = p_cmac M' smk pub"
    by (auto simp: msg2_made_def)
  from r assms(4,8) len have "body r = E'\<lparr>report_data := hash_data M' (lav2_data C @ pub)\<rparr>"
    unfolding report_of_enclave_def by blast
  then have "with_report_data (msg2_report m) (hash_data M (report_data (body (msg2_report m)) @ g_b m)) = r"
    using m assms(3) by (simp add: with_report_data_def same_crypto_def hash_data_def)
  moreover have "p_valid M r" using r assms(5,6,8) len unfolding valid_at_target_def by blast
  ultimately show ?thesis
    using True m assms(2,3)
    by (simp add: msg2_accepted_def Let_def same_crypto_def with_report_data_def lav2_data_def wf_cfg_def)
next
  case False
  let ?d = "bsplice 32 AES_CMAC_KDF_ID (hash_data M' (ga @ pub))"
  from False assms(7) have m: "p_report M' t ?d (msg2_report m)" "g_b m = pub"
    "msg2_cmac m = p_cmac M' smk (report_to_bytes (msg2_report m))"
    by (auto simp: msg2_made_def)
  have len: "length ?d = 64"
    by (rule hash_data_facts(5) [OF assms(1), folded same_crypto_keys(3) [OF assms(3)]])
  with m(1) assms(4,8) have "body (msg2_report m) = E'\<lparr>report_data := ?d\<rparr>"
    unfolding report_of_enclave_def by blast
  then have "report_data (body (msg2_report m)) = ?d" by simp
  moreover note same_crypto_keys(3) [OF assms(3)]
  moreover have "p_valid M (msg2_report m)" using m(1) assms(5,6,8) len unfolding valid_at_target_def by blast
  ultimately show ?thesis
    using False m assms(3) by (simp add: msg2_accepted_def Let_def same_crypto_def hash_data_facts [OF assms(1)])
qed

lemma honest_msg3_accepted:
  assumes "platform_laws b P M" and "platform_laws b' P' M'" and "wf_cfg C" and "same_crypto M M'"
    and "report_of_enclave M E" and "valid_at_target M M' E'" and "report_of_enclave M' E'" and "wf_msg2 m2"
    and "wf_target_info t" and "msg2_made C M' smk pub ga t m2" and "msg3_made C M smk ga m2 addp m"
  shows "msg3_accepted C M' smk pub ga m"
proof -
  let ?t = "snd (make_target_info SGX_LAV2_PROTO_SPEC (msg2_report m2) target_info_default)"
  have wf: "wf_report (msg2_report m2)" using assms(8) by (simp add: wf_msg2_def)
  obtain d where "body (msg2_report m2) = E'\<lparr>report_data := d\<rparr>"
    by (rule msg2_made_body [OF assms(2,7,9,10)])
  then have "targets ?t E'" by (rule targets_make_target_info [OF wf])
  then have "p_valid M' (m3_report m)"
    using assms(6,11) wf_make_target_info [OF wf] hash_data_facts(1) [OF assms(1)]
    unfolding valid_at_target_def msg3_made_def by blast
  moreover have "use_lav2 C \<Longrightarrow> report_data (body (msg2_report m2)) = lav2_data C" "g_b m2 = pub"
    using assms(10) by (auto simp: msg2_made_def with_report_data_def)
  moreover have "m3_cmac m = msg3_mac C M smk ga m" using assms(11) by (simp add: msg3_made_def)
  ultimately show ?thesis
    using assms(3,4) hash_data_facts [OF assms(1)] msg3_made_body [OF assms(1,5) wf assms(11)] same_crypto_keys [OF assms(4)]
    by (auto simp: msg3_accepted_def msg3_mac_def same_crypto_def lav2_data_def wf_cfg_def)
qed

text \<open>Each operation with its guards, when the guards hold and the inner part returns.\<close>

lemma gen_msg1_runs:
  assumes "platform_laws True P M" and "report_of_enclave M E"
    and "all_inside P [(pself, size_of_SgxDhResponder C), (pmsg1, 576)]"
  obtains s m1 prv w' where
    "gen_msg1 C P (pself, responder_init_session) (pmsg1, msg1) w = ((Inr (), s, m1), w')"
    "r_state s = SGX_DH_SESSION_RESPONDER_WAIT_M2" "r_prv_key s = prv" "r_pub_key s = p_pub M prv"
    "g_a m1 = p_pub M prv" "targets (target m1) E" "wf_target_info (target m1)"
proof -
  obtain res w' where res: "dh_generate_message1 P responder_default w = (Inr res, w')"
    and Q: "case res of (s', m1) \<Rightarrow> \<exists>prv r.
           s' = responder_default\<lparr>r_prv_key := prv, r_pub_key := p_pub M prv\<rparr> \<and> length prv = 32 \<and>
           g_a m1 = p_pub M prv \<and> wf_report r \<and> p_report M target_info_default report_data_default r \<and>
           target m1 = snd (make_target_info SGX_LAV2_PROTO_SPEC r target_info_default)"
    by (rule hoareE_total [OF hoareE_dh_generate_message1 [OF assms(1)]])
  obtain s1 m1 where sm: "res = (s1, m1)" by fastforce
  from Q sm obtain prv r where f: "s1 = responder_default\<lparr>r_prv_key := prv, r_pub_key := p_pub M prv\<rparr>"
    "g_a m1 = p_pub M prv" "wf_report r" "p_report M target_info_default report_data_default r"
    "target m1 = snd (make_target_info SGX_LAV2_PROTO_SPEC r target_info_default)" by auto
  have "body r = E\<lparr>report_data := report_data_default\<rparr>"
    using f(4) assms(2) unfolding report_of_enclave_def report_data_default_def
    by (metis length_replicate wf_defaults(1))
  with f(3,5) have "targets (target m1) E" "wf_target_info (target m1)"
    by (simp_all add: targets_make_target_info wf_make_target_info)
  moreover have "r_state responder_default = SGX_DH_SESSION_STATE_RESET" by (simp add: responder_default_def)
  ultimately show ?thesis
    using assms(3) res f(1,2) sm
    by (intro that [of "s1\<lparr>r_state := SGX_DH_SESSION_RESPONDER_WAIT_M2\<rparr>" m1 w' prv])
      (simp_all add: gen_msg1_def responder_init_session_def all_inside_def rsgx_data_is_within_enclave_def)
qed

lemma proc_msg1_runs:
  assumes "platform_laws True P M" and "wf_cfg C" and "g_a m1 \<in> range (p_pub M)"
    and "all_inside P [(pself, size_of_SgxDhInitiator C), (pmsg1, 576), (pmsg2, 512)]"
  obtains prv m2 w' where
    "proc_msg1 C P (pself, initiator_init_session) (pmsg1, m1) (pmsg2, msg2) w =
       ((Inr (), \<lparr>i_state = SGX_DH_SESSION_INITIATOR_WAIT_M3, i_smk_aek = smk_of M (p_dh M prv (g_a m1)),
         i_pub_key = p_pub M prv, i_peer_pub_key = g_a m1, i_shared_key = p_dh M prv (g_a m1)\<rparr>, m2), w')"
    "msg2_made C M (smk_of M (p_dh M prv (g_a m1))) (p_pub M prv) (g_a m1) (target m1) m2"
proof -
  have "length (g_a m1) = 64" using assms(1,3) by (elim platform_lawsE) auto
  note spec = hoareE_proc_msg1_inner [OF assms(1,2) this impI, OF assms(3), of initiator_default msg2]
  obtain res w' where res: "proc_msg1_inner C P initiator_default m1 msg2 w = (Inr res, w')"
    and Q: "case res of (s', m2') \<Rightarrow> \<exists>prv. let shared = p_dh M prv (g_a m1)
           in s' = \<lparr>i_state = SGX_DH_SESSION_INITIATOR_WAIT_M3, i_smk_aek = smk_of M shared,
                    i_pub_key = p_pub M prv, i_peer_pub_key = g_a m1, i_shared_key = shared\<rparr> \<and>
              msg2_made C M (smk_of M shared) (p_pub M prv) (g_a m1) (target m1) m2'"
    by (rule hoareE_total [OF spec])
  have "i_state initiator_default = SGX_DH_SESSION_INITIATOR_WAIT_M1" by (simp add: initiator_default_def)
  with assms(4) res Q show ?thesis
    by (auto simp: proc_msg1_def initiator_init_session_def all_inside_def rsgx_data_is_within_enclave_def Let_def
        split: prod.splits intro: that)
qed

lemma proc_msg2_runs:
  fixes s m2 M
  defines "shared \<equiv> p_dh M (r_prv_key s) (g_b m2)"
  assumes "platform_laws True P M" and "wf_cfg C" and "wf_msg2 m2" and "length (r_pub_key s) = 64"
    and "length (m3_additional_prop msg3) \<le> u32_max_nat - 452"
    and "r_state s = SGX_DH_SESSION_RESPONDER_WAIT_M2" and "g_b m2 \<in> range (p_pub M)"
    and "msg2_accepted C M (smk_of M shared) (r_pub_key s) m2"
    and "use_lav2 C \<longrightarrow> size_ok (to_report_data C (from_report_data C (report_data (body (msg2_report m2)))))"
    and "all_inside P [(pself, size_of_SgxDhResponder C), (pmsg2, 512), (paek, 16), (pident, 260),
           (pmsg3, size_of_SgxDhMsg3 C), (pprop, length (m3_additional_prop msg3))]"
  obtains m3 w' where
    "proc_msg2 C P (pself, s) (pmsg2, m2) (pmsg3, msg3) pprop (paek, aek) (pident, ident) w =
       ((Inr (), responder_default\<lparr>r_state := SGX_DH_SESSION_ACTIVE\<rparr>, m3, aek_of M shared,
         initiator_identity_of ident (body (msg2_report m2))), w')"
    "msg3_made C M (smk_of M shared) (r_pub_key s) m2 (m3_additional_prop msg3) m3"
proof -
  have pre: "True \<longrightarrow> g_b m2 \<in> range (p_pub M) \<and>
      msg2_accepted C M (smk_of M (p_dh M (r_prv_key s) (g_b m2))) (r_pub_key s) m2 \<and>
      (use_lav2 C \<longrightarrow> size_ok (to_report_data C (from_report_data C (report_data (body (msg2_report m2))))))"
    using assms(8-10) by (simp add: shared_def)
  note spec = hoareE_proc_msg2_inner [OF assms(2-6) pre, of ident, folded shared_def]
  obtain res w' where res: "proc_msg2_inner C P s m2 msg3 ident w = (Inr res, w')"
    and Q: "case res of (aek, m3', ident') \<Rightarrow>
           aek = aek_of M shared \<and> ident' = initiator_identity_of ident (body (msg2_report m2)) \<and>
           msg2_accepted C M (smk_of M shared) (r_pub_key s) m2 \<and>
           msg3_made C M (smk_of M shared) (r_pub_key s) m2 (m3_additional_prop msg3) m3'"
    by (rule hoareE_total [OF spec])
  with assms(6,7,11) show ?thesis
    by (auto simp: proc_msg2_def all_inside_def rsgx_data_is_within_enclave_def rsgx_slice_is_within_enclave_def
        split: prod.splits intro: that)
qed

lemma proc_msg3_runs:
  assumes "platform_laws True P M" and "wf_cfg C" and "wf_msg3 m3" and "length (i_pub_key s) = 64"
    and "length (i_peer_pub_key s) = 64" and "length (i_shared_key s) = 32"
    and "length (m3_additional_prop m3) \<le> u32_max_nat - 452"
    and "i_state s = SGX_DH_SESSION_INITIATOR_WAIT_M3"
    and "msg3_accepted C M (i_smk_aek s) (i_pub_key s) (i_peer_pub_key s) m3"
    and "all_inside P [(pself, size_of_SgxDhInitiator C), (pmsg3, size_of_SgxDhMsg3 C), (paek, 16), (pident, 260),
           (pprop, length (m3_additional_prop m3))]"
  obtains w' where
    "proc_msg3 C P (pself, s) (pmsg3, m3) pprop (paek, aek) (pident, ident) w =
       ((Inr (), initiator_default\<lparr>i_state := SGX_DH_SESSION_ACTIVE\<rparr>, aek_of M (i_shared_key s),
         responder_identity_of ident (body (m3_report m3))), w')"
proof -
  note spec = hoareE_proc_msg3_inner [OF assms(1-7) impI, OF assms(9)]
  obtain res w' where res: "proc_msg3_inner C P s m3 w = (Inr res, w')"
    and Q: "res = aek_of M (i_shared_key s) \<and> msg3_accepted C M (i_smk_aek s) (i_pub_key s) (i_peer_pub_key s) m3"
    by (rule hoareE_total [OF spec])
  with assms(7,8,10) show ?thesis
    by (auto simp: proc_msg3_def all_inside_def rsgx_data_is_within_enclave_def rsgx_slice_is_within_enclave_def
        intro: that)
qed

text \<open>The first two calls, and what they leave for the other two.\<close>

lemma honest_first_half:
  fixes P :: "('w, 'z) ecc_ffi_scheme" and P' :: "('v, 'y) ecc_ffi_scheme"
  assumes laws: "platform_laws True P M" "platform_laws True P' M'" and cfg: "wf_cfg C"
    and crypto: "same_crypto M M'" and dh_comm: "\<And>x y. p_dh M x (p_pub M y) = p_dh M y (p_pub M x)"
    and reports: "report_of_enclave M E" "report_of_enclave M' E'" "valid_at_target M' M E"
    and mem: "all_inside P [(ps, size_of_SgxDhResponder C), (p1, 576)]"
    and mem': "all_inside P' [(qs, size_of_SgxDhInitiator C), (q1, 576), (q2, 512)]"
  obtains s1 m1 w1 shared m2 v1 t where
    "gen_msg1 C P (ps, responder_init_session) (p1, msg1) w = ((Inr (), s1, m1), w1)"
    "proc_msg1 C P' (qs, initiator_init_session) (q1, m1) (q2, msg2) v =
       ((Inr (), \<lparr>i_state = SGX_DH_SESSION_INITIATOR_WAIT_M3, i_smk_aek = smk_of M shared, i_pub_key = g_b m2,
         i_peer_pub_key = r_pub_key s1, i_shared_key = shared\<rparr>, m2), v1)"
    "r_state s1 = SGX_DH_SESSION_RESPONDER_WAIT_M2" "length (r_pub_key s1) = 64" "length shared = 32"
    "msg2_made C M' (smk_of M shared) (g_b m2) (r_pub_key s1) t m2" "wf_msg2 m2" "wf_target_info t" "g_b m2 \<in> range (p_pub M)"
    "p_dh M (r_prv_key s1) (g_b m2) = shared" "msg2_accepted C M (smk_of M shared) (r_pub_key s1) m2"
proof -
  have len: "\<And>x. length (p_pub M x) = 64" "\<And>x y. length (p_dh M x y) = 32"
    using laws(1) by (elim platform_lawsE, blast)+
  have M': "p_pub M' = p_pub M" "p_dh M' = p_dh M" "smk_of M' = smk_of M"
    using crypto same_crypto_keys [OF crypto] by (simp_all add: same_crypto_def)
  obtain s1 m1 prv w1 where g: "gen_msg1 C P (ps, responder_init_session) (p1, msg1) w = ((Inr (), s1, m1), w1)"
    "r_state s1 = SGX_DH_SESSION_RESPONDER_WAIT_M2" "r_prv_key s1 = prv" "r_pub_key s1 = p_pub M prv"
    "g_a m1 = p_pub M prv" "targets (target m1) E" "wf_target_info (target m1)"
    by (rule gen_msg1_runs [OF laws(1) reports(1) mem])
  have ga: "g_a m1 \<in> range (p_pub M')" by (simp add: g(5) M')
  obtain prv' m2 v1 where i: "proc_msg1 C P' (qs, initiator_init_session) (q1, m1) (q2, msg2) v =
       ((Inr (), \<lparr>i_state = SGX_DH_SESSION_INITIATOR_WAIT_M3, i_smk_aek = smk_of M' (p_dh M' prv' (g_a m1)),
         i_pub_key = p_pub M' prv', i_peer_pub_key = g_a m1, i_shared_key = p_dh M' prv' (g_a m1)\<rparr>, m2), v1)"
    and m2: "msg2_made C M' (smk_of M' (p_dh M' prv' (g_a m1))) (p_pub M' prv') (g_a m1) (target m1) m2"
    by (rule proc_msg1_runs [OF laws(2) cfg ga mem'])
  have gb: "p_pub M' prv' = g_b m2" using m2 by (simp add: msg2_made_def)
  have sh: "p_dh M (r_prv_key s1) (g_b m2) = p_dh M' prv' (g_a m1)"
    by (simp add: g(3,5) gb [symmetric] M' dh_comm)
  have pub: "g_b m2 \<in> range (p_pub M)" by (simp add: gb [symmetric] M')
  have ga': "g_a m1 = r_pub_key s1" by (simp add: g(4,5))
  note m2' = m2 [unfolded gb M'(3)]
  have acc: "msg2_accepted C M (smk_of M (p_dh M' prv' (g_a m1))) (g_a m1) m2"
    by (rule honest_msg2_accepted [OF laws(1) cfg crypto reports(2,3) g(6) m2' g(7)])
  show ?thesis
    by (rule that [OF g(1) i [unfolded gb M'(3) ga'] g(2)])
      (use len m2' sh acc pub g(7) wf_msg2_made [OF laws(2) cfg m2] in \<open>simp_all add: ga' M'(2) g(4)\<close>)
qed

text \<open>
  C1: Two honest enclaves complete the protocol. The responder generates message 1, the initiator
  answers with message 2, the responder with message 3, each message is delivered unchanged: all four
  calls return \<^verbatim>\<open>Ok\<close>, both sessions end \<^verbatim>\<open>ACTIVE\<close> and wiped, both hold the same key, and each side has
  obtained the identity of the other. This holds with and without the feature \<^verbatim>\<open>use_lav2\<close>, whatever the
  state of the world and the contents of the output buffers. The hypotheses are the documented behaviour
  of the cryptographic library and of the processor's reports, and that the buffers are inside the enclaves.
\<close>

theorem honest_run:
  fixes P :: "('w, 'z) ecc_ffi_scheme" and P' :: "('v, 'y) ecc_ffi_scheme"
  assumes laws: "platform_laws True P M" "platform_laws True P' M'" and cfg: "wf_cfg C"
    and crypto: "same_crypto M M'" and dh_comm: "\<And>x y. p_dh M x (p_pub M y) = p_dh M y (p_pub M x)"
    and reports: "report_of_enclave M E" "report_of_enclave M' E'" "valid_at_target M' M E" "valid_at_target M M' E'"
    and plen: "length (m3_additional_prop msg3) \<le> u32_max_nat - 452"
    and mem: "all_inside P [(ps, size_of_SgxDhResponder C), (p1, 576), (p2, 512), (pa, 16), (pid, 260),
                (p3, size_of_SgxDhMsg3 C), (pp, length (m3_additional_prop msg3))]"
    and mem': "all_inside P' [(qs, size_of_SgxDhInitiator C), (q1, 576), (q2, 512), (q3, size_of_SgxDhMsg3 C),
                (qa, 16), (qid, 260), (qp, length (m3_additional_prop msg3))]"
  shows "\<exists>s1 m1 w1 t1 m2 v1 s2 m3 key idI w2 t2 key' idR v2.
     gen_msg1 C P (ps, responder_init_session) (p1, msg1) w = ((Inr (), s1, m1), w1) \<and>
     proc_msg1 C P' (qs, initiator_init_session) (q1, m1) (q2, msg2) v = ((Inr (), t1, m2), v1) \<and>
     proc_msg2 C P (ps, s1) (p2, m2) (p3, msg3) pp (pa, aek) (pid, ident) w1 = ((Inr (), s2, m3, key, idI), w2) \<and>
     proc_msg3 C P' (qs, t1) (q3, m3) qp (qa, aek') (qid, ident') v1 = ((Inr (), t2, key', idR), v2) \<and>
     s2 = responder_default\<lparr>r_state := SGX_DH_SESSION_ACTIVE\<rparr> \<and>
     t2 = initiator_default\<lparr>i_state := SGX_DH_SESSION_ACTIVE\<rparr> \<and>
     key = key' \<and> m3_additional_prop m3 = m3_additional_prop msg3 \<and>
     idI = initiator_identity_of ident E' \<and> idR = responder_identity_of ident' E"
proof -
  note M' = same_crypto_keys(2) [OF crypto]
  have in12: "all_inside P [(ps, size_of_SgxDhResponder C), (p1, 576)]"
    "all_inside P' [(qs, size_of_SgxDhInitiator C), (q1, 576), (q2, 512)]"
    using mem mem' by (simp_all add: all_inside_def)
  obtain s1 m1 w1 shared m2 v1 t where
    g: "gen_msg1 C P (ps, responder_init_session) (p1, msg1) w = ((Inr (), s1, m1), w1)"
    and i: "proc_msg1 C P' (qs, initiator_init_session) (q1, m1) (q2, msg2) v =
       ((Inr (), \<lparr>i_state = SGX_DH_SESSION_INITIATOR_WAIT_M3, i_smk_aek = smk_of M shared, i_pub_key = g_b m2,
         i_peer_pub_key = r_pub_key s1, i_shared_key = shared\<rparr>, m2), v1)"
    and s1: "r_state s1 = SGX_DH_SESSION_RESPONDER_WAIT_M2" "length (r_pub_key s1) = 64" "length shared = 32"
    and m2: "msg2_made C M' (smk_of M shared) (g_b m2) (r_pub_key s1) t m2" "wf_msg2 m2" "wf_target_info t" "g_b m2 \<in> range (p_pub M)"
    and sh: "p_dh M (r_prv_key s1) (g_b m2) = shared" "msg2_accepted C M (smk_of M shared) (r_pub_key s1) m2"
    by (rule honest_first_half [OF laws cfg crypto dh_comm reports(1-3) in12])
  have sz: "use_lav2 C \<longrightarrow> size_ok (to_report_data C (from_report_data C (report_data (body (msg2_report m2)))))"
    using m2(1) cfg by (auto simp: msg2_made_def with_report_data_def lav2_data_def wf_cfg_def)
  obtain m3 w2 where p2: "proc_msg2 C P (ps, s1) (p2, m2) (p3, msg3) pp (pa, aek) (pid, ident) w1 =
       ((Inr (), responder_default\<lparr>r_state := SGX_DH_SESSION_ACTIVE\<rparr>, m3, aek_of M shared,
         initiator_identity_of ident (body (msg2_report m2))), w2)"
    and m3: "msg3_made C M (smk_of M shared) (r_pub_key s1) m2 (m3_additional_prop msg3) m3"
    using mem by (auto intro: proc_msg2_runs [OF laws(1) cfg m2(2) s1(2) plen s1(1) m2(4),
          unfolded sh(1), OF sh(2) sz, of ps p2 pa pid p3 pp aek ident w1] simp: all_inside_def)
  have wf3: "wf_msg3 m3" "m3_additional_prop m3 = m3_additional_prop msg3"
    using m3 laws(1) by (auto simp: msg3_made_def wf_msg3_def msg3_mac_def elim: platform_lawsE)
  define t1 where "t1 = \<lparr>i_state = SGX_DH_SESSION_INITIATOR_WAIT_M3, i_smk_aek = smk_of M shared,
         i_pub_key = g_b m2, i_peer_pub_key = r_pub_key s1, i_shared_key = shared\<rparr>"
  have t1: "length (i_pub_key t1) = 64" "length (i_peer_pub_key t1) = 64" "length (i_shared_key t1) = 32"
    "length (m3_additional_prop m3) \<le> u32_max_nat - 452" "i_state t1 = SGX_DH_SESSION_INITIATOR_WAIT_M3"
    "msg3_accepted C M' (i_smk_aek t1) (i_pub_key t1) (i_peer_pub_key t1) m3" "i_shared_key t1 = shared"
    using honest_msg3_accepted [OF laws cfg crypto reports(1,4,2) m2(2,3,1) m3] plen s1 m2(2)
    by (simp_all add: t1_def wf3(2) wf_msg2_def)
  have in3: "all_inside P' [(qs, size_of_SgxDhInitiator C), (q3, size_of_SgxDhMsg3 C), (qa, 16), (qid, 260),
      (qp, length (m3_additional_prop m3))]"
    using mem' by (simp add: all_inside_def wf3(2))
  obtain v2 where p3: "proc_msg3 C P' (qs, t1) (q3, m3) qp (qa, aek') (qid, ident') v1 =
       ((Inr (), initiator_default\<lparr>i_state := SGX_DH_SESSION_ACTIVE\<rparr>, aek_of M' (i_shared_key t1),
         responder_identity_of ident' (body (m3_report m3))), v2)"
    by (rule proc_msg3_runs [OF laws(2) cfg wf3(1) t1(1-6) in3])
  have idI: "initiator_identity_of ident (body (msg2_report m2)) = initiator_identity_of ident E'"
    using msg2_made_body [OF laws(2) reports(2) m2(3,1)] by (metis initiator_identity_of_report_data)
  have idR: "responder_identity_of ident' (body (m3_report m3)) = responder_identity_of ident' E"
    using msg3_made_body [OF laws(1) reports(1) _ m3] m2(2) by (simp add: wf_msg2_def responder_identity_of_def)
  show ?thesis
    using g i [folded t1_def] p2 p3 wf3(2) idI idR by (simp add: M' t1(7))
qed

section \<open>A simulated platform\<close>

text \<open>
  A platform on which the protocol runs, to show that the hypotheses of the theorems can hold: the world
  is the key and the data of the one open context, digests truncate, the shared secret is the bitwise
  exclusive or of the keys, and a report is authenticated by the measurement of its target.
\<close>

definition sim_identity :: "u8 \<Rightarrow> sgx_report_body_t" where
  "sim_identity mr = (body report_default)\<lparr>mr_enclave := replicate 32 mr\<rparr>"

definition sim_report :: "u8 \<Rightarrow> sgx_target_info_t \<Rightarrow> bytes \<Rightarrow> sgx_report_t" where
  "sim_report mr t d = \<lparr>body = (sim_identity mr)\<lparr>report_data := d\<rparr>, key_id = zeros 32, mac = fit 16 (ti_mr_enclave t)\<rparr>"

definition sim_dh :: "bytes \<Rightarrow> bytes \<Rightarrow> bytes" where
  "sim_dh x y = map2 (XOR) (fit 32 x) (fit 32 y)"

definition sim_platform :: "u8 \<Rightarrow> platform" where
  "sim_platform mr =
     \<lparr>p_pub = fit 64, p_dh = sim_dh, p_sha = fit 32, p_cmac = (\<lambda>k d. fit 16 d),
      p_valid = (\<lambda>r. bslice 416 16 (report_to_bytes r) = replicate 16 mr),
      p_report = (\<lambda>t d r. wf_target_info t \<and> length d = 64 \<longrightarrow> r = sim_report mr t d)\<rparr>"

definition sim_ffi :: "u8 \<Rightarrow> (bytes \<times> bytes) ecc_ffi" where
  "sim_ffi mr =
     \<lparr>sgx_is_within_enclave = (\<lambda>_ _. 1), sgx_is_outside_enclave = (\<lambda>_ _. 0),
      sgx_read_rand = (\<lambda>n w. ((SGX_SUCCESS, zeros n), w)),
      sgx_create_report = (\<lambda>t d w. ((SGX_SUCCESS, report_to_bytes (sim_report mr (target_info_of_bytes t) d)), w)),
      sgx_verify_report = (\<lambda>r w. (if bslice 416 16 r = replicate 16 mr then SGX_SUCCESS else SGX_ERROR_MAC_MISMATCH, w)),
      sgx_get_key = (\<lambda>_ w. ((SGX_SUCCESS, zeros 16), w)), sgx_self_report = (\<lambda>_. zeros 432),
      sgx_sha256_msg = (\<lambda>d w. ((SGX_SUCCESS, fit 32 d), w)), sgx_sha256_init = (\<lambda>w. ((SGX_SUCCESS, 1), ([], []))),
      sgx_sha256_update = (\<lambda>d p w. (SGX_SUCCESS, (fst w, snd w @ d))),
      sgx_sha256_get_hash = (\<lambda>p w. ((SGX_SUCCESS, fit 32 (snd w)), w)), sgx_sha256_close = (\<lambda>p w. (SGX_SUCCESS, w)),
      sgx_sha384_init = (\<lambda>w. ((SGX_SUCCESS, 1), ([], []))), sgx_sha384_update = (\<lambda>d p w. (SGX_SUCCESS, (fst w, snd w @ d))),
      sgx_sha384_get_hash = (\<lambda>p w. ((SGX_SUCCESS, fit 48 (snd w)), w)), sgx_sha384_close = (\<lambda>p w. (SGX_SUCCESS, w)),
      sgx_sha1_init = (\<lambda>w. ((SGX_SUCCESS, 1), ([], []))), sgx_sha1_update = (\<lambda>d p w. (SGX_SUCCESS, (fst w, snd w @ d))),
      sgx_sha1_get_hash = (\<lambda>p w. ((SGX_SUCCESS, fit 20 (snd w)), w)), sgx_sha1_close = (\<lambda>p w. (SGX_SUCCESS, w)),
      sgx_rijndael128_cmac_msg = (\<lambda>k d w. ((SGX_SUCCESS, fit 16 d), w)),
      sgx_cmac128_init = (\<lambda>k w. ((SGX_SUCCESS, 1), (k, []))), sgx_cmac128_update = (\<lambda>d p w. (SGX_SUCCESS, (fst w, snd w @ d))),
      sgx_cmac128_final = (\<lambda>p w. ((SGX_SUCCESS, fit 16 (snd w)), w)), sgx_cmac128_close = (\<lambda>p w. (SGX_SUCCESS, w)),
      sgx_hmac256_init = (\<lambda>k w. ((SGX_SUCCESS, 1), (k, []))), sgx_hmac256_update = (\<lambda>d p w. (SGX_SUCCESS, (fst w, snd w @ d))),
      sgx_hmac256_final = (\<lambda>p w. ((SGX_SUCCESS, fit 32 (snd w)), w)), sgx_hmac256_close = (\<lambda>p w. (SGX_SUCCESS, w)),
      sgx_ecc256_open_context = (\<lambda>w. ((SGX_SUCCESS, 1), w)), sgx_ecc256_close_context = (\<lambda>p w. (SGX_SUCCESS, w)),
      sgx_ecc256_create_key_pair = (\<lambda>p w. ((SGX_SUCCESS, replicate 32 mr, fit 64 (replicate 32 mr)), w)),
      sgx_ecc256_check_point = (\<lambda>_ _ w. ((SGX_SUCCESS, 1), w)),
      sgx_ecc256_compute_shared_dhkey = (\<lambda>x y p w. ((SGX_SUCCESS, sim_dh x y), w))\<rparr>"

definition sim_cfg :: "bool \<Rightarrow> dh_cfg" where
  "sim_cfg lav2 =
     \<lparr>use_lav2 = lav2, size_of_SgxDhResponder = 160, size_of_SgxDhInitiator = 200, size_of_SgxDhMsg3 = 480,
      to_report_data = (\<lambda>s. signature s @ [ver s, rev_no s] @ concat (map enc16 (target_spec s))),
      from_report_data = (\<lambda>d. \<lparr>signature = take 6 d, ver = d ! 6, rev_no = d ! 7,
        target_spec = map (\<lambda>i. dec16 (bslice (8 + 2 * i) 2 d)) [0..<28]\<rparr>)\<rparr>"

lemma wf_sim_cfg: "wf_cfg (sim_cfg lav2)"
proof -
  have r: "replicate 21 (0 :: u16) = [0, 0, 0, 0, 0, 0, 0, 0, 0, 0, 0, 0, 0, 0, 0, 0, 0, 0, 0, 0, 0]"
    by (simp add: numeral_eq_Suc)
  show ?thesis
    by (simp add: wf_cfg_def sim_cfg_def SGX_LAV2_PROTO_SPEC_def r)
       (simp add: upt_rec bslice_def)
qed

lemma wf_sim_report [simp]: "length d = 64 \<Longrightarrow> wf_report (sim_report mr t d)"
  using wf_defaults(2) by (simp add: sim_report_def sim_identity_def wf_report_def wf_report_body_def)

lemma sim_laws: "platform_laws b (sim_ffi mr) (sim_platform mr)"
proof -
  have "digest_laws b 32 (\<lambda>_. sgx_sha256_init (sim_ffi mr)) (sgx_sha256_update (sim_ffi mr))
      (sgx_sha256_get_hash (sim_ffi mr)) (\<lambda>_ :: unit. fit 32) (\<lambda>w p. Some ((), snd w))"
    by (auto simp: digest_laws_def sim_ffi_def)
  moreover have "digest_laws b 16 (sgx_cmac128_init (sim_ffi mr)) (sgx_cmac128_update (sim_ffi mr))
      (sgx_cmac128_final (sim_ffi mr)) (\<lambda>k. fit 16) (\<lambda>w p. Some w)"
    by (auto simp: digest_laws_def sim_ffi_def)
  moreover have "ecc_laws b (sim_ffi mr) (fit 64) sim_dh"
    by (auto simp: ecc_laws_def sim_ffi_def sim_dh_def)
  moreover have "report_laws b (sim_ffi mr) (p_valid (sim_platform mr)) (p_report (sim_platform mr))"
    by (auto simp: report_laws_def sim_ffi_def sim_platform_def)
  ultimately show ?thesis
    by (auto simp: platform_laws_def sha_laws_def cmac_laws_def sim_platform_def sim_ffi_def)
qed

lemma sim_report_facts:
  "report_of_enclave (sim_platform mr) (sim_identity mr)"
  "valid_at_target (sim_platform mr') (sim_platform mr) (sim_identity mr)"
  "same_crypto (sim_platform mr) (sim_platform mr')"
proof -
  have "bslice 416 16 (report_to_bytes (sim_report mr' t d)) = replicate 16 mr"
    if "length d = 64" and "ti_mr_enclave t = mr_enclave (sim_identity mr)" for t d
    using that wf_sim_report [OF that(1), of mr' t]
    by (simp add: report_to_bytes_def sim_report_def wf_report_def bslice_def sim_identity_def fit_def)
  then show "valid_at_target (sim_platform mr') (sim_platform mr) (sim_identity mr)"
    by (simp add: valid_at_target_def targets_def sim_platform_def)
qed (simp_all add: report_of_enclave_def same_crypto_def sim_platform_def sim_report_def)

lemma sim_dh_comm: "p_dh (sim_platform mr) x (p_pub (sim_platform mr) y) = p_dh (sim_platform mr) y (p_pub (sim_platform mr) x)"
proof -
  have "fit 32 (fit 64 z) = fit 32 z" for z by (simp add: fit_def min_def) arith
  then show ?thesis
    by (simp add: sim_platform_def sim_dh_def) (rule nth_equalityI, simp_all add: xor.commute)
qed

lemma sim_inside: "all_inside (sim_ffi mr) rs"
  by (simp add: all_inside_def rsgx_raw_is_within_enclave_def sim_ffi_def list_all_iff)

definition sim_ident :: sgx_dh_session_enclave_identity_t where
  "sim_ident =
     \<lparr>id_cpu_svn = zeros 16, id_misc_select = 0, id_reserved_1 = zeros 28, id_attributes = \<lparr>flags = 0, xfrm = 0\<rparr>,
      id_mr_enclave = zeros 32, id_reserved_2 = zeros 32, id_mr_signer = zeros 32, id_reserved_3 = zeros 96,
      id_isv_prod_id = 0, id_isv_svn = 0\<rparr>"

theorem honest_run_witness:
  "\<exists>s1 m1 w1 t1 m2 v1 s2 m3 key idI w2 t2 key' idR v2.
     gen_msg1 (sim_cfg True) (sim_ffi 7) (64, responder_init_session) (64, \<lparr>g_a = [], target = target_info_default\<rparr>) ([], []) =
       ((Inr (), s1, m1), w1) \<and>
     proc_msg1 (sim_cfg True) (sim_ffi 9) (64, initiator_init_session) (64, m1)
       (64, \<lparr>g_b = [], msg2_report = report_default, msg2_cmac = []\<rparr>) ([], []) = ((Inr (), t1, m2), v1) \<and>
     proc_msg2 (sim_cfg True) (sim_ffi 7) (64, s1) (64, m2) (64, SgxDhMsg3_new\<lparr>m3_additional_prop := [1, 2, 3]\<rparr>) 64 (64, zeros 16)
       (64, sim_ident) w1 = ((Inr (), s2, m3, key, idI), w2) \<and>
     proc_msg3 (sim_cfg True) (sim_ffi 9) (64, t1) (64, m3) 64 (64, zeros 16) (64, sim_ident) v1 = ((Inr (), t2, key', idR), v2) \<and>
     s2 = responder_default\<lparr>r_state := SGX_DH_SESSION_ACTIVE\<rparr> \<and>
     t2 = initiator_default\<lparr>i_state := SGX_DH_SESSION_ACTIVE\<rparr> \<and>
     key = key' \<and> m3_additional_prop m3 = m3_additional_prop (SgxDhMsg3_new\<lparr>m3_additional_prop := [1, 2, 3]\<rparr>) \<and>
     idI = initiator_identity_of sim_ident (sim_identity 9) \<and> idR = responder_identity_of sim_ident (sim_identity 7)"
  by (rule honest_run [OF sim_laws sim_laws wf_sim_cfg sim_report_facts(3) sim_dh_comm sim_report_facts(1,1,2,2) _
        sim_inside sim_inside]) simp

section \<open>Order of the calls and life of the keys\<close>

text \<open>
  C16: On a responder session, whatever the application does: the successful calls alternate so that every
  successful \<^verbatim>\<open>proc_msg2\<close> directly follows its own successful \<^verbatim>\<open>gen_msg1\<close> (a key pair serves at most one
  session), a session is \<^verbatim>\<open>ACTIVE\<close> only right after such a pair, and outside the state that waits for
  message 2 (fresh, failed or completed session) no key material is left in the object.
\<close>

theorem responder_session_order:
  assumes "session_trace responder_init_session (responder_first C P) (responder_second C P) s tr"
  shows "paired (ok_calls tr) \<and>
         (r_state s = SGX_DH_SESSION_ACTIVE \<longrightarrow> (\<exists>l. ok_calls tr = Second # First # l)) \<and>
         (r_state s = SGX_DH_SESSION_RESPONDER_WAIT_M2 \<longrightarrow> (\<exists>l. ok_calls tr = First # l)) \<and>
         (r_state s \<noteq> SGX_DH_SESSION_RESPONDER_WAIT_M2 \<longrightarrow> responder_wiped s)"
  using responder.trace_inv [OF assms] by blast

theorem responder_session_order_witness:
  "\<exists>s. session_trace responder_init_session (responder_first (sim_cfg True) (sim_ffi 7))
        (responder_second (sim_cfg True) (sim_ffi 7)) s [(First, Inr ())] \<and>
      r_state s = SGX_DH_SESSION_RESPONDER_WAIT_M2 \<and> paired (ok_calls [(First, Inr ())])"
proof -
  obtain s m1 prv w' where g: "gen_msg1 (sim_cfg True) (sim_ffi 7) (64, responder_init_session)
      (64, \<lparr>g_a = [], target = target_info_default\<rparr>) ([], []) = ((Inr (), s, m1), w')"
    and st: "r_state s = SGX_DH_SESSION_RESPONDER_WAIT_M2"
    by (rule gen_msg1_runs [OF sim_laws sim_report_facts(1) sim_inside])
  have f: "responder_first (sim_cfg True) (sim_ffi 7) (64, (64, \<lparr>g_a = [], target = target_info_default\<rparr>))
      responder_init_session ([], []) = ((Inr (), s), w')"
    by (simp add: responder_first_def g)
  have "session_trace responder_init_session (responder_first (sim_cfg True) (sim_ffi 7))
      (responder_second (sim_cfg True) (sim_ffi 7)) s [(First, Inr ())]"
    by (rule trace_first, rule trace_init, rule f)
  with st responder_session_order [OF this] show ?thesis by blast
qed

text \<open>
  The same for an initiator session with \<^verbatim>\<open>proc_msg1\<close> and \<^verbatim>\<open>proc_msg3\<close>; in particular the private key
  of the initiator never reaches the session object.
\<close>

theorem initiator_session_order:
  assumes "session_trace initiator_init_session (initiator_first C P) (initiator_second C P) s tr"
  shows "paired (ok_calls tr) \<and>
         (i_state s = SGX_DH_SESSION_ACTIVE \<longrightarrow> (\<exists>l. ok_calls tr = Second # First # l)) \<and>
         (i_state s = SGX_DH_SESSION_INITIATOR_WAIT_M3 \<longrightarrow> (\<exists>l. ok_calls tr = First # l)) \<and>
         (i_state s \<noteq> SGX_DH_SESSION_INITIATOR_WAIT_M3 \<longrightarrow> initiator_wiped s)"
  using initiator.trace_inv [OF assms] by blast

theorem initiator_session_order_witness:
  "\<exists>s. session_trace initiator_init_session (initiator_first (sim_cfg False) (sim_ffi 9))
        (initiator_second (sim_cfg False) (sim_ffi 9)) s [(First, Inr ())] \<and>
      i_state s = SGX_DH_SESSION_INITIATOR_WAIT_M3 \<and> paired (ok_calls [(First, Inr ())])"
proof -
  define m1 where "m1 = \<lparr>g_a = fit 64 [5], target = target_info_default\<rparr>"
  have r: "g_a m1 \<in> range (p_pub (sim_platform 9))" by (simp add: m1_def sim_platform_def)
  obtain prv m2 w' where g: "proc_msg1 (sim_cfg False) (sim_ffi 9) (64, initiator_init_session) (64, m1)
      (64, \<lparr>g_b = [], msg2_report = report_default, msg2_cmac = []\<rparr>) ([], []) =
      ((Inr (), \<lparr>i_state = SGX_DH_SESSION_INITIATOR_WAIT_M3,
        i_smk_aek = smk_of (sim_platform 9) (p_dh (sim_platform 9) prv (g_a m1)),
        i_pub_key = p_pub (sim_platform 9) prv, i_peer_pub_key = g_a m1,
        i_shared_key = p_dh (sim_platform 9) prv (g_a m1)\<rparr>, m2), w')" (is "_ = ((_, ?s, _), _)")
    by (rule proc_msg1_runs [OF sim_laws wf_sim_cfg r sim_inside])
  have f: "initiator_first (sim_cfg False) (sim_ffi 9)
      (64, (64, m1), (64, \<lparr>g_b = [], msg2_report = report_default, msg2_cmac = []\<rparr>))
      initiator_init_session ([], []) = ((Inr (), ?s), w')"
    by (simp add: initiator_first_def g)
  have "session_trace initiator_init_session (initiator_first (sim_cfg False) (sim_ffi 9))
      (initiator_second (sim_cfg False) (sim_ffi 9)) ?s [(First, Inr ())]"
    by (rule trace_first, rule trace_init, rule f)
  with initiator_session_order [OF this] show ?thesis by (intro exI [of _ ?s]) simp
qed

section \<open>Failures\<close>

text \<open>
  C30: When \<^verbatim>\<open>proc_msg2\<close> fails, the caller's key buffer is untouched, the session is wiped and in the error
  state (the only exception is a session object that is itself not inside the enclave, which is left
  alone), and the error is one of the five documented codes.
\<close>

theorem proc_msg2_failure:
  assumes "proc_msg2 C P (pself, self) m2 m3 pp (paek, aek) pi w = ((Inl e, self', msg3', aek', ident'), w')"
  shows "aek' = aek \<and>
     self' = (if rsgx_data_is_within_enclave P (size_of_SgxDhResponder C) pself
              then responder_default\<lparr>r_state := SGX_DH_SESSION_STATE_ERROR\<rparr> else self) \<and>
     e \<in> {SGX_ERROR_INVALID_PARAMETER, SGX_ERROR_INVALID_STATE, SGX_ERROR_KDF_MISMATCH, SGX_ERROR_OUT_OF_MEMORY,
          SGX_ERROR_UNEXPECTED}"
  using proc_msg2_err [OF assms] by blast

lemma sim_within [simp]:
  "rsgx_data_is_within_enclave (sim_ffi mr) n p" "rsgx_raw_is_within_enclave (sim_ffi mr) p n"
  "rsgx_slice_is_within_enclave (sim_ffi mr) s"
  by (simp_all add: rsgx_slice_is_within_enclave_def rsgx_data_is_within_enclave_def rsgx_raw_is_within_enclave_def sim_ffi_def)

definition sim_msg2 :: "sgx_dh_msg2_t" where
  "sim_msg2 = (let r = sim_report 5 (target_info_default\<lparr>ti_mr_enclave := replicate 32 7\<rparr>)
                 (bsplice 32 AES_CMAC_KDF_ID (zeros 64))
     in \<lparr>g_b = zeros 64, msg2_report = r, msg2_cmac = fit 16 (report_to_bytes r)\<rparr>)"

theorem proc_msg2_failure_witness:
  "\<exists>self' w'. proc_msg2 (sim_cfg False) (sim_ffi 7) (64, responder_init_session) (64, sim_msg2) (64, SgxDhMsg3_new) 64
       (64, zeros 16) (64, sim_ident) ([], []) =
     ((Inl SGX_ERROR_INVALID_STATE, self', SgxDhMsg3_new, zeros 16, sim_ident), w') \<and>
     self' = responder_default\<lparr>r_state := SGX_DH_SESSION_STATE_ERROR\<rparr>"
proof -
  have "proc_msg2 (sim_cfg False) (sim_ffi 7) (64, responder_init_session) (64, sim_msg2) (64, SgxDhMsg3_new) 64
       (64, zeros 16) (64, sim_ident) ([], []) =
     ((Inl SGX_ERROR_INVALID_STATE, responder_default\<lparr>r_state := SGX_DH_SESSION_STATE_ERROR\<rparr>,
       SgxDhMsg3_new, zeros 16, sim_ident), ([], []))"
    by (simp add: proc_msg2_def responder_init_session_def responder_default_def SgxDhMsg3_new_def)
  with proc_msg2_failure [OF this] show ?thesis by blast
qed

text \<open>
  When \<^verbatim>\<open>proc_msg3\<close> fails, the key buffer and the identity of the caller are untouched, the session is
  wiped and in the error state (unless the object is not inside the enclave), and the error is one of
  the four documented codes.
\<close>

theorem proc_msg3_failure:
  assumes "proc_msg3 C P (pself, self) m3 pp (paek, aek) (pident, ident) w = ((Inl e, self', aek', ident'), w')"
  shows "aek' = aek \<and> ident' = ident \<and>
     self' = (if rsgx_data_is_within_enclave P (size_of_SgxDhInitiator C) pself
              then initiator_default\<lparr>i_state := SGX_DH_SESSION_STATE_ERROR\<rparr> else self) \<and>
     e \<in> {SGX_ERROR_INVALID_PARAMETER, SGX_ERROR_INVALID_STATE, SGX_ERROR_OUT_OF_MEMORY, SGX_ERROR_UNEXPECTED}"
  using proc_msg3_err [OF assms] by blast

theorem proc_msg3_failure_witness:
  "\<exists>self' w'. proc_msg3 (sim_cfg True) (sim_ffi 7) (64, initiator_init_session) (64, SgxDhMsg3_new) 64
       (64, zeros 16) (64, sim_ident) ([], []) =
     ((Inl SGX_ERROR_INVALID_STATE, self', zeros 16, sim_ident), w') \<and>
     self' = initiator_default\<lparr>i_state := SGX_DH_SESSION_STATE_ERROR\<rparr>"
proof -
  have "proc_msg3 (sim_cfg True) (sim_ffi 7) (64, initiator_init_session) (64, SgxDhMsg3_new) 64
       (64, zeros 16) (64, sim_ident) ([], []) =
     ((Inl SGX_ERROR_INVALID_STATE, initiator_default\<lparr>i_state := SGX_DH_SESSION_STATE_ERROR\<rparr>, zeros 16, sim_ident), ([], []))"
    by (simp add: proc_msg3_def initiator_init_session_def initiator_default_def SgxDhMsg3_new_def)
  with proc_msg3_failure [OF this] show ?thesis by blast
qed

section \<open>What a completed session has established\<close>


definition sim_responder :: SgxDhResponder where
  "sim_responder = responder_default\<lparr>r_state := SGX_DH_SESSION_RESPONDER_WAIT_M2\<rparr>"

lemma sim_msg2_facts:
  "wf_msg2 sim_msg2" "g_b sim_msg2 = zeros 64" "length (r_pub_key sim_responder) = 64"
  "r_state sim_responder = SGX_DH_SESSION_RESPONDER_WAIT_M2"
  "msg2_accepted (sim_cfg False) (sim_platform 7) smk (r_pub_key sim_responder) sim_msg2"
proof -
  let ?d = "bsplice 32 AES_CMAC_KDF_ID (zeros 64)"
  let ?t = "target_info_default\<lparr>ti_mr_enclave := replicate 32 7\<rparr>"
  have d: "length ?d = 64" by (simp add: bsplice_def AES_CMAC_KDF_ID_def)
  then show "wf_msg2 sim_msg2" by (simp add: wf_msg2_def sim_msg2_def Let_def)
  have "p_valid (sim_platform 7) (sim_report 5 ?t ?d)"
    using wf_sim_report [OF d, of 5 ?t]
    by (simp add: sim_platform_def report_to_bytes_def sim_report_def wf_report_def bslice_def fit_def)
  moreover have "bslice 32 2 ?d = AES_CMAC_KDF_ID" "bslice 0 32 ?d = zeros 32"
    by (simp_all add: bslice_def bsplice_def AES_CMAC_KDF_ID_def)
  ultimately show "msg2_accepted (sim_cfg False) (sim_platform 7) smk (r_pub_key sim_responder) sim_msg2"
    by (simp add: msg2_accepted_def sim_msg2_def sim_responder_def responder_default_def sim_cfg_def Let_def sim_report_def
        sim_platform_def) (simp add: fit_def)
qed (simp_all add: sim_msg2_def sim_responder_def responder_default_def Let_def)



definition sim_initiator :: SgxDhInitiator where
  "sim_initiator = initiator_default\<lparr>i_state := SGX_DH_SESSION_INITIATOR_WAIT_M3\<rparr>"

definition sim_msg3 :: SgxDhMsg3 where
  "sim_msg3 = (let r = sim_report 5 (target_info_default\<lparr>ti_mr_enclave := replicate 32 7\<rparr>) (zeros 64)
     in \<lparr>m3_cmac = fit 16 (report_to_bytes r @ enc32 2 @ [8, 9]), m3_report = r, m3_additional_prop = [8, 9]\<rparr>)"

lemma sim_msg3_facts:
  "wf_msg3 sim_msg3" "length (m3_additional_prop sim_msg3) \<le> u32_max_nat - 452"
  "length (i_pub_key sim_initiator) = 64" "length (i_peer_pub_key sim_initiator) = 64"
  "length (i_shared_key sim_initiator) = 32" "i_state sim_initiator = SGX_DH_SESSION_INITIATOR_WAIT_M3"
  "msg3_accepted (sim_cfg False) (sim_platform 7) (i_smk_aek sim_initiator) (i_pub_key sim_initiator)
     (i_peer_pub_key sim_initiator) sim_msg3"
proof -
  let ?t = "target_info_default\<lparr>ti_mr_enclave := replicate 32 7\<rparr>"
  show "wf_msg3 sim_msg3" by (simp add: wf_msg3_def sim_msg3_def Let_def)
  have "p_valid (sim_platform 7) (sim_report 5 ?t (zeros 64))"
    using wf_sim_report [of "zeros 64" 5 ?t]
    by (simp add: sim_platform_def report_to_bytes_def sim_report_def wf_report_def bslice_def fit_def)
  then show "msg3_accepted (sim_cfg False) (sim_platform 7) (i_smk_aek sim_initiator) (i_pub_key sim_initiator)
     (i_peer_pub_key sim_initiator) sim_msg3"
    by (simp add: msg3_accepted_def msg3_mac_def sim_msg3_def sim_initiator_def initiator_default_def sim_cfg_def Let_def
        sim_report_def sim_platform_def as_u32_def) (simp add: fit_def bslice_def)
qed (simp_all add: sim_msg3_def sim_initiator_def initiator_default_def Let_def)


end
