(* ===== verification/Sgx_Tseal.thy ===== *)
theory Sgx_Tseal
  imports Sgx_Tcrypto
begin

text \<open>
  Sealing (\<^verbatim>\<open>src/sgx_tseal/src/internal.rs\<close>, \<^verbatim>\<open>seal.rs\<close>, \<^verbatim>\<open>aad.rs\<close>): encryption or authentication of data
  under a key that the processor derives for this enclave, the raw form of the sealed data, and the
  typed wrappers. The lemmas show the arithmetic of the sizes, that the raw conversions stay in their
  buffers even when the memory is changed concurrently, the round trips, and what unsealing guarantees.
\<close>

section \<open>Foreign functions\<close>

text \<open>
  The size functions of Intel's sealing library; the last two get the memory at the pointer they are
  given, the header of a sealed blob.
\<close>

record 'w tseal_ffi = "'w tcrypto_ffi" +
  sgx_calc_sealed_data_size :: "u32 \<Rightarrow> u32 \<Rightarrow> u32"
  sgx_get_add_mac_txt_len :: "bytes \<Rightarrow> u32"
  sgx_get_encrypt_txt_len :: "bytes \<Rightarrow> u32"

section \<open>internal.rs: data\<close>

abbreviation (input) sealed_data_t_size :: nat where "sealed_data_t_size \<equiv> 560"
abbreviation (input) SGX_SEAL_IV_SIZE :: nat where "SGX_SEAL_IV_SIZE \<equiv> 12"
abbreviation (input) SGX_SEAL_TAG_SIZE :: nat where "SGX_SEAL_TAG_SIZE \<equiv> 16"

definition KEY_POLICY_KSS :: u16 where
  "KEY_POLICY_KSS = SGX_KEYPOLICY_CONFIGID OR SGX_KEYPOLICY_ISVFAMILYID OR SGX_KEYPOLICY_ISVEXTPRODID"

record SgxInternalUnsealedData =
  u_payload_size :: u32
  u_decrypt :: bytes
  u_additional :: bytes

record SgxPayload =
  payload_size :: u32
  pl_reserved :: bytes
  payload_tag :: bytes
  encrypt :: bytes
  additional :: bytes

record SgxInternalSealedData =
  key_request :: sgx_key_request_t
  payload_data :: SgxPayload

definition SgxInternalSealedData_new :: SgxInternalSealedData where
  "SgxInternalSealedData_new =
     \<lparr>key_request = key_request_default,
      payload_data = \<lparr>payload_size = 0, pl_reserved = zeros 12, payload_tag = zeros SGX_SEAL_TAG_SIZE,
                      encrypt = [], additional = []\<rparr>\<rparr>"

definition calc_raw_sealed_data_size :: "u32 \<Rightarrow> u32 \<Rightarrow> u32" where
  "calc_raw_sealed_data_size add_mac_txt_size encrypt_txt_size =
     (let sealed_data_size = as_u32 sealed_data_t_size
      in if add_mac_txt_size > U32_MAX - encrypt_txt_size then U32_MAX
         else let payload_size = add_mac_txt_size + encrypt_txt_size
              in if payload_size > U32_MAX - sealed_data_size then U32_MAX
                 else sealed_data_size + payload_size)"

definition txt_len :: "bytes \<Rightarrow> u32 \<Rightarrow> u32" where
  "txt_len data psize =
     (let data_size = length data
      in if data_size > unat psize \<or> data_size \<ge> u32_max_nat then U32_MAX else as_u32 data_size)"

definition get_add_mac_txt_len :: "SgxInternalSealedData \<Rightarrow> u32" where
  "get_add_mac_txt_len self = txt_len (additional (payload_data self)) (payload_size (payload_data self))"

definition get_encrypt_txt_len :: "SgxInternalSealedData \<Rightarrow> u32" where
  "get_encrypt_txt_len self = txt_len (encrypt (payload_data self)) (payload_size (payload_data self))"

section \<open>internal.rs: raw form\<close>

text \<open>
  The header is the key request (512 bytes), the plain text offset at 512, the payload size at 528 and
  the tag at 544; the encrypted text and the additional text follow it. The sum of two lengths is the
  sum of \<^verbatim>\<open>u32\<close> values in a release build.
\<close>

definition to_raw_sealed_data_t ::
  "('w, 'z) tseal_ffi_scheme \<Rightarrow> SgxInternalSealedData \<Rightarrow> bytes mref \<Rightarrow> u32 \<Rightarrow> (addr option \<times> bytes) outcome" where
  "to_raw_sealed_data_t P self pm len =
     (let p = fst pm; mem = snd pm;
          additional_len = get_add_mac_txt_len self; encrypt_len = get_encrypt_txt_len self;
          sealed_data_size = sgx_calc_sealed_data_size P additional_len encrypt_len
      in if p = 0 then Ret (None, mem)
         else if \<not> rsgx_raw_is_within_enclave P p (unat len) \<and> \<not> rsgx_raw_is_outside_enclave P p (unat len)
         then Ret (None, mem)
         else if additional_len = U32_MAX \<or> encrypt_len = U32_MAX then Ret (None, mem)
         else if additional_len + encrypt_len \<noteq> payload_size (payload_data self) then Ret (None, mem)
         else if sealed_data_size = U32_MAX then Ret (None, mem)
         else if len < sealed_data_size then Ret (None, mem)
         else if length mem < sealed_data_t_size + unat encrypt_len + unat additional_len then Undef
         else
           let mem1 = if encrypt_len > 0 then bsplice 560 (encrypt (payload_data self)) mem else mem;
               mem2 = if additional_len > 0
                      then bsplice (560 + unat encrypt_len) (additional (payload_data self)) mem1 else mem1;
               mem3 = bsplice 0 (key_request_to_bytes (key_request self)) mem2;
               mem4 = bsplice 512 (enc32 encrypt_len) mem3;
               mem5 = bsplice 528 (enc32 (payload_size (payload_data self))) mem4;
               mem6 = bsplice 544 (payload_tag (payload_data self)) mem5
           in Ret (Some p, mem6))"

text \<open>
  The blob may lie outside the enclave, where it can change between any two accesses: \<open>mem i\<close> is the
  memory at the time of the \<open>i\<close>-th access. A memory that does not change is the constant function.
\<close>

definition from_raw_sealed_data_t ::
  "('w, 'z) tseal_ffi_scheme \<Rightarrow> addr \<Rightarrow> (nat \<Rightarrow> bytes) \<Rightarrow> u32 \<Rightarrow> SgxInternalSealedData option outcome" where
  "from_raw_sealed_data_t P p mem len =
     (if p = 0 then Ret None
      else if \<not> rsgx_raw_is_within_enclave P p (unat len) \<and> \<not> rsgx_raw_is_outside_enclave P p (unat len)
      then Ret None
      else if unat len < sealed_data_t_size then Ret None
      else if length (mem 0) < sealed_data_t_size then Undef
      else if dec32 (bslice 512 4 (mem 0)) > dec32 (bslice 528 4 (mem 1)) then Ret None
      else
        let additional_len = sgx_get_add_mac_txt_len P (bslice 0 560 (mem 2));
            encrypt_len = sgx_get_encrypt_txt_len P (bslice 0 560 (mem 3));
            sealed_data_size = sgx_calc_sealed_data_size P additional_len encrypt_len
        in if additional_len = U32_MAX \<or> encrypt_len = U32_MAX then Ret None
           else if additional_len + encrypt_len \<noteq> dec32 (bslice 528 4 (mem 4)) then Ret None
           else if sealed_data_size = U32_MAX then Ret None
           else if len < sealed_data_size then Ret None
           else if length (mem 5) < sealed_data_t_size + unat encrypt_len + unat additional_len then Undef
           else
             let enc = if encrypt_len > 0 then bslice 560 (unat encrypt_len) (mem 5) else [];
                 addt = if additional_len > 0
                        then bslice (560 + unat encrypt_len) (unat additional_len) (mem 6) else []
             in Ret (Some
                  \<lparr>key_request = key_request_of_bytes (bslice 0 512 (mem 7)),
                   payload_data =
                     \<lparr>payload_size = dec32 (bslice 528 4 (mem 8)), pl_reserved = zeros 12,
                      payload_tag = bslice 544 16 (mem 9), encrypt = enc, additional = addt\<rparr>\<rparr>))"

section \<open>internal.rs: sealing\<close>

definition seal_data_iv ::
  "('w, 'z) tseal_ffi_scheme \<Rightarrow> bytes \<Rightarrow> bytes \<Rightarrow> bytes \<Rightarrow> sgx_key_request_t
     \<Rightarrow> ('w, sgx_status_t, SgxInternalSealedData) io" where
  "seal_data_iv P additional_text encrypt_text payload_iv kr =
     bindE (map_errW (\<lambda>ret. if ret \<noteq> SGX_ERROR_OUT_OF_MEMORY then SGX_ERROR_UNEXPECTED else ret)
              (rsgx_get_align_key P kr)) (\<lambda>seal_key w.
       case rsgx_rijndael128GCM_encrypt P seal_key encrypt_text payload_iv additional_text
              (zeros (length encrypt_text)) (zeros SGX_SEAL_TAG_SIZE) w of
         ((Inl e, _), w') \<Rightarrow> (Inl e, w')
       | ((Inr _, enc, tag), w') \<Rightarrow>
           (Inr (SgxInternalSealedData_new\<lparr>payload_data :=
              (payload_data SgxInternalSealedData_new)\<lparr>encrypt := enc, payload_tag := tag,
                payload_size := as_u32 (length encrypt_text + length additional_text),
                additional := (if additional_text \<noteq> [] then additional_text else [])\<rparr>\<rparr>), w'))"

definition key_policy_ok :: "u16 \<Rightarrow> bool" where
  "key_policy_ok key_policy \<longleftrightarrow>
     \<not> (key_policy AND NOT (SGX_KEYPOLICY_MRENCLAVE OR SGX_KEYPOLICY_MRSIGNER OR KEY_POLICY_KSS OR
           SGX_KEYPOLICY_NOISVPRODID) \<noteq> 0 \<or>
        key_policy AND (SGX_KEYPOLICY_MRENCLAVE OR SGX_KEYPOLICY_MRSIGNER) = 0)"

definition attribute_mask_ok :: "sgx_attributes_t \<Rightarrow> bool" where
  "attribute_mask_ok attribute_mask \<longleftrightarrow>
     \<not> (flags attribute_mask AND SGX_FLAGS_INITTED = 0 \<or> flags attribute_mask AND SGX_FLAGS_DEBUG = 0)"

text \<open>The end that \<^verbatim>\<open>seal_data_ex\<close> and \<^verbatim>\<open>mac_aadata_ex\<close> share: a fresh key id, the key request, the seal.\<close>

definition seal_with_fresh_key ::
  "('w, 'z) tseal_ffi_scheme \<Rightarrow> u16 \<Rightarrow> sgx_attributes_t \<Rightarrow> u32 \<Rightarrow> bytes \<Rightarrow> bytes
     \<Rightarrow> ('w, sgx_status_t, SgxInternalSealedData) io" where
  "seal_with_fresh_key P key_policy attribute_mask misc_mask additional_text encrypt_text w =
     (let report = rsgx_self_report P w
      in case rsgx_read_rand P (zeros 32) w of
           ((Inl e, _), w1) \<Rightarrow> (Inl e, w1)
         | ((Inr _, kid), w1) \<Rightarrow>
             let kr = \<lparr>kr_key_name = SGX_KEYSELECT_SEAL, kr_key_policy = key_policy,
                       kr_isv_svn = isv_svn (body report), kr_reserved1 = 0, kr_cpu_svn = cpu_svn (body report),
                       kr_attribute_mask = attribute_mask, kr_key_id = kid, kr_misc_mask = misc_mask,
                       kr_config_svn = config_svn (body report), kr_reserved2 = zeros 434\<rparr>
             in bindE (seal_data_iv P additional_text encrypt_text (zeros SGX_SEAL_IV_SIZE) kr)
                  (\<lambda>sealed_data. returnE (sealed_data\<lparr>key_request := kr\<rparr>)) w1)"

definition seal_data_ex ::
  "('w, 'z) tseal_ffi_scheme \<Rightarrow> u16 \<Rightarrow> sgx_attributes_t \<Rightarrow> u32 \<Rightarrow> bytes mref \<Rightarrow> bytes mref
     \<Rightarrow> ('w, sgx_status_t, SgxInternalSealedData) io" where
  "seal_data_ex P key_policy attribute_mask misc_mask additional_text encrypt_text =
     (let additional_len = length (snd additional_text); encrypt_len = length (snd encrypt_text)
      in if additional_len \<ge> u32_max_nat \<or> encrypt_len \<ge> u32_max_nat then throwE SGX_ERROR_INVALID_PARAMETER
         else if calc_raw_sealed_data_size (as_u32 additional_len) (as_u32 encrypt_len) = U32_MAX
         then throwE SGX_ERROR_INVALID_PARAMETER
         else if encrypt_len = 0 then throwE SGX_ERROR_INVALID_PARAMETER
         else if \<not> key_policy_ok key_policy then throwE SGX_ERROR_INVALID_PARAMETER
         else if \<not> attribute_mask_ok attribute_mask then throwE SGX_ERROR_INVALID_PARAMETER
         else if \<not> rsgx_slice_is_within_enclave P encrypt_text then throwE SGX_ERROR_INVALID_PARAMETER
         else if additional_len > 0 \<and> \<not> rsgx_slice_is_within_enclave P additional_text \<and>
                 \<not> rsgx_slice_is_outside_enclave P additional_text then throwE SGX_ERROR_INVALID_PARAMETER
         else seal_with_fresh_key P key_policy attribute_mask misc_mask (snd additional_text) (snd encrypt_text))"

definition default_key_policy :: "('w, 'z) tseal_ffi_scheme \<Rightarrow> 'w \<Rightarrow> u16" where
  "default_key_policy P w =
     (if flags (attributes (body (rsgx_self_report P w))) AND SGX_FLAGS_KSS \<noteq> 0
      then SGX_KEYPOLICY_MRSIGNER OR KEY_POLICY_KSS else SGX_KEYPOLICY_MRSIGNER)"

definition seal_data ::
  "('w, 'z) tseal_ffi_scheme \<Rightarrow> bytes mref \<Rightarrow> bytes mref \<Rightarrow> ('w, sgx_status_t, SgxInternalSealedData) io" where
  "seal_data P additional_text encrypt_text w =
     seal_data_ex P (default_key_policy P w) \<lparr>flags = TSEAL_DEFAULT_FLAGSMASK, xfrm = 0\<rparr> TSEAL_DEFAULT_MISCMASK
       additional_text encrypt_text w"

definition mac_aadata_ex ::
  "('w, 'z) tseal_ffi_scheme \<Rightarrow> u16 \<Rightarrow> sgx_attributes_t \<Rightarrow> u32 \<Rightarrow> bytes mref
     \<Rightarrow> ('w, sgx_status_t, SgxInternalSealedData) io" where
  "mac_aadata_ex P key_policy attribute_mask misc_mask additional_text =
     (let additional_len = length (snd additional_text)
      in if additional_len \<ge> u32_max_nat then throwE SGX_ERROR_INVALID_PARAMETER
         else if calc_raw_sealed_data_size (as_u32 additional_len) 0 = U32_MAX then throwE SGX_ERROR_INVALID_PARAMETER
         else if additional_len = 0 then throwE SGX_ERROR_INVALID_PARAMETER
         else if \<not> key_policy_ok key_policy then throwE SGX_ERROR_INVALID_PARAMETER
         else if \<not> attribute_mask_ok attribute_mask then throwE SGX_ERROR_INVALID_PARAMETER
         else if \<not> rsgx_slice_is_within_enclave P additional_text \<and>
                 \<not> rsgx_slice_is_outside_enclave P additional_text then throwE SGX_ERROR_INVALID_PARAMETER
         else seal_with_fresh_key P key_policy attribute_mask misc_mask (snd additional_text) [])"

definition mac_aadata ::
  "('w, 'z) tseal_ffi_scheme \<Rightarrow> bytes mref \<Rightarrow> ('w, sgx_status_t, SgxInternalSealedData) io" where
  "mac_aadata P additional_text w =
     mac_aadata_ex P (default_key_policy P w) \<lparr>flags = TSEAL_DEFAULT_FLAGSMASK, xfrm = 0\<rparr> TSEAL_DEFAULT_MISCMASK
       additional_text w"

section \<open>internal.rs: unsealing\<close>

text \<open>
  Where a sealed object lies: the object itself (of the size the compiler gives it) and its two boxes.
\<close>

record sealed_loc =
  sz_self :: usize
  at_self :: addr
  at_encrypt :: addr
  at_additional :: addr

definition unseal_data_helper ::
  "('w, 'z) tseal_ffi_scheme \<Rightarrow> SgxInternalSealedData \<Rightarrow> ('w, sgx_status_t, SgxInternalUnsealedData) io" where
  "unseal_data_helper P self =
     bindE (map_errW (\<lambda>ret. if ret = SGX_ERROR_INVALID_CPUSVN \<or> ret = SGX_ERROR_INVALID_ISVSVN \<or>
                                ret = SGX_ERROR_OUT_OF_MEMORY then ret else SGX_ERROR_MAC_MISMATCH)
              (rsgx_get_align_key P (key_request self))) (\<lambda>seal_key w.
       case rsgx_rijndael128GCM_decrypt P seal_key (encrypt (payload_data self)) (zeros SGX_SEAL_IV_SIZE)
              (additional (payload_data self)) (payload_tag (payload_data self))
              (zeros (length (encrypt (payload_data self)))) w of
         ((Inl e, _), w') \<Rightarrow> (Inl e, w')
       | ((Inr _, dec), w') \<Rightarrow>
           (Inr \<lparr>u_payload_size = payload_size (payload_data self), u_decrypt = dec,
                 u_additional = (if length (additional (payload_data self)) > 0
                                 then additional (payload_data self) else [])\<rparr>, w'))"

definition unseal_data ::
  "('w, 'z) tseal_ffi_scheme \<Rightarrow> sealed_loc \<Rightarrow> SgxInternalSealedData \<Rightarrow> ('w, sgx_status_t, SgxInternalUnsealedData) io" where
  "unseal_data P loc self =
     (let additional_len = get_add_mac_txt_len self; encrypt_len = get_encrypt_txt_len self
      in if additional_len = U32_MAX \<or> encrypt_len = U32_MAX then throwE SGX_ERROR_MAC_MISMATCH
         else if calc_raw_sealed_data_size additional_len encrypt_len = U32_MAX then throwE SGX_ERROR_MAC_MISMATCH
         else if encrypt_len < 1 then throwE SGX_ERROR_MAC_MISMATCH
         else if additional_len + encrypt_len \<noteq> payload_size (payload_data self) then throwE SGX_ERROR_MAC_MISMATCH
         else if \<not> rsgx_raw_is_within_enclave P (at_self loc) (sz_self loc) then throwE SGX_ERROR_INVALID_PARAMETER
         else if \<not> rsgx_slice_is_within_enclave P (at_encrypt loc, encrypt (payload_data self))
         then throwE SGX_ERROR_INVALID_PARAMETER
         else if additional_len > 0 \<and> \<not> rsgx_slice_is_within_enclave P (at_additional loc, additional (payload_data self))
         then throwE SGX_ERROR_INVALID_PARAMETER
         else unseal_data_helper P self)"

definition unmac_aadata ::
  "('w, 'z) tseal_ffi_scheme \<Rightarrow> sealed_loc \<Rightarrow> SgxInternalSealedData \<Rightarrow> ('w, sgx_status_t, SgxInternalUnsealedData) io" where
  "unmac_aadata P loc self =
     (let additional_len = get_add_mac_txt_len self; encrypt_len = get_encrypt_txt_len self
      in if additional_len = U32_MAX \<or> encrypt_len = U32_MAX then throwE SGX_ERROR_MAC_MISMATCH
         else if additional_len < 1 then throwE SGX_ERROR_MAC_MISMATCH
         else if encrypt_len \<noteq> 0 then throwE SGX_ERROR_MAC_MISMATCH
         else if calc_raw_sealed_data_size additional_len encrypt_len = U32_MAX then throwE SGX_ERROR_MAC_MISMATCH
         else if additional_len + encrypt_len \<noteq> payload_size (payload_data self) then throwE SGX_ERROR_MAC_MISMATCH
         else if \<not> rsgx_raw_is_within_enclave P (at_self loc) (sz_self loc) then throwE SGX_ERROR_INVALID_PARAMETER
         else if \<not> rsgx_slice_is_within_enclave P (at_additional loc, additional (payload_data self))
         then throwE SGX_ERROR_INVALID_PARAMETER
         else unseal_data_helper P self)"

section \<open>seal.rs: typed sealed data\<close>

text \<open>
  \<^verbatim>\<open>SgxSealedData<T>\<close> holds the internal object; a \<^verbatim>\<open>T\<close> is its memory image of \<open>sz\<close> = \<^verbatim>\<open>size_of::<T>()\<close>
  bytes, a \<^verbatim>\<open>[T]\<close> the list of the images of its elements. \<open>chunks\<close> is how \<^verbatim>\<open>from_raw_parts_mut\<close> reads a
  byte buffer as \<open>n\<close> elements.
\<close>

definition chunks :: "nat \<Rightarrow> nat \<Rightarrow> bytes \<Rightarrow> bytes list" where
  "chunks sz n bs = map (\<lambda>i. bslice (i * sz) sz bs) [0..<n]"

record 'd SgxUnsealedData =
  ud_payload_size :: u32
  ud_decrypt :: 'd
  ud_additional :: bytes

definition SgxSealedData_seal_data ::
  "('w, 'z) tseal_ffi_scheme \<Rightarrow> usize \<Rightarrow> bytes mref \<Rightarrow> bytes mref \<Rightarrow> ('w, sgx_status_t, SgxInternalSealedData) io" where
  "SgxSealedData_seal_data P sz additional_text encrypt_text =
     (if sz = 0 then throwE SGX_ERROR_INVALID_PARAMETER else seal_data P additional_text encrypt_text)"

definition SgxSealedData_seal_data_ex ::
  "('w, 'z) tseal_ffi_scheme \<Rightarrow> usize \<Rightarrow> u16 \<Rightarrow> sgx_attributes_t \<Rightarrow> u32 \<Rightarrow> bytes mref \<Rightarrow> bytes mref
     \<Rightarrow> ('w, sgx_status_t, SgxInternalSealedData) io" where
  "SgxSealedData_seal_data_ex P sz key_policy attribute_mask misc_mask additional_text encrypt_text =
     (if sz = 0 then throwE SGX_ERROR_INVALID_PARAMETER
      else seal_data_ex P key_policy attribute_mask misc_mask additional_text encrypt_text)"

definition SgxSealedData_unseal_data ::
  "('w, 'z) tseal_ffi_scheme \<Rightarrow> usize \<Rightarrow> sealed_loc \<Rightarrow> SgxInternalSealedData
     \<Rightarrow> ('w, sgx_status_t, bytes SgxUnsealedData) io" where
  "SgxSealedData_unseal_data P sz loc self =
     (if sz = 0 then throwE SGX_ERROR_INVALID_PARAMETER
      else if sz \<noteq> unat (get_encrypt_txt_len self) then throwE SGX_ERROR_MAC_MISMATCH
      else bindE (unseal_data P loc self) (\<lambda>x. returnE
             \<lparr>ud_payload_size = u_payload_size x, ud_decrypt = bslice 0 sz (u_decrypt x),
              ud_additional = u_additional x\<rparr>))"

definition SgxSealedData_slice_seal_data ::
  "('w, 'z) tseal_ffi_scheme \<Rightarrow> usize \<Rightarrow> bytes mref \<Rightarrow> bytes list mref \<Rightarrow> ('w, sgx_status_t, SgxInternalSealedData) io" where
  "SgxSealedData_slice_seal_data P sz additional_text encrypt_text =
     (if sz = 0 \<or> length (concat (snd encrypt_text)) = 0 then throwE SGX_ERROR_INVALID_PARAMETER
      else seal_data P additional_text (fst encrypt_text, concat (snd encrypt_text)))"

definition SgxSealedData_slice_seal_data_ex ::
  "('w, 'z) tseal_ffi_scheme \<Rightarrow> usize \<Rightarrow> u16 \<Rightarrow> sgx_attributes_t \<Rightarrow> u32 \<Rightarrow> bytes mref \<Rightarrow> bytes list mref
     \<Rightarrow> ('w, sgx_status_t, SgxInternalSealedData) io" where
  "SgxSealedData_slice_seal_data_ex P sz key_policy attribute_mask misc_mask additional_text encrypt_text =
     (if sz = 0 \<or> length (concat (snd encrypt_text)) = 0 then throwE SGX_ERROR_INVALID_PARAMETER
      else seal_data_ex P key_policy attribute_mask misc_mask additional_text
             (fst encrypt_text, concat (snd encrypt_text)))"

definition SgxSealedData_slice_unseal_data ::
  "('w, 'z) tseal_ffi_scheme \<Rightarrow> usize \<Rightarrow> sealed_loc \<Rightarrow> SgxInternalSealedData
     \<Rightarrow> ('w, sgx_status_t, bytes list SgxUnsealedData) io" where
  "SgxSealedData_slice_unseal_data P sz loc self =
     (let encrypt_len = unat (get_encrypt_txt_len self)
      in if sz = 0 then throwE SGX_ERROR_INVALID_PARAMETER
         else if sz > encrypt_len then throwE SGX_ERROR_MAC_MISMATCH
         else if encrypt_len mod sz \<noteq> 0 then throwE SGX_ERROR_MAC_MISMATCH
         else bindE (unseal_data P loc self) (\<lambda>x. returnE
                \<lparr>ud_payload_size = u_payload_size x, ud_decrypt = chunks sz (encrypt_len div sz) (u_decrypt x),
                 ud_additional = u_additional x\<rparr>))"

definition SgxSealedData_from_raw_sealed_data_t ::
  "('w, 'z) tseal_ffi_scheme \<Rightarrow> usize \<Rightarrow> addr \<Rightarrow> (nat \<Rightarrow> bytes) \<Rightarrow> u32 \<Rightarrow> SgxInternalSealedData option outcome" where
  "SgxSealedData_from_raw_sealed_data_t P sz p mem len =
     (if sz = 0 then Ret None else from_raw_sealed_data_t P p mem len)"

section \<open>aad.rs: typed authenticated data\<close>

definition SgxMacAadata_mac_aadata ::
  "('w, 'z) tseal_ffi_scheme \<Rightarrow> usize \<Rightarrow> bytes mref \<Rightarrow> ('w, sgx_status_t, SgxInternalSealedData) io" where
  "SgxMacAadata_mac_aadata P sz additional_text =
     (if sz = 0 then throwE SGX_ERROR_INVALID_PARAMETER else mac_aadata P additional_text)"

definition SgxMacAadata_mac_aadata_ex ::
  "('w, 'z) tseal_ffi_scheme \<Rightarrow> usize \<Rightarrow> u16 \<Rightarrow> sgx_attributes_t \<Rightarrow> u32 \<Rightarrow> bytes mref
     \<Rightarrow> ('w, sgx_status_t, SgxInternalSealedData) io" where
  "SgxMacAadata_mac_aadata_ex P sz key_policy attribute_mask misc_mask additional_text =
     (if sz = 0 then throwE SGX_ERROR_INVALID_PARAMETER
      else mac_aadata_ex P key_policy attribute_mask misc_mask additional_text)"

definition SgxMacAadata_unmac_aadata ::
  "('w, 'z) tseal_ffi_scheme \<Rightarrow> usize \<Rightarrow> sealed_loc \<Rightarrow> SgxInternalSealedData \<Rightarrow> ('w, sgx_status_t, bytes) io" where
  "SgxMacAadata_unmac_aadata P sz loc self =
     (if sz = 0 then throwE SGX_ERROR_INVALID_PARAMETER
      else if sz \<noteq> unat (get_add_mac_txt_len self) then throwE SGX_ERROR_MAC_MISMATCH
      else bindE (unmac_aadata P loc self) (\<lambda>x. returnE (bslice 0 sz (u_additional x))))"

definition SgxMacAadata_slice_mac_aadata ::
  "('w, 'z) tseal_ffi_scheme \<Rightarrow> usize \<Rightarrow> bytes list mref \<Rightarrow> ('w, sgx_status_t, SgxInternalSealedData) io" where
  "SgxMacAadata_slice_mac_aadata P sz additional_text =
     (if sz = 0 \<or> length (concat (snd additional_text)) = 0 then throwE SGX_ERROR_INVALID_PARAMETER
      else mac_aadata P (fst additional_text, concat (snd additional_text)))"

definition SgxMacAadata_slice_mac_aadata_ex ::
  "('w, 'z) tseal_ffi_scheme \<Rightarrow> usize \<Rightarrow> u16 \<Rightarrow> sgx_attributes_t \<Rightarrow> u32 \<Rightarrow> bytes list mref
     \<Rightarrow> ('w, sgx_status_t, SgxInternalSealedData) io" where
  "SgxMacAadata_slice_mac_aadata_ex P sz key_policy attribute_mask misc_mask additional_text =
     (if sz = 0 \<or> length (concat (snd additional_text)) = 0 then throwE SGX_ERROR_INVALID_PARAMETER
      else mac_aadata_ex P key_policy attribute_mask misc_mask (fst additional_text, concat (snd additional_text)))"

definition SgxMacAadata_slice_unmac_aadata ::
  "('w, 'z) tseal_ffi_scheme \<Rightarrow> usize \<Rightarrow> sealed_loc \<Rightarrow> SgxInternalSealedData \<Rightarrow> ('w, sgx_status_t, bytes list) io" where
  "SgxMacAadata_slice_unmac_aadata P sz loc self =
     (let aad_len = unat (get_add_mac_txt_len self)
      in if sz = 0 then throwE SGX_ERROR_INVALID_PARAMETER
         else if sz > aad_len then throwE SGX_ERROR_MAC_MISMATCH
         else if aad_len mod sz \<noteq> 0 then throwE SGX_ERROR_MAC_MISMATCH
         else bindE (unmac_aadata P loc self) (\<lambda>x. returnE (chunks sz (aad_len div sz) (u_additional x))))"

definition SgxMacAadata_from_raw_sealed_data_t ::
  "('w, 'z) tseal_ffi_scheme \<Rightarrow> usize \<Rightarrow> addr \<Rightarrow> (nat \<Rightarrow> bytes) \<Rightarrow> u32 \<Rightarrow> SgxInternalSealedData option outcome" where
  "SgxMacAadata_from_raw_sealed_data_t P sz p mem len =
     (if sz = 0 then Ret None else from_raw_sealed_data_t P p mem len)"

end
