(* ===== verification/Sgx_Tseal_Proofs.thy ===== *)
theory Sgx_Tseal_Proofs
  imports Sgx_Tseal
begin

text \<open>
  Correctness of the sealing library: sizes, raw form, round trips, and the guarantees of unsealing.
\<close>

section \<open>Sizes\<close>

lemma unat_calc_raw_sealed_data_size:
  "unat (calc_raw_sealed_data_size a e) = min u32_max_nat (560 + unat a + unat e)"
proof -
  have s: "U32_MAX - as_u32 560 = 0xFFFFFDCF" "unat (as_u32 560) = 560" by (simp_all add: U32_MAX_def as_u32_def)
  have m: "unat (U32_MAX - e) = u32_max_nat - unat e"
  proof -
    have "e \<le> U32_MAX" using unat_le_U32_MAX [of e] by (simp add: word_le_nat_alt)
    then show ?thesis by (simp add: unat_sub)
  qed
  show ?thesis
  proof (cases "unat a + unat e \<le> u32_max_nat")
    case True
    then have sum: "unat (a + e) = unat a + unat e" by (simp add: unat_word_ariths)
    from True m have c: "\<not> a > U32_MAX - e" by (simp add: word_less_nat_alt)
    show ?thesis
    proof (cases "unat a + unat e \<le> 0xFFFFFDCF")
      case True
      then have "unat (as_u32 560 + (a + e)) = 560 + unat a + unat e" by (simp add: unat_word_ariths sum s)
      with True c sum show ?thesis by (simp add: calc_raw_sealed_data_size_def Let_def s word_less_nat_alt)
    next
      case False
      with c sum show ?thesis by (simp add: calc_raw_sealed_data_size_def Let_def s word_less_nat_alt)
    qed
  next
    case False
    with m unat_le_U32_MAX [of e] have "a > U32_MAX - e" unfolding word_less_nat_alt by simp
    with False show ?thesis by (simp add: calc_raw_sealed_data_size_def)
  qed
qed

lemma calc_max_iff: "calc_raw_sealed_data_size a e = U32_MAX \<longleftrightarrow> 560 + unat a + unat e \<ge> u32_max_nat"
  using unat_calc_raw_sealed_data_size [of a e] by (auto simp: word_unat_eq_iff)

lemma txt_len_max_iff: "txt_len d ps = U32_MAX \<longleftrightarrow> length d > unat ps \<or> length d \<ge> u32_max_nat"
  by (auto simp: txt_len_def word_unat_eq_iff Let_def split: if_splits)

lemma unat_txt_len: "txt_len d ps \<noteq> U32_MAX \<Longrightarrow> unat (txt_len d ps) = length d"
  by (auto simp: txt_len_def Let_def split: if_splits)

section \<open>Sealed objects\<close>

text \<open>
  The invariant of a sealed object: the payload size is the length of the two texts, and the raw form
  fits in 32 bits.
\<close>

definition sealed_ok :: "SgxInternalSealedData \<Rightarrow> bool" where
  "sealed_ok sd \<longleftrightarrow>
     unat (payload_size (payload_data sd)) = length (encrypt (payload_data sd)) + length (additional (payload_data sd)) \<and>
     560 + unat (payload_size (payload_data sd)) < u32_max_nat \<and>
     length (payload_tag (payload_data sd)) = 16 \<and> pl_reserved (payload_data sd) = zeros 12 \<and>
     wf_key_request (key_request sd)"

lemma sealed_ok_lens:
  assumes "sealed_ok sd"
  shows "unat (get_add_mac_txt_len sd) = length (additional (payload_data sd))"
    and "unat (get_encrypt_txt_len sd) = length (encrypt (payload_data sd))"
    and "get_add_mac_txt_len sd \<noteq> U32_MAX" and "get_encrypt_txt_len sd \<noteq> U32_MAX"
    and "get_add_mac_txt_len sd + get_encrypt_txt_len sd = payload_size (payload_data sd)"
    and "calc_raw_sealed_data_size (get_add_mac_txt_len sd) (get_encrypt_txt_len sd) \<noteq> U32_MAX"
proof -
  show a: "get_add_mac_txt_len sd \<noteq> U32_MAX" and e: "get_encrypt_txt_len sd \<noteq> U32_MAX"
    using assms by (auto simp: get_add_mac_txt_len_def get_encrypt_txt_len_def txt_len_max_iff sealed_ok_def)
  show ua: "unat (get_add_mac_txt_len sd) = length (additional (payload_data sd))"
    and ue: "unat (get_encrypt_txt_len sd) = length (encrypt (payload_data sd))"
    using a e by (simp_all add: get_add_mac_txt_len_def get_encrypt_txt_len_def unat_txt_len)
  have "unat (get_add_mac_txt_len sd + get_encrypt_txt_len sd) = unat (payload_size (payload_data sd))"
    using assms by (simp add: unat_word_ariths ua ue sealed_ok_def)
  then show "get_add_mac_txt_len sd + get_encrypt_txt_len sd = payload_size (payload_data sd)"
    by (simp add: word_unat_eq_iff)
  show "calc_raw_sealed_data_size (get_add_mac_txt_len sd) (get_encrypt_txt_len sd) \<noteq> U32_MAX"
    using assms by (simp add: calc_max_iff ua ue sealed_ok_def)
qed

lemma seal_with_fresh_key_ok:
  assumes "seal_with_fresh_key P kp am mm add enc w = (Inr sd, w')"
    and "560 + length enc + length add < u32_max_nat"
  shows "sealed_ok sd" and "additional (payload_data sd) = add"
    and "length (encrypt (payload_data sd)) = length enc"
    and "kr_key_name (key_request sd) = SGX_KEYSELECT_SEAL" and "kr_key_policy (key_request sd) = kp"
    and "kr_attribute_mask (key_request sd) = am" and "kr_misc_mask (key_request sd) = mm"
proof -
  have "unat (as_u32 (length enc + length add)) = length enc + length add" using assms(2) by simp
  moreover have "length (cpu_svn (body (rsgx_self_report P w))) = 16"
    using wf_rsgx_self_report [of P w] by (simp add: wf_report_def wf_report_body_def)
  ultimately show "sealed_ok sd" "additional (payload_data sd) = add"
    "length (encrypt (payload_data sd)) = length enc"
    "kr_key_name (key_request sd) = SGX_KEYSELECT_SEAL" "kr_key_policy (key_request sd) = kp"
    "kr_attribute_mask (key_request sd) = am" "kr_misc_mask (key_request sd) = mm"
    using assms
    by (auto simp: seal_with_fresh_key_def seal_data_iv_def rsgx_rijndael128GCM_encrypt_def rsgx_read_rand_def
        Let_def SgxInternalSealedData_new_def sealed_ok_def write_dst_def wf_key_request_def
        elim!: bindE_InrE map_errW_InrE split: prod.splits sum.splits if_splits)
qed

lemma seal_data_ex_ok:
  assumes "seal_data_ex P kp am mm add enc w = (Inr sd, w')"
  shows "seal_with_fresh_key P kp am mm (snd add) (snd enc) w = (Inr sd, w')"
    and "560 + length (snd enc) + length (snd add) < u32_max_nat" and "snd enc \<noteq> []"
    and "key_policy_ok kp" and "attribute_mask_ok am"
proof -
  show "seal_with_fresh_key P kp am mm (snd add) (snd enc) w = (Inr sd, w')" "snd enc \<noteq> []"
    "key_policy_ok kp" "attribute_mask_ok am"
    using assms by (auto simp: seal_data_ex_def Let_def split: if_splits)
  have "length (snd add) < u32_max_nat" "length (snd enc) < u32_max_nat"
    "calc_raw_sealed_data_size (as_u32 (length (snd add))) (as_u32 (length (snd enc))) \<noteq> U32_MAX"
    using assms by (auto simp: seal_data_ex_def Let_def split: if_splits)
  then show "560 + length (snd enc) + length (snd add) < u32_max_nat" by (simp add: calc_max_iff)
qed

lemma mac_aadata_ex_ok:
  assumes "mac_aadata_ex P kp am mm add w = (Inr sd, w')"
  shows "seal_with_fresh_key P kp am mm (snd add) [] w = (Inr sd, w')"
    and "560 + length (snd add) < u32_max_nat" and "snd add \<noteq> []"
proof -
  show "seal_with_fresh_key P kp am mm (snd add) [] w = (Inr sd, w')" "snd add \<noteq> []"
    using assms by (auto simp: mac_aadata_ex_def Let_def split: if_splits)
  have "length (snd add) < u32_max_nat" "calc_raw_sealed_data_size (as_u32 (length (snd add))) 0 \<noteq> U32_MAX"
    using assms by (auto simp: mac_aadata_ex_def Let_def split: if_splits)
  then show "560 + length (snd add) < u32_max_nat" by (simp add: calc_max_iff)
qed

section \<open>The raw form\<close>

text \<open>The documented behaviour of the foreign size functions.\<close>

definition size_laws :: "('w, 'z) tseal_ffi_scheme \<Rightarrow> bool" where
  "size_laws P \<longleftrightarrow>
     (\<forall>a e. unat (sgx_calc_sealed_data_size P a e) = min u32_max_nat (560 + unat a + unat e)) \<and>
     (\<forall>h. sgx_get_add_mac_txt_len P h =
        (if dec32 (bslice 512 4 h) > dec32 (bslice 528 4 h) then U32_MAX
         else dec32 (bslice 528 4 h) - dec32 (bslice 512 4 h))) \<and>
     (\<forall>h. sgx_get_encrypt_txt_len P h =
        (if dec32 (bslice 512 4 h) > dec32 (bslice 528 4 h) then U32_MAX else dec32 (bslice 512 4 h)))"

definition sealed_header :: "SgxInternalSealedData \<Rightarrow> bytes \<Rightarrow> bytes" where
  "sealed_header sd mem =
     key_request_to_bytes (key_request sd) @ enc32 (get_encrypt_txt_len sd) @ bslice 516 12 mem @
     enc32 (payload_size (payload_data sd)) @ bslice 532 12 mem @ payload_tag (payload_data sd)"

lemma length_sealed_header [simp]: "sealed_ok sd \<Longrightarrow> 560 \<le> length mem \<Longrightarrow> length (sealed_header sd mem) = 560"
  by (simp add: sealed_header_def sealed_ok_def)

lemma sealed_header_fields:
  assumes "sealed_ok sd" and "560 \<le> length mem"
  shows "bslice 512 4 (sealed_header sd mem) = enc32 (get_encrypt_txt_len sd)"
    and "bslice 528 4 (sealed_header sd mem) = enc32 (payload_size (payload_data sd))"
    and "bslice 544 16 (sealed_header sd mem) = payload_tag (payload_data sd)"
    and "bslice 0 512 (sealed_header sd mem) = key_request_to_bytes (key_request sd)"
  using assms by (simp_all add: sealed_header_def sealed_ok_def codec_slices)

lemma splice_parts:
  assumes "length mem = 560 + length e + length a + n"
  shows "bsplice (560 + length e) a (bsplice 560 e mem) = take 560 mem @ e @ a @ drop (560 + length e + length a) mem"
  using assms by (simp add: bsplice_def ac_simps)

lemma header_splices:
  assumes "length hdr = 560" and "length kr = 512" and "length pto = 4" and "length ps = 4" and "length tag = 16"
  shows "bsplice 544 tag (bsplice 528 ps (bsplice 512 pto (bsplice 0 kr (hdr @ rest)))) =
     kr @ pto @ bslice 516 12 hdr @ ps @ bslice 532 12 hdr @ tag @ rest"
  using assms by (simp add: bsplice_def bslice_def take_append drop_take)

definition raw_accessible :: "('w, 'z) trts_ffi_scheme \<Rightarrow> addr \<Rightarrow> u32 \<Rightarrow> bool" where
  "raw_accessible P p len \<longleftrightarrow>
     p \<noteq> 0 \<and> (rsgx_raw_is_within_enclave P p (unat len) \<or> rsgx_raw_is_outside_enclave P p (unat len))"

lemma to_raw_sealed_closed:
  assumes "size_laws P" and "sealed_ok sd" and "raw_accessible P p len"
    and "560 + unat (payload_size (payload_data sd)) \<le> unat len" and "unat len \<le> length mem"
  shows "to_raw_sealed_data_t P sd (p, mem) len = Ret (Some p,
           sealed_header sd mem @ encrypt (payload_data sd) @ additional (payload_data sd) @
           drop (560 + unat (payload_size (payload_data sd))) mem)"
proof -
  let ?e = "encrypt (payload_data sd)" and ?a = "additional (payload_data sd)"
  note lens = sealed_ok_lens [OF assms(2)]
  have ps: "unat (payload_size (payload_data sd)) = length ?e + length ?a"
    and ok: "560 + length ?e + length ?a < u32_max_nat" "length (payload_tag (payload_data sd)) = 16"
      "wf_key_request (key_request sd)"
    using assms(2) by (simp_all add: sealed_ok_def)
  have calc: "unat (sgx_calc_sealed_data_size P (get_add_mac_txt_len sd) (get_encrypt_txt_len sd)) = 560 + length ?e + length ?a"
    using assms(1) ok(1) by (simp add: size_laws_def lens)
  have g: "sgx_calc_sealed_data_size P (get_add_mac_txt_len sd) (get_encrypt_txt_len sd) \<noteq> U32_MAX"
    "\<not> len < sgx_calc_sealed_data_size P (get_add_mac_txt_len sd) (get_encrypt_txt_len sd)"
    using calc ok(1) assms(4) by (auto simp: word_less_nat_alt word_unat_eq_iff ps)
  have pos: "get_encrypt_txt_len sd > 0 \<longleftrightarrow> ?e \<noteq> []" "get_add_mac_txt_len sd > 0 \<longleftrightarrow> ?a \<noteq> []"
    by (simp_all add: word_less_nat_alt lens)
  have big: "length mem = 560 + length ?e + length ?a + (length mem - (560 + length ?e + length ?a))"
    using assms(4,5) ps by simp
  have guard: "(if xs \<noteq> [] then bsplice n xs m else m) = bsplice n xs m" for n xs and m :: bytes
    by (simp add: bsplice_def)
  note parts = splice_parts [OF big]
  have hdr: "bsplice 544 (payload_tag (payload_data sd)) (bsplice 528 (enc32 (payload_size (payload_data sd)))
      (bsplice 512 (enc32 (get_encrypt_txt_len sd)) (bsplice 0 (key_request_to_bytes (key_request sd))
      (take 560 mem @ rest)))) = sealed_header sd mem @ rest" for rest
    using header_splices [of "take 560 mem"] ok(2,3) big
    by (simp add: sealed_header_def bslice_def drop_take)
  show ?thesis
    using assms(3,4,5) g lens(3-5) ps
    by (simp add: to_raw_sealed_data_t_def Let_def raw_accessible_def lens(1,2) pos guard parts hdr add.assoc)
qed

lemma from_raw_sealed_closed:
  assumes "size_laws P" and "sealed_ok sd" and "raw_accessible P p len"
    and "560 + unat (payload_size (payload_data sd)) \<le> unat len" and "560 \<le> length mem"
  shows "from_raw_sealed_data_t P p (\<lambda>_. sealed_header sd mem @ encrypt (payload_data sd) @
           additional (payload_data sd) @ rest) len = Ret (Some sd)"
proof -
  let ?e = "encrypt (payload_data sd)" and ?a = "additional (payload_data sd)"
  let ?m = "sealed_header sd mem @ ?e @ ?a @ rest"
  note lens = sealed_ok_lens [OF assms(2)] and hl = length_sealed_header [OF assms(2,5)]
  note fields = sealed_header_fields [OF assms(2,5)]
  have ps: "unat (payload_size (payload_data sd)) = length ?e + length ?a"
    and ok: "560 + length ?e + length ?a < u32_max_nat" using assms(2) by (simp_all add: sealed_ok_def)
  have m: "bslice 512 4 ?m = enc32 (get_encrypt_txt_len sd)" "bslice 528 4 ?m = enc32 (payload_size (payload_data sd))"
    "bslice 544 16 ?m = payload_tag (payload_data sd)" "bslice 0 512 ?m = key_request_to_bytes (key_request sd)"
    "bslice 0 560 ?m = sealed_header sd mem" "bslice 560 (length ?e) ?m = ?e"
    "bslice (560 + length ?e) (length ?a) ?m = ?a"
    using hl fields by (simp_all add: bslice_append_left bslice_append_right bslice_all)
  have le: "\<not> get_encrypt_txt_len sd > payload_size (payload_data sd)" by (simp add: word_less_nat_alt lens ps)
  have ffi: "sgx_get_add_mac_txt_len P (sealed_header sd mem) = get_add_mac_txt_len sd"
    "sgx_get_encrypt_txt_len P (sealed_header sd mem) = get_encrypt_txt_len sd"
    using assms(1) le lens(5) by (auto simp: size_laws_def fields diff_eq_eq)
  have calc: "unat (sgx_calc_sealed_data_size P (get_add_mac_txt_len sd) (get_encrypt_txt_len sd)) = 560 + length ?e + length ?a"
    using assms(1) ok by (simp add: size_laws_def lens)
  have g: "sgx_calc_sealed_data_size P (get_add_mac_txt_len sd) (get_encrypt_txt_len sd) \<noteq> U32_MAX"
    "\<not> len < sgx_calc_sealed_data_size P (get_add_mac_txt_len sd) (get_encrypt_txt_len sd)"
    using calc ok assms(4) by (auto simp: word_less_nat_alt word_unat_eq_iff ps)
  have pos: "get_encrypt_txt_len sd > 0 \<longleftrightarrow> ?e \<noteq> []" "get_add_mac_txt_len sd > 0 \<longleftrightarrow> ?a \<noteq> []"
    by (simp_all add: word_less_nat_alt lens)
  have "wf_key_request (key_request sd)" "pl_reserved (payload_data sd) = zeros 12"
    using assms(2) by (simp_all add: sealed_ok_def)
  then show ?thesis
    using assms(3,4) g lens(3-5) le hl ps
    by (simp add: from_raw_sealed_data_t_def Let_def raw_accessible_def lens(1,2) pos m ffi add.assoc)
qed

section \<open>The cryptography\<close>

text \<open>
  The documented behaviour of AES-GCM, as a function \<open>E\<close> from key, nonce, associated data and plain text
  to cipher text and tag: decryption returns the text whose encryption it was given, or fails. And of
  the key derivation, a partial function \<open>K\<close> of the key request. With \<open>b\<close>, calls do not fail otherwise.
\<close>

definition gcm_laws ::
  "bool \<Rightarrow> ('w, 'z) tcrypto_ffi_scheme \<Rightarrow> (bytes \<Rightarrow> bytes \<Rightarrow> bytes \<Rightarrow> bytes \<Rightarrow> bytes \<times> bytes) \<Rightarrow> bool" where
  "gcm_laws b P E \<longleftrightarrow>
     (\<forall>k iv aad pt. length (fst (E k iv aad pt)) = length pt \<and> length (snd (E k iv aad pt)) = 16) \<and>
     (\<forall>k iv aad pt w ret ct tag w'. sgx_rijndael128GCM_encrypt P k pt iv aad w = ((ret, ct, tag), w') \<longrightarrow>
        (if ret = SGX_SUCCESS then (ct, tag) = E k iv aad pt else \<not> b)) \<and>
     (\<forall>k iv aad ct tag w ret out w'. sgx_rijndael128GCM_decrypt P k ct iv aad tag w = ((ret, out), w') \<longrightarrow>
        (if ret = SGX_SUCCESS then E k iv aad out = (ct, tag) else b \<longrightarrow> (\<forall>pt. E k iv aad pt \<noteq> (ct, tag))))"

definition key_laws :: "bool \<Rightarrow> ('w, 'z) tse_ffi_scheme \<Rightarrow> (bytes \<Rightarrow> bytes option) \<Rightarrow> bool" where
  "key_laws b P K \<longleftrightarrow>
     (\<forall>kr w ret out w'. sgx_get_key P kr w = ((ret, out), w') \<longrightarrow>
        (if ret = SGX_SUCCESS then K kr = Some out \<and> length out = 16 else b \<longrightarrow> K kr = None))"

lemma write_dst_fresh: "length out = length src \<Longrightarrow> write_dst src (zeros (length src)) out = out"
  by (auto simp: write_dst_def bsplice_all)

lemma seal_data_iv_law:
  assumes "gcm_laws b P E" and "key_laws b P K" and "seal_data_iv P add enc iv kr w = (Inr sd, w')"
  obtains k where "K (key_request_to_bytes kr) = Some k"
    "E k iv add enc = (encrypt (payload_data sd), payload_tag (payload_data sd))"
proof -
  from assms(3) obtain k w1 where k: "rsgx_get_align_key P kr w = (Inr k, w1)"
    and e: "(case rsgx_rijndael128GCM_encrypt P k enc iv add (zeros (length enc)) (zeros 16) w1 of
         ((Inl e, _), w') \<Rightarrow> (Inl e, w')
       | ((Inr _, ct, tag), w') \<Rightarrow>
           (Inr (SgxInternalSealedData_new\<lparr>payload_data :=
              (payload_data SgxInternalSealedData_new)\<lparr>encrypt := ct, payload_tag := tag,
                payload_size := as_u32 (length enc + length add),
                additional := (if add \<noteq> [] then add else [])\<rparr>\<rparr>), w')) = (Inr sd, w')"
    unfolding seal_data_iv_def by (elim bindE_InrE map_errW_InrE)
  obtain out where o: "sgx_get_key P (key_request_to_bytes kr) w = ((SGX_SUCCESS, out), w1)" "k = fit 16 out"
    using k by (auto simp: rsgx_get_align_key_def split: prod.splits)
  with assms(2) have K: "K (key_request_to_bytes kr) = Some k" unfolding key_laws_def by (metis fit_id)
  obtain ct tag where c: "sgx_rijndael128GCM_encrypt P k enc iv add w1 = ((SGX_SUCCESS, ct, tag), w')"
    and sd: "encrypt (payload_data sd) = write_dst enc (zeros (length enc)) ct" "payload_tag (payload_data sd) = fit 16 tag"
    using e by (auto simp: rsgx_rijndael128GCM_encrypt_def split: prod.splits sum.splits if_splits)
  have E: "(ct, tag) = E k iv add enc" using assms(1) c unfolding gcm_laws_def by metis
  then have "length ct = length enc" "length tag = 16"
    using assms(1) unfolding gcm_laws_def by (metis fst_conv snd_conv)+
  with sd E K that show ?thesis by (simp add: write_dst_fresh)
qed

lemma unseal_helper_law:
  assumes "gcm_laws b P E" and "key_laws b P K" and "unseal_data_helper P sd w = (Inr u, w')"
  obtains k where "K (key_request_to_bytes (key_request sd)) = Some k"
    "E k (zeros 12) (additional (payload_data sd)) (u_decrypt u) = (encrypt (payload_data sd), payload_tag (payload_data sd))"
    "u_additional u = additional (payload_data sd)" "u_payload_size u = payload_size (payload_data sd)"
proof -
  let ?e = "encrypt (payload_data sd)" and ?a = "additional (payload_data sd)" and ?t = "payload_tag (payload_data sd)"
  from assms(3) obtain k w1 where k: "rsgx_get_align_key P (key_request sd) w = (Inr k, w1)"
    and d: "(case rsgx_rijndael128GCM_decrypt P k ?e (zeros 12) ?a ?t (zeros (length ?e)) w1 of
         ((Inl e, _), w') \<Rightarrow> (Inl e, w')
       | ((Inr _, dec), w') \<Rightarrow>
           (Inr \<lparr>u_payload_size = payload_size (payload_data sd), u_decrypt = dec,
                 u_additional = (if length ?a > 0 then ?a else [])\<rparr>, w')) = (Inr u, w')"
    unfolding unseal_data_helper_def by (elim bindE_InrE map_errW_InrE)
  obtain out where o: "sgx_get_key P (key_request_to_bytes (key_request sd)) w = ((SGX_SUCCESS, out), w1)" "k = fit 16 out"
    using k by (auto simp: rsgx_get_align_key_def split: prod.splits)
  with assms(2) have K: "K (key_request_to_bytes (key_request sd)) = Some k" unfolding key_laws_def by (metis fit_id)
  obtain dec where c: "sgx_rijndael128GCM_decrypt P k ?e (zeros 12) ?a ?t w1 = ((SGX_SUCCESS, dec), w')"
    and u: "u_decrypt u = write_dst ?e (zeros (length ?e)) dec" "u_additional u = ?a"
      "u_payload_size u = payload_size (payload_data sd)"
    using d by (auto simp: rsgx_rijndael128GCM_decrypt_def split: prod.splits sum.splits if_splits)
  have E: "E k (zeros 12) ?a dec = (?e, ?t)" using assms(1) c unfolding gcm_laws_def by metis
  then have "length dec = length ?e" using assms(1) unfolding gcm_laws_def by (metis fst_conv)
  with u E K that show ?thesis by (simp add: write_dst_fresh)
qed

lemma unseal_helper_runs:
  assumes "gcm_laws True P E" and "key_laws True P K" and "K (key_request_to_bytes (key_request sd)) = Some k"
    and "E k (zeros 12) (additional (payload_data sd)) pt = (encrypt (payload_data sd), payload_tag (payload_data sd))"
    and "sealed_ok sd"
  obtains u w' where "unseal_data_helper P sd w = (Inr u, w')"
proof -
  let ?e = "encrypt (payload_data sd)" and ?a = "additional (payload_data sd)" and ?t = "payload_tag (payload_data sd)"
  obtain ret out w1 where g: "sgx_get_key P (key_request_to_bytes (key_request sd)) w = ((ret, out), w1)"
    by (metis prod.exhaust)
  with assms(2,3) have r: "ret = SGX_SUCCESS" "out = k" "length k = 16"
    unfolding key_laws_def by (metis option.distinct(1) option.inject)+
  obtain ret' dec w2 where d: "sgx_rijndael128GCM_decrypt P k ?e (zeros 12) ?a ?t w1 = ((ret', dec), w2)"
    by (metis prod.exhaust)
  with assms(1,4) have "ret' = SGX_SUCCESS" unfolding gcm_laws_def by metis
  moreover have "gcm_lengths_ok ?e (zeros 12) ?a (zeros (length ?e))"
    using assms(5) by (simp add: gcm_lengths_ok_def sealed_ok_def)
  ultimately show ?thesis
    using g r d that
    by (simp add: unseal_data_helper_def bindE_def map_errW_def rsgx_get_align_key_def rsgx_rijndael128GCM_decrypt_def)
qed

text \<open>
  The memory checks of \<^verbatim>\<open>unseal_data\<close> and \<^verbatim>\<open>unmac_aadata\<close>: the object and its texts are in the enclave.
\<close>

definition loc_inside :: "('w, 'z) trts_ffi_scheme \<Rightarrow> sealed_loc \<Rightarrow> SgxInternalSealedData \<Rightarrow> bool" where
  "loc_inside P loc sd \<longleftrightarrow>
     rsgx_raw_is_within_enclave P (at_self loc) (sz_self loc) \<and>
     rsgx_slice_is_within_enclave P (at_encrypt loc, encrypt (payload_data sd)) \<and>
     rsgx_slice_is_within_enclave P (at_additional loc, additional (payload_data sd))"

lemma unseal_data_guards:
  assumes "sealed_ok sd" and "loc_inside P loc sd" and "encrypt (payload_data sd) \<noteq> []"
  shows "unseal_data P loc sd = unseal_data_helper P sd"
proof -
  note lens = sealed_ok_lens [OF assms(1)]
  have "0 < length (encrypt (payload_data sd))" using assms(3) by simp
  then have "\<not> get_encrypt_txt_len sd < 1" by (simp add: word_less_nat_alt lens(2))
  with assms(2) lens(3-) show ?thesis by (simp add: unseal_data_def Let_def loc_inside_def)
qed

lemma unmac_aadata_guards:
  assumes "sealed_ok sd" and "loc_inside P loc sd" and "encrypt (payload_data sd) = []"
    and "additional (payload_data sd) \<noteq> []"
  shows "unmac_aadata P loc sd = unseal_data_helper P sd"
proof -
  note lens = sealed_ok_lens [OF assms(1)]
  have z: "get_encrypt_txt_len sd = 0" using lens(2) assms(3) by (simp add: unat_eq_0)
  have "0 < length (additional (payload_data sd))" using assms(4) by simp
  then have "\<not> get_add_mac_txt_len sd < 1" by (simp add: word_less_nat_alt lens(1))
  with assms(2) lens(3,5,6) z show ?thesis
    by (simp add: unmac_aadata_def Let_def loc_inside_def) (simp add: U32_MAX_def)
qed

lemma fresh_key_law:
  assumes "gcm_laws b P E" and "key_laws b P K" and "seal_with_fresh_key P kp am mm add enc w = (Inr sd, w')"
  obtains k where "K (key_request_to_bytes (key_request sd)) = Some k"
    "E k (zeros 12) add enc = (encrypt (payload_data sd), payload_tag (payload_data sd))"
proof -
  from assms(3) obtain kr sd0 w1 where
    s: "seal_data_iv P add enc (zeros 12) kr w1 = (Inr sd0, w')" and sd: "sd = sd0\<lparr>key_request := kr\<rparr>"
    by (auto simp: seal_with_fresh_key_def Let_def elim!: bindE_InrE split: prod.splits sum.splits)
  obtain k where "K (key_request_to_bytes kr) = Some k"
    "E k (zeros 12) add enc = (encrypt (payload_data sd0), payload_tag (payload_data sd0))"
    by (rule seal_data_iv_law [OF assms(1,2) s])
  with that show ?thesis by (simp add: sd)
qed

text \<open>Unsealing an object that carries the encryption of \<open>pt\<close> returns \<open>pt\<close>.\<close>

lemma unseal_helper_returns:
  assumes "gcm_laws True P E" and "key_laws True P K" and "\<And>k iv aad. inj (E k iv aad)"
    and "K (key_request_to_bytes (key_request sd)) = Some k" and "sealed_ok sd"
    and "E k (zeros 12) (additional (payload_data sd)) pt = (encrypt (payload_data sd), payload_tag (payload_data sd))"
  shows "\<exists>w'. unseal_data_helper P sd w = (Inr \<lparr>u_payload_size = payload_size (payload_data sd), u_decrypt = pt,
           u_additional = additional (payload_data sd)\<rparr>, w')"
proof -
  obtain u w' where u: "unseal_data_helper P sd w = (Inr u, w')"
    by (rule unseal_helper_runs [OF assms(1,2,4,6,5)])
  obtain k' where k: "K (key_request_to_bytes (key_request sd)) = Some k'"
    "E k' (zeros 12) (additional (payload_data sd)) (u_decrypt u) = (encrypt (payload_data sd), payload_tag (payload_data sd))"
    "u_additional u = additional (payload_data sd)" "u_payload_size u = payload_size (payload_data sd)"
    by (rule unseal_helper_law [OF assms(1,2) u])
  with assms(4,6) have "E k (zeros 12) (additional (payload_data sd)) (u_decrypt u) =
      E k (zeros 12) (additional (payload_data sd)) pt" by simp
  with assms(3) have "u_decrypt u = pt" by (meson injD)
  with u k(3,4) show ?thesis by (cases u) simp
qed

text \<open>
  A platform for the witnesses: encryption is a bitwise complement, the tag is the key, every key
  request has a key, and all memory is inside the enclave.
\<close>

definition sim_E :: "bytes \<Rightarrow> bytes \<Rightarrow> bytes \<Rightarrow> bytes \<Rightarrow> bytes \<times> bytes" where
  "sim_E k iv aad pt = (map NOT pt, fit 16 k)"

definition seal_sim :: "unit tseal_ffi" where
  "seal_sim =
     \<lparr>sgx_is_within_enclave = (\<lambda>_ _. 1), sgx_is_outside_enclave = (\<lambda>_ _. 0),
      sgx_read_rand = (\<lambda>n w. ((SGX_SUCCESS, replicate n 3), w)),
      sgx_create_report = (\<lambda>_ _ w. ((SGX_SUCCESS, zeros 432), w)), sgx_verify_report = (\<lambda>_ w. (SGX_SUCCESS, w)),
      sgx_get_key = (\<lambda>kr w. ((SGX_SUCCESS, fit 16 kr), w)), sgx_self_report = (\<lambda>_. zeros 432),
      sgx_sha256_msg = (\<lambda>_ w. ((SGX_SUCCESS, zeros 32), w)), sgx_sha256_init = (\<lambda>w. ((SGX_SUCCESS, 1), w)),
      sgx_sha256_update = (\<lambda>_ _ w. (SGX_SUCCESS, w)), sgx_sha256_get_hash = (\<lambda>_ w. ((SGX_SUCCESS, zeros 32), w)),
      sgx_sha256_close = (\<lambda>_ w. (SGX_SUCCESS, w)), sgx_sha384_init = (\<lambda>w. ((SGX_SUCCESS, 1), w)),
      sgx_sha384_update = (\<lambda>_ _ w. (SGX_SUCCESS, w)), sgx_sha384_get_hash = (\<lambda>_ w. ((SGX_SUCCESS, zeros 48), w)),
      sgx_sha384_close = (\<lambda>_ w. (SGX_SUCCESS, w)), sgx_sha1_init = (\<lambda>w. ((SGX_SUCCESS, 1), w)),
      sgx_sha1_update = (\<lambda>_ _ w. (SGX_SUCCESS, w)), sgx_sha1_get_hash = (\<lambda>_ w. ((SGX_SUCCESS, zeros 20), w)),
      sgx_sha1_close = (\<lambda>_ w. (SGX_SUCCESS, w)), sgx_rijndael128_cmac_msg = (\<lambda>_ _ w. ((SGX_SUCCESS, zeros 16), w)),
      sgx_cmac128_init = (\<lambda>_ w. ((SGX_SUCCESS, 1), w)), sgx_cmac128_update = (\<lambda>_ _ w. (SGX_SUCCESS, w)),
      sgx_cmac128_final = (\<lambda>_ w. ((SGX_SUCCESS, zeros 16), w)), sgx_cmac128_close = (\<lambda>_ w. (SGX_SUCCESS, w)),
      sgx_hmac256_init = (\<lambda>_ w. ((SGX_SUCCESS, 1), w)), sgx_hmac256_update = (\<lambda>_ _ w. (SGX_SUCCESS, w)),
      sgx_hmac256_final = (\<lambda>_ w. ((SGX_SUCCESS, zeros 32), w)), sgx_hmac256_close = (\<lambda>_ w. (SGX_SUCCESS, w)),
      sgx_ecc256_open_context = (\<lambda>w. ((SGX_SUCCESS, 1), w)), sgx_ecc256_close_context = (\<lambda>_ w. (SGX_SUCCESS, w)),
      sgx_ecc256_create_key_pair = (\<lambda>_ w. ((SGX_SUCCESS, zeros 32, zeros 64), w)),
      sgx_ecc256_check_point = (\<lambda>_ _ w. ((SGX_SUCCESS, 1), w)),
      sgx_ecc256_compute_shared_dhkey = (\<lambda>_ _ _ w. ((SGX_SUCCESS, zeros 32), w)),
      sgx_rijndael128GCM_encrypt = (\<lambda>k pt iv aad w. ((SGX_SUCCESS, map NOT pt, fit 16 k), w)),
      sgx_rijndael128GCM_decrypt = (\<lambda>k ct iv aad tag w.
        if tag = fit 16 k then ((SGX_SUCCESS, map NOT ct), w) else ((SGX_ERROR_MAC_MISMATCH, []), w)),
      sgx_calc_sealed_data_size = calc_raw_sealed_data_size,
      sgx_get_add_mac_txt_len = (\<lambda>h. if dec32 (bslice 512 4 h) > dec32 (bslice 528 4 h) then U32_MAX
         else dec32 (bslice 528 4 h) - dec32 (bslice 512 4 h)),
      sgx_get_encrypt_txt_len = (\<lambda>h. if dec32 (bslice 512 4 h) > dec32 (bslice 528 4 h) then U32_MAX
         else dec32 (bslice 512 4 h))\<rparr>"

lemma seal_sim_laws:
  "gcm_laws b seal_sim sim_E" "key_laws b seal_sim (\<lambda>kr. Some (fit 16 kr))" "inj (sim_E k iv aad)" "size_laws seal_sim"
proof -
  have n: "map NOT (map NOT xs) = xs" for xs :: bytes by (simp add: comp_def)
  show "gcm_laws b seal_sim sim_E"
    by (auto simp: gcm_laws_def seal_sim_def sim_E_def comp_def)
  show "inj (sim_E k iv aad)" by (auto simp: inj_def sim_E_def dest: arg_cong [where f = "map NOT"] simp: n)
qed (auto simp: key_laws_def seal_sim_def size_laws_def unat_calc_raw_sealed_data_size)

lemma seal_sim_inside [simp]:
  "rsgx_raw_is_within_enclave seal_sim p n" "rsgx_slice_is_within_enclave seal_sim s" "loc_inside seal_sim loc sd"
  by (simp_all add: loc_inside_def rsgx_slice_is_within_enclave_def rsgx_raw_is_within_enclave_def seal_sim_def)

definition sim_mask :: sgx_attributes_t where
  "sim_mask = \<lparr>flags = TSEAL_DEFAULT_FLAGSMASK, xfrm = 0\<rparr>"

lemma sim_policy: "key_policy_ok SGX_KEYPOLICY_MRSIGNER" "attribute_mask_ok sim_mask"
  by (simp_all add: key_policy_ok_def attribute_mask_ok_def SGX_KEYPOLICY_MRENCLAVE_def SGX_KEYPOLICY_MRSIGNER_def
      KEY_POLICY_KSS_def SGX_KEYPOLICY_NOISVPRODID_def SGX_KEYPOLICY_CONFIGID_def SGX_KEYPOLICY_ISVFAMILYID_def
      SGX_KEYPOLICY_ISVEXTPRODID_def sim_mask_def TSEAL_DEFAULT_FLAGSMASK_def FLAGS_NON_SECURITY_BITS_def
      SGX_FLAGS_MODE64BIT_def SGX_FLAGS_PROVISION_KEY_def SGX_FLAGS_EINITTOKEN_KEY_def SGX_FLAGS_INITTED_def SGX_FLAGS_DEBUG_def)

lemma seal_sim_calls:
  "sgx_read_rand seal_sim n w = ((SGX_SUCCESS, replicate n 3), w)"
  "sgx_get_key seal_sim kr w = ((SGX_SUCCESS, fit 16 kr), w)"
  "sgx_rijndael128GCM_encrypt seal_sim k pt iv aad w = ((SGX_SUCCESS, map NOT pt, fit 16 k), w)"
  by (simp_all add: seal_sim_def)

lemma sim_seal_with_fresh_key:
  assumes "560 + length pt + length aad < u32_max_nat"
  obtains sd where "seal_with_fresh_key seal_sim kp am mm aad pt () = (Inr sd, ())"
proof -
  have "gcm_lengths_ok pt (zeros 12) aad (zeros (length pt))" using assms by (simp add: gcm_lengths_ok_def)
  then have "\<exists>sd. seal_data_iv seal_sim aad pt (zeros 12) kr () = (Inr sd, ())" for kr
    by (simp add: seal_data_iv_def bindE_def map_errW_def rsgx_get_align_key_def seal_sim_calls
        rsgx_rijndael128GCM_encrypt_def)
  then have "\<exists>sd. bindE (seal_data_iv seal_sim aad pt (zeros 12) kr) (\<lambda>s. returnE (s\<lparr>key_request := kr\<rparr>)) () =
      (Inr sd, ())" for kr
    by (metis bindE_Inr returnE_apply)
  then show ?thesis
    using that unfolding seal_with_fresh_key_def rsgx_read_rand_def seal_sim_calls Let_def prod.case
    by (simp only: ffi_result_simps sum.case prod.case) blast
qed

lemma sim_seals:
  assumes "pt \<noteq> []" and "560 + length pt + length aad < u32_max_nat"
  obtains sd where "seal_data_ex seal_sim SGX_KEYPOLICY_MRSIGNER sim_mask 0 (64, aad) (128, pt) () = (Inr sd, ())"
proof -
  have "calc_raw_sealed_data_size (as_u32 (length aad)) (as_u32 (length pt)) \<noteq> U32_MAX"
    using assms(2) by (simp add: calc_max_iff)
  with assms that sim_seal_with_fresh_key [OF assms(2), of SGX_KEYPOLICY_MRSIGNER sim_mask 0] show ?thesis
    by (auto simp: seal_data_ex_def sim_policy Let_def)
qed

lemma sim_macs:
  assumes "aad \<noteq> []" and "560 + length aad < u32_max_nat"
  obtains sd where "mac_aadata_ex seal_sim SGX_KEYPOLICY_MRSIGNER sim_mask 0 (64, aad) () = (Inr sd, ())"
proof -
  have "calc_raw_sealed_data_size (as_u32 (length aad)) 0 \<noteq> U32_MAX"
    using assms(2) by (simp add: calc_max_iff)
  with assms that sim_seal_with_fresh_key [of "[]" aad SGX_KEYPOLICY_MRSIGNER sim_mask 0] show ?thesis
    by (auto simp: mac_aadata_ex_def sim_policy Let_def)
qed

lemma unseal_of_seal_data_ex:
  assumes "gcm_laws True P E" and "key_laws True P K" and "\<And>k iv aad. inj (E k iv aad)"
    and seal: "seal_data_ex P kp am mm add enc w = (Inr sd, w1)" and "loc_inside P loc sd"
  shows "\<exists>w3. unseal_data P loc sd w2 =
           (Inr \<lparr>u_payload_size = as_u32 (length (snd enc) + length (snd add)), u_decrypt = snd enc,
                 u_additional = snd add\<rparr>, w3)"
proof -
  note ok = seal_data_ex_ok [OF seal] and sealed = seal_with_fresh_key_ok [OF seal_data_ex_ok(1,2) [OF seal]]
  obtain k where k: "K (key_request_to_bytes (key_request sd)) = Some k"
    "E k (zeros 12) (snd add) (snd enc) = (encrypt (payload_data sd), payload_tag (payload_data sd))"
    by (rule fresh_key_law [OF assms(1,2) ok(1)])
  have "0 < length (encrypt (payload_data sd))" using sealed(3) ok(3) by simp
  then have run: "unseal_data P loc sd = unseal_data_helper P sd"
    by (intro unseal_data_guards [OF sealed(1) assms(5)]) auto
  have "payload_size (payload_data sd) = as_u32 (length (snd enc) + length (snd add))"
    using sealed(1-3) ok(2) by (auto simp: sealed_ok_def word_unat_eq_iff)
  with unseal_helper_returns [OF assms(1-3) k(1) sealed(1), of "snd enc" w2] k(2) sealed(2) run
  show ?thesis by simp
qed

section \<open>Properties\<close>

text \<open>
  The size of the raw form is computed without wrap-around: \<^verbatim>\<open>calc_raw_sealed_data_size\<close> returns the
  560 bytes of the header plus the two lengths when that is below \<^verbatim>\<open>u32::MAX\<close>, and \<^verbatim>\<open>u32::MAX\<close> otherwise.
\<close>

theorem calc_raw_sealed_data_size_saturates:
  "unat (calc_raw_sealed_data_size a e) = min u32_max_nat (560 + unat a + unat e)"
  by (rule unat_calc_raw_sealed_data_size)

text \<open>
  C4: Sealing and unsealing is the identity on the data. Whatever \<^verbatim>\<open>seal_data_ex\<close> returns, \<^verbatim>\<open>unseal_data\<close> on
  the same enclave returns \<^verbatim>\<open>Ok\<close> with exactly the plain text and the additional text that were sealed, at
  any later time, when the object is inside the enclave. The hypotheses are the documented behaviour of
  AES-GCM (injective in the plain text) and that key derivation is a function of the key request.
\<close>

theorem seal_unseal_roundtrip:
  assumes "gcm_laws True P E" and "key_laws True P K" and "\<And>k iv aad. inj (E k iv aad)"
    and seal: "seal_data_ex P kp am mm add enc w = (Inr sd, w1)" and "loc_inside P loc sd"
  shows "\<exists>w3. unseal_data P loc sd w2 =
           (Inr \<lparr>u_payload_size = as_u32 (length (snd enc) + length (snd add)), u_decrypt = snd enc,
                 u_additional = snd add\<rparr>, w3)"
  by (rule unseal_of_seal_data_ex [OF assms])

theorem seal_unseal_roundtrip_witness:
  "\<exists>sd w3. seal_data_ex seal_sim SGX_KEYPOLICY_MRSIGNER sim_mask 0 (64, [1]) (128, [7, 8, 9]) () = (Inr sd, ()) \<and>
     unseal_data seal_sim \<lparr>sz_self = 600, at_self = 0, at_encrypt = 0, at_additional = 0\<rparr> sd () =
       (Inr \<lparr>u_payload_size = 4, u_decrypt = [7, 8, 9], u_additional = [1]\<rparr>, w3)"
proof -
  obtain sd where sd: "seal_data_ex seal_sim SGX_KEYPOLICY_MRSIGNER sim_mask 0 (64, [1]) (128, [7, 8, 9]) () = (Inr sd, ())"
    by (rule sim_seals [of "[7, 8, 9]" "[1]"]) simp_all
  from seal_unseal_roundtrip [OF seal_sim_laws(1-3) this seal_sim_inside(3)] sd show ?thesis
    by (simp add: as_u32_def)
qed

text \<open>
  The same for authenticated data without encryption: \<^verbatim>\<open>unmac_aadata\<close> accepts whatever \<^verbatim>\<open>mac_aadata_ex\<close>
  returned and gives the text back.
\<close>

theorem mac_unmac_roundtrip:
  assumes "gcm_laws True P E" and "key_laws True P K" and "\<And>k iv aad. inj (E k iv aad)"
    and mac: "mac_aadata_ex P kp am mm add w = (Inr sd, w1)" and "loc_inside P loc sd"
  shows "\<exists>w3. unmac_aadata P loc sd w2 =
           (Inr \<lparr>u_payload_size = as_u32 (length (snd add)), u_decrypt = [], u_additional = snd add\<rparr>, w3)"
proof -
  note ok = mac_aadata_ex_ok [OF mac]
  have "560 + length ([] :: bytes) + length (snd add) < u32_max_nat" using ok(2) by simp
  note sealed = seal_with_fresh_key_ok [OF ok(1) this]
  obtain k where k: "K (key_request_to_bytes (key_request sd)) = Some k"
    "E k (zeros 12) (snd add) [] = (encrypt (payload_data sd), payload_tag (payload_data sd))"
    by (rule fresh_key_law [OF assms(1,2) ok(1)])
  have run: "unmac_aadata P loc sd = unseal_data_helper P sd"
    using sealed(2,3) ok(3) by (intro unmac_aadata_guards [OF sealed(1) assms(5)]) auto
  have "payload_size (payload_data sd) = as_u32 (length (snd add))"
    using sealed(1-3) ok(2) by (auto simp: sealed_ok_def word_unat_eq_iff)
  with unseal_helper_returns [OF assms(1-3) k(1) sealed(1), of "[]" w2] k(2) sealed(2) run
  show ?thesis by simp
qed

theorem mac_unmac_roundtrip_witness:
  "\<exists>sd w3. mac_aadata_ex seal_sim SGX_KEYPOLICY_MRSIGNER sim_mask 0 (64, [5, 6]) () = (Inr sd, ()) \<and>
     unmac_aadata seal_sim \<lparr>sz_self = 600, at_self = 0, at_encrypt = 0, at_additional = 0\<rparr> sd () =
       (Inr \<lparr>u_payload_size = 2, u_decrypt = [], u_additional = [5, 6]\<rparr>, w3)"
proof -
  obtain sd where sd: "mac_aadata_ex seal_sim SGX_KEYPOLICY_MRSIGNER sim_mask 0 (64, [5, 6]) () = (Inr sd, ())"
    by (rule sim_macs [of "[5, 6]"]) simp_all
  from mac_unmac_roundtrip [OF seal_sim_laws(1-3) this seal_sim_inside(3)] sd show ?thesis
    by (simp add: as_u32_def)
qed

text \<open>
  C17: What unsealing guarantees: if \<^verbatim>\<open>unseal_data\<close> returns \<^verbatim>\<open>Ok\<close>, the blob carries the encryption of exactly
  the returned plain text under the sealing key of its key request, authenticated together with exactly
  the returned additional text, and the reported payload size is the sum of the two lengths. Nothing of
  the blob is believed without that check.
\<close>

theorem unseal_data_authentic:
  assumes "gcm_laws False P E" and "key_laws False P K" and ok: "unseal_data P loc sd w = (Inr u, w')"
  shows "\<exists>k. K (key_request_to_bytes (key_request sd)) = Some k \<and>
           E k (zeros 12) (u_additional u) (u_decrypt u) = (encrypt (payload_data sd), payload_tag (payload_data sd)) \<and>
           u_additional u = additional (payload_data sd) \<and>
           unat (u_payload_size u) = length (u_decrypt u) + length (u_additional u)"
proof -
  have run: "unseal_data_helper P sd w = (Inr u, w')"
    and guards: "get_add_mac_txt_len sd \<noteq> U32_MAX" "get_encrypt_txt_len sd \<noteq> U32_MAX"
      "calc_raw_sealed_data_size (get_add_mac_txt_len sd) (get_encrypt_txt_len sd) \<noteq> U32_MAX"
      "get_add_mac_txt_len sd + get_encrypt_txt_len sd = payload_size (payload_data sd)"
    using ok by (auto simp: unseal_data_def Let_def split: if_splits)
  have lens: "unat (get_add_mac_txt_len sd) = length (additional (payload_data sd))"
    "unat (get_encrypt_txt_len sd) = length (encrypt (payload_data sd))"
    using guards(1,2) by (simp_all add: get_add_mac_txt_len_def get_encrypt_txt_len_def unat_txt_len)
  have "unat (payload_size (payload_data sd)) = length (additional (payload_data sd)) + length (encrypt (payload_data sd))"
    using guards(3) by (simp add: guards(4) [symmetric] unat_word_ariths lens calc_max_iff)
  moreover obtain k where k: "K (key_request_to_bytes (key_request sd)) = Some k"
    "E k (zeros 12) (additional (payload_data sd)) (u_decrypt u) = (encrypt (payload_data sd), payload_tag (payload_data sd))"
    "u_additional u = additional (payload_data sd)" "u_payload_size u = payload_size (payload_data sd)"
    by (rule unseal_helper_law [OF assms(1,2) run])
  moreover from assms(1) k(2) have "length (u_decrypt u) = length (encrypt (payload_data sd))"
    unfolding gcm_laws_def by (metis fst_conv)
  ultimately show ?thesis by simp
qed

theorem unseal_data_authentic_witness:
  "\<exists>sd u w' k. unseal_data seal_sim \<lparr>sz_self = 600, at_self = 0, at_encrypt = 0, at_additional = 0\<rparr> sd () = (Inr u, w') \<and>
     sim_E k (zeros 12) (u_additional u) (u_decrypt u) = (encrypt (payload_data sd), payload_tag (payload_data sd))"
proof -
  let ?loc = "\<lparr>sz_self = 600, at_self = 0, at_encrypt = 0, at_additional = 0\<rparr>"
  obtain sd where sd: "seal_data_ex seal_sim SGX_KEYPOLICY_MRSIGNER sim_mask 0 (64, [1]) (128, [7, 8, 9]) () = (Inr sd, ())"
    by (rule sim_seals [of "[7, 8, 9]" "[1]"]) simp_all
  note sealed = seal_with_fresh_key_ok [OF seal_data_ex_ok(1,2) [OF sd]]
  obtain k where k: "(\<lambda>kr. Some (fit 16 kr)) (key_request_to_bytes (key_request sd)) = Some k"
    "sim_E k (zeros 12) [1] [7, 8, 9] = (encrypt (payload_data sd), payload_tag (payload_data sd))"
    using fresh_key_law [OF seal_sim_laws(1,2) seal_data_ex_ok(1) [OF sd]] by (metis snd_conv)
  have "encrypt (payload_data sd) \<noteq> []" using sealed(3) by auto
  then have "unseal_data seal_sim ?loc sd = unseal_data_helper seal_sim sd"
    by (intro unseal_data_guards [OF sealed(1)]) simp_all
  then obtain u w' where u: "unseal_data seal_sim ?loc sd () = (Inr u, w')"
    using unseal_helper_runs [OF seal_sim_laws(1,2) k(1) _ sealed(1), of "[7, 8, 9]"] k(2) sealed(2) by auto
  with unseal_data_authentic [OF seal_sim_laws(1,2) u] show ?thesis by blast
qed

text \<open>
  Exporting a sealed object to its raw form and importing it gives the object back, in any buffer of at
  least the computed size inside or outside of the enclave, and the bytes of the buffer after the blob
  are not touched.
\<close>

theorem sealed_raw_roundtrip:
  assumes "size_laws P" and "sealed_ok sd" and "raw_accessible P p len"
    and "560 + unat (payload_size (payload_data sd)) \<le> unat len" and "unat len \<le> length mem"
  shows "\<exists>mem'. to_raw_sealed_data_t P sd (p, mem) len = Ret (Some p, mem') \<and> length mem' = length mem \<and>
           drop (560 + unat (payload_size (payload_data sd))) mem' = drop (560 + unat (payload_size (payload_data sd))) mem \<and>
           from_raw_sealed_data_t P p (\<lambda>_. mem') len = Ret (Some sd)"
proof -
  have "560 \<le> length mem" using assms(4,5) by simp
  moreover have "unat (payload_size (payload_data sd)) = length (encrypt (payload_data sd)) + length (additional (payload_data sd))"
    using assms(2) by (simp add: sealed_ok_def)
  ultimately show ?thesis
    using assms(4,5) by (simp add: to_raw_sealed_closed [OF assms] from_raw_sealed_closed [OF assms(1-4)] assms(2))
qed

definition sim_sealed :: SgxInternalSealedData where
  "sim_sealed = \<lparr>key_request = key_request_default, payload_data = \<lparr>payload_size = 3, pl_reserved = zeros 12,
     payload_tag = zeros 16, encrypt = [7, 8], additional = [9]\<rparr>\<rparr>"

theorem sealed_raw_roundtrip_witness:
  "\<exists>mem'. to_raw_sealed_data_t seal_sim sim_sealed (4096, zeros 600) 600 = Ret (Some 4096, mem') \<and>
     length mem' = length (zeros 600) \<and>
     drop (560 + unat (payload_size (payload_data sim_sealed))) mem' =
       drop (560 + unat (payload_size (payload_data sim_sealed))) (zeros 600) \<and>
     from_raw_sealed_data_t seal_sim 4096 (\<lambda>_. mem') 600 = Ret (Some sim_sealed)"
  by (rule sealed_raw_roundtrip [OF seal_sim_laws(4)])
    (simp_all add: sim_sealed_def sealed_ok_def raw_accessible_def)

text \<open>
  C18: Importing a blob never reads outside the buffer it was given, even when the blob lies outside the
  enclave and is rewritten by an attacker between any two accesses (every access may see other bytes):
  the lengths are read once and checked against the length of the buffer before the texts are copied,
  and the texts of an imported object fit the buffer.
\<close>

theorem from_raw_sealed_in_bounds:
  assumes "size_laws P" and "\<And>i. unat len \<le> length (mem i)"
  shows "from_raw_sealed_data_t P p mem len \<noteq> Undef \<and>
         (\<forall>sd. from_raw_sealed_data_t P p mem len = Ret (Some sd) \<longrightarrow>
            560 + length (encrypt (payload_data sd)) + length (additional (payload_data sd)) \<le> unat len)"
proof -
  have calc: "560 + unat e + unat a \<le> unat len"
    if "sgx_calc_sealed_data_size P a e \<noteq> U32_MAX" and "\<not> len < sgx_calc_sealed_data_size P a e" for a e
  proof -
    have "unat (sgx_calc_sealed_data_size P a e) = min u32_max_nat (560 + unat a + unat e)"
      using assms(1) by (simp add: size_laws_def)
    with that show ?thesis by (auto simp: word_less_nat_alt word_unat_eq_iff)
  qed
  have len: "n \<le> unat len \<Longrightarrow> \<not> length (mem i) < n" for n i using assms(2) [of i] by simp
  have "from_raw_sealed_data_t P p mem len \<noteq> Undef"
    using calc len by (auto simp: from_raw_sealed_data_t_def Let_def)
  moreover have "560 + length (encrypt (payload_data sd)) + length (additional (payload_data sd)) \<le> unat len"
    if "from_raw_sealed_data_t P p mem len = Ret (Some sd)" for sd
  proof -
    define a where "a = sgx_get_add_mac_txt_len P (bslice 0 560 (mem 2))"
    define e where "e = sgx_get_encrypt_txt_len P (bslice 0 560 (mem 3))"
    have sz: "length (if c then bslice off n bs else []) \<le> n" for c off n and bs :: bytes by (simp add: bslice_def)
    from that have c: "sgx_calc_sealed_data_size P a e \<noteq> U32_MAX" "\<not> len < sgx_calc_sealed_data_size P a e"
      and t: "encrypt (payload_data sd) = (if e > 0 then bslice 560 (unat e) (mem 5) else [])"
        "additional (payload_data sd) = (if a > 0 then bslice (560 + unat e) (unat a) (mem 6) else [])"
      by (auto simp: from_raw_sealed_data_t_def Let_def a_def [symmetric] e_def [symmetric] split: if_splits)
    have "length (encrypt (payload_data sd)) \<le> unat e" "length (additional (payload_data sd)) \<le> unat a"
      by (simp_all only: t sz)
    with calc [OF c] show ?thesis by simp
  qed
  ultimately show ?thesis by blast
qed

theorem from_raw_sealed_in_bounds_witness:
  "from_raw_sealed_data_t seal_sim 4096 (\<lambda>i. replicate 600 (word_of_nat i)) 600 \<noteq> Undef"
  using from_raw_sealed_in_bounds [OF seal_sim_laws(4), of 600 "\<lambda>i. replicate 600 (word_of_nat i)" 4096] by simp

lemma chunks_concat:
  assumes "list_all (\<lambda>x. length x = sz) xs"
  shows "chunks sz (length xs) (concat xs) = xs"
  using assms
proof (induction xs)
  case Nil
  then show ?case by (simp add: chunks_def)
next
  case (Cons x xs)
  have "bslice (Suc i * sz) sz (x @ concat xs) = bslice (i * sz) sz (concat xs)" for i
    using Cons.prems by (simp add: bslice_append_right)
  moreover have "bslice (0 * sz) sz (x @ concat xs) = x"
    using Cons.prems by (simp add: bslice_def)
  ultimately have "chunks sz (length (x # xs)) (concat (x # xs)) = x # chunks sz (length xs) (concat xs)"
    by (simp only: chunks_def list.size add_Suc_right add_0_right upt_conv_Cons zero_less_Suc list.map concat.simps
        map_Suc_upt [symmetric] map_map comp_def)
  with Cons show ?case by simp
qed

text \<open>
  The typed interface for slices: sealing a slice of elements of \<^verbatim>\<open>size_of::<T>()\<close> bytes and unsealing it at
  the same type gives the same elements; the length check and the division recover their number.
\<close>

theorem slice_seal_unseal_roundtrip:
  assumes "gcm_laws True P E" and "key_laws True P K" and "\<And>k iv aad. inj (E k iv aad)"
    and elems: "list_all (\<lambda>x. length x = sz) xs"
    and seal: "SgxSealedData_slice_seal_data_ex P sz kp am mm add (p, xs) w = (Inr sd, w1)" and "loc_inside P loc sd"
  shows "\<exists>w3. SgxSealedData_slice_unseal_data P sz loc sd w2 =
           (Inr \<lparr>ud_payload_size = as_u32 (length xs * sz + length (snd add)), ud_decrypt = xs,
                 ud_additional = snd add\<rparr>, w3)"
proof -
  have sz: "0 < sz" "concat xs \<noteq> []" and ex: "seal_data_ex P kp am mm add (p, concat xs) w = (Inr sd, w1)"
    using seal by (auto simp: SgxSealedData_slice_seal_data_ex_def split: if_splits)
  have clen: "length (concat xs) = length xs * sz"
    using elems by (induction xs) simp_all
  note sealed = seal_with_fresh_key_ok [OF seal_data_ex_ok(1,2) [OF ex]]
  have elen: "unat (get_encrypt_txt_len sd) = length xs * sz"
    using sealed(3) by (simp add: sealed_ok_lens(2) [OF sealed(1)] clen)
  have "xs \<noteq> []" using sz(2) by auto
  then have "\<not> sz > length xs * sz" by (cases xs) simp_all
  moreover obtain w3 where "unseal_data P loc sd w2 =
      (Inr \<lparr>u_payload_size = as_u32 (length (concat xs) + length (snd add)), u_decrypt = concat xs,
            u_additional = snd add\<rparr>, w3)"
    using unseal_of_seal_data_ex [OF assms(1-3) ex assms(6), of w2] by auto
  ultimately show ?thesis
    using sz(1) chunks_concat [OF elems] clen
    by (simp add: SgxSealedData_slice_unseal_data_def Let_def elen)
qed

theorem slice_seal_unseal_roundtrip_witness:
  "\<exists>sd w1 w3. SgxSealedData_slice_seal_data_ex seal_sim 2 SGX_KEYPOLICY_MRSIGNER sim_mask 0 (64, []) (128, [[1, 2], [3, 4], [5, 6]]) () =
       (Inr sd, w1) \<and>
     SgxSealedData_slice_unseal_data seal_sim 2 \<lparr>sz_self = 600, at_self = 0, at_encrypt = 0, at_additional = 0\<rparr> sd () =
       (Inr \<lparr>ud_payload_size = 6, ud_decrypt = [[1, 2], [3, 4], [5, 6]], ud_additional = []\<rparr>, w3)"
proof -
  obtain sd where "seal_data_ex seal_sim SGX_KEYPOLICY_MRSIGNER sim_mask 0 (64, []) (128, [1, 2, 3, 4, 5, 6]) () = (Inr sd, ())"
    by (rule sim_seals [of "[1, 2, 3, 4, 5, 6]" "[]"]) simp_all
  then have s: "SgxSealedData_slice_seal_data_ex seal_sim 2 SGX_KEYPOLICY_MRSIGNER sim_mask 0 (64, [])
      (128, [[1, 2], [3, 4], [5, 6]]) () = (Inr sd, ())"
    by (simp add: SgxSealedData_slice_seal_data_ex_def)
  have "list_all (\<lambda>x. length x = 2) [[1 :: u8, 2], [3, 4], [5, 6]]" by simp
  from slice_seal_unseal_roundtrip [OF seal_sim_laws(1-3) this s seal_sim_inside(3)] s show ?thesis
    by (auto simp: as_u32_def)
qed

end
