(* ===== verification/Sgx_Tcrypto_Keys.thy ===== *)
theory Sgx_Tcrypto_Keys
  imports Sgx_Tcrypto
begin

text \<open>
  The rest of \<^verbatim>\<open>src/sgx_tcrypto/src/crypto.rs\<close>: the one-shot digests, AES in counter mode, ECDSA on an open handle, RSA signatures, the creation of
  key pairs, the objects \<^verbatim>\<open>SgxRsaPrivKey\<close> and \<^verbatim>\<open>SgxRsaPubKey\<close>, the derivation of ECC keys, and the streaming \<^verbatim>\<open>SgxAesHandle\<close>. The locale
  \<open>session_handle\<close> is interpreted for the last; the RSA objects keep the sizes of their key and have the weaker contract
  \<open>resource\<close>, which every session handle has too.
\<close>

section \<open>Foreign functions\<close>

datatype sgx_generic_ecresult_t =
    SGX_EC_VALID | SGX_EC_COMPOSITE_BASE | SGX_EC_COMPLICATED_BASE | SGX_EC_IS_ZERO_DISCRIMINANT
  | SGX_EC_COMPOSITE_ORDER | SGX_EC_INVALID_ORDER | SGX_EC_IS_WEAK_MOV | SGX_EC_IS_WEAK_SSA
  | SGX_EC_IS_SUPER_SINGULAR | SGX_EC_INVALID_PRIVATE_KEY | SGX_EC_INVALID_PUBLIC_KEY | SGX_EC_INVALID_KEY_PAIR
  | SGX_EC_POINT_OUT_OF_GROUP | SGX_EC_POINT_IS_AT_INFINITY | SGX_EC_POINT_IS_NOT_VALID | SGX_EC_POINT_IS_EQUAL
  | SGX_EC_POINT_IS_NOT_EQUAL | SGX_EC_INVALID_SIGNATURE

definition ecresults :: "sgx_generic_ecresult_t list" where
  "ecresults =
     [SGX_EC_VALID, SGX_EC_COMPOSITE_BASE, SGX_EC_COMPLICATED_BASE, SGX_EC_IS_ZERO_DISCRIMINANT,
      SGX_EC_COMPOSITE_ORDER, SGX_EC_INVALID_ORDER, SGX_EC_IS_WEAK_MOV, SGX_EC_IS_WEAK_SSA,
      SGX_EC_IS_SUPER_SINGULAR, SGX_EC_INVALID_PRIVATE_KEY, SGX_EC_INVALID_PUBLIC_KEY, SGX_EC_INVALID_KEY_PAIR,
      SGX_EC_POINT_OUT_OF_GROUP, SGX_EC_POINT_IS_AT_INFINITY, SGX_EC_POINT_IS_NOT_VALID, SGX_EC_POINT_IS_EQUAL,
      SGX_EC_POINT_IS_NOT_EQUAL, SGX_EC_INVALID_SIGNATURE]"

text \<open>\<^verbatim>\<open>from_repr\<close>: the constructors are numbered from 0.\<close>

definition ecresult_from_repr :: "nat \<Rightarrow> sgx_generic_ecresult_t option" where
  "ecresult_from_repr v = (if v < length ecresults then Some (ecresults ! v) else None)"

datatype sgx_rsa_result_t = SGX_RSA_VALID | SGX_RSA_INVALID_SIGNATURE

datatype sgx_rsa_key_type_t = SGX_RSA_PRIVATE_KEY | SGX_RSA_PUBLIC_KEY

text \<open>
  Lengths that are passed as \<^verbatim>\<open>i32\<close> are arguments of their own. \<^verbatim>\<open>sgx_create_rsa_key_pair\<close> writes into eight buffers and is told two of their
  sizes only; its result has what it writes into each of them.
\<close>

record 'w key_ffi = "'w tcrypto_ffi" +
  sgx_sha384_msg :: "bytes \<Rightarrow> 'w \<Rightarrow> (sgx_status_t \<times> bytes) \<times> 'w"
  sgx_sha1_msg :: "bytes \<Rightarrow> 'w \<Rightarrow> (sgx_status_t \<times> bytes) \<times> 'w"
  sgx_hmac_sha256_msg :: "bytes \<Rightarrow> int \<Rightarrow> bytes \<Rightarrow> int \<Rightarrow> int \<Rightarrow> 'w \<Rightarrow> (sgx_status_t \<times> bytes) \<times> 'w"
  sgx_aes_ctr_encrypt :: "bytes \<Rightarrow> bytes \<Rightarrow> bytes \<Rightarrow> u32 \<Rightarrow> 'w \<Rightarrow> (sgx_status_t \<times> bytes \<times> bytes) \<times> 'w"
  sgx_aes_ctr_decrypt :: "bytes \<Rightarrow> bytes \<Rightarrow> bytes \<Rightarrow> u32 \<Rightarrow> 'w \<Rightarrow> (sgx_status_t \<times> bytes \<times> bytes) \<times> 'w"
  sgx_ecdsa_sign :: "bytes \<Rightarrow> bytes \<Rightarrow> addr \<Rightarrow> 'w \<Rightarrow> (sgx_status_t \<times> bytes) \<times> 'w"
  sgx_ecdsa_verify :: "bytes \<Rightarrow> bytes \<Rightarrow> bytes \<Rightarrow> addr \<Rightarrow> 'w \<Rightarrow> (sgx_status_t \<times> u8) \<times> 'w"
  sgx_ecdsa_verify_hash :: "bytes \<Rightarrow> bytes \<Rightarrow> bytes \<Rightarrow> addr \<Rightarrow> 'w \<Rightarrow> (sgx_status_t \<times> u8) \<times> 'w"
  sgx_rsa3072_sign :: "bytes \<Rightarrow> bytes \<Rightarrow> 'w \<Rightarrow> (sgx_status_t \<times> bytes) \<times> 'w"
  sgx_rsa3072_sign_ex :: "bytes \<Rightarrow> bytes \<Rightarrow> bytes option \<Rightarrow> 'w \<Rightarrow> (sgx_status_t \<times> bytes) \<times> 'w"
  sgx_rsa3072_verify :: "bytes \<Rightarrow> bytes \<Rightarrow> bytes \<Rightarrow> 'w \<Rightarrow> (sgx_status_t \<times> sgx_rsa_result_t) \<times> 'w"
  sgx_create_rsa_key_pair :: "int \<Rightarrow> int \<Rightarrow> 'w \<Rightarrow> (sgx_status_t \<times> bytes list) \<times> 'w"
  sgx_create_rsa_priv2_key ::
    "int \<Rightarrow> int \<Rightarrow> bytes \<Rightarrow> bytes \<Rightarrow> bytes \<Rightarrow> bytes \<Rightarrow> bytes \<Rightarrow> bytes \<Rightarrow> 'w \<Rightarrow> (sgx_status_t \<times> addr) \<times> 'w"
  sgx_create_rsa_priv1_key :: "int \<Rightarrow> int \<Rightarrow> int \<Rightarrow> bytes \<Rightarrow> bytes \<Rightarrow> bytes \<Rightarrow> 'w \<Rightarrow> (sgx_status_t \<times> addr) \<times> 'w"
  sgx_create_rsa_pub1_key :: "int \<Rightarrow> int \<Rightarrow> bytes \<Rightarrow> bytes \<Rightarrow> 'w \<Rightarrow> (sgx_status_t \<times> addr) \<times> 'w"
  sgx_free_rsa_key :: "addr \<Rightarrow> sgx_rsa_key_type_t \<Rightarrow> int \<Rightarrow> int \<Rightarrow> 'w \<Rightarrow> sgx_status_t \<times> 'w"
  sgx_rsa_priv_decrypt_sha256 :: "addr \<Rightarrow> nat option \<Rightarrow> bytes \<Rightarrow> 'w \<Rightarrow> (sgx_status_t \<times> bytes \<times> nat) \<times> 'w"
  sgx_rsa_pub_encrypt_sha256 :: "addr \<Rightarrow> nat option \<Rightarrow> bytes \<Rightarrow> 'w \<Rightarrow> (sgx_status_t \<times> bytes \<times> nat) \<times> 'w"
  sgx_calculate_ecdsa_priv_key :: "bytes \<Rightarrow> bytes \<Rightarrow> nat \<Rightarrow> 'w \<Rightarrow> (sgx_status_t \<times> bytes) \<times> 'w"
  sgx_ecc256_calculate_pub_from_priv :: "bytes \<Rightarrow> 'w \<Rightarrow> (sgx_status_t \<times> bytes) \<times> 'w"
  sgx_aes_gcm128_enc_init :: "bytes \<Rightarrow> bytes \<Rightarrow> bytes option \<Rightarrow> 'w \<Rightarrow> (sgx_status_t \<times> addr) \<times> 'w"
  sgx_aes_gcm128_enc_update :: "bytes \<Rightarrow> addr \<Rightarrow> 'w \<Rightarrow> (sgx_status_t \<times> bytes) \<times> 'w"
  sgx_aes_gcm128_enc_get_mac :: "addr \<Rightarrow> 'w \<Rightarrow> (sgx_status_t \<times> bytes) \<times> 'w"
  sgx_aes_gcm_close :: "addr \<Rightarrow> 'w \<Rightarrow> sgx_status_t \<times> 'w"

definition I32_MAX :: nat where "I32_MAX = 0x7FFFFFFF"

text \<open>\<^verbatim>\<open>size as i32\<close>.\<close>

definition as_i32 :: "usize \<Rightarrow> int" where
  "as_i32 n = sint (word_of_nat n :: 32 word)"

section \<open>Digests\<close>

definition rsgx_sha384_msg where "rsgx_sha384_msg P = digest_msg 48 (sgx_sha384_msg P)"
definition rsgx_sha384_slice where "rsgx_sha384_slice P = digest_msg 48 (sgx_sha384_msg P)"
definition rsgx_sha1_msg where "rsgx_sha1_msg P = digest_msg 20 (sgx_sha1_msg P)"
definition rsgx_sha1_slice where "rsgx_sha1_slice P = digest_msg 20 (sgx_sha1_msg P)"

text \<open>The size is checked against \<^verbatim>\<open>u32::MAX\<close> and passed as an \<^verbatim>\<open>i32\<close>.\<close>

definition hmac_call :: "('w, 'z) key_ffi_scheme \<Rightarrow> bytes \<Rightarrow> bytes \<Rightarrow> 'w \<Rightarrow> (sgx_status_t \<times> bytes) \<times> 'w" where
  "hmac_call P key src = sgx_hmac_sha256_msg P src (as_i32 (length src)) key 32 32"

definition rsgx_hmac_sha256_msg where "rsgx_hmac_sha256_msg P key = digest_msg 32 (hmac_call P key)"
definition rsgx_align_hmac_sha256_msg where "rsgx_align_hmac_sha256_msg P key = digest_msg 32 (hmac_call P key)"
definition rsgx_hmac_sha256_slice where "rsgx_hmac_sha256_slice P key = digest_msg 32 (hmac_call P key)"
definition rsgx_align_hmac_sha256_slice where "rsgx_align_hmac_sha256_slice P key = digest_msg 32 (hmac_call P key)"

section \<open>AES in counter mode\<close>

text \<open>The result, the counter block and the destination.\<close>

definition aes_ctr ::
  "(bytes \<Rightarrow> bytes \<Rightarrow> bytes \<Rightarrow> u32 \<Rightarrow> 'w \<Rightarrow> (sgx_status_t \<times> bytes \<times> bytes) \<times> 'w) \<Rightarrow>
   bytes \<Rightarrow> bytes \<Rightarrow> bytes \<Rightarrow> u32 \<Rightarrow> bytes \<Rightarrow> 'w \<Rightarrow> (SgxError \<times> bytes \<times> bytes) \<times> 'w" where
  "aes_ctr ffi key src ctr ctr_inc_bits dst w =
     (if length src > u32_max_nat \<or> length src < 1 \<or> length dst > u32_max_nat \<or> length dst < length src
      then ((Inl SGX_ERROR_INVALID_PARAMETER, ctr, dst), w)
      else case ffi key src ctr ctr_inc_bits w of
             ((ret, ctr', out), w') \<Rightarrow> ((ffi_result ret (), fit 16 ctr', write_dst src dst out), w'))"

definition rsgx_aes_ctr_encrypt where "rsgx_aes_ctr_encrypt P = aes_ctr (sgx_aes_ctr_encrypt P)"
definition rsgx_aes_ctr_decrypt where "rsgx_aes_ctr_decrypt P = aes_ctr (sgx_aes_ctr_decrypt P)"

section \<open>ECDSA\<close>

definition rsgx_ecdsa_sign_msg ::
  "('w, 'z) key_ffi_scheme \<Rightarrow> bytes \<Rightarrow> bytes \<Rightarrow> addr \<Rightarrow> 'w \<Rightarrow> (sgx_status_t \<times> bytes) \<times> 'w" where
  "rsgx_ecdsa_sign_msg P data prv ecc_handle w =
     (if \<not> size_ok data then ((SGX_ERROR_INVALID_PARAMETER, zeros 64), w)
      else case sgx_ecdsa_sign P data prv ecc_handle w of ((ret, out), w') \<Rightarrow> ((ret, fit 64 out), w'))"

definition rsgx_ecdsa_sign_slice ::
  "('w, 'z) key_ffi_scheme \<Rightarrow> bytes \<Rightarrow> bytes \<Rightarrow> addr \<Rightarrow> 'w \<Rightarrow> (sgx_status_t \<times> bytes) \<times> 'w" where
  "rsgx_ecdsa_sign_slice P data prv ecc_handle w =
     (if \<not> size_ok data then ((SGX_ERROR_INVALID_PARAMETER, zeros 64), w)
      else case sgx_ecdsa_sign P data prv ecc_handle w of ((ret, out), w') \<Rightarrow> ((ret, fit 64 out), w'))"

text \<open>What the foreign function reports in a byte becomes a constructor; an unknown byte is an invalid signature.\<close>

definition ecresult_of :: "sgx_status_t \<Rightarrow> u8 \<Rightarrow> sgx_generic_ecresult_t" where
  "ecresult_of ret verify =
     (if ret = SGX_SUCCESS
      then case ecresult_from_repr (unat verify) of Some r \<Rightarrow> r | None \<Rightarrow> SGX_EC_INVALID_SIGNATURE
      else SGX_EC_INVALID_SIGNATURE)"

definition rsgx_ecdsa_verify_msg ::
  "('w, 'z) key_ffi_scheme \<Rightarrow> bytes \<Rightarrow> bytes \<Rightarrow> bytes \<Rightarrow> sgx_generic_ecresult_t \<Rightarrow> addr \<Rightarrow> 'w
     \<Rightarrow> (sgx_status_t \<times> sgx_generic_ecresult_t) \<times> 'w" where
  "rsgx_ecdsa_verify_msg P data pub signature result ecc_handle w =
     (if \<not> size_ok data then ((SGX_ERROR_INVALID_PARAMETER, result), w)
      else case sgx_ecdsa_verify P data pub signature ecc_handle w of ((ret, verify), w') \<Rightarrow> ((ret, ecresult_of ret verify), w'))"

definition rsgx_ecdsa_verify_slice ::
  "('w, 'z) key_ffi_scheme \<Rightarrow> bytes \<Rightarrow> bytes \<Rightarrow> bytes \<Rightarrow> sgx_generic_ecresult_t \<Rightarrow> addr \<Rightarrow> 'w
     \<Rightarrow> (sgx_status_t \<times> sgx_generic_ecresult_t) \<times> 'w" where
  "rsgx_ecdsa_verify_slice P data pub signature result ecc_handle w =
     (if \<not> size_ok data then ((SGX_ERROR_INVALID_PARAMETER, result), w)
      else case sgx_ecdsa_verify P data pub signature ecc_handle w of ((ret, verify), w') \<Rightarrow> ((ret, ecresult_of ret verify), w'))"

definition rsgx_ecdsa_verify_hash ::
  "('w, 'z) key_ffi_scheme \<Rightarrow> bytes \<Rightarrow> bytes \<Rightarrow> bytes \<Rightarrow> addr \<Rightarrow> 'w \<Rightarrow> (sgx_status_t \<times> sgx_generic_ecresult_t) \<times> 'w" where
  "rsgx_ecdsa_verify_hash P hash pub signature ecc_handle w =
     (case sgx_ecdsa_verify_hash P hash pub signature ecc_handle w of ((ret, verify), w') \<Rightarrow> ((ret, ecresult_of ret verify), w'))"

definition SgxEccHandle_ecdsa_sign_msg ::
  "('w, 'z) key_ffi_scheme \<Rightarrow> bytes \<Rightarrow> bytes \<Rightarrow> handle \<Rightarrow> ('w, sgx_status_t, bytes) io" where
  "SgxEccHandle_ecdsa_sign_msg P data prv h w =
     (if \<not> initflag h then (Inl SGX_ERROR_INVALID_STATE, w)
      else case rsgx_ecdsa_sign_msg P data prv (hnd h) w of ((ret, signature), w') \<Rightarrow> (ffi_result ret signature, w'))"

definition SgxEccHandle_ecdsa_sign_slice ::
  "('w, 'z) key_ffi_scheme \<Rightarrow> bytes \<Rightarrow> bytes \<Rightarrow> handle \<Rightarrow> ('w, sgx_status_t, bytes) io" where
  "SgxEccHandle_ecdsa_sign_slice P data prv h w =
     (if \<not> initflag h then (Inl SGX_ERROR_INVALID_STATE, w)
      else case rsgx_ecdsa_sign_slice P data prv (hnd h) w of ((ret, signature), w') \<Rightarrow> (ffi_result ret signature, w'))"

definition SgxEccHandle_ecdsa_verify_msg ::
  "('w, 'z) key_ffi_scheme \<Rightarrow> bytes \<Rightarrow> bytes \<Rightarrow> bytes \<Rightarrow> handle \<Rightarrow> ('w, sgx_status_t, bool) io" where
  "SgxEccHandle_ecdsa_verify_msg P data pub signature h w =
     (if \<not> initflag h then (Inl SGX_ERROR_INVALID_STATE, w)
      else case rsgx_ecdsa_verify_msg P data pub signature SGX_EC_VALID (hnd h) w of
             ((ret, result), w') \<Rightarrow> (ffi_result ret (result = SGX_EC_VALID), w'))"

definition SgxEccHandle_ecdsa_verify_slice ::
  "('w, 'z) key_ffi_scheme \<Rightarrow> bytes \<Rightarrow> bytes \<Rightarrow> bytes \<Rightarrow> handle \<Rightarrow> ('w, sgx_status_t, bool) io" where
  "SgxEccHandle_ecdsa_verify_slice P data pub signature h w =
     (if \<not> initflag h then (Inl SGX_ERROR_INVALID_STATE, w)
      else case rsgx_ecdsa_verify_slice P data pub signature SGX_EC_VALID (hnd h) w of
             ((ret, result), w') \<Rightarrow> (ffi_result ret (result = SGX_EC_VALID), w'))"

definition SgxEccHandle_ecdsa_verify_hash ::
  "('w, 'z) key_ffi_scheme \<Rightarrow> bytes \<Rightarrow> bytes \<Rightarrow> bytes \<Rightarrow> handle \<Rightarrow> ('w, sgx_status_t, bool) io" where
  "SgxEccHandle_ecdsa_verify_hash P hash pub signature h w =
     (if \<not> initflag h then (Inl SGX_ERROR_INVALID_STATE, w)
      else case rsgx_ecdsa_verify_hash P hash pub signature (hnd h) w of
             ((ret, result), w') \<Rightarrow> (ffi_result ret (result = SGX_EC_VALID), w'))"

section \<open>RSA signatures\<close>

definition rsgx_rsa3072_sign_msg where "rsgx_rsa3072_sign_msg P data key = digest_msg 384 (\<lambda>d. sgx_rsa3072_sign P d key) data"
definition rsgx_rsa3072_sign_slice where "rsgx_rsa3072_sign_slice P data key = digest_msg 384 (\<lambda>d. sgx_rsa3072_sign P d key) data"
definition rsgx_rsa3072_sign_msg_ex where
  "rsgx_rsa3072_sign_msg_ex P data key pub = digest_msg 384 (\<lambda>d. sgx_rsa3072_sign_ex P d key pub) data"
definition rsgx_rsa3072_sign_slice_ex where
  "rsgx_rsa3072_sign_slice_ex P data key pub = digest_msg 384 (\<lambda>d. sgx_rsa3072_sign_ex P d key pub) data"

definition rsgx_rsa3072_verify_msg ::
  "('w, 'z) key_ffi_scheme \<Rightarrow> bytes \<Rightarrow> bytes \<Rightarrow> bytes \<Rightarrow> ('w, sgx_status_t, bool) io" where
  "rsgx_rsa3072_verify_msg P data pub signature w =
     (if \<not> size_ok data then (Inl SGX_ERROR_INVALID_PARAMETER, w)
      else case sgx_rsa3072_verify P data pub signature w of ((ret, verify), w') \<Rightarrow> (ffi_result ret (verify = SGX_RSA_VALID), w'))"

definition rsgx_rsa3072_verify_slice ::
  "('w, 'z) key_ffi_scheme \<Rightarrow> bytes \<Rightarrow> bytes \<Rightarrow> bytes \<Rightarrow> ('w, sgx_status_t, bool) io" where
  "rsgx_rsa3072_verify_slice P data pub signature w =
     (if \<not> size_ok data then (Inl SGX_ERROR_INVALID_PARAMETER, w)
      else case sgx_rsa3072_verify P data pub signature w of ((ret, verify), w') \<Rightarrow> (ffi_result ret (verify = SGX_RSA_VALID), w'))"

section \<open>RSA keys\<close>

definition bad_slice :: "bytes \<Rightarrow> bool" where
  "bad_slice b \<longleftrightarrow> b = [] \<or> length b > I32_MAX"

text \<open>The foreign function writes into buffers whose lengths it does not know: a write past the end is \<open>Undef\<close>.\<close>

definition write_bufs :: "bytes list \<Rightarrow> bytes list \<Rightarrow> bytes list outcome" where
  "write_bufs outs bufs =
     (if \<exists>i < length bufs. i < length outs \<and> length (outs ! i) > length (bufs ! i) then Undef
      else Ret (map2 (\<lambda>out buf. bsplice 0 out buf) (outs @ replicate (length bufs - length outs) []) bufs))"

text \<open>\<open>bufs\<close> has the buffers in the order of the arguments: \<^verbatim>\<open>n, d, e, p, q, dmp1, dmq1, iqmp\<close>.\<close>

definition rsgx_create_rsa_key_pair ::
  "('w, 'z) key_ffi_scheme \<Rightarrow> int \<Rightarrow> int \<Rightarrow> bytes list \<Rightarrow> 'w \<Rightarrow> (SgxError \<times> bytes list) outcome \<times> 'w" where
  "rsgx_create_rsa_key_pair P n_byte_size e_byte_size bufs w =
     (if n_byte_size \<le> 0 \<or> e_byte_size \<le> 0 then (Ret (Inl SGX_ERROR_INVALID_PARAMETER, bufs), w)
      else if \<exists>b \<in> set bufs. bad_slice b then (Ret (Inl SGX_ERROR_INVALID_PARAMETER, bufs), w)
      else case sgx_create_rsa_key_pair P n_byte_size e_byte_size w of ((ret, outs), w') \<Rightarrow>
             (case write_bufs outs bufs of
                Ret bufs' \<Rightarrow> Ret (ffi_result ret (), bufs') | Undef \<Rightarrow> Undef | Panic \<Rightarrow> Panic, w'))"

text \<open>\<open>old\<close> is the pointer the reference has before the call.\<close>

definition rsgx_create_rsa_priv2_key ::
  "('w, 'z) key_ffi_scheme \<Rightarrow> int \<Rightarrow> int \<Rightarrow> bytes \<Rightarrow> bytes \<Rightarrow> bytes \<Rightarrow> bytes \<Rightarrow> bytes \<Rightarrow> bytes \<Rightarrow> addr \<Rightarrow> 'w
     \<Rightarrow> (sgx_status_t \<times> addr) \<times> 'w" where
  "rsgx_create_rsa_priv2_key P mod_size exp_size e p q dmp1 dmq1 iqmp old w =
     (if mod_size \<le> 0 \<or> exp_size \<le> 0 then ((SGX_ERROR_INVALID_PARAMETER, old), w)
      else if bad_slice e \<or> bad_slice p \<or> bad_slice q \<or> bad_slice dmp1 \<or> bad_slice dmq1 \<or> bad_slice iqmp
      then ((SGX_ERROR_INVALID_PARAMETER, old), w)
      else sgx_create_rsa_priv2_key P mod_size exp_size e p q dmp1 dmq1 iqmp w)"

definition rsgx_create_rsa_priv1_key ::
  "('w, 'z) key_ffi_scheme \<Rightarrow> int \<Rightarrow> int \<Rightarrow> int \<Rightarrow> bytes \<Rightarrow> bytes \<Rightarrow> bytes \<Rightarrow> addr \<Rightarrow> 'w \<Rightarrow> (sgx_status_t \<times> addr) \<times> 'w" where
  "rsgx_create_rsa_priv1_key P n_size e_size d_size n e d old w =
     (if n_size \<le> 0 \<or> e_size \<le> 0 \<or> d_size \<le> 0 then ((SGX_ERROR_INVALID_PARAMETER, old), w)
      else if bad_slice n \<or> bad_slice e \<or> bad_slice d then ((SGX_ERROR_INVALID_PARAMETER, old), w)
      else sgx_create_rsa_priv1_key P n_size e_size d_size n e d w)"

definition rsgx_create_rsa_pub1_key ::
  "('w, 'z) key_ffi_scheme \<Rightarrow> int \<Rightarrow> int \<Rightarrow> bytes \<Rightarrow> bytes \<Rightarrow> addr \<Rightarrow> 'w \<Rightarrow> (sgx_status_t \<times> addr) \<times> 'w" where
  "rsgx_create_rsa_pub1_key P mod_size exp_size n e old w =
     (if mod_size \<le> 0 \<or> exp_size \<le> 0 then ((SGX_ERROR_INVALID_PARAMETER, old), w)
      else if bad_slice n \<or> bad_slice e then ((SGX_ERROR_INVALID_PARAMETER, old), w)
      else sgx_create_rsa_pub1_key P mod_size exp_size n e w)"

definition rsgx_free_rsa_key ::
  "('w, 'z) key_ffi_scheme \<Rightarrow> addr \<Rightarrow> sgx_rsa_key_type_t \<Rightarrow> int \<Rightarrow> int \<Rightarrow> 'w \<Rightarrow> sgx_status_t \<times> 'w" where
  "rsgx_free_rsa_key P rsa_key key_type mod_size exp_size w =
     (if mod_size \<le> 0 \<or> exp_size \<le> 0 then (SGX_ERROR_INVALID_PARAMETER, w)
      else sgx_free_rsa_key P rsa_key key_type mod_size exp_size w)"

text \<open>
  \<^verbatim>\<open>rsgx_rsa_priv_decrypt_sha256\<close> and \<^verbatim>\<open>rsgx_rsa_pub_encrypt_sha256\<close>: with \<^verbatim>\<open>*out_len\<close> 0 no buffer is passed and the length is asked for. The
  results are the status, the buffer and \<^verbatim>\<open>*out_len\<close>.
\<close>

definition rsa_crypt ::
  "(addr \<Rightarrow> nat option \<Rightarrow> bytes \<Rightarrow> 'w \<Rightarrow> (sgx_status_t \<times> bytes \<times> nat) \<times> 'w) \<Rightarrow> addr \<Rightarrow> bytes \<Rightarrow> nat \<Rightarrow> bytes \<Rightarrow> 'w
     \<Rightarrow> (sgx_status_t \<times> bytes \<times> nat) \<times> 'w" where
  "rsa_crypt ffi rsa_key out_data out_len in_data w =
     (if in_data = [] then ((SGX_ERROR_INVALID_PARAMETER, out_data, out_len), w)
      else if out_len \<noteq> 0 \<and> length out_data \<noteq> out_len then ((SGX_ERROR_INVALID_PARAMETER, out_data, out_len), w)
      else case ffi rsa_key (if out_len \<noteq> 0 then Some out_len else None) in_data w of ((ret, out, out_len'), w') \<Rightarrow>
             ((ret, if out_len \<noteq> 0 then bsplice 0 (take out_len out) out_data else out_data, out_len'), w'))"

definition rsgx_rsa_priv_decrypt_sha256 where "rsgx_rsa_priv_decrypt_sha256 P = rsa_crypt (sgx_rsa_priv_decrypt_sha256 P)"
definition rsgx_rsa_pub_encrypt_sha256 where "rsgx_rsa_pub_encrypt_sha256 P = rsa_crypt (sgx_rsa_pub_encrypt_sha256 P)"

text \<open>\<^verbatim>\<open>SgxRsaPrivKey\<close> and \<^verbatim>\<open>SgxRsaPubKey\<close> have the same cells.\<close>

record rsa_key =
  rkey :: addr
  mod_size :: int
  exp_size :: int
  createflag :: bool

definition rsa_key_new :: rsa_key where
  "rsa_key_new = \<lparr>rkey = 0, mod_size = 0, exp_size = 0, createflag = False\<rparr>"

text \<open>The bodies of \<^verbatim>\<open>create2\<close>, \<^verbatim>\<open>create1\<close> and \<^verbatim>\<open>create\<close> differ in the function they call.\<close>

definition rsa_create ::
  "(addr \<Rightarrow> 'w \<Rightarrow> (sgx_status_t \<times> addr) \<times> 'w) \<Rightarrow> int \<Rightarrow> int \<Rightarrow> rsa_key \<Rightarrow> 'w \<Rightarrow> (SgxError \<times> rsa_key) \<times> 'w" where
  "rsa_create mk m e k w =
     (if createflag k then ((Inr (), k), w)
      else case mk (rkey k) w of ((ret, p), w') \<Rightarrow>
             if ret = SGX_SUCCESS
             then ((Inr (), k\<lparr>rkey := p, mod_size := m, exp_size := e, createflag := True\<rparr>), w')
             else ((Inl ret, k\<lparr>rkey := p\<rparr>), w'))"

definition rsa_use ::
  "(addr \<Rightarrow> bytes \<Rightarrow> nat \<Rightarrow> bytes \<Rightarrow> 'w \<Rightarrow> (sgx_status_t \<times> bytes \<times> nat) \<times> 'w) \<Rightarrow> bytes \<Rightarrow> nat \<Rightarrow> bytes \<Rightarrow> rsa_key \<Rightarrow> 'w
     \<Rightarrow> (SgxError \<times> bytes \<times> nat) \<times> 'w" where
  "rsa_use crypt out_data out_len in_data k w =
     (if \<not> createflag k then ((Inl SGX_ERROR_INVALID_STATE, out_data, out_len), w)
      else case crypt (rkey k) out_data out_len in_data w of ((ret, out), w') \<Rightarrow> ((ffi_result ret (), out), w'))"

definition rsa_free ::
  "(addr \<Rightarrow> int \<Rightarrow> int \<Rightarrow> 'w \<Rightarrow> sgx_status_t \<times> 'w) \<Rightarrow> rsa_key \<Rightarrow> 'w \<Rightarrow> (SgxError \<times> rsa_key) \<times> 'w" where
  "rsa_free fre k w =
     (if \<not> createflag k then ((Inr (), k), w)
      else case (if rkey k = 0 then (SGX_SUCCESS, w) else fre (rkey k) (mod_size k) (exp_size k) w) of (ret, w') \<Rightarrow>
             if ret = SGX_SUCCESS then ((Inr (), k\<lparr>createflag := False, rkey := 0\<rparr>), w') else ((Inl ret, k), w'))"

definition SgxRsaPrivKey_new :: rsa_key where "SgxRsaPrivKey_new = rsa_key_new"
definition SgxRsaPrivKey_create2 where
  "SgxRsaPrivKey_create2 P m e exp p q dmp1 dmq1 iqmp = rsa_create (rsgx_create_rsa_priv2_key P m e exp p q dmp1 dmq1 iqmp) m e"
definition SgxRsaPrivKey_create where
  "SgxRsaPrivKey_create P m e exp p q dmp1 dmq1 iqmp = SgxRsaPrivKey_create2 P m e exp p q dmp1 dmq1 iqmp"
definition SgxRsaPrivKey_create1 where
  "SgxRsaPrivKey_create1 P m e priv_exp_size n exp d = rsa_create (rsgx_create_rsa_priv1_key P m e priv_exp_size n exp d) m e"
definition SgxRsaPrivKey_decrypt_sha256 where "SgxRsaPrivKey_decrypt_sha256 P = rsa_use (rsgx_rsa_priv_decrypt_sha256 P)"
definition SgxRsaPrivKey_free where "SgxRsaPrivKey_free P = rsa_free (\<lambda>k. rsgx_free_rsa_key P k SGX_RSA_PRIVATE_KEY)"
definition SgxRsaPrivKey_drop where "SgxRsaPrivKey_drop P k w = snd (SgxRsaPrivKey_free P k w)"

definition SgxRsaPubKey_new :: rsa_key where "SgxRsaPubKey_new = rsa_key_new"
definition SgxRsaPubKey_create where "SgxRsaPubKey_create P m e n exp = rsa_create (rsgx_create_rsa_pub1_key P m e n exp) m e"
definition SgxRsaPubKey_encrypt_sha256 where "SgxRsaPubKey_encrypt_sha256 P = rsa_use (rsgx_rsa_pub_encrypt_sha256 P)"
definition SgxRsaPubKey_free where "SgxRsaPubKey_free P = rsa_free (\<lambda>k. rsgx_free_rsa_key P k SGX_RSA_PUBLIC_KEY)"
definition SgxRsaPubKey_drop where "SgxRsaPubKey_drop P k w = snd (SgxRsaPubKey_free P k w)"

section \<open>Derivation of ECC keys\<close>

definition rsgx_calculate_ecdsa_priv_key ::
  "('w, 'z) key_ffi_scheme \<Rightarrow> bytes \<Rightarrow> bytes \<Rightarrow> bytes \<Rightarrow> 'w \<Rightarrow> (SgxError \<times> bytes) \<times> 'w" where
  "rsgx_calculate_ecdsa_priv_key P hash_drg r_m1 out_key w =
     (if bad_slice hash_drg \<or> bad_slice r_m1 \<or> bad_slice out_key then ((Inl SGX_ERROR_INVALID_PARAMETER, out_key), w)
      else case sgx_calculate_ecdsa_priv_key P hash_drg r_m1 (length out_key) w of
             ((ret, out), w') \<Rightarrow> ((ffi_result ret (), bsplice 0 (take (length out_key) out) out_key), w'))"

definition rsgx_ecc256_calculate_pub_from_priv ::
  "('w, 'z) key_ffi_scheme \<Rightarrow> bytes \<Rightarrow> 'w \<Rightarrow> (SgxError \<times> bytes) \<times> 'w" where
  "rsgx_ecc256_calculate_pub_from_priv P prv w =
     (case sgx_ecc256_calculate_pub_from_priv P prv w of ((ret, out), w') \<Rightarrow> ((ffi_result ret (), fit 64 out), w'))"

definition rsgx_ecc256_priv_key ::
  "('w, 'z) key_ffi_scheme \<Rightarrow> bytes \<Rightarrow> bytes \<Rightarrow> ('w, sgx_status_t, bytes) io" where
  "rsgx_ecc256_priv_key P hash_drg r_m1 w =
     (if bad_slice hash_drg \<or> bad_slice r_m1 then (Inl SGX_ERROR_INVALID_PARAMETER, w)
      else case sgx_calculate_ecdsa_priv_key P hash_drg r_m1 32 w of ((ret, out), w') \<Rightarrow> (ffi_result ret (fit 32 out), w'))"

definition rsgx_align_ecc256_priv_key ::
  "('w, 'z) key_ffi_scheme \<Rightarrow> bytes \<Rightarrow> bytes \<Rightarrow> ('w, sgx_status_t, bytes) io" where
  "rsgx_align_ecc256_priv_key P hash_drg r_m1 w =
     (if bad_slice hash_drg \<or> bad_slice r_m1 then (Inl SGX_ERROR_INVALID_PARAMETER, w)
      else case sgx_calculate_ecdsa_priv_key P hash_drg r_m1 32 w of ((ret, out), w') \<Rightarrow> (ffi_result ret (fit 32 out), w'))"

definition rsgx_ecc256_pub_from_priv :: "('w, 'z) key_ffi_scheme \<Rightarrow> bytes \<Rightarrow> ('w, sgx_status_t, bytes) io" where
  "rsgx_ecc256_pub_from_priv P prv w =
     (case sgx_ecc256_calculate_pub_from_priv P prv w of ((ret, out), w') \<Rightarrow> (ffi_result ret (fit 64 out), w'))"

section \<open>SgxAesHandle\<close>

definition rsgx_aes_gcm128_enc_init ::
  "('w, 'z) key_ffi_scheme \<Rightarrow> bytes \<Rightarrow> bytes \<Rightarrow> bytes \<Rightarrow> addr \<Rightarrow> 'w \<Rightarrow> (sgx_status_t \<times> addr) \<times> 'w" where
  "rsgx_aes_gcm128_enc_init P key iv aad old w =
     (if length iv \<noteq> SGX_AESGCM_IV_SIZE \<or> length aad > u32_max_nat then ((SGX_ERROR_INVALID_PARAMETER, old), w)
      else sgx_aes_gcm128_enc_init P key iv (if aad = [] then None else Some aad) w)"

definition rsgx_aes_gcm128_enc_update ::
  "('w, 'z) key_ffi_scheme \<Rightarrow> bytes \<Rightarrow> bytes \<Rightarrow> addr \<Rightarrow> 'w \<Rightarrow> (sgx_status_t \<times> bytes) \<times> 'w" where
  "rsgx_aes_gcm128_enc_update P src dst aes_gcm_state w =
     (if length src > u32_max_nat \<or> length src = 0 \<or> length dst > u32_max_nat \<or> length dst = 0 \<or> length dst < length src
      then ((SGX_ERROR_INVALID_PARAMETER, dst), w)
      else case sgx_aes_gcm128_enc_update P src aes_gcm_state w of ((ret, out), w') \<Rightarrow> ((ret, write_dst src dst out), w'))"

definition SgxAesHandle_new :: handle where "SgxAesHandle_new = handle_new"

definition SgxAesHandle_init ::
  "('w, 'z) key_ffi_scheme \<Rightarrow> bytes \<times> bytes \<times> bytes \<Rightarrow> handle \<Rightarrow> 'w \<Rightarrow> (SgxError \<times> handle) \<times> 'w" where
  "SgxAesHandle_init P args h =
     (case args of (key, iv, aad) \<Rightarrow> handle_init (rsgx_aes_gcm128_enc_init P key iv aad (hnd h)) h)"

definition SgxAesHandle_update ::
  "('w, 'z) key_ffi_scheme \<Rightarrow> bytes \<Rightarrow> bytes \<Rightarrow> handle \<Rightarrow> 'w \<Rightarrow> (SgxError \<times> bytes) \<times> 'w" where
  "SgxAesHandle_update P src dst h w =
     (if \<not> initflag h then ((Inl SGX_ERROR_INVALID_STATE, dst), w)
      else case rsgx_aes_gcm128_enc_update P src dst (hnd h) w of ((ret, dst'), w') \<Rightarrow> ((ffi_result ret (), dst'), w'))"

definition SgxAesHandle_get_mac where "SgxAesHandle_get_mac P = handle_final 16 (sgx_aes_gcm128_enc_get_mac P)"
definition SgxAesHandle_get_align_mac where "SgxAesHandle_get_align_mac P = handle_final 16 (sgx_aes_gcm128_enc_get_mac P)"
definition SgxAesHandle_close where "SgxAesHandle_close P = handle_close (sgx_aes_gcm_close P)"
definition SgxAesHandle_drop where "SgxAesHandle_drop P = handle_drop (sgx_aes_gcm_close P)"

text \<open>The handle keeps the contract of the digest handles, with the destination of an update as an output on the side.\<close>

interpretation aes: session_handle SgxAesHandle_new "SgxAesHandle_init P"
  "\<lambda>src h w. case SgxAesHandle_update P src dst h w of ((r, _), w') \<Rightarrow> (r, w')" "SgxAesHandle_get_mac P" "SgxAesHandle_close P" initflag
  for P :: "('w, 'z) key_ffi_scheme" and dst
  unfolding SgxAesHandle_new_def SgxAesHandle_init_def SgxAesHandle_update_def SgxAesHandle_get_mac_def SgxAesHandle_close_def
  by unfold_locales (auto simp: handle_defs split: if_splits prod.splits)

section \<open>The contract of an object that holds something foreign\<close>

locale resource =
  fixes fresh :: 'h
    and acquire :: "'k \<Rightarrow> 'h \<Rightarrow> 'w \<Rightarrow> (SgxError \<times> 'h) \<times> 'w"
    and release :: "'h \<Rightarrow> 'w \<Rightarrow> (SgxError \<times> 'h) \<times> 'w"
    and held :: "'h \<Rightarrow> bool"
  assumes fresh_free: "\<not> held fresh"
    and acquire_held: "held h \<Longrightarrow> acquire k h w = ((Inr (), h), w)"
    and acquire_ok: "acquire k h w = ((Inr (), h'), w') \<Longrightarrow> held h'"
    and acquire_err: "acquire k h w = ((Inl e, h'), w') \<Longrightarrow> \<not> held h'"
    and release_free: "\<not> held h \<Longrightarrow> release h w = ((Inr (), h), w)"
    and release_ok: "release h w = ((Inr (), h'), w') \<Longrightarrow> \<not> held h'"
    and release_err: "release h w = ((Inl e, h'), w') \<Longrightarrow> h' = h"
begin

lemma acquire_once:
  assumes "acquire k h w = ((Inr (), h'), w')"
  shows "acquire k' h' w'' = ((Inr (), h'), w'')"
  by (rule acquire_held [OF acquire_ok [OF assms]])

lemma release_once:
  assumes "release h w = ((Inr (), h'), w')"
  shows "release h' w'' = ((Inr (), h'), w'')"
  by (rule release_free [OF release_ok [OF assms]])

text \<open>A release that fails can be tried again on the same object.\<close>

lemma release_retry:
  assumes "release h w = ((Inl e, h'), w')"
  shows "h' = h" and "held h"
  using assms release_err release_free [of h w] by (blast, fastforce)

end

sublocale session_handle \<subseteq> held: resource new ini cls ready
proof (unfold_locales, goal_cases)
  case 1
  show ?case by (rule new_unready)
next
  case (2 h k w)
  then show ?case by (rule ini_ready)
next
  case (3 k h w h' w')
  then show ?case by (rule ini_ok)
next
  case (4 k h w e h' w')
  then show ?case using ini_err by blast
next
  case (5 h w)
  then show ?case by (rule cls_unready)
next
  case (6 h w h' w')
  then show ?case using cls_ok [OF _ 6] cls_unready [of h w] new_unready by (cases "ready h") auto
next
  case (7 h w e h' w')
  then show ?case using cls_err by blast
qed

lemma resource_rsa_key:
  "resource rsa_key_new (\<lambda>(mk, m, e). rsa_create mk m e) (rsa_free fre) createflag"
  by unfold_locales (auto simp: rsa_key_new_def rsa_create_def rsa_free_def split: if_splits prod.splits)


interpretation rsa_priv2: resource SgxRsaPrivKey_new
  "\<lambda>(m, e, exp, p, q, dmp1, dmq1, iqmp). SgxRsaPrivKey_create2 P m e exp p q dmp1 dmq1 iqmp" "SgxRsaPrivKey_free P" createflag
  for P :: "('w, 'z) key_ffi_scheme"
  unfolding SgxRsaPrivKey_new_def SgxRsaPrivKey_create2_def SgxRsaPrivKey_free_def
  by unfold_locales (auto simp: rsa_key_new_def rsa_create_def rsa_free_def split: if_splits prod.splits)

interpretation rsa_pub: resource SgxRsaPubKey_new
  "\<lambda>(m, e, n, exp). SgxRsaPubKey_create P m e n exp" "SgxRsaPubKey_free P" createflag
  for P :: "('w, 'z) key_ffi_scheme"
  unfolding SgxRsaPubKey_new_def SgxRsaPubKey_create_def SgxRsaPubKey_free_def
  by unfold_locales (auto simp: rsa_key_new_def rsa_create_def rsa_free_def split: if_splits prod.splits)

section \<open>RSA keys are used in order\<close>

text \<open>The foreign calls of an RSA object, recorded with what they are given; the answers are any functions of the record.\<close>

datatype rsa_event =
    RsaCreate sgx_status_t addr int int
  | RsaCrypt addr
  | RsaFree addr sgx_rsa_key_type_t int int sgx_status_t

record rsa_oracles =
  ro_create :: "rsa_event list \<Rightarrow> sgx_status_t \<times> addr"
  ro_crypt :: "rsa_event list \<Rightarrow> sgx_status_t \<times> bytes \<times> nat"
  ro_free :: "rsa_event list \<Rightarrow> sgx_status_t"

definition rec_create :: "rsa_oracles \<Rightarrow> int \<Rightarrow> int \<Rightarrow> rsa_event list \<Rightarrow> (sgx_status_t \<times> addr) \<times> rsa_event list" where
  "rec_create orc m e l = (ro_create orc l, RsaCreate (fst (ro_create orc l)) (snd (ro_create orc l)) m e # l)"

definition logged_rsa :: "rsa_oracles \<Rightarrow> (rsa_event list, 'z) key_ffi_scheme \<Rightarrow> (rsa_event list, 'z) key_ffi_scheme" where
  "logged_rsa orc P = P\<lparr>
     sgx_create_rsa_priv2_key := \<lambda>m e _ _ _ _ _ _. rec_create orc m e,
     sgx_create_rsa_priv1_key := \<lambda>m e _ _ _ _. rec_create orc m e,
     sgx_create_rsa_pub1_key := \<lambda>m e _ _. rec_create orc m e,
     sgx_free_rsa_key := \<lambda>p t m e l. (ro_free orc l, RsaFree p t m e (ro_free orc l) # l),
     sgx_rsa_priv_decrypt_sha256 := \<lambda>p _ _ l. (ro_crypt orc l, RsaCrypt p # l),
     sgx_rsa_pub_encrypt_sha256 := \<lambda>p _ _ l. (ro_crypt orc l, RsaCrypt p # l)\<rparr>"

datatype priv_op =
    PrivCreate2 int int bytes bytes bytes bytes bytes bytes
  | PrivCreate1 int int int bytes bytes bytes
  | PrivDecrypt bytes nat bytes
  | PrivFree

fun priv_step :: "('w, 'z) key_ffi_scheme \<Rightarrow> priv_op \<Rightarrow> rsa_key \<times> 'w \<Rightarrow> rsa_key \<times> 'w" where
  "priv_step P (PrivCreate2 m e exp p q dmp1 dmq1 iqmp) (k, w) =
     (case SgxRsaPrivKey_create2 P m e exp p q dmp1 dmq1 iqmp k w of ((_, k'), w') \<Rightarrow> (k', w'))"
| "priv_step P (PrivCreate1 m e d_size n exp d) (k, w) = (case SgxRsaPrivKey_create1 P m e d_size n exp d k w of ((_, k'), w') \<Rightarrow> (k', w'))"
| "priv_step P (PrivDecrypt out len inp) (k, w) = (k, snd (SgxRsaPrivKey_decrypt_sha256 P out len inp k w))"
| "priv_step P PrivFree (k, w) = (case SgxRsaPrivKey_free P k w of ((_, k'), w') \<Rightarrow> (k', w'))"

datatype pub_op = PubCreate int int bytes bytes | PubEncrypt bytes nat bytes | PubFree

fun pub_step :: "('w, 'z) key_ffi_scheme \<Rightarrow> pub_op \<Rightarrow> rsa_key \<times> 'w \<Rightarrow> rsa_key \<times> 'w" where
  "pub_step P (PubCreate m e n exp) (k, w) = (case SgxRsaPubKey_create P m e n exp k w of ((_, k'), w') \<Rightarrow> (k', w'))"
| "pub_step P (PubEncrypt out len inp) (k, w) = (k, snd (SgxRsaPubKey_encrypt_sha256 P out len inp k w))"
| "pub_step P PubFree (k, w) = (case SgxRsaPubKey_free P k w of ((_, k'), w') \<Rightarrow> (k', w'))"

text \<open>
  The key that is alive after a sequence of calls, with the sizes it was created with, and the discipline: only the live key is used or freed, with those sizes
  and its type, and no key is created while another one is alive.
\<close>

fun live_key :: "rsa_event list \<Rightarrow> (addr \<times> int \<times> int) option" where
  "live_key [] = None"
| "live_key (RsaCreate ret p m e # l) = (if ret = SGX_SUCCESS then Some (p, m, e) else live_key l)"
| "live_key (RsaFree p t m e ret # l) = (if ret = SGX_SUCCESS then None else live_key l)"
| "live_key (RsaCrypt p # l) = live_key l"

definition no_live_key :: "rsa_event list \<Rightarrow> bool" where
  "no_live_key l \<longleftrightarrow> (\<forall>p m e. live_key l = Some (p, m, e) \<longrightarrow> p = 0)"

definition is_live :: "addr \<Rightarrow> rsa_event list \<Rightarrow> bool" where
  "is_live q l \<longleftrightarrow> q \<in> fst ` set_option (live_key l)"

fun rsa_in_order :: "sgx_rsa_key_type_t \<Rightarrow> rsa_event list \<Rightarrow> bool" where
  "rsa_in_order t [] = True"
| "rsa_in_order t (RsaCreate ret p m e # l) =
     (no_live_key l \<and> 0 < m \<and> 0 < e \<and> rsa_in_order t l)"
| "rsa_in_order t (RsaCrypt p # l) = (is_live p l \<and> rsa_in_order t l)"
| "rsa_in_order t (RsaFree p t' m e ret # l) = (live_key l = Some (p, m, e) \<and> p \<noteq> 0 \<and> t' = t \<and> rsa_in_order t l)"

definition rsa_inv :: "sgx_rsa_key_type_t \<Rightarrow> rsa_key \<times> rsa_event list \<Rightarrow> bool" where
  "rsa_inv t s \<longleftrightarrow>
     rsa_in_order t (snd s) \<and>
     (if createflag (fst s)
      then live_key (snd s) = Some (rkey (fst s), mod_size (fst s), exp_size (fst s)) \<and> 0 < mod_size (fst s) \<and> 0 < exp_size (fst s)
      else no_live_key (snd s))"

lemma rsa_inv_create:
  assumes "rsa_inv t (k, l)" and "rsa_create mk m e k l = ((r, k'), l')"
    and "\<And>q l. mk q l = rec_create orc m e l \<and> 0 < m \<and> 0 < e \<or> mk q l = ((SGX_ERROR_INVALID_PARAMETER, q), l)"
  shows "rsa_inv t (k', l')"
proof (cases "createflag k")
  case True
  then show ?thesis using assms(1,2) by (simp add: rsa_create_def)
next
  case False
  from assms(3) [of "rkey k" l] show ?thesis
  proof
    assume "mk (rkey k) l = rec_create orc m e l \<and> 0 < m \<and> 0 < e"
    then show ?thesis
      using assms(1,2) False by (auto simp: rsa_create_def rsa_inv_def rec_create_def no_live_key_def split: if_splits prod.splits)
  next
    assume "mk (rkey k) l = ((SGX_ERROR_INVALID_PARAMETER, rkey k), l)"
    then show ?thesis using assms(1,2) False by (auto simp: rsa_create_def rsa_inv_def)
  qed
qed

lemma rsa_inv_use:
  assumes "rsa_inv t (k, l)" and "\<And>p n x l. ffi p n x l = (ro_crypt orc l, RsaCrypt p # l)"
  shows "rsa_inv t (k, snd (rsa_use (rsa_crypt ffi) out len inp k l))"
  using assms by (auto simp: rsa_use_def rsa_crypt_def rsa_inv_def is_live_def no_live_key_def split: prod.splits if_splits)

lemma rsa_inv_free:
  assumes "rsa_inv t (k, l)" and "rsa_free (\<lambda>k. rsgx_free_rsa_key (logged_rsa orc P) k t) k l = ((r, k'), l')"
  shows "rsa_inv t (k', l')"
  using assms
  by (auto simp: rsa_free_def rsgx_free_rsa_key_def rsa_inv_def logged_rsa_def no_live_key_def split: prod.splits if_splits)

lemmas rsa_method_defs =
  SgxRsaPrivKey_create2_def SgxRsaPrivKey_create1_def SgxRsaPrivKey_decrypt_sha256_def SgxRsaPrivKey_free_def
  SgxRsaPubKey_create_def SgxRsaPubKey_encrypt_sha256_def SgxRsaPubKey_free_def
  rsgx_rsa_priv_decrypt_sha256_def rsgx_rsa_pub_encrypt_sha256_def

lemma priv_step_inv:
  assumes "rsa_inv SGX_RSA_PRIVATE_KEY (k, l)"
  shows "rsa_inv SGX_RSA_PRIVATE_KEY (priv_step (logged_rsa orc P) op (k, l))"
proof (cases op)
  case (PrivCreate2 m e x p q u v y)
  obtain r k' l' where run: "rsa_create (rsgx_create_rsa_priv2_key (logged_rsa orc P) m e x p q u v y) m e k l = ((r, k'), l')"
    by (metis prod.exhaust)
  have "rsa_inv SGX_RSA_PRIVATE_KEY (k', l')"
    by (rule rsa_inv_create [OF assms run, where orc = orc]) (auto simp: rsgx_create_rsa_priv2_key_def logged_rsa_def)
  then show ?thesis using PrivCreate2 run by (simp add: rsa_method_defs)
next
  case (PrivCreate1 m e x n u v)
  obtain r k' l' where run: "rsa_create (rsgx_create_rsa_priv1_key (logged_rsa orc P) m e x n u v) m e k l = ((r, k'), l')"
    by (metis prod.exhaust)
  have "rsa_inv SGX_RSA_PRIVATE_KEY (k', l')"
    by (rule rsa_inv_create [OF assms run, where orc = orc]) (auto simp: rsgx_create_rsa_priv1_key_def logged_rsa_def)
  then show ?thesis using PrivCreate1 run by (simp add: rsa_method_defs)
next
  case (PrivDecrypt out len inp)
  have "rsa_inv SGX_RSA_PRIVATE_KEY (k, snd (rsa_use (rsa_crypt (sgx_rsa_priv_decrypt_sha256 (logged_rsa orc P))) out len inp k l))"
    by (rule rsa_inv_use [OF assms, where orc = orc]) (simp add: logged_rsa_def)
  then show ?thesis using PrivDecrypt by (simp add: rsa_method_defs)
next
  case PrivFree
  obtain r k' l' where run: "rsa_free (\<lambda>k. rsgx_free_rsa_key (logged_rsa orc P) k SGX_RSA_PRIVATE_KEY) k l = ((r, k'), l')"
    by (metis prod.exhaust)
  then show ?thesis using PrivFree rsa_inv_free [OF assms run] by (simp add: rsa_method_defs)
qed

lemma pub_step_inv:
  assumes "rsa_inv SGX_RSA_PUBLIC_KEY (k, l)"
  shows "rsa_inv SGX_RSA_PUBLIC_KEY (pub_step (logged_rsa orc P) op (k, l))"
proof (cases op)
  case (PubCreate m e n x)
  obtain r k' l' where run: "rsa_create (rsgx_create_rsa_pub1_key (logged_rsa orc P) m e n x) m e k l = ((r, k'), l')"
    by (metis prod.exhaust)
  have "rsa_inv SGX_RSA_PUBLIC_KEY (k', l')"
    by (rule rsa_inv_create [OF assms run, where orc = orc]) (auto simp: rsgx_create_rsa_pub1_key_def logged_rsa_def)
  then show ?thesis using PubCreate run by (simp add: rsa_method_defs)
next
  case (PubEncrypt out len inp)
  have "rsa_inv SGX_RSA_PUBLIC_KEY (k, snd (rsa_use (rsa_crypt (sgx_rsa_pub_encrypt_sha256 (logged_rsa orc P))) out len inp k l))"
    by (rule rsa_inv_use [OF assms, where orc = orc]) (simp add: logged_rsa_def)
  then show ?thesis using PubEncrypt by (simp add: rsa_method_defs)
next
  case PubFree
  obtain r k' l' where run: "rsa_free (\<lambda>k. rsgx_free_rsa_key (logged_rsa orc P) k SGX_RSA_PUBLIC_KEY) k l = ((r, k'), l')"
    by (metis prod.exhaust)
  then show ?thesis using PubFree rsa_inv_free [OF assms run] by (simp add: rsa_method_defs)
qed

lemma rsa_inv_new: "rsa_inv t (rsa_key_new, [])"
  by (simp add: rsa_inv_def rsa_key_new_def no_live_key_def)

lemma rsa_run_inv:
  assumes "\<And>op s. rsa_inv t s \<Longrightarrow> rsa_inv t (step op s)"
  shows "rsa_inv t (fold step ops (rsa_key_new, []))"
proof -
  have "rsa_inv t s \<Longrightarrow> rsa_inv t (fold step ops s)" for s
    by (induction ops arbitrary: s) (use assms in auto)
  then show ?thesis using rsa_inv_new by blast
qed

text \<open>
  Whatever an application calls on an RSA key object, and whatever the foreign library answers, the foreign calls come in order, the final drop included: a
  key is used or freed only while it is alive, it is freed with its own type and with the sizes it was created with, no null key is freed, and no key
  is created while another is alive; sizes that are not positive never reach the library.
\<close>

theorem rsa_calls_in_order:
  "(case fold (priv_step (logged_rsa orc P)) ops (SgxRsaPrivKey_new, []) of
      (k, l) \<Rightarrow> rsa_in_order SGX_RSA_PRIVATE_KEY (SgxRsaPrivKey_drop (logged_rsa orc P) k l)) \<and>
   (case fold (pub_step (logged_rsa orc P)) pops (SgxRsaPubKey_new, []) of
      (k, l) \<Rightarrow> rsa_in_order SGX_RSA_PUBLIC_KEY (SgxRsaPubKey_drop (logged_rsa orc P) k l))"
proof
  obtain k l where run: "fold (priv_step (logged_rsa orc P)) ops (rsa_key_new, []) = (k, l)" by fastforce
  have "rsa_inv SGX_RSA_PRIVATE_KEY (fold (priv_step (logged_rsa orc P)) ops (rsa_key_new, []))"
    by (rule rsa_run_inv) (metis priv_step_inv prod.collapse)
  then have "rsa_inv SGX_RSA_PRIVATE_KEY (k, l)" using run by simp
  then have "rsa_inv SGX_RSA_PRIVATE_KEY (priv_step (logged_rsa orc P) PrivFree (k, l))" by (rule priv_step_inv)
  then show "case fold (priv_step (logged_rsa orc P)) ops (SgxRsaPrivKey_new, []) of
      (k, l) \<Rightarrow> rsa_in_order SGX_RSA_PRIVATE_KEY (SgxRsaPrivKey_drop (logged_rsa orc P) k l)"
    using run by (simp add: SgxRsaPrivKey_new_def SgxRsaPrivKey_drop_def rsa_inv_def split: prod.splits)
next
  obtain k l where run: "fold (pub_step (logged_rsa orc P)) pops (rsa_key_new, []) = (k, l)" by fastforce
  have "rsa_inv SGX_RSA_PUBLIC_KEY (fold (pub_step (logged_rsa orc P)) pops (rsa_key_new, []))"
    by (rule rsa_run_inv) (metis pub_step_inv prod.collapse)
  then have "rsa_inv SGX_RSA_PUBLIC_KEY (k, l)" using run by simp
  then have "rsa_inv SGX_RSA_PUBLIC_KEY (pub_step (logged_rsa orc P) PubFree (k, l))" by (rule pub_step_inv)
  then show "case fold (pub_step (logged_rsa orc P)) pops (SgxRsaPubKey_new, []) of
      (k, l) \<Rightarrow> rsa_in_order SGX_RSA_PUBLIC_KEY (SgxRsaPubKey_drop (logged_rsa orc P) k l)"
    using run by (simp add: SgxRsaPubKey_new_def SgxRsaPubKey_drop_def rsa_inv_def split: prod.splits)
qed

section \<open>Buffers of a key pair\<close>

text \<open>The documentation of the library: on success the parts of the key fill their sizes, the factors half of the modulus.\<close>

definition fills_key_pair :: "('w, 'z) key_ffi_scheme \<Rightarrow> bool" where
  "fills_key_pair P \<longleftrightarrow> (\<forall>n e w. fst (fst (sgx_create_rsa_key_pair P n e w)) = SGX_SUCCESS \<longrightarrow>
     map length (snd (fst (sgx_create_rsa_key_pair P n e w))) =
       [nat n, nat n, nat e, nat n div 2, nat n div 2, nat n div 2, nat n div 2, nat n div 2])"

text \<open>
  \<^verbatim>\<open>rsgx_create_rsa_key_pair\<close> is a safe function, but it never compares the sizes with its buffers: with a library that fills the parts of a key, a
  successful call writes outside of a buffer exactly when one of the eight is shorter than its part.
\<close>

theorem create_rsa_key_pair_overflow_iff:
  assumes "fills_key_pair P" and "fst (fst (sgx_create_rsa_key_pair P n e w)) = SGX_SUCCESS"
    and "0 < n" and "0 < e" and "length bufs = 8" and "\<forall>b\<in>set bufs. b \<noteq> [] \<and> length b \<le> I32_MAX"
  shows "fst (rsgx_create_rsa_key_pair P n e bufs w) = Undef \<longleftrightarrow>
    (\<exists>i<8. length (bufs ! i) < [nat n, nat n, nat e, nat n div 2, nat n div 2, nat n div 2, nat n div 2, nat n div 2] ! i)"
proof -
  obtain outs w' where run: "sgx_create_rsa_key_pair P n e w = ((SGX_SUCCESS, outs), w')" using assms(2) by (metis prod.collapse)
  have sizes: "map length outs = [nat n, nat n, nat e, nat n div 2, nat n div 2, nat n div 2, nat n div 2, nat n div 2]"
    using assms(1,2) run unfolding fills_key_pair_def by (metis fst_conv snd_conv)
  have "length (map length outs) = 8" unfolding sizes by simp
  then have len: "length outs = 8" by simp
  have nth: "i < 8 \<Longrightarrow> length (outs ! i) = map length outs ! i" for i using len by simp
  have good: "\<not> (\<exists>b\<in>set bufs. bad_slice b)" using assms(6) by (auto simp: bad_slice_def)
  have "fst (rsgx_create_rsa_key_pair P n e bufs w) = Undef \<longleftrightarrow> write_bufs outs bufs = Undef"
    using assms(3,4) good run by (auto simp: rsgx_create_rsa_key_pair_def split: outcome.splits)
  also have "\<dots> \<longleftrightarrow> (\<exists>i<8. length (bufs ! i) < length (outs ! i))"
    using len assms(5) by (auto simp: write_bufs_def)
  also have "\<dots> \<longleftrightarrow> (\<exists>i<8. length (bufs ! i) < map length outs ! i)" using nth by auto
  finally show ?thesis unfolding sizes .
qed

definition filling_library :: "nat key_ffi" where
  "filling_library = (undefined :: nat key_ffi)\<lparr>sgx_create_rsa_key_pair := \<lambda>n e w.
     ((SGX_SUCCESS, map zeros [nat n, nat n, nat e, nat n div 2, nat n div 2, nat n div 2, nat n div 2, nat n div 2]), w)\<rparr>"

theorem create_rsa_key_pair_overflow_iff_witness:
  "fst (rsgx_create_rsa_key_pair filling_library 384 4 (replicate 8 (zeros 256)) 0) = Undef \<and>
   fst (rsgx_create_rsa_key_pair filling_library 384 4 (replicate 8 (zeros 384)) 0) \<noteq> Undef"
proof -
  have lib: "fills_key_pair filling_library" by (simp add: fills_key_pair_def filling_library_def)
  have ok: "fst (fst (sgx_create_rsa_key_pair filling_library 384 4 0)) = SGX_SUCCESS" by (simp add: filling_library_def)
  have small: "fst (rsgx_create_rsa_key_pair filling_library 384 4 (replicate 8 (zeros 256)) 0) = Undef"
    by (subst create_rsa_key_pair_overflow_iff [OF lib ok]) (auto simp: I32_MAX_def intro!: exI [of _ 0])
  have "\<not> (\<exists>i<8. length (replicate 8 (zeros 384) ! i) <
      [nat 384, nat 384, nat 4, nat 384 div 2, nat 384 div 2, nat 384 div 2, nat 384 div 2, nat 384 div 2] ! i)"
  proof -
    have "i = 0 \<or> i = 1 \<or> i = 2 \<or> i = 3 \<or> i = 4 \<or> i = 5 \<or> i = 6 \<or> i = 7" if "i < 8" for i :: nat using that by linarith
    then show ?thesis by (fastforce simp: nth_replicate)
  qed
  then have "fst (rsgx_create_rsa_key_pair filling_library 384 4 (replicate 8 (zeros 384)) 0) \<noteq> Undef"
    by (subst create_rsa_key_pair_overflow_iff [OF lib ok]) (simp_all add: I32_MAX_def)
  then show ?thesis using small by blast
qed

section \<open>Verification of signatures\<close>

lemma ecresult_valid_iff: "ret = SGX_SUCCESS \<Longrightarrow> ecresult_of ret v = SGX_EC_VALID \<longleftrightarrow> v = 0"
proof -
  have "ecresults ! n = SGX_EC_VALID \<longleftrightarrow> n = 0" if "n < length ecresults" for n
    using that unfolding ecresults_def by (auto simp: less_Suc_eq)
  then show "ret = SGX_SUCCESS \<Longrightarrow> ecresult_of ret v = SGX_EC_VALID \<longleftrightarrow> v = 0"
    by (auto simp: ecresult_of_def ecresult_from_repr_def ecresults_def unsigned_eq_0_iff)
qed

text \<open>A signature is accepted only when the library succeeded and reported exactly 0; every other byte, known or not, is a rejection.\<close>

lemma ecdsa_verify_accepts_iff:
  "SgxEccHandle_ecdsa_verify_msg P data pub signature h w = (Inr True, w') \<longleftrightarrow>
     initflag h \<and> size_ok data \<and> sgx_ecdsa_verify P data pub signature (hnd h) w = ((SGX_SUCCESS, 0), w')"
  "SgxEccHandle_ecdsa_verify_hash P hash pub signature h w = (Inr True, w') \<longleftrightarrow>
     initflag h \<and> sgx_ecdsa_verify_hash P hash pub signature (hnd h) w = ((SGX_SUCCESS, 0), w')"
  by (auto simp: SgxEccHandle_ecdsa_verify_msg_def rsgx_ecdsa_verify_msg_def SgxEccHandle_ecdsa_verify_hash_def rsgx_ecdsa_verify_hash_def
      ffi_result_def ecresult_valid_iff split: prod.splits if_splits)

text \<open>A length of more than \<open>2 ^ 31 - 1\<close> bytes passes the check of the HMAC functions and reaches the library as a negative number.\<close>

lemma hmac_length_negative: "I32_MAX < n \<Longrightarrow> n \<le> u32_max_nat \<Longrightarrow> as_i32 n = int n - 2 ^ 32"
proof -
  assume n: "I32_MAX < n" "n \<le> u32_max_nat"
  have "as_i32 n = signed_take_bit 31 (int n)"
    unfolding as_i32_def by transfer simp
  also have "\<dots> = (int n + 2 ^ 31) mod 2 ^ 32 - 2 ^ 31"
    by (simp add: signed_take_bit_eq_take_bit_shift take_bit_eq_mod)
  also have "(int n + 2 ^ 31) mod 2 ^ 32 = (int n + 2 ^ 31 - 2 ^ 32) mod 2 ^ 32" by (rule minus_mod_self2 [symmetric])
  also have "\<dots> = int n + 2 ^ 31 - 2 ^ 32" using n by (intro mod_pos_pos_trivial) (auto simp: I32_MAX_def)
  finally show "as_i32 n = int n - 2 ^ 32" by simp
qed

end
