(* ===== verification/Sgx_Leb128.thy ===== *)
theory Sgx_Leb128
  imports Sgx_Prelude
begin

text \<open>
  \<^verbatim>\<open>src/sgx_serialize/src/leb128.rs\<close>: the variable-length integer codec of the serializer. The writers call
  back for every byte, the readers index a slice and panic outside it. \<open>uleb\<close> and \<open>sleb\<close> are the
  arithmetic reference encodings over the natural numbers and the integers: the writers are proved to produce
  them, and the readers to consume them and return the value, except that the signed reader does not extend
  the sign of encodings of ten to eighteen bytes.
\<close>

type_synonym u128 = "128 word"
type_synonym i128 = "128 word"
type_synonym i32 = "32 word"

section \<open>Writers\<close>

definition write_to_vec :: "bytes \<Rightarrow> usize \<Rightarrow> u8 \<Rightarrow> bytes outcome" where
  "write_to_vec vec position byte =
     (if position = length vec then Ret (vec @ [byte])
      else if position < length vec then Ret (vec[position := byte])
      else Panic)"

lemma unat_drop_bit_7: "unat (drop_bit 7 (v :: 'a::len word)) = unat v div 128"
proof -
  have "unat (drop_bit 7 v) = drop_bit 7 (unat v)" by (rule unat_drop_bit_eq)
  then show ?thesis by (simp only: drop_bit_eq_div) simp
qed

lemma drop_bit_7_zero_iff: "drop_bit 7 (v :: 'a::len word) = 0 \<longleftrightarrow> unat v < 128"
  by (simp only: word_unat_eq_iff unat_drop_bit_7 unsigned_0) auto

lemma drop_bit_7_decreases:
  assumes "drop_bit 7 (v :: 'a::len word) \<noteq> 0"
  shows "unat (drop_bit 7 v) < unat v"
proof -
  have "v \<noteq> 0" using assms by auto
  then have "0 < unat v" by (simp add: unat_gt_0)
  then show ?thesis by (simp add: unat_drop_bit_7)
qed

text \<open>
  The callback \<^verbatim>\<open>write\<close> owns a state \<open>'s\<close>. A loop starts at position 0 and returns the number of bytes.
\<close>

function write_uleb_loop ::
  "u128 \<Rightarrow> (usize \<Rightarrow> u8 \<Rightarrow> 's \<Rightarrow> 's outcome) \<Rightarrow> usize \<Rightarrow> 's \<Rightarrow> (usize \<times> 's) outcome" where
  "write_uleb_loop value write position s =
     (let byte = ucast (value AND 0x7F) :: u8;
          value' = drop_bit 7 value;
          byte' = (if value' \<noteq> 0 then byte OR 0x80 else byte)
      in case write position byte' s of
           Panic \<Rightarrow> Panic | Undef \<Rightarrow> Undef
         | Ret s' \<Rightarrow> if value' = 0 then Ret (position + 1, s') else write_uleb_loop value' write (position + 1) s')"
  by pat_completeness auto

termination
  by (relation "measure (\<lambda>(value, _, _, _). unat value)") (auto simp: drop_bit_7_decreases)

definition write_unsigned_leb128_to ::
  "u128 \<Rightarrow> (usize \<Rightarrow> u8 \<Rightarrow> 's \<Rightarrow> 's outcome) \<Rightarrow> 's \<Rightarrow> (usize \<times> 's) outcome" where
  "write_unsigned_leb128_to value write s = write_uleb_loop value write 0 s"

definition write_unsigned_leb128 :: "bytes \<Rightarrow> usize \<Rightarrow> u128 \<Rightarrow> (usize \<times> bytes) outcome" where
  "write_unsigned_leb128 out start_position value =
     write_unsigned_leb128_to value (\<lambda>i v vec. write_to_vec vec (start_position + i) v) out"

lemma sint_signed_drop_bit_7: "sint (signed_drop_bit 7 (v :: 'a::len word)) = sint v div 128"
  by (simp add: sint_signed_drop_bit_eq drop_bit_eq_div)

lemma bit_byte_consts:
  "bit (0x7F :: int) n \<longleftrightarrow> n < 7" "bit (0x40 :: int) n \<longleftrightarrow> n = 6" "bit (0x80 :: int) n \<longleftrightarrow> n = 7"
proof -
  have "(0x7F :: int) = mask 7" by (simp add: mask_eq_exp_minus_1)
  then show "bit (0x7F :: int) n \<longleftrightarrow> n < 7" by (simp only: bit_mask_iff) simp
  show "bit (0x40 :: int) n \<longleftrightarrow> n = 6" using bit_exp_iff [of 6 n, where 'a = int] by auto
  show "bit (0x80 :: int) n \<longleftrightarrow> n = 7" using bit_exp_iff [of 7 n, where 'a = int] by auto
qed

lemma bit_6_test: "(ucast v AND 0x7F :: u8) AND 0x40 = 0 \<longleftrightarrow> \<not> bit (v :: i128) 6"
proof -
  have "((ucast v AND 0x7F :: u8) AND 0x40) = (if bit v 6 then 0x40 else 0)"
    by (rule bit_word_eqI) (auto simp: bit_simps bit_byte_consts)
  then show ?thesis by simp
qed

lemma sint_eq_iff: "(v :: 'a::len word) = w \<longleftrightarrow> sint v = sint w"
  by (rule word_eq_iff_signed)

lemma bit_6_sint: "bit (v :: i128) 6 \<longleftrightarrow> odd (sint v div 64)"
proof -
  have "bit v 6 = bit (sint v) 6" by (simp add: bit_sint_iff)
  then show ?thesis by (simp add: bit_iff_odd)
qed

text \<open>The sign bit of a byte is bit 6: the test on \<^verbatim>\<open>byte & 0x40\<close>, read as a number.\<close>

lemma sign_digit_nonneg: "x div 128 = 0 \<and> \<not> odd (x div 64) \<longleftrightarrow> 0 \<le> x \<and> x < (64 :: int)"
proof -
  have "x div 128 = x div 64 div 2" by (simp add: div_mult2_eq [symmetric])
  moreover have "x div 64 div 2 = 0 \<and> \<not> odd (x div 64) \<longleftrightarrow> x div 64 = 0" by auto
  moreover have "x div 64 = 0 \<longleftrightarrow> 0 \<le> x \<and> x < 64" by linarith
  ultimately show ?thesis by simp
qed

lemma sign_digit_neg: "x div 128 = - 1 \<and> \<not> \<not> odd (x div 64) \<longleftrightarrow> - 64 \<le> x \<and> x < (0 :: int)"
proof -
  have "x div 128 = x div 64 div 2" by (simp add: div_mult2_eq [symmetric])
  moreover have "x div 64 div 2 = - 1 \<and> \<not> \<not> odd (x div 64) \<longleftrightarrow> x div 64 = - 1"
    by (auto elim: oddE)
  moreover have "x div 64 = - 1 \<longleftrightarrow> - 64 \<le> x \<and> x < 0" by linarith
  ultimately show ?thesis by simp
qed

lemma sleb_stop_nonneg:
  fixes v :: i128
  shows "(signed_drop_bit 7 v = 0 \<and> (ucast v AND 0x7F :: u8) AND 0x40 = 0) \<longleftrightarrow> 0 \<le> sint v \<and> sint v < 64"
proof -
  have "signed_drop_bit 7 v = 0 \<longleftrightarrow> sint v div 128 = 0"
    by (simp add: sint_eq_iff sint_signed_drop_bit_7)
  then show ?thesis unfolding bit_6_test bit_6_sint using sign_digit_nonneg [of "sint v"] by simp
qed

lemma sleb_stop_neg:
  fixes v :: i128
  shows "(signed_drop_bit 7 v = - 1 \<and> (ucast v AND 0x7F :: u8) AND 0x40 \<noteq> 0) \<longleftrightarrow> - 64 \<le> sint v \<and> sint v < 0"
proof -
  have "signed_drop_bit 7 v = - 1 \<longleftrightarrow> sint v div 128 = - 1"
    by (simp add: sint_eq_iff sint_signed_drop_bit_7)
  then show ?thesis unfolding bit_6_test bit_6_sint using sign_digit_neg [of "sint v"] by simp
qed

lemma sleb_more_iff:
  fixes v :: i128
  shows "(\<not> ((signed_drop_bit 7 v = 0 \<and> (ucast v AND 0x7F :: u8) AND 0x40 = 0) \<or>
            (signed_drop_bit 7 v = - 1 \<and> (ucast v AND 0x7F :: u8) AND 0x40 \<noteq> 0)))
         \<longleftrightarrow> sint v < - 64 \<or> 64 \<le> sint v"
  unfolding sleb_stop_nonneg sleb_stop_neg by linarith

lemma sleb_decreases:
  fixes v :: i128
  assumes "sint v < - 64 \<or> 64 \<le> sint v"
  shows "nat \<bar>sint (signed_drop_bit 7 v)\<bar> < nat \<bar>sint v\<bar>"
proof -
  define q where "q = sint v div 128"
  have "128 * q \<le> sint v" and "sint v < 128 * q + 128" unfolding q_def by simp_all
  with assms have "\<bar>q\<bar> < \<bar>sint v\<bar>" by linarith
  then show ?thesis by (simp add: sint_signed_drop_bit_7 q_def)
qed

function write_sleb_loop ::
  "i128 \<Rightarrow> (usize \<Rightarrow> u8 \<Rightarrow> 's \<Rightarrow> 's outcome) \<Rightarrow> usize \<Rightarrow> 's \<Rightarrow> (usize \<times> 's) outcome" where
  "write_sleb_loop value write position s =
     (let byte = (ucast value :: u8) AND 0x7F;
          value' = signed_drop_bit 7 value;
          more = (\<not> ((value' = 0 \<and> byte AND 0x40 = 0) \<or> (value' = - 1 \<and> byte AND 0x40 \<noteq> 0)));
          byte' = (if more then byte OR 0x80 else byte)
      in case write position byte' s of
           Panic \<Rightarrow> Panic | Undef \<Rightarrow> Undef
         | Ret s' \<Rightarrow> if \<not> more then Ret (position + 1, s') else write_sleb_loop value' write (position + 1) s')"
  by pat_completeness auto

termination
proof (relation "measure (\<lambda>(value, _, _, _). nat \<bar>sint value\<bar>)", goal_cases)
  case 1
  then show ?case by simp
next
  case (2 v wr p s byte v2 more byte2 s2)
  then show ?case using sleb_decreases [of v] by (simp only: sleb_more_iff in_measure split_conv not_not) 
qed

definition write_signed_leb128_to ::
  "i128 \<Rightarrow> (usize \<Rightarrow> u8 \<Rightarrow> 's \<Rightarrow> 's outcome) \<Rightarrow> 's \<Rightarrow> (usize \<times> 's) outcome" where
  "write_signed_leb128_to value write s = write_sleb_loop value write 0 s"

definition write_signed_leb128 :: "bytes \<Rightarrow> usize \<Rightarrow> i128 \<Rightarrow> (usize \<times> bytes) outcome" where
  "write_signed_leb128 out start_position value =
     write_signed_leb128_to value (\<lambda>i v vec. write_to_vec vec (start_position + i) v) out"

section \<open>Readers\<close>

text \<open>
  \<^verbatim>\<open>shift\<close> is an \<^verbatim>\<open>i32\<close>. A shift by 128 or more panics when the crate is built with overflow checks (\<open>chk\<close>)
  and is taken modulo 128 otherwise; with the checks on, \<^verbatim>\<open>shift += 7\<close> itself cannot overflow.
\<close>

definition shl_panics :: "bool \<Rightarrow> i32 \<Rightarrow> bool" where
  "shl_panics chk shift \<longleftrightarrow> chk \<and> \<not> (0 \<le> sint shift \<and> sint shift < 128)"

definition shl_i32 :: "u128 \<Rightarrow> i32 \<Rightarrow> u128" where
  "shl_i32 x shift = push_bit (unat shift mod 128) x"

function read_uleb_loop :: "bool \<Rightarrow> bytes \<Rightarrow> u128 \<Rightarrow> i32 \<Rightarrow> usize \<Rightarrow> (u128 \<times> usize) outcome" where
  "read_uleb_loop chk data result shift position =
     (if position \<ge> length data then Panic
      else if shl_panics chk shift then Panic
      else let byte = data ! position;
               result' = result OR shl_i32 (ucast (byte AND 0x7F)) shift
           in if byte AND 0x80 = 0 then Ret (result', position + 1)
              else read_uleb_loop chk data result' (shift + 7) (position + 1))"
  by pat_completeness auto

termination
  by (relation "measure (\<lambda>(chk, data, _, _, position). length data - position)") auto

definition read_unsigned_leb128 :: "bool \<Rightarrow> bytes \<Rightarrow> usize \<Rightarrow> (u128 \<times> usize) outcome" where
  "read_unsigned_leb128 chk data start_position =
     (case read_uleb_loop chk data 0 0 start_position of
        Panic \<Rightarrow> Panic | Undef \<Rightarrow> Undef
      | Ret (result, position) \<Rightarrow> Ret (result, position - start_position))"

function read_sleb_loop :: "bool \<Rightarrow> bytes \<Rightarrow> i128 \<Rightarrow> i32 \<Rightarrow> usize \<Rightarrow> (i128 \<times> i32 \<times> u8 \<times> usize) outcome" where
  "read_sleb_loop chk data result shift position =
     (if position \<ge> length data then Panic
      else if shl_panics chk shift then Panic
      else let byte = data ! position;
               result' = result OR shl_i32 (ucast (byte AND 0x7F)) shift
           in if byte AND 0x80 = 0 then Ret (result', shift + 7, byte, position + 1)
              else read_sleb_loop chk data result' (shift + 7) (position + 1))"
  by pat_completeness auto

termination
  by (relation "measure (\<lambda>(chk, data, _, _, position). length data - position)") auto

definition read_signed_leb128 :: "bool \<Rightarrow> bytes \<Rightarrow> usize \<Rightarrow> (i128 \<times> usize) outcome" where
  "read_signed_leb128 chk data start_position =
     (case read_sleb_loop chk data 0 0 start_position of
        Panic \<Rightarrow> Panic | Undef \<Rightarrow> Undef
      | Ret (result, shift, byte, position) \<Rightarrow>
          if sint shift < 64 \<and> byte AND 0x40 \<noteq> 0
          then if shl_panics chk shift then Panic
               else Ret (result OR - shl_i32 1 shift, position - start_position)
          else Ret (result, position - start_position))"

declare write_uleb_loop.simps [simp del] write_sleb_loop.simps [simp del]
  read_uleb_loop.simps [simp del] read_sleb_loop.simps [simp del]

section \<open>Reference encodings\<close>

function uleb :: "nat \<Rightarrow> bytes" where
  "uleb n = (if n < 128 then [word_of_nat n] else word_of_nat (n mod 128 + 128) # uleb (n div 128))"
  by pat_completeness auto

termination
  by (relation "measure id") auto

function sleb :: "int \<Rightarrow> bytes" where
  "sleb n = (if - 64 \<le> n \<and> n < 64 then [word_of_int (n mod 128)]
             else word_of_int (n mod 128 + 128) # sleb (n div 128))"
  by pat_completeness auto

termination
  by (relation "measure (\<lambda>n. nat \<bar>n\<bar>)") auto

declare uleb.simps [simp del] sleb.simps [simp del]

section \<open>The writers produce the reference encodings\<close>

lemma write_to_vec_end [simp]: "position = length vec \<Longrightarrow> write_to_vec vec position byte = Ret (vec @ [byte])"
  by (simp add: write_to_vec_def)

lemma u8_eq_iff: "(a :: u8) = b \<longleftrightarrow> unat a = unat b"
  by (rule word_unat_eq_iff)

lemma low_byte: "(ucast (v AND 0x7F :: u128) :: u8) = word_of_nat (unat v mod 128)"
proof -
  have "(v AND 0x7F) = take_bit 7 v" by (rule bit_word_eqI) (auto simp: bit_simps bit_byte_consts)
  then have "unat (ucast (v AND 0x7F) :: u8) = take_bit 8 (take_bit 7 (unat v))"
    by (simp only: unsigned_ucast_eq unsigned_take_bit_eq) simp
  then show ?thesis by (simp add: u8_eq_iff unat_of_nat take_bit_eq_mod)
qed

lemma set_high_bit: "n < 128 \<Longrightarrow> (word_of_nat n :: u8) OR 0x80 = word_of_nat (n + 128)"
proof -
  assume n: "n < 128"
  have "\<not> bit n i" if "7 \<le> i" for i
    using n that power_increasing [of 7 i "2 :: nat"] by (simp add: bit_iff_odd)
  then have "(word_of_nat n :: u8) + 0x80 = word_of_nat n OR 0x80"
    by (intro disjunctive_add) (auto simp: bit_simps bit_byte_consts)
  then show ?thesis by simp
qed

lemma sint_mod_128: "int (unat (v :: i128) mod 128) = sint v mod 128"
proof -
  have "take_bit 7 (uint v) = take_bit 7 (sint v)"
    by (rule bit_eqI) (auto simp: bit_simps)
  then show ?thesis by (simp add: take_bit_eq_mod of_nat_mod)
qed

lemma low_byte_signed: "(ucast (v :: i128) :: u8) AND 0x7F = word_of_nat (nat (sint v mod 128))"
proof -
  have "(ucast v :: u8) AND 0x7F = ucast (v AND 0x7F)"
    by (rule bit_word_eqI) (auto simp: bit_simps bit_byte_consts)
  then show ?thesis by (metis low_byte nat_int sint_mod_128)
qed

lemma write_uleb_loop_eq:
  assumes "start + position = length vec"
  shows "write_uleb_loop v (\<lambda>i b vec. write_to_vec vec (start + i) b) position vec
           = Ret (position + length (uleb (unat v)), vec @ uleb (unat v))"
  using assms
proof (induction "unat v" arbitrary: v position vec rule: less_induct)
  case less
  show ?case
  proof (cases "unat v < 128")
    case True
    then have "drop_bit 7 v = 0" by (simp only: drop_bit_7_zero_iff)
    with True less.prems show ?thesis
      by (simp add: write_uleb_loop.simps [of v] uleb.simps [of "unat v"] low_byte)
  next
    case False
    then have nz: "drop_bit 7 v \<noteq> 0" by (simp only: drop_bit_7_zero_iff not_False_eq_True)
    from less.hyps [OF drop_bit_7_decreases [OF nz], of "position + 1"] less.prems False nz show ?thesis
      by (simp add: write_uleb_loop.simps [of v] uleb.simps [of "unat v"] low_byte set_high_bit unat_drop_bit_7)
  qed
qed

lemma write_sleb_loop_unfold:
  "write_sleb_loop v write position s =
     (let more = (sint v < - 64 \<or> 64 \<le> sint v);
          byte = (if more then word_of_int (sint v mod 128 + 128) else word_of_int (sint v mod 128))
      in case write position byte s of
           Panic \<Rightarrow> Panic | Undef \<Rightarrow> Undef
         | Ret s' \<Rightarrow> if more then write_sleb_loop (signed_drop_bit 7 v) write (position + 1) s'
                    else Ret (position + 1, s'))"
proof -
  have "(word_of_nat (nat (sint v mod 128)) :: u8) OR 0x80 = word_of_int (sint v mod 128 + 128)"
    by (subst set_high_bit) (simp_all add: nat_less_iff)
  moreover have "(word_of_nat (nat (sint v mod 128)) :: u8) = word_of_int (sint v mod 128)" by simp
  ultimately show ?thesis
    unfolding write_sleb_loop.simps [of v] Let_def unfolding sleb_more_iff unfolding low_byte_signed
    by (simp split: outcome.split)
qed

lemma write_sleb_loop_eq:
  assumes "start + position = length vec"
  shows "write_sleb_loop v (\<lambda>i b vec. write_to_vec vec (start + i) b) position vec
           = Ret (position + length (sleb (sint v)), vec @ sleb (sint v))"
  using assms
proof (induction "nat \<bar>sint v\<bar>" arbitrary: v position vec rule: less_induct)
  case less
  show ?case
  proof (cases "sint v < - 64 \<or> 64 \<le> sint v")
    case False
    with less.prems show ?thesis
      by (simp add: write_sleb_loop_unfold [of v] sleb.simps [of "sint v"])
  next
    case True
    from less.hyps [OF sleb_decreases [OF True], of "position + 1"] less.prems True show ?thesis
      by (auto simp: write_sleb_loop_unfold [of v] sleb.simps [of "sint v"] sint_signed_drop_bit_7)
  qed
qed

section \<open>The readers consume the reference encodings\<close>

lemma byte_last:
  assumes "n < 128"
  shows "(word_of_nat n :: u8) AND 0x80 = 0" and "(word_of_nat n :: u8) AND 0x7F = word_of_nat n"
proof -
  have high: "\<not> bit n i" if "7 \<le> i" for i
    using assms that power_increasing [of 7 i "2 :: nat"] by (simp add: bit_iff_odd)
  then show "(word_of_nat n :: u8) AND 0x80 = 0"
    by (intro bit_word_eqI) (auto simp: bit_simps bit_byte_consts)
  from high show "(word_of_nat n :: u8) AND 0x7F = word_of_nat n"
    by (intro bit_word_eqI) (auto simp: bit_simps bit_byte_consts not_less [symmetric])
qed

lemma byte_more:
  assumes "n < 128"
  shows "(word_of_nat (n + 128) :: u8) AND 0x80 \<noteq> 0" and "(word_of_nat (n + 128) :: u8) AND 0x7F = word_of_nat n"
proof -
  have "(word_of_nat n OR 0x80 :: u8) AND 0x80 = 0x80"
    by (rule bit_word_eqI) (auto simp: bit_simps bit_byte_consts)
  then show "(word_of_nat (n + 128) :: u8) AND 0x80 \<noteq> 0"
    unfolding set_high_bit [OF assms, symmetric] by simp
  have "(word_of_nat n OR 0x80 :: u8) AND 0x7F = word_of_nat n AND 0x7F"
    by (rule bit_word_eqI) (auto simp: bit_simps bit_byte_consts)
  then show "(word_of_nat (n + 128) :: u8) AND 0x7F = word_of_nat n"
    unfolding set_high_bit [OF assms, symmetric] by (simp add: byte_last [OF assms])
qed

lemma shift_ok:
  assumes "k \<le> 18"
  shows "\<not> shl_panics chk (word_of_nat (7 * k))" and "shl_i32 x (word_of_nat (7 * k)) = push_bit (7 * k) x"
proof -
  have k: "7 * k < 128" using assms by simp
  then have u: "unat (word_of_nat (7 * k) :: i32) = 7 * k" by (simp add: unat_of_nat del: of_nat_mult)
  then have "sint (word_of_nat (7 * k) :: i32) = int (7 * k)"
    using k by (simp add: sint_uint signed_take_bit_int_eq_self uint_nat)
  with k show "\<not> shl_panics chk (word_of_nat (7 * k))" by (simp add: shl_panics_def)
  from u k show "shl_i32 x (word_of_nat (7 * k)) = push_bit (7 * k) x" by (simp add: shl_i32_def)
qed

lemma acc_step:
  fixes v :: u128
  shows "take_bit m v OR push_bit m (take_bit 7 (drop_bit m v)) = take_bit (m + 7) v"
  by (rule bit_word_eqI) (auto simp: bit_simps)

lemma ucast_low: "n < 128 \<Longrightarrow> (ucast (word_of_nat n :: u8) :: u128) = word_of_nat n"
  by (simp add: word_unat_eq_iff unat_of_nat unsigned_ucast_eq take_bit_eq_mod)

lemma low_part: "word_of_nat (unat (x :: u128) mod 128) = take_bit 7 x"
proof -
  have "unat (take_bit 7 x) = take_bit 7 (unat x)" by (rule unsigned_take_bit_eq)
  then show ?thesis by (simp only: word_unat_eq_iff unat_of_nat take_bit_eq_mod) simp
qed

lemma take_bit_all: "drop_bit m (v :: 'a::len word) = 0 \<Longrightarrow> take_bit m v = v"
  using bits_ident [of m v] by simp

lemma uleb_more_index:
  fixes v :: u128
  assumes "\<not> unat (drop_bit (7 * k) v) < 128"
  shows "Suc k \<le> 18"
proof -
  have "unat (drop_bit (7 * k) v) = unat v div 2 ^ (7 * k)"
    using unat_drop_bit_eq [of "7 * k" v] by (simp only: drop_bit_eq_div)
  with assms have "128 * 2 ^ (7 * k) \<le> unat v" by (simp add: not_less less_eq_div_iff_mult_less_eq)
  also have "unat v < 2 ^ 128" using unat_less_pow [of v] by simp
  finally have "(2 :: nat) ^ (7 + 7 * k) < 2 ^ 128" by (simp only: power_add) simp
  then have "7 + 7 * k < 128" by (rule power_less_imp_less_exp [rotated]) simp
  then show ?thesis by simp
qed

lemma read_uleb_loop_eq:
  assumes "data = pre @ uleb (unat (drop_bit (7 * k) v)) @ post" and "k \<le> 18"
  shows "read_uleb_loop chk data (take_bit (7 * k) v) (word_of_nat (7 * k)) (length pre)
           = Ret (v, length pre + length (uleb (unat (drop_bit (7 * k) v))))"
  using assms
proof (induction "unat (drop_bit (7 * k) v)" arbitrary: k pre rule: less_induct)
  case less
  let ?x = "drop_bit (7 * k) v"
  have next_x: "drop_bit 7 ?x = drop_bit (7 * Suc k) v" by (simp add: drop_bit_drop_bit)
  have acc: "take_bit (7 * k) v OR push_bit (7 * k) (word_of_nat (unat ?x mod 128)) = take_bit (7 * Suc k) v"
    by (simp only: low_part acc_step) (simp add: add.commute)
  show ?case
  proof (cases "unat ?x < 128")
    case True
    then have "drop_bit 7 ?x = 0" by (simp only: drop_bit_7_zero_iff)
    then have "take_bit (7 * Suc k) v = v" using take_bit_all next_x by metis
    with acc True have res: "take_bit (7 * k) v OR push_bit (7 * k) (word_of_nat (unat ?x)) = v" by simp
    from True have enc: "uleb (unat ?x) = [word_of_nat (unat ?x)]" by (simp add: uleb.simps)
    show ?thesis
      unfolding less.prems(1) enc
      using res True byte_last [OF True] ucast_low [OF True] shift_ok [OF less.prems(2)]
      by (simp add: read_uleb_loop.simps [of _ _ "take_bit (7 * k) v"] nth_append)
  next
    case False
    then have nz: "drop_bit 7 ?x \<noteq> 0" by (simp only: drop_bit_7_zero_iff not_False_eq_True)
    have m: "unat ?x mod 128 < 128" by simp
    let ?b = "word_of_nat (unat ?x mod 128 + 128) :: u8"
    from False have enc: "uleb (unat ?x) = ?b # uleb (unat (drop_bit (7 * Suc k) v))"
      by (simp only: uleb.simps [of "unat ?x"] unat_drop_bit_7 next_x [symmetric] if_False)
    have "unat (drop_bit (7 * Suc k) v) < unat ?x"
      using drop_bit_7_decreases [OF nz] by (simp only: next_x)
    moreover have "data = (pre @ [?b]) @ uleb (unat (drop_bit (7 * Suc k) v)) @ post"
      using less.prems(1) enc by simp
    moreover have "Suc k \<le> 18" using uleb_more_index [OF False] .
    ultimately have "read_uleb_loop chk data (take_bit (7 * Suc k) v) (word_of_nat (7 * Suc k)) (length (pre @ [?b]))
        = Ret (v, length (pre @ [?b]) + length (uleb (unat (drop_bit (7 * Suc k) v))))"
      by (rule less.hyps)
    moreover have "word_of_nat (7 * k) + 7 = (word_of_nat (7 * Suc k) :: i32)" by simp
    ultimately show ?thesis
      unfolding enc
      using acc less.prems(1) byte_more [OF m] ucast_low [OF m] shift_ok [OF less.prems(2)] enc
      by (simp add: read_uleb_loop.simps [of _ _ "take_bit (7 * k) v"] nth_append del: mult_Suc_right of_nat_mult of_nat_add)
  qed
qed

lemma low_part_signed: "word_of_nat (nat (sint (x :: i128) mod 128)) = take_bit 7 x"
  by (metis low_part nat_int sint_mod_128)

lemma acc_step_signed:
  fixes v :: i128
  shows "take_bit m v OR push_bit m (take_bit 7 (signed_drop_bit m v)) = take_bit (m + 7) v"
  by (rule bit_word_eqI) (auto simp: bit_simps)

lemma sleb_bytes:
  fixes x :: i128
  shows "sleb (sint x) =
    (if - 64 \<le> sint x \<and> sint x < 64 then [word_of_nat (nat (sint x mod 128))]
     else word_of_nat (nat (sint x mod 128) + 128) # sleb (sint (signed_drop_bit 7 x)))"
  by (simp add: sleb.simps [of "sint x"] sint_signed_drop_bit_7)

lemma sleb_more_index:
  fixes v :: i128
  assumes "\<not> (- 64 \<le> sint (signed_drop_bit (7 * k) v) \<and> sint (signed_drop_bit (7 * k) v) < 64)"
  shows "Suc k \<le> 18"
proof -
  define d :: int where "d = 2 ^ (7 * k)"
  have d: "0 < d" by (simp add: d_def)
  have div: "sint (signed_drop_bit (7 * k) v) = sint v div d"
    by (simp add: d_def sint_signed_drop_bit_eq drop_bit_eq_div)
  have v: "- (2 ^ 127) \<le> sint v" "sint v < 2 ^ 127"
    using sint_greater_eq [of v] sint_less [of v] by simp_all
  have "64 * d < 2 ^ 127"
  proof (cases "sint v div d < - 64")
    case True
    then have "(sint v div d + 1) * d \<le> - 64 * d" using d by (intro mult_right_mono) auto
    moreover have "sint v < (sint v div d + 1) * d"
      using mult_div_mod_eq [of d "sint v"] pos_mod_bound [OF d, of "sint v"] by (simp only: mult.commute [of _ d] distrib_left)
    ultimately have "sint v < - 64 * d" by linarith
    with v show ?thesis by linarith
  next
    case False
    with assms div have "64 \<le> sint v div d" by linarith
    then have "64 * d \<le> (sint v div d) * d" using d by (intro mult_right_mono) auto
    also have "\<dots> \<le> sint v"
      using mult_div_mod_eq [of d "sint v"] pos_mod_sign [OF d, of "sint v"] by (simp only: mult.commute [of _ d])
    finally have "64 * d \<le> sint v" .
    with v show ?thesis by linarith
  qed
  then have "(2 :: int) ^ (6 + 7 * k) < 2 ^ 127" by (simp only: power_add d_def) simp
  then have "6 + 7 * k < 127" by (rule power_less_imp_less_exp [rotated]) simp
  then show ?thesis by simp
qed

lemma read_sleb_loop_eq:
  assumes "data = pre @ sleb (sint (signed_drop_bit (7 * k) v)) @ post" and "k \<le> 18"
  shows "let n = length (sleb (sint (signed_drop_bit (7 * k) v)))
         in read_sleb_loop chk data (take_bit (7 * k) v) (word_of_nat (7 * k)) (length pre)
            = Ret (take_bit (7 * (k + n)) v, word_of_nat (7 * (k + n)),
                   last (sleb (sint (signed_drop_bit (7 * k) v))), length pre + n)"
  using assms
proof (induction "nat \<bar>sint (signed_drop_bit (7 * k) v)\<bar>" arbitrary: k pre rule: less_induct)
  case less
  let ?x = "signed_drop_bit (7 * k) v"
  let ?m = "nat (sint ?x mod 128)"
  have m: "?m < 128" by (simp add: nat_less_iff)
  have next_x: "signed_drop_bit 7 ?x = signed_drop_bit (7 * Suc k) v" by simp
  have acc: "take_bit (7 * k) v OR push_bit (7 * k) (word_of_nat ?m) = take_bit (7 * Suc k) v"
    by (simp only: low_part_signed acc_step_signed) (simp add: add.commute)
  have sh: "word_of_nat (7 * k) + 7 = (word_of_nat (7 * Suc k) :: i32)" by simp
  show ?case
  proof (cases "- 64 \<le> sint ?x \<and> sint ?x < 64")
    case True
    then have enc: "sleb (sint ?x) = [word_of_nat ?m]" by (subst sleb_bytes) (simp only: if_True simp_thms)
    show ?thesis
      unfolding less.prems(1) enc Let_def
      using acc byte_last [OF m] ucast_low [OF m] shift_ok [OF less.prems(2)] sh
      by (simp add: read_sleb_loop.simps [of _ _ "take_bit (7 * k) v"] nth_append
          del: mult_Suc_right of_nat_mult of_nat_add word_of_nat_eq_iff)
  next
    case False
    let ?b = "word_of_nat (?m + 128) :: u8"
    let ?y = "sint (signed_drop_bit (7 * Suc k) v)"
    from False have enc: "sleb (sint ?x) = ?b # sleb ?y"
      by (simp only: sleb_bytes [of ?x] next_x if_False)
    have "nat \<bar>?y\<bar> < nat \<bar>sint ?x\<bar>"
      using sleb_decreases [of ?x] False by (simp only: next_x) linarith
    moreover have "data = (pre @ [?b]) @ sleb ?y @ post" using less.prems(1) enc by simp
    moreover have "Suc k \<le> 18" using sleb_more_index [OF False] .
    ultimately have "let n = length (sleb ?y)
        in read_sleb_loop chk data (take_bit (7 * Suc k) v) (word_of_nat (7 * Suc k)) (length (pre @ [?b]))
           = Ret (take_bit (7 * (Suc k + n)) v, word_of_nat (7 * (Suc k + n)), last (sleb ?y), length (pre @ [?b]) + n)"
      by (rule less.hyps)
    moreover have "sleb ?y \<noteq> []" by (subst sleb.simps) simp
    ultimately show ?thesis
      unfolding enc Let_def
      using acc less.prems(1) byte_more [OF m] ucast_low [OF m] shift_ok [OF less.prems(2)] enc sh
      by (simp add: read_sleb_loop.simps [of _ _ "take_bit (7 * k) v"] nth_append
          del: mult_Suc_right of_nat_mult of_nat_add)
  qed
qed

text \<open>The number of bytes and the sign in the last byte.\<close>

lemma length_sleb_le: "length (sleb i) \<le> Suc j \<longleftrightarrow> - (64 * 128 ^ j) \<le> i \<and> i < 64 * 128 ^ j"
proof (induction j arbitrary: i)
  case 0
  have "sleb (i div 128) \<noteq> []" by (subst sleb.simps) simp
  then show ?case by (auto simp: sleb.simps [of i])
next
  case (Suc j)
  have step: "(- (64 * 128 ^ j) \<le> i div 128 \<and> i div 128 < 64 * 128 ^ j)
      \<longleftrightarrow> - (64 * 128 ^ Suc j) \<le> i \<and> i < 64 * 128 ^ Suc j"
    by (simp add: less_eq_div_iff_mult_less_eq) linarith
  show ?case
  proof (cases "- 64 \<le> i \<and> i < 64")
    case True
    have "(1 :: int) \<le> 128 ^ Suc j" by (rule one_le_power) simp
    with True show ?thesis by (simp add: sleb.simps [of i])
  next
    case False
    then show ?thesis using Suc.IH [of "i div 128"] step by (auto simp: sleb.simps [of i])
  qed
qed

lemma sleb_nonempty [simp]: "sleb i \<noteq> []"
  by (subst sleb.simps) simp

lemma sign_of_last: "last (sleb i) AND 0x40 \<noteq> 0 \<longleftrightarrow> i < 0"
proof (induction i rule: sleb.induct)
  case (1 i)
  show ?case
  proof (cases "- 64 \<le> i \<and> i < 64")
    case True
    have "(word_of_int (i mod 128) AND 0x40 :: u8) = (if bit (i mod 128) 6 then 0x40 else 0)"
      by (rule bit_word_eqI) (auto simp: bit_simps bit_byte_consts)
    moreover have "bit (i mod 128) 6 \<longleftrightarrow> i < 0"
    proof (cases "i < 0")
      case neg: True
      have "i mod 128 = (i + 128) mod 128" by simp
      also have "\<dots> = i + 128" using True neg by (intro mod_pos_pos_trivial) auto
      finally have "i mod 128 div 64 = 1" using True neg by simp
      with neg show ?thesis by (simp add: bit_iff_odd)
    next
      case False
      with True have "i mod 128 div 64 = 0" by simp
      with False show ?thesis by (simp add: bit_iff_odd)
    qed
    ultimately show ?thesis using True by (simp add: sleb.simps [of i])
  next
    case False
    with 1 show ?thesis by (auto simp: sleb.simps [of i])
  qed
qed

lemma high_bits:
  fixes v :: i128
  assumes "- (2 ^ j) \<le> sint v" and "sint v < 2 ^ j" and "j \<le> i" and "i < 128"
  shows "bit v i \<longleftrightarrow> sint v < 0"
proof -
  have self: "signed_take_bit j (sint v) = sint v" using assms by (intro signed_take_bit_int_eq_self)
  have eq: "bit (sint v) n = bit (sint v) j" if "j \<le> n" for n
    using bit_signed_take_bit_iff [of j "sint v" n] that by (simp only: self min_absorb1 possible_bit_int simp_thms)
  have "bit (sint v) i = bit (sint v) 127"
    using eq [of i] eq [of 127] assms by linarith
  moreover have "sint v < 0 \<longleftrightarrow> bit v 127"
    by (simp add: sint_uint signed_take_bit_negative_iff bit_uint_iff)
  ultimately show ?thesis using assms by (simp add: bit_sint_iff)
qed

section \<open>Round trips\<close>

text \<open>
  The signed reader extends the sign only below a shift of 64, so a negative number whose encoding takes ten to
  eighteen bytes comes back without its high bits.
\<close>

definition sign_lost :: "i128 \<Rightarrow> bool" where
  "sign_lost v \<longleftrightarrow> - (2 ^ 125) \<le> sint v \<and> sint v < - (2 ^ 62)"

definition sleb_read_value :: "i128 \<Rightarrow> i128" where
  "sleb_read_value v = (if sign_lost v then take_bit (7 * length (sleb (sint v))) v else v)"

lemma sign_lost_iff: "sign_lost v \<longleftrightarrow> sint v < 0 \<and> 10 \<le> length (sleb (sint v)) \<and> length (sleb (sint v)) \<le> 18"
  using length_sleb_le [of "sint v" 8] length_sleb_le [of "sint v" 17] by (auto simp: sign_lost_def)

lemma length_sleb_le_19: "length (sleb (sint (v :: i128))) \<le> 19"
  using length_sleb_le [of "sint v" 18] sint_greater_eq [of v] sint_less [of v] by simp

lemma sleb_range:
  fixes v :: i128
  assumes "m = 7 * length (sleb (sint v))"
  shows "- (2 ^ (m - 1)) \<le> sint v" and "sint v < 2 ^ (m - 1)"
proof -
  obtain j where j: "length (sleb (sint v)) = Suc j" by (metis Suc_pred length_greater_0_conv sleb_nonempty)
  have "m - 1 = 6 + 7 * j" using assms j by simp
  then have "(2 :: int) ^ (m - 1) = 64 * 128 ^ j" by (simp add: power_add power_mult)
  then show "- (2 ^ (m - 1)) \<le> sint v" and "sint v < 2 ^ (m - 1)"
    using length_sleb_le [of "sint v" j] j by simp_all
qed

lemma sleb_result:
  fixes v :: i128
  assumes m: "m = 7 * length (sleb (sint v))"
  shows "\<not> sint v < 0 \<or> 128 \<le> m \<Longrightarrow> take_bit m v = v"
    and "sint v < 0 \<Longrightarrow> take_bit m v OR - push_bit m 1 = v"
proof -
  have high: "bit v i \<longleftrightarrow> sint v < 0" if "m \<le> i" "i < 128" for i
    using that by (intro high_bits [OF sleb_range [OF m]]) auto
  have "- push_bit m 1 = (NOT (mask m) :: i128)" by (simp add: minus_exp_eq_not_mask)
  with high show "sint v < 0 \<Longrightarrow> take_bit m v OR - push_bit m 1 = v"
    by (intro bit_word_eqI) (auto simp: bit_simps)
  have "bit v i \<Longrightarrow> i < m" if "\<not> sint v < 0" "i < 128" for i
    using high that by (meson not_less)
  then show "\<not> sint v < 0 \<or> 128 \<le> m \<Longrightarrow> take_bit m v = v"
    by (intro bit_word_eqI) (auto simp: bit_simps)
qed

lemma sint_shift: "n \<le> 19 \<Longrightarrow> sint (word_of_nat (7 * n) :: i32) = int (7 * n)"
  by (simp add: sint_uint uint_nat unat_of_nat signed_take_bit_int_eq_self del: of_nat_mult)

lemma read_unsigned_uleb:
  "read_unsigned_leb128 chk (pre @ uleb (unat v) @ post) (length pre) = Ret (v, length (uleb (unat v)))"
  using read_uleb_loop_eq [of _ pre 0 v post chk] by (simp add: read_unsigned_leb128_def)

lemma read_signed_sleb:
  "read_signed_leb128 chk (pre @ sleb (sint v) @ post) (length pre) = Ret (sleb_read_value v, length (sleb (sint v)))"
proof -
  let ?n = "length (sleb (sint v))"
  have loop: "read_sleb_loop chk (pre @ sleb (sint v) @ post) 0 0 (length pre)
      = Ret (take_bit (7 * ?n) v, word_of_nat (7 * ?n), last (sleb (sint v)), length pre + ?n)"
    using read_sleb_loop_eq [of "pre @ sleb (sint v) @ post" pre 0 v post chk] by (simp add: Let_def)
  note sh = sint_shift [OF length_sleb_le_19 [of v]]
  note res = sleb_result [OF refl, of v]
  show ?thesis
  proof (cases "sint v < 0 \<and> ?n \<le> 9")
    case True
    then have "\<not> shl_panics chk (word_of_nat (7 * ?n))" and "shl_i32 1 (word_of_nat (7 * ?n)) = push_bit (7 * ?n) 1"
      using shift_ok [of ?n] by auto
    moreover have "\<not> sign_lost v" using True by (simp add: sign_lost_iff)
    ultimately show ?thesis using True loop sh res
      by (simp add: read_signed_leb128_def sign_of_last [simplified] sleb_read_value_def del: of_nat_mult push_bit_of_1)
  next
    case False
    then have "\<not> (sint (word_of_nat (7 * ?n) :: i32) < 64 \<and> last (sleb (sint v)) AND 0x40 \<noteq> 0)"
      by (simp add: sh sign_of_last [simplified] del: of_nat_mult) linarith
    moreover have "take_bit (7 * ?n) v = sleb_read_value v"
      using False res length_sleb_le_19 [of v] by (auto simp: sleb_read_value_def sign_lost_iff)
    ultimately show ?thesis using loop by (auto simp: read_signed_leb128_def)
  qed
qed

lemma write_unsigned_uleb: "write_unsigned_leb128 out (length out) v = Ret (length (uleb (unat v)), out @ uleb (unat v))"
  using write_uleb_loop_eq [of "length out" 0 out v] by (simp add: write_unsigned_leb128_def write_unsigned_leb128_to_def)

lemma write_signed_sleb: "write_signed_leb128 out (length out) v = Ret (length (sleb (sint v)), out @ sleb (sint v))"
  using write_sleb_loop_eq [of "length out" 0 out v] by (simp add: write_signed_leb128_def write_signed_leb128_to_def)

lemma sleb_read_value_eq_iff: "sleb_read_value v = v \<longleftrightarrow> \<not> sign_lost v"
proof (cases "sign_lost v")
  case True
  let ?m = "7 * length (sleb (sint v))"
  have m: "?m < 128" and neg: "sint v < 0" using True by (auto simp: sign_lost_iff)
  have "bit v ?m" using high_bits [OF sleb_range [OF refl], of v ?m] m neg by simp
  then have "take_bit ?m v \<noteq> v" by (metis bit_take_bit_iff less_irrefl)
  with True show ?thesis by (simp add: sleb_read_value_def)
qed (simp add: sleb_read_value_def)

text \<open>A cast to at most 64 bits does not see the lost sign.\<close>

lemma ucast_sleb_read_value:
  assumes "LENGTH('a::len) \<le> 64"
  shows "(ucast (sleb_read_value v) :: 'a word) = ucast v"
proof (cases "sign_lost v")
  case True
  then have "64 \<le> 7 * length (sleb (sint v))" by (auto simp: sign_lost_iff)
  then show ?thesis using assms True
    by (intro bit_word_eqI) (auto simp: sleb_read_value_def bit_simps)
qed (simp add: sleb_read_value_def)

lemma read_uleb_loop_bounds:
  "read_uleb_loop chk data result shift position = Ret (v, p) \<Longrightarrow> position < p \<and> p \<le> length data"
proof (induction chk data result shift position rule: read_uleb_loop.induct)
  case (1 chk data result shift position)
  then show ?case
    by (subst (asm) (2) read_uleb_loop.simps) (fastforce simp: Let_def split: if_splits)
qed

lemma read_sleb_loop_bounds:
  "read_sleb_loop chk data result shift position = Ret (v, sh, b, p) \<Longrightarrow> position < p \<and> p \<le> length data"
proof (induction chk data result shift position rule: read_sleb_loop.induct)
  case (1 chk data result shift position)
  then show ?case
    by (subst (asm) (2) read_sleb_loop.simps) (fastforce simp: Let_def split: if_splits)
qed

section \<open>Properties\<close>

text \<open>
  The unsigned codec is a round trip for every 128 bit value, with and without overflow checks: what
  \<^verbatim>\<open>write_unsigned_leb128\<close> appends to a vector is read back by \<^verbatim>\<open>read_unsigned_leb128\<close> at the same offset,
  whatever follows, with the number of bytes written as the number of bytes read, and neither panics.
\<close>

theorem unsigned_leb128_roundtrip:
  "\<exists>n bs. write_unsigned_leb128 out (length out) v = Ret (n, out @ bs)
        \<and> read_unsigned_leb128 chk (out @ bs @ post) (length out) = Ret (v, n)"
  by (simp add: write_unsigned_uleb read_unsigned_uleb)

text \<open>
  C19: The signed codec is a round trip exactly outside the range from \<open>- 2 ^ 125\<close> up to \<open>- 2 ^ 62\<close>:
  \<^verbatim>\<open>read_signed_leb128\<close> extends the sign only when \<^verbatim>\<open>shift < 64\<close>, so these numbers, and only these, come back changed.
  The number of bytes is right for all of them.
\<close>

theorem signed_leb128_roundtrip_iff:
  "\<exists>n bs r. write_signed_leb128 out (length out) v = Ret (n, out @ bs)
        \<and> read_signed_leb128 chk (out @ bs @ post) (length out) = Ret (r, n)
        \<and> (r = v \<longleftrightarrow> \<not> (- (2 ^ 125) \<le> sint v \<and> sint v < - (2 ^ 62)))"
  by (simp add: write_signed_sleb read_signed_sleb sleb_read_value_eq_iff sign_lost_def)

end
