(* ===== verification/Sgx_Io_Cursor.thy ===== *)
theory Sgx_Io_Cursor
  imports Sgx_Prelude
begin

text \<open>
  \<^verbatim>\<open>src/sgx_tstd/src/io/cursor.rs\<close> with the parts of \<^verbatim>\<open>io/mod.rs\<close>, \<^verbatim>\<open>io/impls.rs\<close> and \<^verbatim>\<open>io/error.rs\<close> it rests on: the
  in-memory cursor, its reads, its seeks, and its two writes (into a slice of fixed size and into a vector that
  grows). A method takes the cursor and returns the new one; the buffers that are filled are returned too.
\<close>

section \<open>Errors\<close>

datatype ErrorKind =
    NotFound | PermissionDenied | ConnectionRefused | ConnectionReset | HostUnreachable
    | NetworkUnreachable | ConnectionAborted | NotConnected | AddrInUse | AddrNotAvailable
    | NetworkDown | BrokenPipe | AlreadyExists | WouldBlock | NotADirectory | IsADirectory
    | DirectoryNotEmpty | ReadOnlyFilesystem | FilesystemLoop | StaleNetworkFileHandle
    | InvalidInput | InvalidData | TimedOut | WriteZero | StorageFull | NotSeekable
    | FilesystemQuotaExceeded | FileTooLarge | ResourceBusy | ExecutableFileBusy | Deadlock
    | CrossesDevices | TooManyLinks | InvalidFilename | ArgumentListTooLong | Interrupted
    | Unsupported | UnexpectedEof | OutOfMemory | Other | Uncategorized | SgxError

record io_error =
  kind :: ErrorKind
  message :: string

type_synonym 'a io_result = "io_error + 'a"

definition const_io_error :: "ErrorKind \<Rightarrow> string \<Rightarrow> 'a io_result" where
  "const_io_error k msg = Inl \<lparr>kind = k, message = msg\<rparr>"

section \<open>Byte slices as readers and writers\<close>

text \<open>\<^verbatim>\<open>impl Read for &[u8]\<close>: the amount read, the rest of the slice, and the buffer.\<close>

definition slice_read :: "bytes \<Rightarrow> bytes \<Rightarrow> nat \<times> bytes \<times> bytes" where
  "slice_read self buf =
     (let amt = min (length buf) (length self); a = take amt self; b = drop amt self
      in (amt, b, if amt = 1 then buf[0 := a ! 0] else bsplice 0 a buf))"

definition slice_read_exact :: "bytes \<Rightarrow> bytes \<Rightarrow> unit io_result \<times> bytes \<times> bytes" where
  "slice_read_exact self buf =
     (if length buf > length self then (const_io_error UnexpectedEof ''failed to fill whole buffer'', self, buf)
      else let a = take (length buf) self; b = drop (length buf) self
           in (Inr (), b, if length buf = 1 then buf[0 := a ! 0] else a))"

text \<open>\<^verbatim>\<open>impl Write for &mut [u8]\<close>: the amount written and the whole slice as it is afterwards.\<close>

definition slice_write_bytes :: "bytes \<Rightarrow> bytes \<Rightarrow> nat \<times> bytes" where
  "slice_write_bytes self data =
     (let amt = min (length data) (length self) in (amt, bsplice 0 (take amt data) self))"

section \<open>The cursor\<close>

text \<open>
  The position is a \<^verbatim>\<open>u64\<close>: a number below \<open>2 ^ 64\<close>, that may lie behind the end of the buffer.
\<close>

record Cursor =
  inner :: bytes
  pos :: nat

definition Cursor_new :: "bytes \<Rightarrow> Cursor" where
  "Cursor_new i = \<lparr>inner = i, pos = 0\<rparr>"

definition into_inner :: "Cursor \<Rightarrow> bytes" where
  "into_inner self = inner self"

definition position :: "Cursor \<Rightarrow> nat" where
  "position self = pos self"

definition set_position :: "nat \<Rightarrow> Cursor \<Rightarrow> Cursor" where
  "set_position p self = self\<lparr>pos := p\<rparr>"

definition remaining_slice :: "Cursor \<Rightarrow> bytes" where
  "remaining_slice self = drop (min (pos self) (length (inner self))) (inner self)"

definition cursor_is_empty :: "Cursor \<Rightarrow> bool" where
  "cursor_is_empty self \<longleftrightarrow> pos self \<ge> length (inner self)"

definition cursor_clone_from :: "Cursor \<Rightarrow> Cursor \<Rightarrow> Cursor" where
  "cursor_clone_from self other = self\<lparr>inner := inner other, pos := pos other\<rparr>"

datatype SeekFrom = Start nat | End int | Current int

text \<open>\<^verbatim>\<open>u64::checked_add_signed\<close>.\<close>

definition checked_add_signed :: "nat \<Rightarrow> int \<Rightarrow> nat option" where
  "checked_add_signed base offset =
     (if 0 \<le> int base + offset \<and> int base + offset < 2 ^ 64 then Some (nat (int base + offset)) else None)"

definition seek :: "SeekFrom \<Rightarrow> Cursor \<Rightarrow> nat io_result \<times> Cursor" where
  "seek style self =
     (let go = (\<lambda>base_pos offset. case checked_add_signed base_pos offset of
                  Some n \<Rightarrow> (Inr n, self\<lparr>pos := n\<rparr>)
                | None \<Rightarrow> (const_io_error InvalidInput ''invalid seek to a negative or overflowing position'', self))
      in case style of
           Start n \<Rightarrow> (Inr n, self\<lparr>pos := n\<rparr>)
         | End n \<Rightarrow> go (length (inner self)) n
         | Current n \<Rightarrow> go (pos self) n)"

definition stream_len :: "Cursor \<Rightarrow> nat io_result \<times> Cursor" where
  "stream_len self = (Inr (length (inner self)), self)"

definition stream_position :: "Cursor \<Rightarrow> nat io_result \<times> Cursor" where
  "stream_position self = (Inr (pos self), self)"

text \<open>\<^verbatim>\<open>impl Read\<close> and \<^verbatim>\<open>impl BufRead\<close>.\<close>

definition cursor_read :: "bytes \<Rightarrow> Cursor \<Rightarrow> nat io_result \<times> bytes \<times> Cursor" where
  "cursor_read buf self =
     (case slice_read (remaining_slice self) buf of (n, _, buf') \<Rightarrow> (Inr n, buf', self\<lparr>pos := pos self + n\<rparr>))"

fun cursor_read_vectored_loop :: "nat \<Rightarrow> bytes list \<Rightarrow> Cursor \<Rightarrow> nat io_result \<times> bytes list \<times> Cursor" where
  "cursor_read_vectored_loop nread [] self = (Inr nread, [], self)"
| "cursor_read_vectored_loop nread (buf # bufs) self =
     (case cursor_read buf self of
        (Inl e, buf', self') \<Rightarrow> (Inl e, buf' # bufs, self')
      | (Inr n, buf', self') \<Rightarrow>
          if n < length buf then (Inr (nread + n), buf' # bufs, self')
          else (case cursor_read_vectored_loop (nread + n) bufs self' of (r, bufs', self'') \<Rightarrow> (r, buf' # bufs', self'')))"

definition cursor_read_vectored :: "bytes list \<Rightarrow> Cursor \<Rightarrow> nat io_result \<times> bytes list \<times> Cursor" where
  "cursor_read_vectored bufs self = cursor_read_vectored_loop 0 bufs self"

definition cursor_read_exact :: "bytes \<Rightarrow> Cursor \<Rightarrow> unit io_result \<times> bytes \<times> Cursor" where
  "cursor_read_exact buf self =
     (case slice_read_exact (remaining_slice self) buf of
        (Inl e, _, buf') \<Rightarrow> (Inl e, buf', self)
      | (Inr _, _, buf') \<Rightarrow> (Inr (), buf', self\<lparr>pos := pos self + length buf\<rparr>))"

definition fill_buf :: "Cursor \<Rightarrow> bytes io_result" where
  "fill_buf self = Inr (remaining_slice self)"

text \<open>\<^verbatim>\<open>consume\<close> adds what the caller gives, and wraps when overflow is not checked.\<close>

definition consume :: "nat \<Rightarrow> Cursor \<Rightarrow> Cursor" where
  "consume amt self = self\<lparr>pos := (pos self + amt) mod 2 ^ 64\<rparr>"

section \<open>Writing\<close>

definition slice_write :: "bytes \<Rightarrow> Cursor \<Rightarrow> nat io_result \<times> Cursor" where
  "slice_write buf self =
     (let p = min (pos self) (length (inner self))
      in case slice_write_bytes (drop p (inner self)) buf of
           (amt, tail) \<Rightarrow> (Inr amt, self\<lparr>inner := take p (inner self) @ tail, pos := pos self + amt\<rparr>))"

fun slice_write_vectored_loop :: "nat \<Rightarrow> bytes list \<Rightarrow> Cursor \<Rightarrow> nat io_result \<times> Cursor" where
  "slice_write_vectored_loop nwritten [] self = (Inr nwritten, self)"
| "slice_write_vectored_loop nwritten (buf # bufs) self =
     (case slice_write buf self of
        (Inl e, self') \<Rightarrow> (Inl e, self')
      | (Inr n, self') \<Rightarrow> if n < length buf then (Inr (nwritten + n), self')
                         else slice_write_vectored_loop (nwritten + n) bufs self')"

definition slice_write_vectored :: "bytes list \<Rightarrow> Cursor \<Rightarrow> nat io_result \<times> Cursor" where
  "slice_write_vectored bufs self = slice_write_vectored_loop 0 bufs self"

text \<open>
  The write into a vector first fills the gap up to the position with zeros; a gap above \<^verbatim>\<open>isize::MAX\<close> is a capacity
  overflow. A \<^verbatim>\<open>u64\<close> always fits a \<^verbatim>\<open>usize\<close> on the 64 bit target, so the conversion error does not arise.
\<close>

definition isize_max :: nat where
  "isize_max = 0x7FFFFFFFFFFFFFFF"

definition vec_write :: "bytes \<Rightarrow> Cursor \<Rightarrow> (nat io_result \<times> Cursor) outcome" where
  "vec_write buf self =
     (let p = pos self; len = length (inner self) in
      if len < p \<and> p > isize_max then Panic
      else let vec = (if len < p then inner self @ zeros (p - len) else inner self);
               space = length vec - p;
               left = take (min space (length buf)) buf;
               right = drop (min space (length buf)) buf
           in Ret (Inr (length buf), self\<lparr>inner := bsplice p left vec @ right, pos := p + length buf\<rparr>))"

fun vec_write_vectored_loop :: "nat \<Rightarrow> bytes list \<Rightarrow> Cursor \<Rightarrow> (nat io_result \<times> Cursor) outcome" where
  "vec_write_vectored_loop nwritten [] self = Ret (Inr nwritten, self)"
| "vec_write_vectored_loop nwritten (buf # bufs) self =
     (case vec_write buf self of
        Panic \<Rightarrow> Panic | Undef \<Rightarrow> Undef
      | Ret (Inl e, self') \<Rightarrow> Ret (Inl e, self')
      | Ret (Inr n, self') \<Rightarrow> vec_write_vectored_loop (nwritten + n) bufs self')"

definition vec_write_vectored :: "bytes list \<Rightarrow> Cursor \<Rightarrow> (nat io_result \<times> Cursor) outcome" where
  "vec_write_vectored bufs self = vec_write_vectored_loop 0 bufs self"

lemma vec_write_Inr: "vec_write buf self = Ret (r, self') \<Longrightarrow> r = Inr (length buf)"
  by (auto simp: vec_write_def Let_def split: if_splits)

text \<open>The provided method \<^verbatim>\<open>Write::write_all\<close> at \<^verbatim>\<open>Cursor<Vec<u8>>\<close>.\<close>

function write_all :: "bytes \<Rightarrow> Cursor \<Rightarrow> (unit io_result \<times> Cursor) outcome" where
  "write_all buf self =
     (if buf = [] then Ret (Inr (), self)
      else case vec_write buf self of
             Panic \<Rightarrow> Panic | Undef \<Rightarrow> Undef
           | Ret (Inl e, self') \<Rightarrow> if kind e = Interrupted then write_all buf self' else Ret (Inl e, self')
           | Ret (Inr n, self') \<Rightarrow>
               if n = 0 then Ret (const_io_error WriteZero ''failed to write whole buffer'', self')
               else if n > length buf then Panic
               else write_all (drop n buf) self')"
  by pat_completeness auto

termination
  by (relation "measure (\<lambda>(buf, _). length buf)") (auto dest: vec_write_Inr)

declare write_all.simps [simp del]

section \<open>Lemmas\<close>

lemma slice_read_eq: "slice_read self buf =
  (let amt = min (length buf) (length self) in (amt, drop amt self, take amt self @ drop amt buf))"
proof (cases buf)
  case Nil
  then show ?thesis by (simp add: slice_read_def bsplice_def)
next
  case (Cons x xs)
  then show ?thesis
    by (cases self) (auto simp: slice_read_def bsplice_def Let_def min_def)
qed

text \<open>The buffer as the write sees it: with the gap up to the position filled with zeros.\<close>

definition padded :: "Cursor \<Rightarrow> bytes" where
  "padded c = inner c @ zeros (pos c - length (inner c))"

lemma length_padded: "pos c \<le> length (padded c)"
  by (simp add: padded_def)

lemma vec_write_eq:
  assumes "pos c \<le> isize_max \<or> pos c \<le> length (inner c)"
  shows "vec_write buf c =
    Ret (Inr (length buf), c\<lparr>inner := bsplice (pos c) buf (padded c), pos := pos c + length buf\<rparr>)"
proof -
  let ?vec = "padded c" and ?p = "pos c"
  have vec: "(if length (inner c) < ?p then inner c @ zeros (?p - length (inner c)) else inner c) = ?vec"
    by (simp add: padded_def)
  have "bsplice ?p (take (min (length ?vec - ?p) (length buf)) buf) ?vec @ drop (min (length ?vec - ?p) (length buf)) buf
      = bsplice ?p buf ?vec"
  proof (cases "length buf \<le> length ?vec - ?p")
    case False
    with length_padded [of c] show ?thesis by (simp add: bsplice_def)
  qed (simp add: bsplice_def)
  with assms vec show ?thesis by (auto simp: vec_write_def Let_def)
qed

lemma write_all_eq:
  assumes "pos c \<le> isize_max \<or> pos c \<le> length (inner c)"
  shows "write_all buf c = Ret (Inr (), if buf = [] then c
           else c\<lparr>inner := bsplice (pos c) buf (padded c), pos := pos c + length buf\<rparr>)"
  using vec_write_eq [OF assms, of buf] by (simp add: write_all.simps [of buf] write_all.simps [of "[]"])

lemma slice_read_exact_ok:
  assumes "length buf \<le> length self"
  shows "slice_read_exact self buf = (Inr (), drop (length buf) self, take (length buf) self)"
proof (cases "length buf = 1")
  case True
  then obtain x where "buf = [x]" by (auto simp: length_Suc_conv)
  with assms show ?thesis by (cases self) (auto simp: slice_read_exact_def)
next
  case False
  with assms show ?thesis by (simp add: slice_read_exact_def)
qed

section \<open>Properties\<close>

text \<open>
  What a cursor writes into a vector is what it reads back: for a position that fits an allocation,
  \<^verbatim>\<open>vec_write\<close> accepts the whole buffer and moves behind it; seeking back and reading that many bytes gives
  the buffer and the position behind it again; the bytes before the position are the old ones, with zeros in the
  gap if the position was behind the end, and the bytes behind the buffer are the old ones.
\<close>

theorem vec_write_read_back:
  assumes "pos c \<le> isize_max"
  shows "\<exists>c'. vec_write buf c = Ret (Inr (length buf), c') \<and> pos c' = pos c + length buf
    \<and> cursor_read_exact (zeros (length buf)) (snd (seek (Start (pos c)) c')) = (Inr (), buf, c')
    \<and> take (pos c) (inner c') = take (pos c) (inner c @ zeros (pos c - length (inner c)))
    \<and> drop (pos c + length buf) (inner c') = drop (pos c + length buf) (inner c)"
proof -
  let ?c' = "c\<lparr>inner := bsplice (pos c) buf (padded c), pos := pos c + length buf\<rparr>"
  have w: "vec_write buf c = Ret (Inr (length buf), ?c')" using vec_write_eq assms by blast
  have pre: "take (pos c) (inner ?c') = take (pos c) (padded c)"
    using length_padded [of c] by (simp add: bsplice_def)
  have "inner ?c' = take (pos c) (padded c) @ buf @ drop (pos c + length buf) (padded c)"
    by (simp add: bsplice_def)
  moreover have "length (take (pos c) (padded c)) = pos c" using length_padded [of c] by simp
  ultimately have tail: "drop (pos c) (inner ?c') = buf @ drop (pos c + length buf) (padded c)"
    by (metis append_eq_conv_conj)
  have "drop (pos c + length buf) (inner ?c') = drop (length buf) (drop (pos c) (inner ?c'))"
    by (simp only: drop_drop add.commute)
  then have post: "drop (pos c + length buf) (inner ?c') = drop (pos c + length buf) (padded c)"
    by (simp only: tail) simp
  have "drop (pos c + length buf) (padded c) = drop (pos c + length buf) (inner c)"
    by (simp add: padded_def)
  moreover have "pos c \<le> length (inner ?c')" using length_padded [of c] by (simp add: bsplice_def)
  ultimately show ?thesis
    using w pre tail post
    by (intro exI [of _ ?c'])
      (simp add: seek_def Let_def cursor_read_exact_def remaining_slice_def slice_read_exact_ok padded_def)
qed

theorem vec_write_read_back_witness:
  "\<exists>c'. vec_write [7, 8] \<lparr>inner = [1, 2, 3, 4], pos = 1\<rparr> = Ret (Inr 2, c') \<and> pos c' = 3
    \<and> cursor_read_exact [0, 0] (snd (seek (Start 1) c')) = (Inr (), [7, 8], c')"
  using vec_write_read_back [of "\<lparr>inner = [1, 2, 3, 4], pos = 1\<rparr>" "[7, 8]"]
  by (simp add: isize_max_def numeral_2_eq_2) (auto simp: numeral_3_eq_3)

text \<open>
  A cursor over a slice never writes outside it: the slice keeps its length, the amount reported is what fits
  behind the position, exactly those bytes are the new ones, and the position moves by the amount.
\<close>

theorem slice_write_in_bounds:
  "let n = min (length buf) (length (inner c) - pos c)
   in slice_write buf c = (Inr n, c\<lparr>inner := bsplice (pos c) (take n buf) (inner c), pos := pos c + n\<rparr>)
      \<and> length (inner (snd (slice_write buf c))) = length (inner c)"
proof (cases "pos c \<le> length (inner c)")
  case True
  then show ?thesis
    by (auto simp: Let_def slice_write_def slice_write_bytes_def bsplice_def min_def add.commute)
next
  case False
  then show ?thesis
    by (simp add: Let_def slice_write_def slice_write_bytes_def bsplice_def)
qed

end
