(* ===== verification/Sgx_Serialize.thy ===== *)
theory Sgx_Serialize
  imports Sgx_Leb128 Sgx_Io_Cursor
begin

text \<open>
  \<^verbatim>\<open>src/sgx_serialize/src/serialize.rs\<close>: the traits \<^verbatim>\<open>Encoder\<close> and \<^verbatim>\<open>Decoder\<close> and the implementations of
  \<^verbatim>\<open>Serializable\<close> and \<^verbatim>\<open>DeSerializable\<close> for the types of the standard library. A trait is the record of its
  required methods, its provided methods are functions over that record, and a generic implementation is a
  polymorphic function that takes the implementation of its element type. The locale \<open>codec_pair\<close> is the contract
  of an encoder and a decoder that belong together; every implementation is proved once against it.
\<close>

section \<open>Methods: state, errors and panics\<close>

text \<open>
  A method changes the state of its encoder or decoder and returns a \<^verbatim>\<open>Result\<close>, or it panics. \<open>bindO\<close> is \<^verbatim>\<open>?\<close>.
\<close>

type_synonym ('s, 'e, 'a) op = "'s \<Rightarrow> (('e + 'a) \<times> 's) outcome"

definition okO :: "'a \<Rightarrow> ('s, 'e, 'a) op" where
  "okO x = (\<lambda>s. Ret (Inr x, s))"

definition errO :: "'e \<Rightarrow> ('s, 'e, 'a) op" where
  "errO e = (\<lambda>s. Ret (Inl e, s))"

definition panicO :: "('s, 'e, 'a) op" where
  "panicO = (\<lambda>s. Panic)"

definition bindO :: "('s, 'e, 'a) op \<Rightarrow> ('a \<Rightarrow> ('s, 'e, 'b) op) \<Rightarrow> ('s, 'e, 'b) op" where
  "bindO m f = (\<lambda>s. case m s of Panic \<Rightarrow> Panic | Undef \<Rightarrow> Undef
                  | Ret (Inl e, s') \<Rightarrow> Ret (Inl e, s') | Ret (Inr x, s') \<Rightarrow> f x s')"

lemma okO_apply [simp]: "okO x s = Ret (Inr x, s)"
  by (simp add: okO_def)

lemma bindO_Ret [simp]: "m s = Ret (Inr x, s') \<Longrightarrow> bindO m f s = f x s'"
  by (simp add: bindO_def)

lemma bindO_okO [simp]: "bindO (okO x) f = f x"
  by (simp add: bindO_def fun_eq_iff)

section \<open>The traits\<close>

text \<open>
  Floating point numbers are their bit patterns, a \<^verbatim>\<open>char\<close> is its scalar value, a \<^verbatim>\<open>str\<close> its UTF-8 bytes.
\<close>

type_synonym i8 = "8 word"
type_synonym i16 = "16 word"
type_synonym i64 = "64 word"
type_synonym isize = "64 word"

record ('s, 'e) Encoder =
  emit_nil :: "('s, 'e, unit) op"
  emit_usize :: "usize \<Rightarrow> ('s, 'e, unit) op"
  emit_u128 :: "u128 \<Rightarrow> ('s, 'e, unit) op"
  emit_u64 :: "u64 \<Rightarrow> ('s, 'e, unit) op"
  emit_u32 :: "u32 \<Rightarrow> ('s, 'e, unit) op"
  emit_u16 :: "u16 \<Rightarrow> ('s, 'e, unit) op"
  emit_u8 :: "u8 \<Rightarrow> ('s, 'e, unit) op"
  emit_isize :: "isize \<Rightarrow> ('s, 'e, unit) op"
  emit_i64 :: "i64 \<Rightarrow> ('s, 'e, unit) op"
  emit_i32 :: "i32 \<Rightarrow> ('s, 'e, unit) op"
  emit_i16 :: "i16 \<Rightarrow> ('s, 'e, unit) op"
  emit_i8 :: "i8 \<Rightarrow> ('s, 'e, unit) op"
  emit_bool :: "bool \<Rightarrow> ('s, 'e, unit) op"
  emit_f64 :: "u64 \<Rightarrow> ('s, 'e, unit) op"
  emit_f32 :: "u32 \<Rightarrow> ('s, 'e, unit) op"
  emit_char :: "u32 \<Rightarrow> ('s, 'e, unit) op"
  emit_str :: "bytes \<Rightarrow> ('s, 'e, unit) op"
  emit_i128 :: "i128 \<Rightarrow> ('s, 'e, unit) op"

record ('s, 'e) Decoder =
  read_nil :: "('s, 'e, unit) op"
  read_usize :: "('s, 'e, usize) op"
  read_u128 :: "('s, 'e, u128) op"
  read_u64 :: "('s, 'e, u64) op"
  read_u32 :: "('s, 'e, u32) op"
  read_u16 :: "('s, 'e, u16) op"
  read_u8 :: "('s, 'e, u8) op"
  read_isize :: "('s, 'e, isize) op"
  read_i128 :: "('s, 'e, i128) op"
  read_i64 :: "('s, 'e, i64) op"
  read_i32 :: "('s, 'e, i32) op"
  read_i16 :: "('s, 'e, i16) op"
  read_i8 :: "('s, 'e, i8) op"
  read_bool :: "('s, 'e, bool) op"
  read_f64 :: "('s, 'e, u64) op"
  read_f32 :: "('s, 'e, u32) op"
  read_char :: "('s, 'e, u32) op"
  read_str :: "('s, 'e, bytes) op"
  dec_error :: "string \<Rightarrow> 's \<Rightarrow> 'e \<times> 's"

text \<open>Provided methods of \<^verbatim>\<open>Encoder\<close>.\<close>

definition emit_enum :: "('s, 'e) Encoder \<Rightarrow> string \<Rightarrow> ('s, 'e, unit) op \<Rightarrow> ('s, 'e, unit) op" where
  "emit_enum E name f = f"

definition emit_enum_variant :: "('s, 'e) Encoder \<Rightarrow> string \<Rightarrow> usize \<Rightarrow> usize \<Rightarrow> ('s, 'e, unit) op \<Rightarrow> ('s, 'e, unit) op" where
  "emit_enum_variant E v_name v_id len f = bindO (emit_usize E v_id) (\<lambda>_. f)"

definition emit_enum_variant_arg :: "('s, 'e) Encoder \<Rightarrow> usize \<Rightarrow> ('s, 'e, unit) op \<Rightarrow> ('s, 'e, unit) op" where
  "emit_enum_variant_arg E a_idx f = f"

definition emit_enum_struct_variant :: "('s, 'e) Encoder \<Rightarrow> string \<Rightarrow> usize \<Rightarrow> usize \<Rightarrow> ('s, 'e, unit) op \<Rightarrow> ('s, 'e, unit) op" where
  "emit_enum_struct_variant E v_name v_id len f = emit_enum_variant E v_name v_id len f"

definition emit_enum_struct_variant_field :: "('s, 'e) Encoder \<Rightarrow> string \<Rightarrow> usize \<Rightarrow> ('s, 'e, unit) op \<Rightarrow> ('s, 'e, unit) op" where
  "emit_enum_struct_variant_field E f_name f_idx f = emit_enum_variant_arg E f_idx f"

definition emit_struct :: "('s, 'e) Encoder \<Rightarrow> string \<Rightarrow> usize \<Rightarrow> ('s, 'e, unit) op \<Rightarrow> ('s, 'e, unit) op" where
  "emit_struct E name len f = f"

definition emit_struct_field :: "('s, 'e) Encoder \<Rightarrow> string \<Rightarrow> usize \<Rightarrow> ('s, 'e, unit) op \<Rightarrow> ('s, 'e, unit) op" where
  "emit_struct_field E f_name f_idx f = f"

definition emit_tuple :: "('s, 'e) Encoder \<Rightarrow> usize \<Rightarrow> ('s, 'e, unit) op \<Rightarrow> ('s, 'e, unit) op" where
  "emit_tuple E len f = f"

definition emit_tuple_arg :: "('s, 'e) Encoder \<Rightarrow> usize \<Rightarrow> ('s, 'e, unit) op \<Rightarrow> ('s, 'e, unit) op" where
  "emit_tuple_arg E idx f = f"

definition emit_tuple_struct :: "('s, 'e) Encoder \<Rightarrow> string \<Rightarrow> usize \<Rightarrow> ('s, 'e, unit) op \<Rightarrow> ('s, 'e, unit) op" where
  "emit_tuple_struct E name len f = emit_tuple E len f"

definition emit_tuple_struct_arg :: "('s, 'e) Encoder \<Rightarrow> usize \<Rightarrow> ('s, 'e, unit) op \<Rightarrow> ('s, 'e, unit) op" where
  "emit_tuple_struct_arg E f_idx f = emit_tuple_arg E f_idx f"

definition emit_option :: "('s, 'e) Encoder \<Rightarrow> ('s, 'e, unit) op \<Rightarrow> ('s, 'e, unit) op" where
  "emit_option E f = emit_enum E ''Option'' f"

definition emit_option_none :: "('s, 'e) Encoder \<Rightarrow> ('s, 'e, unit) op" where
  "emit_option_none E  = emit_enum_variant E ''None'' 0 0 (okO ())"

definition emit_option_some :: "('s, 'e) Encoder \<Rightarrow> ('s, 'e, unit) op \<Rightarrow> ('s, 'e, unit) op" where
  "emit_option_some E f = emit_enum_variant E ''Some'' 1 1 f"

definition emit_seq :: "('s, 'e) Encoder \<Rightarrow> usize \<Rightarrow> ('s, 'e, unit) op \<Rightarrow> ('s, 'e, unit) op" where
  "emit_seq E len f = bindO (emit_usize E len) (\<lambda>_. f)"

definition emit_seq_elt :: "('s, 'e) Encoder \<Rightarrow> usize \<Rightarrow> ('s, 'e, unit) op \<Rightarrow> ('s, 'e, unit) op" where
  "emit_seq_elt E idx f = f"

definition emit_map :: "('s, 'e) Encoder \<Rightarrow> usize \<Rightarrow> ('s, 'e, unit) op \<Rightarrow> ('s, 'e, unit) op" where
  "emit_map E len f = bindO (emit_usize E len) (\<lambda>_. f)"

definition emit_map_elt_key :: "('s, 'e) Encoder \<Rightarrow> usize \<Rightarrow> ('s, 'e, unit) op \<Rightarrow> ('s, 'e, unit) op" where
  "emit_map_elt_key E idx f = f"

definition emit_map_elt_val :: "('s, 'e) Encoder \<Rightarrow> usize \<Rightarrow> ('s, 'e, unit) op \<Rightarrow> ('s, 'e, unit) op" where
  "emit_map_elt_val E idx f = f"

text \<open>Provided methods of \<^verbatim>\<open>Decoder\<close>.\<close>

definition read_enum :: "('s, 'e) Decoder \<Rightarrow> string \<Rightarrow> ('s, 'e, 't) op \<Rightarrow> ('s, 'e, 't) op" where
  "read_enum D name f = f"

definition read_enum_variant :: "('s, 'e) Decoder \<Rightarrow> string list \<Rightarrow> (usize \<Rightarrow> ('s, 'e, 't) op) \<Rightarrow> ('s, 'e, 't) op" where
  "read_enum_variant D names f = bindO (read_usize D) (\<lambda>disr. f disr)"

definition read_enum_variant_arg :: "('s, 'e) Decoder \<Rightarrow> usize \<Rightarrow> ('s, 'e, 't) op \<Rightarrow> ('s, 'e, 't) op" where
  "read_enum_variant_arg D a_idx f = f"

definition read_enum_struct_variant :: "('s, 'e) Decoder \<Rightarrow> string list \<Rightarrow> (usize \<Rightarrow> ('s, 'e, 't) op) \<Rightarrow> ('s, 'e, 't) op" where
  "read_enum_struct_variant D names f = read_enum_variant D names f"

definition read_enum_struct_variant_field :: "('s, 'e) Decoder \<Rightarrow> string \<Rightarrow> usize \<Rightarrow> ('s, 'e, 't) op \<Rightarrow> ('s, 'e, 't) op" where
  "read_enum_struct_variant_field D f_name f_idx f = read_enum_variant_arg D f_idx f"

definition read_struct :: "('s, 'e) Decoder \<Rightarrow> string \<Rightarrow> usize \<Rightarrow> ('s, 'e, 't) op \<Rightarrow> ('s, 'e, 't) op" where
  "read_struct D s_name len f = f"

definition read_struct_field :: "('s, 'e) Decoder \<Rightarrow> string \<Rightarrow> usize \<Rightarrow> ('s, 'e, 't) op \<Rightarrow> ('s, 'e, 't) op" where
  "read_struct_field D f_name f_idx f = f"

definition read_tuple :: "('s, 'e) Decoder \<Rightarrow> usize \<Rightarrow> ('s, 'e, 't) op \<Rightarrow> ('s, 'e, 't) op" where
  "read_tuple D len f = f"

definition read_tuple_arg :: "('s, 'e) Decoder \<Rightarrow> usize \<Rightarrow> ('s, 'e, 't) op \<Rightarrow> ('s, 'e, 't) op" where
  "read_tuple_arg D a_idx f = f"

definition read_tuple_struct :: "('s, 'e) Decoder \<Rightarrow> string \<Rightarrow> usize \<Rightarrow> ('s, 'e, 't) op \<Rightarrow> ('s, 'e, 't) op" where
  "read_tuple_struct D s_name len f = read_tuple D len f"

definition read_tuple_struct_arg :: "('s, 'e) Decoder \<Rightarrow> usize \<Rightarrow> ('s, 'e, 't) op \<Rightarrow> ('s, 'e, 't) op" where
  "read_tuple_struct_arg D a_idx f = read_tuple_arg D a_idx f"

definition fail_with :: "('s, 'e) Decoder \<Rightarrow> string \<Rightarrow> ('s, 'e, 't) op" where
  "fail_with D msg = (\<lambda>s. case dec_error D msg s of (e, s') \<Rightarrow> Ret (Inl e, s'))"

definition read_option :: "('s, 'e) Decoder \<Rightarrow> (bool \<Rightarrow> ('s, 'e, 't) op) \<Rightarrow> ('s, 'e, 't) op" where
  "read_option D f = 
     read_enum D ''Option''
       (read_enum_variant D [''None'', ''Some'']
          (\<lambda>idx. if idx = 0 then f False else if idx = 1 then f True
                 else fail_with D ''read_option: expected 0 for None or 1 for Some''))"

definition read_seq :: "('s, 'e) Decoder \<Rightarrow> (usize \<Rightarrow> ('s, 'e, 't) op) \<Rightarrow> ('s, 'e, 't) op" where
  "read_seq D f = bindO (read_usize D) (\<lambda>len. f len)"

definition read_seq_elt :: "('s, 'e) Decoder \<Rightarrow> usize \<Rightarrow> ('s, 'e, 't) op \<Rightarrow> ('s, 'e, 't) op" where
  "read_seq_elt D idx f = f"

definition read_map :: "('s, 'e) Decoder \<Rightarrow> (usize \<Rightarrow> ('s, 'e, 't) op) \<Rightarrow> ('s, 'e, 't) op" where
  "read_map D f = bindO (read_usize D) (\<lambda>len. f len)"

definition read_map_elt_key :: "('s, 'e) Decoder \<Rightarrow> usize \<Rightarrow> ('s, 'e, 't) op \<Rightarrow> ('s, 'e, 't) op" where
  "read_map_elt_key D idx f = f"

definition read_map_elt_val :: "('s, 'e) Decoder \<Rightarrow> usize \<Rightarrow> ('s, 'e, 't) op \<Rightarrow> ('s, 'e, 't) op" where
  "read_map_elt_val D idx f = f"

section \<open>Primitive implementations\<close>

text \<open>\<open>T::encode\<close> and \<open>T::decode\<close> for the primitive types hand over to the encoder and the decoder.\<close>

type_synonym ('s, 'e, 'a) encode = "('s, 'e) Encoder \<Rightarrow> 'a \<Rightarrow> ('s, 'e, unit) op"
type_synonym ('s, 'e, 'a) decode = "('s, 'e) Decoder \<Rightarrow> ('s, 'e, 'a) op"

definition encode_usize :: "('s, 'e, usize) encode" where
  "encode_usize E v = emit_usize E v"

definition decode_usize :: "('s, 'e, usize) decode" where
  "decode_usize D = read_usize D"

definition encode_u8 :: "('s, 'e, u8) encode" where
  "encode_u8 E v = emit_u8 E v"

definition decode_u8 :: "('s, 'e, u8) decode" where
  "decode_u8 D = read_u8 D"

definition encode_u16 :: "('s, 'e, u16) encode" where
  "encode_u16 E v = emit_u16 E v"

definition decode_u16 :: "('s, 'e, u16) decode" where
  "decode_u16 D = read_u16 D"

definition encode_u32 :: "('s, 'e, u32) encode" where
  "encode_u32 E v = emit_u32 E v"

definition decode_u32 :: "('s, 'e, u32) decode" where
  "decode_u32 D = read_u32 D"

definition encode_u64 :: "('s, 'e, u64) encode" where
  "encode_u64 E v = emit_u64 E v"

definition decode_u64 :: "('s, 'e, u64) decode" where
  "decode_u64 D = read_u64 D"

definition encode_u128 :: "('s, 'e, u128) encode" where
  "encode_u128 E v = emit_u128 E v"

definition decode_u128 :: "('s, 'e, u128) decode" where
  "decode_u128 D = read_u128 D"

definition encode_isize :: "('s, 'e, isize) encode" where
  "encode_isize E v = emit_isize E v"

definition decode_isize :: "('s, 'e, isize) decode" where
  "decode_isize D = read_isize D"

definition encode_i8 :: "('s, 'e, i8) encode" where
  "encode_i8 E v = emit_i8 E v"

definition decode_i8 :: "('s, 'e, i8) decode" where
  "decode_i8 D = read_i8 D"

definition encode_i16 :: "('s, 'e, i16) encode" where
  "encode_i16 E v = emit_i16 E v"

definition decode_i16 :: "('s, 'e, i16) decode" where
  "decode_i16 D = read_i16 D"

definition encode_i32 :: "('s, 'e, i32) encode" where
  "encode_i32 E v = emit_i32 E v"

definition decode_i32 :: "('s, 'e, i32) decode" where
  "decode_i32 D = read_i32 D"

definition encode_i64 :: "('s, 'e, i64) encode" where
  "encode_i64 E v = emit_i64 E v"

definition decode_i64 :: "('s, 'e, i64) decode" where
  "decode_i64 D = read_i64 D"

definition encode_i128 :: "('s, 'e, i128) encode" where
  "encode_i128 E v = emit_i128 E v"

definition decode_i128 :: "('s, 'e, i128) decode" where
  "decode_i128 D = read_i128 D"

definition encode_str :: "('s, 'e, bytes) encode" where
  "encode_str E v = emit_str E v"

definition encode_String :: "('s, 'e, bytes) encode" where
  "encode_String E v = emit_str E v"

definition decode_String :: "('s, 'e, bytes) decode" where
  "decode_String D = bindO (read_str D) (\<lambda>s. okO s)"

definition encode_f32 :: "('s, 'e, u32) encode" where
  "encode_f32 E v = emit_f32 E v"

definition decode_f32 :: "('s, 'e, u32) decode" where
  "decode_f32 D = read_f32 D"

definition encode_f64 :: "('s, 'e, u64) encode" where
  "encode_f64 E v = emit_f64 E v"

definition decode_f64 :: "('s, 'e, u64) decode" where
  "decode_f64 D = read_f64 D"

definition encode_bool :: "('s, 'e, bool) encode" where
  "encode_bool E v = emit_bool E v"

definition decode_bool :: "('s, 'e, bool) decode" where
  "decode_bool D = read_bool D"

definition encode_char :: "('s, 'e, u32) encode" where
  "encode_char E v = emit_char E v"

definition decode_char :: "('s, 'e, u32) decode" where
  "decode_char D = read_char D"

definition encode_unit :: "('s, 'e, unit) encode" where
  "encode_unit E v = emit_nil E"

definition decode_unit :: "('s, 'e, unit) decode" where
  "decode_unit D = read_nil D"

section \<open>Smart pointers, cells and paths\<close>

text \<open>A reference, a \<^verbatim>\<open>Box\<close>, \<^verbatim>\<open>Rc\<close>, \<^verbatim>\<open>Arc\<close> or \<^verbatim>\<open>Cell\<close> is the value it holds.\<close>

definition encode_ref :: "('s, 'e, 't) encode \<Rightarrow> ('s, 'e, 't) encode" where
  "encode_ref enc E v = enc E v"

definition encode_Box :: "('s, 'e, 't) encode \<Rightarrow> ('s, 'e, 't) encode" where
  "encode_Box enc E v = enc E v"

definition decode_Box :: "('s, 'e, 't) decode \<Rightarrow> ('s, 'e, 't) decode" where
  "decode_Box dec D = bindO (dec D) (\<lambda>v. okO v)"

definition encode_Rc :: "('s, 'e, 't) encode \<Rightarrow> ('s, 'e, 't) encode" where
  "encode_Rc enc E v = enc E v"

definition decode_Rc :: "('s, 'e, 't) decode \<Rightarrow> ('s, 'e, 't) decode" where
  "decode_Rc dec D = bindO (dec D) (\<lambda>v. okO v)"

definition encode_Arc :: "('s, 'e, 't) encode \<Rightarrow> ('s, 'e, 't) encode" where
  "encode_Arc enc E v = enc E v"

definition decode_Arc :: "('s, 'e, 't) decode \<Rightarrow> ('s, 'e, 't) decode" where
  "decode_Arc dec D = bindO (dec D) (\<lambda>v. okO v)"

definition encode_Cell :: "('s, 'e, 't) encode \<Rightarrow> ('s, 'e, 't) encode" where
  "encode_Cell enc E v = enc E v"

definition decode_Cell :: "('s, 'e, 't) decode \<Rightarrow> ('s, 'e, 't) decode" where
  "decode_Cell dec D = bindO (dec D) (\<lambda>v. okO v)"

text \<open>\<^verbatim>\<open>RefCell::borrow\<close> panics while the cell is mutably borrowed.\<close>

record 't RefCell =
  mutably_borrowed :: bool
  cell_value :: 't

definition encode_RefCell :: "('s, 'e, 't) encode \<Rightarrow> ('s, 'e, 't RefCell) encode" where
  "encode_RefCell enc E c = (if mutably_borrowed c then panicO else enc E (cell_value c))"

definition decode_RefCell :: "('s, 'e, 't) decode \<Rightarrow> ('s, 'e, 't RefCell) decode" where
  "decode_RefCell dec D = bindO (dec D) (\<lambda>v. okO \<lparr>mutably_borrowed = False, cell_value = v\<rparr>)"

text \<open>The bytes Rust accepts as a \<^verbatim>\<open>str\<close>: well-formed UTF-8.\<close>

definition utf8_cont :: "u8 \<Rightarrow> bool" where
  "utf8_cont b \<longleftrightarrow> 0x80 \<le> b \<and> b \<le> 0xBF"

fun utf8_valid :: "bytes \<Rightarrow> bool" where
  "utf8_valid [] = True"
| "utf8_valid (b # bs) =
     (if b < 0x80 then utf8_valid bs
      else if 0xC2 \<le> b \<and> b \<le> 0xDF then
        (case bs of c1 # r \<Rightarrow> utf8_cont c1 \<and> utf8_valid r | _ \<Rightarrow> False)
      else if 0xE0 \<le> b \<and> b \<le> 0xEF then
        (case bs of c1 # c2 # r \<Rightarrow>
           utf8_cont c1 \<and> (b = 0xE0 \<longrightarrow> 0xA0 \<le> c1) \<and> (b = 0xED \<longrightarrow> c1 \<le> 0x9F) \<and> utf8_cont c2 \<and> utf8_valid r
         | _ \<Rightarrow> False)
      else if 0xF0 \<le> b \<and> b \<le> 0xF4 then
        (case bs of c1 # c2 # c3 # r \<Rightarrow>
           utf8_cont c1 \<and> (b = 0xF0 \<longrightarrow> 0x90 \<le> c1) \<and> (b = 0xF4 \<longrightarrow> c1 \<le> 0x8F) \<and> utf8_cont c2 \<and> utf8_cont c3 \<and>
           utf8_valid r
         | _ \<Rightarrow> False)
      else False)"

text \<open>A path is its bytes; \<^verbatim>\<open>to_str().unwrap()\<close> panics on a path that is not UTF-8.\<close>

definition encode_PathBuf :: "('s, 'e, bytes) encode" where
  "encode_PathBuf E path = (if utf8_valid path then encode_str E path else panicO)"

definition decode_PathBuf :: "('s, 'e, bytes) decode" where
  "decode_PathBuf D = bindO (decode_String D) (\<lambda>b. okO b)"

section \<open>Sequences\<close>

text \<open>
  The loops: \<open>emit_elts\<close> is \<^verbatim>\<open>for (i, e) in self.iter().enumerate()\<close> with a \<^verbatim>\<open>?\<close> in its body, \<open>read_elts\<close> is
  \<^verbatim>\<open>for i in 0..len\<close> (with \<open>n\<close> turns left) whose body adds one element to the collection.
\<close>

primrec emit_elts :: "(usize \<Rightarrow> 'a \<Rightarrow> ('s, 'e, unit) op) \<Rightarrow> usize \<Rightarrow> 'a list \<Rightarrow> ('s, 'e, unit) op" where
  "emit_elts f i [] = okO ()"
| "emit_elts f i (e # es) = bindO (f i e) (\<lambda>_. emit_elts f (i + 1) es)"

primrec read_elts :: "(usize \<Rightarrow> ('s, 'e, 'a) op) \<Rightarrow> ('a \<Rightarrow> 'c \<Rightarrow> 'c) \<Rightarrow> usize \<Rightarrow> nat \<Rightarrow> 'c \<Rightarrow> ('s, 'e, 'c) op" where
  "read_elts f add i 0 c = okO c"
| "read_elts f add i (Suc n) c = bindO (f i) (\<lambda>x. read_elts f add (i + 1) n (add x c))"

abbreviation push :: "'a \<Rightarrow> 'a list \<Rightarrow> 'a list" where
  "push x v \<equiv> v @ [x]"

text \<open>
  Requests for memory whose size is read from the input: \<^verbatim>\<open>Vec::with_capacity\<close> panics above \<^verbatim>\<open>isize::MAX\<close> bytes, and
  aborts when the allocator does not grant the request. A hash table asks its own allocation routine. Both answers
  are parameters; memory that grows with the values themselves is taken as available.
\<close>

record alloc_env =
  heap_grants :: "nat \<Rightarrow> bool"
  table_grants :: "nat \<Rightarrow> nat \<Rightarrow> bool"

definition vec_with_capacity :: "alloc_env \<Rightarrow> nat \<Rightarrow> usize \<Rightarrow> bool" where
  "vec_with_capacity A sz len \<longleftrightarrow> len * sz = 0 \<or> len * sz \<le> isize_max \<and> heap_grants A (len * sz)"

definition encode_slice :: "('s, 'e, 't) encode \<Rightarrow> ('s, 'e, 't list) encode" where
  "encode_slice enc E v = emit_seq E (length v) (emit_elts (\<lambda>i e. emit_seq_elt E i (enc E e)) 0 v)"

definition encode_Vec :: "('s, 'e, 't) encode \<Rightarrow> ('s, 'e, 't list) encode" where
  "encode_Vec enc E v = emit_seq E (length v) (emit_elts (\<lambda>i e. emit_seq_elt E i (enc E e)) 0 v)"

definition decode_Vec :: "alloc_env \<Rightarrow> nat \<Rightarrow> ('s, 'e, 't) decode \<Rightarrow> ('s, 'e, 't list) decode" where
  "decode_Vec A sz dec D =
     read_seq D (\<lambda>len. if \<not> vec_with_capacity A sz len then panicO
                      else read_elts (\<lambda>i. read_seq_elt D i (dec D)) push 0 len [])"

definition decode_BoxSlice :: "alloc_env \<Rightarrow> nat \<Rightarrow> ('s, 'e, 't) decode \<Rightarrow> ('s, 'e, 't list) decode" where
  "decode_BoxSlice A sz dec D = bindO (decode_Vec A sz dec D) (\<lambda>v. okO v)"

definition encode_Cow :: "('s, 'e, 't) encode \<Rightarrow> ('s, 'e, 't list) encode" where
  "encode_Cow enc E v = emit_seq E (length v) (emit_elts (\<lambda>i e. emit_seq_elt E i (enc E e)) 0 v)"

definition decode_Cow :: "alloc_env \<Rightarrow> nat \<Rightarrow> ('s, 'e, 't) decode \<Rightarrow> ('s, 'e, 't list) decode" where
  "decode_Cow A sz dec D =
     read_seq D (\<lambda>len. if \<not> vec_with_capacity A sz len then panicO
                      else read_elts (\<lambda>i. read_seq_elt D i (dec D)) push 0 len [])"

definition encode_LinkedList :: "('s, 'e, 't) encode \<Rightarrow> ('s, 'e, 't list) encode" where
  "encode_LinkedList enc E v = emit_seq E (length v) (emit_elts (\<lambda>i e. emit_seq_elt E i (enc E e)) 0 v)"

definition decode_LinkedList :: "('s, 'e, 't) decode \<Rightarrow> ('s, 'e, 't list) decode" where
  "decode_LinkedList dec D = read_seq D (\<lambda>len. read_elts (\<lambda>i. read_seq_elt D i (dec D)) push 0 len [])"

definition encode_VecDeque :: "('s, 'e, 't) encode \<Rightarrow> ('s, 'e, 't list) encode" where
  "encode_VecDeque enc E v = emit_seq E (length v) (emit_elts (\<lambda>i e. emit_seq_elt E i (enc E e)) 0 v)"

definition decode_VecDeque :: "('s, 'e, 't) decode \<Rightarrow> ('s, 'e, 't list) decode" where
  "decode_VecDeque dec D = read_seq D (\<lambda>len. read_elts (\<lambda>i. read_seq_elt D i (dec D)) push 0 len [])"

text \<open>Arrays of fixed length \<open>n\<close> (the macro \<^verbatim>\<open>array!\<close>, for lengths up to 32).\<close>

definition encode_array :: "nat \<Rightarrow> ('s, 'e, 't) encode \<Rightarrow> ('s, 'e, 't list) encode" where
  "encode_array n enc E v = emit_seq E n (emit_elts (\<lambda>i e. emit_seq_elt E i (enc E (v ! i))) 0 [0..<n])"

definition decode_array :: "nat \<Rightarrow> ('s, 'e, 't) decode \<Rightarrow> ('s, 'e, 't list) decode" where
  "decode_array n dec D =
     read_seq D (\<lambda>len. if len \<noteq> n then fail_with D ''wrong array length''
                      else read_elts (\<lambda>i. read_seq_elt D i (dec D)) push 0 n [])"

section \<open>Options and tuples\<close>

definition encode_Option :: "('s, 'e, 't) encode \<Rightarrow> ('s, 'e, 't option) encode" where
  "encode_Option enc E v =
     emit_option E (case v of None \<Rightarrow> emit_option_none E | Some v \<Rightarrow> emit_option_some E (enc E v))"

definition decode_Option :: "('s, 'e, 't) decode \<Rightarrow> ('s, 'e, 't option) decode" where
  "decode_Option dec D = read_option D (\<lambda>b. if b then bindO (dec D) (\<lambda>v. okO (Some v)) else okO None)"

text \<open>The macro \<^verbatim>\<open>tuple!\<close> at two and at three components; the other arities repeat the same call.\<close>

definition encode_tuple2 :: "('s, 'e, 'a) encode \<Rightarrow> ('s, 'e, 'b) encode \<Rightarrow> ('s, 'e, 'a \<times> 'b) encode" where
  "encode_tuple2 enca encb E v =
     (case v of (a, b) \<Rightarrow>
        emit_tuple E 2 (bindO (emit_tuple_arg E 0 (enca E a)) (\<lambda>_. bindO (emit_tuple_arg E 1 (encb E b)) (\<lambda>_. okO ()))))"

definition decode_tuple2 :: "('s, 'e, 'a) decode \<Rightarrow> ('s, 'e, 'b) decode \<Rightarrow> ('s, 'e, 'a \<times> 'b) decode" where
  "decode_tuple2 deca decb D =
     read_tuple D 2 (bindO (read_tuple_arg D 0 (deca D)) (\<lambda>a. bindO (read_tuple_arg D 1 (decb D)) (\<lambda>b. okO (a, b))))"

definition encode_tuple3 ::
  "('s, 'e, 'a) encode \<Rightarrow> ('s, 'e, 'b) encode \<Rightarrow> ('s, 'e, 'c) encode \<Rightarrow> ('s, 'e, 'a \<times> 'b \<times> 'c) encode" where
  "encode_tuple3 enca encb encc E v =
     (case v of (a, b, c) \<Rightarrow>
        emit_tuple E 3 (bindO (emit_tuple_arg E 0 (enca E a)) (\<lambda>_. bindO (emit_tuple_arg E 1 (encb E b))
          (\<lambda>_. bindO (emit_tuple_arg E 2 (encc E c)) (\<lambda>_. okO ())))))"

definition decode_tuple3 ::
  "('s, 'e, 'a) decode \<Rightarrow> ('s, 'e, 'b) decode \<Rightarrow> ('s, 'e, 'c) decode \<Rightarrow> ('s, 'e, 'a \<times> 'b \<times> 'c) decode" where
  "decode_tuple3 deca decb decc D =
     read_tuple D 3 (bindO (read_tuple_arg D 0 (deca D)) (\<lambda>a. bindO (read_tuple_arg D 1 (decb D))
       (\<lambda>b. bindO (read_tuple_arg D 2 (decc D)) (\<lambda>c. okO (a, b, c)))))"

section \<open>Maps and sets\<close>

text \<open>
  A B-tree map is the list of its entries in the order of its keys; \<open>btree_insert\<close> is \<^verbatim>\<open>insert\<close>, which replaces
  the value of a key that is present. A hash map is a map; what is encoded is the list of its entries in the
  order its iterator happens to have. Sets are the same without values.
\<close>

primrec btree_insert :: "'k::linorder \<Rightarrow> 'v \<Rightarrow> ('k \<times> 'v) list \<Rightarrow> ('k \<times> 'v) list" where
  "btree_insert k v [] = [(k, v)]"
| "btree_insert k v (e # es) =
     (if k < fst e then (k, v) # e # es else if k = fst e then (k, v) # es else e # btree_insert k v es)"

definition emit_entry ::
  "('s, 'e, 'k) encode \<Rightarrow> ('s, 'e, 'v) encode \<Rightarrow> ('s, 'e) Encoder \<Rightarrow> usize \<Rightarrow> 'k \<times> 'v \<Rightarrow> ('s, 'e, unit) op" where
  "emit_entry enck encv E i e =
     bindO (emit_map_elt_key E i (enck E (fst e))) (\<lambda>_. emit_map_elt_val E i (encv E (snd e)))"

definition read_entry ::
  "('s, 'e, 'k) decode \<Rightarrow> ('s, 'e, 'v) decode \<Rightarrow> ('s, 'e) Decoder \<Rightarrow> usize \<Rightarrow> ('s, 'e, 'k \<times> 'v) op" where
  "read_entry deck decv D i =
     bindO (read_map_elt_key D i (deck D)) (\<lambda>k. bindO (read_map_elt_val D i (decv D)) (\<lambda>v. okO (k, v)))"

definition encode_BTreeMap :: "('s, 'e, 'k) encode \<Rightarrow> ('s, 'e, 'v) encode \<Rightarrow> ('s, 'e, ('k \<times> 'v) list) encode" where
  "encode_BTreeMap enck encv E m = emit_map E (length m) (emit_elts (emit_entry enck encv E) 0 m)"

definition decode_BTreeMap ::
  "('s, 'e, 'k::linorder) decode \<Rightarrow> ('s, 'e, 'v) decode \<Rightarrow> ('s, 'e, ('k \<times> 'v) list) decode" where
  "decode_BTreeMap deck decv D =
     read_map D (\<lambda>len. read_elts (read_entry deck decv D) (\<lambda>e m. btree_insert (fst e) (snd e) m) 0 len [])"

definition encode_BTreeSet :: "('s, 'e, 't) encode \<Rightarrow> ('s, 'e, 't list) encode" where
  "encode_BTreeSet enc E v = emit_seq E (length v) (emit_elts (\<lambda>i e. emit_seq_elt E i (enc E e)) 0 v)"

definition decode_BTreeSet :: "('s, 'e, 't::linorder) decode \<Rightarrow> ('s, 'e, 't list) decode" where
  "decode_BTreeSet dec D =
     read_seq D (\<lambda>len. read_elts (\<lambda>i. read_seq_elt D i (dec D)) (\<lambda>x v. map fst (btree_insert x () (map (\<lambda>y. (y, ())) v))) 0 len [])"

definition cap_capacity :: "nat \<Rightarrow> usize \<Rightarrow> usize" where
  "cap_capacity sz given_len =
     (if sz = 0 then min given_len 0x100000 else min given_len (0x100000 div sz))"

definition encode_HashMap :: "('s, 'e, 'k) encode \<Rightarrow> ('s, 'e, 'v) encode \<Rightarrow> ('s, 'e, ('k \<times> 'v) list) encode" where
  "encode_HashMap enck encv E m = emit_map E (length m) (emit_elts (emit_entry enck encv E) 0 m)"

definition decode_HashMap ::
  "alloc_env \<Rightarrow> nat \<Rightarrow> ('s, 'e, 'k) decode \<Rightarrow> ('s, 'e, 'v) decode \<Rightarrow> ('s, 'e, 'k \<rightharpoonup> 'v) decode" where
  "decode_HashMap A sz deck decv D =
     read_map D (\<lambda>len. if \<not> table_grants A sz (cap_capacity sz len) then panicO
                      else read_elts (read_entry deck decv D) (\<lambda>e m. m(fst e \<mapsto> snd e)) 0 len Map.empty)"

definition encode_HashSet :: "('s, 'e, 't) encode \<Rightarrow> ('s, 'e, 't list) encode" where
  "encode_HashSet enc E v = emit_seq E (length v) (emit_elts (\<lambda>i e. emit_seq_elt E i (enc E e)) 0 v)"

definition decode_HashSet :: "alloc_env \<Rightarrow> nat \<Rightarrow> ('s, 'e, 't) decode \<Rightarrow> ('s, 'e, 't set) decode" where
  "decode_HashSet A sz dec D =
     read_seq D (\<lambda>len. if \<not> table_grants A sz (cap_capacity sz len) then panicO
                      else read_elts (\<lambda>i. read_seq_elt D i (dec D)) insert 0 len {})"

section \<open>Rebuilding the collections\<close>

lemma btree_insert_last: "(\<And>e. e \<in> set m \<Longrightarrow> fst e < k) \<Longrightarrow> btree_insert k v m = m @ [(k, v)]"
proof (induction m)
  case (Cons e m)
  then have "fst e < k" by simp
  then have "\<not> k < fst e" and "k \<noteq> fst e" by auto
  with Cons show ?case by simp
qed simp

lemma fold_btree_insert:
  "sorted_wrt (<) (map fst (m @ es)) \<Longrightarrow> fold (\<lambda>e. btree_insert (fst e) (snd e)) es m = m @ es"
proof (induction es arbitrary: m)
  case (Cons e es)
  then have "btree_insert (fst e) (snd e) m = m @ [e]"
    by (subst btree_insert_last) (auto simp: sorted_wrt_append)
  with Cons show ?case by simp
qed simp

lemma fold_btree_set:
  "sorted_wrt (<) (v @ xs) \<Longrightarrow> fold (\<lambda>x v. map fst (btree_insert x () (map (\<lambda>y. (y, ())) v))) xs v = v @ xs"
proof (induction xs arbitrary: v)
  case (Cons x xs)
  then have "btree_insert x () (map (\<lambda>y. (y, ())) v) = map (\<lambda>y. (y, ())) v @ [(x, ())]"
    by (subst btree_insert_last) (auto simp: sorted_wrt_append)
  with Cons show ?case by (simp add: comp_def)
qed simp

lemma fold_map_upd: "distinct (map fst es) \<Longrightarrow> fold (\<lambda>e f. f(fst e \<mapsto> snd e)) es m = m ++ map_of es"
proof (induction es arbitrary: m)
  case (Cons e es)
  then have "fst e \<notin> dom (map_of es)" by (simp add: dom_map_of_conv_image_fst)
  then have "m(fst e \<mapsto> snd e) ++ map_of es = (m ++ map_of es)(fst e \<mapsto> snd e)"
    by (rule map_add_upd_left)
  moreover have "distinct (map fst es)" using Cons.prems by simp
  ultimately show ?case using Cons.IH [of "m(fst e \<mapsto> snd e)"]
    by (cases e) (simp only: fold_simps map_of.simps map_add_upd fst_conv snd_conv)
qed simp

lemma btree_insert_keys: "set (map fst (btree_insert k v m)) = insert k (set (map fst m))"
  by (induction m) auto

lemma btree_insert_sorted: "sorted_wrt (<) (map fst m) \<Longrightarrow> sorted_wrt (<) (map fst (btree_insert k v m))"
proof (induction m)
  case (Cons e m)
  then show ?case using btree_insert_keys [of k v m] by (auto simp: not_less_iff_gr_or_eq)
qed simp

lemma read_elts_invariant:
  assumes "\<And>x c. P c \<Longrightarrow> P (add x c)" and "P c" and "read_elts f add i n c s = Ret (Inr c', s')"
  shows "P c'"
  using assms(2,3)
proof (induction n arbitrary: i c s)
  case (Suc n)
  from Suc.prems(2) obtain x s1 where "read_elts f add (i + 1) n (add x c) s1 = Ret (Inr c', s')"
    by (auto simp: bindO_def split: outcome.splits prod.splits sum.splits)
  with Suc.IH Suc.prems(1) assms(1) show ?case by blast
qed simp

section \<open>The contract of an encoder and its decoder\<close>

text \<open>
  \<open>carries f g x\<close>: the encoding method \<open>f\<close> succeeds in every good state and appends some units, and the
  decoding method \<open>g\<close>, wherever it finds these units, succeeds with \<open>x\<close> and moves just behind them.
\<close>

definition carries ::
  "('s \<Rightarrow> bool) \<Rightarrow> ('s \<Rightarrow> 'b list \<Rightarrow> 's) \<Rightarrow> ('d \<Rightarrow> 'b list) \<Rightarrow> (nat \<Rightarrow> 'd \<Rightarrow> 'd) \<Rightarrow>
     ('s, 'e, unit) op \<Rightarrow> ('d, 'f, 'a) op \<Rightarrow> 'a \<Rightarrow> bool" where
  "carries good app rest adv f g x \<longleftrightarrow>
     (\<exists>bs. (\<forall>s. good s \<longrightarrow> f s = Ret (Inr (), app s bs)) \<and>
           (\<forall>d post. rest d = bs @ post \<longrightarrow> g d = Ret (Inr x, adv (length bs) d)))"

definition valid_char :: "u32 \<Rightarrow> bool" where
  "valid_char c \<longleftrightarrow> c < 0xD800 \<or> (0xDFFF < c \<and> c \<le> 0x10FFFF)"

locale codec_state =
  fixes good :: "'s \<Rightarrow> bool" and app :: "'s \<Rightarrow> 'b list \<Rightarrow> 's"
    and rest :: "'d \<Rightarrow> 'b list" and adv :: "nat \<Rightarrow> 'd \<Rightarrow> 'd"
  assumes good_app: "good s \<Longrightarrow> good (app s bs)"
    and app_Nil: "good s \<Longrightarrow> app s [] = s"
    and app_app: "good s \<Longrightarrow> app (app s bs) cs = app s (bs @ cs)"
    and rest_adv: "rest (adv n d) = drop n (rest d)"
    and adv_0: "adv 0 d = d"
    and adv_adv: "adv m (adv n d) = adv (n + m) d"
begin

abbreviation carry :: "('s, 'e, unit) op \<Rightarrow> ('d, 'f, 'a) op \<Rightarrow> 'a \<Rightarrow> bool" where
  "carry \<equiv> carries good app rest adv"

lemma carry_ok: "carry (okO ()) (okO x) x"
  unfolding carries_def by (rule exI [of _ "[]"]) (simp add: app_Nil adv_0)

lemma carry_bind:
  assumes "carry f g x" and "carry f' (g' x) y"
  shows "carry (bindO f (\<lambda>_. f')) (bindO g g') y"
proof -
  obtain bs where bs: "\<And>s. good s \<Longrightarrow> f s = Ret (Inr (), app s bs)"
    "\<And>d post. rest d = bs @ post \<Longrightarrow> g d = Ret (Inr x, adv (length bs) d)"
    using assms(1) unfolding carries_def by blast
  obtain cs where cs: "\<And>s. good s \<Longrightarrow> f' s = Ret (Inr (), app s cs)"
    "\<And>d post. rest d = cs @ post \<Longrightarrow> g' x d = Ret (Inr y, adv (length cs) d)"
    using assms(2) unfolding carries_def by blast
  have "bindO f (\<lambda>_. f') s = Ret (Inr (), app s (bs @ cs))" if "good s" for s
    using that bs(1) cs(1) by (simp add: good_app app_app)
  moreover have "bindO g g' d = Ret (Inr y, adv (length (bs @ cs)) d)" if "rest d = (bs @ cs) @ post" for d post
  proof -
    have "rest (adv (length bs) d) = cs @ post" using that by (simp add: rest_adv)
    with bs(2) [of d "cs @ post"] cs(2) that show ?thesis by (simp add: adv_adv)
  qed
  ultimately show ?thesis unfolding carries_def by blast
qed

lemma carry_tail:
  assumes "carry f g x"
  shows "carry f (bindO g (\<lambda>x. okO (h x))) (h x)"
proof -
  have "bindO g (\<lambda>x. okO (h x)) d = Ret (Inr (h x), d')" if "g d = Ret (Inr x, d')" for d d'
    using that by simp
  with assms show ?thesis unfolding carries_def by blast
qed

lemma carry_elts:
  assumes "\<And>i x. x \<in> set xs \<Longrightarrow> carry (f i x) (g i) x"
  shows "carry (emit_elts f i xs) (read_elts g add i (length xs) c) (fold add xs c)"
  using assms
proof (induction xs arbitrary: i c)
  case Nil
  show ?case by (simp only: emit_elts.simps read_elts.simps list.size fold_simps carry_ok)
next
  case (Cons x xs)
  have "carry (f i x) (g i) x" using Cons.prems by simp
  moreover have "carry (emit_elts f (i + 1) xs) (read_elts g add (i + 1) (length xs) (add x c)) (fold add xs (add x c))"
    using Cons.prems by (intro Cons.IH) simp
  ultimately show ?case by (simp add: carry_bind)
qed

end

locale codec_pair = codec_state good app rest adv
  for good :: "'s \<Rightarrow> bool" and app :: "'s \<Rightarrow> 'b list \<Rightarrow> 's"
    and rest :: "'d \<Rightarrow> 'b list" and adv :: "nat \<Rightarrow> 'd \<Rightarrow> 'd" +
  fixes E :: "('s, 'e) Encoder" and D :: "('d, 'f) Decoder"
  assumes nil: "carries good app rest adv (emit_nil E) (read_nil D) ()"
    and usize: "n < 2 ^ 64 \<Longrightarrow> carries good app rest adv (emit_usize E n) (read_usize D) n"
    and u128: "carries good app rest adv (emit_u128 E w128) (read_u128 D) w128"
    and u64: "carries good app rest adv (emit_u64 E w64) (read_u64 D) w64"
    and u32: "carries good app rest adv (emit_u32 E w32) (read_u32 D) w32"
    and u16: "carries good app rest adv (emit_u16 E w16) (read_u16 D) w16"
    and u8: "carries good app rest adv (emit_u8 E w8) (read_u8 D) w8"
    and isize: "carries good app rest adv (emit_isize E w64) (read_isize D) w64"
    and i128: "\<not> sign_lost w128 \<Longrightarrow> carries good app rest adv (emit_i128 E w128) (read_i128 D) w128"
    and i64: "carries good app rest adv (emit_i64 E w64) (read_i64 D) w64"
    and i32: "carries good app rest adv (emit_i32 E w32) (read_i32 D) w32"
    and i16: "carries good app rest adv (emit_i16 E w16) (read_i16 D) w16"
    and i8: "carries good app rest adv (emit_i8 E w8) (read_i8 D) w8"
    and bool: "carries good app rest adv (emit_bool E b) (read_bool D) b"
    and f64: "carries good app rest adv (emit_f64 E w64) (read_f64 D) w64"
    and f32: "carries good app rest adv (emit_f32 E w32) (read_f32 D) w32"
    and char: "valid_char w32 \<Longrightarrow> carries good app rest adv (emit_char E w32) (read_char D) w32"
    and str: "utf8_valid v \<Longrightarrow> length v < 2 ^ 64 \<Longrightarrow> carries good app rest adv (emit_str E v) (read_str D) v"
begin

lemmas prims = nil usize u128 u64 u32 u16 u8 isize i128 i64 i32 i16 i8 bool f64 f32 char str

lemmas prim_defs = encode_usize_def decode_usize_def encode_u8_def decode_u8_def encode_u16_def decode_u16_def
  encode_u32_def decode_u32_def encode_u64_def decode_u64_def encode_u128_def decode_u128_def
  encode_isize_def decode_isize_def encode_i8_def decode_i8_def encode_i16_def decode_i16_def
  encode_i32_def decode_i32_def encode_i64_def decode_i64_def encode_i128_def decode_i128_def
  encode_f32_def decode_f32_def encode_f64_def decode_f64_def encode_bool_def decode_bool_def
  encode_char_def decode_char_def encode_unit_def decode_unit_def

lemma carry_String:
  "utf8_valid v \<Longrightarrow> length v < 2 ^ 64 \<Longrightarrow> carry (encode_String E v) (decode_String D) v"
  unfolding encode_String_def decode_String_def by (rule carry_tail [where h = "\<lambda>x. x"]) (rule str)

lemma carry_PathBuf:
  "utf8_valid v \<Longrightarrow> length v < 2 ^ 64 \<Longrightarrow> carry (encode_PathBuf E v) (decode_PathBuf D) v"
  using carry_tail [OF carry_String, of v "\<lambda>x. x"]
  by (simp add: encode_PathBuf_def decode_PathBuf_def encode_str_def encode_String_def)

lemma carry_pointer:
  assumes "carry (enc E v) (dec D) v"
  shows "carry (encode_Box enc E v) (decode_Box dec D) v" "carry (encode_Rc enc E v) (decode_Rc dec D) v"
    "carry (encode_Arc enc E v) (decode_Arc dec D) v" "carry (encode_Cell enc E v) (decode_Cell dec D) v"
  using carry_tail [OF assms, of "\<lambda>x. x"]
  by (simp_all add: encode_Box_def decode_Box_def encode_Rc_def decode_Rc_def encode_Arc_def decode_Arc_def
      encode_Cell_def decode_Cell_def)

lemma carry_RefCell:
  assumes "carry (enc E (cell_value c)) (dec D) (cell_value c)" and "\<not> mutably_borrowed c"
  shows "carry (encode_RefCell enc E c) (decode_RefCell dec D) c"
  using carry_tail [OF assms(1), of "\<lambda>v. \<lparr>mutably_borrowed = False, cell_value = v\<rparr>"] assms(2)
  by (cases c) (simp add: encode_RefCell_def decode_RefCell_def)

text \<open>Everything that is a length followed by the elements.\<close>

lemma carry_seq:
  assumes "\<And>x. x \<in> set xs \<Longrightarrow> carry (enc x) dec x" and "length xs < 2 ^ 64" and "ok (length xs)"
  shows "carry (emit_seq E (length xs) (emit_elts (\<lambda>i e. emit_seq_elt E i (enc e)) 0 xs))
    (read_seq D (\<lambda>len. if \<not> ok len then panicO else read_elts (\<lambda>i. read_seq_elt D i dec) add 0 len c))
    (fold add xs c)"
  unfolding emit_seq_def read_seq_def emit_seq_elt_def read_seq_elt_def
  using assms by (intro carry_bind [OF usize]) (auto intro: carry_elts)

lemma fold_push: "fold (\<lambda>x v. v @ [x]) xs ys = ys @ xs"
  by (induction xs arbitrary: ys) simp_all

lemma carry_Vec:
  assumes "\<And>x. x \<in> set xs \<Longrightarrow> carry (enc E x) (dec D) x" and "length xs < 2 ^ 64"
    and "vec_with_capacity A sz (length xs)"
  shows "carry (encode_Vec enc E xs) (decode_Vec A sz dec D) xs"
  unfolding encode_Vec_def decode_Vec_def
  using carry_seq [where ok = "vec_with_capacity A sz" and add = push and c = "[]", OF assms] by (simp add: fold_push)

lemma carry_slice_forms:
  assumes "\<And>x. x \<in> set xs \<Longrightarrow> carry (enc E x) (dec D) x" and "length xs < 2 ^ 64"
    and "vec_with_capacity A sz (length xs)"
  shows "carry (encode_slice enc E xs) (decode_BoxSlice A sz dec D) xs"
    and "carry (encode_Cow enc E xs) (decode_Cow A sz dec D) xs"
  using carry_Vec [of xs enc dec A sz] carry_tail [of "encode_Vec enc E xs" "decode_Vec A sz dec D" xs "\<lambda>v. v"] assms
  by (simp_all add: encode_slice_def encode_Vec_def decode_BoxSlice_def encode_Cow_def decode_Cow_def decode_Vec_def)

lemma carry_list_forms:
  assumes "\<And>x. x \<in> set xs \<Longrightarrow> carry (enc E x) (dec D) x" and "length xs < 2 ^ 64"
  shows "carry (encode_LinkedList enc E xs) (decode_LinkedList dec D) xs"
    and "carry (encode_VecDeque enc E xs) (decode_VecDeque dec D) xs"
  using carry_seq [where ok = "\<lambda>_. True" and add = push and c = "[]", OF assms]
  by (simp_all add: encode_LinkedList_def decode_LinkedList_def encode_VecDeque_def decode_VecDeque_def fold_push)

lemma emit_elts_nth: "emit_elts (\<lambda>i e. f i (xs ! i)) k [k..<length xs] = emit_elts f k (drop k xs)"
proof (induction "length xs - k" arbitrary: k)
  case 0
  then show ?case by simp
next
  case (Suc n)
  then have k: "k < length xs" by simp
  from Suc.hyps(1) [of "Suc k"] Suc.hyps(2) k show ?case
    by (simp add: upt_conv_Cons Cons_nth_drop_Suc [OF k, symmetric])
qed

lemma carry_array:
  assumes "\<And>x. x \<in> set xs \<Longrightarrow> carry (enc E x) (dec D) x" and "length xs = n" and "n < 2 ^ 64"
  shows "carry (encode_array n enc E xs) (decode_array n dec D) xs"
proof -
  have "carry (bindO (emit_usize E n) (\<lambda>_. emit_elts (\<lambda>i e. enc E e) 0 xs))
     (bindO (read_usize D) (\<lambda>len. if len \<noteq> n then fail_with D ''wrong array length''
        else read_elts (\<lambda>i. dec D) push 0 n [])) xs"
    using carry_elts [of xs "\<lambda>i. enc E" "\<lambda>i. dec D" 0 push "[]"] assms
    by (intro carry_bind [OF usize]) (auto simp: fold_push)
  then show ?thesis
    using emit_elts_nth [of "\<lambda>i. enc E" xs 0] assms(2)
    unfolding encode_array_def decode_array_def emit_seq_def read_seq_def emit_seq_elt_def read_seq_elt_def by simp
qed

lemma carry_Option:
  assumes "\<And>x. v = Some x \<Longrightarrow> carry (enc E x) (dec D) x"
  shows "carry (encode_Option enc E v) (decode_Option dec D) v"
proof (cases v)
  case None
  show ?thesis
    unfolding None encode_Option_def decode_Option_def emit_option_def emit_enum_def emit_option_none_def
      emit_enum_variant_def read_option_def read_enum_def read_enum_variant_def option.case
    by (rule carry_bind [OF usize [of 0]]) (simp_all only: simp_thms if_True if_False carry_ok, simp)
next
  case (Some x)
  have "carry (enc E x) (bindO (dec D) (\<lambda>v. okO (Some v))) (Some x)" using assms Some by (intro carry_tail)
  then show ?thesis
    unfolding Some encode_Option_def decode_Option_def emit_option_def emit_enum_def emit_option_some_def
      emit_enum_variant_def read_option_def read_enum_def read_enum_variant_def option.case
    by (intro carry_bind [OF usize [of 1]]) simp_all
qed

lemma carry_tuple2:
  assumes "carry (enca E a) (deca D) a" and "carry (encb E b) (decb D) b"
  shows "carry (encode_tuple2 enca encb E (a, b)) (decode_tuple2 deca decb D) (a, b)"
  unfolding encode_tuple2_def decode_tuple2_def emit_tuple_def emit_tuple_arg_def read_tuple_def read_tuple_arg_def
  unfolding prod.case by (intro carry_bind [OF assms(1)] carry_bind [OF assms(2)]  carry_ok)

lemma carry_tuple3:
  assumes "carry (enca E a) (deca D) a" and "carry (encb E b) (decb D) b" and "carry (encc E c) (decc D) c"
  shows "carry (encode_tuple3 enca encb encc E (a, b, c)) (decode_tuple3 deca decb decc D) (a, b, c)"
  unfolding encode_tuple3_def decode_tuple3_def emit_tuple_def emit_tuple_arg_def read_tuple_def read_tuple_arg_def
  unfolding prod.case by (intro carry_bind [OF assms(1)] carry_bind [OF assms(2)] carry_bind [OF assms(3)] carry_ok)

lemma carry_map:
  assumes "\<And>k v. (k, v) \<in> set m \<Longrightarrow> carry (enck E k) (deck D) k \<and> carry (encv E v) (decv D) v"
    and "length m < 2 ^ 64" and "ok (length m)"
  shows "carry (emit_map E (length m) (emit_elts (emit_entry enck encv E) 0 m))
    (read_map D (\<lambda>len. if \<not> ok len then panicO else read_elts (read_entry deck decv D) add 0 len c))
    (fold add m c)"
proof -
  have "carry (emit_entry enck encv E i e) (read_entry deck decv D i) e" if "e \<in> set m" for i e
    unfolding emit_entry_def read_entry_def emit_map_elt_key_def emit_map_elt_val_def
      read_map_elt_key_def read_map_elt_val_def
    using assms(1) [of "fst e" "snd e"] that carry_tail [of "encv E (snd e)" "decv D" "snd e" "\<lambda>v. (fst e, v)"]
    by (intro carry_bind) auto
  then show ?thesis
    unfolding emit_map_def read_map_def using assms(2,3)
    by (intro carry_bind [OF usize]) (auto intro: carry_elts)
qed

lemma carry_BTreeMap:
  assumes "\<And>k v. (k, v) \<in> set m \<Longrightarrow> carry (enck E k) (deck D) k \<and> carry (encv E v) (decv D) v"
    and "length m < 2 ^ 64" and "sorted_wrt (<) (map fst m)"
  shows "carry (encode_BTreeMap enck encv E m) (decode_BTreeMap deck decv D) m"
  unfolding encode_BTreeMap_def decode_BTreeMap_def
  using carry_map [of m enck deck encv decv "\<lambda>_. True" "\<lambda>e. btree_insert (fst e) (snd e)" "[]"] assms(1,2)
    fold_btree_insert [of "[]" m] assms(3) by simp

lemma carry_BTreeSet:
  assumes "\<And>x. x \<in> set xs \<Longrightarrow> carry (enc E x) (dec D) x" and "length xs < 2 ^ 64" and "sorted_wrt (<) xs"
  shows "carry (encode_BTreeSet enc E xs) (decode_BTreeSet dec D) xs"
  unfolding encode_BTreeSet_def decode_BTreeSet_def
  using carry_seq [where ok = "\<lambda>_. True" and add = "\<lambda>x v. map fst (btree_insert x () (map (\<lambda>y. (y, ())) v))"
      and c = "[]", OF assms(1,2)]
    fold_btree_set [of "[]" xs] assms(3) by simp

lemma carry_HashMap:
  assumes "\<And>k v. (k, v) \<in> set m \<Longrightarrow> carry (enck E k) (deck D) k \<and> carry (encv E v) (decv D) v"
    and "length m < 2 ^ 64" and "table_grants A sz (cap_capacity sz (length m))" and "distinct (map fst m)"
  shows "carry (encode_HashMap enck encv E m) (decode_HashMap A sz deck decv D) (map_of m)"
  unfolding encode_HashMap_def decode_HashMap_def
  using carry_map [of m enck deck encv decv "\<lambda>len. table_grants A sz (cap_capacity sz len)"
      "\<lambda>e f. f(fst e \<mapsto> snd e)" Map.empty] assms(1,2,3) fold_map_upd [of m Map.empty] assms(4) by simp

lemma carry_HashSet:
  assumes "\<And>x. x \<in> set xs \<Longrightarrow> carry (enc E x) (dec D) x" and "length xs < 2 ^ 64"
    and "table_grants A sz (cap_capacity sz (length xs))"
  shows "carry (encode_HashSet enc E xs) (decode_HashSet A sz dec D) (set xs)"
  unfolding encode_HashSet_def decode_HashSet_def
  using carry_seq [where ok = "\<lambda>len. table_grants A sz (cap_capacity sz len)" and add = insert and c = "{}", OF assms]
  by (simp add: union_set_fold [symmetric])

end

end
