(* ===== verification/Sgx_Opaque.thy ===== *)
theory Sgx_Opaque
  imports Sgx_Serialize
begin

text \<open>
  \<^verbatim>\<open>src/sgx_serialize/src/opaque.rs\<close>, the binary encoder and decoder, and the two helpers of \<^verbatim>\<open>serialize.rs\<close> that the
  users of the crate call. The encoder works on an in-memory cursor, the decoder on a byte slice and a position.
  \<open>opaque\<close> interprets the contract of \<open>Sgx_Serialize\<close>, which gives the round trip of every implementation.
\<close>

section \<open>The encoder\<close>

definition write_uleb128 :: "u128 \<Rightarrow> (Cursor, unit, unit) op" where
  "write_uleb128 value c =
     (case write_unsigned_leb128 (inner c) (position c) value of
        Panic \<Rightarrow> Panic | Undef \<Rightarrow> Undef
      | Ret (bytes_written, vec) \<Rightarrow> Ret (Inr (), set_position (position c + bytes_written) (c\<lparr>inner := vec\<rparr>)))"

definition write_sleb128 :: "i128 \<Rightarrow> (Cursor, unit, unit) op" where
  "write_sleb128 value c =
     (case write_signed_leb128 (inner c) (position c) value of
        Panic \<Rightarrow> Panic | Undef \<Rightarrow> Undef
      | Ret (bytes_written, vec) \<Rightarrow> Ret (Inr (), set_position (position c + bytes_written) (c\<lparr>inner := vec\<rparr>)))"

text \<open>\<^verbatim>\<open>let _ = self.cursor.write_all(..); Ok(())\<close>: an error of the write is dropped.\<close>

definition write_raw :: "bytes \<Rightarrow> (Cursor, unit, unit) op" where
  "write_raw bs c = (case write_all bs c of Panic \<Rightarrow> Panic | Undef \<Rightarrow> Undef | Ret (_, c') \<Rightarrow> Ret (Inr (), c'))"

definition opaque_emit_nil :: "(Cursor, unit, unit) op" where
  "opaque_emit_nil = okO ()"

definition opaque_emit_usize :: "usize \<Rightarrow> (Cursor, unit, unit) op" where
  "opaque_emit_usize v = write_uleb128 (word_of_nat v)"

definition opaque_emit_u128 :: "u128 \<Rightarrow> (Cursor, unit, unit) op" where
  "opaque_emit_u128 v = write_uleb128 (v)"

definition opaque_emit_u64 :: "u64 \<Rightarrow> (Cursor, unit, unit) op" where
  "opaque_emit_u64 v = write_uleb128 (ucast v)"

definition opaque_emit_u32 :: "u32 \<Rightarrow> (Cursor, unit, unit) op" where
  "opaque_emit_u32 v = write_uleb128 (ucast v)"

definition opaque_emit_u16 :: "u16 \<Rightarrow> (Cursor, unit, unit) op" where
  "opaque_emit_u16 v = write_uleb128 (ucast v)"

definition opaque_emit_u8 :: "u8 \<Rightarrow> (Cursor, unit, unit) op" where
  "opaque_emit_u8 v = write_raw [v]"

definition opaque_emit_isize :: "isize \<Rightarrow> (Cursor, unit, unit) op" where
  "opaque_emit_isize v = write_sleb128 (scast v)"

definition opaque_emit_i128 :: "i128 \<Rightarrow> (Cursor, unit, unit) op" where
  "opaque_emit_i128 v = write_sleb128 (v)"

definition opaque_emit_i64 :: "i64 \<Rightarrow> (Cursor, unit, unit) op" where
  "opaque_emit_i64 v = write_sleb128 (scast v)"

definition opaque_emit_i32 :: "i32 \<Rightarrow> (Cursor, unit, unit) op" where
  "opaque_emit_i32 v = write_sleb128 (scast v)"

definition opaque_emit_i16 :: "i16 \<Rightarrow> (Cursor, unit, unit) op" where
  "opaque_emit_i16 v = write_sleb128 (scast v)"

definition opaque_emit_i8 :: "i8 \<Rightarrow> (Cursor, unit, unit) op" where
  "opaque_emit_i8 v = write_raw [v]"

definition opaque_emit_bool :: "bool \<Rightarrow> (Cursor, unit, unit) op" where
  "opaque_emit_bool v = opaque_emit_u8 (if v then 1 else 0)"

definition opaque_emit_f64 :: "u64 \<Rightarrow> (Cursor, unit, unit) op" where
  "opaque_emit_f64 v = opaque_emit_u64 v"

definition opaque_emit_f32 :: "u32 \<Rightarrow> (Cursor, unit, unit) op" where
  "opaque_emit_f32 v = opaque_emit_u32 v"

definition opaque_emit_char :: "u32 \<Rightarrow> (Cursor, unit, unit) op" where
  "opaque_emit_char v = opaque_emit_u32 v"

definition opaque_emit_str :: "bytes \<Rightarrow> (Cursor, unit, unit) op" where
  "opaque_emit_str v = bindO (opaque_emit_usize (length v)) (\<lambda>_. write_raw v)"

definition opaque_Encoder :: "(Cursor, unit) Encoder" where
  "opaque_Encoder =
    \<lparr>emit_nil = opaque_emit_nil,
     emit_usize = opaque_emit_usize,
     emit_u128 = opaque_emit_u128,
     emit_u64 = opaque_emit_u64,
     emit_u32 = opaque_emit_u32,
     emit_u16 = opaque_emit_u16,
     emit_u8 = opaque_emit_u8,
     emit_isize = opaque_emit_isize,
     emit_i64 = opaque_emit_i64,
     emit_i32 = opaque_emit_i32,
     emit_i16 = opaque_emit_i16,
     emit_i8 = opaque_emit_i8,
     emit_bool = opaque_emit_bool,
     emit_f64 = opaque_emit_f64,
     emit_f32 = opaque_emit_f32,
     emit_char = opaque_emit_char,
     emit_str = opaque_emit_str,
     emit_i128 = opaque_emit_i128\<rparr>"

section \<open>The decoder\<close>

record Decoder_state =
  data :: bytes
  dpos :: usize

text \<open>\<open>chk\<close>: the crate is built with overflow checks.\<close>

definition read_uleb128 :: "bool \<Rightarrow> (Decoder_state, string, u128) op" where
  "read_uleb128 chk d =
     (case read_unsigned_leb128 chk (data d) (dpos d) of
        Panic \<Rightarrow> Panic | Undef \<Rightarrow> Undef
      | Ret (value, bytes_read) \<Rightarrow> Ret (Inr value, d\<lparr>dpos := dpos d + bytes_read\<rparr>))"

definition read_sleb128 :: "bool \<Rightarrow> (Decoder_state, string, i128) op" where
  "read_sleb128 chk d =
     (case read_signed_leb128 chk (data d) (dpos d) of
        Panic \<Rightarrow> Panic | Undef \<Rightarrow> Undef
      | Ret (value, bytes_read) \<Rightarrow> Ret (Inr value, d\<lparr>dpos := dpos d + bytes_read\<rparr>))"

definition opaque_read_nil :: "(Decoder_state, string, unit) op" where
  "opaque_read_nil = okO ()"

text \<open>\<^verbatim>\<open>value as T\<close>.\<close>

definition cast_result :: "('v \<Rightarrow> 'a) \<Rightarrow> (Decoder_state, string, 'v) op \<Rightarrow> (Decoder_state, string, 'a) op" where
  "cast_result f m = bindO m (\<lambda>value. okO (f value))"

definition opaque_read_usize :: "bool \<Rightarrow> (Decoder_state, string, usize) op" where
  "opaque_read_usize chk = cast_result (\<lambda>value. unat (ucast value :: u64)) (read_uleb128 chk)"

definition opaque_read_u128 :: "bool \<Rightarrow> (Decoder_state, string, u128) op" where
  "opaque_read_u128 chk = cast_result (\<lambda>value. value) (read_uleb128 chk)"

definition opaque_read_u64 :: "bool \<Rightarrow> (Decoder_state, string, u64) op" where
  "opaque_read_u64 chk = cast_result ucast (read_uleb128 chk)"

definition opaque_read_u32 :: "bool \<Rightarrow> (Decoder_state, string, u32) op" where
  "opaque_read_u32 chk = cast_result ucast (read_uleb128 chk)"

definition opaque_read_u16 :: "bool \<Rightarrow> (Decoder_state, string, u16) op" where
  "opaque_read_u16 chk = cast_result ucast (read_uleb128 chk)"

definition opaque_read_u8 :: "(Decoder_state, string, u8) op" where
  "opaque_read_u8 d =
     (if dpos d < length (data d) then Ret (Inr (data d ! dpos d), d\<lparr>dpos := dpos d + 1\<rparr>) else Panic)"

definition opaque_read_isize :: "bool \<Rightarrow> (Decoder_state, string, isize) op" where
  "opaque_read_isize chk = cast_result ucast (read_sleb128 chk)"

definition opaque_read_i128 :: "bool \<Rightarrow> (Decoder_state, string, i128) op" where
  "opaque_read_i128 chk = cast_result (\<lambda>value. value) (read_sleb128 chk)"

definition opaque_read_i64 :: "bool \<Rightarrow> (Decoder_state, string, i64) op" where
  "opaque_read_i64 chk = cast_result ucast (read_sleb128 chk)"

definition opaque_read_i32 :: "bool \<Rightarrow> (Decoder_state, string, i32) op" where
  "opaque_read_i32 chk = cast_result ucast (read_sleb128 chk)"

definition opaque_read_i16 :: "bool \<Rightarrow> (Decoder_state, string, i16) op" where
  "opaque_read_i16 chk = cast_result ucast (read_sleb128 chk)"

definition opaque_read_i8 :: "(Decoder_state, string, i8) op" where
  "opaque_read_i8 d =
     (if dpos d < length (data d) then Ret (Inr (data d ! dpos d), d\<lparr>dpos := dpos d + 1\<rparr>) else Panic)"

definition opaque_read_bool :: "(Decoder_state, string, bool) op" where
  "opaque_read_bool = bindO opaque_read_u8 (\<lambda>value. okO (value \<noteq> 0))"

definition opaque_read_f64 :: "bool \<Rightarrow> (Decoder_state, string, u64) op" where
  "opaque_read_f64 chk = bindO (opaque_read_u64 chk) (\<lambda>bits. okO bits)"

definition opaque_read_f32 :: "bool \<Rightarrow> (Decoder_state, string, u32) op" where
  "opaque_read_f32 chk = bindO (opaque_read_u32 chk) (\<lambda>bits. okO bits)"

text \<open>\<^verbatim>\<open>char::from_u32(bits).unwrap()\<close> panics on a surrogate and above the last scalar value.\<close>

definition opaque_read_char :: "bool \<Rightarrow> (Decoder_state, string, u32) op" where
  "opaque_read_char chk = bindO (opaque_read_u32 chk) (\<lambda>bits. if valid_char bits then okO bits else panicO)"

text \<open>
  The slice \<^verbatim>\<open>position..position + len\<close> panics outside the data (a sum that wraps gives an end before the start,
  which panics too), and so does \<^verbatim>\<open>from_utf8(..).unwrap()\<close> on bytes that are not UTF-8.
\<close>

definition opaque_read_str :: "bool \<Rightarrow> (Decoder_state, string, bytes) op" where
  "opaque_read_str chk =
     bindO (opaque_read_usize chk)
       (\<lambda>len d. if dpos d + len > length (data d) then Panic
               else let s = bslice (dpos d) len (data d)
                    in if utf8_valid s then Ret (Inr s, d\<lparr>dpos := dpos d + len\<rparr>) else Panic)"

definition opaque_error :: "string \<Rightarrow> Decoder_state \<Rightarrow> string \<times> Decoder_state" where
  "opaque_error err d = (err, d)"

definition opaque_Decoder :: "bool \<Rightarrow> (Decoder_state, string) Decoder" where
  "opaque_Decoder chk =
    \<lparr>read_nil = opaque_read_nil,
     read_usize = opaque_read_usize chk,
     read_u128 = opaque_read_u128 chk,
     read_u64 = opaque_read_u64 chk,
     read_u32 = opaque_read_u32 chk,
     read_u16 = opaque_read_u16 chk,
     read_u8 = opaque_read_u8,
     read_isize = opaque_read_isize chk,
     read_i128 = opaque_read_i128 chk,
     read_i64 = opaque_read_i64 chk,
     read_i32 = opaque_read_i32 chk,
     read_i16 = opaque_read_i16 chk,
     read_i8 = opaque_read_i8,
     read_bool = opaque_read_bool,
     read_f64 = opaque_read_f64 chk,
     read_f32 = opaque_read_f32 chk,
     read_char = opaque_read_char chk,
     read_str = opaque_read_str chk,
     dec_error = opaque_error\<rparr>"

section \<open>The helpers\<close>

text \<open>
  A \<^verbatim>\<open>SerializeHelper\<close> keeps its cursor between calls. An encoding never fails with the opaque encoder, whose error
  type is the unit type, but it may panic.
\<close>

record SerializeHelper =
  helper_cursor :: Cursor

definition SerializeHelper_new :: SerializeHelper where
  "SerializeHelper_new = \<lparr>helper_cursor = Cursor_new []\<rparr>"

definition SerializeHelper_get_size :: "SerializeHelper \<Rightarrow> usize" where
  "SerializeHelper_get_size self = length (inner (helper_cursor self))"

definition SerializeHelper_encode ::
  "(Cursor, unit, 'a) encode \<Rightarrow> 'a \<Rightarrow> SerializeHelper \<Rightarrow> (bytes option \<times> SerializeHelper) outcome" where
  "SerializeHelper_encode enc target self =
     (case enc opaque_Encoder target (helper_cursor self) of
        Panic \<Rightarrow> Panic | Undef \<Rightarrow> Undef
      | Ret (Inl _, c) \<Rightarrow> Ret (None, self\<lparr>helper_cursor := c\<rparr>)
      | Ret (Inr _, c) \<Rightarrow> Ret (Some (into_inner c), self\<lparr>helper_cursor := c\<rparr>))"

definition DeSerializeHelper_decode :: "bool \<Rightarrow> (Decoder_state, string, 'a) decode \<Rightarrow> bytes \<Rightarrow> 'a option outcome" where
  "DeSerializeHelper_decode chk dec bs =
     (case dec (opaque_Decoder chk) \<lparr>data = bs, dpos = 0\<rparr> of
        Panic \<Rightarrow> Panic | Undef \<Rightarrow> Undef
      | Ret (Inl _, _) \<Rightarrow> Ret None
      | Ret (Inr v, _) \<Rightarrow> Ret (Some v))"

section \<open>The opaque encoder and decoder satisfy the contract\<close>

text \<open>A good encoder state has its position at the end of the vector: writes append.\<close>

definition at_end :: "Cursor \<Rightarrow> bool" where
  "at_end c \<longleftrightarrow> pos c = length (inner c)"

definition append_bytes :: "Cursor \<Rightarrow> bytes \<Rightarrow> Cursor" where
  "append_bytes c bs = c\<lparr>inner := inner c @ bs, pos := pos c + length bs\<rparr>"

definition undecoded :: "Decoder_state \<Rightarrow> bytes" where
  "undecoded d = drop (dpos d) (data d)"

definition skip :: "nat \<Rightarrow> Decoder_state \<Rightarrow> Decoder_state" where
  "skip n d = d\<lparr>dpos := dpos d + n\<rparr>"

abbreviation opaque_carries :: "(Cursor, unit, unit) op \<Rightarrow> (Decoder_state, string, 'a) op \<Rightarrow> 'a \<Rightarrow> bool" where
  "opaque_carries \<equiv> carries at_end append_bytes undecoded skip"

interpretation opaque_state: codec_state at_end append_bytes undecoded skip
  by unfold_locales (simp_all add: at_end_def append_bytes_def undecoded_def skip_def add.commute)

lemma undecoded_split:
  assumes "undecoded d = bs @ post" and "bs \<noteq> []"
  shows "data d = take (dpos d) (data d) @ bs @ post" and "length (take (dpos d) (data d)) = dpos d"
proof -
  show "data d = take (dpos d) (data d) @ bs @ post"
    using assms(1) append_take_drop_id [of "dpos d" "data d"] by (simp add: undecoded_def)
  have "dpos d < length (data d)" using assms by (cases "dpos d < length (data d)") (auto simp: undecoded_def)
  then show "length (take (dpos d) (data d)) = dpos d" by simp
qed

lemma carries_uleb: "opaque_carries (write_uleb128 v) (read_uleb128 chk) v"
  unfolding carries_def
proof (intro exI [of _ "uleb (unat v)"] conjI allI impI)
  fix c assume "at_end c"
  then show "write_uleb128 v c = Ret (Inr (), append_bytes c (uleb (unat v)))"
    by (simp add: write_uleb128_def at_end_def position_def set_position_def append_bytes_def write_unsigned_uleb)
next
  fix d post assume d: "undecoded d = uleb (unat v) @ post"
  have "uleb (unat v) \<noteq> []" by (subst uleb.simps) simp
  note split = undecoded_split [OF d this]
  have "read_unsigned_leb128 chk (data d) (dpos d) = Ret (v, length (uleb (unat v)))"
    using read_unsigned_uleb [of chk "take (dpos d) (data d)" v post] by (simp only: split(2) split(1) [symmetric])
  then show "read_uleb128 chk d = Ret (Inr v, skip (length (uleb (unat v))) d)"
    by (simp add: read_uleb128_def skip_def)
qed

lemma carries_sleb: "opaque_carries (write_sleb128 v) (read_sleb128 chk) (sleb_read_value v)"
  unfolding carries_def
proof (intro exI [of _ "sleb (sint v)"] conjI allI impI)
  fix c assume "at_end c"
  then show "write_sleb128 v c = Ret (Inr (), append_bytes c (sleb (sint v)))"
    by (simp add: write_sleb128_def at_end_def position_def set_position_def append_bytes_def write_signed_sleb)
next
  fix d post assume d: "undecoded d = sleb (sint v) @ post"
  note split = undecoded_split [OF d sleb_nonempty]
  have "read_signed_leb128 chk (data d) (dpos d) = Ret (sleb_read_value v, length (sleb (sint v)))"
    using read_signed_sleb [of chk "take (dpos d) (data d)" v post] by (simp only: split(2) split(1) [symmetric])
  then show "read_sleb128 chk d = Ret (Inr (sleb_read_value v), skip (length (sleb (sint v))) d)"
    by (simp add: read_sleb128_def skip_def)
qed

text \<open>A cast on the reader that undoes the cast on the writer.\<close>

lemma carries_ucast:
  assumes "f (ucast v :: u128) = v"
  shows "opaque_carries (write_uleb128 (ucast (v :: 'a::len word))) (cast_result f (read_uleb128 chk)) v"
  using opaque_state.carry_tail [OF carries_uleb [of "ucast v" chk], of f] assms by (simp add: cast_result_def)

lemma carries_scast:
  assumes "LENGTH('a::len) \<le> 64"
  shows "opaque_carries (write_sleb128 (scast (v :: 'a word))) (cast_result ucast (read_sleb128 chk)) v"
proof -
  have "(ucast (sleb_read_value (scast v)) :: 'a word) = ucast (scast v :: i128)"
    by (rule ucast_sleb_read_value [OF assms])
  also have "\<dots> = v" using assms by (intro bit_word_eqI) (auto simp: bit_simps)
  finally show ?thesis
    using opaque_state.carry_tail [OF carries_sleb [of "scast v" chk], of "ucast :: i128 \<Rightarrow> 'a word"]
    by (simp add: cast_result_def)
qed

lemma write_raw_at_end: "at_end c \<Longrightarrow> write_raw bs c = Ret (Inr (), append_bytes c bs)"
  by (simp add: write_raw_def write_all_eq at_end_def append_bytes_def padded_def bsplice_def)

lemma carries_byte:
  assumes "\<And>d. dpos d < length (data d) \<Longrightarrow> g d = Ret (Inr (h (data d ! dpos d)), d\<lparr>dpos := dpos d + 1\<rparr>)"
  shows "opaque_carries (write_raw [v]) g (h v)"
  unfolding carries_def
proof (intro exI [of _ "[v]"] conjI allI impI)
  fix d post assume d: "undecoded d = [v] @ post"
  note split = undecoded_split [OF d list.distinct(2)]
  have "dpos d < length (data d)" using d by (cases "dpos d < length (data d)") (auto simp: undecoded_def)
  moreover have "data d ! dpos d = v" using d \<open>dpos d < length (data d)\<close> by (simp add: undecoded_def Cons_nth_drop_Suc [symmetric])
  ultimately show "g d = Ret (Inr (h v), skip (length [v]) d)" using assms by (simp add: skip_def)
qed (simp add: write_raw_at_end)

lemma carries_checked:
  assumes "opaque_carries f g x" and "g' x = okO y"
  shows "opaque_carries f (bindO g g') y"
proof -
  have "bindO g g' d = Ret (Inr y, d')" if "g d = Ret (Inr x, d')" for d d'
    using that assms(2) by simp
  with assms(1) show ?thesis unfolding carries_def by blast
qed

lemma carries_usize: "n < 2 ^ 64 \<Longrightarrow> opaque_carries (opaque_emit_usize n) (opaque_read_usize chk) n"
proof -
  assume n: "n < 2 ^ 64"
  have "unat (ucast (word_of_nat n :: u128) :: u64) = n"
    using n by (simp add: unsigned_ucast_eq unat_of_nat take_bit_eq_mod)
  then show ?thesis
    using opaque_state.carry_tail [OF carries_uleb [of "word_of_nat n" chk], of "\<lambda>value. unat (ucast value :: u64)"]
    by (simp add: opaque_emit_usize_def opaque_read_usize_def cast_result_def)
qed

lemma ucast_back: "LENGTH('a::len) \<le> 128 \<Longrightarrow> (ucast (ucast (v :: 'a word) :: u128) :: 'a word) = v"
  by (intro bit_word_eqI) (auto simp: bit_simps)

lemma carries_unsigned:
  "opaque_carries (opaque_emit_u128 w128) (opaque_read_u128 chk) w128"
  "opaque_carries (opaque_emit_u64 w64) (opaque_read_u64 chk) w64"
  "opaque_carries (opaque_emit_u32 w32) (opaque_read_u32 chk) w32"
  "opaque_carries (opaque_emit_u16 w16) (opaque_read_u16 chk) w16"
  unfolding opaque_emit_u128_def opaque_read_u128_def opaque_emit_u64_def opaque_read_u64_def
    opaque_emit_u32_def opaque_read_u32_def opaque_emit_u16_def opaque_read_u16_def
  using opaque_state.carry_tail [OF carries_uleb [of w128 chk], of "\<lambda>value. value"]
  by (simp_all add: carries_ucast ucast_back cast_result_def [of "\<lambda>value. value"])

lemma carries_signed:
  "opaque_carries (opaque_emit_isize w64) (opaque_read_isize chk) w64"
  "opaque_carries (opaque_emit_i64 w64) (opaque_read_i64 chk) w64"
  "opaque_carries (opaque_emit_i32 w32) (opaque_read_i32 chk) w32"
  "opaque_carries (opaque_emit_i16 w16) (opaque_read_i16 chk) w16"
  unfolding opaque_emit_isize_def opaque_read_isize_def opaque_emit_i64_def opaque_read_i64_def
    opaque_emit_i32_def opaque_read_i32_def opaque_emit_i16_def opaque_read_i16_def
  by (rule carries_scast, simp)+

lemma carries_i128:
  "opaque_carries (opaque_emit_i128 w) (opaque_read_i128 chk) (sleb_read_value w)"
  using opaque_state.carry_tail [OF carries_sleb [of w chk], of "\<lambda>value. value"]
  by (simp add: opaque_emit_i128_def opaque_read_i128_def cast_result_def)

lemma carries_bytes:
  "opaque_carries (opaque_emit_u8 w8) opaque_read_u8 w8"
  "opaque_carries (opaque_emit_i8 w8) opaque_read_i8 w8"
  unfolding opaque_emit_u8_def opaque_emit_i8_def
  using carries_byte [of opaque_read_u8 "\<lambda>x. x" w8] carries_byte [of opaque_read_i8 "\<lambda>x. x" w8]
  by (simp_all add: opaque_read_u8_def opaque_read_i8_def)

lemma carries_bool: "opaque_carries (opaque_emit_bool b) opaque_read_bool b"
  unfolding opaque_emit_bool_def opaque_read_bool_def
  by (rule carries_checked [OF carries_bytes(1)]) simp

text \<open>
  A string of length zero needs no byte, but its slice needs a position inside the data: the length in front of it
  has at least one byte.
\<close>

lemma carries_nonempty:
  assumes "opaque_carries f g x" and "\<And>d. dpos d \<ge> length (data d) \<Longrightarrow> g d = Panic"
  obtains bs where "bs \<noteq> []" and "\<And>c. at_end c \<Longrightarrow> f c = Ret (Inr (), append_bytes c bs)"
    and "\<And>d post. undecoded d = bs @ post \<Longrightarrow> g d = Ret (Inr x, skip (length bs) d)"
proof -
  obtain bs where bs: "\<And>c. at_end c \<Longrightarrow> f c = Ret (Inr (), append_bytes c bs)"
    "\<And>d post. undecoded d = bs @ post \<Longrightarrow> g d = Ret (Inr x, skip (length bs) d)"
    using assms(1) unfolding carries_def by blast
  have "bs \<noteq> []"
    using bs(2) [of "\<lparr>data = [], dpos = 0\<rparr>" "[]"] assms(2) [of "\<lparr>data = [], dpos = 0\<rparr>"] by (auto simp: undecoded_def)
  with bs that show thesis by blast
qed

lemma opaque_read_usize_end: "dpos d \<ge> length (data d) \<Longrightarrow> opaque_read_usize chk d = Panic"
  by (simp add: opaque_read_usize_def cast_result_def bindO_def read_uleb128_def read_unsigned_leb128_def
      read_uleb_loop.simps [of chk])

lemma carries_str:
  assumes "utf8_valid v" and "length v < 2 ^ 64"
  shows "opaque_carries (opaque_emit_str v) (opaque_read_str chk) v"
proof -
  obtain bs where ne: "bs \<noteq> []"
    and w: "\<And>c. at_end c \<Longrightarrow> opaque_emit_usize (length v) c = Ret (Inr (), append_bytes c bs)"
    and r: "\<And>d post. undecoded d = bs @ post \<Longrightarrow> opaque_read_usize chk d = Ret (Inr (length v), skip (length bs) d)"
    using carries_nonempty [OF carries_usize [OF assms(2)] opaque_read_usize_end] by blast
  show ?thesis
    unfolding carries_def
  proof (intro exI [of _ "bs @ v"] conjI allI impI)
    fix c assume "at_end c"
    then show "opaque_emit_str v c = Ret (Inr (), append_bytes c (bs @ v))"
      using w by (simp add: opaque_emit_str_def write_raw_at_end opaque_state.good_app opaque_state.app_app)
  next
    fix d post assume d: "undecoded d = (bs @ v) @ post"
    then have und: "drop (dpos d) (data d) = bs @ v @ post" by (simp add: undecoded_def)
    have "length (data d) - dpos d = length bs + length v + length post" and "0 < length bs"
      using arg_cong [OF und, of length] ne by simp_all
    then have "dpos d + length bs + length v \<le> length (data d)" by linarith
    moreover have "bslice (dpos d + length bs) (length v) (data d) = v"
      using arg_cong [OF und, of "drop (length bs)"] by (simp add: bslice_def add.commute)
    ultimately show "opaque_read_str chk d = Ret (Inr v, skip (length (bs @ v)) d)"
      using r [of d "v @ post"] d assms(1) by (simp add: opaque_read_str_def bindO_def Let_def skip_def)
  qed
qed

interpretation opaque: codec_pair at_end append_bytes undecoded skip opaque_Encoder "opaque_Decoder chk" for chk
proof (unfold_locales, goal_cases)
  case 1
  show ?case by (simp only: opaque_Encoder_def opaque_Decoder_def Encoder.simps Decoder.simps
        opaque_emit_nil_def opaque_read_nil_def opaque_state.carry_ok)
next
  case (9 w)
  then have "sleb_read_value w = w" by (simp add: sleb_read_value_eq_iff)
  then show ?case using carries_i128 [of w chk] by (simp add: opaque_Encoder_def opaque_Decoder_def)
next
  case 15
  show ?case
    by (auto simp: opaque_Encoder_def opaque_Decoder_def opaque_emit_f64_def opaque_read_f64_def
        intro: carries_checked [OF carries_unsigned(2)])
next
  case 16
  show ?case
    by (auto simp: opaque_Encoder_def opaque_Decoder_def opaque_emit_f32_def opaque_read_f32_def
        intro: carries_checked [OF carries_unsigned(3)])
next
  case 17
  then show ?case
    by (auto simp: opaque_Encoder_def opaque_Decoder_def opaque_emit_char_def opaque_read_char_def
        intro: carries_checked [OF carries_unsigned(3)])
qed (simp_all add: opaque_Encoder_def opaque_Decoder_def carries_usize carries_unsigned carries_signed carries_bytes
    carries_bool carries_str)

end
