(* ===== verification/Sgx_Serialize_Types.thy ===== *)
theory Sgx_Serialize_Types
  imports Sgx_Opaque
begin

text \<open>
  The types the crate can serialize, as a closed family: the primitive types and everything built from them with
  boxes, options, pairs, sequences and arrays. For each type its \<^verbatim>\<open>encode\<close> and \<^verbatim>\<open>decode\<close> are the implementations of
  \<open>Sgx_Serialize\<close>, nested as the compiler nests them. The round trip holds for every value of every such type,
  and for maps and sets over them; the rest of the theory states what the decoder does with hostile lengths.
\<close>

section \<open>Types and values\<close>

datatype sty = T_unit | T_usize | T_u8 | T_u16 | T_u32 | T_u64 | T_u128 | T_isize | T_i8 | T_i16 | T_i32 | T_i64 | T_i128 | T_f32 | T_f64 | T_bool | T_char | T_String | T_PathBuf
  | T_Box sty | T_Option sty | T_Vec nat sty | T_VecDeque sty | T_LinkedList sty | T_array nat sty | T_pair sty sty

datatype sval = V_unit | V_usize usize | V_u8 u8 | V_u16 u16 | V_u32 u32 | V_u64 u64 | V_u128 u128 | V_isize isize | V_i8 i8 | V_i16 i16 | V_i32 i32 | V_i64 i64 | V_i128 i128 | V_f32 u32 | V_f64 u64 | V_bool bool | V_char u32 | V_String bytes | V_PathBuf bytes
  | V_Option "sval option" | V_seq "sval list" | V_pair sval sval

text \<open>
  \<open>has_type A t v\<close>: \<open>v\<close> is a value of type \<open>t\<close> that the decoder can rebuild: its lengths are lengths of a 64 bit
  machine, the allocator \<open>A\<close> grants the vectors (\<open>T_Vec sz t\<close> has elements of \<open>sz\<close> bytes), characters and strings are
  the values Rust allows, and 128 bit signed numbers lie outside the range in which the codec loses the sign.
\<close>

primrec has_type :: "alloc_env \<Rightarrow> sty \<Rightarrow> sval \<Rightarrow> bool" where
  "has_type A T_unit v \<longleftrightarrow> v = V_unit"
| "has_type A T_usize v \<longleftrightarrow> (case v of V_usize x \<Rightarrow> x < 2 ^ 64 | _ \<Rightarrow> False)"
| "has_type A T_u8 v \<longleftrightarrow> (case v of V_u8 x \<Rightarrow> True | _ \<Rightarrow> False)"
| "has_type A T_u16 v \<longleftrightarrow> (case v of V_u16 x \<Rightarrow> True | _ \<Rightarrow> False)"
| "has_type A T_u32 v \<longleftrightarrow> (case v of V_u32 x \<Rightarrow> True | _ \<Rightarrow> False)"
| "has_type A T_u64 v \<longleftrightarrow> (case v of V_u64 x \<Rightarrow> True | _ \<Rightarrow> False)"
| "has_type A T_u128 v \<longleftrightarrow> (case v of V_u128 x \<Rightarrow> True | _ \<Rightarrow> False)"
| "has_type A T_isize v \<longleftrightarrow> (case v of V_isize x \<Rightarrow> True | _ \<Rightarrow> False)"
| "has_type A T_i8 v \<longleftrightarrow> (case v of V_i8 x \<Rightarrow> True | _ \<Rightarrow> False)"
| "has_type A T_i16 v \<longleftrightarrow> (case v of V_i16 x \<Rightarrow> True | _ \<Rightarrow> False)"
| "has_type A T_i32 v \<longleftrightarrow> (case v of V_i32 x \<Rightarrow> True | _ \<Rightarrow> False)"
| "has_type A T_i64 v \<longleftrightarrow> (case v of V_i64 x \<Rightarrow> True | _ \<Rightarrow> False)"
| "has_type A T_i128 v \<longleftrightarrow> (case v of V_i128 x \<Rightarrow> \<not> sign_lost x | _ \<Rightarrow> False)"
| "has_type A T_f32 v \<longleftrightarrow> (case v of V_f32 x \<Rightarrow> True | _ \<Rightarrow> False)"
| "has_type A T_f64 v \<longleftrightarrow> (case v of V_f64 x \<Rightarrow> True | _ \<Rightarrow> False)"
| "has_type A T_bool v \<longleftrightarrow> (case v of V_bool x \<Rightarrow> True | _ \<Rightarrow> False)"
| "has_type A T_char v \<longleftrightarrow> (case v of V_char x \<Rightarrow> valid_char x | _ \<Rightarrow> False)"
| "has_type A T_String v \<longleftrightarrow> (case v of V_String x \<Rightarrow> utf8_valid x \<and> length x < 2 ^ 64 | _ \<Rightarrow> False)"
| "has_type A T_PathBuf v \<longleftrightarrow> (case v of V_PathBuf x \<Rightarrow> utf8_valid x \<and> length x < 2 ^ 64 | _ \<Rightarrow> False)"
| "has_type A (T_Box t) v \<longleftrightarrow> has_type A t v"
| "has_type A (T_Option t) v \<longleftrightarrow> (case v of V_Option x \<Rightarrow> list_all (has_type A t) (case x of None \<Rightarrow> [] | Some y \<Rightarrow> [y]) | _ \<Rightarrow> False)"
| "has_type A (T_Vec sz t) v \<longleftrightarrow> (case v of V_seq xs \<Rightarrow> list_all (has_type A t) xs \<and> length xs < 2 ^ 64 \<and> vec_with_capacity A sz (length xs) | _ \<Rightarrow> False)"
| "has_type A (T_VecDeque t) v \<longleftrightarrow> (case v of V_seq xs \<Rightarrow> list_all (has_type A t) xs \<and> length xs < 2 ^ 64 | _ \<Rightarrow> False)"
| "has_type A (T_LinkedList t) v \<longleftrightarrow> (case v of V_seq xs \<Rightarrow> list_all (has_type A t) xs \<and> length xs < 2 ^ 64 | _ \<Rightarrow> False)"
| "has_type A (T_array n t) v \<longleftrightarrow> (case v of V_seq xs \<Rightarrow> list_all (has_type A t) xs \<and> length xs = n \<and> n \<le> 32 | _ \<Rightarrow> False)"
| "has_type A (T_pair t u) v \<longleftrightarrow> (case v of V_pair x y \<Rightarrow> has_type A t x \<and> has_type A u y | _ \<Rightarrow> False)"

text \<open>The implementations selected by the type; a value of another type does not occur.\<close>

primrec encode_ty :: "sty \<Rightarrow> ('s, 'e, sval) encode" where
  "encode_ty T_unit = (\<lambda>E v. encode_unit E ())"
| "encode_ty T_usize = (\<lambda>E v. case v of V_usize x \<Rightarrow> encode_usize E x | _ \<Rightarrow> panicO)"
| "encode_ty T_u8 = (\<lambda>E v. case v of V_u8 x \<Rightarrow> encode_u8 E x | _ \<Rightarrow> panicO)"
| "encode_ty T_u16 = (\<lambda>E v. case v of V_u16 x \<Rightarrow> encode_u16 E x | _ \<Rightarrow> panicO)"
| "encode_ty T_u32 = (\<lambda>E v. case v of V_u32 x \<Rightarrow> encode_u32 E x | _ \<Rightarrow> panicO)"
| "encode_ty T_u64 = (\<lambda>E v. case v of V_u64 x \<Rightarrow> encode_u64 E x | _ \<Rightarrow> panicO)"
| "encode_ty T_u128 = (\<lambda>E v. case v of V_u128 x \<Rightarrow> encode_u128 E x | _ \<Rightarrow> panicO)"
| "encode_ty T_isize = (\<lambda>E v. case v of V_isize x \<Rightarrow> encode_isize E x | _ \<Rightarrow> panicO)"
| "encode_ty T_i8 = (\<lambda>E v. case v of V_i8 x \<Rightarrow> encode_i8 E x | _ \<Rightarrow> panicO)"
| "encode_ty T_i16 = (\<lambda>E v. case v of V_i16 x \<Rightarrow> encode_i16 E x | _ \<Rightarrow> panicO)"
| "encode_ty T_i32 = (\<lambda>E v. case v of V_i32 x \<Rightarrow> encode_i32 E x | _ \<Rightarrow> panicO)"
| "encode_ty T_i64 = (\<lambda>E v. case v of V_i64 x \<Rightarrow> encode_i64 E x | _ \<Rightarrow> panicO)"
| "encode_ty T_i128 = (\<lambda>E v. case v of V_i128 x \<Rightarrow> encode_i128 E x | _ \<Rightarrow> panicO)"
| "encode_ty T_f32 = (\<lambda>E v. case v of V_f32 x \<Rightarrow> encode_f32 E x | _ \<Rightarrow> panicO)"
| "encode_ty T_f64 = (\<lambda>E v. case v of V_f64 x \<Rightarrow> encode_f64 E x | _ \<Rightarrow> panicO)"
| "encode_ty T_bool = (\<lambda>E v. case v of V_bool x \<Rightarrow> encode_bool E x | _ \<Rightarrow> panicO)"
| "encode_ty T_char = (\<lambda>E v. case v of V_char x \<Rightarrow> encode_char E x | _ \<Rightarrow> panicO)"
| "encode_ty T_String = (\<lambda>E v. case v of V_String x \<Rightarrow> encode_String E x | _ \<Rightarrow> panicO)"
| "encode_ty T_PathBuf = (\<lambda>E v. case v of V_PathBuf x \<Rightarrow> encode_PathBuf E x | _ \<Rightarrow> panicO)"
| "encode_ty (T_Box t) = encode_Box (encode_ty t)"
| "encode_ty (T_Option t) = (\<lambda>E v. case v of V_Option x \<Rightarrow> encode_Option (encode_ty t) E x | _ \<Rightarrow> panicO)"
| "encode_ty (T_Vec sz t) = (\<lambda>E v. case v of V_seq xs \<Rightarrow> encode_Vec (encode_ty t) E xs | _ \<Rightarrow> panicO)"
| "encode_ty (T_VecDeque t) = (\<lambda>E v. case v of V_seq xs \<Rightarrow> encode_VecDeque (encode_ty t) E xs | _ \<Rightarrow> panicO)"
| "encode_ty (T_LinkedList t) = (\<lambda>E v. case v of V_seq xs \<Rightarrow> encode_LinkedList (encode_ty t) E xs | _ \<Rightarrow> panicO)"
| "encode_ty (T_array n t) = (\<lambda>E v. case v of V_seq xs \<Rightarrow> encode_array n (encode_ty t) E xs | _ \<Rightarrow> panicO)"
| "encode_ty (T_pair t u) = (\<lambda>E v. case v of V_pair x y \<Rightarrow> encode_tuple2 (encode_ty t) (encode_ty u) E (x, y) | _ \<Rightarrow> panicO)"

definition map_ok :: "('a \<Rightarrow> 'b) \<Rightarrow> ('s, 'e, 'a) op \<Rightarrow> ('s, 'e, 'b) op" where
  "map_ok f m = bindO m (\<lambda>x. okO (f x))"

primrec decode_ty :: "alloc_env \<Rightarrow> sty \<Rightarrow> ('s, 'e, sval) decode" where
  "decode_ty A T_unit = (\<lambda>D. map_ok (\<lambda>_. V_unit) (decode_unit D))"
| "decode_ty A T_usize = (\<lambda>D. map_ok V_usize (decode_usize D))"
| "decode_ty A T_u8 = (\<lambda>D. map_ok V_u8 (decode_u8 D))"
| "decode_ty A T_u16 = (\<lambda>D. map_ok V_u16 (decode_u16 D))"
| "decode_ty A T_u32 = (\<lambda>D. map_ok V_u32 (decode_u32 D))"
| "decode_ty A T_u64 = (\<lambda>D. map_ok V_u64 (decode_u64 D))"
| "decode_ty A T_u128 = (\<lambda>D. map_ok V_u128 (decode_u128 D))"
| "decode_ty A T_isize = (\<lambda>D. map_ok V_isize (decode_isize D))"
| "decode_ty A T_i8 = (\<lambda>D. map_ok V_i8 (decode_i8 D))"
| "decode_ty A T_i16 = (\<lambda>D. map_ok V_i16 (decode_i16 D))"
| "decode_ty A T_i32 = (\<lambda>D. map_ok V_i32 (decode_i32 D))"
| "decode_ty A T_i64 = (\<lambda>D. map_ok V_i64 (decode_i64 D))"
| "decode_ty A T_i128 = (\<lambda>D. map_ok V_i128 (decode_i128 D))"
| "decode_ty A T_f32 = (\<lambda>D. map_ok V_f32 (decode_f32 D))"
| "decode_ty A T_f64 = (\<lambda>D. map_ok V_f64 (decode_f64 D))"
| "decode_ty A T_bool = (\<lambda>D. map_ok V_bool (decode_bool D))"
| "decode_ty A T_char = (\<lambda>D. map_ok V_char (decode_char D))"
| "decode_ty A T_String = (\<lambda>D. map_ok V_String (decode_String D))"
| "decode_ty A T_PathBuf = (\<lambda>D. map_ok V_PathBuf (decode_PathBuf D))"
| "decode_ty A (T_Box t) = decode_Box (decode_ty A t)"
| "decode_ty A (T_Option t) = (\<lambda>D. map_ok V_Option (decode_Option (decode_ty A t) D))"
| "decode_ty A (T_Vec sz t) = (\<lambda>D. map_ok V_seq (decode_Vec A sz (decode_ty A t) D))"
| "decode_ty A (T_VecDeque t) = (\<lambda>D. map_ok V_seq (decode_VecDeque (decode_ty A t) D))"
| "decode_ty A (T_LinkedList t) = (\<lambda>D. map_ok V_seq (decode_LinkedList (decode_ty A t) D))"
| "decode_ty A (T_array n t) = (\<lambda>D. map_ok V_seq (decode_array n (decode_ty A t) D))"
| "decode_ty A (T_pair t u) = (\<lambda>D. map_ok (\<lambda>(x, y). V_pair x y) (decode_tuple2 (decode_ty A t) (decode_ty A u) D))"

section \<open>Every value is carried\<close>

lemma carries_map_ok: "opaque_carries f g x \<Longrightarrow> opaque_carries f (map_ok h g) (h x)"
  unfolding map_ok_def by (rule opaque_state.carry_tail)

lemmas opaque_prims = opaque.prims [THEN carries_map_ok]

lemma carries_ty:
  "has_type A t v \<Longrightarrow> opaque_carries (encode_ty t opaque_Encoder v) (decode_ty A t (opaque_Decoder chk)) v"
proof (induction t arbitrary: v)
  case (T_Option t)
  then show ?case
    by (auto simp: list_all_iff split: sval.splits option.splits intro!: carries_map_ok opaque.carry_Option)
next
  case (T_Vec sz t)
  then show ?case
    by (auto simp: list_all_iff split: sval.splits intro!: carries_map_ok opaque.carry_Vec)
next
  case (T_VecDeque t)
  then show ?case
    by (auto simp: list_all_iff split: sval.splits intro!: carries_map_ok opaque.carry_list_forms)
next
  case (T_LinkedList t)
  then show ?case
    by (auto simp: list_all_iff split: sval.splits intro!: carries_map_ok opaque.carry_list_forms)
next
  case (T_array n t)
  then show ?case
    by (auto simp: list_all_iff split: sval.splits intro!: carries_map_ok opaque.carry_array)
next
  case (T_pair t u)
  then show ?case
    using carries_map_ok [OF opaque.carry_tuple2, where h = "\<lambda>(x, y). V_pair x y"]
    by (auto split: sval.splits)
next
  case (T_Box t)
  then show ?case by (simp add: opaque.carry_pointer)
next
  case T_unit
  then show ?case
    using carries_map_ok [OF opaque.nil, where h = "\<lambda>_. V_unit"]
    by (simp add: encode_unit_def decode_unit_def)
next
  case T_String
  then show ?case by (auto split: sval.splits intro!: carries_map_ok opaque.carry_String)
next
  case T_PathBuf
  then show ?case by (auto split: sval.splits intro!: carries_map_ok opaque.carry_PathBuf)
qed (auto simp: opaque.prim_defs split: sval.splits intro!: opaque_prims)

section \<open>The helpers\<close>

lemma helper_roundtrip:
  assumes "opaque_carries (enc opaque_Encoder v) (dec (opaque_Decoder chk)) x" and "at_end (helper_cursor h)"
  obtains bs h' where "SerializeHelper_encode enc v h = Ret (Some (inner (helper_cursor h) @ bs), h')"
    and "inner (helper_cursor h') = inner (helper_cursor h) @ bs" and "at_end (helper_cursor h')"
    and "\<And>post. DeSerializeHelper_decode chk dec (bs @ post) = Ret (Some x)"
proof -
  obtain bs where bs: "\<And>c. at_end c \<Longrightarrow> enc opaque_Encoder v c = Ret (Inr (), append_bytes c bs)"
    "\<And>d post. undecoded d = bs @ post \<Longrightarrow> dec (opaque_Decoder chk) d = Ret (Inr x, skip (length bs) d)"
    using assms(1) unfolding carries_def by blast
  show thesis
  proof (rule that [of bs "h\<lparr>helper_cursor := append_bytes (helper_cursor h) bs\<rparr>"])
    show "SerializeHelper_encode enc v h = Ret (Some (inner (helper_cursor h) @ bs), h\<lparr>helper_cursor := append_bytes (helper_cursor h) bs\<rparr>)"
      using bs(1) [OF assms(2)] by (simp add: SerializeHelper_encode_def into_inner_def append_bytes_def)
    show "at_end (helper_cursor (h\<lparr>helper_cursor := append_bytes (helper_cursor h) bs\<rparr>))"
      using opaque_state.good_app [OF assms(2)] by simp
    show "DeSerializeHelper_decode chk dec (bs @ post) = Ret (Some x)" for post
      using bs(2) [of "\<lparr>data = bs @ post, dpos = 0\<rparr>" post] by (simp add: DeSerializeHelper_decode_def undecoded_def)
  qed (simp add: append_bytes_def)
qed

lemma new_helper: "at_end (helper_cursor SerializeHelper_new)" "inner (helper_cursor SerializeHelper_new) = []"
  by (simp_all add: SerializeHelper_new_def Cursor_new_def at_end_def)

lemma new_helper_roundtrip:
  assumes "opaque_carries (enc opaque_Encoder v) (dec (opaque_Decoder chk)) x"
  shows "\<exists>bs h. SerializeHelper_encode enc v SerializeHelper_new = Ret (Some bs, h)
    \<and> SerializeHelper_get_size h = length bs \<and> DeSerializeHelper_decode chk dec bs = Ret (Some x)"
proof -
  obtain bs h' where e: "SerializeHelper_encode enc v SerializeHelper_new = Ret (Some bs, h')"
    and i: "inner (helper_cursor h') = bs" and d: "\<And>post. DeSerializeHelper_decode chk dec (bs @ post) = Ret (Some x)"
    using helper_roundtrip [of enc v dec chk x, OF assms new_helper(1)]
    unfolding new_helper(2) append_Nil by blast
  have "DeSerializeHelper_decode chk dec bs = Ret (Some x)" using d [of "[]"] by simp
  with e i show ?thesis by (auto simp: SerializeHelper_get_size_def)
qed

section \<open>Properties\<close>


definition sample_type :: sty where
  "sample_type = T_Vec 40 (T_Option (T_pair T_i64 T_String))"

definition sample_value :: sval where
  "sample_value = V_seq [V_Option None, V_Option (Some (V_pair (V_i64 (- 300)) (V_String [0x68, 0xC3, 0xA9])))]"

definition sample_heap :: alloc_env where
  "sample_heap = \<lparr>heap_grants = (\<lambda>n. n \<le> 0x1000), table_grants = (\<lambda>sz n. n * sz \<le> 0x100000)\<rparr>"


text \<open>
  A \<^verbatim>\<open>SerializeHelper\<close> is not reusable. Its cursor keeps what earlier calls wrote: the second \<^verbatim>\<open>encode\<close> on the same
  helper returns the bytes of the first value followed by those of the second, and decoding that result gives the
  first value again. The bytes of the second value alone would decode correctly.
\<close>

theorem helper_second_encode:
  assumes "has_type A t v" and "has_type A u w"
  shows "\<exists>bs cs h1 h2. SerializeHelper_encode (encode_ty t) v SerializeHelper_new = Ret (Some bs, h1)
    \<and> SerializeHelper_encode (encode_ty u) w h1 = Ret (Some (bs @ cs), h2)
    \<and> DeSerializeHelper_decode chk (decode_ty A t) (bs @ cs) = Ret (Some v)
    \<and> DeSerializeHelper_decode chk (decode_ty A u) cs = Ret (Some w)"
proof -
  obtain bs h1 where 1: "SerializeHelper_encode (encode_ty t) v SerializeHelper_new = Ret (Some bs, h1)"
    "inner (helper_cursor h1) = bs" "at_end (helper_cursor h1)"
    "\<And>post. DeSerializeHelper_decode chk (decode_ty A t) (bs @ post) = Ret (Some v)"
    using helper_roundtrip [of "encode_ty t" v "decode_ty A t" chk, OF carries_ty [OF assms(1)] new_helper(1)]
    unfolding new_helper(2) append_Nil by blast
  obtain cs h2 where 2: "SerializeHelper_encode (encode_ty u) w h1 = Ret (Some (bs @ cs), h2)"
    "\<And>post. DeSerializeHelper_decode chk (decode_ty A u) (cs @ post) = Ret (Some w)"
    using helper_roundtrip [of "encode_ty u" w "decode_ty A u" chk, OF carries_ty [OF assms(2)] 1(3)]
    unfolding 1(2) by blast
  from 1 2 2(2) [of "[]"] show ?thesis by auto
qed

theorem helper_second_encode_witness:
  "\<exists>bs cs h1 h2. SerializeHelper_encode (encode_ty T_u8) (V_u8 7) SerializeHelper_new = Ret (Some bs, h1)
    \<and> SerializeHelper_encode (encode_ty T_u8) (V_u8 9) h1 = Ret (Some (bs @ cs), h2)
    \<and> DeSerializeHelper_decode False (decode_ty sample_heap T_u8) (bs @ cs) = Ret (Some (V_u8 7))
    \<and> DeSerializeHelper_decode False (decode_ty sample_heap T_u8) cs = Ret (Some (V_u8 9))"
  by (rule helper_second_encode) simp_all

text \<open>
  Maps round trip up to the order of iteration. Whatever order a \<^verbatim>\<open>HashMap\<close> lists its entries in, the decoder
  rebuilds the same map, provided the table it asks for (at most one megabyte) is granted.
\<close>

theorem hashmap_roundtrip:
  assumes "\<And>k w. (k, w) \<in> set m \<Longrightarrow> has_type A t k \<and> has_type A u w" and "distinct (map fst m)"
    and "length m < 2 ^ 64" and "table_grants A sz (cap_capacity sz (length m))"
  shows "\<exists>bs h. SerializeHelper_encode (encode_HashMap (encode_ty t) (encode_ty u)) m SerializeHelper_new = Ret (Some bs, h)
    \<and> SerializeHelper_get_size h = length bs
    \<and> DeSerializeHelper_decode chk (decode_HashMap A sz (decode_ty A t) (decode_ty A u)) bs = Ret (Some (map_of m))"
  using assms by (intro new_helper_roundtrip opaque.carry_HashMap) (auto intro: carries_ty)

theorem hashmap_roundtrip_witness:
  "\<exists>bs h. SerializeHelper_encode (encode_HashMap (encode_ty T_u8) (encode_ty T_bool))
       [(V_u8 2, V_bool True), (V_u8 1, V_bool False)] SerializeHelper_new = Ret (Some bs, h)
    \<and> SerializeHelper_get_size h = length bs
    \<and> DeSerializeHelper_decode False (decode_HashMap sample_heap 2 (decode_ty sample_heap T_u8) (decode_ty sample_heap T_bool)) bs
        = Ret (Some (map_of [(V_u8 2, V_bool True), (V_u8 1, V_bool False)]))"
  by (rule hashmap_roundtrip) (auto simp: sample_heap_def cap_capacity_def)

text \<open>
  A decoded \<^verbatim>\<open>BTreeMap\<close> is a map: whatever bytes the decoder is given, with keys in any order and repeated, and
  whatever the implementations of the key and value types are, the entries of a result are strictly sorted by key.
\<close>

theorem btreemap_decode_sorted:
  assumes "decode_BTreeMap deck decv D s = Ret (Inr m, s')"
  shows "sorted_wrt (<) (map fst m)"
proof -
  obtain n s1 where "read_elts (read_entry deck decv D) (\<lambda>e m. btree_insert (fst e) (snd e) m) 0 n [] s1 = Ret (Inr m, s')"
    using assms by (auto simp: decode_BTreeMap_def read_map_def bindO_def split: outcome.splits prod.splits sum.splits)
  then show ?thesis
    by (rule read_elts_invariant [where P = "\<lambda>m. sorted_wrt (<) (map fst m)", rotated 2]) (simp_all add: btree_insert_sorted)
qed

theorem btreemap_decode_sorted_witness:
  "decode_BTreeMap decode_u8 decode_u8 (opaque_Decoder False) \<lparr>data = [3, 5, 1, 3, 1, 5, 9], dpos = 0\<rparr>
     = Ret (Inr [(3, 1), (5, 9)], \<lparr>data = [3, 5, 1, 3, 1, 5, 9], dpos = 7\<rparr>) \<and>
   sorted_wrt (<) (map fst [(3 :: u8, 1 :: u8), (5, 9)])"
proof -
  let ?s = "\<lparr>data = [3, 5, 1, 3, 1, 5, 9], dpos = 0\<rparr>"
  have "decode_BTreeMap decode_u8 decode_u8 (opaque_Decoder False) ?s
     = Ret (Inr [(3, 1), (5, 9)], \<lparr>data = [3, 5, 1, 3, 1, 5, 9], dpos = 7\<rparr>)" by code_simp
  with btreemap_decode_sorted [OF this] show ?thesis by blast
qed

lemma length_uleb: "n < 128 ^ k \<Longrightarrow> 0 < k \<Longrightarrow> length (uleb n) \<le> k"
proof (induction k arbitrary: n)
  case (Suc k)
  show ?case
  proof (cases "n < 128")
    case True
    then show ?thesis by (simp add: uleb.simps)
  next
    case False
    then have "0 < k" and "n div 128 < 128 ^ k" using Suc.prems by (auto intro!: Nat.gr0I simp: less_mult_imp_div_less)
    with Suc.IH False show ?thesis by (simp add: uleb.simps [of n])
  qed
qed simp

text \<open>
  The length of a vector is trusted before its elements are seen. For every length whose vector would exceed the
  largest allocation there are at most ten bytes with which \<^verbatim>\<open>Vec::decode\<close> panics, whatever follows them, whatever the
  element type and whatever the allocator grants: \<^verbatim>\<open>Vec::with_capacity(len)\<close> is not limited as hash tables are.
\<close>

theorem vec_decode_hostile_length:
  assumes "isize_max < n * sz" and "n < 2 ^ 64"
  shows "\<exists>bs. length bs \<le> 10 \<and> (\<forall>A dec post. DeSerializeHelper_decode chk (decode_Vec A sz dec) (bs @ post) = (Panic :: 'a list option outcome))"
proof (intro exI [of _ "uleb n"] conjI allI)
  show "length (uleb n) \<le> 10" using assms(2) by (intro length_uleb) simp_all
  fix A post and dec :: "(Decoder_state, string, 'a) decode"
  have "unat (word_of_nat n :: u128) = n" using assms(2) by (simp add: unat_of_nat)
  then have "read_unsigned_leb128 chk (uleb n @ post) 0 = Ret (word_of_nat n, length (uleb n))"
    using read_unsigned_uleb [of chk "[]" "word_of_nat n" post] by simp
  moreover have "unat (ucast (word_of_nat n :: u128) :: u64) = n"
    using assms(2) by (simp add: unsigned_ucast_eq unat_of_nat take_bit_eq_mod)
  moreover have "n * sz \<noteq> 0" using assms(1) by linarith
  then have "\<not> vec_with_capacity A sz n" using assms(1) by (simp add: vec_with_capacity_def)
  ultimately show "DeSerializeHelper_decode chk (decode_Vec A sz dec) (uleb n @ post) = Panic"
    by (simp add: DeSerializeHelper_decode_def decode_Vec_def read_seq_def opaque_Decoder_def opaque_read_usize_def
        cast_result_def read_uleb128_def bindO_def panicO_def)
qed

theorem vec_decode_hostile_length_witness:
  "\<exists>bs. length bs \<le> 10 \<and> (\<forall>A dec post. DeSerializeHelper_decode False (decode_Vec A 8 dec) (bs @ post) = (Panic :: u64 list option outcome))"
  using vec_decode_hostile_length [of "2 ^ 61" 8 False] by (simp add: isize_max_def)

text \<open>
  The limit on hash tables: \<^verbatim>\<open>cap_capacity\<close> never asks for more elements than announced nor for more than one megabyte.
\<close>

theorem cap_capacity_bounded: "cap_capacity sz n \<le> n \<and> cap_capacity sz n * sz \<le> 0x100000"
proof -
  have "0x100000 div sz * sz \<le> 0x100000" by (rule div_times_less_eq_dividend)
  then have "min n (0x100000 div sz) * sz \<le> 0x100000"
    by (meson le_trans min.cobounded2 mult_le_mono1)
  then show ?thesis by (simp add: cap_capacity_def)
qed

end
