(* ===== verification/Sgx_Decode_Sound.thy ===== *)
theory Sgx_Decode_Sound
  imports Sgx_Serialize_Types
begin

text \<open>
  What the decoder does with arbitrary bytes (\<^verbatim>\<open>src/sgx_serialize/src/opaque.rs\<close> and \<^verbatim>\<open>src/sgx_serialize/src/serialize.rs\<close>): whatever the
  input, it panics, reports an error, or returns a value of the type that was asked for, and it never moves outside of its data.
\<close>

section \<open>Sound reads\<close>

text \<open>
  A read is sound for \<open>Q\<close> when, from a position in the data, it keeps the data, moves forward and not past the end, and returns only
  values that satisfy \<open>Q\<close>.
\<close>

fun read_ok :: "('a \<Rightarrow> bool) \<Rightarrow> Decoder_state \<Rightarrow> ((string + 'a) \<times> Decoder_state) outcome \<Rightarrow> bool" where
  "read_ok Q d Panic \<longleftrightarrow> True"
| "read_ok Q d Undef \<longleftrightarrow> False"
| "read_ok Q d (Ret (Inl e, d')) \<longleftrightarrow> data d' = data d \<and> dpos d \<le> dpos d' \<and> dpos d' \<le> length (data d)"
| "read_ok Q d (Ret (Inr x, d')) \<longleftrightarrow> data d' = data d \<and> dpos d \<le> dpos d' \<and> dpos d' \<le> length (data d) \<and> Q x"

definition reads_sound :: "('a \<Rightarrow> bool) \<Rightarrow> (Decoder_state, string, 'a) op \<Rightarrow> bool" where
  "reads_sound Q m \<longleftrightarrow> (\<forall>d. dpos d \<le> length (data d) \<longrightarrow> read_ok Q d (m d))"

lemma reads_okO: "Q x \<Longrightarrow> reads_sound Q (okO x)"
  by (simp add: reads_sound_def)

lemma reads_panicO: "reads_sound Q panicO"
  by (simp add: reads_sound_def panicO_def)

lemma reads_fail: "reads_sound Q (fail_with (opaque_Decoder chk) msg)"
  by (simp add: reads_sound_def fail_with_def opaque_Decoder_def opaque_error_def)

lemma read_ok_from:
  "read_ok Q d1 out \<Longrightarrow> data d1 = data d \<Longrightarrow> dpos d \<le> dpos d1 \<Longrightarrow> read_ok Q d out"
  by (cases "(Q, d1, out)" rule: read_ok.cases) auto

lemma read_ok_weaken: "read_ok R d out \<Longrightarrow> (\<And>x. R x \<Longrightarrow> Q x) \<Longrightarrow> read_ok Q d out"
  by (cases "(R, d, out)" rule: read_ok.cases) auto

lemma reads_weaken: "reads_sound R m \<Longrightarrow> (\<And>x. R x \<Longrightarrow> Q x) \<Longrightarrow> reads_sound Q m"
  unfolding reads_sound_def using read_ok_weaken by blast

lemma reads_bind:
  assumes m: "reads_sound R m" and f: "\<And>x. R x \<Longrightarrow> reads_sound Q (f x)"
  shows "reads_sound Q (bindO m f)"
  unfolding reads_sound_def
proof (intro allI impI)
  fix d :: Decoder_state
  assume "dpos d \<le> length (data d)"
  then have "read_ok R d (m d)" using m by (simp add: reads_sound_def)
  then show "read_ok Q d (bindO m f d)"
  proof (cases "(R, d, m d)" rule: read_ok.cases)
    case (4 R' d' x d1)
    then have *: "data d1 = data d" "dpos d \<le> dpos d1" "dpos d1 \<le> length (data d1)" "R x" "bindO m f d = f x d1"
      using \<open>read_ok R d (m d)\<close> by (auto simp: bindO_def)
    then have "read_ok Q d1 (f x d1)"
      using f [of x] by (simp add: reads_sound_def)
    then show ?thesis unfolding *(5) by (rule read_ok_from) (fact *)+
  qed (auto simp: bindO_def)
qed

lemma reads_map: "reads_sound R m \<Longrightarrow> (\<And>x. R x \<Longrightarrow> Q (f x)) \<Longrightarrow> reads_sound Q (map_ok f m)"
  unfolding map_ok_def by (rule reads_bind [where R = R]) (auto intro: reads_okO)

section \<open>The primitive reads\<close>

lemma read_uleb_loop_range:
  "read_uleb_loop chk bs r sh p = out \<Longrightarrow> out \<noteq> Undef \<and> (\<forall>v q. out = Ret (v, q) \<longrightarrow> p < q \<and> q \<le> length bs)"
proof (induction chk bs r sh p arbitrary: out rule: read_uleb_loop.induct)
  case (1 chk bs r sh p)
  then show ?case
    by (subst (asm) (2) read_uleb_loop.simps) (fastforce simp: Let_def split: if_splits)
qed

lemma read_sleb_loop_range:
  "read_sleb_loop chk bs r sh p = out \<Longrightarrow> out \<noteq> Undef \<and> (\<forall>v w b q. out = Ret (v, w, b, q) \<longrightarrow> p < q \<and> q \<le> length bs)"
proof (induction chk bs r sh p arbitrary: out rule: read_sleb_loop.induct)
  case (1 chk bs r sh p)
  then show ?case
    by (subst (asm) (2) read_sleb_loop.simps) (fastforce simp: Let_def split: if_splits)
qed

lemma reads_uleb: "reads_sound (\<lambda>_. True) (read_uleb128 chk)"
  unfolding reads_sound_def
proof (intro allI impI)
  show "read_ok (\<lambda>_. True) d (read_uleb128 chk d)" for d
    using read_uleb_loop_range [OF refl, of chk "data d" 0 0 "dpos d"]
    by (auto simp: read_uleb128_def read_unsigned_leb128_def split: outcome.splits)
qed

lemma reads_sleb: "reads_sound (\<lambda>_. True) (read_sleb128 chk)"
  unfolding reads_sound_def
proof (intro allI impI)
  show "read_ok (\<lambda>_. True) d (read_sleb128 chk d)" for d
    using read_sleb_loop_range [OF refl, of chk "data d" 0 0 "dpos d"]
    by (auto simp: read_sleb128_def read_signed_leb128_def split: outcome.splits if_splits)
qed

lemma reads_byte: "reads_sound (\<lambda>_. True) opaque_read_u8" "reads_sound (\<lambda>_. True) opaque_read_i8"
  by (auto simp: reads_sound_def opaque_read_u8_def opaque_read_i8_def)

lemma reads_cast: "reads_sound (\<lambda>_. True) m \<Longrightarrow> (\<And>x. Q (f x)) \<Longrightarrow> reads_sound Q (cast_result f m)"
  unfolding cast_result_def by (rule reads_bind [where R = "\<lambda>_. True"]) (auto intro: reads_okO)

lemma reads_usize: "reads_sound (\<lambda>n. n < 2 ^ 64) (opaque_read_usize chk)"
  unfolding opaque_read_usize_def
proof (rule reads_cast [OF reads_uleb])
  show "unat (ucast v :: u64) < 2 ^ 64" for v :: u128
    using unsigned_less [of "ucast v :: u64"] by simp
qed

lemma reads_char: "reads_sound valid_char (opaque_read_char chk)"
  unfolding opaque_read_char_def opaque_read_u32_def
  by (rule reads_bind [OF reads_cast [OF reads_uleb, where Q = "\<lambda>_. True"]]) (auto intro: reads_okO reads_panicO)

lemma reads_str: "reads_sound (\<lambda>s. utf8_valid s \<and> length s < 2 ^ 64) (opaque_read_str chk)"
  unfolding opaque_read_str_def
proof (rule reads_bind [OF reads_usize])
  fix n :: usize assume n: "n < 2 ^ 64"
  then show "reads_sound (\<lambda>s. utf8_valid s \<and> length s < 2 ^ 64)
      (\<lambda>d. if dpos d + n > length (data d) then Panic
           else let s = bslice (dpos d) n (data d)
                in if utf8_valid s then Ret (Inr s, d\<lparr>dpos := dpos d + n\<rparr>) else Panic)"
    by (auto simp: reads_sound_def Let_def)
qed

lemmas reads_prims = reads_uleb reads_sleb reads_byte reads_usize reads_char reads_str

section \<open>The decoders of the types\<close>

text \<open>\<open>of_type t v\<close>: \<open>v\<close> is a value of the type \<open>t\<close>, with the lengths of a 64 bit machine.\<close>

primrec of_type :: "sty \<Rightarrow> sval \<Rightarrow> bool" where
  "of_type T_unit v \<longleftrightarrow> v = V_unit"
| "of_type T_usize v \<longleftrightarrow> (case v of V_usize x \<Rightarrow> x < 2 ^ 64 | _ \<Rightarrow> False)"
| "of_type T_u8 v \<longleftrightarrow> (case v of V_u8 x \<Rightarrow> True | _ \<Rightarrow> False)"
| "of_type T_u16 v \<longleftrightarrow> (case v of V_u16 x \<Rightarrow> True | _ \<Rightarrow> False)"
| "of_type T_u32 v \<longleftrightarrow> (case v of V_u32 x \<Rightarrow> True | _ \<Rightarrow> False)"
| "of_type T_u64 v \<longleftrightarrow> (case v of V_u64 x \<Rightarrow> True | _ \<Rightarrow> False)"
| "of_type T_u128 v \<longleftrightarrow> (case v of V_u128 x \<Rightarrow> True | _ \<Rightarrow> False)"
| "of_type T_isize v \<longleftrightarrow> (case v of V_isize x \<Rightarrow> True | _ \<Rightarrow> False)"
| "of_type T_i8 v \<longleftrightarrow> (case v of V_i8 x \<Rightarrow> True | _ \<Rightarrow> False)"
| "of_type T_i16 v \<longleftrightarrow> (case v of V_i16 x \<Rightarrow> True | _ \<Rightarrow> False)"
| "of_type T_i32 v \<longleftrightarrow> (case v of V_i32 x \<Rightarrow> True | _ \<Rightarrow> False)"
| "of_type T_i64 v \<longleftrightarrow> (case v of V_i64 x \<Rightarrow> True | _ \<Rightarrow> False)"
| "of_type T_i128 v \<longleftrightarrow> (case v of V_i128 x \<Rightarrow> True | _ \<Rightarrow> False)"
| "of_type T_f32 v \<longleftrightarrow> (case v of V_f32 x \<Rightarrow> True | _ \<Rightarrow> False)"
| "of_type T_f64 v \<longleftrightarrow> (case v of V_f64 x \<Rightarrow> True | _ \<Rightarrow> False)"
| "of_type T_bool v \<longleftrightarrow> (case v of V_bool x \<Rightarrow> True | _ \<Rightarrow> False)"
| "of_type T_char v \<longleftrightarrow> (case v of V_char x \<Rightarrow> valid_char x | _ \<Rightarrow> False)"
| "of_type T_String v \<longleftrightarrow> (case v of V_String x \<Rightarrow> utf8_valid x \<and> length x < 2 ^ 64 | _ \<Rightarrow> False)"
| "of_type T_PathBuf v \<longleftrightarrow> (case v of V_PathBuf x \<Rightarrow> utf8_valid x \<and> length x < 2 ^ 64 | _ \<Rightarrow> False)"
| "of_type (T_Box t) v \<longleftrightarrow> of_type t v"
| "of_type (T_Option t) v \<longleftrightarrow> (case v of V_Option x \<Rightarrow> list_all (of_type t) (case x of None \<Rightarrow> [] | Some y \<Rightarrow> [y]) | _ \<Rightarrow> False)"
| "of_type (T_Vec sz t) v \<longleftrightarrow> (case v of V_seq xs \<Rightarrow> list_all (of_type t) xs \<and> length xs < 2 ^ 64 | _ \<Rightarrow> False)"
| "of_type (T_VecDeque t) v \<longleftrightarrow> (case v of V_seq xs \<Rightarrow> list_all (of_type t) xs \<and> length xs < 2 ^ 64 | _ \<Rightarrow> False)"
| "of_type (T_LinkedList t) v \<longleftrightarrow> (case v of V_seq xs \<Rightarrow> list_all (of_type t) xs \<and> length xs < 2 ^ 64 | _ \<Rightarrow> False)"
| "of_type (T_array n t) v \<longleftrightarrow> (case v of V_seq xs \<Rightarrow> list_all (of_type t) xs \<and> length xs = n | _ \<Rightarrow> False)"
| "of_type (T_pair t u) v \<longleftrightarrow> (case v of V_pair x y \<Rightarrow> of_type t x \<and> of_type u y | _ \<Rightarrow> False)"

lemma reads_elts:
  assumes "\<And>i. reads_sound R (f i)"
  shows "list_all R acc \<Longrightarrow> reads_sound (\<lambda>xs. list_all R xs \<and> length xs = length acc + n) (read_elts f push i n acc)"
proof (induction n arbitrary: i acc)
  case 0
  then show ?case by (simp add: reads_sound_def)
next
  case (Suc n)
  have "reads_sound (\<lambda>xs. list_all R xs \<and> length xs = length acc + Suc n) (read_elts f push (i + 1) n (push x acc))" if "R x" for x
    using Suc.IH [of "push x acc" "i + 1"] Suc.prems that by simp
  then show ?case
    by (simp add: reads_bind [OF assms])
qed

lemma reads_seq:
  assumes "\<And>n. n < 2 ^ 64 \<Longrightarrow> reads_sound Q (g n)"
  shows "reads_sound Q (read_seq (opaque_Decoder chk) g)"
  unfolding read_seq_def by (rule reads_bind [where R = "\<lambda>n. n < 2 ^ 64"]) (auto simp: opaque_Decoder_def assms reads_usize [simplified])

lemma reads_seq_elts:
  assumes "reads_sound R (dec (opaque_Decoder chk))" and "n < 2 ^ 64"
  shows "reads_sound (\<lambda>xs. list_all R xs \<and> length xs < 2 ^ 64)
           (read_elts (\<lambda>i. read_seq_elt (opaque_Decoder chk) i (dec (opaque_Decoder chk))) push 0 n [])"
  by (rule reads_weaken [OF reads_elts [where R = R]]) (use assms in \<open>auto simp: read_seq_elt_def\<close>)

lemma reads_option:
  assumes "reads_sound R (dec (opaque_Decoder chk))"
  shows "reads_sound (\<lambda>v. list_all R (case v of None \<Rightarrow> [] | Some x \<Rightarrow> [x])) (decode_Option dec (opaque_Decoder chk))"
proof -
  have some: "reads_sound (\<lambda>v. list_all R (case v of None \<Rightarrow> [] | Some x \<Rightarrow> [x])) (bindO (dec (opaque_Decoder chk)) (\<lambda>v. okO (Some v)))"
    by (rule reads_bind [OF assms]) (auto intro: reads_okO)
  show ?thesis
    unfolding decode_Option_def read_option_def read_enum_def read_enum_variant_def
    by (rule reads_bind [where R = "\<lambda>n. n < 2 ^ 64"])
      (auto simp: opaque_Decoder_def reads_usize [simplified] some [unfolded opaque_Decoder_def]
        reads_fail [unfolded opaque_Decoder_def] intro: reads_okO)
qed

lemma reads_tuple2:
  assumes "reads_sound R (deca (opaque_Decoder chk))" and "reads_sound S (decb (opaque_Decoder chk))"
  shows "reads_sound (\<lambda>(a, b). R a \<and> S b) (decode_tuple2 deca decb (opaque_Decoder chk))"
  unfolding decode_tuple2_def read_tuple_def read_tuple_arg_def
  by (rule reads_bind [OF assms(1)], rule reads_bind [OF assms(2)]) (simp add: reads_sound_def)

lemma reads_ints:
  "reads_sound (\<lambda>_. True) (opaque_read_u128 chk)" "reads_sound (\<lambda>_. True) (opaque_read_u64 chk)"
  "reads_sound (\<lambda>_. True) (opaque_read_u32 chk)" "reads_sound (\<lambda>_. True) (opaque_read_u16 chk)"
  "reads_sound (\<lambda>_. True) (opaque_read_i128 chk)" "reads_sound (\<lambda>_. True) (opaque_read_i64 chk)"
  "reads_sound (\<lambda>_. True) (opaque_read_i32 chk)" "reads_sound (\<lambda>_. True) (opaque_read_i16 chk)"
  "reads_sound (\<lambda>_. True) (opaque_read_isize chk)"
  unfolding opaque_read_u128_def opaque_read_u64_def opaque_read_u32_def opaque_read_u16_def opaque_read_i128_def
    opaque_read_i64_def opaque_read_i32_def opaque_read_i16_def opaque_read_isize_def
  by (simp_all add: reads_cast reads_uleb reads_sleb)

lemma reads_rest:
  "reads_sound (\<lambda>_. True) opaque_read_bool" "reads_sound (\<lambda>_. True) (opaque_read_f64 chk)"
  "reads_sound (\<lambda>_. True) (opaque_read_f32 chk)" "reads_sound (\<lambda>_. True) opaque_read_nil"
  unfolding opaque_read_bool_def opaque_read_f64_def opaque_read_f32_def opaque_read_nil_def
  by (auto intro!: reads_okO reads_bind [OF reads_byte(1)] reads_bind [OF reads_ints(2)] reads_bind [OF reads_ints(3)])

lemma reads_String: "reads_sound (\<lambda>s. utf8_valid s \<and> length s < 2 ^ 64) (decode_String (opaque_Decoder chk))"
  unfolding decode_String_def
  by (rule reads_bind [where R = "\<lambda>s. utf8_valid s \<and> length s < 2 ^ 64"])
    (auto simp: opaque_Decoder_def reads_str [simplified] intro: reads_okO)

lemma decode_ty_sound: "reads_sound (of_type t) (decode_ty A t (opaque_Decoder chk))"
proof (induction t)
  case (T_Box t)
  then show ?case by (auto simp: decode_Box_def intro!: reads_okO elim!: reads_bind)
next
  case (T_Option t)
  then show ?case by (auto intro!: reads_map [OF reads_option])
next
  case (T_Vec sz t)
  then show ?case
    by (auto simp: decode_Vec_def intro!: reads_map [OF reads_seq] reads_panicO reads_seq_elts [simplified])
next
  case (T_VecDeque t)
  then show ?case
    by (auto simp: decode_VecDeque_def intro!: reads_map [OF reads_seq] reads_seq_elts [simplified])
next
  case (T_LinkedList t)
  then show ?case
    by (auto simp: decode_LinkedList_def intro!: reads_map [OF reads_seq] reads_seq_elts [simplified])
next
  case (T_array n t)
  have "reads_sound (\<lambda>xs. list_all (of_type t) xs \<and> length xs = n)
      (read_elts (\<lambda>i. read_seq_elt (opaque_Decoder chk) i (decode_ty A t (opaque_Decoder chk))) push 0 n [])"
    by (rule reads_weaken [OF reads_elts [where R = "of_type t"]]) (use T_array in \<open>auto simp: read_seq_elt_def\<close>)
  then show ?case
    by (auto simp: decode_array_def intro!: reads_map [OF reads_seq] reads_fail)
next
  case (T_pair t u)
  have "reads_sound (\<lambda>(a, b). of_type t a \<and> of_type u b) (decode_tuple2 (decode_ty A t) (decode_ty A u) (opaque_Decoder chk))"
    using T_pair by (rule reads_tuple2)
  from reads_map [OF this, where f = "\<lambda>(x, y). V_pair x y"] show ?case by auto
next
  case T_String
  show ?case by (auto intro!: reads_map [OF reads_String])
next
  case T_PathBuf
  have "reads_sound (\<lambda>s. utf8_valid s \<and> length s < 2 ^ 64) (decode_PathBuf (opaque_Decoder chk))"
    unfolding decode_PathBuf_def by (rule reads_bind [OF reads_String]) (rule reads_okO)
  from reads_map [OF this, where f = V_PathBuf] show ?case by auto
qed (auto simp: opaque.prim_defs opaque_Decoder_def intro!: reads_map [OF reads_ints(1)] reads_map [OF reads_ints(2)]
  reads_map [OF reads_ints(3)] reads_map [OF reads_ints(4)] reads_map [OF reads_ints(5)] reads_map [OF reads_ints(6)]
  reads_map [OF reads_ints(7)] reads_map [OF reads_ints(8)] reads_map [OF reads_ints(9)] reads_map [OF reads_byte(1)]
  reads_map [OF reads_byte(2)] reads_map [OF reads_rest(1)] reads_map [OF reads_rest(2)] reads_map [OF reads_rest(3)]
  reads_map [OF reads_rest(4)] reads_map [OF reads_char] reads_map [OF reads_usize])


end
