(* ===== verification/Sgx_Sync.thy ===== *)
theory Sgx_Sync
  imports Main
begin

text \<open>
  Mutexes and condition variables of the enclave, \<^verbatim>\<open>src/sgx_tstd/src/sys/mutex.rs\<close> and \<^verbatim>\<open>condvar.rs\<close>, with the
  events of the untrusted runtime they sleep on, \<^verbatim>\<open>src/sgx_urts/src/event.rs\<close>. Every section that runs under the
  internal spin lock is one function; the threads interleave between these sections, between the atomic updates
  of an event counter and between the calls of the kernel's futex. \<open>sync_step\<close> is the step relation of the whole:
  any number of threads, one mutex, one condition variable, one event per thread.
\<close>

section \<open>Threads and errors\<close>

type_synonym sgx_thread_t = nat

definition SGX_THREAD_T_NULL :: sgx_thread_t where
  "SGX_THREAD_T_NULL = 0"

datatype errno = EPERM | EBUSY | EDEADLK | ETIMEDOUT

type_synonym SysError = "errno + unit"

section \<open>Mutex\<close>

datatype SgxThreadMutexControl = SGX_THREAD_MUTEX_NONRECURSIVE | SGX_THREAD_MUTEX_RECURSIVE

record SgxThreadMutexInner =
  refcount :: nat
  control :: SgxThreadMutexControl
  owner :: sgx_thread_t
  queue :: "sgx_thread_t list"

definition mutex_new :: "SgxThreadMutexControl \<Rightarrow> SgxThreadMutexInner" where
  "mutex_new c = \<lparr>refcount = 0, control = c, owner = SGX_THREAD_T_NULL, queue = []\<rparr>"

definition front :: "'a list \<Rightarrow> 'a option" where
  "front q = (case q of [] \<Rightarrow> None | x # _ \<Rightarrow> Some x)"

text \<open>The part of \<^verbatim>\<open>lock\<close> and \<^verbatim>\<open>try_lock\<close> that takes the mutex; \<open>None\<close> when it cannot be taken now.\<close>

definition mutex_acquire :: "sgx_thread_t \<Rightarrow> SgxThreadMutexInner \<Rightarrow> SgxThreadMutexInner option" where
  "mutex_acquire current self =
     (if control self = SGX_THREAD_MUTEX_RECURSIVE \<and> owner self = current
      then Some (self\<lparr>refcount := refcount self + 1\<rparr>)
      else if owner self = SGX_THREAD_T_NULL \<and> (front (queue self) = Some current \<or> front (queue self) = None)
      then let self' = (if front (queue self) = Some current then self\<lparr>queue := tl (queue self)\<rparr> else self)
           in Some (self'\<lparr>owner := current, refcount := refcount self' + 1\<rparr>)
      else None)"

text \<open>One turn of the loop of \<^verbatim>\<open>lock\<close>: whether it returns, and the mutex when the spin lock is released.\<close>

definition mutex_lock_turn :: "sgx_thread_t \<Rightarrow> SgxThreadMutexInner \<Rightarrow> bool \<times> SgxThreadMutexInner" where
  "mutex_lock_turn current self =
     (case mutex_acquire current self of
        Some self' \<Rightarrow> (True, self')
      | None \<Rightarrow> (False, if current \<notin> set (queue self) then self\<lparr>queue := queue self @ [current]\<rparr> else self))"

definition mutex_try_lock :: "sgx_thread_t \<Rightarrow> SgxThreadMutexInner \<Rightarrow> SysError \<times> SgxThreadMutexInner" where
  "mutex_try_lock current self =
     (case mutex_acquire current self of Some self' \<Rightarrow> (Inr (), self') | None \<Rightarrow> (Inl EBUSY, self))"

text \<open>\<^verbatim>\<open>unlock_lazy\<close>: the result, the waiter to be woken (or null) and the mutex.\<close>

definition mutex_unlock_lazy ::
  "sgx_thread_t \<Rightarrow> sgx_thread_t \<Rightarrow> SgxThreadMutexInner \<Rightarrow> SysError \<times> sgx_thread_t \<times> SgxThreadMutexInner" where
  "mutex_unlock_lazy current waiter self =
     (if owner self = SGX_THREAD_T_NULL then (Inl EPERM, waiter, self)
      else if owner self \<noteq> current then (Inl EPERM, waiter, self)
      else let self1 = self\<lparr>refcount := refcount self - 1\<rparr>
           in if refcount self1 = 0
              then let self2 = self1\<lparr>owner := SGX_THREAD_T_NULL\<rparr>
                   in (Inr (), if queue self2 = [] then SGX_THREAD_T_NULL else hd (queue self2), self2)
              else (Inr (), waiter, self1))"

definition mutex_destroy :: "SgxThreadMutexInner \<Rightarrow> SysError \<times> SgxThreadMutexInner" where
  "mutex_destroy self =
     (if owner self \<noteq> SGX_THREAD_T_NULL \<or> queue self \<noteq> [] then (Inl EBUSY, self)
      else (Inr (), self\<lparr>control := SGX_THREAD_MUTEX_NONRECURSIVE, refcount := 0\<rparr>))"

section \<open>Condition variable\<close>

text \<open>The state of the condition variable is the queue of its waiters.\<close>

type_synonym SgxThreadCondvarInner = "sgx_thread_t list"

text \<open>
  \<^verbatim>\<open>wait\<close> up to the first release of its spin lock: the caller is queued, then the mutex is released; when the
  mutex refuses, the caller leaves the queue again.
\<close>

definition condvar_wait_enter ::
  "sgx_thread_t \<Rightarrow> SgxThreadCondvarInner \<Rightarrow> SgxThreadMutexInner
     \<Rightarrow> (errno + sgx_thread_t) \<times> SgxThreadCondvarInner \<times> SgxThreadMutexInner" where
  "condvar_wait_enter current q m =
     (let q' = q @ [current]
      in case mutex_unlock_lazy current SGX_THREAD_T_NULL m of
           (Inl e, _, m') \<Rightarrow> (Inl e, butlast q', m')
         | (Inr _, waiter, m') \<Rightarrow> (Inr waiter, q', m'))"

text \<open>After a sleep: \<open>True\<close> leaves the loop of \<^verbatim>\<open>wait\<close>.\<close>

definition condvar_wait_check :: "sgx_thread_t \<Rightarrow> SgxThreadCondvarInner \<Rightarrow> bool" where
  "condvar_wait_check current q \<longleftrightarrow> current \<notin> set q"

text \<open>The same for \<^verbatim>\<open>wait_timeout\<close>: the value to return, if the loop is left, and the queue.\<close>

definition condvar_timeout_check ::
  "sgx_thread_t \<Rightarrow> bool \<Rightarrow> SgxThreadCondvarInner \<Rightarrow> SysError option \<times> SgxThreadCondvarInner" where
  "condvar_timeout_check current timed_out q =
     (if current \<in> set q
      then if timed_out then (Some (Inl ETIMEDOUT), remove1 current q) else (None, q)
      else (Some (Inr ()), q))"

definition condvar_signal :: "SgxThreadCondvarInner \<Rightarrow> sgx_thread_t list \<times> SgxThreadCondvarInner" where
  "condvar_signal q = (case q of [] \<Rightarrow> ([], []) | waiter # q' \<Rightarrow> ([waiter], q'))"

definition condvar_broadcast :: "SgxThreadCondvarInner \<Rightarrow> sgx_thread_t list \<times> SgxThreadCondvarInner" where
  "condvar_broadcast q = (rev q, [])"

definition condvar_destroy :: "SgxThreadCondvarInner \<Rightarrow> SysError \<times> SgxThreadCondvarInner" where
  "condvar_destroy q = (if q = [] then Inr () else Inl EBUSY, q)"

section \<open>Events of the untrusted runtime\<close>

text \<open>
  An event is an atomic counter. \<^verbatim>\<open>wait\<close> subtracts one and sleeps in the futex if the counter was 0; the kernel lets
  it sleep only while the counter is -1. \<^verbatim>\<open>wake\<close> adds one and calls the futex if the counter was not 0. After a timeout
  \<^verbatim>\<open>wait_timeout\<close> puts the counter back from -1 to 0.
\<close>

definition se_wait_fetch :: "int \<Rightarrow> int \<times> bool" where
  "se_wait_fetch event = (event - 1, event = 0)"

definition se_wake_fetch :: "int \<Rightarrow> int \<times> bool" where
  "se_wake_fetch event = (event + 1, event \<noteq> 0)"

definition futex_sleeps :: "int \<Rightarrow> bool" where
  "futex_sleeps event \<longleftrightarrow> event = - 1"

definition se_timeout_cas :: "int \<Rightarrow> int" where
  "se_timeout_cas event = (if event = - 1 then 0 else event)"

section \<open>The threads\<close>

text \<open>
  Where a thread is. \<open>Locking r\<close>: before a turn of the loop of \<^verbatim>\<open>lock\<close>, to return \<open>r\<close> once the mutex is taken.
  \<open>Wait_call k\<close>, \<open>Fx_enter k\<close>, \<open>Fx_sleep k\<close>, \<open>Fx_timedout k\<close>: inside \<^verbatim>\<open>thread_wait_event\<close>, to continue with \<open>k\<close>.
  \<open>Set_events ws a\<close>: about to set the events of \<open>ws\<close>; \<open>Fx_wake w ws a\<close>: about to call the futex for \<open>w\<close>.
  \<open>Cv_check timeouts timed_out\<close>: after a sleep in a condition variable.
\<close>

datatype cont = K_lock SysError | K_wait | K_wait_timeout

datatype after = A_idle | A_wait cont

datatype pc =
    Idle
  | Locking SysError
  | Wait_call cont
  | Fx_enter cont
  | Fx_sleep cont
  | Fx_timedout cont
  | Cv_check cont bool
  | Set_events "sgx_thread_t list" after
  | Fx_wake sgx_thread_t "sgx_thread_t list" after

record sync_sys =
  mtx :: SgxThreadMutexInner
  cvq :: SgxThreadCondvarInner
  pcs :: "sgx_thread_t \<Rightarrow> pc"
  ev :: "sgx_thread_t \<Rightarrow> int"
  held :: "sgx_thread_t \<Rightarrow> nat"

text \<open>
  \<open>held t\<close> counts the successful locks of thread \<open>t\<close> less its successful unlocks, as the thread itself sees them.
\<close>

definition sync_init :: "SgxThreadMutexControl \<Rightarrow> sync_sys" where
  "sync_init c = \<lparr>mtx = mutex_new c, cvq = [], pcs = (\<lambda>_. Idle), ev = (\<lambda>_. 0), held = (\<lambda>_. 0)\<rparr>"

definition goto :: "sgx_thread_t \<Rightarrow> pc \<Rightarrow> sync_sys \<Rightarrow> sync_sys" where
  "goto t p s = s\<lparr>pcs := (pcs s)(t := p)\<rparr>"

definition resume :: "cont \<Rightarrow> bool \<Rightarrow> pc" where
  "resume k timed_out = (case k of K_lock r \<Rightarrow> Locking r | _ \<Rightarrow> Cv_check k timed_out)"

definition continue :: "after \<Rightarrow> pc" where
  "continue a = (case a of A_idle \<Rightarrow> Idle | A_wait k \<Rightarrow> Wait_call k)"

definition wake_then :: "sgx_thread_t \<Rightarrow> after \<Rightarrow> pc" where
  "wake_then waiter a = (if waiter \<noteq> SGX_THREAD_T_NULL then Set_events [waiter] a else continue a)"

definition futex_wake_now :: "bool \<Rightarrow> sgx_thread_t \<Rightarrow> sync_sys \<Rightarrow> sync_sys" where
  "futex_wake_now call w s = (case pcs s w of Fx_sleep k \<Rightarrow> if call then goto w (resume k False) s else s | _ \<Rightarrow> s)"

text \<open>
  What the host does. \<open>Prompt\<close>: the futex call of a wake follows its update of the counter at once. \<open>Delayed\<close>: other
  threads may run in between, as the code of \<^verbatim>\<open>event.rs\<close> allows. \<open>Hostile\<close>: moreover the calls out of the enclave may
  return at any time with any result, whether they did what was asked or not.
\<close>

datatype host = Prompt | Delayed | Hostile

fun waits_for :: "pc \<Rightarrow> cont option" where
  "waits_for (Wait_call k) = Some k"
| "waits_for (Fx_enter k) = Some k"
| "waits_for (Fx_sleep k) = Some k"
| "waits_for (Fx_timedout k) = Some k"
| "waits_for (Set_events ws (A_wait k)) = Some k"
| "waits_for _ = None"

inductive sync_step :: "host \<Rightarrow> sync_sys \<Rightarrow> sync_sys \<Rightarrow> bool" for h where
  call_lock: "t \<noteq> SGX_THREAD_T_NULL \<Longrightarrow> pcs s t = Idle \<Longrightarrow> sync_step h s (goto t (Locking (Inr ())) s)"
| lock_taken: "pcs s t = Locking r \<Longrightarrow> mutex_lock_turn t (mtx s) = (True, m) \<Longrightarrow>
    sync_step h s (goto t Idle (s\<lparr>mtx := m, held := (held s)(t := held s t + 1)\<rparr>))"
| lock_waits: "pcs s t = Locking r \<Longrightarrow> mutex_lock_turn t (mtx s) = (False, m) \<Longrightarrow>
    sync_step h s (goto t (Wait_call (K_lock r)) (s\<lparr>mtx := m\<rparr>))"
| try_lock_ok: "t \<noteq> SGX_THREAD_T_NULL \<Longrightarrow> pcs s t = Idle \<Longrightarrow> mutex_try_lock t (mtx s) = (Inr (), m) \<Longrightarrow>
    sync_step h s (s\<lparr>mtx := m, held := (held s)(t := held s t + 1)\<rparr>)"
| try_lock_busy: "t \<noteq> SGX_THREAD_T_NULL \<Longrightarrow> pcs s t = Idle \<Longrightarrow> mutex_try_lock t (mtx s) = (Inl e, m) \<Longrightarrow>
    sync_step h s (s\<lparr>mtx := m\<rparr>)"
| unlock_ok: "t \<noteq> SGX_THREAD_T_NULL \<Longrightarrow> pcs s t = Idle \<Longrightarrow>
    mutex_unlock_lazy t SGX_THREAD_T_NULL (mtx s) = (Inr (), waiter, m) \<Longrightarrow>
    sync_step h s (goto t (wake_then waiter A_idle) (s\<lparr>mtx := m, held := (held s)(t := held s t - 1)\<rparr>))"
| unlock_error: "t \<noteq> SGX_THREAD_T_NULL \<Longrightarrow> pcs s t = Idle \<Longrightarrow>
    mutex_unlock_lazy t SGX_THREAD_T_NULL (mtx s) = (Inl e, waiter, m) \<Longrightarrow> sync_step h s (s\<lparr>mtx := m\<rparr>)"
| wait_ok: "t \<noteq> SGX_THREAD_T_NULL \<Longrightarrow> pcs s t = Idle \<Longrightarrow> control (mtx s) = SGX_THREAD_MUTEX_NONRECURSIVE \<Longrightarrow>
    k \<in> {K_wait, K_wait_timeout} \<Longrightarrow> condvar_wait_enter t (cvq s) (mtx s) = (Inr waiter, q, m) \<Longrightarrow>
    sync_step h s (goto t (wake_then waiter (A_wait k)) (s\<lparr>mtx := m, cvq := q, held := (held s)(t := held s t - 1)\<rparr>))"
| wait_error: "t \<noteq> SGX_THREAD_T_NULL \<Longrightarrow> pcs s t = Idle \<Longrightarrow> control (mtx s) = SGX_THREAD_MUTEX_NONRECURSIVE \<Longrightarrow>
    condvar_wait_enter t (cvq s) (mtx s) = (Inl e, q, m) \<Longrightarrow> sync_step h s (s\<lparr>mtx := m, cvq := q\<rparr>)"
| wait_leaves: "pcs s t = Cv_check K_wait b \<Longrightarrow> condvar_wait_check t (cvq s) \<Longrightarrow>
    sync_step h s (goto t (Locking (Inr ())) s)"
| wait_again: "pcs s t = Cv_check K_wait b \<Longrightarrow> \<not> condvar_wait_check t (cvq s) \<Longrightarrow>
    sync_step h s (goto t (Wait_call K_wait) s)"
| timeout_leaves: "pcs s t = Cv_check K_wait_timeout b \<Longrightarrow> condvar_timeout_check t b (cvq s) = (Some r, q) \<Longrightarrow>
    sync_step h s (goto t (Locking r) (s\<lparr>cvq := q\<rparr>))"
| timeout_again: "pcs s t = Cv_check K_wait_timeout b \<Longrightarrow> condvar_timeout_check t b (cvq s) = (None, q) \<Longrightarrow>
    sync_step h s (goto t (Wait_call K_wait_timeout) (s\<lparr>cvq := q\<rparr>))"
| signal: "t \<noteq> SGX_THREAD_T_NULL \<Longrightarrow> pcs s t = Idle \<Longrightarrow> condvar_signal (cvq s) = (ws, q) \<Longrightarrow>
    sync_step h s (goto t (Set_events ws A_idle) (s\<lparr>cvq := q\<rparr>))"
| broadcast: "t \<noteq> SGX_THREAD_T_NULL \<Longrightarrow> pcs s t = Idle \<Longrightarrow> condvar_broadcast (cvq s) = (ws, q) \<Longrightarrow>
    sync_step h s (goto t (Set_events ws A_idle) (s\<lparr>cvq := q\<rparr>))"
| wait_fetch: "pcs s t = Wait_call k \<Longrightarrow> se_wait_fetch (ev s t) = (e, sleep) \<Longrightarrow>
    sync_step h s (goto t (if sleep then Fx_enter k else resume k False) (s\<lparr>ev := (ev s)(t := e)\<rparr>))"
| futex_wait: "pcs s t = Fx_enter k \<Longrightarrow>
    sync_step h s (goto t (if futex_sleeps (ev s t) then Fx_sleep k else resume k False) s)"
| futex_timeout: "pcs s t = Fx_sleep K_wait_timeout \<Longrightarrow> sync_step h s (goto t (Fx_timedout K_wait_timeout) s)"
| timeout_cas: "pcs s t = Fx_timedout k \<Longrightarrow>
    sync_step h s (goto t (resume k True) (s\<lparr>ev := (ev s)(t := se_timeout_cas (ev s t))\<rparr>))"
| hostile_wait: "h = Hostile \<Longrightarrow> waits_for (pcs s t) = Some k \<Longrightarrow> sync_step h s (goto t (resume k b) s)"
| hostile_set: "h = Hostile \<Longrightarrow> pcs s u = Set_events ws A_idle \<Longrightarrow> sync_step h s (goto u Idle s)"
| wake_fetch: "h \<noteq> Prompt \<Longrightarrow> pcs s u = Set_events (w # ws) a \<Longrightarrow> se_wake_fetch (ev s w) = (e, call) \<Longrightarrow>
    sync_step h s (goto u (if call then Fx_wake w ws a else Set_events ws a) (s\<lparr>ev := (ev s)(w := e)\<rparr>))"
| wake_prompt: "h = Prompt \<Longrightarrow> pcs s u = Set_events (w # ws) a \<Longrightarrow> se_wake_fetch (ev s w) = (e, call) \<Longrightarrow>
    sync_step h s (futex_wake_now call w (goto u (Set_events ws a) (s\<lparr>ev := (ev s)(w := e)\<rparr>)))"
| futex_wake_sleeper: "pcs s u = Fx_wake w ws a \<Longrightarrow> pcs s w = Fx_sleep k \<Longrightarrow>
    sync_step h s (goto w (resume k False) (goto u (Set_events ws a) s))"
| futex_wake_nobody: "pcs s u = Fx_wake w ws a \<Longrightarrow> (\<forall>k. pcs s w \<noteq> Fx_sleep k) \<Longrightarrow>
    sync_step h s (goto u (Set_events ws a) s)"
| events_set: "pcs s u = Set_events [] a \<Longrightarrow> sync_step h s (goto u (continue a) s)"

inductive sync_reachable :: "host \<Rightarrow> SgxThreadMutexControl \<Rightarrow> sync_sys \<Rightarrow> bool" for h c where
  start: "sync_reachable h c (sync_init c)"
| step: "sync_reachable h c s \<Longrightarrow> sync_step h s s' \<Longrightarrow> sync_reachable h c s'"

end
