(* ===== verification/Sgx_Sync_Proofs.thy ===== *)
theory Sgx_Sync_Proofs
  imports Sgx_Sync
begin

text \<open>
  What the mutex and the condition variable guarantee. Mutual exclusion and the discipline of the queues hold for
  every host. That no waiter is forgotten holds when a wake is prompt; with the events of \<^verbatim>\<open>event.rs\<close> as they are,
  a late futex call makes a sleeper leave with its counter at -1, and a run is given in which the mutex is free for
  ever while its first waiter sleeps.
\<close>

section \<open>The mutex sections\<close>

definition mutex_ok :: "SgxThreadMutexInner \<Rightarrow> bool" where
  "mutex_ok m \<longleftrightarrow> (owner m = SGX_THREAD_T_NULL \<longleftrightarrow> refcount m = 0) \<and>
     (control m = SGX_THREAD_MUTEX_NONRECURSIVE \<longrightarrow> refcount m \<le> 1) \<and>
     (control m = SGX_THREAD_MUTEX_RECURSIVE \<longrightarrow> owner m \<notin> set (queue m)) \<and>
     distinct (queue m) \<and> SGX_THREAD_T_NULL \<notin> set (queue m)"

text \<open>How many locks of \<open>t\<close> the mutex knows.\<close>

definition locks_of :: "SgxThreadMutexInner \<Rightarrow> sgx_thread_t \<Rightarrow> nat" where
  "locks_of m t = (if owner m = t \<and> t \<noteq> SGX_THREAD_T_NULL then refcount m else 0)"

lemma front_simps [simp]: "front [] = None" "front (x # xs) = Some x"
  by (simp_all add: front_def)

lemma front_None_iff [simp]: "front q = None \<longleftrightarrow> q = []"
  by (simp add: front_def split: list.split)

lemma front_Some_iff: "front q = Some x \<longleftrightarrow> (\<exists>q'. q = x # q')"
  by (cases q) auto

lemma mutex_acquire_SomeE:
  assumes "mutex_acquire t m = Some m'"
  obtains (again) "control m = SGX_THREAD_MUTEX_RECURSIVE" "owner m = t" "m' = m\<lparr>refcount := refcount m + 1\<rparr>"
  | (head) q where "owner m = SGX_THREAD_T_NULL" "queue m = t # q"
      "m' = m\<lparr>queue := q, owner := t, refcount := refcount m + 1\<rparr>"
  | (free) "owner m = SGX_THREAD_T_NULL" "queue m = []" "m' = m\<lparr>owner := t, refcount := refcount m + 1\<rparr>"
  using assms
  by (cases "queue m") (auto simp: mutex_acquire_def Let_def split: if_splits)

lemma mutex_acquire_ok:
  assumes "mutex_acquire t m = Some m'" and "mutex_ok m" and "t \<noteq> SGX_THREAD_T_NULL"
  shows "mutex_ok m'" and "locks_of m' = (locks_of m)(t := locks_of m t + 1)" and "control m' = control m"
    and "set (queue m') \<subseteq> set (queue m) - {t}" and "owner m' = t"
proof -
  show "mutex_ok m'"
    using assms by (cases rule: mutex_acquire_SomeE) (auto simp: mutex_ok_def)
  show "locks_of m' = (locks_of m)(t := locks_of m t + 1)"
    using assms by (cases rule: mutex_acquire_SomeE) (auto simp: mutex_ok_def locks_of_def)
  show "control m' = control m" and "owner m' = t"
    using assms by (cases rule: mutex_acquire_SomeE; simp)+
  show "set (queue m') \<subseteq> set (queue m) - {t}"
    using assms by (cases rule: mutex_acquire_SomeE) (auto simp: mutex_ok_def)
qed

lemma mutex_lock_turnE:
  assumes "mutex_lock_turn t m = (b, m')"
  obtains (taken) "b" "mutex_acquire t m = Some m'"
  | (stays) "\<not> b" "mutex_acquire t m = None" "t \<in> set (queue m)" "m' = m"
  | (queued) "\<not> b" "mutex_acquire t m = None" "t \<notin> set (queue m)" "m' = m\<lparr>queue := queue m @ [t]\<rparr>"
proof (cases "mutex_acquire t m")
  case None
  show thesis
  proof (cases "t \<in> set (queue m)")
    case True
    show thesis by (rule stays) (use None True assms in \<open>simp_all add: mutex_lock_turn_def\<close>)
  next
    case False
    show thesis by (rule queued) (use None False assms in \<open>simp_all add: mutex_lock_turn_def\<close>)
  qed
next
  case (Some m1)
  show thesis by (rule taken) (use Some assms in \<open>simp_all add: mutex_lock_turn_def\<close>)
qed

lemma mutex_lock_turn_ok:
  assumes "mutex_lock_turn t m = (b, m')" and "mutex_ok m" and "t \<noteq> SGX_THREAD_T_NULL"
  shows "mutex_ok m'" and "locks_of m' = (if b then (locks_of m)(t := locks_of m t + 1) else locks_of m)"
    and "control m' = control m"
proof -
  have "mutex_ok m' \<and> locks_of m' = (if b then (locks_of m)(t := locks_of m t + 1) else locks_of m) \<and> control m' = control m"
    using assms(1)
  proof (cases rule: mutex_lock_turnE)
    case taken
    then show ?thesis using mutex_acquire_ok [OF _ assms(2,3)] by simp
  next
    case stays
    then show ?thesis using assms(2) by simp
  next
    case queued
    then have "control m = SGX_THREAD_MUTEX_RECURSIVE \<Longrightarrow> owner m \<noteq> t"
      by (auto simp: mutex_acquire_def split: if_splits)
    with queued show ?thesis using assms(2,3) by (auto simp: mutex_ok_def locks_of_def)
  qed
  then show "mutex_ok m'" and "locks_of m' = (if b then (locks_of m)(t := locks_of m t + 1) else locks_of m)"
    and "control m' = control m" by blast+
qed

lemma mutex_unlock_lazyE:
  assumes "mutex_unlock_lazy t w m = (r, w', m')"
  obtains (refused) "r = Inl EPERM" "w' = w" "m' = m" "owner m \<noteq> t \<or> owner m = SGX_THREAD_T_NULL"
  | (released) "r = Inr ()" "owner m = t" "t \<noteq> SGX_THREAD_T_NULL" "refcount m \<le> 1"
      "m' = m\<lparr>refcount := 0, owner := SGX_THREAD_T_NULL\<rparr>"
      "w' = (if queue m = [] then SGX_THREAD_T_NULL else hd (queue m))"
  | (kept) "r = Inr ()" "owner m = t" "t \<noteq> SGX_THREAD_T_NULL" "1 < refcount m" "w' = w"
      "m' = m\<lparr>refcount := refcount m - 1\<rparr>"
  using assms by (auto simp: mutex_unlock_lazy_def Let_def split: if_splits)

lemma mutex_unlock_lazy_ok:
  assumes "mutex_unlock_lazy t w m = (r, w', m')" and "mutex_ok m"
  shows "mutex_ok m'" and "locks_of m' = (if r = Inr () then (locks_of m)(t := locks_of m t - 1) else locks_of m)"
    and "control m' = control m" and "queue m' = queue m"
proof -
  show "mutex_ok m'" using assms by (cases rule: mutex_unlock_lazyE) (auto simp: mutex_ok_def)
  show "locks_of m' = (if r = Inr () then (locks_of m)(t := locks_of m t - 1) else locks_of m)"
    using assms by (cases rule: mutex_unlock_lazyE) (auto simp: mutex_ok_def locks_of_def)
  show "control m' = control m" using assms by (cases rule: mutex_unlock_lazyE) simp_all
  show "queue m' = queue m" using assms by (cases rule: mutex_unlock_lazyE) simp_all
qed

lemma mutex_try_lockE:
  assumes "mutex_try_lock t m = (r, m')"
  obtains (taken) "r = Inr ()" "mutex_acquire t m = Some m'" | (busy) "r = Inl EBUSY" "mutex_acquire t m = None" "m' = m"
  using assms by (auto simp: mutex_try_lock_def split: option.splits)

lemma condvar_wait_enterE:
  assumes "condvar_wait_enter t q m = (r, q', m')"
  obtains (refused) e where "r = Inl e" "q' = q" "mutex_unlock_lazy t SGX_THREAD_T_NULL m = (Inl e, SGX_THREAD_T_NULL, m')"
  | (released) w where "r = Inr w" "q' = q @ [t]" "mutex_unlock_lazy t SGX_THREAD_T_NULL m = (Inr (), w, m')"
proof -
  obtain r0 w m0 where u: "mutex_unlock_lazy t SGX_THREAD_T_NULL m = (r0, w, m0)" by (cases "mutex_unlock_lazy t SGX_THREAD_T_NULL m")
  show thesis
  proof (cases r0)
    case (Inl e)
    with u have "w = SGX_THREAD_T_NULL" by (cases rule: mutex_unlock_lazyE) simp_all
    with u Inl assms that(1) [of e] show thesis by (simp add: condvar_wait_enter_def)
  next
    case (Inr x)
    with u assms that(2) [of w] show thesis by (simp add: condvar_wait_enter_def)
  qed
qed

section \<open>Mutual exclusion\<close>

definition exclusive :: "sync_sys \<Rightarrow> bool" where
  "exclusive s \<longleftrightarrow> mutex_ok (mtx s) \<and> held s = locks_of (mtx s)"

text \<open>Every step is one of the sections on the mutex, or leaves the mutex and the counts alone.\<close>

lemma sync_step_mutexE:
  assumes "sync_step h s s'" and "pcs s SGX_THREAD_T_NULL = Idle"
  obtains (same) "mtx s' = mtx s" "held s' = held s"
  | (turn) t b where "t \<noteq> SGX_THREAD_T_NULL" "mutex_lock_turn t (mtx s) = (b, mtx s')"
      "held s' = (if b then (held s)(t := held s t + 1) else held s)"
  | (try_lock) t where "t \<noteq> SGX_THREAD_T_NULL" "mutex_acquire t (mtx s) = Some (mtx s')" "held s' = (held s)(t := held s t + 1)"
  | (unlock) t w a where "mutex_unlock_lazy t SGX_THREAD_T_NULL (mtx s) = (Inr (), w, mtx s')"
      "held s' = (held s)(t := held s t - 1)" "pcs s' t = wake_then w a"
  using assms(1)
proof cases
  case (lock_taken t r m)
  then have "t \<noteq> SGX_THREAD_T_NULL" using assms(2) by auto
  with lock_taken turn [of t True] show thesis by (simp add: goto_def)
next
  case (lock_waits t r m)
  then have "t \<noteq> SGX_THREAD_T_NULL" using assms(2) by auto
  with lock_waits turn [of t False] show thesis by (simp add: goto_def)
next
  case (try_lock_ok t m)
  from try_lock_ok(4) have "mutex_acquire t (mtx s) = Some m" by (cases rule: mutex_try_lockE) simp_all
  with try_lock_ok that(3) [of t] show thesis by simp
next
  case (try_lock_busy t e m)
  from try_lock_busy(4) have "m = mtx s" by (cases rule: mutex_try_lockE) simp_all
  with try_lock_busy same show thesis by simp
next
  case (unlock_ok t w m)
  with unlock [of t w A_idle] show thesis by (simp add: goto_def)
next
  case (unlock_error t e w m)
  from unlock_error(4) have "m = mtx s" by (cases rule: mutex_unlock_lazyE) simp_all
  with unlock_error same show thesis by simp
next
  case (wait_ok t k w q m)
  from wait_ok(6) have "mutex_unlock_lazy t SGX_THREAD_T_NULL (mtx s) = (Inr (), w, m)"
    by (cases rule: condvar_wait_enterE) simp_all
  with wait_ok unlock [of t w "A_wait k"] show thesis by (simp add: goto_def)
next
  case (wait_error t e q m)
  from wait_error(5) have "m = mtx s"
    by (cases rule: condvar_wait_enterE) (auto elim: mutex_unlock_lazyE)
  with wait_error same show thesis by simp
qed (use same in \<open>simp_all add: goto_def futex_wake_now_def split: pc.splits if_splits\<close>)

lemma null_idle_step:
  assumes "sync_step h s s'" and "pcs s SGX_THREAD_T_NULL = Idle"
  shows "pcs s' SGX_THREAD_T_NULL = Idle"
  using assms by cases (auto simp: goto_def futex_wake_now_def split: pc.splits)

lemma null_idle: "sync_reachable h c s \<Longrightarrow> pcs s SGX_THREAD_T_NULL = Idle"
  by (induction rule: sync_reachable.induct) (auto simp: sync_init_def intro: null_idle_step)

lemma exclusive_step:
  assumes "sync_step h s s'" and "pcs s SGX_THREAD_T_NULL = Idle" and "exclusive s"
  shows "exclusive s' \<and> control (mtx s') = control (mtx s)"
proof -
  have ok: "mutex_ok (mtx s)" and h: "held s = locks_of (mtx s)" using assms(3) by (auto simp: exclusive_def)
  show ?thesis
    using assms(1,2)
  proof (cases rule: sync_step_mutexE)
    case same
    with assms(3) show ?thesis by (simp add: exclusive_def)
  next
    case (turn t b)
    with mutex_lock_turn_ok [OF turn(2) ok turn(1)] h show ?thesis by (simp add: exclusive_def)
  next
    case (try_lock t)
    with mutex_acquire_ok [OF try_lock(2) ok try_lock(1)] h show ?thesis by (simp add: exclusive_def)
  next
    case (unlock t w a)
    with mutex_unlock_lazy_ok [OF unlock(1) ok] h show ?thesis by (simp add: exclusive_def)
  qed
qed

lemma exclusive_reachable: "sync_reachable h c s \<Longrightarrow> exclusive s \<and> control (mtx s) = c"
proof (induction rule: sync_reachable.induct)
  case start
  show ?case by (auto simp: sync_init_def exclusive_def mutex_new_def mutex_ok_def locks_of_def)
next
  case (step s s')
  then show ?case using exclusive_step [OF step.hyps(2) null_idle [OF step.hyps(1)]] by simp
qed

lemma sync_reachable_steps:
  assumes "sync_reachable h c s" and "(sync_step h)\<^sup>*\<^sup>* s s'"
  shows "sync_reachable h c s'"
  using assms(2,1) by (induction rule: rtranclp_induct) (auto intro: sync_reachable.step)

section \<open>Who is in which queue\<close>

fun cv_cont :: "cont \<Rightarrow> bool" where
  "cv_cont (K_lock r) = False"
| "cv_cont _ = True"

fun in_lock :: "pc \<Rightarrow> bool" where
  "in_lock (Locking r) = True"
| "in_lock (Wait_call k) = (\<not> cv_cont k)"
| "in_lock (Fx_enter k) = (\<not> cv_cont k)"
| "in_lock (Fx_sleep k) = (\<not> cv_cont k)"
| "in_lock (Fx_timedout k) = (\<not> cv_cont k)"
| "in_lock _ = False"

fun in_cv :: "pc \<Rightarrow> bool" where
  "in_cv (Wait_call k) = cv_cont k"
| "in_cv (Fx_enter k) = cv_cont k"
| "in_cv (Fx_sleep k) = cv_cont k"
| "in_cv (Fx_timedout k) = cv_cont k"
| "in_cv (Cv_check k b) = True"
| "in_cv (Set_events ws (A_wait k)) = True"
| "in_cv (Fx_wake w ws (A_wait k)) = True"
| "in_cv _ = False"

text \<open>Only condition variables combine setting an event with waiting, or check their queue.\<close>

fun pc_ok :: "pc \<Rightarrow> bool" where
  "pc_ok (Cv_check k b) = cv_cont k"
| "pc_ok (Set_events ws (A_wait k)) = cv_cont k"
| "pc_ok (Fx_wake w ws (A_wait k)) = cv_cont k"
| "pc_ok _ = True"

definition queued :: "sync_sys \<Rightarrow> bool" where
  "queued s \<longleftrightarrow> (\<forall>t. pc_ok (pcs s t)) \<and> (\<forall>t \<in> set (queue (mtx s)). in_lock (pcs s t)) \<and>
     distinct (cvq s) \<and> (\<forall>t \<in> set (cvq s). in_cv (pcs s t))"

lemma not_queued:
  assumes "queued s"
  shows "\<not> in_lock (pcs s t) \<Longrightarrow> t \<notin> set (queue (mtx s))" and "\<not> in_cv (pcs s t) \<Longrightarrow> t \<notin> set (cvq s)"
  using assms by (auto simp: queued_def)

lemma in_lock_resume [simp]: "pc_ok (resume k b)" "in_lock (resume k b) \<longleftrightarrow> \<not> cv_cont k" "in_cv (resume k b) \<longleftrightarrow> cv_cont k"
  by (cases k; simp add: resume_def)+

lemma wake_then_simps [simp]:
  "in_cv (wake_then w (A_wait k)) = (if w = SGX_THREAD_T_NULL then cv_cont k else True)"
  "\<not> in_cv (wake_then w A_idle)" "\<not> in_lock (wake_then w A_idle)" "pc_ok (wake_then w A_idle)"
  "pc_ok (wake_then w (A_wait k)) = (if w = SGX_THREAD_T_NULL then True else cv_cont k)"
  by (simp_all add: wake_then_def continue_def)

lemma queued_fields [simp]: "queued (s\<lparr>ev := e\<rparr>) = queued s" "queued (s\<lparr>held := g\<rparr>) = queued s"
  by (simp_all add: queued_def)

lemma queued_goto:
  assumes "queued s" and "pc_ok p" and "in_lock (pcs s t) \<Longrightarrow> in_lock p" and "t \<in> set (cvq s) \<Longrightarrow> in_cv (pcs s t) \<Longrightarrow> in_cv p"
  shows "queued (goto t p s)"
  using assms by (auto simp: queued_def goto_def)

lemma pcs_goto [simp]: "pcs (goto t p s) u = (if u = t then p else pcs s u)"
  by (simp add: goto_def)

lemma waits_for_resume:
  assumes "queued s" and "waits_for (pcs s t) = Some k"
  shows "queued (goto t (resume k b) s)"
proof (rule queued_goto [OF assms(1)])
  have "pc_ok (pcs s t)" using assms(1) by (simp add: queued_def)
  with assms(2) show "in_lock (pcs s t) \<Longrightarrow> in_lock (resume k b)" and "in_cv (pcs s t) \<Longrightarrow> in_cv (resume k b)"
    by (cases "pcs s t" rule: waits_for.cases; simp)+
qed simp

lemma events_same [simp]:
  "pc_ok (Set_events ws a) = (\<forall>k. a = A_wait k \<longrightarrow> cv_cont k)" "in_cv (Set_events ws a) = (a \<noteq> A_idle)"
  "pc_ok (Fx_wake w ws a) = (\<forall>k. a = A_wait k \<longrightarrow> cv_cont k)" "in_cv (Fx_wake w ws a) = (a \<noteq> A_idle)"
  by (cases a; simp)+

lemma queued_pc_ok: "queued s \<Longrightarrow> pcs s t = p \<Longrightarrow> pc_ok p"
  by (auto simp: queued_def)

lemma queued_taken:
  assumes "queued s" and "exclusive s" and "mutex_acquire t (mtx s) = Some m" and "t \<noteq> SGX_THREAD_T_NULL"
    and "pcs s t = Locking r \<or> pcs s t = Idle"
  shows "queued (goto t Idle (s\<lparr>mtx := m, held := g\<rparr>))"
proof -
  have "set (queue m) \<subseteq> set (queue (mtx s)) - {t}"
    using mutex_acquire_ok(4) [OF assms(3) _ assms(4)] assms(2) by (simp add: exclusive_def)
  with assms(1,5) show ?thesis by (auto simp: queued_def goto_def)
qed

lemma queued_step:
  assumes "sync_step h s s'" and "queued s" and "pcs s SGX_THREAD_T_NULL = Idle" and "exclusive s"
  shows "queued s'"
  using assms(1)
proof cases
  case (lock_taken t r m)
  have "mutex_acquire t (mtx s) = Some m" using lock_taken(3) by (cases rule: mutex_lock_turnE) simp_all
  moreover have "t \<noteq> SGX_THREAD_T_NULL" using lock_taken(2) assms(3) by auto
  ultimately show ?thesis using queued_taken [OF assms(2,4), of t m r] lock_taken by simp
next
  case (lock_waits t r m)
  from lock_waits(3) show ?thesis
    by (cases rule: mutex_lock_turnE) (use lock_waits assms(2) in \<open>auto simp: queued_def goto_def\<close>)
next
  case (try_lock_ok t m)
  have "mutex_acquire t (mtx s) = Some m" using try_lock_ok(4) by (cases rule: mutex_try_lockE) simp_all
  then show ?thesis using queued_taken [OF assms(2,4), of t m] try_lock_ok by (simp add: goto_def fun_upd_idem)
next
  case (try_lock_busy t e m)
  have "m = mtx s" using try_lock_busy(4) by (cases rule: mutex_try_lockE) simp_all
  with try_lock_busy assms(2) show ?thesis by (simp add: queued_def)
next
  case (unlock_ok t w m)
  have "queue m = queue (mtx s)"
    using mutex_unlock_lazy_ok(4) [OF unlock_ok(4)] assms(4) by (simp add: exclusive_def)
  with unlock_ok assms(2) show ?thesis by (auto simp: queued_def goto_def)
next
  case (unlock_error t e w m)
  have "m = mtx s" using unlock_error(4) by (cases rule: mutex_unlock_lazyE) simp_all
  with unlock_error assms(2) show ?thesis by (simp add: queued_def)
next
  case (wait_ok t k w q m)
  have u: "mutex_unlock_lazy t SGX_THREAD_T_NULL (mtx s) = (Inr (), w, m)" and q: "q = cvq s @ [t]"
    using wait_ok(6) by (cases rule: condvar_wait_enterE; simp)+
  have "queue m = queue (mtx s)" using mutex_unlock_lazy_ok(4) [OF u] assms(4) by (simp add: exclusive_def)
  with wait_ok q assms(2) show ?thesis by (auto simp: queued_def goto_def)
next
  case (wait_error t e q m)
  have "m = mtx s" and "q = cvq s"
    using wait_error(5) by (cases rule: condvar_wait_enterE; auto elim: mutex_unlock_lazyE)+
  with wait_error assms(2) show ?thesis by (simp add: queued_def)
next
  case (timeout_leaves t b r q)
  then have "q = (if t \<in> set (cvq s) then remove1 t (cvq s) else cvq s)"
    by (auto simp: condvar_timeout_check_def split: if_splits)
  with timeout_leaves assms(2) show ?thesis by (auto simp: queued_def goto_def)
next
  case (timeout_again t b q)
  then have "q = cvq s" by (auto simp: condvar_timeout_check_def split: if_splits)
  with timeout_again assms(2) show ?thesis by (auto simp: queued_def goto_def)
next
  case (signal t ws q)
  then have "q = [] \<or> (\<exists>w. cvq s = w # q)" by (auto simp: condvar_signal_def split: list.splits)
  with signal assms(2) not_queued [OF assms(2), of t] show ?thesis by (auto simp: queued_def goto_def)
next
  case (broadcast t ws q)
  with assms(2) show ?thesis by (auto simp: queued_def goto_def condvar_broadcast_def)
next
  case (events_set u a)
  then have "pc_ok (pcs s u)" "in_cv (pcs s u) = in_cv (continue a)" "\<not> in_lock (pcs s u)" "pc_ok (continue a)"
    using assms(2) by (auto simp: queued_def continue_def split: after.splits dest: spec [of _ u])
  with events_set assms(2) show ?thesis by (auto simp: queued_def goto_def)
next
  case (wake_prompt u w ws a e call)
  have q: "queued (goto u (Set_events ws a) (s\<lparr>ev := (ev s)(w := e)\<rparr>))"
    using queued_pc_ok [OF assms(2) wake_prompt(3)] wake_prompt assms(2) by (intro queued_goto) simp_all
  show ?thesis
  proof (cases "\<exists>k. pcs (goto u (Set_events ws a) (s\<lparr>ev := (ev s)(w := e)\<rparr>)) w = Fx_sleep k")
    case True
    with wake_prompt waits_for_resume [OF q, of w] q show ?thesis
      by (auto simp: futex_wake_now_def simp del: pcs_goto)
  next
    case False
    with wake_prompt q show ?thesis by (simp add: futex_wake_now_def del: pcs_goto split: pc.split)
  qed
next
  case (futex_wake_sleeper u w ws a k)
  have q: "queued (goto u (Set_events ws a) s)"
    using queued_pc_ok [OF assms(2) futex_wake_sleeper(2)] futex_wake_sleeper assms(2) by (intro queued_goto) simp_all
  have "w \<noteq> u" using futex_wake_sleeper(2,3) by auto
  then show ?thesis using waits_for_resume [OF q, of w k False] futex_wake_sleeper by simp
next
  case (hostile_wait t k b)
  show ?thesis using waits_for_resume [OF assms(2) hostile_wait(3)] hostile_wait by simp
next
  case (wake_fetch u w ws a e call)
  then show ?thesis using queued_pc_ok [OF assms(2) wake_fetch(3)] assms(2) by (auto intro: queued_goto)
next
  case (futex_wake_nobody u w ws a)
  then show ?thesis using queued_pc_ok [OF assms(2) futex_wake_nobody(2)] assms(2) by (auto intro: queued_goto)
next
  case (timeout_cas t k)
  then show ?thesis using assms(2) by (auto intro!: queued_goto)
qed (use assms(2) in \<open>auto intro!: queued_goto simp: condvar_wait_check_def\<close>)

lemma queued_reachable: "sync_reachable h c s \<Longrightarrow> queued s"
proof (induction rule: sync_reachable.induct)
  case start
  show ?case by (simp add: sync_init_def queued_def mutex_new_def)
next
  case (step s s')
  then show ?case using queued_step null_idle exclusive_reachable by blast
qed

section \<open>No waiter is forgotten\<close>

text \<open>
  A thread is blocked when it sleeps, or when it will sleep unless its event is set before. It is forgotten when moreover
  nobody is about to set its event.
\<close>

fun blocked :: "pc \<Rightarrow> int \<Rightarrow> bool" where
  "blocked (Set_events ws (A_wait k)) e = (e = 0)"
| "blocked (Wait_call k) e = (e = 0)"
| "blocked (Fx_enter k) e = (e = - 1)"
| "blocked (Fx_sleep k) e = True"
| "blocked _ e = False"

definition pending :: "sync_sys \<Rightarrow> sgx_thread_t \<Rightarrow> bool" where
  "pending s t \<longleftrightarrow> (\<exists>u ws a. pcs s u = Set_events ws a \<and> t \<in> set ws)"

definition forgotten :: "sync_sys \<Rightarrow> sgx_thread_t \<Rightarrow> bool" where
  "forgotten s t \<longleftrightarrow> blocked (pcs s t) (ev s t) \<and> \<not> pending s t"

text \<open>The counter is -1 exactly while its thread is inside the futex call, and nobody owes a futex call.\<close>

fun event_ok :: "pc \<Rightarrow> int \<Rightarrow> bool" where
  "event_ok (Fx_enter k) e = (- 1 \<le> e)"
| "event_ok (Fx_sleep k) e = (e = - 1)"
| "event_ok (Fx_timedout k) e = (- 1 \<le> e)"
| "event_ok (Fx_wake w ws a) e = False"
| "event_ok _ e = (0 \<le> e)"

definition events_ok :: "sync_sys \<Rightarrow> bool" where
  "events_ok s \<longleftrightarrow> (\<forall>t. event_ok (pcs s t) (ev s t))"

lemma event_ok_jumps [simp]:
  "event_ok (resume k b) e = (0 \<le> e)" "event_ok (wake_then w a) e = (0 \<le> e)" "event_ok (continue a) e = (0 \<le> e)"
  by (cases k; simp add: resume_def) (cases a; simp add: wake_then_def continue_def)+

lemma events_ok_goto:
  assumes "events_ok s" and "event_ok p (ev s t)"
  shows "events_ok (goto t p s)"
  using assms by (simp add: events_ok_def goto_def)

lemma events_okD: "events_ok s \<Longrightarrow> pcs s t = p \<Longrightarrow> event_ok p (ev s t)"
  by (auto simp: events_ok_def)

fun in_futex :: "pc \<Rightarrow> bool" where
  "in_futex (Fx_enter k) = True"
| "in_futex (Fx_sleep k) = True"
| "in_futex (Fx_timedout k) = True"
| "in_futex _ = False"

lemma events_ok_nonneg: "events_ok s \<Longrightarrow> \<not> in_futex (pcs s t) \<Longrightarrow> 0 \<le> ev s t"
  using events_okD [of s t, OF _ refl] by (cases "pcs s t") auto

lemma events_ok_fields [simp]:
  "events_ok (s\<lparr>mtx := m\<rparr>) = events_ok s" "events_ok (s\<lparr>held := g\<rparr>) = events_ok s" "events_ok (s\<lparr>cvq := q\<rparr>) = events_ok s"
  by (simp_all add: events_ok_def)

lemma ev_goto [simp]: "ev (goto t p s) = ev s" "cvq (goto t p s) = cvq s" "mtx (goto t p s) = mtx s"
  by (simp_all add: goto_def)

lemma events_ok_step:
  assumes "sync_step Prompt s s'" and "events_ok s"
  shows "events_ok s'"
  using assms(1)
proof cases
  case (wait_fetch t k e sleep)
  with events_okD [OF assms(2) wait_fetch(2)] assms(2) show ?thesis
    by (auto simp: se_wait_fetch_def events_ok_def)
next
  case (futex_wait t k)
  with events_okD [OF assms(2) futex_wait(2)] show ?thesis
    by (auto intro!: events_ok_goto [OF assms(2)] simp: futex_sleeps_def)
next
  case (timeout_cas t k)
  with events_okD [OF assms(2) timeout_cas(2)] assms(2) show ?thesis by (auto simp: se_timeout_cas_def events_ok_def)
next
  case (wake_prompt u w ws a e call)
  have e: "e = ev s w + 1" "call = (ev s w \<noteq> 0)" using wake_prompt by (auto simp: se_wake_fetch_def)
  have w: "event_ok (pcs s w) (ev s w)" and u: "event_ok (Set_events ws a) (ev s u)"
    using assms(2) events_okD [OF assms(2) wake_prompt(3)] by (auto simp: events_ok_def)
  show ?thesis unfolding wake_prompt(1) futex_wake_now_def e
    using assms(2) w u wake_prompt(3) by (cases "pcs s w") (auto simp: events_ok_def)
next
  case (futex_timeout t)
  with events_okD [OF assms(2) futex_timeout(2)] show ?thesis by (auto intro!: events_ok_goto [OF assms(2)])
next
  case (futex_wake_sleeper u w ws a k)
  with events_okD [OF assms(2) futex_wake_sleeper(2)] show ?thesis by simp
qed (use assms(2) in \<open>auto intro!: events_ok_goto simp: events_ok_nonneg\<close>)

lemma events_ok_reachable: "sync_reachable Prompt c s \<Longrightarrow> events_ok s"
proof (induction rule: sync_reachable.induct)
  case start
  show ?case by (simp add: sync_init_def events_ok_def)
qed (rule events_ok_step)

text \<open>A thread becomes forgotten only by its own decision to wait.\<close>

definition decides_to_wait :: "sync_sys \<Rightarrow> sync_sys \<Rightarrow> sgx_thread_t \<Rightarrow> bool" where
  "decides_to_wait s s' t \<longleftrightarrow> pcs s t = Idle \<or>
     (\<exists>r. pcs s t = Locking r \<and> mutex_lock_turn t (mtx s) = (False, mtx s')) \<or>
     (\<exists>k b. pcs s t = Cv_check k b \<and> t \<in> set (cvq s))"

lemma blocked_jumps [simp]:
  "\<not> blocked (resume k b) e" "\<not> blocked (wake_then w A_idle) e" "blocked (Set_events ws a) e = (a \<noteq> A_idle \<and> e = 0)"
  "blocked (continue a) e = blocked (Set_events [] a) e"
  by (cases a; simp add: resume_def wake_then_def continue_def split: cont.split)+

lemma pending_goto:
  assumes "pending s t" and "\<And>ws a. pcs s u = Set_events ws a \<Longrightarrow> t \<notin> set ws"
  shows "pending (goto u p s) t"
  using assms by (fastforce simp: pending_def)

lemma pending_fields [simp]:
  "pending (s\<lparr>mtx := m\<rparr>) t = pending s t" "pending (s\<lparr>held := g\<rparr>) t = pending s t"
  "pending (s\<lparr>cvq := q\<rparr>) t = pending s t" "pending (s\<lparr>ev := e\<rparr>) t = pending s t"
  by (simp_all add: pending_def)

lemma forgotten_goto:
  assumes "forgotten (goto u p s) t" and "\<And>ws a. pcs s u = Set_events ws a \<Longrightarrow> t \<notin> set ws"
  shows "forgotten s t \<or> u = t \<and> blocked p (ev s t)"
  using assms pending_goto [of s t u p] by (auto simp: forgotten_def split: if_splits)

lemma forgotten_fields [simp]:
  "forgotten (s\<lparr>mtx := m\<rparr>) t = forgotten s t" "forgotten (s\<lparr>held := g\<rparr>) t = forgotten s t"
  "forgotten (s\<lparr>cvq := q\<rparr>) t = forgotten s t"
  by (simp_all add: forgotten_def)

lemma futex_wake_nowE:
  obtains "futex_wake_now call w s = s" | k where "pcs s w = Fx_sleep k" "call" "futex_wake_now call w s = goto w (resume k False) s"
  by (cases "pcs s w"; cases call) (auto simp: futex_wake_now_def)

lemma pending_futex_wake: "pending s t \<Longrightarrow> pending (futex_wake_now call w s) t"
  by (rule futex_wake_nowE [of call w s]) (auto intro: pending_goto)

lemma forgotten_step:
  assumes "sync_step Prompt s s'" and "events_ok s" and "forgotten s' t"
  shows "forgotten s t \<or> decides_to_wait s s' t"
  using assms(1)
proof cases
  case (wait_fetch u k e sleep)
  have "t \<noteq> u \<Longrightarrow> forgotten s t"
    using wait_fetch assms(3) pending_goto [of "s\<lparr>ev := (ev s)(u := e)\<rparr>" t u]
    by (auto simp: forgotten_def)
  moreover have "t = u \<Longrightarrow> forgotten s t"
    using wait_fetch assms(3) pending_goto [of "s\<lparr>ev := (ev s)(u := e)\<rparr>" t u]
    by (auto simp: forgotten_def se_wait_fetch_def split: if_splits)
  ultimately show ?thesis by blast
next
  case (timeout_cas u k)
  then show ?thesis using assms(3) pending_goto [of "s\<lparr>ev := (ev s)(u := se_timeout_cas (ev s u))\<rparr>" t u]
    by (auto simp: forgotten_def split: if_splits)
next
  case (wake_prompt u w ws a e call)
  have e: "e = ev s w + 1" "call = (ev s w \<noteq> 0)" using wake_prompt by (auto simp: se_wake_fetch_def)
  have w: "event_ok (pcs s w) (ev s w)" using assms(2) by (simp add: events_ok_def)
  show ?thesis
  proof (cases "w = t")
    case True
    have False using w assms(3) wake_prompt(3) unfolding wake_prompt(1) futex_wake_now_def e True
      by (cases "pcs s t") (auto simp: forgotten_def split: if_splits)
    then show ?thesis ..
  next
    case False
    have "pending (goto u (Set_events ws a) s) t" if "pending s t"
    proof (cases "t \<in> set ws")
      case True
      then have "pcs (goto u (Set_events ws a) s) u = Set_events ws a \<and> t \<in> set ws" by simp
      then show ?thesis unfolding pending_def by blast
    next
      case outside: False
      show ?thesis by (rule pending_goto [OF that]) (use wake_prompt(3) False outside in auto)
    qed
    moreover have "pending (goto u (Set_events ws a) s) t \<Longrightarrow> pending s' t"
      unfolding wake_prompt(1) by (rule pending_futex_wake) (simp add: pending_def goto_def)
    moreover have "blocked (pcs s t) (ev s t)"
      using assms(3) False wake_prompt(3) unfolding wake_prompt(1) futex_wake_now_def
      by (cases a) (auto simp: forgotten_def split: pc.splits if_splits)
    ultimately show ?thesis using assms(3) by (auto simp: forgotten_def)
  qed
next
  case (futex_wake_sleeper u w ws a k)
  with events_okD [OF assms(2) futex_wake_sleeper(2)] show ?thesis by simp
next
  case (events_set u a)
  then show ?thesis using assms(3) pending_goto [of s t u "continue a"]
    by (cases a) (auto simp: forgotten_def split: if_splits)
next
  case (futex_wait u k)
  then show ?thesis using assms(3) pending_goto [of s t u]
    by (auto simp: forgotten_def futex_sleeps_def split: if_splits)
next
  case (futex_wake_nobody u w ws a)
  with events_okD [OF assms(2) futex_wake_nobody(2)] show ?thesis by simp
next
  case (wait_again u b)
  then show ?thesis using assms(3) by (auto simp: decides_to_wait_def condvar_wait_check_def dest!: forgotten_goto)
next
  case (timeout_again u b q)
  then show ?thesis using assms(3)
    by (auto simp: decides_to_wait_def condvar_timeout_check_def split: if_splits dest!: forgotten_goto)
qed (use assms(3) in \<open>auto simp: decides_to_wait_def dest!: forgotten_goto\<close>)

lemma condvar_left:
  assumes "sync_step h s s'" and "queued s" and "in_cv (pcs s' t)" and "t \<notin> set (cvq s')"
  shows "in_cv (pcs s t) \<and> t \<notin> set (cvq s) \<or> pending s' t"
  using assms(1)
proof cases
  case (wait_ok u k w q m)
  then have "cvq s' = cvq s @ [u]" by (auto elim: condvar_wait_enterE)
  with wait_ok assms(3,4) show ?thesis by (auto split: if_splits)
next
  case (wait_error u e q m)
  then have "cvq s' = cvq s" by (auto elim: condvar_wait_enterE)
  with wait_error assms(3,4) show ?thesis by (auto split: if_splits)
next
  case (timeout_leaves u b r q)
  with assms(3,4) show ?thesis by (auto simp: condvar_timeout_check_def split: if_splits)
next
  case (timeout_again u b q)
  with assms(3,4) show ?thesis by (auto simp: condvar_timeout_check_def split: if_splits)
next
  case (signal u ws q)
  then have "pcs s' u = Set_events ws A_idle" by simp
  with signal assms(3,4) show ?thesis by (fastforce simp: condvar_signal_def pending_def split: list.splits if_splits)
next
  case (broadcast u ws q)
  then have "pcs s' u = Set_events (rev (cvq s)) A_idle" by (simp add: condvar_broadcast_def)
  then have "t \<in> set (cvq s) \<Longrightarrow> pending s' t" by (force simp: pending_def)
  with broadcast assms(3,4) show ?thesis by (auto split: if_splits)
next
  case (wake_prompt u w ws a e call)
  then show ?thesis using assms(3,4) queued_pc_ok [OF assms(2) wake_prompt(3)]
    by (cases a) (auto simp: futex_wake_now_def split: pc.splits if_splits)
next
  case (events_set u a)
  then show ?thesis using assms(3,4) by (cases a) (auto simp: continue_def split: if_splits)
next
  case (hostile_wait u k b)
  then show ?thesis using assms(3,4) by (cases "pcs s u" rule: waits_for.cases) (auto split: if_splits)
qed (use assms(3,4) in \<open>auto split: if_splits\<close>)

definition remembered :: "sync_sys \<Rightarrow> bool" where
  "remembered s \<longleftrightarrow> (\<forall>t q. owner (mtx s) = SGX_THREAD_T_NULL \<longrightarrow> queue (mtx s) = t # q \<longrightarrow> \<not> forgotten s t) \<and>
     (\<forall>t. in_cv (pcs s t) \<longrightarrow> t \<notin> set (cvq s) \<longrightarrow> \<not> forgotten s t)"

lemma head_not_refused:
  assumes "owner m = SGX_THREAD_T_NULL" and "queue m = t # q"
  shows "mutex_lock_turn t m = (b, m') \<Longrightarrow> b"
  using assms by (simp add: mutex_lock_turn_def mutex_acquire_def Let_def split: if_splits)

lemma head_remembered:
  assumes "sync_step Prompt s s'" and "events_ok s" and "queued s" and "pcs s SGX_THREAD_T_NULL = Idle" and "remembered s"
    and "exclusive s" and "owner (mtx s') = SGX_THREAD_T_NULL" and "queue (mtx s') = x # q"
  shows "\<not> forgotten s' x"
proof
  assume f: "forgotten s' x"
  have old_head: False if m: "owner (mtx s) = SGX_THREAD_T_NULL" "queue (mtx s) = x # q0" for q0
  proof -
    have "\<not> forgotten s x" using assms(5) m by (auto simp: remembered_def)
    then have "decides_to_wait s s' x" using forgotten_step [OF assms(1,2) f] by blast
    moreover have "in_lock (pcs s x)" using assms(3) m by (simp add: queued_def)
    ultimately show False using head_not_refused [OF m] by (auto simp: decides_to_wait_def)
  qed
  show False
    using assms(1,4)
  proof (cases rule: sync_step_mutexE)
    case same
    with assms(7,8) old_head show False by simp
  next
    case (turn t b)
    from turn(2) show False
    proof (cases rule: mutex_lock_turnE)
      case taken
      then show False using assms(7) turn(1) mutex_acquire_ok(5) [OF taken(2) _ turn(1)] assms(6) by (simp add: exclusive_def)
    next
      case stays
      with assms(7,8) old_head show False by simp
    next
      case queued
      have "queue (mtx s) \<noteq> []" using queued assms(7) by (auto simp: mutex_acquire_def Let_def split: if_splits)
      then show False using queued assms(7,8) old_head [of "tl (queue (mtx s))"]
        by (cases "queue (mtx s)") auto
    qed
  next
    case (try_lock t)
    then show False using assms(7) mutex_acquire_ok(5) [OF try_lock(2) _ try_lock(1)] assms(6) by (simp add: exclusive_def)
  next
    case (unlock t w a)
    have "w = x" and "x \<noteq> SGX_THREAD_T_NULL"
      using unlock(1) assms(6,7,8) by (auto elim!: mutex_unlock_lazyE simp: exclusive_def mutex_ok_def)
    then have "pcs s' t = Set_events [x] a" using unlock(3) by (simp add: wake_then_def)
    then show False using f by (force simp: forgotten_def pending_def)
  qed
qed

lemma remembered_step:
  assumes "sync_step Prompt s s'" and "events_ok s" and "queued s" and "pcs s SGX_THREAD_T_NULL = Idle" and "remembered s"
    and "exclusive s"
  shows "remembered s'"
  unfolding remembered_def
proof (intro conjI allI impI)
  show "\<not> forgotten s' t" if "owner (mtx s') = SGX_THREAD_T_NULL" "queue (mtx s') = t # q" for t q
    using head_remembered [OF assms that] .
  show "\<not> forgotten s' t" if cv: "in_cv (pcs s' t)" "t \<notin> set (cvq s')" for t
  proof
    assume f: "forgotten s' t"
    then have "\<not> pending s' t" by (simp add: forgotten_def)
    then have c: "in_cv (pcs s t)" "t \<notin> set (cvq s)" using condvar_left [OF assms(1,3) cv] by auto
    then have "\<not> forgotten s t" using assms(5) by (simp add: remembered_def)
    then have "decides_to_wait s s' t" using forgotten_step [OF assms(1,2) f] by blast
    with c show False by (auto simp: decides_to_wait_def)
  qed
qed

lemma remembered_reachable: "sync_reachable Prompt c s \<Longrightarrow> remembered s"
proof (induction rule: sync_reachable.induct)
  case start
  show ?case by (simp add: sync_init_def remembered_def mutex_new_def)
next
  case (step s s')
  show ?case
    using remembered_step [OF step.hyps(2) events_ok_reachable [OF step.hyps(1)] queued_reachable [OF step.hyps(1)]
        null_idle [OF step.hyps(1)] step.IH] exclusive_reachable [OF step.hyps(1)] by blast
qed

section \<open>A remembered waiter can go on\<close>

fun awake :: "pc \<Rightarrow> bool" where
  "awake (Locking r) = True"
| "awake (Cv_check k b) = True"
| "awake _ = False"

lemma awake_resume [simp]: "awake (resume k b)"
  by (cases k) (simp_all add: resume_def)

text \<open>Runs of the others and of the host that change no queue and leave \<open>t\<close> in its wait.\<close>

definition run :: "sgx_thread_t \<Rightarrow> sync_sys \<Rightarrow> sync_sys \<Rightarrow> bool" where
  "run t s s' \<longleftrightarrow> (sync_step Prompt)\<^sup>*\<^sup>* s s' \<and> mtx s' = mtx s \<and> cvq s' = cvq s \<and> events_ok s' \<and>
     in_lock (pcs s' t) = in_lock (pcs s t) \<and> in_cv (pcs s' t) = in_cv (pcs s t)"

lemma run_refl: "events_ok s \<Longrightarrow> run t s s"
  by (simp add: run_def)

lemma run_trans: "run t s s' \<Longrightarrow> run t s' s'' \<Longrightarrow> run t s s''"
  by (auto simp: run_def)

lemma run_step:
  assumes "sync_step Prompt s s'" and "mtx s' = mtx s" and "cvq s' = cvq s" and "events_ok s"
    and "in_lock (pcs s' t) = in_lock (pcs s t)" and "in_cv (pcs s' t) = in_cv (pcs s t)"
  shows "run t s s'"
  using assms events_ok_step [OF assms(1,4)] by (simp add: run_def)

lemma mtx_futex_wake [simp]: "mtx (futex_wake_now call w s) = mtx s" "cvq (futex_wake_now call w s) = cvq s"
  "ev (futex_wake_now call w s) = ev s"
  by (rule futex_wake_nowE [of call w s]; simp)+

lemma in_futex_wake [simp]:
  "in_lock (pcs (futex_wake_now call w s) t) = in_lock (pcs s t)" "in_cv (pcs (futex_wake_now call w s) t) = in_cv (pcs s t)"
  by (rule futex_wake_nowE [of call w s]; simp)+

text \<open>One wake of a thread that is setting events.\<close>

definition wake_one :: "sgx_thread_t \<Rightarrow> sgx_thread_t \<Rightarrow> sgx_thread_t list \<Rightarrow> after \<Rightarrow> sync_sys \<Rightarrow> sync_sys" where
  "wake_one u w ws a s =
     futex_wake_now (ev s w \<noteq> 0) w (goto u (Set_events ws a) (s\<lparr>ev := (ev s)(w := ev s w + 1)\<rparr>))"

lemma wake_one_step: "pcs s u = Set_events (w # ws) a \<Longrightarrow> sync_step Prompt s (wake_one u w ws a s)"
  unfolding wake_one_def by (rule wake_prompt [OF refl]) (simp_all add: se_wake_fetch_def)

lemma wake_one_run:
  assumes "pcs s u = Set_events (w # ws) a" and "events_ok s"
  shows "run t s (wake_one u w ws a s)"
proof (rule run_step [OF _ _ _ assms(2)])
  show "sync_step Prompt s (wake_one u w ws a s)" by (rule wake_one_step [OF assms(1)])
qed (use assms(1) in \<open>simp_all add: wake_one_def\<close>)

lemma wake_one_self [simp]: "pcs (wake_one u w ws a s) u = Set_events ws a"
  by (cases "w = u"; cases "pcs s w") (simp_all add: wake_one_def futex_wake_now_def)

lemma ev_wake_one [simp]: "ev (wake_one u w ws a s) t = (if t = w then ev s w + 1 else ev s t)"
  by (simp add: wake_one_def)

lemma wake_one_unblocks:
  assumes "pcs s u = Set_events (w # ws) a" and "events_ok s"
  shows "\<not> blocked (pcs (wake_one u w ws a s) w) (ev (wake_one u w ws a s) w)"
  using events_okD [OF assms(2) refl, of w] assms(1)
  by (cases "pcs s w") (auto simp: wake_one_def futex_wake_now_def split: if_splits)

lemma run_events:
  assumes "pcs s t = Set_events ws a" and "events_ok s" and "0 < ev s t" and "a \<noteq> A_idle" and "pc_ok (Set_events ws a)"
  shows "\<exists>s'. run t s s' \<and> pcs s' t = continue a \<and> 0 < ev s' t"
  using assms
proof (induction ws arbitrary: s)
  case Nil
  from Nil(4) obtain k where a: "a = A_wait k" by (cases a) auto
  have "run t s (goto t (continue a) s)"
    by (rule run_step [OF events_set [OF Nil(1)]]) (use Nil(5) in \<open>simp_all add: Nil(1,2) a continue_def\<close>)
  with Nil show ?case by (intro exI [of _ "goto t (continue a) s"]) simp
next
  case (Cons w ws)
  let ?s = "wake_one t w ws a s"
  have r: "run t s ?s" using wake_one_run Cons.prems(1,2) .
  then have "events_ok ?s" by (simp add: run_def)
  moreover have "0 < ev ?s t" using Cons.prems(3) by auto
  ultimately obtain s' where "run t ?s s'" "pcs s' t = continue a" "0 < ev s' t"
    using Cons.IH [of ?s] Cons.prems(4,5) by auto
  with r show ?case by (blast intro: run_trans)
qed

lemma run_awake: "run t s (goto t (resume k b) s0) \<Longrightarrow> \<exists>s'. run t s s' \<and> awake (pcs s' t)"
  by (rule exI [of _ "goto t (resume k b) s0"]) simp

lemma run_ready:
  assumes "pcs s t = Wait_call k" and "0 < ev s t" and "events_ok s"
  shows "\<exists>s'. run t s s' \<and> awake (pcs s' t)"
proof -
  have "se_wait_fetch (ev s t) = (ev s t - 1, False)" using assms(2) by (simp add: se_wait_fetch_def)
  from wait_fetch [OF assms(1) this, of Prompt] have "run t s (goto t (resume k False) (s\<lparr>ev := (ev s)(t := ev s t - 1)\<rparr>))"
    by (intro run_step) (use assms in simp_all)
  then show ?thesis by (rule run_awake)
qed

lemma run_unblocked:
  assumes "in_lock (pcs s t) \<or> in_cv (pcs s t)" and "pc_ok (pcs s t)" and "events_ok s" and "\<not> blocked (pcs s t) (ev s t)"
  shows "\<exists>s'. run t s s' \<and> awake (pcs s' t)"
proof -
  have stays: ?thesis if "awake (pcs s t)" using that run_refl [OF assms(3)] by blast
  note e = events_okD [OF assms(3), of t]
  show ?thesis
  proof (cases "pcs s t")
    case Idle
    then show ?thesis using assms(1) by simp
  next
    case (Wait_call k)
    then show ?thesis using run_ready [OF Wait_call _ assms(3)] e [OF Wait_call] assms(4) by simp
  next
    case (Fx_enter k)
    then have "sync_step Prompt s (goto t (resume k False) s)"
      using futex_wait [OF Fx_enter, of Prompt] assms(4) by (simp add: futex_sleeps_def)
    then have "run t s (goto t (resume k False) s)" using Fx_enter assms(3) by (intro run_step) simp_all
    then show ?thesis by (rule run_awake)
  next
    case (Fx_timedout k)
    from timeout_cas [OF this, of Prompt] have "run t s (goto t (resume k True) (s\<lparr>ev := (ev s)(t := se_timeout_cas (ev s t))\<rparr>))"
      using Fx_timedout assms(3) by (intro run_step) simp_all
    then show ?thesis by (rule run_awake)
  next
    case (Set_events ws a)
    then have "a \<noteq> A_idle" "0 < ev s t" using assms(1,4) e [OF Set_events] by auto
    then obtain s' where s': "run t s s'" "pcs s' t = continue a" "0 < ev s' t"
      using run_events [OF Set_events assms(3)] assms(2) Set_events by auto
    from \<open>a \<noteq> A_idle\<close> obtain k where "pcs s' t = Wait_call k" using s'(2) by (cases a) (auto simp: continue_def)
    moreover have "events_ok s'" using s'(1) by (simp add: run_def)
    ultimately obtain s'' where "run t s' s''" "awake (pcs s'' t)" using run_ready [of s' t k] s'(3) by blast
    then show ?thesis using run_trans [OF s'(1)] by blast
  next
    case (Fx_wake w ws a)
    then show ?thesis using e [OF Fx_wake] by simp
  qed (use stays assms(4) in simp_all)
qed

lemma wake_one_pc_ok:
  assumes "pcs s u = Set_events (w # ws) a" and "pc_ok (pcs s t)"
  shows "pc_ok (pcs (wake_one u w ws a s) t)"
  unfolding wake_one_def
  by (rule futex_wake_nowE [of "ev s w \<noteq> 0" w "goto u (Set_events ws a) (s\<lparr>ev := (ev s)(w := ev s w + 1)\<rparr>)"])
    (use assms in \<open>auto split: if_splits\<close>)

lemma run_pending:
  assumes "pcs s u = Set_events ws a" and "t \<in> set ws" and "in_lock (pcs s t) \<or> in_cv (pcs s t)" and "pc_ok (pcs s t)"
    and "events_ok s"
  shows "\<exists>s'. run t s s' \<and> awake (pcs s' t)"
  using assms
proof (induction ws arbitrary: s)
  case (Cons w ws)
  let ?s = "wake_one u w ws a s"
  have r: "run t s ?s" using wake_one_run Cons.prems(1,5) .
  then have e: "events_ok ?s" and i: "in_lock (pcs ?s t) \<or> in_cv (pcs ?s t)" using Cons.prems(3) by (auto simp: run_def)
  have q: "pc_ok (pcs ?s t)" using wake_one_pc_ok Cons.prems(1,4) .
  have "\<exists>s'. run t ?s s' \<and> awake (pcs s' t)"
  proof (cases "w = t")
    case True
    show ?thesis by (rule run_unblocked [OF i q e]) (use wake_one_unblocks [OF Cons.prems(1,5)] True in simp)
  next
    case False
    then show ?thesis using Cons.IH [of ?s] i q e Cons.prems(2) by simp
  qed
  then show ?case using r run_trans by blast
qed simp

lemma run_remembered:
  assumes "\<not> forgotten s t" and "in_lock (pcs s t) \<or> in_cv (pcs s t)" and "queued s" and "events_ok s"
  obtains s' where "run t s s'" and "awake (pcs s' t)"
proof -
  have "pc_ok (pcs s t)" using assms(3) by (simp add: queued_def)
  then have "\<exists>s'. run t s s' \<and> awake (pcs s' t)"
    using assms run_pending [of s _ _ _ t] run_unblocked [of s t] by (auto simp: forgotten_def pending_def)
  then show thesis using that by blast
qed

text \<open>The head of the queue of a free mutex can take it; a thread that has left the queue of the condition variable can lock.\<close>

lemma head_can_lock:
  assumes "sync_reachable Prompt c s" and "owner (mtx s) = SGX_THREAD_T_NULL" and "queue (mtx s) = t # q"
  shows "\<exists>s'. (sync_step Prompt)\<^sup>*\<^sup>* s s' \<and> owner (mtx s') = t \<and> queue (mtx s') = q \<and> pcs s' t = Idle"
proof -
  have "in_lock (pcs s t)" "\<not> forgotten s t"
    using queued_reachable [OF assms(1)] remembered_reachable [OF assms(1)] assms(2,3)
    by (auto simp: queued_def remembered_def)
  then obtain s1 where r: "run t s s1" "awake (pcs s1 t)"
    using run_remembered queued_reachable [OF assms(1)] events_ok_reachable [OF assms(1)] by blast
  then obtain res where l: "pcs s1 t = Locking res" using \<open>in_lock (pcs s t)\<close> by (cases "pcs s1 t") (auto simp: run_def)
  have "t \<noteq> SGX_THREAD_T_NULL" using exclusive_reachable [OF assms(1)] assms(3) by (auto simp: exclusive_def mutex_ok_def)
  then have "mutex_lock_turn t (mtx s1) = (True, (mtx s)\<lparr>queue := q, owner := t, refcount := refcount (mtx s) + 1\<rparr>)"
    using r(1) assms(2,3) by (simp add: run_def mutex_lock_turn_def mutex_acquire_def)
  from lock_taken [OF l this, of Prompt]
  obtain s2 where "sync_step Prompt s1 s2" "owner (mtx s2) = t" "queue (mtx s2) = q" "pcs s2 t = Idle" by fastforce
  then show ?thesis using r(1) by (auto simp: run_def intro: rtranclp.rtrancl_into_rtrancl)
qed

lemma signalled_can_lock:
  assumes "sync_reachable Prompt c s" and "in_cv (pcs s t)" and "t \<notin> set (cvq s)"
  shows "\<exists>s' r. (sync_step Prompt)\<^sup>*\<^sup>* s s' \<and> pcs s' t = Locking r"
proof -
  have "\<not> forgotten s t" using remembered_reachable [OF assms(1)] assms(2,3) by (auto simp: remembered_def)
  then obtain s1 where r: "run t s s1" "awake (pcs s1 t)"
    using run_remembered assms(2) queued_reachable [OF assms(1)] events_ok_reachable [OF assms(1)] by blast
  then obtain k b where c: "pcs s1 t = Cv_check k b" using assms(2) by (cases "pcs s1 t") (auto simp: run_def)
  have "sync_reachable Prompt c s1" using sync_reachable_steps [OF assms(1)] r(1) by (simp add: run_def)
  then have "cv_cont k" using queued_pc_ok [OF queued_reachable c] by simp
  have out: "t \<notin> set (cvq s1)" using r(1) assms(3) by (simp add: run_def)
  have "\<exists>s2 r. sync_step Prompt s1 s2 \<and> pcs s2 t = Locking r"
  proof (cases k)
    case (K_lock r)
    with \<open>cv_cont k\<close> show ?thesis by simp
  next
    case K_wait
    show ?thesis using wait_leaves [of s1 t b Prompt] c out K_wait pcs_goto [of t "Locking (Inr ())" s1 t]
      by (auto simp: condvar_wait_check_def)
  next
    case K_wait_timeout
    have "condvar_timeout_check t b (cvq s1) = (Some (Inr ()), cvq s1)" using out by (simp add: condvar_timeout_check_def)
    from timeout_leaves [OF c [unfolded K_wait_timeout] this, of Prompt] show ?thesis by fastforce
  qed
  then show ?thesis using r(1) by (auto simp: run_def intro: rtranclp.rtrancl_into_rtrancl)
qed

section \<open>A waiter is lost when a wake comes late\<close>

text \<open>
  Schedules of calls and of single steps of a thread, executed; a thread that is inside a call has at most one next step
  (a timeout apart). \<open>None\<close> when the thread cannot do what the schedule says.
\<close>

datatype move = Call_lock sgx_thread_t | Call_unlock sgx_thread_t | Run sgx_thread_t

definition advance :: "host \<Rightarrow> sgx_thread_t \<Rightarrow> sync_sys \<Rightarrow> sync_sys option" where
  "advance h t s =
     (case pcs s t of
        Locking r \<Rightarrow>
          (case mutex_lock_turn t (mtx s) of
             (True, m) \<Rightarrow> Some (goto t Idle (s\<lparr>mtx := m, held := (held s)(t := held s t + 1)\<rparr>))
           | (False, m) \<Rightarrow> Some (goto t (Wait_call (K_lock r)) (s\<lparr>mtx := m\<rparr>)))
      | Wait_call k \<Rightarrow>
          (case se_wait_fetch (ev s t) of
             (e, sleep) \<Rightarrow> Some (goto t (if sleep then Fx_enter k else resume k False) (s\<lparr>ev := (ev s)(t := e)\<rparr>)))
      | Fx_enter k \<Rightarrow> Some (goto t (if futex_sleeps (ev s t) then Fx_sleep k else resume k False) s)
      | Set_events [] a \<Rightarrow> Some (goto t (continue a) s)
      | Set_events (w # ws) a \<Rightarrow>
          (case se_wake_fetch (ev s w) of
             (e, call) \<Rightarrow>
               Some (if h = Prompt then futex_wake_now call w (goto t (Set_events ws a) (s\<lparr>ev := (ev s)(w := e)\<rparr>))
                     else goto t (if call then Fx_wake w ws a else Set_events ws a) (s\<lparr>ev := (ev s)(w := e)\<rparr>)))
      | Fx_wake w ws a \<Rightarrow>
          (case pcs s w of
             Fx_sleep k \<Rightarrow> Some (goto w (resume k False) (goto t (Set_events ws a) s))
           | _ \<Rightarrow> Some (goto t (Set_events ws a) s))
      | _ \<Rightarrow> None)"

fun perform :: "host \<Rightarrow> move \<Rightarrow> sync_sys \<Rightarrow> sync_sys option" where
  "perform h (Call_lock t) s =
     (if t \<noteq> SGX_THREAD_T_NULL \<and> pcs s t = Idle then Some (goto t (Locking (Inr ())) s) else None)"
| "perform h (Call_unlock t) s =
     (if t \<noteq> SGX_THREAD_T_NULL \<and> pcs s t = Idle
      then (case mutex_unlock_lazy t SGX_THREAD_T_NULL (mtx s) of
              (Inr _, waiter, m) \<Rightarrow> Some (goto t (wake_then waiter A_idle) (s\<lparr>mtx := m, held := (held s)(t := held s t - 1)\<rparr>))
            | _ \<Rightarrow> None)
      else None)"
| "perform h (Run t) s = advance h t s"

primrec perform_all :: "host \<Rightarrow> move list \<Rightarrow> sync_sys \<Rightarrow> sync_sys option" where
  "perform_all h [] s = Some s"
| "perform_all h (mv # mvs) s = (case perform h mv s of None \<Rightarrow> None | Some s' \<Rightarrow> perform_all h mvs s')"

lemma advance_sound:
  assumes "advance h t s = Some s'"
  shows "sync_step h s s'"
proof (cases "pcs s t")
  case (Locking r)
  with assms show ?thesis
    by (auto simp: advance_def split: prod.splits bool.splits intro: lock_taken [simplified] lock_waits)
next
  case (Wait_call k)
  with assms show ?thesis
    by (auto simp: advance_def simp del: if_split split: prod.splits intro: wait_fetch)
next
  case (Fx_enter k)
  with assms show ?thesis by (auto simp: advance_def simp del: if_split intro: futex_wait)
next
  case (Set_events ws a)
  with assms show ?thesis
    by (cases ws; cases "h = Prompt") (auto simp: advance_def simp del: if_split split: prod.splits intro: wake_fetch wake_prompt events_set)
next
  case (Fx_wake w ws a)
  with assms show ?thesis
    by (cases "pcs s w") (auto simp: advance_def intro: futex_wake_sleeper futex_wake_nobody)
qed (use assms in \<open>simp_all add: advance_def\<close>)

lemma perform_sound: "perform h mv s = Some s' \<Longrightarrow> sync_step h s s'"
  by (cases mv) (auto split: if_splits prod.splits sum.splits intro: call_lock unlock_ok [simplified] advance_sound)

lemma perform_all_sound:
  "sync_reachable h c s \<Longrightarrow> perform_all h mvs s = Some s' \<Longrightarrow> sync_reachable h c s'"
proof (induction mvs arbitrary: s)
  case (Cons mv mvs)
  then obtain s1 where "perform h mv s = Some s1" and "perform_all h mvs s1 = Some s'" by (auto split: option.splits)
  then show ?case using Cons.IH [of s1] sync_reachable.step [OF Cons.prems(1) perform_sound] by blast
qed simp

text \<open>
  Thread 2 sets the event of thread 1, but its futex call comes only when thread 1 has locked, unlocked and sleeps for the
  next lock. Thread 1 is woken with its counter at -1; the wake of thread 3 then only brings the counter back to 0.
\<close>

definition late_wake_schedule :: "move list" where
  "late_wake_schedule =
     [Call_lock 2, Run 2, Call_lock 1, Run 1, Run 1, Call_unlock 2, Run 2, Run 1, Run 1, Call_unlock 1,
      Call_lock 3, Run 3, Call_lock 1, Run 1, Run 1, Run 1, Run 2, Run 2, Run 1,
      Call_unlock 3, Run 3, Run 3, Run 3, Run 1, Run 1]"

definition stuck :: "sgx_thread_t \<Rightarrow> sync_sys \<Rightarrow> bool" where
  "stuck t s \<longleftrightarrow> owner (mtx s) = SGX_THREAD_T_NULL \<and> front (queue (mtx s)) = Some t \<and>
     (\<exists>r. pcs s t = Fx_sleep (K_lock r)) \<and> pcs s SGX_THREAD_T_NULL = Idle \<and> t \<notin> set (cvq s) \<and>
     (\<forall>u ws a. pcs s u = Set_events ws a \<longrightarrow> t \<notin> set ws) \<and>
     (\<forall>u w ws a. pcs s u = Fx_wake w ws a \<longrightarrow> t \<noteq> w \<and> t \<notin> set ws)"

lemma late_wake_stuck:
  "\<exists>s. perform_all Delayed late_wake_schedule (sync_init SGX_THREAD_MUTEX_NONRECURSIVE) = Some s \<and> stuck 1 s"
  by (simp add: late_wake_schedule_def sync_init_def mutex_new_def advance_def goto_def mutex_lock_turn_def mutex_acquire_def
      mutex_unlock_lazy_def se_wait_fetch_def se_wake_fetch_def futex_sleeps_def resume_def wake_then_def continue_def
      SGX_THREAD_T_NULL_def stuck_def)

lemma stuck_others:
  assumes "stuck t s" and "u \<noteq> t" and "u \<noteq> SGX_THREAD_T_NULL"
  shows "mutex_acquire u (mtx s) = None" and "mutex_unlock_lazy u w (mtx s) = (Inl EPERM, w, mtx s)"
  using assms by (auto simp: stuck_def mutex_acquire_def mutex_unlock_lazy_def split: if_splits)

lemma stuck_goto:
  assumes "stuck t s" and "u \<noteq> t" and "u \<noteq> SGX_THREAD_T_NULL" and "\<And>ws a. p = Set_events ws a \<Longrightarrow> t \<notin> set ws"
    and "\<And>w ws a. p = Fx_wake w ws a \<Longrightarrow> t \<noteq> w \<and> t \<notin> set ws"
  shows "stuck t (goto u p s)"
  using assms by (auto simp: stuck_def)

lemma stuck_fields [simp]: "stuck t (s\<lparr>ev := e\<rparr>) = stuck t s" "stuck t (s\<lparr>held := g\<rparr>) = stuck t s"
  by (simp_all add: stuck_def)

lemma stuck_cvq: "stuck t s \<Longrightarrow> t \<notin> set q \<Longrightarrow> stuck t (s\<lparr>cvq := q\<rparr>)"
  by (simp add: stuck_def)

lemma stuck_step:
  assumes "sync_step Delayed s s'" and "stuck t s"
  shows "stuck t s'"
proof -
  have other: "u \<noteq> t \<and> u \<noteq> SGX_THREAD_T_NULL" if "pcs s u = p" "p \<noteq> Idle" "\<And>k. p \<noteq> Fx_sleep k" for u p
    using assms(2) that by (auto simp: stuck_def)
  have idle: "u \<noteq> t" if "pcs s u = Idle" for u using assms(2) that by (auto simp: stuck_def)
  obtain r0 where asleep: "pcs s t = Fx_sleep (K_lock r0)" using assms(2) by (auto simp: stuck_def)
  have null: "pcs s SGX_THREAD_T_NULL = Idle" and out: "t \<notin> set (cvq s)" using assms(2) by (auto simp: stuck_def)
  have owed: "pcs s u = Set_events ws a \<Longrightarrow> t \<notin> set ws" "pcs s u = Fx_wake w ws a \<Longrightarrow> t \<noteq> w \<and> t \<notin> set ws" for u w ws a
    using assms(2) unfolding stuck_def by blast+
  show ?thesis
    using assms(1)
  proof cases
    case (lock_taken u r m)
    then show ?thesis using stuck_others(1) [OF assms(2)] other [OF lock_taken(2)] by (auto simp: mutex_lock_turn_def)
  next
    case (lock_waits u r m)
    have "stuck t (s\<lparr>mtx := m\<rparr>)" using lock_waits(3) assms(2)
      by (cases rule: mutex_lock_turnE) (auto simp: stuck_def front_Some_iff)
    then show ?thesis using lock_waits other [OF lock_waits(2)] by (auto intro!: stuck_goto)
  next
    case (try_lock_ok u m)
    then show ?thesis using stuck_others(1) [OF assms(2)] idle [of u] by (auto simp: mutex_try_lock_def)
  next
    case (try_lock_busy u e m)
    then show ?thesis using assms(2) by (auto elim: mutex_try_lockE)
  next
    case (unlock_ok u w m)
    then show ?thesis using stuck_others(2) [OF assms(2)] idle [of u] by simp
  next
    case (unlock_error u e w m)
    then show ?thesis using assms(2) by (auto elim: mutex_unlock_lazyE)
  next
    case (wait_ok u k w q m)
    then show ?thesis using stuck_others(2) [OF assms(2)] idle [of u] by (auto elim!: condvar_wait_enterE)
  next
    case (wait_error u e q m)
    then show ?thesis using assms(2) by (auto elim!: condvar_wait_enterE mutex_unlock_lazyE)
  next
    case (signal u ws q)
    have "t \<notin> set ws \<and> t \<notin> set q" using signal(4) out by (auto simp: condvar_signal_def split: list.splits)
    then show ?thesis using signal assms(2) idle [of u] by (auto intro!: stuck_goto stuck_cvq)
  next
    case (broadcast u ws q)
    then show ?thesis using assms(2) idle [of u] out by (auto simp: condvar_broadcast_def intro!: stuck_goto stuck_cvq)
  next
    case (timeout_leaves u b r q)
    have "t \<notin> set q" using timeout_leaves(3) out by (auto simp: condvar_timeout_check_def split: if_splits dest: notin_set_remove1)
    then show ?thesis using timeout_leaves other [OF timeout_leaves(2)] assms(2) by (auto intro!: stuck_goto stuck_cvq)
  next
    case (timeout_again u b q)
    then show ?thesis using other [OF timeout_again(2)] assms(2)
      by (auto simp: condvar_timeout_check_def split: if_splits intro!: stuck_goto)
  next
    case (wake_fetch u w ws a e call)
    have "t \<noteq> w" "t \<notin> set ws" using owed(1) [OF wake_fetch(3)] by auto
    then show ?thesis using wake_fetch other [OF wake_fetch(3)] assms(2) by (auto intro!: stuck_goto)
  next
    case (futex_wake_sleeper u w ws a k)
    have "t \<noteq> w" "t \<notin> set ws" using owed futex_wake_sleeper by auto
    then show ?thesis using futex_wake_sleeper other [OF futex_wake_sleeper(2)] assms(2) null
      by (auto intro!: stuck_goto split: if_splits simp: resume_def split: cont.splits)
  qed (use assms(2) asleep null owed in \<open>auto intro!: stuck_goto simp: resume_def continue_def split: if_splits cont.splits after.splits\<close>)
qed

lemma stuck_for_ever: "(sync_step Delayed)\<^sup>*\<^sup>* s s' \<Longrightarrow> stuck t s \<Longrightarrow> stuck t s'"
  by (induction rule: rtranclp_induct) (auto intro: stuck_step)

section \<open>Properties\<close>

text \<open>
  C7: Mutual exclusion against an untrusted host. Whatever calls out of the enclave do, at most one thread holds the
  mutex: a thread whose \<^verbatim>\<open>lock\<close> or \<^verbatim>\<open>try_lock\<close> succeeded more often than its \<^verbatim>\<open>unlock\<close> and \<^verbatim>\<open>wait\<close> released it is the
  recorded owner, its count is \<^verbatim>\<open>refcount\<close>, which is at most 1 unless the mutex is recursive, and only it can unlock: for
  every other thread \<^verbatim>\<open>unlock\<close> returns \<^verbatim>\<open>EPERM\<close> and changes nothing.
\<close>

theorem mutex_exclusion:
  assumes "sync_reachable h c s" and "0 < held s t" and "u \<noteq> t"
  shows "held s u = 0 \<and> owner (mtx s) = t \<and> refcount (mtx s) = held s t
    \<and> (c = SGX_THREAD_MUTEX_NONRECURSIVE \<longrightarrow> held s t = 1)
    \<and> mutex_unlock_lazy u w (mtx s) = (Inl EPERM, w, mtx s)"
proof -
  have ok: "mutex_ok (mtx s)" and h: "held s = locks_of (mtx s)" and c: "control (mtx s) = c"
    using exclusive_reachable [OF assms(1)] by (auto simp: exclusive_def)
  from assms(2) h have o: "owner (mtx s) = t" "t \<noteq> SGX_THREAD_T_NULL" by (auto simp: locks_of_def split: if_splits)
  show ?thesis using ok c o assms(2,3) by (auto simp: h locks_of_def mutex_ok_def mutex_unlock_lazy_def)
qed

theorem mutex_exclusion_witness:
  "held (sync_init SGX_THREAD_MUTEX_RECURSIVE) 2 = 0 \<and>
   (\<exists>s. sync_reachable Hostile SGX_THREAD_MUTEX_RECURSIVE s \<and> held s 1 = 2 \<and> held s 2 = 0 \<and> refcount (mtx s) = 2)"
proof -
  let ?m = "\<lparr>refcount = 1, control = SGX_THREAD_MUTEX_RECURSIVE, owner = 1, queue = []\<rparr>"
  let ?s0 = "sync_init SGX_THREAD_MUTEX_RECURSIVE"
  let ?s1 = "?s0\<lparr>mtx := ?m, held := (held ?s0)(1 := held ?s0 1 + 1)\<rparr>"
  let ?s2 = "?s1\<lparr>mtx := ?m\<lparr>refcount := 2\<rparr>, held := (held ?s1)(1 := held ?s1 1 + 1)\<rparr>"
  have "sync_step Hostile ?s0 ?s1"
    by (rule try_lock_ok) (simp_all add: sync_init_def mutex_new_def mutex_try_lock_def mutex_acquire_def SGX_THREAD_T_NULL_def)
  moreover have "sync_step Hostile ?s1 ?s2"
    by (rule try_lock_ok) (simp_all add: sync_init_def mutex_new_def mutex_try_lock_def mutex_acquire_def SGX_THREAD_T_NULL_def)
  ultimately have r: "sync_reachable Hostile SGX_THREAD_MUTEX_RECURSIVE ?s2"
    by (blast intro: sync_reachable.intros)
  have "0 < held ?s2 1" by simp
  with mutex_exclusion [OF r this, of 2] r show ?thesis
    by (intro conjI exI [of _ ?s2]) (simp_all add: sync_init_def)
qed


text \<open>Thread 2 has locked and unlocked while thread 1 was queued.\<close>

lemma waiter_at_free_mutex:
  "\<exists>s. perform_all Prompt [Call_lock 2, Run 2, Call_lock 1, Run 1, Call_unlock 2] (sync_init SGX_THREAD_MUTEX_NONRECURSIVE) = Some s
     \<and> owner (mtx s) = SGX_THREAD_T_NULL \<and> queue (mtx s) = [1] \<and> blocked (pcs s 1) (ev s 1)"
  by (simp add: sync_init_def mutex_new_def advance_def goto_def mutex_lock_turn_def mutex_acquire_def
      mutex_unlock_lazy_def SGX_THREAD_T_NULL_def)


text \<open>
  C31: The lost wake-up of the events as they are. When another thread runs between the update of the counter in \<^verbatim>\<open>wake\<close>
  and its futex call, a state is reachable in which the mutex is free, its first waiter sleeps, and this stays so whatever
  the threads do: every later \<^verbatim>\<open>lock\<close> waits for ever and every \<^verbatim>\<open>try_lock\<close> of another thread returns \<^verbatim>\<open>EBUSY\<close>.
\<close>

theorem late_wake_deadlock:
  "\<exists>s. sync_reachable Delayed SGX_THREAD_MUTEX_NONRECURSIVE s \<and>
     (\<forall>s'. (sync_step Delayed)\<^sup>*\<^sup>* s s' \<longrightarrow>
        owner (mtx s') = SGX_THREAD_T_NULL \<and> front (queue (mtx s')) = Some 1 \<and> (\<exists>r. pcs s' 1 = Fx_sleep (K_lock r)) \<and>
        (\<forall>u. u \<noteq> SGX_THREAD_T_NULL \<longrightarrow> u \<noteq> 1 \<longrightarrow> mutex_try_lock u (mtx s') = (Inl EBUSY, mtx s')))"
proof -
  obtain s where s: "perform_all Delayed late_wake_schedule (sync_init SGX_THREAD_MUTEX_NONRECURSIVE) = Some s" "stuck 1 s"
    using late_wake_stuck by blast
  have "sync_reachable Delayed SGX_THREAD_MUTEX_NONRECURSIVE s" by (rule perform_all_sound [OF sync_reachable.start s(1)])
  moreover have "owner (mtx s') = SGX_THREAD_T_NULL \<and> front (queue (mtx s')) = Some 1 \<and> (\<exists>r. pcs s' 1 = Fx_sleep (K_lock r))
      \<and> (\<forall>u. u \<noteq> SGX_THREAD_T_NULL \<longrightarrow> u \<noteq> 1 \<longrightarrow> mutex_try_lock u (mtx s') = (Inl EBUSY, mtx s'))"
    if "(sync_step Delayed)\<^sup>*\<^sup>* s s'" for s'
  proof -
    have st: "stuck 1 s'" using stuck_for_ever [OF that s(2)] .
    have "mutex_try_lock u (mtx s') = (Inl EBUSY, mtx s')" if "u \<noteq> SGX_THREAD_T_NULL" "u \<noteq> 1" for u
      using stuck_others(1) [OF st that(2,1)] by (simp add: mutex_try_lock_def)
    with st show ?thesis by (simp add: stuck_def)
  qed
  ultimately show ?thesis by blast
qed

theorem late_wake_deadlock_witness:
  "\<exists>s. sync_reachable Delayed SGX_THREAD_MUTEX_NONRECURSIVE s \<and> owner (mtx s) = SGX_THREAD_T_NULL \<and>
     front (queue (mtx s)) = Some 1 \<and> mutex_try_lock 2 (mtx s) = (Inl EBUSY, mtx s)"
proof -
  have "2 \<noteq> SGX_THREAD_T_NULL" "(2 :: sgx_thread_t) \<noteq> 1" by (simp_all add: SGX_THREAD_T_NULL_def)
  then show ?thesis using late_wake_deadlock by blast
qed

end
