(* ===== verification/Sgx_RwLock.thy ===== *)
theory Sgx_RwLock
  imports Sgx_Sync "HOL-Library.Word" "HOL-Library.Multiset"
begin

text \<open>
  The reader-writer lock of the enclave, \<^verbatim>\<open>src/sgx_tstd/src/sys/rwlock.rs\<close>. Each section under the internal spin lock is one
  function. The nodes of the linked list of waiting writers have addresses, because \<^verbatim>\<open>read_unlock\<close> and \<^verbatim>\<open>write_unlock\<close> keep
  a reference into the list after they have released the spin lock. Waiting threads look at the lock again whenever the
  host lets them return from their wait, so \<open>rw_step\<close> allows it at any time.
\<close>

section \<open>The lock\<close>

type_synonym node = "nat \<times> sgx_thread_t"

text \<open>\<open>nodes\<close> counts the nodes of the list of writers allocated so far; it gives each its address.\<close>

record SgxThreadRwLockInner =
  reader_count :: "32 word"
  writer_waiting :: "32 word"
  rw_owner :: sgx_thread_t
  reader_queue :: "sgx_thread_t list"
  writer_queue :: "node list"
  nodes :: nat

definition rwlock_new :: SgxThreadRwLockInner where
  "rwlock_new = \<lparr>reader_count = 0, writer_waiting = 0, rw_owner = SGX_THREAD_T_NULL, reader_queue = [], writer_queue = [],
     nodes = 0\<rparr>"

text \<open>The result of the first section of \<^verbatim>\<open>read\<close> and \<^verbatim>\<open>write\<close>: it returns, or the thread is queued and waits.\<close>

datatype rw_entry = Returns SysError | Waits

definition rw_read_enter :: "sgx_thread_t \<Rightarrow> SgxThreadRwLockInner \<Rightarrow> rw_entry \<times> SgxThreadRwLockInner" where
  "rw_read_enter current self =
     (if rw_owner self = SGX_THREAD_T_NULL then (Returns (Inr ()), self\<lparr>reader_count := reader_count self + 1\<rparr>)
      else if rw_owner self = current then (Returns (Inl EDEADLK), self)
      else (Waits, self\<lparr>reader_queue := reader_queue self @ [current]\<rparr>))"

text \<open>After a wait: whether the loop is left.\<close>

definition rw_read_again :: "sgx_thread_t \<Rightarrow> SgxThreadRwLockInner \<Rightarrow> bool \<times> SgxThreadRwLockInner" where
  "rw_read_again current self =
     (if rw_owner self = SGX_THREAD_T_NULL
      then (True, self\<lparr>reader_count := reader_count self + 1, reader_queue := remove1 current (reader_queue self)\<rparr>)
      else (False, self))"

definition rw_try_read :: "SgxThreadRwLockInner \<Rightarrow> SysError \<times> SgxThreadRwLockInner" where
  "rw_try_read self =
     (if rw_owner self = SGX_THREAD_T_NULL then (Inr (), self\<lparr>reader_count := reader_count self + 1\<rparr>) else (Inl EBUSY, self))"

definition rw_write_enter :: "sgx_thread_t \<Rightarrow> SgxThreadRwLockInner \<Rightarrow> rw_entry \<times> SgxThreadRwLockInner" where
  "rw_write_enter current self =
     (if rw_owner self = SGX_THREAD_T_NULL \<and> reader_count self = 0 then (Returns (Inr ()), self\<lparr>rw_owner := current\<rparr>)
      else if rw_owner self = current then (Returns (Inl EDEADLK), self)
      else (Waits, self\<lparr>writer_queue := writer_queue self @ [(nodes self, current)], nodes := nodes self + 1\<rparr>))"

fun remove_waiter :: "sgx_thread_t \<Rightarrow> node list \<Rightarrow> node list" where
  "remove_waiter current [] = []"
| "remove_waiter current (n # ns) = (if snd n = current then ns else n # remove_waiter current ns)"

definition rw_write_again :: "sgx_thread_t \<Rightarrow> SgxThreadRwLockInner \<Rightarrow> bool \<times> SgxThreadRwLockInner" where
  "rw_write_again current self =
     (if rw_owner self = SGX_THREAD_T_NULL \<and> reader_count self = 0
      then (True, self\<lparr>rw_owner := current, writer_queue := remove_waiter current (writer_queue self)\<rparr>)
      else (False, self))"

definition rw_try_write :: "sgx_thread_t \<Rightarrow> SgxThreadRwLockInner \<Rightarrow> SysError \<times> SgxThreadRwLockInner" where
  "rw_try_write current self =
     (if rw_owner self = SGX_THREAD_T_NULL \<and> reader_count self = 0 then (Inr (), self\<lparr>rw_owner := current\<rparr>)
      else (Inl EBUSY, self))"

text \<open>
  The sections of the unlocks return what is to be woken after the spin lock is released: nobody, the readers, whose
  identities have been copied, or the writer behind a reference to a node of the list.
\<close>

datatype wakes = Nobody | Readers "sgx_thread_t list" | Behind node

definition rw_front :: "node list \<Rightarrow> wakes" where
  "rw_front q = (case front q of None \<Rightarrow> Nobody | Some n \<Rightarrow> Behind n)"

definition rw_read_unlock :: "SgxThreadRwLockInner \<Rightarrow> SysError \<times> wakes \<times> SgxThreadRwLockInner" where
  "rw_read_unlock self =
     (if reader_count self = 0 then (Inl EPERM, Nobody, self)
      else let self1 = self\<lparr>reader_count := reader_count self - 1\<rparr>
           in (Inr (), if reader_count self1 = 0 then rw_front (writer_queue self1) else Nobody, self1))"

definition rw_write_unlock :: "sgx_thread_t \<Rightarrow> SgxThreadRwLockInner \<Rightarrow> SysError \<times> wakes \<times> SgxThreadRwLockInner" where
  "rw_write_unlock current self =
     (if rw_owner self \<noteq> current then (Inl EPERM, Nobody, self)
      else let self1 = self\<lparr>rw_owner := SGX_THREAD_T_NULL\<rparr>
           in (Inr (), if reader_queue self1 \<noteq> [] then Readers (reader_queue self1) else rw_front (writer_queue self1), self1))"

definition rw_unlock :: "sgx_thread_t \<Rightarrow> SgxThreadRwLockInner \<Rightarrow> SysError \<times> wakes \<times> SgxThreadRwLockInner" where
  "rw_unlock current self = (if rw_owner self = current then rw_write_unlock current self else rw_read_unlock self)"

definition rw_destroy :: "SgxThreadRwLockInner \<Rightarrow> SysError" where
  "rw_destroy self =
     (if rw_owner self \<noteq> SGX_THREAD_T_NULL \<or> reader_count self \<noteq> 0 \<or> writer_waiting self \<noteq> 0 \<or> reader_queue self \<noteq> [] \<or>
         writer_queue self \<noteq> []
      then Inl EBUSY else Inr ())"

section \<open>The threads\<close>

datatype rw_pc = RwIdle | RwReadWait | RwWriteWait | RwWake wakes

text \<open>\<open>readers\<close>: the read locks held, one element for each; \<open>writers\<close>: the write locks held.\<close>

record rw_sys =
  lck :: SgxThreadRwLockInner
  rw_pcs :: "sgx_thread_t \<Rightarrow> rw_pc"
  readers :: "sgx_thread_t multiset"
  writers :: "sgx_thread_t multiset"

definition rw_init :: rw_sys where
  "rw_init = \<lparr>lck = rwlock_new, rw_pcs = (\<lambda>_. RwIdle), readers = {#}, writers = {#}\<rparr>"

definition rw_goto :: "sgx_thread_t \<Rightarrow> rw_pc \<Rightarrow> rw_sys \<Rightarrow> rw_sys" where
  "rw_goto t p s = s\<lparr>rw_pcs := (rw_pcs s)(t := p)\<rparr>"

text \<open>The number of read locks that can be held at a time before the counter wraps.\<close>

definition max_readers :: nat where
  "max_readers = 2 ^ 32 - 1"

text \<open>
  The steps. Threads unlock only what they hold, as the guards of \<^verbatim>\<open>sync::RwLock\<close> do, and fewer than \<open>max_readers\<close> read
  locks are held when one more is taken.
\<close>

inductive rw_step :: "rw_sys \<Rightarrow> rw_sys \<Rightarrow> bool" where
  read_taken: "t \<noteq> SGX_THREAD_T_NULL \<Longrightarrow> rw_pcs s t = RwIdle \<Longrightarrow> size (readers s) < max_readers \<Longrightarrow>
    rw_read_enter t (lck s) = (Returns (Inr ()), l) \<Longrightarrow> rw_step s (s\<lparr>lck := l, readers := add_mset t (readers s)\<rparr>)"
| read_deadlock: "t \<noteq> SGX_THREAD_T_NULL \<Longrightarrow> rw_pcs s t = RwIdle \<Longrightarrow>
    rw_read_enter t (lck s) = (Returns (Inl e), l) \<Longrightarrow> rw_step s (s\<lparr>lck := l\<rparr>)"
| read_waits: "t \<noteq> SGX_THREAD_T_NULL \<Longrightarrow> rw_pcs s t = RwIdle \<Longrightarrow>
    rw_read_enter t (lck s) = (Waits, l) \<Longrightarrow> rw_step s (rw_goto t RwReadWait (s\<lparr>lck := l\<rparr>))"
| read_woken: "rw_pcs s t = RwReadWait \<Longrightarrow> size (readers s) < max_readers \<Longrightarrow> rw_read_again t (lck s) = (True, l) \<Longrightarrow>
    rw_step s (rw_goto t RwIdle (s\<lparr>lck := l, readers := add_mset t (readers s)\<rparr>))"
| try_read_ok: "t \<noteq> SGX_THREAD_T_NULL \<Longrightarrow> rw_pcs s t = RwIdle \<Longrightarrow> size (readers s) < max_readers \<Longrightarrow>
    rw_try_read (lck s) = (Inr (), l) \<Longrightarrow> rw_step s (s\<lparr>lck := l, readers := add_mset t (readers s)\<rparr>)"
| write_taken: "t \<noteq> SGX_THREAD_T_NULL \<Longrightarrow> rw_pcs s t = RwIdle \<Longrightarrow>
    rw_write_enter t (lck s) = (Returns (Inr ()), l) \<Longrightarrow> rw_step s (s\<lparr>lck := l, writers := add_mset t (writers s)\<rparr>)"
| write_deadlock: "t \<noteq> SGX_THREAD_T_NULL \<Longrightarrow> rw_pcs s t = RwIdle \<Longrightarrow>
    rw_write_enter t (lck s) = (Returns (Inl e), l) \<Longrightarrow> rw_step s (s\<lparr>lck := l\<rparr>)"
| write_waits: "t \<noteq> SGX_THREAD_T_NULL \<Longrightarrow> rw_pcs s t = RwIdle \<Longrightarrow>
    rw_write_enter t (lck s) = (Waits, l) \<Longrightarrow> rw_step s (rw_goto t RwWriteWait (s\<lparr>lck := l\<rparr>))"
| write_woken: "rw_pcs s t = RwWriteWait \<Longrightarrow> rw_write_again t (lck s) = (True, l) \<Longrightarrow>
    rw_step s (rw_goto t RwIdle (s\<lparr>lck := l, writers := add_mset t (writers s)\<rparr>))"
| try_write_ok: "t \<noteq> SGX_THREAD_T_NULL \<Longrightarrow> rw_pcs s t = RwIdle \<Longrightarrow>
    rw_try_write t (lck s) = (Inr (), l) \<Longrightarrow> rw_step s (s\<lparr>lck := l, writers := add_mset t (writers s)\<rparr>)"
| read_unlocked: "t \<in># readers s \<Longrightarrow> rw_pcs s t = RwIdle \<Longrightarrow> rw_read_unlock (lck s) = (Inr (), w, l) \<Longrightarrow>
    rw_step s (rw_goto t (RwWake w) (s\<lparr>lck := l, readers := readers s - {#t#}\<rparr>))"
| write_unlocked: "t \<in># writers s \<Longrightarrow> rw_pcs s t = RwIdle \<Longrightarrow> rw_write_unlock t (lck s) = (Inr (), w, l) \<Longrightarrow>
    rw_step s (rw_goto t (RwWake w) (s\<lparr>lck := l, writers := writers s - {#t#}\<rparr>))"
| woke: "rw_pcs s t = RwWake w \<Longrightarrow> rw_step s (rw_goto t RwIdle s)"

inductive rw_reachable :: "rw_sys \<Rightarrow> bool" where
  rw_start: "rw_reachable rw_init"
| rw_next: "rw_reachable s \<Longrightarrow> rw_step s s' \<Longrightarrow> rw_reachable s'"

text \<open>A thread about to read the identity of a waiter from a node that is no longer in the list.\<close>

definition reads_freed :: "rw_sys \<Rightarrow> sgx_thread_t \<Rightarrow> bool" where
  "reads_freed s t = (case rw_pcs s t of RwWake (Behind n) \<Rightarrow> n \<notin> set (writer_queue (lck s)) | _ \<Rightarrow> False)"

end
