(* ===== verification/Sgx_RwLock_Proofs.thy ===== *)
theory Sgx_RwLock_Proofs
  imports Sgx_RwLock
begin

text \<open>
  What the reader-writer lock guarantees: exclusion as long as its 32-bit counter of readers does not wrap, an exact record of
  the waiting threads, and the two ways in which the code goes wrong: the counter that wraps, and the
  reference into the list of writers that \<^verbatim>\<open>read_unlock\<close> follows after another thread may have freed its node.
\<close>

section \<open>Exclusion\<close>

definition rw_ok :: "rw_sys \<Rightarrow> bool" where
  "rw_ok s \<longleftrightarrow> reader_count (lck s) = word_of_nat (size (readers s)) \<and> size (readers s) \<le> max_readers \<and>
     SGX_THREAD_T_NULL \<notin># readers s \<and> rw_pcs s SGX_THREAD_T_NULL = RwIdle \<and>
     writers s = (if rw_owner (lck s) = SGX_THREAD_T_NULL then {#} else {#rw_owner (lck s)#}) \<and>
     (rw_owner (lck s) \<noteq> SGX_THREAD_T_NULL \<longrightarrow> readers s = {#})"

lemma no_readers_iff:
  assumes "rw_ok s"
  shows "reader_count (lck s) = 0 \<longleftrightarrow> readers s = {#}"
proof -
  have "size (readers s) < 2 ^ 32" using assms by (simp add: rw_ok_def max_readers_def)
  then have "unat (word_of_nat (size (readers s)) :: 32 word) = size (readers s)"
    by (simp add: unat_of_nat take_bit_nat_eq_self)
  then show ?thesis using assms by (auto simp: rw_ok_def unat_eq_0 [symmetric])
qed

text \<open>Every step takes a lock, releases one, or leaves the counter, the owner and the locks held alone.\<close>

lemma rw_stepE:
  assumes "rw_step s s'" and "rw_ok s"
  obtains (same) "reader_count (lck s') = reader_count (lck s)" "rw_owner (lck s') = rw_owner (lck s)"
      "readers s' = readers s" "writers s' = writers s"
  | (reader) t where "t \<noteq> SGX_THREAD_T_NULL" "rw_owner (lck s) = SGX_THREAD_T_NULL" "size (readers s) < max_readers"
      "reader_count (lck s') = reader_count (lck s) + 1" "rw_owner (lck s') = SGX_THREAD_T_NULL"
      "readers s' = add_mset t (readers s)" "writers s' = writers s"
  | (writer) t where "t \<noteq> SGX_THREAD_T_NULL" "rw_owner (lck s) = SGX_THREAD_T_NULL" "reader_count (lck s) = 0"
      "reader_count (lck s') = 0" "rw_owner (lck s') = t" "readers s' = readers s" "writers s' = add_mset t (writers s)"
  | (read_unlock) t where "t \<in># readers s" "reader_count (lck s') = reader_count (lck s) - 1" "rw_owner (lck s') = rw_owner (lck s)"
      "readers s' = readers s - {#t#}" "writers s' = writers s"
  | (write_unlock) t where "t \<in># writers s" "reader_count (lck s') = reader_count (lck s)" "rw_owner (lck s) = t"
      "rw_owner (lck s') = SGX_THREAD_T_NULL" "readers s' = readers s" "writers s' = writers s - {#t#}"
proof -
  have null: "rw_pcs s t \<noteq> RwIdle \<Longrightarrow> t \<noteq> SGX_THREAD_T_NULL" for t using assms(2) by (auto simp: rw_ok_def)
  show thesis
    using assms(1)
  proof cases
    case (read_taken t l)
    then show thesis by (intro reader [of t]) (auto simp: rw_read_enter_def split: if_splits)
  next
    case (read_woken t l)
    then show thesis using null [of t] by (intro reader [of t]) (auto simp: rw_read_again_def rw_goto_def split: if_splits)
  next
    case (try_read_ok t l)
    then show thesis by (intro reader [of t]) (auto simp: rw_try_read_def split: if_splits)
  next
    case (write_taken t l)
    then show thesis by (intro writer [of t]) (auto simp: rw_write_enter_def split: if_splits)
  next
    case (write_woken t l)
    then show thesis using null [of t] by (intro writer [of t]) (auto simp: rw_write_again_def rw_goto_def split: if_splits)
  next
    case (try_write_ok t l)
    then show thesis by (intro writer [of t]) (auto simp: rw_try_write_def split: if_splits)
  next
    case (read_unlocked t w l)
    then show thesis by (intro read_unlock [of t]) (auto simp: rw_read_unlock_def rw_goto_def Let_def split: if_splits)
  next
    case (write_unlocked t w l)
    then show thesis by (intro write_unlock [of t]) (auto simp: rw_write_unlock_def rw_goto_def Let_def split: if_splits)
  qed (intro same; auto simp: rw_read_enter_def rw_write_enter_def rw_goto_def split: if_splits)+
qed

lemma rw_null_idle_step:
  assumes "rw_step s s'" and "rw_ok s"
  shows "rw_pcs s' SGX_THREAD_T_NULL = RwIdle"
  using assms by cases (auto simp: rw_ok_def rw_goto_def split: if_splits)

lemma rw_ok_step:
  assumes "rw_step s s'" and "rw_ok s"
  shows "rw_ok s'"
proof -
  note ok = assms(2) [unfolded rw_ok_def]
  show ?thesis
    using assms
  proof (cases rule: rw_stepE)
    case same
    with ok rw_null_idle_step [OF assms] show ?thesis by (simp add: rw_ok_def)
  next
    case (reader t)
    with ok rw_null_idle_step [OF assms] show ?thesis by (auto simp: rw_ok_def)
  next
    case (writer t)
    with no_readers_iff [OF assms(2)] ok rw_null_idle_step [OF assms] show ?thesis by (simp add: rw_ok_def)
  next
    case (read_unlock t)
    have "0 < size (readers s)" using read_unlock(1) by (metis empty_iff gr0I set_mset_empty size_eq_0_iff_empty)
    then have "size (readers s - {#t#}) + 1 = size (readers s)" using read_unlock(1) by (simp add: size_Diff_singleton)
    then have "word_of_nat (size (readers s)) - 1 = (word_of_nat (size (readers s - {#t#})) :: 32 word)"
      by (metis add_diff_cancel_right' of_nat_1 of_nat_add)
    with read_unlock ok rw_null_idle_step [OF assms] \<open>size (readers s - {#t#}) + 1 = size (readers s)\<close> show ?thesis
      by (auto simp: rw_ok_def dest: in_diffD)
  next
    case (write_unlock t)
    with ok rw_null_idle_step [OF assms] show ?thesis by (auto simp: rw_ok_def)
  qed
qed

lemma rw_ok_reachable: "rw_reachable s \<Longrightarrow> rw_ok s"
proof (induction rule: rw_reachable.induct)
  case rw_start
  show ?case by (simp add: rw_ok_def rw_init_def rwlock_new_def)
qed (rule rw_ok_step)

section \<open>The queues\<close>

definition rw_queued :: "rw_sys \<Rightarrow> bool" where
  "rw_queued s \<longleftrightarrow> distinct (reader_queue (lck s)) \<and> set (reader_queue (lck s)) = {t. rw_pcs s t = RwReadWait} \<and>
     distinct (map snd (writer_queue (lck s))) \<and> snd ` set (writer_queue (lck s)) = {t. rw_pcs s t = RwWriteWait} \<and>
     distinct (map fst (writer_queue (lck s))) \<and> (\<forall>n \<in> set (writer_queue (lck s)). fst n < nodes (lck s))"

lemma remove_waiter_filter:
  "distinct (map snd q) \<Longrightarrow> remove_waiter t q = filter (\<lambda>n. snd n \<noteq> t) q"
proof (induction q)
  case (Cons n q)
  have "filter (\<lambda>n. snd n \<noteq> t) q = q" if "snd n = t"
  proof (rule filter_True, rule ballI)
    fix x assume "x \<in> set q"
    then have "snd x \<in> snd ` set q" by (rule imageI)
    moreover have "t \<notin> snd ` set q" using Cons.prems that by simp
    ultimately show "snd x \<noteq> t" by blast
  qed
  with Cons show ?case by simp
qed simp

lemma distinct_map_filter_node: "distinct (map f q) \<Longrightarrow> distinct (map f (filter P q))"
  by (induction q) auto

lemma rw_queued_same:
  assumes "rw_queued s" and "reader_queue (lck s') = reader_queue (lck s)" and "writer_queue (lck s') = writer_queue (lck s)"
    and "nodes (lck s') = nodes (lck s)" and "\<And>t. rw_pcs s' t = RwReadWait \<longleftrightarrow> rw_pcs s t = RwReadWait"
    and "\<And>t. rw_pcs s' t = RwWriteWait \<longleftrightarrow> rw_pcs s t = RwWriteWait"
  shows "rw_queued s'"
  using assms by (simp add: rw_queued_def)

lemma rw_queued_step:
  assumes "rw_step s s'" and "rw_queued s"
  shows "rw_queued s'"
  using assms(1)
proof cases
  case (read_waits t l)
  then have "l = (lck s)\<lparr>reader_queue := reader_queue (lck s) @ [t]\<rparr>" by (auto simp: rw_read_enter_def split: if_splits)
  with read_waits assms(2) show ?thesis by (auto simp: rw_queued_def rw_goto_def)
next
  case (read_woken t l)
  then have "l = (lck s)\<lparr>reader_count := reader_count (lck s) + 1, reader_queue := remove1 t (reader_queue (lck s))\<rparr>"
    by (auto simp: rw_read_again_def split: if_splits)
  with read_woken assms(2) show ?thesis by (auto simp: rw_queued_def rw_goto_def)
next
  case (write_waits t l)
  then have l: "l = (lck s)\<lparr>writer_queue := writer_queue (lck s) @ [(nodes (lck s), t)], nodes := nodes (lck s) + 1\<rparr>"
    by (auto simp: rw_write_enter_def split: if_splits)
  have "t \<notin> snd ` set (writer_queue (lck s))" "nodes (lck s) \<notin> fst ` set (writer_queue (lck s))"
    using write_waits assms(2) by (auto simp: rw_queued_def)
  with write_waits l assms(2) show ?thesis by (auto simp: rw_queued_def rw_goto_def less_Suc_eq)
next
  case (write_woken t l)
  then have l: "l = (lck s)\<lparr>rw_owner := t, writer_queue := remove_waiter t (writer_queue (lck s))\<rparr>"
    by (auto simp: rw_write_again_def split: if_splits)
  have "snd ` set (filter (\<lambda>n. snd n \<noteq> t) (writer_queue (lck s))) = {u. rw_pcs s u = RwWriteWait} - {t}"
    using assms(2) by (auto simp: rw_queued_def)
  with write_woken l assms(2) show ?thesis
    by (auto simp: rw_queued_def rw_goto_def remove_waiter_filter distinct_map_filter_node)
next
  case (read_unlocked t w l)
  then have "l = (lck s)\<lparr>reader_count := reader_count (lck s) - 1\<rparr>" by (auto simp: rw_read_unlock_def Let_def split: if_splits)
  with read_unlocked show ?thesis by (intro rw_queued_same [OF assms(2)]) (auto simp: rw_goto_def)
next
  case (write_unlocked t w l)
  then have "l = (lck s)\<lparr>rw_owner := SGX_THREAD_T_NULL\<rparr>" by (auto simp: rw_write_unlock_def Let_def split: if_splits)
  with write_unlocked show ?thesis by (intro rw_queued_same [OF assms(2)]) (auto simp: rw_goto_def)
next
  case (woke t w)
  then show ?thesis by (intro rw_queued_same [OF assms(2)]) (auto simp: rw_goto_def)
qed (intro rw_queued_same [OF assms(2)];
    auto simp: rw_read_enter_def rw_write_enter_def rw_try_read_def rw_try_write_def split: if_splits)+

lemma rw_queued_reachable: "rw_reachable s \<Longrightarrow> rw_queued s"
proof (induction rule: rw_reachable.induct)
  case rw_start
  show ?case by (simp add: rw_queued_def rw_init_def rwlock_new_def)
qed (rule rw_queued_step)

section \<open>Properties\<close>


lemma rw_write_run:
  "rw_step rw_init (rw_init\<lparr>lck := rwlock_new\<lparr>rw_owner := 1\<rparr>, writers := {#1#}\<rparr>)"
  using write_taken [of 1 rw_init "rwlock_new\<lparr>rw_owner := 1\<rparr>"]
  by (simp add: rw_init_def rwlock_new_def rw_write_enter_def SGX_THREAD_T_NULL_def)


text \<open>
  The counter of readers wraps. With \<open>2 ^ 32 - 1\<close> read locks held, one more \<^verbatim>\<open>try_read\<close> succeeds and brings the counter
  to 0, after which a \<^verbatim>\<open>try_write\<close> succeeds although all the read locks are held.
\<close>

theorem rwlock_reader_overflow:
  assumes "reader_count l = word_of_nat max_readers" and "rw_owner l = SGX_THREAD_T_NULL"
  shows "fst (rw_try_read l) = Inr () \<and> reader_count (snd (rw_try_read l)) = 0 \<and>
    fst (rw_try_write t (snd (rw_try_read l))) = Inr () \<and> rw_owner (snd (rw_try_write t (snd (rw_try_read l)))) = t"
proof -
  have "(word_of_nat max_readers + 1 :: 32 word) = 0" by (simp add: max_readers_def)
  with assms show ?thesis by (simp add: rw_try_read_def rw_try_write_def)
qed

theorem rwlock_reader_overflow_witness:
  "fst (rw_try_write 7 (snd (rw_try_read (rwlock_new\<lparr>reader_count := 4294967295\<rparr>)))) = Inr ()"
  using rwlock_reader_overflow [of "rwlock_new\<lparr>reader_count := 4294967295\<rparr>" 7]
  by (simp add: rwlock_new_def max_readers_def)

text \<open>
  C32: \<^verbatim>\<open>read_unlock\<close> reads freed memory. A run exists in which a thread holds a reference to a node of the list of waiting
  writers, taken under the spin lock, while the writer of that node has taken the lock and freed the node.
\<close>

theorem read_unlock_use_after_free: "\<exists>s. rw_reachable s \<and> reads_freed s 1 \<and> writers s = {#2#}"
proof -
  let ?l1 = "rwlock_new\<lparr>reader_count := 1\<rparr>"
  let ?s1 = "rw_init\<lparr>lck := ?l1, readers := {#1#}\<rparr>"
  let ?l2 = "?l1\<lparr>writer_queue := [(0, 2)], nodes := 1\<rparr>"
  let ?s2 = "rw_goto 2 RwWriteWait (?s1\<lparr>lck := ?l2\<rparr>)"
  let ?l3 = "?l2\<lparr>reader_count := 0\<rparr>"
  let ?s3 = "rw_goto 1 (RwWake (Behind (0, 2))) (?s2\<lparr>lck := ?l3, readers := {#}\<rparr>)"
  let ?s4 = "rw_goto 2 RwIdle (?s3\<lparr>lck := ?l3\<lparr>rw_owner := 2, writer_queue := []\<rparr>, writers := {#2#}\<rparr>)"
  have a: "rw_step rw_init ?s1" using read_taken [of 1 rw_init ?l1]
    by (simp add: rw_init_def rwlock_new_def rw_read_enter_def SGX_THREAD_T_NULL_def max_readers_def)
  have b: "rw_step ?s1 ?s2" by (rule write_waits)
      (simp_all add: rw_init_def rwlock_new_def rw_write_enter_def SGX_THREAD_T_NULL_def)
  have c: "rw_step ?s2 ?s3" using read_unlocked [of 1 ?s2 "Behind (0, 2)" ?l3]
    by (simp add: rw_init_def rwlock_new_def rw_read_unlock_def rw_front_def front_def rw_goto_def)
  have d: "rw_step ?s3 ?s4" using write_woken [of ?s3 2 "?l3\<lparr>rw_owner := 2, writer_queue := []\<rparr>"]
    by (simp add: rw_init_def rwlock_new_def rw_write_again_def SGX_THREAD_T_NULL_def rw_goto_def)
  have "rw_reachable ?s4" by (rule rw_next [OF rw_next [OF rw_next [OF rw_next [OF rw_start a] b] c] d])
  moreover have "reads_freed ?s4 1" "writers ?s4 = {#2#}" by (simp_all add: reads_freed_def rw_goto_def)
  ultimately show ?thesis by blast
qed

end
