(* ===== verification/Sgx_Ocall.thy ===== *)
theory Sgx_Ocall
  imports Sgx_Trts
begin

text \<open>
  The enclave's side of the calls to the operating system, \<^verbatim>\<open>src/sgx_libc/src/linux/x86_64/ocall.rs\<close>: memory of the host,
  the calls that move data in and out of the enclave through a buffer in untrusted memory, and the calls that return a pointer
  or a length chosen by the host. The host is a parameter: it sees the whole memory and answers each call
  with a status, a result and a new memory; \<open>platform_ok\<close> says that it cannot write into the enclave except where the edge routine of
  the call copies an output. The calls without data are in \<open>Sgx_Ocall_Calls\<close>.
\<close>

section \<open>Memory, state and the host\<close>

type_synonym mem = "nat \<Rightarrow> u8"

definition addr_range :: "addr \<Rightarrow> usize \<Rightarrow> nat set" where
  "addr_range p n = {unat p ..< unat p + n}"

definition mem_load :: "addr \<Rightarrow> usize \<Rightarrow> mem \<Rightarrow> bytes" where
  "mem_load p n m = map (\<lambda>i. m (unat p + i)) [0..<n]"

definition mem_store :: "addr \<Rightarrow> bytes \<Rightarrow> mem \<Rightarrow> mem" where
  "mem_store p bs m = (\<lambda>a. if unat p \<le> a \<and> a < unat p + length bs then bs ! (a - unat p) else m a)"

definition copy_nonoverlapping :: "addr \<Rightarrow> addr \<Rightarrow> usize \<Rightarrow> mem \<Rightarrow> mem" where
  "copy_nonoverlapping src dst n m = mem_store dst (mem_load src n m) m"

definition ESGX :: int where "ESGX = 0xFFFF"
definition EINVAL :: int where "EINVAL = 22"
definition ENOMEM :: int where "ENOMEM = 12"

definition USIZE_MAX :: nat where "USIZE_MAX = 2 ^ 64 - 1"

definition MAX_OCALL_ALLOC_SIZE :: usize where "MAX_OCALL_ALLOC_SIZE = 0x4000"

datatype arg = AInt int | APtr addr | ASize usize

type_synonym iovec = "addr \<times> usize"

datatype ocall =
    U_call string "arg list"
  | U_malloc usize
  | U_free addr
  | U_mmap addr usize int int int int
  | U_read int addr usize
  | U_pread64 int addr usize int
  | U_readv int "iovec list" int
  | U_preadv64 int "iovec list" int int
  | U_write int addr usize
  | U_pwrite64 int addr usize int
  | U_writev int "iovec list" int
  | U_pwritev64 int "iovec list" int int
  | U_send int addr usize int
  | U_sendto int addr usize int addr usize
  | U_sendmsg int addr usize "iovec list" addr usize int
  | U_recv int addr usize int
  | U_recvfrom int addr usize int addr usize
  | U_recvmsg int addr usize "iovec list" addr usize int
  | U_accept int addr usize
  | U_accept4 int addr usize int
  | U_getsockopt int int int addr usize
  | U_getpeername int addr usize
  | U_getsockname int addr usize

text \<open>What comes back: the status of the call itself, the returned number or pointer, \<^verbatim>\<open>*error\<close>, the returned lengths and flags, and
  the memory after the call.\<close>

record reply =
  r_status :: sgx_status_t
  r_result :: int
  r_ptr :: addr
  r_error :: int
  r_len :: usize
  r_len2 :: usize
  r_flags :: int
  r_mem :: mem

record 'w libc_ffi = "'w trts_ffi" +
  sgx_ocalloc :: "usize \<Rightarrow> 'w \<Rightarrow> addr \<times> 'w"
  u_ocall :: "ocall \<Rightarrow> mem \<Rightarrow> 'w \<Rightarrow> reply \<times> 'w"

text \<open>\<open>owned\<close>: the buffers in untrusted memory that have been allocated and not released.\<close>

datatype buffer = Ocalloced | Malloced addr

record 'w libc_st =
  mem :: mem
  errno_val :: int
  owned :: "buffer list"
  world :: 'w

definition set_errno :: "int \<Rightarrow> 'w libc_st \<Rightarrow> 'w libc_st" where
  "set_errno e s = s\<lparr>errno_val := e\<rparr>"

definition do_ocall :: "('w, 'z) libc_ffi_scheme \<Rightarrow> ocall \<Rightarrow> 'w libc_st \<Rightarrow> reply \<times> 'w libc_st" where
  "do_ocall P c s = (case u_ocall P c (mem s) (world s) of (r, w) \<Rightarrow> (r, s\<lparr>mem := r_mem r, world := w\<rparr>))"

text \<open>The block that follows almost every call.\<close>

definition check_result :: "reply \<Rightarrow> 'w libc_st \<Rightarrow> int \<times> 'w libc_st" where
  "check_result r s =
     (if r_status r = SGX_SUCCESS then (r_result r, if r_result r = - 1 then set_errno (r_error r) s else s)
      else (- 1, set_errno ESGX s))"

definition ocall_int :: "('w, 'z) libc_ffi_scheme \<Rightarrow> ocall \<Rightarrow> 'w libc_st \<Rightarrow> int \<times> 'w libc_st" where
  "ocall_int P c s = (case do_ocall P c s of (r, s1) \<Rightarrow> check_result r s1)"

section \<open>Memory of the host\<close>

definition libc_malloc :: "('w, 'z) libc_ffi_scheme \<Rightarrow> usize \<Rightarrow> 'w libc_st \<Rightarrow> addr \<times> 'w libc_st" where
  "libc_malloc P sz s =
     (case do_ocall P (U_malloc sz) s of (r, s1) \<Rightarrow>
        if r_status r = SGX_SUCCESS
        then if r_ptr r \<noteq> 0
             then if sgx_is_outside_enclave P (r_ptr r) sz = 0 then (0, set_errno ESGX s1)
                  else (r_ptr r, s1\<lparr>owned := Malloced (r_ptr r) # owned s1\<rparr>)
             else (0, set_errno (r_error r) s1)
        else (0, set_errno ESGX s1))"

definition libc_free :: "('w, 'z) libc_ffi_scheme \<Rightarrow> addr \<Rightarrow> 'w libc_st \<Rightarrow> 'w libc_st" where
  "libc_free P p s = (case do_ocall P (U_free p) s of (_, s1) \<Rightarrow> s1\<lparr>owned := remove1 (Malloced p) (owned s1)\<rparr>)"

definition libc_mmap ::
  "('w, 'z) libc_ffi_scheme \<Rightarrow> addr \<Rightarrow> usize \<Rightarrow> int \<Rightarrow> int \<Rightarrow> int \<Rightarrow> int \<Rightarrow> 'w libc_st \<Rightarrow> addr \<times> 'w libc_st" where
  "libc_mmap P start len prot flgs fd offset s =
     (case do_ocall P (U_mmap start len prot flgs fd offset) s of (r, s1) \<Rightarrow>
        if r_status r = SGX_SUCCESS
        then if r_ptr r \<noteq> - 1
             then if sgx_is_outside_enclave P (r_ptr r) len = 0 then (- 1, set_errno ESGX s1) else (r_ptr r, s1)
             else (- 1, set_errno (r_error r) s1)
        else (- 1, set_errno ESGX s1))"

text \<open>The buffer in untrusted memory that the calls with data use: small ones on the host's stack, large ones from its heap.\<close>

definition alloc_tmp :: "('w, 'z) libc_ffi_scheme \<Rightarrow> usize \<Rightarrow> 'w libc_st \<Rightarrow> addr \<times> 'w libc_st" where
  "alloc_tmp P count s =
     (if count \<le> MAX_OCALL_ALLOC_SIZE
      then case sgx_ocalloc P count (world s) of (p, w) \<Rightarrow>
             (p, s\<lparr>world := w, owned := (if p = 0 then owned s else Ocalloced # owned s)\<rparr>)
      else libc_malloc P count s)"

definition free_tmp :: "('w, 'z) libc_ffi_scheme \<Rightarrow> usize \<Rightarrow> addr \<Rightarrow> 'w libc_st \<Rightarrow> 'w libc_st" where
  "free_tmp P count p s =
     (if count \<le> MAX_OCALL_ALLOC_SIZE then s\<lparr>owned := remove1 Ocalloced (owned s)\<rparr> else libc_free P p s)"

definition upd_mem :: "(mem \<Rightarrow> mem) \<Rightarrow> 'w libc_st \<Rightarrow> 'w libc_st" where
  "upd_mem f s = s\<lparr>mem := f (mem s)\<rparr>"

text \<open>\<^verbatim>\<open>result.try_into().unwrap_or(0)\<close>\<close>

definition as_usize :: "int \<Rightarrow> usize" where
  "as_usize r = (if 0 \<le> r then nat r else 0)"

section \<open>Reading into one buffer\<close>

definition bad_buffer :: "('w, 'z) libc_ffi_scheme \<Rightarrow> addr \<Rightarrow> usize \<Rightarrow> bool" where
  "bad_buffer P buf count \<longleftrightarrow> buf = 0 \<or> sgx_is_within_enclave P buf count = 0 \<or> USIZE_MAX \<le> count"

definition libc_read :: "('w, 'z) libc_ffi_scheme \<Rightarrow> int \<Rightarrow> addr \<Rightarrow> usize \<Rightarrow> 'w libc_st \<Rightarrow> int \<times> 'w libc_st" where
  "libc_read P fd buf count s =
     (if bad_buffer P buf count then (- 1, set_errno EINVAL s)
      else case alloc_tmp P count s of (tmp_buf, s1) \<Rightarrow>
        if tmp_buf = 0 then (- 1, set_errno ENOMEM s1)
        else let s2 = upd_mem (mem_store tmp_buf (replicate count 0)) s1
             in case ocall_int P (U_read fd tmp_buf count) s2 of (result, s3) \<Rightarrow>
                  let s4 = (if result \<noteq> - 1 then upd_mem (copy_nonoverlapping tmp_buf buf (min count (as_usize result))) s3 else s3)
                  in (result, free_tmp P count tmp_buf s4))"

definition libc_pread64 ::
  "('w, 'z) libc_ffi_scheme \<Rightarrow> int \<Rightarrow> addr \<Rightarrow> usize \<Rightarrow> int \<Rightarrow> 'w libc_st \<Rightarrow> int \<times> 'w libc_st" where
  "libc_pread64 P fd buf count offset s =
     (if bad_buffer P buf count then (- 1, set_errno EINVAL s)
      else case alloc_tmp P count s of (tmp_buf, s1) \<Rightarrow>
        if tmp_buf = 0 then (- 1, set_errno ENOMEM s1)
        else let s2 = upd_mem (mem_store tmp_buf (replicate count 0)) s1
             in case ocall_int P (U_pread64 fd tmp_buf count offset) s2 of (result, s3) \<Rightarrow>
                  let s4 = (if result \<noteq> - 1 then upd_mem (copy_nonoverlapping tmp_buf buf (min count (as_usize result))) s3 else s3)
                  in (result, free_tmp P count tmp_buf s4))"

definition libc_recv ::
  "('w, 'z) libc_ffi_scheme \<Rightarrow> int \<Rightarrow> addr \<Rightarrow> usize \<Rightarrow> int \<Rightarrow> 'w libc_st \<Rightarrow> int \<times> 'w libc_st" where
  "libc_recv P sockfd buf len flgs s =
     (if bad_buffer P buf len then (- 1, set_errno EINVAL s)
      else case alloc_tmp P len s of (tmp_buf, s1) \<Rightarrow>
        if tmp_buf = 0 then (- 1, set_errno ENOMEM s1)
        else let s2 = upd_mem (mem_store tmp_buf (replicate len 0)) s1
             in case ocall_int P (U_recv sockfd tmp_buf len flgs) s2 of (result, s3) \<Rightarrow>
                  let s4 = (if result \<noteq> - 1 then upd_mem (copy_nonoverlapping tmp_buf buf len) s3 else s3)
                  in (result, free_tmp P len tmp_buf s4))"

text \<open>\<open>addrlen\<close> is the number behind the pointer, \<open>None\<close> when the pointer is null; the new number is returned.\<close>

definition libc_recvfrom ::
  "('w, 'z) libc_ffi_scheme \<Rightarrow> int \<Rightarrow> addr \<Rightarrow> usize \<Rightarrow> int \<Rightarrow> addr \<Rightarrow> usize option \<Rightarrow> 'w libc_st
     \<Rightarrow> (int \<times> usize option) \<times> 'w libc_st" where
  "libc_recvfrom P sockfd buf len flgs addr addrlen s =
     (let len_in = (case addrlen of Some n \<Rightarrow> n | None \<Rightarrow> 0)
      in if bad_buffer P buf len then ((- 1, addrlen), set_errno EINVAL s)
      else case alloc_tmp P len s of (tmp_buf, s1) \<Rightarrow>
        if tmp_buf = 0 then ((- 1, addrlen), set_errno ENOMEM s1)
        else let s2 = upd_mem (mem_store tmp_buf (replicate len 0)) s1
             in case do_ocall P (U_recvfrom sockfd tmp_buf len flgs addr len_in) s2 of (r, s3) \<Rightarrow>
                case check_result r s3 of (result, s4) \<Rightarrow>
                  let s5 = (if result \<noteq> - 1 then upd_mem (copy_nonoverlapping tmp_buf buf len) s4 else s4)
                  in ((result, map_option (\<lambda>_. r_len r) addrlen), free_tmp P len tmp_buf s5))"

section \<open>Writing from one buffer\<close>

definition libc_write :: "('w, 'z) libc_ffi_scheme \<Rightarrow> int \<Rightarrow> addr \<Rightarrow> usize \<Rightarrow> 'w libc_st \<Rightarrow> int \<times> 'w libc_st" where
  "libc_write P fd buf count s =
     (if bad_buffer P buf count then (- 1, set_errno EINVAL s)
      else case alloc_tmp P count s of (tmp_buf, s1) \<Rightarrow>
        if tmp_buf = 0 then (- 1, set_errno ENOMEM s1)
        else case ocall_int P (U_write fd tmp_buf count) (upd_mem (copy_nonoverlapping buf tmp_buf count) s1) of (result, s2) \<Rightarrow>
               (result, free_tmp P count tmp_buf s2))"

definition libc_pwrite64 ::
  "('w, 'z) libc_ffi_scheme \<Rightarrow> int \<Rightarrow> addr \<Rightarrow> usize \<Rightarrow> int \<Rightarrow> 'w libc_st \<Rightarrow> int \<times> 'w libc_st" where
  "libc_pwrite64 P fd buf count offset s =
     (if bad_buffer P buf count then (- 1, set_errno EINVAL s)
      else case alloc_tmp P count s of (tmp_buf, s1) \<Rightarrow>
        if tmp_buf = 0 then (- 1, set_errno ENOMEM s1)
        else case ocall_int P (U_pwrite64 fd tmp_buf count offset) (upd_mem (copy_nonoverlapping buf tmp_buf count) s1) of (result, s2) \<Rightarrow>
               (result, free_tmp P count tmp_buf s2))"

definition libc_send ::
  "('w, 'z) libc_ffi_scheme \<Rightarrow> int \<Rightarrow> addr \<Rightarrow> usize \<Rightarrow> int \<Rightarrow> 'w libc_st \<Rightarrow> int \<times> 'w libc_st" where
  "libc_send P sockfd buf len flgs s =
     (if bad_buffer P buf len then (- 1, set_errno EINVAL s)
      else case alloc_tmp P len s of (tmp_buf, s1) \<Rightarrow>
        if tmp_buf = 0 then (- 1, set_errno ENOMEM s1)
        else case ocall_int P (U_send sockfd tmp_buf len flgs) (upd_mem (copy_nonoverlapping buf tmp_buf len) s1) of (result, s2) \<Rightarrow>
               (result, free_tmp P len tmp_buf s2))"

definition libc_sendto ::
  "('w, 'z) libc_ffi_scheme \<Rightarrow> int \<Rightarrow> addr \<Rightarrow> usize \<Rightarrow> int \<Rightarrow> addr \<Rightarrow> usize \<Rightarrow> 'w libc_st \<Rightarrow> int \<times> 'w libc_st" where
  "libc_sendto P sockfd buf len flgs addr addrlen s =
     (if bad_buffer P buf len then (- 1, set_errno EINVAL s)
      else case alloc_tmp P len s of (tmp_buf, s1) \<Rightarrow>
        if tmp_buf = 0 then (- 1, set_errno ENOMEM s1)
        else case ocall_int P (U_sendto sockfd tmp_buf len flgs addr addrlen) (upd_mem (copy_nonoverlapping buf tmp_buf len) s1) of (result, s2) \<Rightarrow>
               (result, free_tmp P len tmp_buf s2))"

section \<open>Scattered buffers\<close>

text \<open>The array behind \<^verbatim>\<open>iov\<close>, of \<^verbatim>\<open>iovcnt\<close> entries of 16 bytes, and the loop that checks it and adds the sizes up.\<close>

definition iovec_at :: "mem \<Rightarrow> nat \<Rightarrow> iovec" where
  "iovec_at m a = (dec64 (map m [a..<a + 8]), le_val (map m [a + 8..<a + 16]))"

definition iovecs_at :: "mem \<Rightarrow> addr \<Rightarrow> nat \<Rightarrow> iovec list" where
  "iovecs_at m iov n = map (\<lambda>i. iovec_at m (unat iov + 16 * i)) [0..<n]"

fun iov_total :: "('w, 'z) libc_ffi_scheme \<Rightarrow> usize \<Rightarrow> iovec list \<Rightarrow> usize option" where
  "iov_total P tot [] = Some tot"
| "iov_total P tot ((base, len) # v) =
     (if base \<noteq> 0 \<and> 0 < len \<and> sgx_is_within_enclave P base len \<noteq> 0
      then if tot + len \<le> USIZE_MAX then iov_total P (tot + len) v else None
      else None)"

definition iov_checked :: "('w, 'z) libc_ffi_scheme \<Rightarrow> addr \<Rightarrow> int \<Rightarrow> mem \<Rightarrow> (iovec list \<times> usize) option" where
  "iov_checked P iov iovcnt m =
     (if iov = 0 \<or> iovcnt \<le> 0 \<or> sgx_is_within_enclave P iov (nat iovcnt * 16) = 0 then None
      else let v = iovecs_at m iov (nat iovcnt) in map_option (\<lambda>tot. (v, tot)) (iov_total P 0 v))"

text \<open>The entries of the array handed to the host: consecutive pieces of the buffer.\<close>

fun tmp_iovecs :: "addr \<Rightarrow> iovec list \<Rightarrow> iovec list" where
  "tmp_iovecs p [] = []"
| "tmp_iovecs p ((base, len) # v) = (p, len) # tmp_iovecs (p + word_of_nat len) v"

text \<open>The loop that copies what was read, entry by entry.\<close>

fun scatter :: "iovec list \<Rightarrow> iovec list \<Rightarrow> usize \<Rightarrow> mem \<Rightarrow> mem" where
  "scatter ((tbase, tlen) # tv) ((base, len) # v) remaining m =
     (if remaining = 0 then m
      else scatter tv v (remaining - len) (copy_nonoverlapping tbase base (min len remaining) m))"
| "scatter _ _ remaining m = m"

text \<open>The loop that copies what is to be written.\<close>

fun gather :: "addr \<Rightarrow> iovec list \<Rightarrow> mem \<Rightarrow> mem" where
  "gather p [] m = m"
| "gather p ((base, len) # v) m = gather (p + word_of_nat len) v (copy_nonoverlapping base p len m)"

definition libc_readv :: "('w, 'z) libc_ffi_scheme \<Rightarrow> int \<Rightarrow> addr \<Rightarrow> int \<Rightarrow> 'w libc_st \<Rightarrow> int \<times> 'w libc_st" where
  "libc_readv P fd iov iovcnt s =
     (case iov_checked P iov iovcnt (mem s) of
        None \<Rightarrow> (- 1, set_errno EINVAL s)
      | Some (v, total_size) \<Rightarrow>
          case alloc_tmp P total_size s of (iobase, s1) \<Rightarrow>
          if iobase = 0 then (- 1, set_errno ENOMEM s1)
          else let s2 = upd_mem (mem_store iobase (replicate total_size 0)) s1; tmpiovec = tmp_iovecs iobase v
               in case ocall_int P (U_readv fd tmpiovec iovcnt) s2 of (result, s3) \<Rightarrow>
                    let s4 = (if result \<noteq> - 1 then upd_mem (scatter tmpiovec v (as_usize result)) s3 else s3)
                    in (result, free_tmp P total_size iobase s4))"

definition libc_preadv64 ::
  "('w, 'z) libc_ffi_scheme \<Rightarrow> int \<Rightarrow> addr \<Rightarrow> int \<Rightarrow> int \<Rightarrow> 'w libc_st \<Rightarrow> int \<times> 'w libc_st" where
  "libc_preadv64 P fd iov iovcnt offset s =
     (case iov_checked P iov iovcnt (mem s) of
        None \<Rightarrow> (- 1, set_errno EINVAL s)
      | Some (v, total_size) \<Rightarrow>
          case alloc_tmp P total_size s of (iobase, s1) \<Rightarrow>
          if iobase = 0 then (- 1, set_errno ENOMEM s1)
          else let s2 = upd_mem (mem_store iobase (replicate total_size 0)) s1; tmpiovec = tmp_iovecs iobase v
               in case ocall_int P (U_preadv64 fd tmpiovec iovcnt offset) s2 of (result, s3) \<Rightarrow>
                    let s4 = (if result \<noteq> - 1 then upd_mem (scatter tmpiovec v (as_usize result)) s3 else s3)
                    in (result, free_tmp P total_size iobase s4))"

definition libc_writev :: "('w, 'z) libc_ffi_scheme \<Rightarrow> int \<Rightarrow> addr \<Rightarrow> int \<Rightarrow> 'w libc_st \<Rightarrow> int \<times> 'w libc_st" where
  "libc_writev P fd iov iovcnt s =
     (case iov_checked P iov iovcnt (mem s) of
        None \<Rightarrow> (- 1, set_errno EINVAL s)
      | Some (v, total_size) \<Rightarrow>
          case alloc_tmp P total_size s of (iobase, s1) \<Rightarrow>
          if iobase = 0 then (- 1, set_errno ENOMEM s1)
          else let s2 = upd_mem (gather iobase v) (upd_mem (mem_store iobase (replicate total_size 0)) s1)
               in case ocall_int P (U_writev fd (tmp_iovecs iobase v) iovcnt) s2 of (result, s3) \<Rightarrow>
                    (result, free_tmp P total_size iobase s3))"

definition libc_pwritev64 ::
  "('w, 'z) libc_ffi_scheme \<Rightarrow> int \<Rightarrow> addr \<Rightarrow> int \<Rightarrow> int \<Rightarrow> 'w libc_st \<Rightarrow> int \<times> 'w libc_st" where
  "libc_pwritev64 P fd iov iovcnt offset s =
     (case iov_checked P iov iovcnt (mem s) of
        None \<Rightarrow> (- 1, set_errno EINVAL s)
      | Some (v, total_size) \<Rightarrow>
          case alloc_tmp P total_size s of (iobase, s1) \<Rightarrow>
          if iobase = 0 then (- 1, set_errno ENOMEM s1)
          else let s2 = upd_mem (gather iobase v) (upd_mem (mem_store iobase (replicate total_size 0)) s1)
               in case ocall_int P (U_pwritev64 fd (tmp_iovecs iobase v) iovcnt offset) s2 of (result, s3) \<Rightarrow>
                    (result, free_tmp P total_size iobase s3))"

section \<open>Messages\<close>

record msghdr =
  msg_name :: addr
  msg_namelen :: usize
  msg_iov :: addr
  msg_iovlen :: usize
  msg_control :: addr
  msg_controllen :: usize
  msg_flags :: int

text \<open>A pointer with a length, both dropped unless the pointer is not null and the length positive.\<close>

definition optional_part :: "addr \<Rightarrow> usize \<Rightarrow> addr \<times> usize" where
  "optional_part p n = (if p \<noteq> 0 \<and> 0 < n then (p, n) else (0, 0))"

definition msg_iov_checked :: "('w, 'z) libc_ffi_scheme \<Rightarrow> msghdr \<Rightarrow> mem \<Rightarrow> (iovec list \<times> usize) option" where
  "msg_iov_checked P mhdr m =
     (if msg_iov mhdr \<noteq> 0 \<and> 0 < msg_iovlen mhdr \<and> sgx_is_within_enclave P (msg_iov mhdr) (msg_iovlen mhdr * 16) \<noteq> 0
      then let v = iovecs_at m (msg_iov mhdr) (msg_iovlen mhdr) in map_option (\<lambda>tot. (v, tot)) (iov_total P 0 v)
      else None)"

text \<open>\<open>msg\<close> is the pointer, \<open>mhdr\<close> the header behind it, 56 bytes.\<close>

definition libc_sendmsg ::
  "('w, 'z) libc_ffi_scheme \<Rightarrow> int \<Rightarrow> addr \<Rightarrow> msghdr \<Rightarrow> int \<Rightarrow> 'w libc_st \<Rightarrow> int \<times> 'w libc_st" where
  "libc_sendmsg P sockfd msg mhdr flgs s =
     (if msg = 0 \<or> sgx_is_within_enclave P msg 56 = 0 then (- 1, set_errno EINVAL s)
      else case optional_part (msg_name mhdr) (msg_namelen mhdr) of (name, namelen) \<Rightarrow>
        case msg_iov_checked P mhdr (mem s) of
          None \<Rightarrow> (- 1, set_errno EINVAL s)
        | Some (iovecs, total_size) \<Rightarrow>
            case optional_part (msg_control mhdr) (msg_controllen mhdr) of (control, controllen) \<Rightarrow>
            case libc_malloc P total_size s of (io_base, s1) \<Rightarrow>
            if io_base = 0 then (- 1, set_errno ENOMEM s1)
            else let s2 = upd_mem (gather io_base iovecs) (upd_mem (mem_store io_base (replicate total_size 0)) s1)
                 in case ocall_int P (U_sendmsg sockfd name namelen (tmp_iovecs io_base iovecs) control controllen flgs) s2 of
                      (result, s3) \<Rightarrow> (result, libc_free P io_base s3))"

text \<open>The loop that distributes a received message, which always looks at its first entry.\<close>

fun scatter_msg :: "iovec list \<Rightarrow> iovec list \<Rightarrow> usize \<Rightarrow> mem \<Rightarrow> mem" where
  "scatter_msg ((tbase, tlen) # tv) ((base, len) # v) remaining m =
     (let copy_len = min len remaining; m1 = copy_nonoverlapping tbase base copy_len m
      in if remaining - copy_len = 0 then m1 else scatter_msg tv v (remaining - copy_len) m1)"
| "scatter_msg _ _ remaining m = m"

definition libc_recvmsg ::
  "('w, 'z) libc_ffi_scheme \<Rightarrow> int \<Rightarrow> addr \<Rightarrow> msghdr \<Rightarrow> int \<Rightarrow> 'w libc_st \<Rightarrow> (int \<times> msghdr) \<times> 'w libc_st" where
  "libc_recvmsg P sockfd msg mhdr flgs s =
     (if msg = 0 \<or> sgx_is_within_enclave P msg 56 = 0 then ((- 1, mhdr), set_errno EINVAL s)
      else case optional_part (msg_name mhdr) (msg_namelen mhdr) of (name, namelen) \<Rightarrow>
        case msg_iov_checked P mhdr (mem s) of
          None \<Rightarrow> ((- 1, mhdr), set_errno EINVAL s)
        | Some (iovecs, total_size) \<Rightarrow>
            case optional_part (msg_control mhdr) (msg_controllen mhdr) of (control, controllen) \<Rightarrow>
            case libc_malloc P total_size s of (io_base, s1) \<Rightarrow>
            if io_base = 0 then ((- 1, mhdr), set_errno ENOMEM s1)
            else let s2 = upd_mem (mem_store io_base (replicate total_size 0)) s1; io_data = tmp_iovecs io_base iovecs
                 in case do_ocall P (U_recvmsg sockfd name namelen io_data control controllen flgs) s2 of (r, s3) \<Rightarrow>
                    case check_result r s3 of (result, s4) \<Rightarrow>
                    case (if r_len r > namelen \<or> r_len2 r > controllen then (- 1, set_errno ESGX s4) else (result, s4)) of
                      (result, s5) \<Rightarrow>
                      if 0 \<le> result
                      then ((result, mhdr\<lparr>msg_namelen := r_len r, msg_controllen := r_len2 r, msg_flags := r_flags r\<rparr>),
                            libc_free P io_base (upd_mem (scatter_msg io_data iovecs (min (as_usize result) total_size)) s5))
                      else ((result, mhdr), libc_free P io_base s5))"

section \<open>Lengths chosen by the host\<close>

text \<open>\<^verbatim>\<open>accept\<close> and its like: the length in, the call, the length out. \<open>None\<close> is a null pointer.\<close>

definition ocall_len ::
  "('w, 'z) libc_ffi_scheme \<Rightarrow> (usize \<Rightarrow> ocall) \<Rightarrow> usize option \<Rightarrow> 'w libc_st \<Rightarrow> (int \<times> usize option) \<times> 'w libc_st" where
  "ocall_len P c addrlen s =
     (case do_ocall P (c (case addrlen of Some n \<Rightarrow> n | None \<Rightarrow> 0)) s of (r, s1) \<Rightarrow>
      case check_result r s1 of (result, s2) \<Rightarrow> ((result, map_option (\<lambda>_. r_len r) addrlen), s2))"

definition libc_accept ::
  "('w, 'z) libc_ffi_scheme \<Rightarrow> int \<Rightarrow> addr \<Rightarrow> usize option \<Rightarrow> 'w libc_st \<Rightarrow> (int \<times> usize option) \<times> 'w libc_st" where
  "libc_accept P sockfd addr addrlen = ocall_len P (\<lambda>len_in. U_accept sockfd addr len_in) addrlen"

definition libc_accept4 ::
  "('w, 'z) libc_ffi_scheme \<Rightarrow> int \<Rightarrow> addr \<Rightarrow> usize option \<Rightarrow> int \<Rightarrow> 'w libc_st \<Rightarrow> (int \<times> usize option) \<times> 'w libc_st" where
  "libc_accept4 P sockfd addr addrlen flgs = ocall_len P (\<lambda>len_in. U_accept4 sockfd addr len_in flgs) addrlen"

definition libc_getsockopt ::
  "('w, 'z) libc_ffi_scheme \<Rightarrow> int \<Rightarrow> int \<Rightarrow> int \<Rightarrow> addr \<Rightarrow> usize option \<Rightarrow> 'w libc_st \<Rightarrow> (int \<times> usize option) \<times> 'w libc_st" where
  "libc_getsockopt P sockfd level optname optval optlen = ocall_len P (\<lambda>len_in. U_getsockopt sockfd level optname optval len_in) optlen"

definition libc_getpeername ::
  "('w, 'z) libc_ffi_scheme \<Rightarrow> int \<Rightarrow> addr \<Rightarrow> usize option \<Rightarrow> 'w libc_st \<Rightarrow> (int \<times> usize option) \<times> 'w libc_st" where
  "libc_getpeername P sockfd address addrlen = ocall_len P (\<lambda>len_in. U_getpeername sockfd address len_in) addrlen"

definition libc_getsockname ::
  "('w, 'z) libc_ffi_scheme \<Rightarrow> int \<Rightarrow> addr \<Rightarrow> usize option \<Rightarrow> 'w libc_st \<Rightarrow> (int \<times> usize option) \<times> 'w libc_st" where
  "libc_getsockname P sockfd address addrlen = ocall_len P (\<lambda>len_in. U_getsockname sockfd address len_in) addrlen"

text \<open>\<^verbatim>\<open>getpwuid_r\<close>: the host returns offsets into the buffer, which become pointers; -1 stands for null.\<close>

record passwd =
  pw_name :: u64
  pw_passwd :: u64
  pw_gecos :: u64
  pw_dir :: u64
  pw_shell :: u64

definition pw_pointer :: "addr \<Rightarrow> u64 \<Rightarrow> addr" where
  "pw_pointer buf off = (if off \<noteq> - 1 then buf + off else 0)"

text \<open>The call fills \<^verbatim>\<open>*pwd\<close> with \<open>filled\<close> and \<^verbatim>\<open>*passwd_result\<close> with \<open>ret_ptr\<close>; the result, the structure and \<^verbatim>\<open>*passwd_result\<close>.\<close>

definition getpwuid_r_tail ::
  "sgx_status_t \<Rightarrow> int \<Rightarrow> addr \<Rightarrow> addr \<Rightarrow> passwd \<Rightarrow> addr \<Rightarrow> int \<times> passwd \<times> addr" where
  "getpwuid_r_tail status result pwd buf filled ret_ptr =
     (if status = SGX_SUCCESS \<and> result = 0
      then if ret_ptr \<noteq> 0
           then (result, \<lparr>pw_name = pw_pointer buf (pw_name filled), pw_passwd = pw_pointer buf (pw_passwd filled),
                   pw_gecos = pw_pointer buf (pw_gecos filled), pw_dir = pw_pointer buf (pw_dir filled),
                   pw_shell = pw_pointer buf (pw_shell filled)\<rparr>, pwd)
           else (result, filled, ret_ptr)
      else (if status \<noteq> SGX_SUCCESS then ESGX else result, filled, 0))"

end
