(* ===== verification/Sgx_Ocall_Calls.thy ===== *)
theory Sgx_Ocall_Calls
  imports Sgx_Ocall
begin

text \<open>
  The calls of \<^verbatim>\<open>src/sgx_libc/src/linux/x86_64/ocall.rs\<close> that only pass their arguments on and translate the answer: a failed
  call becomes -1 with \<^verbatim>\<open>ESGX\<close>, the result -1 sets \<^verbatim>\<open>errno\<close> from the host's error. Pointers are passed as they are; what is behind
  them is copied by the generated edge routines.
\<close>

section \<open>Calls that return a number\<close>

definition libc_munmap :: "('w, 'z) libc_ffi_scheme \<Rightarrow> addr \<Rightarrow> usize \<Rightarrow> 'w libc_st \<Rightarrow> int \<times> 'w libc_st" where
  "libc_munmap P start len = ocall_int P (U_call ''u_munmap_ocall'' [APtr start, ASize len])"

definition libc_msync :: "('w, 'z) libc_ffi_scheme \<Rightarrow> addr \<Rightarrow> usize \<Rightarrow> int \<Rightarrow> 'w libc_st \<Rightarrow> int \<times> 'w libc_st" where
  "libc_msync P addr len flgs = ocall_int P (U_call ''u_msync_ocall'' [APtr addr, ASize len, AInt flgs])"

definition libc_mprotect :: "('w, 'z) libc_ffi_scheme \<Rightarrow> addr \<Rightarrow> usize \<Rightarrow> int \<Rightarrow> 'w libc_st \<Rightarrow> int \<times> 'w libc_st" where
  "libc_mprotect P addr len prot = ocall_int P (U_call ''u_mprotect_ocall'' [APtr addr, ASize len, AInt prot])"

definition libc_setenv :: "('w, 'z) libc_ffi_scheme \<Rightarrow> addr \<Rightarrow> addr \<Rightarrow> int \<Rightarrow> 'w libc_st \<Rightarrow> int \<times> 'w libc_st" where
  "libc_setenv P name val overwrite = ocall_int P (U_call ''u_setenv_ocall'' [APtr name, APtr val, AInt overwrite])"

definition libc_unsetenv :: "('w, 'z) libc_ffi_scheme \<Rightarrow> addr \<Rightarrow> 'w libc_st \<Rightarrow> int \<times> 'w libc_st" where
  "libc_unsetenv P name = ocall_int P (U_call ''u_unsetenv_ocall'' [APtr name])"

definition libc_chdir :: "('w, 'z) libc_ffi_scheme \<Rightarrow> addr \<Rightarrow> 'w libc_st \<Rightarrow> int \<times> 'w libc_st" where
  "libc_chdir P dir = ocall_int P (U_call ''u_chdir_ocall'' [APtr dir])"

definition libc_open :: "('w, 'z) libc_ffi_scheme \<Rightarrow> addr \<Rightarrow> int \<Rightarrow> 'w libc_st \<Rightarrow> int \<times> 'w libc_st" where
  "libc_open P path flgs = ocall_int P (U_call ''u_open_ocall'' [APtr path, AInt flgs])"

definition libc_open64 :: "('w, 'z) libc_ffi_scheme \<Rightarrow> addr \<Rightarrow> int \<Rightarrow> int \<Rightarrow> 'w libc_st \<Rightarrow> int \<times> 'w libc_st" where
  "libc_open64 P path oflag mode = ocall_int P (U_call ''u_open64_ocall'' [APtr path, AInt oflag, AInt mode])"

definition libc_openat :: "('w, 'z) libc_ffi_scheme \<Rightarrow> int \<Rightarrow> addr \<Rightarrow> int \<Rightarrow> 'w libc_st \<Rightarrow> int \<times> 'w libc_st" where
  "libc_openat P dirfd pathname flgs = ocall_int P (U_call ''u_openat_ocall'' [AInt dirfd, APtr pathname, AInt flgs])"

definition libc_fstat :: "('w, 'z) libc_ffi_scheme \<Rightarrow> int \<Rightarrow> addr \<Rightarrow> 'w libc_st \<Rightarrow> int \<times> 'w libc_st" where
  "libc_fstat P fd buf = ocall_int P (U_call ''u_fstat_ocall'' [AInt fd, APtr buf])"

definition libc_fstat64 :: "('w, 'z) libc_ffi_scheme \<Rightarrow> int \<Rightarrow> addr \<Rightarrow> 'w libc_st \<Rightarrow> int \<times> 'w libc_st" where
  "libc_fstat64 P fd buf = ocall_int P (U_call ''u_fstat64_ocall'' [AInt fd, APtr buf])"

definition libc_stat :: "('w, 'z) libc_ffi_scheme \<Rightarrow> addr \<Rightarrow> addr \<Rightarrow> 'w libc_st \<Rightarrow> int \<times> 'w libc_st" where
  "libc_stat P path buf = ocall_int P (U_call ''u_stat_ocall'' [APtr path, APtr buf])"

definition libc_stat64 :: "('w, 'z) libc_ffi_scheme \<Rightarrow> addr \<Rightarrow> addr \<Rightarrow> 'w libc_st \<Rightarrow> int \<times> 'w libc_st" where
  "libc_stat64 P path buf = ocall_int P (U_call ''u_stat64_ocall'' [APtr path, APtr buf])"

definition libc_lstat :: "('w, 'z) libc_ffi_scheme \<Rightarrow> addr \<Rightarrow> addr \<Rightarrow> 'w libc_st \<Rightarrow> int \<times> 'w libc_st" where
  "libc_lstat P path buf = ocall_int P (U_call ''u_lstat_ocall'' [APtr path, APtr buf])"

definition libc_lstat64 :: "('w, 'z) libc_ffi_scheme \<Rightarrow> addr \<Rightarrow> addr \<Rightarrow> 'w libc_st \<Rightarrow> int \<times> 'w libc_st" where
  "libc_lstat64 P path buf = ocall_int P (U_call ''u_lstat64_ocall'' [APtr path, APtr buf])"

definition libc_lseek :: "('w, 'z) libc_ffi_scheme \<Rightarrow> int \<Rightarrow> int \<Rightarrow> int \<Rightarrow> 'w libc_st \<Rightarrow> int \<times> 'w libc_st" where
  "libc_lseek P fd offset whence = ocall_int P (U_call ''u_lseek_ocall'' [AInt fd, AInt offset, AInt whence])"

definition libc_lseek64 :: "('w, 'z) libc_ffi_scheme \<Rightarrow> int \<Rightarrow> int \<Rightarrow> int \<Rightarrow> 'w libc_st \<Rightarrow> int \<times> 'w libc_st" where
  "libc_lseek64 P fd offset whence = ocall_int P (U_call ''u_lseek64_ocall'' [AInt fd, AInt offset, AInt whence])"

definition libc_ftruncate :: "('w, 'z) libc_ffi_scheme \<Rightarrow> int \<Rightarrow> int \<Rightarrow> 'w libc_st \<Rightarrow> int \<times> 'w libc_st" where
  "libc_ftruncate P fd len = ocall_int P (U_call ''u_ftruncate_ocall'' [AInt fd, AInt len])"

definition libc_ftruncate64 :: "('w, 'z) libc_ffi_scheme \<Rightarrow> int \<Rightarrow> int \<Rightarrow> 'w libc_st \<Rightarrow> int \<times> 'w libc_st" where
  "libc_ftruncate64 P fd len = ocall_int P (U_call ''u_ftruncate64_ocall'' [AInt fd, AInt len])"

definition libc_truncate :: "('w, 'z) libc_ffi_scheme \<Rightarrow> addr \<Rightarrow> int \<Rightarrow> 'w libc_st \<Rightarrow> int \<times> 'w libc_st" where
  "libc_truncate P path len = ocall_int P (U_call ''u_truncate_ocall'' [APtr path, AInt len])"

definition libc_truncate64 :: "('w, 'z) libc_ffi_scheme \<Rightarrow> addr \<Rightarrow> int \<Rightarrow> 'w libc_st \<Rightarrow> int \<times> 'w libc_st" where
  "libc_truncate64 P path len = ocall_int P (U_call ''u_truncate64_ocall'' [APtr path, AInt len])"

definition libc_fsync :: "('w, 'z) libc_ffi_scheme \<Rightarrow> int \<Rightarrow> 'w libc_st \<Rightarrow> int \<times> 'w libc_st" where
  "libc_fsync P fd = ocall_int P (U_call ''u_fsync_ocall'' [AInt fd])"

definition libc_fdatasync :: "('w, 'z) libc_ffi_scheme \<Rightarrow> int \<Rightarrow> 'w libc_st \<Rightarrow> int \<times> 'w libc_st" where
  "libc_fdatasync P fd = ocall_int P (U_call ''u_fdatasync_ocall'' [AInt fd])"

definition libc_fchmod :: "('w, 'z) libc_ffi_scheme \<Rightarrow> int \<Rightarrow> int \<Rightarrow> 'w libc_st \<Rightarrow> int \<times> 'w libc_st" where
  "libc_fchmod P fd mode = ocall_int P (U_call ''u_fchmod_ocall'' [AInt fd, AInt mode])"

definition libc_unlink :: "('w, 'z) libc_ffi_scheme \<Rightarrow> addr \<Rightarrow> 'w libc_st \<Rightarrow> int \<times> 'w libc_st" where
  "libc_unlink P pathname = ocall_int P (U_call ''u_unlink_ocall'' [APtr pathname])"

definition libc_link :: "('w, 'z) libc_ffi_scheme \<Rightarrow> addr \<Rightarrow> addr \<Rightarrow> 'w libc_st \<Rightarrow> int \<times> 'w libc_st" where
  "libc_link P oldpath newpath = ocall_int P (U_call ''u_link_ocall'' [APtr oldpath, APtr newpath])"

definition libc_unlinkat :: "('w, 'z) libc_ffi_scheme \<Rightarrow> int \<Rightarrow> addr \<Rightarrow> int \<Rightarrow> 'w libc_st \<Rightarrow> int \<times> 'w libc_st" where
  "libc_unlinkat P dirfd pathname flgs = ocall_int P (U_call ''u_unlinkat_ocall'' [AInt dirfd, APtr pathname, AInt flgs])"

definition libc_linkat :: "('w, 'z) libc_ffi_scheme \<Rightarrow> int \<Rightarrow> addr \<Rightarrow> int \<Rightarrow> addr \<Rightarrow> int \<Rightarrow> 'w libc_st \<Rightarrow> int \<times> 'w libc_st" where
  "libc_linkat P olddirfd oldpath newdirfd newpath flgs = ocall_int P (U_call ''u_linkat_ocall'' [AInt olddirfd, APtr oldpath, AInt newdirfd, APtr newpath, AInt flgs])"

definition libc_rename :: "('w, 'z) libc_ffi_scheme \<Rightarrow> addr \<Rightarrow> addr \<Rightarrow> 'w libc_st \<Rightarrow> int \<times> 'w libc_st" where
  "libc_rename P oldpath newpath = ocall_int P (U_call ''u_rename_ocall'' [APtr oldpath, APtr newpath])"

definition libc_chmod :: "('w, 'z) libc_ffi_scheme \<Rightarrow> addr \<Rightarrow> int \<Rightarrow> 'w libc_st \<Rightarrow> int \<times> 'w libc_st" where
  "libc_chmod P path mode = ocall_int P (U_call ''u_chmod_ocall'' [APtr path, AInt mode])"

definition libc_readlink :: "('w, 'z) libc_ffi_scheme \<Rightarrow> addr \<Rightarrow> addr \<Rightarrow> usize \<Rightarrow> 'w libc_st \<Rightarrow> int \<times> 'w libc_st" where
  "libc_readlink P path buf bufsz = ocall_int P (U_call ''u_readlink_ocall'' [APtr path, APtr buf, ASize bufsz])"

definition libc_symlink :: "('w, 'z) libc_ffi_scheme \<Rightarrow> addr \<Rightarrow> addr \<Rightarrow> 'w libc_st \<Rightarrow> int \<times> 'w libc_st" where
  "libc_symlink P path1 path2 = ocall_int P (U_call ''u_symlink_ocall'' [APtr path1, APtr path2])"

definition libc_mkdir :: "('w, 'z) libc_ffi_scheme \<Rightarrow> addr \<Rightarrow> int \<Rightarrow> 'w libc_st \<Rightarrow> int \<times> 'w libc_st" where
  "libc_mkdir P pathname mode = ocall_int P (U_call ''u_mkdir_ocall'' [APtr pathname, AInt mode])"

definition libc_rmdir :: "('w, 'z) libc_ffi_scheme \<Rightarrow> addr \<Rightarrow> 'w libc_st \<Rightarrow> int \<times> 'w libc_st" where
  "libc_rmdir P pathname = ocall_int P (U_call ''u_rmdir_ocall'' [APtr pathname])"

definition libc_closedir :: "('w, 'z) libc_ffi_scheme \<Rightarrow> addr \<Rightarrow> 'w libc_st \<Rightarrow> int \<times> 'w libc_st" where
  "libc_closedir P dirp = ocall_int P (U_call ''u_closedir_ocall'' [APtr dirp])"

definition libc_dirfd :: "('w, 'z) libc_ffi_scheme \<Rightarrow> addr \<Rightarrow> 'w libc_st \<Rightarrow> int \<times> 'w libc_st" where
  "libc_dirfd P dirp = ocall_int P (U_call ''u_dirfd_ocall'' [APtr dirp])"

definition libc_fstatat64 :: "('w, 'z) libc_ffi_scheme \<Rightarrow> int \<Rightarrow> addr \<Rightarrow> addr \<Rightarrow> int \<Rightarrow> 'w libc_st \<Rightarrow> int \<times> 'w libc_st" where
  "libc_fstatat64 P dirfd pathname buf flgs = ocall_int P (U_call ''u_fstatat64_ocall'' [AInt dirfd, APtr pathname, APtr buf, AInt flgs])"

definition libc_fcntl_arg0 :: "('w, 'z) libc_ffi_scheme \<Rightarrow> int \<Rightarrow> int \<Rightarrow> 'w libc_st \<Rightarrow> int \<times> 'w libc_st" where
  "libc_fcntl_arg0 P fd cmd = ocall_int P (U_call ''u_fcntl_arg0_ocall'' [AInt fd, AInt cmd])"

definition libc_fcntl_arg1 :: "('w, 'z) libc_ffi_scheme \<Rightarrow> int \<Rightarrow> int \<Rightarrow> int \<Rightarrow> 'w libc_st \<Rightarrow> int \<times> 'w libc_st" where
  "libc_fcntl_arg1 P fd cmd arg = ocall_int P (U_call ''u_fcntl_arg1_ocall'' [AInt fd, AInt cmd, AInt arg])"

definition libc_ioctl_arg0 :: "('w, 'z) libc_ffi_scheme \<Rightarrow> int \<Rightarrow> int \<Rightarrow> 'w libc_st \<Rightarrow> int \<times> 'w libc_st" where
  "libc_ioctl_arg0 P fd request = ocall_int P (U_call ''u_ioctl_arg0_ocall'' [AInt fd, AInt request])"

definition libc_ioctl_arg1 :: "('w, 'z) libc_ffi_scheme \<Rightarrow> int \<Rightarrow> int \<Rightarrow> addr \<Rightarrow> 'w libc_st \<Rightarrow> int \<times> 'w libc_st" where
  "libc_ioctl_arg1 P fd request arg = ocall_int P (U_call ''u_ioctl_arg1_ocall'' [AInt fd, AInt request, APtr arg])"

definition libc_close :: "('w, 'z) libc_ffi_scheme \<Rightarrow> int \<Rightarrow> 'w libc_st \<Rightarrow> int \<times> 'w libc_st" where
  "libc_close P fd = ocall_int P (U_call ''u_close_ocall'' [AInt fd])"

definition libc_clock_gettime :: "('w, 'z) libc_ffi_scheme \<Rightarrow> int \<Rightarrow> addr \<Rightarrow> 'w libc_st \<Rightarrow> int \<times> 'w libc_st" where
  "libc_clock_gettime P clk_id tp = ocall_int P (U_call ''u_clock_gettime_ocall'' [AInt clk_id, APtr tp])"

definition libc_socket :: "('w, 'z) libc_ffi_scheme \<Rightarrow> int \<Rightarrow> int \<Rightarrow> int \<Rightarrow> 'w libc_st \<Rightarrow> int \<times> 'w libc_st" where
  "libc_socket P dom1 ty protocol = ocall_int P (U_call ''u_socket_ocall'' [AInt dom1, AInt ty, AInt protocol])"

definition libc_socketpair :: "('w, 'z) libc_ffi_scheme \<Rightarrow> int \<Rightarrow> int \<Rightarrow> int \<Rightarrow> addr \<Rightarrow> 'w libc_st \<Rightarrow> int \<times> 'w libc_st" where
  "libc_socketpair P dom1 ty protocol sv = ocall_int P (U_call ''u_socketpair_ocall'' [AInt dom1, AInt ty, AInt protocol, APtr sv])"

definition libc_bind :: "('w, 'z) libc_ffi_scheme \<Rightarrow> int \<Rightarrow> addr \<Rightarrow> int \<Rightarrow> 'w libc_st \<Rightarrow> int \<times> 'w libc_st" where
  "libc_bind P sockfd address addrlen = ocall_int P (U_call ''u_bind_ocall'' [AInt sockfd, APtr address, AInt addrlen])"

definition libc_listen :: "('w, 'z) libc_ffi_scheme \<Rightarrow> int \<Rightarrow> int \<Rightarrow> 'w libc_st \<Rightarrow> int \<times> 'w libc_st" where
  "libc_listen P sockfd backlog = ocall_int P (U_call ''u_listen_ocall'' [AInt sockfd, AInt backlog])"

definition libc_connect :: "('w, 'z) libc_ffi_scheme \<Rightarrow> int \<Rightarrow> addr \<Rightarrow> int \<Rightarrow> 'w libc_st \<Rightarrow> int \<times> 'w libc_st" where
  "libc_connect P sockfd address addrlen = ocall_int P (U_call ''u_connect_ocall'' [AInt sockfd, APtr address, AInt addrlen])"

definition libc_setsockopt :: "('w, 'z) libc_ffi_scheme \<Rightarrow> int \<Rightarrow> int \<Rightarrow> int \<Rightarrow> addr \<Rightarrow> int \<Rightarrow> 'w libc_st \<Rightarrow> int \<times> 'w libc_st" where
  "libc_setsockopt P sockfd level optname optval optlen = ocall_int P (U_call ''u_setsockopt_ocall'' [AInt sockfd, AInt level, AInt optname, APtr optval, AInt optlen])"

definition libc_shutdown :: "('w, 'z) libc_ffi_scheme \<Rightarrow> int \<Rightarrow> int \<Rightarrow> 'w libc_st \<Rightarrow> int \<times> 'w libc_st" where
  "libc_shutdown P sockfd how = ocall_int P (U_call ''u_shutdown_ocall'' [AInt sockfd, AInt how])"

definition libc_poll :: "('w, 'z) libc_ffi_scheme \<Rightarrow> addr \<Rightarrow> int \<Rightarrow> int \<Rightarrow> 'w libc_st \<Rightarrow> int \<times> 'w libc_st" where
  "libc_poll P fds nfds timeout = ocall_int P (U_call ''u_poll_ocall'' [APtr fds, AInt nfds, AInt timeout])"

definition libc_epoll_create1 :: "('w, 'z) libc_ffi_scheme \<Rightarrow> int \<Rightarrow> 'w libc_st \<Rightarrow> int \<times> 'w libc_st" where
  "libc_epoll_create1 P flgs = ocall_int P (U_call ''u_epoll_create1_ocall'' [AInt flgs])"

definition libc_epoll_ctl :: "('w, 'z) libc_ffi_scheme \<Rightarrow> int \<Rightarrow> int \<Rightarrow> int \<Rightarrow> addr \<Rightarrow> 'w libc_st \<Rightarrow> int \<times> 'w libc_st" where
  "libc_epoll_ctl P epfd op1 fd event = ocall_int P (U_call ''u_epoll_ctl_ocall'' [AInt epfd, AInt op1, AInt fd, APtr event])"

definition libc_epoll_wait :: "('w, 'z) libc_ffi_scheme \<Rightarrow> int \<Rightarrow> addr \<Rightarrow> int \<Rightarrow> int \<Rightarrow> 'w libc_st \<Rightarrow> int \<times> 'w libc_st" where
  "libc_epoll_wait P epfd events maxevents timeout = ocall_int P (U_call ''u_epoll_wait_ocall'' [AInt epfd, APtr events, AInt maxevents, AInt timeout])"

definition libc_sysconf :: "('w, 'z) libc_ffi_scheme \<Rightarrow> int \<Rightarrow> 'w libc_st \<Rightarrow> int \<times> 'w libc_st" where
  "libc_sysconf P name = ocall_int P (U_call ''u_sysconf_ocall'' [AInt name])"

definition libc_prctl :: "('w, 'z) libc_ffi_scheme \<Rightarrow> int \<Rightarrow> int \<Rightarrow> int \<Rightarrow> int \<Rightarrow> int \<Rightarrow> 'w libc_st \<Rightarrow> int \<times> 'w libc_st" where
  "libc_prctl P option1 arg2 arg3 arg4 arg5 = ocall_int P (U_call ''u_prctl_ocall'' [AInt option1, AInt arg2, AInt arg3, AInt arg4, AInt arg5])"

definition libc_sched_setaffinity :: "('w, 'z) libc_ffi_scheme \<Rightarrow> int \<Rightarrow> usize \<Rightarrow> addr \<Rightarrow> 'w libc_st \<Rightarrow> int \<times> 'w libc_st" where
  "libc_sched_setaffinity P pid cpusetsize cpu_mask = ocall_int P (U_call ''u_sched_setaffinity_ocall'' [AInt pid, ASize cpusetsize, APtr cpu_mask])"

definition libc_sched_getaffinity :: "('w, 'z) libc_ffi_scheme \<Rightarrow> int \<Rightarrow> usize \<Rightarrow> addr \<Rightarrow> 'w libc_st \<Rightarrow> int \<times> 'w libc_st" where
  "libc_sched_getaffinity P pid cpusetsize cpu_mask = ocall_int P (U_call ''u_sched_getaffinity_ocall'' [AInt pid, ASize cpusetsize, APtr cpu_mask])"

definition libc_pipe :: "('w, 'z) libc_ffi_scheme \<Rightarrow> addr \<Rightarrow> 'w libc_st \<Rightarrow> int \<times> 'w libc_st" where
  "libc_pipe P fds = ocall_int P (U_call ''u_pipe_ocall'' [APtr fds])"

definition libc_pipe2 :: "('w, 'z) libc_ffi_scheme \<Rightarrow> addr \<Rightarrow> int \<Rightarrow> 'w libc_st \<Rightarrow> int \<times> 'w libc_st" where
  "libc_pipe2 P fds flgs = ocall_int P (U_call ''u_pipe2_ocall'' [APtr fds, AInt flgs])"

definition libc_sched_yield :: "('w, 'z) libc_ffi_scheme \<Rightarrow> 'w libc_st \<Rightarrow> int \<times> 'w libc_st" where
  "libc_sched_yield P = ocall_int P (U_call ''u_sched_yield_ocall'' [])"

definition libc_nanosleep :: "('w, 'z) libc_ffi_scheme \<Rightarrow> addr \<Rightarrow> addr \<Rightarrow> 'w libc_st \<Rightarrow> int \<times> 'w libc_st" where
  "libc_nanosleep P rqtp rmtp = ocall_int P (U_call ''u_nanosleep_ocall'' [APtr rqtp, APtr rmtp])"

definition libc_sigaction :: "('w, 'z) libc_ffi_scheme \<Rightarrow> int \<Rightarrow> addr \<Rightarrow> addr \<Rightarrow> int \<Rightarrow> 'w libc_st \<Rightarrow> int \<times> 'w libc_st" where
  "libc_sigaction P signum act oldact enclave_id = ocall_int P (U_call ''u_sigaction_ocall'' [AInt signum, APtr act, APtr oldact, AInt enclave_id])"

definition libc_sigprocmask :: "('w, 'z) libc_ffi_scheme \<Rightarrow> int \<Rightarrow> addr \<Rightarrow> addr \<Rightarrow> 'w libc_st \<Rightarrow> int \<times> 'w libc_st" where
  "libc_sigprocmask P signum sigs oldset = ocall_int P (U_call ''u_sigprocmask_ocall'' [AInt signum, APtr sigs, APtr oldset])"

text \<open>\<^verbatim>\<open>pthread_sigmask\<close> is \<^verbatim>\<open>sigprocmask\<close>.\<close>

definition libc_pthread_sigmask ::
  "('w, 'z) libc_ffi_scheme \<Rightarrow> int \<Rightarrow> addr \<Rightarrow> addr \<Rightarrow> 'w libc_st \<Rightarrow> int \<times> 'w libc_st" where
  "libc_pthread_sigmask P signum sigs oldset = libc_sigprocmask P signum sigs oldset"

section \<open>Calls with another convention\<close>

definition libc_getuid :: "('w, 'z) libc_ffi_scheme \<Rightarrow> 'w libc_st \<Rightarrow> int \<times> 'w libc_st" where
  "libc_getuid P s =
     (case do_ocall P (U_call ''u_getuid_ocall'' []) s of (r, s1) \<Rightarrow>
        if r_status r \<noteq> SGX_SUCCESS then (0, set_errno ESGX s1) else (r_result r, s1))"

definition libc_getpid :: "('w, 'z) libc_ffi_scheme \<Rightarrow> 'w libc_st \<Rightarrow> int \<times> 'w libc_st" where
  "libc_getpid P s =
     (case do_ocall P (U_call ''u_getpid_ocall'' []) s of (r, s1) \<Rightarrow>
        (if r_status r \<noteq> SGX_SUCCESS then - 1 else r_result r, s1))"

definition libc_raise :: "('w, 'z) libc_ffi_scheme \<Rightarrow> int \<Rightarrow> 'w libc_st \<Rightarrow> int \<times> 'w libc_st" where
  "libc_raise P signum s =
     (case do_ocall P (U_call ''u_raise_ocall'' [AInt signum]) s of (r, s1) \<Rightarrow>
        (if r_status r \<noteq> SGX_SUCCESS then - 1 else r_result r, s1))"

definition ocall_dir :: "('w, 'z) libc_ffi_scheme \<Rightarrow> ocall \<Rightarrow> 'w libc_st \<Rightarrow> addr \<times> 'w libc_st" where
  "ocall_dir P c s =
     (case do_ocall P c s of (r, s1) \<Rightarrow>
        if r_status r = SGX_SUCCESS then (r_ptr r, if r_ptr r = 0 then set_errno (r_error r) s1 else s1)
        else (0, set_errno ESGX s1))"

definition libc_fdopendir :: "('w, 'z) libc_ffi_scheme \<Rightarrow> int \<Rightarrow> 'w libc_st \<Rightarrow> addr \<times> 'w libc_st" where
  "libc_fdopendir P fd = ocall_dir P (U_call ''u_fdopendir_ocall'' [AInt fd])"

definition libc_opendir :: "('w, 'z) libc_ffi_scheme \<Rightarrow> addr \<Rightarrow> 'w libc_st \<Rightarrow> addr \<times> 'w libc_st" where
  "libc_opendir P pathname = ocall_dir P (U_call ''u_opendir_ocall'' [APtr pathname])"

text \<open>The result, and what is put into \<^verbatim>\<open>*dirresult\<close>; the host's pointer is replaced by the caller's entry.\<close>

definition libc_readdir64_r ::
  "('w, 'z) libc_ffi_scheme \<Rightarrow> addr \<Rightarrow> addr \<Rightarrow> 'w libc_st \<Rightarrow> (int \<times> addr) \<times> 'w libc_st" where
  "libc_readdir64_r P dirp entry s =
     (case do_ocall P (U_call ''u_readdir64_r_ocall'' [APtr dirp, APtr entry]) s of (r, s1) \<Rightarrow>
        if r_status r = SGX_SUCCESS \<and> r_result r = 0
        then ((r_result r, if r_ptr r \<noteq> 0 then entry else r_ptr r), s1)
        else ((if r_status r \<noteq> SGX_SUCCESS then ESGX else r_result r, 0), s1))"

definition libc_gai_strerror :: "('w, 'z) libc_ffi_scheme \<Rightarrow> int \<Rightarrow> 'w libc_st \<Rightarrow> addr \<times> 'w libc_st" where
  "libc_gai_strerror P errcode s =
     (case do_ocall P (U_call ''u_gai_strerror_ocall'' [AInt errcode]) s of (r, s1) \<Rightarrow>
        if r_status r \<noteq> SGX_SUCCESS then (0, set_errno ESGX s1) else (r_ptr r, s1))"

end
