(* ===== verification/Sgx_Ocall_Proofs.thy ===== *)
theory Sgx_Ocall_Proofs
  imports Sgx_Ocall_Calls
begin

text \<open>
  What the calls out of the enclave guarantee against a host that answers as it likes: the memory of the enclave changes only inside the
  buffers of the caller, no buffer in untrusted memory is leaked, and a pointer to memory of the host is checked to be outside of
  the enclave. What they do not check: the number of bytes the host says it has read, the lengths of addresses, and the
  offsets of \<^verbatim>\<open>getpwuid_r\<close>.
\<close>

section \<open>The platform\<close>

text \<open>Where the edge routine of a call may write into the enclave; nothing is said of the calls without data.\<close>

fun edl_out :: "ocall \<Rightarrow> nat set" where
  "edl_out (U_call n args) = UNIV"
| "edl_out (U_recvfrom fd p n flgs addr len_in) = addr_range addr len_in"
| "edl_out (U_recvmsg fd name namelen v control controllen flgs) = addr_range name namelen \<union> addr_range control controllen"
| "edl_out (U_accept fd addr len_in) = addr_range addr len_in"
| "edl_out (U_accept4 fd addr len_in flgs) = addr_range addr len_in"
| "edl_out (U_getsockopt fd level name val len_in) = addr_range val len_in"
| "edl_out (U_getpeername fd addr len_in) = addr_range addr len_in"
| "edl_out (U_getsockname fd addr len_in) = addr_range addr len_in"
| "edl_out _ = {}"

text \<open>
  \<open>E\<close> is the memory of the enclave. The checks of the trusted runtime are right, the host's stack is outside of
  the enclave, and the host cannot write into the enclave.
\<close>

definition platform_ok :: "nat set \<Rightarrow> ('w, 'z) libc_ffi_scheme \<Rightarrow> bool" where
  "platform_ok E P \<longleftrightarrow>
     (\<forall>p n. sgx_is_within_enclave P p n \<noteq> 0 \<longrightarrow> addr_range p n \<subseteq> E) \<and>
     (\<forall>p n. sgx_is_outside_enclave P p n \<noteq> 0 \<longrightarrow> addr_range p n \<inter> E = {} \<and> unat p + n \<le> 2 ^ 64) \<and>
     (\<forall>n w p w'. sgx_ocalloc P n w = (p, w') \<longrightarrow> p \<noteq> 0 \<longrightarrow> addr_range p n \<inter> E = {} \<and> unat p + n \<le> 2 ^ 64) \<and>
     (\<forall>c m w r w'. u_ocall P c m w = (r, w') \<longrightarrow> (\<forall>a \<in> E - edl_out c. r_mem r a = m a))"

lemma platform_okD:
  assumes "platform_ok E P"
  shows "sgx_is_within_enclave P p n \<noteq> 0 \<Longrightarrow> addr_range p n \<subseteq> E"
    and "sgx_is_outside_enclave P p n \<noteq> 0 \<Longrightarrow> addr_range p n \<inter> E = {} \<and> unat p + n \<le> 2 ^ 64"
    and "sgx_ocalloc P n w = (p, w') \<Longrightarrow> p \<noteq> 0 \<Longrightarrow> addr_range p n \<inter> E = {} \<and> unat p + n \<le> 2 ^ 64"
    and "u_ocall P c m w = (r, w') \<Longrightarrow> a \<in> E \<Longrightarrow> a \<notin> edl_out c \<Longrightarrow> r_mem r a = m a"
  using assms unfolding platform_ok_def by blast+

section \<open>Confinement\<close>

text \<open>Of the enclave only the addresses in \<open>A\<close> change, and the buffers owned are the same.\<close>

definition confined :: "nat set \<Rightarrow> nat set \<Rightarrow> 'w libc_st \<Rightarrow> 'w libc_st \<Rightarrow> bool" where
  "confined E A s s' \<longleftrightarrow> (\<forall>a \<in> E - A. mem s' a = mem s a)"

lemma confined_refl [simp]: "confined E A s s"
  by (simp add: confined_def)

lemma confined_trans: "confined E A s s1 \<Longrightarrow> confined E A s1 s2 \<Longrightarrow> confined E A s s2"
  by (simp add: confined_def)

lemma confined_mono: "confined E A s s' \<Longrightarrow> A \<subseteq> B \<Longrightarrow> confined E B s s'"
  by (auto simp: confined_def)

lemma confined_fields [simp]:
  "confined E A s (set_errno e s') = confined E A s s'" "confined E A s (s'\<lparr>owned := b\<rparr>) = confined E A s s'"
  "confined E A s (s'\<lparr>world := w\<rparr>) = confined E A s s'"
  "confined E A (set_errno e s) s' = confined E A s s'"
  by (simp_all add: confined_def set_errno_def)

lemma mem_set_errno [simp]: "mem (set_errno e s) = mem s" "owned (set_errno e s) = owned s" "world (set_errno e s) = world s"
  by (simp_all add: set_errno_def)

lemma owned_upd_mem [simp]: "owned (upd_mem f s) = owned s" "mem (upd_mem f s) = f (mem s)"
  by (simp_all add: upd_mem_def)

lemma mem_store_other: "a \<notin> addr_range p (length bs) \<Longrightarrow> mem_store p bs m a = m a"
  by (auto simp: mem_store_def addr_range_def)

lemma length_mem_load [simp]: "length (mem_load p n m) = n"
  by (simp add: mem_load_def)

lemma copy_other: "a \<notin> addr_range q n \<Longrightarrow> copy_nonoverlapping p q n m a = m a"
  by (simp add: copy_nonoverlapping_def mem_store_other)

lemma confined_upd_mem:
  assumes "\<And>m a. a \<in> E \<Longrightarrow> a \<notin> A \<Longrightarrow> f m a = m a"
  shows "confined E A s (upd_mem f s)"
  using assms by (simp add: confined_def upd_mem_def)

lemma confined_store:
  "addr_range p (length bs) \<inter> E \<subseteq> A \<Longrightarrow> confined E A s (upd_mem (mem_store p bs) s)"
  by (rule confined_upd_mem) (auto intro!: mem_store_other)

lemma confined_copy:
  "addr_range q n \<inter> E \<subseteq> A \<Longrightarrow> confined E A s (upd_mem (copy_nonoverlapping p q n) s)"
  by (rule confined_upd_mem) (auto intro!: copy_other)

lemma do_ocall_confined:
  assumes "platform_ok E P" and "do_ocall P c s = (r, s1)"
  shows "confined E (edl_out c) s s1" and "owned s1 = owned s"
proof -
  obtain w where w: "u_ocall P c (mem s) (world s) = (r, w)" "s1 = s\<lparr>mem := r_mem r, world := w\<rparr>"
    using assms(2) by (auto simp: do_ocall_def split: prod.splits)
  then show "confined E (edl_out c) s s1" using platform_okD(4) [OF assms(1) w(1)] by (simp add: confined_def)
  show "owned s1 = owned s" using w(2) by simp
qed

lemma check_result_state:
  assumes "check_result r s = (res, s')"
  shows "mem s' = mem s" and "owned s' = owned s" and "world s' = world s"
  using assms by (auto simp: check_result_def split: if_splits)

lemma ocall_int_confined:
  assumes "platform_ok E P" and "ocall_int P c s = (res, s')"
  shows "confined E (edl_out c) s s'" and "owned s' = owned s"
proof -
  obtain r s1 where d: "do_ocall P c s = (r, s1)" "check_result r s1 = (res, s')"
    using assms(2) by (auto simp: ocall_int_def split: prod.splits)
  show "confined E (edl_out c) s s'" and "owned s' = owned s"
    using do_ocall_confined [OF assms(1) d(1)] check_result_state [OF d(2)] by (simp_all add: confined_def)
qed

section \<open>Buffers in untrusted memory\<close>

lemma libc_malloc_ok:
  assumes "platform_ok E P" and "libc_malloc P n s = (p, s')"
  shows "confined E {} s s'" and "p \<noteq> 0 \<Longrightarrow> addr_range p n \<inter> E = {} \<and> unat p + n \<le> 2 ^ 64"
    and "owned s' = (if p = 0 then owned s else Malloced p # owned s)"
proof -
  obtain r s1 where d: "do_ocall P (U_malloc n) s = (r, s1)" by (cases "do_ocall P (U_malloc n) s")
  note c = do_ocall_confined [OF assms(1) d]
  show "confined E {} s s'" using assms(2) c(1) d by (auto simp: libc_malloc_def split: if_splits)
  show "owned s' = (if p = 0 then owned s else Malloced p # owned s)"
    using assms(2) c(2) d by (auto simp: libc_malloc_def split: if_splits)
  show "addr_range p n \<inter> E = {} \<and> unat p + n \<le> 2 ^ 64" if "p \<noteq> 0"
    using assms(2) that d platform_okD(2) [OF assms(1), of p n] by (auto simp: libc_malloc_def split: if_splits)
qed

lemma libc_free_ok:
  assumes "platform_ok E P"
  shows "confined E {} s (libc_free P p s)" and "owned (libc_free P p s) = remove1 (Malloced p) (owned s)"
  using do_ocall_confined [OF assms, of "U_free p" s] by (auto simp: libc_free_def split: prod.splits)

definition tmp_buffer :: "usize \<Rightarrow> addr \<Rightarrow> buffer" where
  "tmp_buffer n p = (if n \<le> MAX_OCALL_ALLOC_SIZE then Ocalloced else Malloced p)"

lemma alloc_tmp_ok:
  assumes "platform_ok E P" and "alloc_tmp P n s = (p, s')"
  shows "confined E {} s s'" and "p \<noteq> 0 \<Longrightarrow> addr_range p n \<inter> E = {} \<and> unat p + n \<le> 2 ^ 64"
    and "owned s' = (if p = 0 then owned s else tmp_buffer n p # owned s)"
proof -
  have "confined E {} s s' \<and> (p \<noteq> 0 \<longrightarrow> addr_range p n \<inter> E = {} \<and> unat p + n \<le> 2 ^ 64) \<and>
      owned s' = (if p = 0 then owned s else tmp_buffer n p # owned s)"
  proof (cases "n \<le> MAX_OCALL_ALLOC_SIZE")
    case True
    obtain w where "sgx_ocalloc P n (world s) = (p, w)" "s' = s\<lparr>world := w, owned := (if p = 0 then owned s else Ocalloced # owned s)\<rparr>"
      using assms(2) True by (auto simp: alloc_tmp_def split: prod.splits)
    moreover from this have "p \<noteq> 0 \<longrightarrow> addr_range p n \<inter> E = {} \<and> unat p + n \<le> 2 ^ 64"
      using platform_okD(3) [OF assms(1)] by blast
    ultimately show ?thesis using True by (simp add: tmp_buffer_def confined_def)
  next
    case False
    then have "libc_malloc P n s = (p, s')" using assms(2) by (simp add: alloc_tmp_def)
    from libc_malloc_ok [OF assms(1) this] show ?thesis using False by (simp add: tmp_buffer_def)
  qed
  then show "confined E {} s s'" and "p \<noteq> 0 \<Longrightarrow> addr_range p n \<inter> E = {} \<and> unat p + n \<le> 2 ^ 64"
    and "owned s' = (if p = 0 then owned s else tmp_buffer n p # owned s)" by simp_all
qed

lemma free_tmp_ok:
  assumes "platform_ok E P"
  shows "confined E {} s (free_tmp P n p s)" and "owned (free_tmp P n p s) = remove1 (tmp_buffer n p) (owned s)"
  using libc_free_ok [OF assms] by (simp_all add: free_tmp_def tmp_buffer_def)

section \<open>One buffer\<close>

text \<open>From the allocation to the release of the buffer: \<open>f\<close> fills it, \<open>g\<close> copies out of it, \<open>fr\<close> releases it.\<close>

lemma buffer_confined:
  assumes "platform_ok E P" and "confined E {} s s1" and "addr_range tmp n \<inter> E = {}" and "owned s1 = b # owned s"
    and "\<And>m a. a \<notin> addr_range tmp n \<Longrightarrow> f m a = m a"
    and "do_ocall P c (upd_mem f s1) = (r, s3)" and "mem s4 = mem s3" and "owned s4 = owned s3"
    and "\<And>m a. a \<in> E \<Longrightarrow> a \<notin> A \<Longrightarrow> g m a = m a" and "edl_out c \<subseteq> A"
    and "\<And>t. confined E {} t (fr t)" and "\<And>t. owned (fr t) = remove1 b (owned t)"
  shows "confined E A s (fr (upd_mem g s4))" and "confined E A s (fr s4)"
    and "owned (fr (upd_mem g s4)) = owned s" and "owned (fr s4) = owned s"
proof -
  note oc = do_ocall_confined [OF assms(1,6)]
  have "confined E A s s1" using assms(2) by (rule confined_mono) simp
  also have "confined E A s1 (upd_mem f s1)" using assms(3,5) by (intro confined_upd_mem) blast
  also (confined_trans) have "confined E A (upd_mem f s1) s4"
    using confined_mono [OF oc(1) assms(10)] assms(7) by (simp add: confined_def)
  finally (confined_trans) have s4: "confined E A s s4" .
  have free: "confined E A t (fr t)" for t using assms(11) by (rule confined_mono) simp
  show "confined E A s (fr s4)" using confined_trans [OF s4 free] .
  have "confined E A s4 (upd_mem g s4)" using assms(9) by (intro confined_upd_mem) auto
  then show "confined E A s (fr (upd_mem g s4))" using confined_trans [OF confined_trans [OF s4] free] by blast
  show "owned (fr (upd_mem g s4)) = owned s" and "owned (fr s4) = owned s"
    using assms(4,8,12) oc(2) by simp_all
qed

lemma one_buffer_confined:
  assumes "platform_ok E P" and "alloc_tmp P n s = (tmp, s1)" and "tmp \<noteq> 0"
    and "\<And>m a. a \<notin> addr_range tmp n \<Longrightarrow> f m a = m a"
    and "do_ocall P c (upd_mem f s1) = (r, s3)" and "check_result r s3 = (res, s4)"
    and "\<And>m a. a \<in> E \<Longrightarrow> a \<notin> A \<Longrightarrow> g m a = m a" and "edl_out c \<subseteq> A"
  shows "confined E A s (free_tmp P n tmp (upd_mem g s4))" and "confined E A s (free_tmp P n tmp s4)"
    and "owned (free_tmp P n tmp (upd_mem g s4)) = owned s" and "owned (free_tmp P n tmp s4) = owned s"
proof -
  note al = alloc_tmp_ok [OF assms(1,2)]
  have "addr_range tmp n \<inter> E = {}" "owned s1 = tmp_buffer n tmp # owned s" using al(2,3) assms(3) by simp_all
  note b = buffer_confined [where fr = "free_tmp P n tmp" and f = f and g = g and A = A, OF assms(1) al(1) this assms(4,5) check_result_state(1,2) [OF assms(6)] assms(7,8)
      free_tmp_ok [OF assms(1)]]
  show "confined E A s (free_tmp P n tmp (upd_mem g s4))" and "confined E A s (free_tmp P n tmp s4)"
    and "owned (free_tmp P n tmp (upd_mem g s4)) = owned s" and "owned (free_tmp P n tmp s4) = owned s" using b by blast+
qed

text \<open>The two shapes of the calls with one buffer: \<open>c\<close> is the call, \<open>k\<close> the number of bytes copied for a result.\<close>

definition read_through ::
  "('w, 'z) libc_ffi_scheme \<Rightarrow> usize \<Rightarrow> (addr \<Rightarrow> ocall) \<Rightarrow> addr \<Rightarrow> (int \<Rightarrow> usize) \<Rightarrow> 'w libc_st \<Rightarrow> int \<times> 'w libc_st" where
  "read_through P n c buf k s =
     (case alloc_tmp P n s of (tmp, s1) \<Rightarrow>
        if tmp = 0 then (- 1, set_errno ENOMEM s1)
        else let s2 = upd_mem (mem_store tmp (replicate n 0)) s1
             in case ocall_int P (c tmp) s2 of (result, s3) \<Rightarrow>
                  let s4 = (if result \<noteq> - 1 then upd_mem (copy_nonoverlapping tmp buf (k result)) s3 else s3)
                  in (result, free_tmp P n tmp s4))"

definition write_through ::
  "('w, 'z) libc_ffi_scheme \<Rightarrow> usize \<Rightarrow> (addr \<Rightarrow> ocall) \<Rightarrow> (addr \<Rightarrow> mem \<Rightarrow> mem) \<Rightarrow> 'w libc_st \<Rightarrow> int \<times> 'w libc_st" where
  "write_through P n c f s =
     (case alloc_tmp P n s of (tmp, s1) \<Rightarrow>
        if tmp = 0 then (- 1, set_errno ENOMEM s1)
        else case ocall_int P (c tmp) (upd_mem (f tmp) s1) of (result, s2) \<Rightarrow> (result, free_tmp P n tmp s2))"

lemma read_through_confined:
  assumes "platform_ok E P" and "read_through P n c buf k s = (res, s')" and "\<And>tmp. edl_out (c tmp) = {}"
  shows "confined E (if res = - 1 then {} else addr_range buf (k res)) s s' \<and> owned s' = owned s"
proof -
  obtain tmp s1 where a: "alloc_tmp P n s = (tmp, s1)" by (cases "alloc_tmp P n s")
  show ?thesis
  proof (cases "tmp = 0")
    case True
    with assms(2) a have "res = - 1" "s' = set_errno ENOMEM s1" by (simp_all add: read_through_def)
    with alloc_tmp_ok [OF assms(1) a] True show ?thesis by simp
  next
    case False
    let ?f = "mem_store tmp (replicate n 0)"
    obtain r s3 where d: "do_ocall P (c tmp) (upd_mem ?f s1) = (r, s3)" by (cases "do_ocall P (c tmp) (upd_mem ?f s1)")
    obtain res' s4 where r: "check_result r s3 = (res', s4)" by (cases "check_result r s3")
    have res: "res' = res" and s': "s' = free_tmp P n tmp (if res \<noteq> - 1 then upd_mem (copy_nonoverlapping tmp buf (k res)) s4 else s4)"
      using assms(2) a False d r by (auto simp: read_through_def ocall_int_def Let_def split: if_splits)
    have f: "\<And>m a. a \<notin> addr_range tmp n \<Longrightarrow> ?f m a = m a" by (simp add: mem_store_other)
    note shape = one_buffer_confined [OF assms(1) a False f d r, where A = "if res = - 1 then {} else addr_range buf (k res)"]
    show ?thesis
    proof (cases "res = - 1")
      case True
      with s' shape(2,4) [where g = "\<lambda>m. m"] assms(3) res show ?thesis by simp
    next
      case False
      with s' shape(1,3) [where g = "copy_nonoverlapping tmp buf (k res)"] assms(3) res copy_other show ?thesis by fastforce
    qed
  qed
qed

lemma write_through_confined:
  assumes "platform_ok E P" and "write_through P n c f s = (res, s')" and "\<And>tmp. edl_out (c tmp) = {}"
    and "\<And>tmp m a. unat tmp + n \<le> 2 ^ 64 \<Longrightarrow> a \<notin> addr_range tmp n \<Longrightarrow> f tmp m a = m a"
  shows "confined E {} s s' \<and> owned s' = owned s"
proof -
  obtain tmp s1 where a: "alloc_tmp P n s = (tmp, s1)" by (cases "alloc_tmp P n s")
  show ?thesis
  proof (cases "tmp = 0")
    case True
    with assms(2) a have "s' = set_errno ENOMEM s1" by (simp add: write_through_def)
    with alloc_tmp_ok [OF assms(1) a] True show ?thesis by simp
  next
    case False
    obtain r s3 where d: "do_ocall P (c tmp) (upd_mem (f tmp) s1) = (r, s3)" by (cases "do_ocall P (c tmp) (upd_mem (f tmp) s1)")
    obtain s4 where r: "check_result r s3 = (res, s4)" and s': "s' = free_tmp P n tmp s4"
      using assms(2) a False d by (cases "check_result r s3") (auto simp: write_through_def ocall_int_def)
    have "\<And>m a. a \<notin> addr_range tmp n \<Longrightarrow> f tmp m a = m a" using assms(4) alloc_tmp_ok(2) [OF assms(1) a False] by blast
    from one_buffer_confined(2,4) [OF assms(1) a False this d r, where A = "{}" and g = "\<lambda>m. m"] s' assms(3) show ?thesis by simp
  qed
qed

lemma libc_read_through:
  "libc_read P fd buf n s = (if bad_buffer P buf n then (- 1, set_errno EINVAL s)
     else read_through P n (\<lambda>tmp. U_read fd tmp n) buf (\<lambda>r. min n (as_usize r)) s)"
  "libc_pread64 P fd buf n offset s = (if bad_buffer P buf n then (- 1, set_errno EINVAL s)
     else read_through P n (\<lambda>tmp. U_pread64 fd tmp n offset) buf (\<lambda>r. min n (as_usize r)) s)"
  "libc_recv P fd buf n flgs s = (if bad_buffer P buf n then (- 1, set_errno EINVAL s)
     else read_through P n (\<lambda>tmp. U_recv fd tmp n flgs) buf (\<lambda>r. n) s)"
  by (simp_all add: libc_read_def libc_pread64_def libc_recv_def read_through_def)

lemma guarded_read_confined:
  assumes "platform_ok E P"
    and "(if bad_buffer P buf n then (- 1, set_errno EINVAL s) else read_through P n c buf k s) = (res, s')"
    and "\<And>tmp. edl_out (c tmp) = {}"
  shows "confined E (if res = - 1 then {} else addr_range buf (k res)) s s' \<and> owned s' = owned s"
  using assms(2) read_through_confined [OF assms(1) _ assms(3)] by (cases "bad_buffer P buf n") auto

lemma guarded_write_confined:
  assumes "platform_ok E P"
    and "(if bad_buffer P buf n then (- 1, set_errno EINVAL s)
          else write_through P n c (\<lambda>tmp. copy_nonoverlapping buf tmp n) s) = (res, s')"
    and "\<And>tmp. edl_out (c tmp) = {}"
  shows "confined E {} s s' \<and> owned s' = owned s"
  using assms(2) write_through_confined [where f = "\<lambda>tmp. copy_nonoverlapping buf tmp n", OF assms(1) _ assms(3) copy_other]
  by (cases "bad_buffer P buf n") auto

lemma libc_write_through:
  "libc_write P fd buf n s = (if bad_buffer P buf n then (- 1, set_errno EINVAL s)
     else write_through P n (\<lambda>tmp. U_write fd tmp n) (\<lambda>tmp. copy_nonoverlapping buf tmp n) s)"
  "libc_pwrite64 P fd buf n offset s = (if bad_buffer P buf n then (- 1, set_errno EINVAL s)
     else write_through P n (\<lambda>tmp. U_pwrite64 fd tmp n offset) (\<lambda>tmp. copy_nonoverlapping buf tmp n) s)"
  "libc_send P fd buf n flgs s = (if bad_buffer P buf n then (- 1, set_errno EINVAL s)
     else write_through P n (\<lambda>tmp. U_send fd tmp n flgs) (\<lambda>tmp. copy_nonoverlapping buf tmp n) s)"
  "libc_sendto P fd buf n flgs addr addrlen s = (if bad_buffer P buf n then (- 1, set_errno EINVAL s)
     else write_through P n (\<lambda>tmp. U_sendto fd tmp n flgs addr addrlen) (\<lambda>tmp. copy_nonoverlapping buf tmp n) s)"
  by (simp_all add: libc_write_def libc_pwrite64_def libc_send_def libc_sendto_def write_through_def)

section \<open>Scattered buffers\<close>

definition iov_range :: "iovec list \<Rightarrow> nat set" where
  "iov_range v = (\<Union>(base, len) \<in> set v. addr_range base len)"

lemma iov_range_Cons [simp]: "iov_range ((base, len) # v) = addr_range base len \<union> iov_range v" "iov_range [] = {}"
  by (auto simp: iov_range_def)

lemma copy_le_other: "a \<notin> addr_range q n \<Longrightarrow> k \<le> n \<Longrightarrow> copy_nonoverlapping p q k m a = m a"
  by (rule copy_other) (auto simp: addr_range_def)

lemma copy_min_other: "a \<notin> addr_range q n \<Longrightarrow> copy_nonoverlapping p q (min n k) m a = m a"
  by (rule copy_other) (auto simp: addr_range_def)

lemma scatter_other: "a \<notin> iov_range v \<Longrightarrow> scatter tv v n m a = m a"
  by (induction tv v n m rule: scatter.induct) (auto simp: copy_min_other)

lemma scatter_msg_other: "a \<notin> iov_range v \<Longrightarrow> scatter_msg tv v n m a = m a"
  by (induction tv v n m rule: scatter_msg.induct) (auto simp: Let_def copy_le_other)

lemma iov_totalD:
  assumes "iov_total P t v = Some tot" and "platform_ok E P"
  shows "tot = t + sum_list (map snd v)" and "\<forall>io \<in> set v. 0 < snd io" and "iov_range v \<subseteq> E"
  using assms
  by (induction P t v rule: iov_total.induct) (auto split: if_splits dest: platform_okD(1))

lemma gather_other:
  assumes "unat p + sum_list (map snd v) \<le> 2 ^ 64" and "\<forall>io \<in> set v. 0 < snd io"
    and "a \<notin> addr_range p (sum_list (map snd v))"
  shows "gather p v m a = m a"
  using assms
proof (induction p v m rule: gather.induct)
  case (2 p base len v m)
  have cp: "copy_nonoverlapping base p len m a = m a"
    using 2(4) by (intro copy_other) (auto simp: addr_range_def)
  show ?case
  proof (cases "v = []")
    case True
    with cp show ?thesis by simp
  next
    case False
    then have "0 < sum_list (map snd v)" using 2(3) by (cases v) auto
    then have u: "unat (p + word_of_nat len) = unat p + len"
      using 2(2) by (simp add: unat_word_ariths unat_of_nat)
    have "gather (p + word_of_nat len) v (copy_nonoverlapping base p len m) a = copy_nonoverlapping base p len m a"
    proof (rule 2(1))
      show "unat (p + word_of_nat len) + sum_list (map snd v) \<le> 2 ^ 64" using 2(2) u by simp
      show "\<forall>io \<in> set v. 0 < snd io" using 2(3) by simp
      show "a \<notin> addr_range (p + word_of_nat len) (sum_list (map snd v))" using 2(4) u by (auto simp: addr_range_def)
    qed
    with cp show ?thesis by simp
  qed
qed simp

lemma iov_checkedD:
  assumes "iov_checked P iov n m = Some (v, tot)" and "platform_ok E P"
  shows "iov_total P 0 v = Some tot" and "v = iovecs_at m iov (nat n)"
  using assms by (auto simp: iov_checked_def Let_def split: if_splits)

text \<open>The calls on vectors have the same two shapes, with \<open>scatter\<close> or \<open>gather\<close> for the copy.\<close>

definition readv_through ::
  "('w, 'z) libc_ffi_scheme \<Rightarrow> usize \<Rightarrow> (addr \<Rightarrow> ocall) \<Rightarrow> iovec list \<Rightarrow> 'w libc_st \<Rightarrow> int \<times> 'w libc_st" where
  "readv_through P n c v s =
     (case alloc_tmp P n s of (tmp, s1) \<Rightarrow>
        if tmp = 0 then (- 1, set_errno ENOMEM s1)
        else let s2 = upd_mem (mem_store tmp (replicate n 0)) s1
             in case ocall_int P (c tmp) s2 of (result, s3) \<Rightarrow>
                  let s4 = (if result \<noteq> - 1 then upd_mem (scatter (tmp_iovecs tmp v) v (as_usize result)) s3 else s3)
                  in (result, free_tmp P n tmp s4))"

lemma readv_through_confined:
  assumes "platform_ok E P" and "readv_through P n c v s = (res, s')" and "\<And>tmp. edl_out (c tmp) = {}"
  shows "confined E (iov_range v) s s' \<and> owned s' = owned s"
proof -
  obtain tmp s1 where a: "alloc_tmp P n s = (tmp, s1)" by (cases "alloc_tmp P n s")
  show ?thesis
  proof (cases "tmp = 0")
    case True
    with assms(2) a have "s' = set_errno ENOMEM s1" by (simp add: readv_through_def)
    with alloc_tmp_ok [OF assms(1) a] True show ?thesis using confined_mono [of E "{}" s s1 "iov_range v"] by simp
  next
    case False
    let ?f = "mem_store tmp (replicate n 0)"
    obtain r s3 where d: "do_ocall P (c tmp) (upd_mem ?f s1) = (r, s3)" by (cases "do_ocall P (c tmp) (upd_mem ?f s1)")
    obtain s4 where r: "check_result r s3 = (res, s4)"
      and s': "s' = free_tmp P n tmp (if res \<noteq> - 1 then upd_mem (scatter (tmp_iovecs tmp v) v (as_usize res)) s4 else s4)"
      using assms(2) a False d
      by (cases "check_result r s3") (auto simp: readv_through_def ocall_int_def Let_def split: if_splits)
    have f: "\<And>m a. a \<notin> addr_range tmp n \<Longrightarrow> ?f m a = m a" by (simp add: mem_store_other)
    have "edl_out (c tmp) \<subseteq> iov_range v" using assms(3) by simp
    note shape = one_buffer_confined [OF assms(1) a False f d r _ this, where g = "scatter (tmp_iovecs tmp v) v (as_usize res)"]
    show ?thesis using s' shape scatter_other by (cases "res = - 1") simp_all
  qed
qed

lemma libc_readv_through:
  "libc_readv P fd iov iovcnt s = (case iov_checked P iov iovcnt (mem s) of None \<Rightarrow> (- 1, set_errno EINVAL s)
     | Some (v, n) \<Rightarrow> readv_through P n (\<lambda>tmp. U_readv fd (tmp_iovecs tmp v) iovcnt) v s)"
  "libc_preadv64 P fd iov iovcnt offset s = (case iov_checked P iov iovcnt (mem s) of None \<Rightarrow> (- 1, set_errno EINVAL s)
     | Some (v, n) \<Rightarrow> readv_through P n (\<lambda>tmp. U_preadv64 fd (tmp_iovecs tmp v) iovcnt offset) v s)"
  by (simp_all add: libc_readv_def libc_preadv64_def readv_through_def Let_def split: option.split prod.split)

definition gather_fresh :: "usize \<Rightarrow> iovec list \<Rightarrow> addr \<Rightarrow> mem \<Rightarrow> mem" where
  "gather_fresh n v tmp m = gather tmp v (mem_store tmp (replicate n 0) m)"

lemma gather_fresh_other:
  assumes "iov_total P 0 v = Some n" and "platform_ok E P" and "unat tmp + n \<le> 2 ^ 64" and "a \<notin> addr_range tmp n"
  shows "gather_fresh n v tmp m a = m a"
  using gather_other [of tmp v a] iov_totalD [OF assms(1,2)] assms(3,4) by (simp add: gather_fresh_def mem_store_other)

lemma upd_mem_upd_mem: "upd_mem (gather tmp v) (upd_mem (mem_store tmp (replicate n 0)) s) = upd_mem (gather_fresh n v tmp) s"
  by (simp add: upd_mem_def gather_fresh_def)

lemma libc_writev_through:
  "libc_writev P fd iov iovcnt s = (case iov_checked P iov iovcnt (mem s) of None \<Rightarrow> (- 1, set_errno EINVAL s)
     | Some (v, n) \<Rightarrow> write_through P n (\<lambda>tmp. U_writev fd (tmp_iovecs tmp v) iovcnt) (gather_fresh n v) s)"
  "libc_pwritev64 P fd iov iovcnt offset s = (case iov_checked P iov iovcnt (mem s) of None \<Rightarrow> (- 1, set_errno EINVAL s)
     | Some (v, n) \<Rightarrow> write_through P n (\<lambda>tmp. U_pwritev64 fd (tmp_iovecs tmp v) iovcnt offset) (gather_fresh n v) s)"
  by (simp_all add: libc_writev_def libc_pwritev64_def write_through_def Let_def upd_mem_upd_mem split: option.split prod.split)

section \<open>Messages and addresses\<close>

lemma libc_recvfrom_confined:
  assumes "platform_ok E P" and "libc_recvfrom P fd buf n flgs addr addrlen s = ((res, len'), s')"
  shows "confined E ((if res = - 1 then {} else addr_range buf n) \<union> addr_range addr (case addrlen of Some k \<Rightarrow> k | None \<Rightarrow> 0)) s s'
    \<and> owned s' = owned s"
proof (cases "bad_buffer P buf n")
  case True
  with assms(2) show ?thesis by (auto simp: libc_recvfrom_def)
next
  case good: False
  let ?len = "case addrlen of Some k \<Rightarrow> k | None \<Rightarrow> 0"
  obtain tmp s1 where a: "alloc_tmp P n s = (tmp, s1)" by (cases "alloc_tmp P n s")
  show ?thesis
  proof (cases "tmp = 0")
    case True
    with assms(2) a good have "s' = set_errno ENOMEM s1" "res = - 1" by (simp_all add: libc_recvfrom_def)
    with alloc_tmp_ok [OF assms(1) a] True show ?thesis using confined_mono [of E "{}" s s1] by simp
  next
    case False
    let ?f = "mem_store tmp (replicate n 0)" and ?c = "U_recvfrom fd tmp n flgs addr ?len"
    obtain r s3 where d: "do_ocall P ?c (upd_mem ?f s1) = (r, s3)" by (cases "do_ocall P ?c (upd_mem ?f s1)")
    obtain s4 where r: "check_result r s3 = (res, s4)"
      and s': "s' = free_tmp P n tmp (if res \<noteq> - 1 then upd_mem (copy_nonoverlapping tmp buf n) s4 else s4)"
      using assms(2) a good False d by (cases "check_result r s3") (auto simp: libc_recvfrom_def Let_def split: if_splits)
    have f: "\<And>m a. a \<notin> addr_range tmp n \<Longrightarrow> ?f m a = m a" by (simp add: mem_store_other)
    let ?A = "(if res = - 1 then {} else addr_range buf n) \<union> addr_range addr ?len"
    have "edl_out ?c \<subseteq> ?A" by simp
    note shape = one_buffer_confined [OF assms(1) a False f d r _ this]
    show ?thesis
    proof (cases "res = - 1")
      case True
      with s' shape(2,4) [where g = "\<lambda>m. m"] show ?thesis by simp
    next
      case False
      with s' shape(1,3) [where g = "copy_nonoverlapping tmp buf n"] copy_other show ?thesis by fastforce
    qed
  qed
qed

lemma msg_iov_checkedD:
  assumes "msg_iov_checked P mhdr m = Some (v, n)"
  shows "iov_total P 0 v = Some n" and "v = iovecs_at m (msg_iov mhdr) (msg_iovlen mhdr)"
  using assms by (auto simp: msg_iov_checked_def Let_def split: if_splits)

lemma malloced_confined:
  assumes "platform_ok E P" and "libc_malloc P n s = (tmp, s1)" and "tmp \<noteq> 0"
    and "\<And>m a. a \<notin> addr_range tmp n \<Longrightarrow> f m a = m a" and "do_ocall P c (upd_mem f s1) = (r, s3)"
    and "mem s4 = mem s3" and "owned s4 = owned s3"
    and "\<And>m a. a \<in> E \<Longrightarrow> a \<notin> A \<Longrightarrow> g m a = m a" and "edl_out c \<subseteq> A"
  shows "confined E A s (libc_free P tmp (upd_mem g s4))" and "confined E A s (libc_free P tmp s4)"
    and "owned (libc_free P tmp (upd_mem g s4)) = owned s" and "owned (libc_free P tmp s4) = owned s"
proof -
  note al = libc_malloc_ok [OF assms(1,2)]
  have "addr_range tmp n \<inter> E = {}" "owned s1 = Malloced tmp # owned s" using al(2,3) assms(3) by simp_all
  note b = buffer_confined [where fr = "libc_free P tmp" and f = f and g = g and A = A, OF assms(1) al(1) this assms(4-9) libc_free_ok [OF assms(1)]]
  show "confined E A s (libc_free P tmp (upd_mem g s4))" and "confined E A s (libc_free P tmp s4)"
    and "owned (libc_free P tmp (upd_mem g s4)) = owned s" and "owned (libc_free P tmp s4) = owned s" using b by blast+
qed

lemma libc_sendmsg_confined:
  assumes "platform_ok E P" and "libc_sendmsg P fd msg mhdr flgs s = (res, s')"
  shows "confined E {} s s' \<and> owned s' = owned s"
proof -
  obtain name namelen where nm: "optional_part (msg_name mhdr) (msg_namelen mhdr) = (name, namelen)" by fastforce
  obtain control controllen where ct: "optional_part (msg_control mhdr) (msg_controllen mhdr) = (control, controllen)" by fastforce
  consider (refused) "s' = set_errno EINVAL s"
    | (go) v n where "msg_iov_checked P mhdr (mem s) = Some (v, n)" "msg \<noteq> 0" "sgx_is_within_enclave P msg 56 \<noteq> 0"
    using assms(2) nm by (auto simp: libc_sendmsg_def split: if_splits option.splits)
  then show ?thesis
  proof cases
    case refused
    then show ?thesis by simp
  next
    case go
    obtain tmp s1 where a: "libc_malloc P n s = (tmp, s1)" by (cases "libc_malloc P n s")
    note al = libc_malloc_ok [OF assms(1) a]
    show ?thesis
    proof (cases "tmp = 0")
      case True
      with assms(2) go a nm ct have "s' = set_errno ENOMEM s1" by (simp add: libc_sendmsg_def)
      with al True show ?thesis by simp
    next
      case False
      let ?c = "U_sendmsg fd name namelen (tmp_iovecs tmp v) control controllen flgs"
      obtain r s3 where d: "do_ocall P ?c (upd_mem (gather_fresh n v tmp) s1) = (r, s3)"
        by (cases "do_ocall P ?c (upd_mem (gather_fresh n v tmp) s1)")
      obtain s4 where r: "check_result r s3 = (res, s4)" and s': "s' = libc_free P tmp s4"
        using assms(2) go a nm ct False d
        by (cases "check_result r s3") (auto simp: libc_sendmsg_def ocall_int_def Let_def upd_mem_upd_mem)
      have "\<And>m a. a \<notin> addr_range tmp n \<Longrightarrow> gather_fresh n v tmp m a = m a"
        using gather_fresh_other [OF msg_iov_checkedD(1) [OF go(1)] assms(1)] al(2) False by blast
      from malloced_confined(2,4) [OF assms(1) a False this d check_result_state(1,2) [OF r], where A = "{}" and g = "\<lambda>m. m"] s'
      show ?thesis by simp
    qed
  qed
qed

lemma libc_recvmsg_confined:
  assumes "platform_ok E P" and "libc_recvmsg P fd msg mhdr flgs s = ((res, mhdr'), s')"
  shows "confined E (iov_range (iovecs_at (mem s) (msg_iov mhdr) (msg_iovlen mhdr)) \<union>
      addr_range (msg_name mhdr) (msg_namelen mhdr) \<union> addr_range (msg_control mhdr) (msg_controllen mhdr)) s s'
    \<and> owned s' = owned s \<and> msg_namelen mhdr' \<le> msg_namelen mhdr \<and> msg_controllen mhdr' \<le> msg_controllen mhdr"
    (is "confined E ?A s s' \<and> _")
proof -
  obtain name namelen where nm: "optional_part (msg_name mhdr) (msg_namelen mhdr) = (name, namelen)" by fastforce
  obtain control controllen where ct: "optional_part (msg_control mhdr) (msg_controllen mhdr) = (control, controllen)" by fastforce
  have out: "addr_range name namelen \<union> addr_range control controllen \<subseteq> ?A" and le: "namelen \<le> msg_namelen mhdr" "controllen \<le> msg_controllen mhdr"
    using nm ct by (auto simp: optional_part_def addr_range_def split: if_splits)
  consider (refused) "s' = set_errno EINVAL s" "mhdr' = mhdr"
    | (go) v n where "msg_iov_checked P mhdr (mem s) = Some (v, n)" "msg \<noteq> 0" "sgx_is_within_enclave P msg 56 \<noteq> 0"
    using assms(2) nm by (auto simp: libc_recvmsg_def split: if_splits option.splits)
  then show ?thesis
  proof cases
    case refused
    then show ?thesis by simp
  next
    case go
    have v: "v = iovecs_at (mem s) (msg_iov mhdr) (msg_iovlen mhdr)" using msg_iov_checkedD(2) [OF go(1)] .
    obtain tmp s1 where a: "libc_malloc P n s = (tmp, s1)" by (cases "libc_malloc P n s")
    note al = libc_malloc_ok [OF assms(1) a]
    show ?thesis
    proof (cases "tmp = 0")
      case True
      with assms(2) go a nm ct have "s' = set_errno ENOMEM s1" "mhdr' = mhdr" by (simp_all add: libc_recvmsg_def)
      with al True show ?thesis using confined_mono [OF al(1), of ?A] by simp
    next
      case False
      let ?c = "U_recvmsg fd name namelen (tmp_iovecs tmp v) control controllen flgs" and ?f = "mem_store tmp (replicate n 0)"
      obtain r s3 where d: "do_ocall P ?c (upd_mem ?f s1) = (r, s3)" by (cases "do_ocall P ?c (upd_mem ?f s1)")
      obtain res0 s4 where r: "check_result r s3 = (res0, s4)" by (cases "check_result r s3")
      define s5 where "s5 = (if r_len r > namelen \<or> r_len2 r > controllen then set_errno ESGX s4 else s4)"
      define res1 where "res1 = (if r_len r > namelen \<or> r_len2 r > controllen then - 1 else res0)"
      let ?g = "scatter_msg (tmp_iovecs tmp v) v (min (as_usize res1) n)"
      have eq: "((res, mhdr'), s') = (if 0 \<le> res1
          then ((res1, mhdr\<lparr>msg_namelen := r_len r, msg_controllen := r_len2 r, msg_flags := r_flags r\<rparr>), libc_free P tmp (upd_mem ?g s5))
          else ((res1, mhdr), libc_free P tmp s5))"
        using assms(2) go a nm ct False d r by (auto simp: libc_recvmsg_def Let_def s5_def res1_def split: if_splits)
      have s5: "mem s5 = mem s3" "owned s5 = owned s3" using check_result_state [OF r] by (simp_all add: s5_def)
      have f: "\<And>m a. a \<notin> addr_range tmp n \<Longrightarrow> ?f m a = m a" by (simp add: mem_store_other)
      have g: "\<And>m a. a \<in> E \<Longrightarrow> a \<notin> ?A \<Longrightarrow> ?g m a = m a" using scatter_msg_other [of _ v] v by blast
      have "edl_out ?c \<subseteq> ?A" using out by simp
      note b = malloced_confined [where f = ?f and g = ?g and A = ?A, OF assms(1) a False f d s5 g this]
      have "0 \<le> res1 \<Longrightarrow> r_len r \<le> msg_namelen mhdr \<and> r_len2 r \<le> msg_controllen mhdr"
        using le by (auto simp: res1_def split: if_splits)
      then show ?thesis using eq b by (cases "0 \<le> res1") auto
    qed
  qed
qed

section \<open>Properties\<close>

text \<open>
  C11: The calls that read into the enclave write only into the buffer of the caller. Whatever the host answers and whatever
  it writes into its own memory, \<^verbatim>\<open>read\<close> and \<^verbatim>\<open>pread64\<close> change at most the first bytes of the buffer, as many as the result
  says and never more than its size; \<^verbatim>\<open>recv\<close> and \<^verbatim>\<open>recvfrom\<close> change at most the buffer (and the address); on failure nothing
  in the buffer changes; and the buffer in untrusted memory is always released.
\<close>

theorem reads_stay_in_buffer:
  assumes "platform_ok E P"
  shows "(libc_read P fd buf n s = (res, s') \<longrightarrow>
           confined E (if res = - 1 then {} else addr_range buf (min n (as_usize res))) s s' \<and> owned s' = owned s)
       \<and> (libc_pread64 P fd buf n offset s = (res, s') \<longrightarrow>
           confined E (if res = - 1 then {} else addr_range buf (min n (as_usize res))) s s' \<and> owned s' = owned s)
       \<and> (libc_recv P fd buf n flgs s = (res, s') \<longrightarrow>
           confined E (if res = - 1 then {} else addr_range buf n) s s' \<and> owned s' = owned s)
       \<and> (libc_recvfrom P fd buf n flgs addr addrlen s = ((res, addrlen'), s') \<longrightarrow>
           confined E ((if res = - 1 then {} else addr_range buf n) \<union> addr_range addr (case addrlen of Some k \<Rightarrow> k | None \<Rightarrow> 0)) s s'
             \<and> owned s' = owned s)"
proof -
  note r = guarded_read_confined [OF assms]
  have "libc_read P fd buf n s = (res, s') \<longrightarrow>
      confined E (if res = - 1 then {} else addr_range buf (min n (as_usize res))) s s' \<and> owned s' = owned s"
    using r [of buf n s "\<lambda>tmp. U_read fd tmp n" "\<lambda>r. min n (as_usize r)"] by (simp add: libc_read_through)
  moreover have "libc_pread64 P fd buf n offset s = (res, s') \<longrightarrow>
      confined E (if res = - 1 then {} else addr_range buf (min n (as_usize res))) s s' \<and> owned s' = owned s"
    using r [of buf n s "\<lambda>tmp. U_pread64 fd tmp n offset" "\<lambda>r. min n (as_usize r)"] by (simp add: libc_read_through)
  moreover have "libc_recv P fd buf n flgs s = (res, s') \<longrightarrow>
      confined E (if res = - 1 then {} else addr_range buf n) s s' \<and> owned s' = owned s"
    using r [of buf n s "\<lambda>tmp. U_recv fd tmp n flgs" "\<lambda>r. n"] by (simp add: libc_read_through)
  ultimately show ?thesis using libc_recvfrom_confined [OF assms] by blast
qed

text \<open>A platform with an enclave of one page and a host that returns one byte too many.\<close>

definition sample_enclave :: "nat set" where
  "sample_enclave = {0x1000..<0x2000}"

definition sample_host :: "(ocall \<Rightarrow> int) \<Rightarrow> usize \<Rightarrow> unit libc_ffi" where
  "sample_host f len =
     \<lparr>sgx_is_within_enclave = (\<lambda>p n. if 0x1000 \<le> unat p \<and> unat p + n \<le> 0x2000 then 1 else 0),
      sgx_is_outside_enclave = (\<lambda>p n. if 0x2000 \<le> unat p \<and> unat p + n \<le> 2 ^ 64 then 1 else 0),
      sgx_read_rand = (\<lambda>n w. ((SGX_SUCCESS, replicate n 0), w)),
      sgx_ocalloc = (\<lambda>n w. (if n \<le> 0x10000 then 0x10000 else 0, w)),
      u_ocall = (\<lambda>c m w. (\<lparr>r_status = SGX_SUCCESS, r_result = f c, r_ptr = 0, r_error = 0, r_len = len, r_len2 = 0,
         r_flags = 0, r_mem = m\<rparr>, w))\<rparr>"

lemma sample_platform_ok: "platform_ok sample_enclave (sample_host f len)"
  unfolding platform_ok_def sample_enclave_def sample_host_def addr_range_def
  by (auto split: if_splits)

definition sample_state :: "unit libc_st" where
  "sample_state = \<lparr>mem = (\<lambda>_. 0), errno_val = 0, owned = [], world = ()\<rparr>"

lemmas sample_run = sample_host_def sample_state_def bad_buffer_def alloc_tmp_def ocall_int_def do_ocall_def
  check_result_def MAX_OCALL_ALLOC_SIZE_def USIZE_MAX_def Let_def

lemma sample_read: "fst (libc_read (sample_host f len) fd 0x1000 16 sample_state) = f (U_read fd 0x10000 16)"
  by (simp add: libc_read_def sample_run)

theorem reads_stay_in_buffer_witness:
  "confined sample_enclave (addr_range 0x1000 5) sample_state (snd (libc_read (sample_host (\<lambda>_. 5) 0) 3 0x1000 16 sample_state))"
  using reads_stay_in_buffer [OF sample_platform_ok, of "\<lambda>_. 5" 0 3 "0x1000" 16 sample_state 5
      "snd (libc_read (sample_host (\<lambda>_. 5) 0) 3 0x1000 16 sample_state)"] sample_read [of "\<lambda>_. 5" 0 3]
  by (simp add: prod_eq_iff as_usize_def)


text \<open>A vector of one entry at the start of the page: 8 bytes at 0x1100.\<close>

definition sample_vector :: "unit libc_st" where
  "sample_vector = sample_state\<lparr>mem := (\<lambda>a. if a = 0x1001 then 0x11 else if a = 0x1008 then 8 else 0)\<rparr>"

lemma sample_iovecs: "iovecs_at (mem sample_vector) 0x1000 1 = [(0x1100, 8)]"
  by code_simp

lemma sample_checked: "iov_checked (sample_host f len) 0x1000 1 (mem sample_vector) = Some ([(0x1100, 8)], 8)"
  using sample_iovecs by (simp add: iov_checked_def sample_host_def USIZE_MAX_def)

lemma sample_readv: "fst (libc_readv (sample_host f len) fd 0x1000 1 sample_vector) = f (U_readv fd [(0x10000, 8)] 1)"
  unfolding libc_readv_def sample_checked by (simp add: sample_run sample_vector_def)


text \<open>
  C13: The calls that write data out leave the enclave as it is. \<^verbatim>\<open>write\<close>, \<^verbatim>\<open>pwrite64\<close>, \<^verbatim>\<open>send\<close>, \<^verbatim>\<open>sendto\<close>, \<^verbatim>\<open>writev\<close>,
  \<^verbatim>\<open>pwritev64\<close> and \<^verbatim>\<open>sendmsg\<close> change no byte of the enclave, whatever the host answers, and release their buffer on every path.
\<close>

theorem writes_leave_enclave:
  assumes "platform_ok E P"
    and "(res, s') \<in> {libc_write P fd buf n s, libc_pwrite64 P fd buf n offset s, libc_send P fd buf n flgs s,
      libc_sendto P fd buf n flgs addr addrlen s, libc_writev P fd iov k s, libc_pwritev64 P fd iov k offset s,
      libc_sendmsg P fd msg mhdr flgs s}"
  shows "confined E {} s s' \<and> owned s' = owned s"
proof -
  note w = guarded_write_confined [OF assms(1)]
  have vec: "confined E {} s s' \<and> owned s' = owned s"
    if "(case iov_checked P iov k (mem s) of None \<Rightarrow> (- 1, set_errno EINVAL s)
        | Some (v, n) \<Rightarrow> write_through P n (c v) (gather_fresh n v) s) = (res, s')" "\<And>v tmp. edl_out (c v tmp) = {}" for c
  proof (cases "iov_checked P iov k (mem s)")
    case None
    with that show ?thesis by auto
  next
    case (Some vn)
    then obtain v m where vn: "iov_checked P iov k (mem s) = Some (v, m)" by (cases vn) simp
    with that(1) have wt: "write_through P m (c v) (gather_fresh m v) s = (res, s')" by simp
    show ?thesis
      by (rule write_through_confined [OF assms(1) wt that(2)])
        (rule gather_fresh_other [OF iov_checkedD(1) [OF vn assms(1)] assms(1)])
  qed
  consider "libc_write P fd buf n s = (res, s')" | "libc_pwrite64 P fd buf n offset s = (res, s')"
    | "libc_send P fd buf n flgs s = (res, s')" | "libc_sendto P fd buf n flgs addr addrlen s = (res, s')"
    | "libc_writev P fd iov k s = (res, s')" | "libc_pwritev64 P fd iov k offset s = (res, s')"
    | "libc_sendmsg P fd msg mhdr flgs s = (res, s')" using assms(2) by auto
  then show ?thesis
  proof cases
    case 1
    then show ?thesis using w [of buf n s "\<lambda>tmp. U_write fd tmp n"] by (simp add: libc_write_through)
  next
    case 2
    then show ?thesis using w [of buf n s "\<lambda>tmp. U_pwrite64 fd tmp n offset"] by (simp add: libc_write_through)
  next
    case 3
    then show ?thesis using w [of buf n s "\<lambda>tmp. U_send fd tmp n flgs"] by (simp add: libc_write_through)
  next
    case 4
    then show ?thesis using w [of buf n s "\<lambda>tmp. U_sendto fd tmp n flgs addr addrlen"] by (simp add: libc_write_through)
  next
    case 5
    then show ?thesis using vec [of "\<lambda>v tmp. U_writev fd (tmp_iovecs tmp v) k"] by (simp add: libc_writev_through)
  next
    case 6
    then show ?thesis using vec [of "\<lambda>v tmp. U_pwritev64 fd (tmp_iovecs tmp v) k offset"] by (simp add: libc_writev_through)
  next
    case 7
    then show ?thesis by (rule libc_sendmsg_confined [OF assms(1)])
  qed
qed

theorem writes_leave_enclave_witness:
  "confined sample_enclave {} sample_state (snd (libc_write (sample_host (\<lambda>_. 16) 0) 3 0x1000 16 sample_state))"
proof -
  let ?r = "libc_write (sample_host (\<lambda>_. 16) 0) 3 0x1000 16 sample_state"
  have "(fst ?r, snd ?r) \<in> {?r, libc_pwrite64 (sample_host (\<lambda>_. 16) 0) 3 0x1000 16 0 sample_state,
      libc_send (sample_host (\<lambda>_. 16) 0) 3 0x1000 16 0 sample_state,
      libc_sendto (sample_host (\<lambda>_. 16) 0) 3 0x1000 16 0 0 0 sample_state, libc_writev (sample_host (\<lambda>_. 16) 0) 3 0 0 sample_state,
      libc_pwritev64 (sample_host (\<lambda>_. 16) 0) 3 0 0 0 sample_state, libc_sendmsg (sample_host (\<lambda>_. 16) 0) 3 0 mh 0 sample_state}" for mh
    by simp
  from writes_leave_enclave [OF sample_platform_ok this] show ?thesis by simp
qed

text \<open>
  Memory of the host is outside of the enclave. A pointer that \<^verbatim>\<open>malloc\<close> or \<^verbatim>\<open>mmap\<close> returns is the failure value, or the block
  behind it does not touch the enclave and does not wrap around the address space.
\<close>

theorem host_memory_outside:
  assumes "platform_ok E P"
  shows "(fst (libc_malloc P n s) = 0 \<or>
           addr_range (fst (libc_malloc P n s)) n \<inter> E = {} \<and> unat (fst (libc_malloc P n s)) + n \<le> 2 ^ 64)
       \<and> (fst (libc_mmap P start n prot flgs fd offset s) = - 1 \<or>
           addr_range (fst (libc_mmap P start n prot flgs fd offset s)) n \<inter> E = {} \<and>
           unat (fst (libc_mmap P start n prot flgs fd offset s)) + n \<le> 2 ^ 64)"
proof -
  have "fst (libc_mmap P start n prot flgs fd offset s) = - 1 \<or>
      sgx_is_outside_enclave P (fst (libc_mmap P start n prot flgs fd offset s)) n \<noteq> 0"
    by (auto simp: libc_mmap_def split: prod.split)
  then show ?thesis
    using libc_malloc_ok(2) [OF assms, of n s "fst (libc_malloc P n s)" "snd (libc_malloc P n s)"] platform_okD(2) [OF assms] by auto
qed

theorem host_memory_outside_witness: "fst (libc_malloc (sample_host (\<lambda>_. 0) 0) 32 sample_state) = 0 \<or>
    addr_range (fst (libc_malloc (sample_host (\<lambda>_. 0) 0) 32 sample_state)) 32 \<inter> sample_enclave = {}"
  using host_memory_outside [OF sample_platform_ok, of "\<lambda>_. 0" 0 32 sample_state] by blast

text \<open>
  What the host chooses and nobody checks. A host exists for which \<^verbatim>\<open>read\<close> into a buffer of 16 bytes returns 17 and
  \<^verbatim>\<open>accept\<close> replaces the length 16 of the caller's address by 4096; and for every address the host has an answer to
  \<^verbatim>\<open>getpwuid_r\<close> that makes the name in the structure point to that address (except the one just below the buffer).
\<close>

theorem host_choices_unchecked:
  "(\<exists>P :: unit libc_ffi. platform_ok sample_enclave P \<and> fst (libc_read P 3 0x1000 16 sample_state) = 17 \<and>
      snd (fst (libc_accept P 3 0x1000 (Some 16) sample_state)) = Some 4096)
   \<and> (\<forall>buf pwd q. q - buf \<noteq> - 1 \<longrightarrow>
      (\<exists>filled. pw_name (fst (snd (getpwuid_r_tail SGX_SUCCESS 0 pwd buf filled 1))) = q))"
proof (intro conjI allI impI)
  have "fst (libc_read (sample_host (\<lambda>_. 17) 4096) 3 0x1000 16 sample_state) = 17" by (simp add: sample_read)
  moreover have "snd (fst (libc_accept (sample_host (\<lambda>_. 17) 4096) 3 0x1000 (Some 16) sample_state)) = Some 4096"
    by (simp add: libc_accept_def ocall_len_def sample_run)
  ultimately show "\<exists>P :: unit libc_ffi. platform_ok sample_enclave P \<and> fst (libc_read P 3 0x1000 16 sample_state) = 17 \<and>
      snd (fst (libc_accept P 3 0x1000 (Some 16) sample_state)) = Some 4096"
    using sample_platform_ok by blast
  fix buf pwd q :: addr assume "q - buf \<noteq> - 1"
  then show "\<exists>filled. pw_name (fst (snd (getpwuid_r_tail SGX_SUCCESS 0 pwd buf filled 1))) = q"
    by (intro exI [of _ "\<lparr>pw_name = q - buf, pw_passwd = 0, pw_gecos = 0, pw_dir = 0, pw_shell = 0\<rparr>"])
      (simp add: getpwuid_r_tail_def pw_pointer_def)
qed

theorem host_choices_unchecked_witness:
  "\<exists>filled. pw_name (fst (snd (getpwuid_r_tail SGX_SUCCESS 0 0x1000 0x1800 filled 1))) = 0x1000"
  using host_choices_unchecked by simp

end
