(* ===== verification/Sgx_Getaddrinfo.thy ===== *)
theory Sgx_Getaddrinfo
  imports Sgx_Ocall_Proofs
begin

text \<open>
  The calls of \<^verbatim>\<open>src/sgx_libc/src/linux/x86_64/ocall.rs\<close> that follow pointers of the host: \<^verbatim>\<open>getenv\<close>, \<^verbatim>\<open>environ\<close>, \<^verbatim>\<open>getcwd\<close>,
  \<^verbatim>\<open>realpath\<close> and \<^verbatim>\<open>getaddrinfo\<close> with its \<^verbatim>\<open>freeaddrinfo\<close>. The loops over strings and lists of the host need not end: they are
  partial functions, and not returning is \<open>None\<close>. The copy that \<^verbatim>\<open>getaddrinfo\<close> makes lives on the heap of the enclave, a map from the
  allocated addresses to their cells; freeing what is not allocated, or with another size, is \<open>Undef\<close>.
\<close>

section \<open>Strings of the host\<close>

partial_function (option) strlen :: "mem \<Rightarrow> nat \<Rightarrow> nat option" where
  "strlen m a = (if m a = 0 then Some 0 else Option.bind (strlen m (a + 1)) (\<lambda>n. Some (n + 1)))"

definition libc_getenv :: "('w, 'z) libc_ffi_scheme \<Rightarrow> addr \<Rightarrow> 'w libc_st \<Rightarrow> (addr \<times> 'w libc_st) option" where
  "libc_getenv P name s =
     (case do_ocall P (U_call ''u_getenv_ocall'' [APtr name]) s of (r, s1) \<Rightarrow>
        if r_status r = SGX_SUCCESS
        then if r_ptr r \<noteq> 0
             then Option.bind (strlen (mem s1) (unat (r_ptr r))) (\<lambda>n.
                    Some (if sgx_is_outside_enclave P (r_ptr r) (n + 1) = 0 then 0 else r_ptr r, s1))
             else Some (r_ptr r, s1)
        else Some (0, s1))"

definition libc_realpath :: "('w, 'z) libc_ffi_scheme \<Rightarrow> addr \<Rightarrow> 'w libc_st \<Rightarrow> (addr \<times> 'w libc_st) option" where
  "libc_realpath P pathname s =
     (case do_ocall P (U_call ''u_realpath_ocall'' [APtr pathname]) s of (r, s1) \<Rightarrow>
        if r_status r = SGX_SUCCESS
        then if r_ptr r \<noteq> 0
             then Option.bind (strlen (mem s1) (unat (r_ptr r))) (\<lambda>n.
                    Some (if sgx_is_outside_enclave P (r_ptr r) (n + 1) = 0 then (0, set_errno ESGX s1) else (r_ptr r, s1)))
             else Some (r_ptr r, set_errno (r_error r) s1)
        else Some (0, set_errno ESGX s1))"

definition libc_getcwd :: "('w, 'z) libc_ffi_scheme \<Rightarrow> addr \<Rightarrow> usize \<Rightarrow> 'w libc_st \<Rightarrow> (addr \<times> 'w libc_st) option" where
  "libc_getcwd P buf sz s =
     (case do_ocall P (U_call ''u_getcwd_ocall'' [APtr buf, ASize sz]) s of (r, s1) \<Rightarrow>
        if r_status r = SGX_SUCCESS
        then if r_ptr r \<noteq> 0
             then if buf = 0
                  then Option.bind (if 0 < sz then Some sz else map_option Suc (strlen (mem s1) (unat (r_ptr r)))) (\<lambda>len.
                         Some (if sgx_is_outside_enclave P (r_ptr r) len = 0 then (0, set_errno ESGX s1) else (r_ptr r, s1)))
                  else Some (buf, s1)
             else Some (r_ptr r, set_errno (r_error r) s1)
        else Some (0, set_errno ESGX s1))"

text \<open>The entry of an array of pointers.\<close>

definition ptr_at :: "mem \<Rightarrow> nat \<Rightarrow> addr" where
  "ptr_at m a = dec64 (map m [a..<a + 8])"

text \<open>The loop of \<^verbatim>\<open>environ\<close>: the number of strings, or \<open>None\<close> in the inner option when one of them is refused.\<close>

partial_function (option) environ_loop ::
  "('w, 'z) libc_ffi_scheme \<Rightarrow> mem \<Rightarrow> nat \<Rightarrow> nat \<Rightarrow> nat option option" where
  "environ_loop F m a count =
     (if ptr_at m a = 0 then Some (Some count)
      else Option.bind (strlen m (unat (ptr_at m a))) (\<lambda>n.
             if sgx_is_outside_enclave F (ptr_at m a) (n + 1) = 0 then Some None else environ_loop F m (a + 8) (count + 1)))"

definition libc_environ :: "('w, 'z) libc_ffi_scheme \<Rightarrow> 'w libc_st \<Rightarrow> (addr \<times> 'w libc_st) option" where
  "libc_environ P s =
     (case do_ocall P (U_call ''u_environ_ocall'' []) s of (r, s1) \<Rightarrow>
        if r_status r = SGX_SUCCESS
        then if r_ptr r \<noteq> 0
             then Option.bind (environ_loop P (mem s1) (unat (r_ptr r)) 0) (\<lambda>c.
                    case c of None \<Rightarrow> Some (0, s1)
                    | Some count \<Rightarrow> Some (if sgx_is_outside_enclave P (r_ptr r) (8 * count) = 0 then 0 else r_ptr r, s1))
             else Some (r_ptr r, s1)
        else Some (0, s1))"

section \<open>The heap of the enclave\<close>

text \<open>An \<^verbatim>\<open>addrinfo\<close> in the enclave; its pointers are addresses of the heap, 0 is null.\<close>

record addrinfo =
  ai_flags :: int
  ai_family :: int
  ai_socktype :: int
  ai_protocol :: int
  ai_addrlen :: usize
  ai_addr :: nat
  ai_canonname :: nat
  ai_next :: nat

datatype cell = Bytes bytes | Info addrinfo

record heap =
  cells :: "nat \<rightharpoonup> cell"
  fresh :: nat

definition halloc :: "cell \<Rightarrow> heap \<Rightarrow> nat \<times> heap" where
  "halloc c h = (fresh h, h\<lparr>cells := (cells h)(fresh h \<mapsto> c), fresh := fresh h + 1\<rparr>)"

text \<open>\<^verbatim>\<open>drop(Vec::from_raw_parts(p, len, len))\<close>\<close>

definition free_vec :: "nat \<Rightarrow> usize \<Rightarrow> heap \<Rightarrow> heap outcome" where
  "free_vec p len h =
     (case cells h p of
        Some (Bytes bs) \<Rightarrow> if length bs = len then Ret (h\<lparr>cells := (cells h)(p := None)\<rparr>) else Undef
      | _ \<Rightarrow> Undef)"

definition free_box :: "nat \<Rightarrow> heap \<Rightarrow> heap outcome" where
  "free_box p h =
     (case cells h p of Some (Info i) \<Rightarrow> Ret (h\<lparr>cells := (cells h)(p := None)\<rparr>) | _ \<Rightarrow> Undef)"

text \<open>\<^verbatim>\<open>strlen\<close> of a string in the enclave; without a zero byte it runs out of its cell.\<close>

definition cstr_len :: "nat \<Rightarrow> heap \<Rightarrow> nat outcome" where
  "cstr_len p h =
     (case cells h p of
        Some (Bytes bs) \<Rightarrow> if 0 \<in> set bs then Ret (length (takeWhile (\<lambda>b. b \<noteq> 0) bs)) else Undef
      | _ \<Rightarrow> Undef)"

definition bindU :: "'a outcome \<Rightarrow> ('a \<Rightarrow> 'b outcome) \<Rightarrow> 'b outcome" where
  "bindU x f = (case x of Ret a \<Rightarrow> f a | Undef \<Rightarrow> Undef | Panic \<Rightarrow> Panic)"

section \<open>getaddrinfo\<close>

definition EAI_SYSTEM :: int where "EAI_SYSTEM = - 11"

text \<open>The structure in the memory of the host, 48 bytes.\<close>

record host_addrinfo =
  h_flags :: int
  h_family :: int
  h_socktype :: int
  h_protocol :: int
  h_addrlen :: usize
  h_addr :: addr
  h_canonname :: addr
  h_next :: addr

definition int_at :: "mem \<Rightarrow> nat \<Rightarrow> int" where
  "int_at m a = sint (dec32 (map m [a..<a + 4]))"

definition addrinfo_at :: "mem \<Rightarrow> addr \<Rightarrow> host_addrinfo" where
  "addrinfo_at m p =
     (let a = unat p
      in \<lparr>h_flags = int_at m a, h_family = int_at m (a + 4), h_socktype = int_at m (a + 8), h_protocol = int_at m (a + 12),
          h_addrlen = le_val (map m [a + 16..<a + 20]), h_addr = ptr_at m (a + 24), h_canonname = ptr_at m (a + 32),
          h_next = ptr_at m (a + 40)\<rparr>)"

definition hint_of :: "(int \<times> int \<times> int \<times> int) option \<Rightarrow> int \<times> int \<times> int \<times> int" where
  "hint_of hints = (case hints of Some h \<Rightarrow> h | None \<Rightarrow> (0x28, 0, 0, 0))"

text \<open>
  One turn of the loop: the copy of the address and of the name of one structure. The inner option is \<open>None\<close> when the loop is left
  with an error; the heap then keeps what was copied so far.
\<close>

definition copy_addr :: "('w, 'z) libc_ffi_scheme \<Rightarrow> mem \<Rightarrow> host_addrinfo \<Rightarrow> heap \<Rightarrow> (usize \<times> nat) option \<times> heap" where
  "copy_addr P m cur h =
     (if h_addr cur \<noteq> 0 \<and> 0 < h_addrlen cur
      then if sgx_is_outside_enclave P (h_addr cur) (h_addrlen cur) = 0 then (None, h)
           else case halloc (Bytes (mem_load (h_addr cur) (h_addrlen cur) m)) h of (p, h') \<Rightarrow> (Some (h_addrlen cur, p), h')
      else (Some (0, 0), h))"

definition copy_name :: "('w, 'z) libc_ffi_scheme \<Rightarrow> mem \<Rightarrow> host_addrinfo \<Rightarrow> heap \<Rightarrow> (nat option \<times> heap) option" where
  "copy_name P m cur h =
     (if h_canonname cur \<noteq> 0
      then Option.bind (strlen m (unat (h_canonname cur))) (\<lambda>n.
             Some (if sgx_is_outside_enclave P (h_canonname cur) (n + 1) = 0 then (None, h)
                   else case halloc (Bytes (mem_load (h_canonname cur) (n + 1) m)) h of (p, h') \<Rightarrow> (Some p, h')))
      else Some (Some 0, h))"

definition info_of :: "host_addrinfo \<Rightarrow> usize \<Rightarrow> nat \<Rightarrow> nat \<Rightarrow> addrinfo" where
  "info_of cur addrlen addr canonname =
     \<lparr>ai_flags = h_flags cur, ai_family = h_family cur, ai_socktype = h_socktype cur, ai_protocol = h_protocol cur,
      ai_addrlen = addrlen, ai_addr = addr, ai_canonname = canonname, ai_next = 0\<rparr>"

partial_function (option) gai_loop ::
  "('w, 'z) libc_ffi_scheme \<Rightarrow> mem \<Rightarrow> addr \<Rightarrow> nat list \<Rightarrow> heap \<Rightarrow> (int \<times> nat list \<times> heap) option" where
  "gai_loop F m cur_ptr vec h =
     (if cur_ptr = 0 then Some (0, vec, h)
      else if sgx_is_outside_enclave F cur_ptr 48 = 0 then Some (EAI_SYSTEM, vec, h)
      else case copy_addr F m (addrinfo_at m cur_ptr) h of
             (None, h1) \<Rightarrow> Some (EAI_SYSTEM, vec, h1)
           | (Some (addrlen, addr), h1) \<Rightarrow>
               Option.bind (copy_name F m (addrinfo_at m cur_ptr) h1) (\<lambda>r.
                 case r of
                   (None, h2) \<Rightarrow> Some (EAI_SYSTEM, vec, h2)
                 | (Some name, h2) \<Rightarrow>
                     case halloc (Info (info_of (addrinfo_at m cur_ptr) addrlen addr name)) h2 of (p, h3) \<Rightarrow>
                       gai_loop F m (h_next (addrinfo_at m cur_ptr)) (vec @ [p]) h3))"

text \<open>The loop that chains the structures.\<close>

fun link :: "nat list \<Rightarrow> heap \<Rightarrow> heap" where
  "link (p # q # ps) h =
     link (q # ps) (case cells h p of Some (Info i) \<Rightarrow> h\<lparr>cells := (cells h)(p \<mapsto> Info (i\<lparr>ai_next := q\<rparr>))\<rparr> | _ \<Rightarrow> h)"
| "link _ h = h"

text \<open>The loop on the error path: what it releases for one structure, and the structure itself.\<close>

definition drop_one :: "nat \<Rightarrow> heap \<Rightarrow> heap outcome" where
  "drop_one p h =
     (case cells h p of
        Some (Info i) \<Rightarrow>
          bindU (if ai_addr i \<noteq> 0 then free_vec (ai_addr i) (ai_addrlen i) h else Ret h) (\<lambda>h1.
          bindU (if ai_canonname i \<noteq> 0
                 then bindU (cstr_len (ai_canonname i) h1) (\<lambda>n. free_vec (ai_addr i) (n + 1) h1)
                 else Ret h1) (\<lambda>h2.
          free_box p h2))
      | _ \<Rightarrow> Undef)"

fun drop_all :: "nat list \<Rightarrow> heap \<Rightarrow> heap outcome" where
  "drop_all [] h = Ret h"
| "drop_all (p # ps) h = bindU (drop_one p h) (drop_all ps)"

text \<open>What follows a successful call: the result, what \<^verbatim>\<open>*res\<close> holds and the heap.\<close>

definition gai_finish :: "int \<times> nat list \<times> heap \<Rightarrow> (int \<times> nat \<times> heap) outcome" where
  "gai_finish r =
     (case r of (result, vec, h) \<Rightarrow>
        if vec = [] then Ret (result, 0, h)
        else if result = 0 then Ret (result, hd vec, link vec h)
        else bindU (drop_all vec h) (\<lambda>h'. Ret (result, 0, h')))"

text \<open>The argument \<open>res\<close> is what \<^verbatim>\<open>*res\<close> holds at the call; an error other than \<^verbatim>\<open>EAI_SYSTEM\<close> leaves it there.\<close>

definition libc_getaddrinfo ::
  "('w, 'z) libc_ffi_scheme \<Rightarrow> addr \<Rightarrow> addr \<Rightarrow> (int \<times> int \<times> int \<times> int) option \<Rightarrow> nat \<Rightarrow> heap \<Rightarrow> 'w libc_st
     \<Rightarrow> ((int \<times> nat \<times> heap) outcome \<times> 'w libc_st) option" where
  "libc_getaddrinfo P node service hints res h s =
     (case hint_of hints of (fl, fam, ty, pr) \<Rightarrow>
      case do_ocall P (U_call ''u_getaddrinfo_ocall'' [APtr node, APtr service, AInt fl, AInt fam, AInt ty, AInt pr]) s of
        (r, s1) \<Rightarrow>
        if r_status r = SGX_SUCCESS
        then if r_result r = 0
             then Option.bind (gai_loop P (mem s1) (r_ptr r) [] h) (\<lambda>out.
                    let s2 = (if fst (snd out) \<noteq> [] \<and> fst out \<noteq> 0 then set_errno ESGX s1 else s1);
                        s3 = (if r_ptr r \<noteq> 0 then snd (do_ocall P (U_call ''u_freeaddrinfo_ocall'' [APtr (r_ptr r)]) s2) else s2)
                    in Some (gai_finish out, s3))
             else if r_result r = EAI_SYSTEM then Some (Ret (EAI_SYSTEM, 0, h), set_errno (r_error r) s1)
             else Some (Ret (r_result r, res, h), s1)
        else Some (Ret (EAI_SYSTEM, 0, h), set_errno ESGX s1))"

section \<open>freeaddrinfo\<close>

text \<open>The structures are released at the end, all together; \<open>boxes\<close> are those seen so far.\<close>

fun free_boxes :: "nat list \<Rightarrow> heap \<Rightarrow> heap outcome" where
  "free_boxes [] h = Ret h"
| "free_boxes (p # ps) h = bindU (free_box p h) (free_boxes ps)"

partial_function (option) freeaddrinfo_loop :: "nat \<Rightarrow> nat list \<Rightarrow> heap \<Rightarrow> heap outcome option" where
  "freeaddrinfo_loop cur_ptr boxes h =
     (if cur_ptr = 0 then Some (free_boxes boxes h)
      else case cells h cur_ptr of
             Some (Info cur) \<Rightarrow>
               (case bindU (if ai_addr cur \<noteq> 0 \<and> 0 < ai_addrlen cur then free_vec (ai_addr cur) (ai_addrlen cur) h else Ret h) (\<lambda>h1.
                     if ai_canonname cur \<noteq> 0
                     then bindU (cstr_len (ai_canonname cur) h1) (\<lambda>n. free_vec (ai_canonname cur) (n + 1) h1)
                     else Ret h1) of
                  Ret h2 \<Rightarrow> freeaddrinfo_loop (ai_next cur) (boxes @ [cur_ptr]) h2
                | Undef \<Rightarrow> Some Undef
                | Panic \<Rightarrow> Some Panic)
           | _ \<Rightarrow> Some Undef)"

definition libc_freeaddrinfo :: "nat \<Rightarrow> heap \<Rightarrow> heap outcome option" where
  "libc_freeaddrinfo res h = freeaddrinfo_loop res [] h"

end
