(* ===== verification/Sgx_Getaddrinfo_Proofs.thy ===== *)
theory Sgx_Getaddrinfo_Proofs
  imports Sgx_Getaddrinfo
begin

text \<open>
  What the calls of \<open>Sgx_Getaddrinfo\<close> guarantee: when their loops return, that the strings they hand out lie outside the enclave, that
  \<^verbatim>\<open>freeaddrinfo\<close> releases exactly what \<^verbatim>\<open>getaddrinfo\<close> allocated, and what the error path of \<^verbatim>\<open>getaddrinfo\<close> does to the heap.
\<close>

section \<open>Strings of the host\<close>

lemmas strlen_induct = strlen.raw_induct [rotated, consumes 1, case_names step]

lemma strlen_sound:
  "strlen m a = Some n \<Longrightarrow> m (a + n) = 0 \<and> (\<forall>i<n. m (a + i) \<noteq> 0)"
proof (induction m a n rule: strlen_induct)
  case (step f m a n)
  show ?case
  proof (cases "m a = 0")
    case False
    with step(2) obtain k where k: "f m (a + 1) = Some k" and n: "n = k + 1"
      by (auto simp: bind_eq_Some_conv)
    have rest: "m (a + 1 + k) = 0" "\<forall>i<k. m (a + 1 + i) \<noteq> 0"
      using step(1) [OF k] by auto
    have "m (a + i) \<noteq> 0" if "i < n" for i
      using that False rest(2) n by (cases i) auto
    with rest(1) n show ?thesis
      by simp
  qed (use step(2) in auto)
qed

lemma strlen_complete:
  "m (a + n) = 0 \<Longrightarrow> \<forall>i<n. m (a + i) \<noteq> 0 \<Longrightarrow> strlen m a = Some n"
proof (induction n arbitrary: a)
  case 0
  then show ?case by (subst strlen.simps) simp
next
  case (Suc n)
  have "\<forall>i<n. m (a + 1 + i) \<noteq> 0"
    using Suc.prems(2) by (metis Suc_mono add.assoc add.commute plus_1_eq_Suc)
  then have "strlen m (a + 1) = Some n"
    using Suc.IH [of "a + 1"] Suc.prems(1) by simp
  moreover have "m a \<noteq> 0"
    using Suc.prems(2) by (metis add.right_neutral zero_less_Suc)
  ultimately show ?case
    by (subst strlen.simps) simp
qed

lemma strlen_iff:
  "strlen m a = Some n \<longleftrightarrow> m (a + n) = 0 \<and> (\<forall>i<n. m (a + i) \<noteq> 0)"
  using strlen_sound strlen_complete by blast

lemma strlen_None_iff: "strlen m a = None \<longleftrightarrow> (\<forall>k. m (a + k) \<noteq> 0)"
proof
  assume none: "strlen m a = None"
  show "\<forall>k. m (a + k) \<noteq> 0"
  proof
    fix k show "m (a + k) \<noteq> 0"
    proof
      assume "m (a + k) = 0"
      then have "m (a + (LEAST k. m (a + k) = 0)) = 0"
        by (rule LeastI)
      moreover have "\<forall>i<(LEAST k. m (a + k) = 0). m (a + i) \<noteq> 0"
        using not_less_Least by blast
      ultimately have "strlen m a = Some (LEAST k. m (a + k) = 0)"
        by (rule strlen_complete)
      with none show False by simp
    qed
  qed
next
  assume "\<forall>k. m (a + k) \<noteq> 0"
  then show "strlen m a = None"
    using strlen_sound by (metis not_None_eq)
qed

text \<open>A terminated string that does not touch the enclave \<open>E\<close>.\<close>

definition string_outside :: "nat set \<Rightarrow> mem \<Rightarrow> addr \<Rightarrow> bool" where
  "string_outside E m p \<longleftrightarrow> (\<exists>n. strlen m (unat p) = Some n \<and> addr_range p (n + 1) \<inter> E = {} \<and> unat p + n + 1 \<le> 2 ^ 64)"

lemma string_outsideI:
  assumes "platform_ok E P" and "strlen m (unat p) = Some n" and "sgx_is_outside_enclave P p (n + 1) \<noteq> 0"
  shows "string_outside E m p"
  using platform_okD(2) [OF assms(1,3)] assms(2) by (auto simp: string_outside_def)

lemmas environ_loop_induct = environ_loop.raw_induct [rotated, consumes 1, case_names step]

lemma environ_loop_strings:
  assumes "environ_loop P m a count = Some c" and "platform_ok E P" and "c = Some k"
  shows "count \<le> k \<and> ptr_at m (a + 8 * (k - count)) = 0 \<and>
         (\<forall>j<k - count. ptr_at m (a + 8 * j) \<noteq> 0 \<and> string_outside E m (ptr_at m (a + 8 * j)))"
  using assms
proof (induction P m a count c rule: environ_loop_induct)
  case (step f P m a count c)
  show ?case
  proof (cases "ptr_at m a = 0")
    case False
    then obtain n where n: "strlen m (unat (ptr_at m a)) = Some n" "sgx_is_outside_enclave P (ptr_at m a) (n + 1) \<noteq> 0"
      and rest: "f P m (a + 8) (count + 1) = Some c"
      using step.hyps step.prems(2) by (auto simp: bind_eq_Some_conv split: if_splits)
    have IH: "count + 1 \<le> k" "ptr_at m (a + 8 + 8 * (k - (count + 1))) = 0"
      "\<forall>j<k - (count + 1). ptr_at m (a + 8 + 8 * j) \<noteq> 0 \<and> string_outside E m (ptr_at m (a + 8 + 8 * j))"
      using step.IH [OF rest step.prems] by auto
    have shift: "k - count = Suc (k - (count + 1))" using IH(1) by simp
    have "ptr_at m (a + 8 * j) \<noteq> 0 \<and> string_outside E m (ptr_at m (a + 8 * j))" if "j < k - count" for j
    proof (cases j)
      case 0
      with False string_outsideI [OF step.prems(1) n] show ?thesis by simp
    next
      case (Suc i)
      with that IH(3) shift show ?thesis by (simp add: add.assoc)
    qed
    with IH(1,2) shift show ?thesis by (simp add: add.assoc)
  qed (use step.hyps step.prems(2) in auto)
qed

text \<open>
  The strings of the host that the enclave goes on to use lie outside of the enclave. What \<^verbatim>\<open>getenv\<close> and \<^verbatim>\<open>realpath\<close> return, and
  \<^verbatim>\<open>getcwd\<close> without a buffer of the caller and without a size, is null or a terminated string that does not touch the enclave; \<^verbatim>\<open>environ\<close> returns
  null or an array, outside of the enclave up to the final null pointer, of such strings.
\<close>

theorem host_strings_outside:
  assumes "platform_ok E P"
  shows "(libc_getenv P name s = Some (p, s') \<longrightarrow> p = 0 \<or> string_outside E (mem s') p) \<and>
         (libc_realpath P path s = Some (p, s') \<longrightarrow> p = 0 \<or> string_outside E (mem s') p) \<and>
         (libc_getcwd P 0 0 s = Some (p, s') \<longrightarrow> p = 0 \<or> string_outside E (mem s') p) \<and>
         (libc_environ P s = Some (p, s') \<longrightarrow> p = 0 \<or>
            (\<exists>k. addr_range p (8 * k) \<inter> E = {} \<and> ptr_at (mem s') (unat p + 8 * k) = 0 \<and>
                 (\<forall>j<k. string_outside E (mem s') (ptr_at (mem s') (unat p + 8 * j)))))"
proof (intro conjI impI)
  note outside = string_outsideI [OF assms]
  show "p = 0 \<or> string_outside E (mem s') p" if "libc_getenv P name s = Some (p, s')"
    using that outside by (auto simp: libc_getenv_def bind_eq_Some_conv split: prod.splits if_splits)
  show "p = 0 \<or> string_outside E (mem s') p" if "libc_realpath P path s = Some (p, s')"
    using that outside by (auto simp: libc_realpath_def bind_eq_Some_conv split: prod.splits if_splits)
  show "p = 0 \<or> string_outside E (mem s') p" if "libc_getcwd P 0 0 s = Some (p, s')"
    using that outside by (auto simp: libc_getcwd_def bind_eq_Some_conv split: prod.splits if_splits)
  show "p = 0 \<or> (\<exists>k. addr_range p (8 * k) \<inter> E = {} \<and> ptr_at (mem s') (unat p + 8 * k) = 0 \<and>
                 (\<forall>j<k. string_outside E (mem s') (ptr_at (mem s') (unat p + 8 * j))))"
    if run: "libc_environ P s = Some (p, s')"
  proof (cases "p = 0")
    case False
    then obtain k where loop: "environ_loop P (mem s') (unat p) 0 = Some (Some k)"
      and out: "sgx_is_outside_enclave P p (8 * k) \<noteq> 0"
      using run by (auto simp: libc_environ_def bind_eq_Some_conv split: prod.splits if_splits option.splits)
    show ?thesis
      using environ_loop_strings [OF loop assms refl] platform_okD(2) [OF assms out] by auto
  qed simp
qed

text \<open>Hosts that answer with a given pointer and fill the memory outside of the enclave with \<open>m\<close>.\<close>

definition list_host :: "mem \<Rightarrow> addr \<Rightarrow> unit libc_ffi" where
  "list_host m p = (sample_host (\<lambda>_. 0) 0)\<lparr>u_ocall := \<lambda>c m0 w.
     (\<lparr>r_status = SGX_SUCCESS, r_result = 0, r_ptr = p, r_error = 0, r_len = 0, r_len2 = 0, r_flags = 0,
       r_mem = (\<lambda>a. if a \<in> sample_enclave then m0 a else m a)\<rparr>, w)\<rparr>"

lemma list_host_ok: "platform_ok sample_enclave (list_host m p)"
  unfolding platform_ok_def sample_enclave_def sample_host_def addr_range_def list_host_def
  by (auto split: if_splits)

lemma list_host_ocall:
  assumes "\<And>a. a \<in> sample_enclave \<Longrightarrow> m a = 0"
  shows "do_ocall (list_host m p) c sample_state =
     (\<lparr>r_status = SGX_SUCCESS, r_result = 0, r_ptr = p, r_error = 0, r_len = 0, r_len2 = 0, r_flags = 0, r_mem = m\<rparr>,
      sample_state\<lparr>mem := m\<rparr>)"
  using assms by (auto simp: do_ocall_def list_host_def sample_state_def fun_eq_iff)

lemma list_host_outside [simp]:
  "sgx_is_outside_enclave (list_host m p) q n = (if 0x2000 \<le> unat q \<and> unat q + n \<le> 2 ^ 64 then 1 else 0)"
  by (simp add: list_host_def sample_host_def)

definition sample_word :: mem where
  "sample_word = (\<lambda>_. 0)(0x3000 := 0x61)"

theorem host_strings_outside_witness:
  "\<exists>s'. libc_getenv (list_host sample_word 0x3000) 0x5000 sample_state = Some (0x3000, s') \<and>
     string_outside sample_enclave (mem s') 0x3000"
proof -
  have "strlen sample_word 0x3000 = Some 1"
    by (rule strlen_complete) (auto simp: sample_word_def)
  moreover have "do_ocall (list_host sample_word 0x3000) c sample_state =
     (\<lparr>r_status = SGX_SUCCESS, r_result = 0, r_ptr = 0x3000, r_error = 0, r_len = 0, r_len2 = 0, r_flags = 0, r_mem = sample_word\<rparr>,
      sample_state\<lparr>mem := sample_word\<rparr>)" for c
    by (rule list_host_ocall) (auto simp: sample_word_def sample_enclave_def)
  ultimately have run: "libc_getenv (list_host sample_word 0x3000) 0x5000 sample_state = Some (0x3000, sample_state\<lparr>mem := sample_word\<rparr>)"
    by (simp add: libc_getenv_def)
  with host_strings_outside [OF list_host_ok, of sample_word "0x3000" "0x5000" sample_state "0x3000" "sample_state\<lparr>mem := sample_word\<rparr>" 0]
  show ?thesis by auto
qed

section \<open>When getaddrinfo returns\<close>

text \<open>One turn of the loop: it leaves the loop, never ends (in \<^verbatim>\<open>strlen\<close>), or goes on with the next structure.\<close>

datatype turn = Leave | Hang | Go

definition gai_turn :: "('w, 'z) libc_ffi_scheme \<Rightarrow> mem \<Rightarrow> addr \<Rightarrow> turn" where
  "gai_turn P m p =
     (let cur = addrinfo_at m p
      in if p = 0 \<or> sgx_is_outside_enclave P p 48 = 0 then Leave
         else if h_addr cur \<noteq> 0 \<and> 0 < h_addrlen cur \<and> sgx_is_outside_enclave P (h_addr cur) (h_addrlen cur) = 0 then Leave
         else if h_canonname cur = 0 then Go
         else case strlen m (unat (h_canonname cur)) of
                None \<Rightarrow> Hang
              | Some n \<Rightarrow> if sgx_is_outside_enclave P (h_canonname cur) (n + 1) = 0 then Leave else Go)"

inductive gai_ends :: "('w, 'z) libc_ffi_scheme \<Rightarrow> mem \<Rightarrow> addr \<Rightarrow> bool" for P m where
  leave: "gai_turn P m p = Leave \<Longrightarrow> gai_ends P m p"
| go: "gai_turn P m p = Go \<Longrightarrow> gai_ends P m (h_next (addrinfo_at m p)) \<Longrightarrow> gai_ends P m p"

lemmas gai_turn_simps = gai_turn_def Let_def copy_addr_def copy_name_def halloc_def

lemma gai_loop_null [simp]: "gai_loop P m 0 vec h = Some (0, vec, h)"
  by (subst gai_loop.simps) simp

lemma gai_loop_leave: "gai_turn P m p = Leave \<Longrightarrow> \<exists>out. gai_loop P m p vec h = Some out"
  by (subst gai_loop.simps) (auto simp: gai_turn_simps split: if_splits option.splits)

lemma gai_loop_hang: "gai_turn P m p = Hang \<Longrightarrow> gai_loop P m p vec h = None"
  by (subst gai_loop.simps) (auto simp: gai_turn_simps split: if_splits option.splits)

lemma gai_loop_go:
  "gai_turn P m p = Go \<Longrightarrow> \<exists>vec' h'. gai_loop P m p vec h = gai_loop P m (h_next (addrinfo_at m p)) vec' h'"
  by (subst gai_loop.simps) (auto simp: gai_turn_simps split: if_splits option.splits)

lemma gai_loop_ends: "gai_ends P m p \<Longrightarrow> \<exists>out. gai_loop P m p vec h = Some out"
proof (induction arbitrary: vec h rule: gai_ends.induct)
  case (go p)
  then show ?case using gai_loop_go [OF go.hyps(1), of vec h] by metis
qed (rule gai_loop_leave)

lemmas gai_loop_induct = gai_loop.raw_induct [rotated, consumes 1, case_names step]

lemma gai_loop_returns_ends:
  assumes "gai_loop P m p vec h = Some out"
  shows "gai_ends P m p"
  using assms
proof (induction P m p vec h out rule: gai_loop_induct)
  case (step f P m p vec h out)
  let ?next = "h_next (addrinfo_at m p)"
  have next_ends: "gai_ends P m ?next" if "f P m ?next vec' h' = Some out" for vec' h'
    using step(1) that by blast
  show ?case
  proof (cases "gai_turn P m p")
    case Hang
    with step(2) show ?thesis
      by (auto simp: gai_turn_simps split: if_splits option.splits)
  next
    case Go
    have "gai_ends P m ?next"
      using step(2) Go by (auto simp: gai_turn_simps split: if_splits option.splits dest: next_ends)
    with Go show ?thesis
      by (rule gai_ends.go)
  qed (rule gai_ends.leave)
qed

lemma gai_loop_returns_iff: "(\<exists>out. gai_loop P m p vec h = Some out) \<longleftrightarrow> gai_ends P m p"
  using gai_loop_ends gai_loop_returns_ends by blast

text \<open>A list that runs in a circle never ends.\<close>

lemma gai_ends_not_closed:
  assumes "gai_ends P m p"
  shows "p \<in> C \<Longrightarrow> \<exists>q\<in>C. gai_turn P m q \<noteq> Go \<or> h_next (addrinfo_at m q) \<notin> C"
  using assms
proof (induction rule: gai_ends.induct)
  case (leave p)
  then show ?case by (metis turn.distinct(3))
next
  case (go p)
  then show ?case by blast
qed


section \<open>The structures on the heap\<close>

text \<open>
  An entry is the address of a structure with its contents. The blocks of the entries are pairwise different, and each is what its
  structure says: the address has \<^verbatim>\<open>ai_addrlen\<close> bytes, the name ends with its first zero byte.
\<close>

type_synonym entry = "nat \<times> addrinfo"

definition payload :: "addrinfo \<Rightarrow> nat list" where
  "payload i = (if ai_addr i = 0 then [] else [ai_addr i]) @ (if ai_canonname i = 0 then [] else [ai_canonname i])"

definition blocks :: "entry \<Rightarrow> nat list" where
  "blocks e = fst e # payload (snd e)"

definition c_string :: "bytes \<Rightarrow> bool" where
  "c_string bs \<longleftrightarrow> 0 \<in> set bs \<and> Suc (length (takeWhile (\<lambda>b. b \<noteq> 0) bs)) = length bs"

definition payload_ok :: "heap \<Rightarrow> addrinfo \<Rightarrow> bool" where
  "payload_ok h i \<longleftrightarrow>
     (ai_addr i \<noteq> 0 \<longrightarrow> 0 < ai_addrlen i \<and> (\<exists>bs. cells h (ai_addr i) = Some (Bytes bs) \<and> length bs = ai_addrlen i)) \<and>
     (ai_canonname i \<noteq> 0 \<longrightarrow> (\<exists>bs. cells h (ai_canonname i) = Some (Bytes bs) \<and> c_string bs))"

definition entry_ok :: "heap \<Rightarrow> entry \<Rightarrow> bool" where
  "entry_ok h e \<longleftrightarrow> cells h (fst e) = Some (Info (snd e)) \<and> payload_ok h (snd e)"

definition heap_ok :: "heap \<Rightarrow> bool" where
  "heap_ok h \<longleftrightarrow> 0 < fresh h \<and> cells h 0 = None \<and> (\<forall>a \<ge> fresh h. cells h a = None)"

definition all_blocks :: "entry list \<Rightarrow> nat list" where
  "all_blocks es = concat (map blocks es)"

lemma all_blocks_simps [simp]:
  "all_blocks [] = []"
  "all_blocks (e # es) = blocks e @ all_blocks es"
  "all_blocks (es @ es') = all_blocks es @ all_blocks es'"
  by (simp_all add: all_blocks_def)

text \<open>What the loop has built from the heap \<open>h0\<close>: the entries, and nothing else.\<close>

definition built :: "heap \<Rightarrow> entry list \<Rightarrow> heap \<Rightarrow> bool" where
  "built h0 es h \<longleftrightarrow>
     heap_ok h \<and> fresh h0 \<le> fresh h \<and>
     (\<forall>e\<in>set es. entry_ok h e) \<and> distinct (all_blocks es) \<and>
     (\<forall>a\<in>set (all_blocks es). fresh h0 \<le> a \<and> a < fresh h) \<and>
     (\<forall>a<fresh h0. cells h a = cells h0 a)"

text \<open>Nothing was allocated since \<open>h0\<close> but the blocks of the entries.\<close>

definition tight :: "heap \<Rightarrow> entry list \<Rightarrow> heap \<Rightarrow> bool" where
  "tight h0 es h \<longleftrightarrow> (\<forall>a \<ge> fresh h0. a \<notin> set (all_blocks es) \<longrightarrow> cells h a = None)"

lemma entry_ok_agree:
  assumes "entry_ok h e" and "\<And>a. a \<in> set (blocks e) \<Longrightarrow> cells h' a = cells h a"
  shows "entry_ok h' e"
  using assms by (auto simp: entry_ok_def payload_ok_def blocks_def payload_def split: if_splits)

lemma c_string_load:
  assumes "strlen m (unat p) = Some n"
  shows "c_string (mem_load p (n + 1) m)"
proof -
  have z: "m (unat p + n) = 0" and nz: "\<forall>i<n. m (unat p + i) \<noteq> 0"
    using strlen_sound [OF assms] by auto
  have split: "mem_load p (n + 1) m = map (\<lambda>i. m (unat p + i)) [0..<n] @ [0]"
    using z by (simp add: mem_load_def)
  have "takeWhile (\<lambda>b. b \<noteq> 0) (map (\<lambda>i. m (unat p + i)) [0..<n] @ [0]) = map (\<lambda>i. m (unat p + i)) [0..<n]"
    using nz by (subst takeWhile_append2) auto
  then show ?thesis
    unfolding c_string_def split by simp
qed

text \<open>Allocating one block keeps what was built.\<close>

lemma built_alloc:
  assumes "built h0 es h" and "halloc c h = (p, h')"
  shows "built h0 es h'" and "cells h' = (cells h)(p \<mapsto> c)" and "p = fresh h" and "fresh h' = Suc (fresh h)"
    and "p \<notin> set (all_blocks es)" and "p \<noteq> 0"
proof -
  show cells: "cells h' = (cells h)(p \<mapsto> c)" and p: "p = fresh h" and fresh: "fresh h' = Suc (fresh h)"
    using assms(2) by (auto simp: halloc_def)
  show notin: "p \<notin> set (all_blocks es)" and "p \<noteq> 0"
    using assms(1) by (auto simp: built_def heap_ok_def p)
  have "entry_ok h' e" if "e \<in> set es" for e
  proof (rule entry_ok_agree)
    show "entry_ok h e" using assms(1) that by (simp add: built_def)
    show "cells h' a = cells h a" if "a \<in> set (blocks e)" for a
      using that notin \<open>e \<in> set es\<close> by (auto simp: cells all_blocks_def)
  qed
  moreover have "heap_ok h'"
    using assms(1) by (auto simp: built_def heap_ok_def cells fresh p)
  moreover have "\<forall>a\<in>set (all_blocks es). fresh h0 \<le> a \<and> a < fresh h'" and "\<forall>a<fresh h0. cells h' a = cells h0 a"
    and "fresh h0 \<le> fresh h'"
    using assms(1) by (auto simp: built_def cells fresh p less_Suc_eq)
  ultimately show "built h0 es h'"
    using assms(1) unfolding built_def by blast
qed

text \<open>The copies of the address and of the name are blocks of their own, or null.\<close>

definition copied :: "heap \<Rightarrow> nat \<Rightarrow> heap \<Rightarrow> (bytes \<Rightarrow> bool) \<Rightarrow> bool" where
  "copied h p h' Q \<longleftrightarrow>
     (if p = 0 then h' = h
      else p = fresh h \<and> fresh h' = Suc (fresh h) \<and> (\<exists>bs. Q bs \<and> cells h' = (cells h)(p \<mapsto> Bytes bs)))"

lemma copy_addr_copied:
  assumes "copy_addr P m cur h = (Some (len, p), h')" and "0 < fresh h"
  shows "copied h p h' (\<lambda>bs. 0 < len \<and> length bs = len)"
  using assms
  by (auto simp: copy_addr_def copied_def halloc_def split: if_splits
      intro!: exI [of _ "mem_load (h_addr cur) (h_addrlen cur) m"])

lemma copy_name_copied:
  assumes "copy_name P m cur h = Some (Some p, h')" and "0 < fresh h"
  shows "copied h p h' c_string"
  using assms
  by (auto simp: copy_name_def copied_def halloc_def bind_eq_Some_conv split: if_splits intro: c_string_load [simplified])

lemma built_copied:
  assumes "built h0 es h" and "copied h p h' Q"
  shows "built h0 es h'"
proof (cases "p = 0")
  case False
  then obtain bs where "cells h' = (cells h)(p \<mapsto> Bytes bs)" "p = fresh h" "fresh h' = Suc (fresh h)"
    using assms(2) by (auto simp: copied_def)
  then have "halloc (Bytes bs) h = (p, h')"
    by (simp add: halloc_def)
  then show ?thesis
    using built_alloc(1) [OF assms(1)] by blast
qed (use assms in \<open>simp add: copied_def\<close>)

lemma built_turn:
  assumes built: "built h0 es h"
    and addr: "copied h ad h1 (\<lambda>bs. 0 < al \<and> length bs = al)"
    and name: "copied h1 nm h2 c_string"
    and info: "ai_addr i = ad" "ai_addrlen i = al" "ai_canonname i = nm"
    and alloc: "halloc (Info i) h2 = (p, h3)"
  shows "built h0 (es @ [(p, i)]) h3 \<and> (tight h0 es h \<longrightarrow> tight h0 (es @ [(p, i)]) h3)"
proof -
  have built2: "built h0 es h2"
    using built_copied [OF built_copied [OF built addr] name] .
  note new = built_alloc [OF built2 alloc]
  have fresh: "fresh h0 \<le> fresh h" "\<forall>a\<in>set (all_blocks es). a < fresh h" "0 < fresh h"
    using built by (auto simp: built_def heap_ok_def)
  have range: "\<forall>a\<in>set (blocks (p, i)). fresh h \<le> a \<and> a < fresh h3"
    using addr name new(3,4) fresh(3)
    by (auto simp: blocks_def payload_def info copied_def split: if_splits)
  have "distinct (blocks (p, i))"
    using addr name new(3,4) fresh(3)
    by (auto simp: blocks_def payload_def info copied_def split: if_splits)
  moreover have "set (all_blocks es) \<inter> set (blocks (p, i)) = {}"
    using range fresh(2) by fastforce
  moreover have "entry_ok h3 (p, i)"
    using addr name new(2,3) fresh(3)
    by (auto simp: entry_ok_def payload_ok_def info copied_def split: if_splits)
  ultimately have "built h0 (es @ [(p, i)]) h3"
    using new(1) range fresh(1) unfolding built_def by (auto intro: order_trans)
  moreover have "tight h0 (es @ [(p, i)]) h3" if "tight h0 es h"
    using that addr name new(2,3)
    by (auto simp: tight_def blocks_def payload_def info copied_def split: if_splits)
  ultimately show ?thesis by blast
qed

lemma gai_loop_built:
  assumes "gai_loop P m p vec h = Some out" and "built h0 es h" and "map fst es = vec" and "\<forall>e\<in>set es. ai_next (snd e) = 0"
  shows "\<exists>es'. built h0 es' (snd (snd out)) \<and> map fst es' = fst (snd out) \<and> (\<forall>e\<in>set es'. ai_next (snd e) = 0) \<and>
           (fst out = 0 \<longrightarrow> tight h0 es h \<longrightarrow> tight h0 es' (snd (snd out)))"
  using assms
proof (induction P m p vec h out arbitrary: es rule: gai_loop_induct)
  case (step f P m p vec h out)
  let ?cur = "addrinfo_at m p"
  have pos: "0 < fresh h" using step.prems(1) by (simp add: built_def heap_ok_def)
  have not0: "EAI_SYSTEM \<noteq> 0" by (simp add: EAI_SYSTEM_def)
  consider (finished) "out = (0, vec, h)"
    | (refused) "out = (EAI_SYSTEM, vec, h)"
    | (name) al ad h1 where "copy_addr P m ?cur h = (Some (al, ad), h1)" "out = (EAI_SYSTEM, vec, h1)"
    | (go) al ad h1 nm h2 q h3 where "copy_addr P m ?cur h = (Some (al, ad), h1)" "copy_name P m ?cur h1 = Some (Some nm, h2)"
        "halloc (Info (info_of ?cur al ad nm)) h2 = (q, h3)" "f P m (h_next ?cur) (vec @ [q]) h3 = Some out"
    using step.hyps
    by (auto simp: bind_eq_Some_conv copy_addr_def copy_name_def split: if_splits prod.splits option.splits)
  then show ?case
  proof cases
    case name
    then have "built h0 es h1" using built_copied [OF step.prems(1) copy_addr_copied [OF name(1) pos]] by blast
    then show ?thesis using name(2) step.prems not0 by (intro exI [of _ es]) auto
  next
    case go
    note turn = built_turn [OF step.prems(1) copy_addr_copied [OF go(1) pos]]
    have "0 < fresh h1"
      using built_copied [OF step.prems(1) copy_addr_copied [OF go(1) pos]] by (simp add: built_def heap_ok_def)
    then have next_built: "built h0 (es @ [(q, info_of ?cur al ad nm)]) h3"
      and "tight h0 es h \<longrightarrow> tight h0 (es @ [(q, info_of ?cur al ad nm)]) h3"
      using turn [OF copy_name_copied [OF go(2)] _ _ _ go(3)] by (auto simp: info_of_def)
    moreover have "map fst (es @ [(q, info_of ?cur al ad nm)]) = vec @ [q]"
      and "\<forall>e\<in>set (es @ [(q, info_of ?cur al ad nm)]). ai_next (snd e) = 0"
      using step.prems by (auto simp: info_of_def)
    ultimately show ?thesis
      using step.IH [OF go(4) next_built] by blast
  qed (use step.prems not0 in \<open>auto intro!: exI [of _ es]\<close>)
qed

section \<open>Releasing the structures\<close>

text \<open>Two heaps that agree on the blocks of the entries hold the same entries.\<close>

lemma entries_agree:
  assumes "\<forall>e\<in>set es. entry_ok h e" and "\<forall>a\<in>set (all_blocks es). cells h' a = cells h a"
  shows "\<forall>e\<in>set es. entry_ok h' e"
  using assms entry_ok_agree by (auto simp: all_blocks_def)

lemma free_vec_ok:
  "cells h p = Some (Bytes bs) \<Longrightarrow> free_vec p (length bs) h = Ret (h\<lparr>cells := (cells h)(p := None)\<rparr>)"
  by (simp add: free_vec_def)

lemma free_name_ok:
  assumes "cells h p = Some (Bytes bs)" and "c_string bs"
  shows "bindU (cstr_len p h) (\<lambda>n. free_vec p (n + 1) h) = Ret (h\<lparr>cells := (cells h)(p := None)\<rparr>)"
  using assms free_vec_ok [OF assms(1)] by (simp add: bindU_def cstr_len_def c_string_def)

text \<open>Releasing the address and the name of a structure as \<^verbatim>\<open>freeaddrinfo\<close> does.\<close>

definition free_payload :: "addrinfo \<Rightarrow> heap \<Rightarrow> heap outcome" where
  "free_payload cur h =
     bindU (if ai_addr cur \<noteq> 0 \<and> 0 < ai_addrlen cur then free_vec (ai_addr cur) (ai_addrlen cur) h else Ret h) (\<lambda>h1.
       if ai_canonname cur \<noteq> 0
       then bindU (cstr_len (ai_canonname cur) h1) (\<lambda>n. free_vec (ai_canonname cur) (n + 1) h1)
       else Ret h1)"

lemma free_payload_ok:
  assumes "payload_ok h i" and "distinct (payload i)"
  shows "\<exists>h'. free_payload i h = Ret h' \<and> cells h' = cells h |` (- set (payload i))"
proof -
  have addr: "\<exists>h1. (if ai_addr i \<noteq> 0 \<and> 0 < ai_addrlen i then free_vec (ai_addr i) (ai_addrlen i) h else Ret h) = Ret h1 \<and>
      cells h1 = cells h |` (- (if ai_addr i = 0 then {} else {ai_addr i}))"
    using assms(1) free_vec_ok
    by (auto simp: payload_ok_def restrict_map_def fun_eq_iff dest!: free_vec_ok)
  then obtain h1 where h1: "(if ai_addr i \<noteq> 0 \<and> 0 < ai_addrlen i then free_vec (ai_addr i) (ai_addrlen i) h else Ret h) = Ret h1"
    and c1: "cells h1 = cells h |` (- (if ai_addr i = 0 then {} else {ai_addr i}))"
    by blast
  show ?thesis
  proof (cases "ai_canonname i = 0")
    case True
    then show ?thesis
      using h1 c1 by (auto simp: free_payload_def bindU_def payload_def)
  next
    case False
    then obtain bs where bs: "cells h (ai_canonname i) = Some (Bytes bs)" "c_string bs"
      using assms(1) by (auto simp: payload_ok_def)
    then have "cells h1 (ai_canonname i) = Some (Bytes bs)"
      using assms(2) False c1 by (auto simp: payload_def restrict_map_def)
    from free_name_ok [OF this bs(2)] show ?thesis
      using h1 c1 False
      by (auto simp: free_payload_def bindU_def payload_def restrict_map_def fun_eq_iff)
  qed
qed

lemma free_boxes_ok:
  assumes "\<forall>p\<in>set ps. \<exists>i. cells h p = Some (Info i)" and "distinct ps"
  shows "\<exists>h'. free_boxes ps h = Ret h' \<and> cells h' = cells h |` (- set ps)"
  using assms
proof (induction ps arbitrary: h)
  case (Cons p ps)
  obtain i where i: "cells h p = Some (Info i)" using Cons.prems(1) by auto
  let ?h = "h\<lparr>cells := (cells h)(p := None)\<rparr>"
  have "\<forall>q\<in>set ps. \<exists>i. cells ?h q = Some (Info i)" using Cons.prems by auto
  moreover have "distinct ps" using Cons.prems(2) by simp
  ultimately obtain h' where "free_boxes ps ?h = Ret h'" "cells h' = cells ?h |` (- set ps)"
    using Cons.IH by blast
  then show ?case
    using i by (auto simp: free_box_def bindU_def restrict_map_def fun_eq_iff)
qed (simp add: restrict_map_def)

text \<open>The pointers \<^verbatim>\<open>ai_next\<close> lead from one entry to the next and end with null.\<close>

fun chained :: "nat \<Rightarrow> entry list \<Rightarrow> bool" where
  "chained p [] \<longleftrightarrow> p = 0"
| "chained p (e # es) \<longleftrightarrow> p = fst e \<and> p \<noteq> 0 \<and> chained (ai_next (snd e)) es"

lemma freeaddrinfo_loop_ok:
  assumes "chained p es" and "\<forall>e\<in>set es. entry_ok h e" and "\<forall>q\<in>set boxes. \<exists>i. cells h q = Some (Info i)"
    and "distinct (boxes @ all_blocks es)"
  shows "\<exists>h'. freeaddrinfo_loop p boxes h = Some (Ret h') \<and> cells h' = cells h |` (- set (boxes @ all_blocks es))"
  using assms
proof (induction es arbitrary: p h boxes)
  case Nil
  then show ?case
    using free_boxes_ok [of boxes h] by (subst freeaddrinfo_loop.simps) auto
next
  case (Cons e es)
  obtain i where e: "e = (p, i)" and p: "p \<noteq> 0" and rest: "chained (ai_next i) es"
    using Cons.prems(1) by (cases e) auto
  have i: "cells h p = Some (Info i)" "payload_ok h i" using Cons.prems(2) by (auto simp: e entry_ok_def)
  obtain h2 where h2: "free_payload i h = Ret h2" "cells h2 = cells h |` (- set (payload i))"
    using free_payload_ok [OF i(2)] Cons.prems(4) by (auto simp: e blocks_def)
  have keep: "cells h2 a = cells h a" if "a \<in> set (boxes @ [p] @ all_blocks es)" for a
    using that Cons.prems(4) by (auto simp: h2(2) restrict_map_def e blocks_def)
  have "\<forall>e\<in>set es. entry_ok h2 e"
    using entries_agree [of es h h2] Cons.prems(2) keep by auto
  moreover have "\<forall>q\<in>set (boxes @ [p]). \<exists>i. cells h2 q = Some (Info i)"
    using Cons.prems(3) keep i(1) by auto
  moreover have "distinct ((boxes @ [p]) @ all_blocks es)"
    using Cons.prems(4) by (auto simp: e blocks_def)
  ultimately obtain h' where h': "freeaddrinfo_loop (ai_next i) (boxes @ [p]) h2 = Some (Ret h')"
      "cells h' = cells h2 |` (- set ((boxes @ [p]) @ all_blocks es))"
    using Cons.IH [OF rest] by blast
  have "freeaddrinfo_loop p boxes h = Some (Ret h')"
    using p i(1) h2(1) h'(1) by (subst freeaddrinfo_loop.simps) (simp add: free_payload_def)
  moreover have "cells h' = cells h |` (- set (boxes @ all_blocks (e # es)))"
    by (auto simp: h'(2) h2(2) restrict_map_def fun_eq_iff e blocks_def)
  ultimately show ?case by blast
qed

text \<open>Chaining the structures changes their \<^verbatim>\<open>ai_next\<close> only.\<close>

fun linked :: "entry list \<Rightarrow> entry list" where
  "linked (e # e' # es) = (fst e, (snd e)\<lparr>ai_next := fst e'\<rparr>) # linked (e' # es)"
| "linked es = es"

lemma blocks_next [simp]: "blocks (p, i\<lparr>ai_next := q\<rparr>) = blocks (p, i)"
  by (simp add: blocks_def payload_def)

lemma payload_ok_next [simp]: "payload_ok h (i\<lparr>ai_next := q\<rparr>) = payload_ok h i"
  by (simp add: payload_ok_def)

lemma all_blocks_linked [simp]: "all_blocks (linked es) = all_blocks es"
  by (induction es rule: linked.induct) auto

lemma chained_linked:
  assumes "es \<noteq> []" and "\<forall>e\<in>set es. fst e \<noteq> 0 \<and> ai_next (snd e) = 0"
  shows "chained (fst (hd es)) (linked es)"
  using assms by (induction es rule: linked.induct) auto

lemma link_ok:
  assumes "\<forall>e\<in>set es. entry_ok h e" and "distinct (all_blocks es)"
  shows "(\<forall>e\<in>set (linked es). entry_ok (link (map fst es) h) e) \<and>
         (\<forall>a. a \<notin> set (map fst es) \<longrightarrow> cells (link (map fst es) h) a = cells h a)"
  using assms
proof (induction es arbitrary: h rule: linked.induct)
  case (1 e e' es)
  let ?h = "h\<lparr>cells := (cells h)(fst e \<mapsto> Info ((snd e)\<lparr>ai_next := fst e'\<rparr>))\<rparr>"
  have step: "link (map fst (e # e' # es)) h = link (map fst (e' # es)) ?h"
    using 1(2) by (simp add: entry_ok_def)
  have agree: "\<forall>a\<in>set (all_blocks (e' # es)). cells ?h a = cells h a"
    using 1(3) by (auto simp: blocks_def)
  then have "\<forall>x\<in>set (e' # es). entry_ok ?h x"
    using entries_agree [of "e' # es" h ?h] 1(2) by simp
  moreover have "distinct (all_blocks (e' # es))"
    using 1(3) by simp
  ultimately have IH: "\<forall>x\<in>set (linked (e' # es)). entry_ok (link (map fst (e' # es)) ?h) x"
    "\<forall>a. a \<notin> set (map fst (e' # es)) \<longrightarrow> cells (link (map fst (e' # es)) ?h) a = cells ?h a"
    using 1(1) by blast+
  have sub: "set (map fst (e' # es)) \<subseteq> set (all_blocks (e' # es))"
    by (auto simp: all_blocks_def blocks_def)
  have "entry_ok (link (map fst (e' # es)) ?h) (fst e, (snd e)\<lparr>ai_next := fst e'\<rparr>)"
  proof (rule entry_ok_agree [of ?h])
    show "entry_ok ?h (fst e, (snd e)\<lparr>ai_next := fst e'\<rparr>)"
      using 1(2,3) by (auto simp: entry_ok_def payload_ok_def blocks_def payload_def split: if_splits)
    show "cells (link (map fst (e' # es)) ?h) a = cells ?h a" if "a \<in> set (blocks (fst e, (snd e)\<lparr>ai_next := fst e'\<rparr>))" for a
    proof -
      have "a \<notin> set (all_blocks (e' # es))"
        using that 1(3) by auto
      then have "a \<notin> set (map fst (e' # es))"
        using sub by blast
      then show ?thesis using IH(2) by blast
    qed
  qed
  then show ?case
    using IH unfolding step by auto
qed auto

lemma gai_finish_success:
  "gai_finish (r, vec, k) = Ret (0, p, h') \<Longrightarrow>
     r = 0 \<and> p = (if vec = [] then 0 else hd vec) \<and> h' = (if vec = [] then k else link vec k)"
  by (auto simp: gai_finish_def bindU_def split: if_splits outcome.splits)

lemma getaddrinfo_success:
  assumes "libc_getaddrinfo P node service hints res h s = Some (Ret (0, p, h'), s')"
  shows "\<exists>m q vec k. gai_loop P m q [] h = Some (0, vec, k) \<and>
           p = (if vec = [] then 0 else hd vec) \<and> h' = (if vec = [] then k else link vec k)"
proof -
  obtain fl fam ty pr where hint: "hint_of hints = (fl, fam, ty, pr)"
    by (metis prod_cases4)
  obtain r s1 where call:
    "do_ocall P (U_call ''u_getaddrinfo_ocall'' [APtr node, APtr service, AInt fl, AInt fam, AInt ty, AInt pr]) s = (r, s1)"
    by fastforce
  obtain a vec k where loop: "gai_loop P (mem s1) (r_ptr r) [] h = Some (a, vec, k)" and fin: "gai_finish (a, vec, k) = Ret (0, p, h')"
    using assms
    by (auto simp: libc_getaddrinfo_def hint call bind_eq_Some_conv EAI_SYSTEM_def Let_def split: if_splits)
  with gai_finish_success [OF fin] show ?thesis by blast
qed

text \<open>
  C14: \<^verbatim>\<open>freeaddrinfo\<close> undoes \<^verbatim>\<open>getaddrinfo\<close>: whatever list the host hands out, if the call succeeds then releasing its result returns,
  frees no block twice and none with the wrong size, and leaves the heap as it was before the call.
\<close>

theorem getaddrinfo_free_roundtrip:
  assumes "libc_getaddrinfo P node service hints res h s = Some (Ret (0, p, h'), s')" and "heap_ok h"
  shows "\<exists>h''. libc_freeaddrinfo p h' = Some (Ret h'') \<and> cells h'' = cells h"
proof -
  obtain m q vec k where loop: "gai_loop P m q [] h = Some (0, vec, k)"
    and res: "p = (if vec = [] then 0 else hd vec)" "h' = (if vec = [] then k else link vec k)"
    using getaddrinfo_success [OF assms(1)] by blast
  have "built h [] h" "tight h [] h"
    using assms(2) by (auto simp: built_def tight_def heap_ok_def)
  then obtain es where es: "built h es k" "map fst es = vec" "\<forall>e\<in>set es. ai_next (snd e) = 0" "tight h es k"
    using gai_loop_built [OF loop, of h "[]"] by auto
  have ok: "\<forall>e\<in>set es. entry_ok k e" and dist: "distinct (all_blocks es)" and pos: "0 < fresh h"
    and fresh: "\<forall>a\<in>set (all_blocks es). fresh h \<le> a" and low: "\<forall>a<fresh h. cells k a = cells h a"
    using es(1) assms(2) by (auto simp: built_def heap_ok_def)
  have restored: "cells k |` (- set (all_blocks es)) = cells h"
  proof
    fix a
    show "(cells k |` (- set (all_blocks es))) a = cells h a"
    proof (cases "a < fresh h")
      case True
      with low fresh show ?thesis by (auto simp: restrict_map_def)
    next
      case False
      with es(4) assms(2) show ?thesis by (auto simp: restrict_map_def tight_def heap_ok_def)
    qed
  qed
  have sub: "set (map fst es) \<subseteq> set (all_blocks es)"
    by (auto simp: all_blocks_def blocks_def)
  have fst0: "\<forall>e\<in>set es. fst e \<noteq> 0"
    using fresh pos sub by fastforce
  have link': "\<forall>e\<in>set (linked es). entry_ok h' e" and cells': "\<forall>a. a \<notin> set (all_blocks es) \<longrightarrow> cells h' a = cells k a"
    using link_ok [OF ok dist] sub by (auto simp: res(2) es(2))
  have "chained p (linked es)"
  proof (cases "es = []")
    case False
    then show ?thesis using chained_linked [OF False] es(2,3) fst0 res(1) by (auto simp: hd_map)
  qed (use es(2) res(1) in auto)
  from freeaddrinfo_loop_ok [OF this link', of "[]"] dist
  obtain h'' where free: "freeaddrinfo_loop p [] h' = Some (Ret h'')" "cells h'' = cells h' |` (- set (all_blocks es))"
    by auto
  moreover have "cells h' |` (- set (all_blocks es)) = cells k |` (- set (all_blocks es))"
    using cells' by (auto simp: restrict_map_def fun_eq_iff)
  ultimately show ?thesis
    using restored by (simp add: libc_freeaddrinfo_def)
qed

section \<open>The error path\<close>

lemma drop_one_named:
  assumes "entry_ok h (p, i)" and "distinct (blocks (p, i))" and "cells h 0 = None" and "ai_canonname i \<noteq> 0"
  shows "drop_one p h = Undef"
proof -
  obtain bs where bs: "cells h (ai_canonname i) = Some (Bytes bs)" "0 \<in> set bs"
    using assms(1,4) by (auto simp: entry_ok_def payload_ok_def c_string_def)
  show ?thesis
  proof (cases "ai_addr i = 0")
    case True
    then show ?thesis
      using assms bs by (auto simp: drop_one_def entry_ok_def bindU_def cstr_len_def free_vec_def)
  next
    case False
    then obtain as where as: "cells h (ai_addr i) = Some (Bytes as)" "length as = ai_addrlen i"
      using assms(1) by (auto simp: entry_ok_def payload_ok_def)
    moreover have "ai_canonname i \<noteq> ai_addr i"
      using assms(2,4) False by (auto simp: blocks_def payload_def)
    ultimately show ?thesis
      using assms bs False free_vec_ok [OF as(1)]
      by (auto simp: drop_one_def entry_ok_def bindU_def cstr_len_def free_vec_def)
  qed
qed

lemma drop_one_unnamed:
  assumes "entry_ok h (p, i)" and "distinct (blocks (p, i))" and "ai_canonname i = 0"
  shows "\<exists>h'. drop_one p h = Ret h' \<and> cells h' = cells h |` (- set (blocks (p, i)))"
proof -
  obtain h' where h': "free_payload i h = Ret h'" "cells h' = cells h |` (- set (payload i))"
    using free_payload_ok [of h i] assms(1,2) by (auto simp: entry_ok_def blocks_def)
  have same: "(if ai_addr i \<noteq> 0 then free_vec (ai_addr i) (ai_addrlen i) h else Ret h) = Ret h'"
    using h'(1) assms(1,3) by (auto simp: free_payload_def bindU_def entry_ok_def payload_ok_def split: outcome.splits if_splits)
  have "cells h' p = Some (Info i)"
    using assms(1,2) h'(2) by (auto simp: entry_ok_def blocks_def restrict_map_def)
  then show ?thesis
    using assms(1,3) same h'(2)
    by (auto simp: drop_one_def entry_ok_def bindU_def free_box_def blocks_def restrict_map_def fun_eq_iff)
qed

lemma drop_all_Undef_iff:
  assumes "\<forall>e\<in>set es. entry_ok h e" and "distinct (all_blocks es)" and "cells h 0 = None"
  shows "drop_all (map fst es) h = Undef \<longleftrightarrow> (\<exists>e\<in>set es. ai_canonname (snd e) \<noteq> 0)"
  using assms
proof (induction es arbitrary: h)
  case (Cons e es)
  obtain p i where e: "e = (p, i)" by fastforce
  have ok: "entry_ok h (p, i)" "distinct (blocks (p, i))" using Cons.prems by (auto simp: e)
  show ?case
  proof (cases "ai_canonname i = 0")
    case False
    then show ?thesis
      using drop_one_named [OF ok Cons.prems(3)] by (simp add: e bindU_def)
  next
    case True
    obtain h' where h': "drop_one p h = Ret h'" "cells h' = cells h |` (- set (blocks (p, i)))"
      using drop_one_unnamed [OF ok True] by blast
    have "\<forall>a\<in>set (all_blocks es). cells h' a = cells h a"
      using Cons.prems(2) by (auto simp: h'(2) e restrict_map_def)
    then have "\<forall>e\<in>set es. entry_ok h' e"
      using entries_agree [of es h h'] Cons.prems(1) by simp
    then show ?thesis
      using Cons.IH [of h'] Cons.prems(2,3) h' True by (simp add: e bindU_def restrict_map_def)
  qed
qed simp

text \<open>
  C33: The error path of \<^verbatim>\<open>getaddrinfo\<close> releases the address a second time instead of the name. When the loop refuses a structure of the
  host's list, the call is undefined behaviour exactly if one of the structures copied before it has a canonical name.
\<close>

theorem getaddrinfo_error_path:
  assumes "gai_loop P m p [] h = Some (r, vec, h')" and "heap_ok h" and "r \<noteq> 0"
  shows "gai_finish (r, vec, h') = Undef \<longleftrightarrow> (\<exists>q\<in>set vec. \<exists>i. cells h' q = Some (Info i) \<and> ai_canonname i \<noteq> 0)"
proof -
  have "built h [] h"
    using assms(2) by (auto simp: built_def heap_ok_def)
  then obtain es where es: "built h es h'" "map fst es = vec"
    using gai_loop_built [OF assms(1), of h "[]"] by auto
  then have ok: "\<forall>e\<in>set es. entry_ok h' e" "distinct (all_blocks es)" "cells h' 0 = None"
    by (auto simp: built_def heap_ok_def)
  have finish: "gai_finish (r, vec, h') = Undef \<longleftrightarrow> drop_all (map fst es) h' = Undef"
    using assms(3) es(2) by (cases "drop_all vec h'") (auto simp: gai_finish_def bindU_def)
  have "(\<exists>e\<in>set es. ai_canonname (snd e) \<noteq> 0) \<longleftrightarrow> (\<exists>q\<in>set vec. \<exists>i. cells h' q = Some (Info i) \<and> ai_canonname i \<noteq> 0)"
    using ok(1) by (auto simp: entry_ok_def simp flip: es(2))
  then show ?thesis
    using drop_all_Undef_iff [OF ok] by (simp add: finish)
qed

text \<open>A list of the host: one structure with an empty name, whose successor is inside of the enclave.\<close>

definition sample_list :: mem where
  "sample_list = (\<lambda>_. 0)(0x3021 := 0x40, 0x3029 := 0x10)"

definition empty_heap :: heap where
  "empty_heap = \<lparr>cells = Map.empty, fresh = 1\<rparr>"

lemma empty_heap_ok: "heap_ok empty_heap"
  by (simp add: empty_heap_def heap_ok_def)

lemma sample_first:
  "addrinfo_at sample_list 0x3000 =
     \<lparr>h_flags = 0, h_family = 0, h_socktype = 0, h_protocol = 0, h_addrlen = 0, h_addr = 0, h_canonname = 0x4000, h_next = 0x1000\<rparr>"
  by (simp add: addrinfo_at_def Let_def int_at_def ptr_at_def dec32_def dec64_def sample_list_def upt_rec)

lemma sample_strlen: "strlen sample_list 0x4000 = Some 0"
  by (subst strlen.simps) (simp add: sample_list_def)

lemma sample_loop:
  "gai_loop (sample_host f len) sample_list 0x3000 [] empty_heap =
     Some (EAI_SYSTEM, [Suc (Suc 0)], empty_heap\<lparr>cells := [Suc 0 \<mapsto> Bytes [0], Suc (Suc 0) \<mapsto> Info (info_of (addrinfo_at sample_list 0x3000) 0 0 1)], fresh := 3\<rparr>)"
  apply (subst gai_loop.simps)
  apply (simp add: sample_first copy_addr_def copy_name_def halloc_def sample_strlen sample_host_def empty_heap_def mem_load_def)
  apply (subst gai_loop.simps)
  by (simp add: sample_list_def fun_upd_def)

theorem getaddrinfo_error_path_witness:
  "gai_finish (the (gai_loop (sample_host (\<lambda>_. 0) 0) sample_list 0x3000 [] empty_heap)) = Undef"
  using getaddrinfo_error_path [OF sample_loop [of "\<lambda>_. 0" 0] empty_heap_ok]
  by (auto simp: sample_loop EAI_SYSTEM_def info_of_def)

definition sample_ring :: mem where
  "sample_ring = (\<lambda>_. 0)(0x3029 := 0x30)"

definition sample_single :: mem where
  "sample_single = (\<lambda>_. 0)(0x3021 := 0x40)"

lemma sample_ring_next: "addrinfo_at sample_ring 0x3000 =
     \<lparr>h_flags = 0, h_family = 0, h_socktype = 0, h_protocol = 0, h_addrlen = 0, h_addr = 0, h_canonname = 0, h_next = 0x3000\<rparr>"
  by (simp add: addrinfo_at_def Let_def int_at_def ptr_at_def dec32_def dec64_def sample_ring_def upt_rec)

lemma sample_single_first: "addrinfo_at sample_single 0x3000 =
     \<lparr>h_flags = 0, h_family = 0, h_socktype = 0, h_protocol = 0, h_addrlen = 0, h_addr = 0, h_canonname = 0x4000, h_next = 0\<rparr>"
  by (simp add: addrinfo_at_def Let_def int_at_def ptr_at_def dec32_def dec64_def sample_single_def upt_rec)

lemma sample_lists_clean: "a \<in> sample_enclave \<Longrightarrow> sample_ring a = 0" "a \<in> sample_enclave \<Longrightarrow> sample_single a = 0"
  by (auto simp: sample_ring_def sample_single_def sample_enclave_def)

lemmas sample_list_calls = list_host_ocall [OF sample_lists_clean(1)] list_host_ocall [OF sample_lists_clean(2)]

lemma sample_ring_endless: "\<not> gai_ends (list_host m p) sample_ring 0x3000"
  using gai_ends_not_closed [of "list_host m p" sample_ring "0x3000" "{0x3000}"]
  by (auto simp: gai_turn_def Let_def sample_ring_next)


lemma sample_single_loop:
  "\<exists>k. gai_loop (list_host m p) sample_single 0x3000 [] empty_heap = Some (0, [Suc (Suc 0)], k)"
proof -
  have "strlen sample_single 0x4000 = Some 0"
    by (subst strlen.simps) (simp add: sample_single_def)
  then show ?thesis
    by (subst gai_loop.simps) (simp add: sample_single_first copy_addr_def copy_name_def halloc_def empty_heap_def)
qed

theorem getaddrinfo_free_roundtrip_witness:
  "\<exists>h' s' h''. libc_getaddrinfo (list_host sample_single 0x3000) 0 0 None 0 empty_heap sample_state = Some (Ret (0, Suc (Suc 0), h'), s') \<and>
     libc_freeaddrinfo (Suc (Suc 0)) h' = Some (Ret h'') \<and> cells h'' = cells empty_heap"
proof -
  obtain k where loop: "gai_loop (list_host sample_single 0x3000) sample_single 0x3000 [] empty_heap = Some (0, [Suc (Suc 0)], k)"
    using sample_single_loop by blast
  then obtain h' s' where
    "libc_getaddrinfo (list_host sample_single 0x3000) 0 0 None 0 empty_heap sample_state = Some (Ret (0, Suc (Suc 0), h'), s')"
    by (auto simp: libc_getaddrinfo_def hint_of_def sample_list_calls gai_finish_def Let_def)
  with getaddrinfo_free_roundtrip [OF this empty_heap_ok] show ?thesis by blast
qed

end
