(* ===== verification/Sgx_Signal.thy ===== *)
theory Sgx_Signal
  imports Sgx_Serialize Sgx_Error
begin

text \<open>
  Signals in the enclave: the sets of signals of \<^verbatim>\<open>src/sgx_libc/src/linux/x86_64/mod.rs\<close>, the mask and the table of handlers of
  \<^verbatim>\<open>src/sgx_signal/src/manager.rs\<close>, and the calls of \<^verbatim>\<open>src/sgx_signal/src/signal.rs\<close>. The state is that of one thread of the enclave with
  the global table; the host and the handlers of the application are parameters.
\<close>

unbundle bit_operations_syntax

section \<open>Sets of signals\<close>

type_synonym sigset_t = "u64 list"

definition SIGRTMAX :: int where "SIGRTMAX = 64"
definition NSIG :: int where "NSIG = SIGRTMAX + 1"

definition SIG_DFL :: usize where "SIG_DFL = 0"
definition SIG_ERR :: usize where "SIG_ERR = 2 ^ 64 - 1"
definition SIG_BLOCK :: int where "SIG_BLOCK = 0"
definition SIG_UNBLOCK :: int where "SIG_UNBLOCK = 1"
definition SIG_SETMASK :: int where "SIG_SETMASK = 2"
definition SA_SIGINFO :: u32 where "SA_SIGINFO = 4"
definition SA_RESETHAND :: u32 where "SA_RESETHAND = 0x80000000"
definition SIG_EINVAL :: int where "SIG_EINVAL = 22"
definition SIG_ESGX :: int where "SIG_ESGX = 0xFFFF"

text \<open>\<^verbatim>\<open>SIGKILL, SIGSTOP, SIGILL, SIGFPE, SIGSEGV, SIGBUS, SIGTRAP\<close>\<close>

definition FORBIDDEN :: "int list" where
  "FORBIDDEN = [9, 19, 4, 8, 11, 7, 5]"

text \<open>The word and the bit of a signal; the callers have checked that \<open>1 \<le> sig\<close>.\<close>

definition sigmask_bit :: "int \<Rightarrow> u64" where
  "sigmask_bit sig = push_bit (nat ((sig - 1) mod 64)) 1"

definition sigword :: "int \<Rightarrow> nat" where
  "sigword sig = nat ((sig - 1) div 64)"

definition sigaddset_raw :: "sigset_t \<Rightarrow> int \<Rightarrow> sigset_t" where
  "sigaddset_raw sset sig = sset[sigword sig := sset ! sigword sig OR sigmask_bit sig]"

definition sigdelset_raw :: "sigset_t \<Rightarrow> int \<Rightarrow> sigset_t" where
  "sigdelset_raw sset sig = sset[sigword sig := sset ! sigword sig AND NOT (sigmask_bit sig)]"

definition sigismember_raw :: "sigset_t \<Rightarrow> int \<Rightarrow> int" where
  "sigismember_raw sset sig =
     (let val = (if sigmask_bit sig \<noteq> 0 then 1 else 0)
      in uint (sset ! sigword sig AND val))"

section \<open>The state\<close>

record sigaction =
  sa_sigaction :: usize
  sa_mask :: sigset_t
  sa_flags :: u32
  sa_restorer :: usize

record siginfo_t =
  si_signo :: int
  si_errno :: int
  si_code :: int

text \<open>A table from identifiers to closures of the application, of type \<open>'a\<close>, in the order of the identifiers.\<close>

record 'a ActionSlot =
  cur :: sigaction
  actions :: "(nat \<times> 'a) list"

record 'a SignalManager =
  action_set :: "int \<rightharpoonup> 'a ActionSlot"
  reset_set :: "int set"

text \<open>
  \<open>sg_mask\<close> is \<^verbatim>\<open>SIGNAL_MASK\<close> of the thread, \<open>sg_counter\<close> is \<^verbatim>\<open>COUNTER\<close> of \<^verbatim>\<open>ActionId::new\<close>, \<open>sg_global\<close> is \<^verbatim>\<open>GLOBAL_DATA\<close> and
  \<open>sg_at_exit\<close> says that \<^verbatim>\<open>clear\<close> runs at exit.
\<close>

record ('a, 'w) sig_st =
  sg_errno :: int
  sg_mask :: sigset_t
  sg_counter :: nat
  sg_global :: "'a SignalManager option"
  sg_at_exit :: bool
  sg_world :: 'w

text \<open>What the handler calls: a function of the application, by its address, or a registered closure.\<close>

datatype 'a sig_call =
    Fn_sa_sigaction usize int siginfo_t
  | Fn_sa_handler usize int
  | Action 'a siginfo_t

record ('a, 'w) sig_ffi =
  get_enclave_id :: u64
  u_sigaction_ocall :: "int \<Rightarrow> sigaction \<Rightarrow> u64 \<Rightarrow> 'w \<Rightarrow> (sgx_status_t \<times> int \<times> int \<times> sigaction) \<times> 'w"
  u_sigprocmask_ocall :: "int \<Rightarrow> sigset_t \<Rightarrow> 'w \<Rightarrow> (sgx_status_t \<times> int \<times> int) \<times> 'w"
  u_raise_ocall :: "int \<Rightarrow> 'w \<Rightarrow> (sgx_status_t \<times> int) \<times> 'w"
  u_signal_clear_ocall :: "u64 \<Rightarrow> 'w \<Rightarrow> sgx_status_t \<times> 'w"
  run_call :: "'a sig_call \<Rightarrow> ('a, 'w) sig_st \<Rightarrow> ('a, 'w) sig_st"

definition sg_set_errno :: "int \<Rightarrow> ('a, 'w, 'z) sig_st_scheme \<Rightarrow> ('a, 'w, 'z) sig_st_scheme" where
  "sg_set_errno e s = s\<lparr>sg_errno := e\<rparr>"

section \<open>Operations on sets, with their errors\<close>

definition sigemptyset :: "sigset_t" where
  "sigemptyset = replicate 16 0"

definition sigfillset :: "sigset_t" where
  "sigfillset = replicate 16 (- 1)"

definition bad_signum :: "int \<Rightarrow> bool" where
  "bad_signum signum \<longleftrightarrow> signum \<le> 0 \<or> signum \<ge> NSIG"

definition sigaddset :: "sigset_t \<Rightarrow> int \<Rightarrow> ('a, 'w) sig_st \<Rightarrow> int \<times> sigset_t \<times> ('a, 'w) sig_st" where
  "sigaddset sset signum s =
     (if bad_signum signum then (- 1, sset, sg_set_errno SIG_EINVAL s) else (0, sigaddset_raw sset signum, s))"

definition sigdelset :: "sigset_t \<Rightarrow> int \<Rightarrow> ('a, 'w) sig_st \<Rightarrow> int \<times> sigset_t \<times> ('a, 'w) sig_st" where
  "sigdelset sset signum s =
     (if bad_signum signum then (- 1, sset, sg_set_errno SIG_EINVAL s) else (0, sigdelset_raw sset signum, s))"

definition sigismember :: "sigset_t \<Rightarrow> int \<Rightarrow> ('a, 'w) sig_st \<Rightarrow> int \<times> ('a, 'w) sig_st" where
  "sigismember sset signum s =
     (if bad_signum signum then (- 1, sg_set_errno SIG_EINVAL s) else (sigismember_raw sset signum, s))"

section \<open>manager.rs\<close>

definition SigNum_from_raw :: "int \<Rightarrow> int option" where
  "SigNum_from_raw signo = (if signo \<le> 0 \<or> signo \<ge> NSIG then None else Some signo)"

definition SigSet_add :: "sigset_t \<Rightarrow> int \<Rightarrow> ('a, 'w) sig_st \<Rightarrow> sigset_t \<times> ('a, 'w) sig_st" where
  "SigSet_add self signo s = snd (sigaddset self signo s)"

definition SigSet_delete :: "sigset_t \<Rightarrow> int \<Rightarrow> ('a, 'w) sig_st \<Rightarrow> sigset_t \<times> ('a, 'w) sig_st" where
  "SigSet_delete self signo s = snd (sigdelset self signo s)"

definition SigSet_is_member :: "sigset_t \<Rightarrow> int \<Rightarrow> ('a, 'w) sig_st \<Rightarrow> bool \<times> ('a, 'w) sig_st" where
  "SigSet_is_member self signo s = (case sigismember self signo s of (r, s') \<Rightarrow> (r = 1, s'))"

text \<open>The loops over \<^verbatim>\<open>0..=SIGRTMAX\<close> and, in \<^verbatim>\<open>block\<close>, over \<^verbatim>\<open>0..SIGRTMAX\<close>.\<close>

fun complement_loop :: "sigset_t \<Rightarrow> int list \<Rightarrow> sigset_t \<Rightarrow> ('a, 'w) sig_st \<Rightarrow> sigset_t \<times> ('a, 'w) sig_st" where
  "complement_loop self [] sset s = (sset, s)"
| "complement_loop self (num # nums) sset s =
     (case SigSet_is_member self num s of (b, s1) \<Rightarrow>
      case (if \<not> b then SigSet_add sset num s1 else (sset, s1)) of (sset', s2) \<Rightarrow> complement_loop self nums sset' s2)"

definition SigSet_complement :: "sigset_t \<Rightarrow> ('a, 'w) sig_st \<Rightarrow> sigset_t \<times> ('a, 'w) sig_st" where
  "SigSet_complement self s = complement_loop self [0..SIGRTMAX] sigemptyset s"

definition get_block_mask :: "('a, 'w) sig_st \<Rightarrow> sigset_t" where
  "get_block_mask s = sg_mask s"

definition set_block_mask :: "sigset_t \<Rightarrow> ('a, 'w) sig_st \<Rightarrow> ('a, 'w) sig_st" where
  "set_block_mask sset s = s\<lparr>sg_mask := sset\<rparr>"

fun block_loop :: "sigset_t \<Rightarrow> int list \<Rightarrow> sigset_t \<Rightarrow> ('a, 'w) sig_st \<Rightarrow> sigset_t \<times> ('a, 'w) sig_st" where
  "block_loop sset [] old_mask s = (old_mask, s)"
| "block_loop sset (num # nums) old_mask s =
     (case SigSet_is_member sset num s of (b, s1) \<Rightarrow>
      case (if b then SigSet_add old_mask num s1 else (old_mask, s1)) of (old_mask', s2) \<Rightarrow> block_loop sset nums old_mask' s2)"

definition block :: "sigset_t \<Rightarrow> ('a, 'w) sig_st \<Rightarrow> ('a, 'w) sig_st" where
  "block sset s = (case block_loop sset [0..SIGRTMAX - 1] (get_block_mask s) s of (old_mask, s1) \<Rightarrow> set_block_mask old_mask s1)"

fun unblock_loop :: "sigset_t \<Rightarrow> int list \<Rightarrow> sigset_t \<Rightarrow> ('a, 'w) sig_st \<Rightarrow> sigset_t \<times> ('a, 'w) sig_st" where
  "unblock_loop sset [] old_mask s = (old_mask, s)"
| "unblock_loop sset (num # nums) old_mask s =
     (case SigSet_is_member sset num s of (b, s1) \<Rightarrow>
      case (if b then SigSet_delete old_mask num s1 else (old_mask, s1)) of (old_mask', s2) \<Rightarrow> unblock_loop sset nums old_mask' s2)"

definition unblock :: "sigset_t \<Rightarrow> ('a, 'w) sig_st \<Rightarrow> ('a, 'w) sig_st" where
  "unblock sset s = (case unblock_loop sset [0..SIGRTMAX] (get_block_mask s) s of (old_mask, s1) \<Rightarrow> set_block_mask old_mask s1)"

definition ActionId_new :: "('a, 'w) sig_st \<Rightarrow> (nat \<times> ('a, 'w) sig_st) outcome" where
  "ActionId_new s =
     (if sg_counter s = 2 ^ 64 - 1 then Panic else Ret (sg_counter s, s\<lparr>sg_counter := sg_counter s + 1\<rparr>))"

definition ActionSlot_new :: "sigaction \<Rightarrow> 'a ActionSlot" where
  "ActionSlot_new act = \<lparr>cur = act, actions = []\<rparr>"

definition ActionSlot_set :: "'a \<Rightarrow> 'a ActionSlot \<Rightarrow> ('a, 'w) sig_st \<Rightarrow> (nat \<times> 'a ActionSlot \<times> ('a, 'w) sig_st) outcome" where
  "ActionSlot_set action self s =
     (case ActionId_new s of
        Ret (i, s1) \<Rightarrow> Ret (i, self\<lparr>actions := btree_insert i action (actions self)\<rparr>, s1)
      | Panic \<Rightarrow> Panic | Undef \<Rightarrow> Undef)"

definition ActionSlot_remove :: "nat \<Rightarrow> 'a ActionSlot \<Rightarrow> bool \<times> 'a ActionSlot" where
  "ActionSlot_remove i self =
     (map_of (actions self) i \<noteq> None, self\<lparr>actions := filter (\<lambda>e. fst e \<noteq> i) (actions self)\<rparr>)"

definition SignalManager_new :: "'a SignalManager" where
  "SignalManager_new = \<lparr>action_set = Map.empty, reset_set = {}\<rparr>"

definition set_action :: "int \<Rightarrow> sigaction \<Rightarrow> 'a SignalManager \<Rightarrow> 'a SignalManager" where
  "set_action signo act m = m\<lparr>action_set := (action_set m)(signo \<mapsto> ActionSlot_new act)\<rparr>"

definition get_action :: "int \<Rightarrow> 'a SignalManager \<Rightarrow> 'a ActionSlot option" where
  "get_action signo m = action_set m signo"

definition remove_action :: "int \<Rightarrow> nat \<Rightarrow> 'a SignalManager \<Rightarrow> bool \<times> 'a SignalManager" where
  "remove_action signo i m =
     (case action_set m signo of
        Some slot \<Rightarrow> (case ActionSlot_remove i slot of (b, slot') \<Rightarrow> (b, m\<lparr>action_set := (action_set m)(signo \<mapsto> slot')\<rparr>))
      | None \<Rightarrow> (False, m))"

definition clear_action :: "int \<Rightarrow> 'a SignalManager \<Rightarrow> bool \<times> 'a SignalManager" where
  "clear_action signo m = (action_set m signo \<noteq> None, m\<lparr>action_set := (action_set m)(signo := None)\<rparr>)"

definition is_action_empty :: "'a SignalManager \<Rightarrow> bool" where
  "is_action_empty m \<longleftrightarrow> action_set m = Map.empty"

definition set_reset_on_handle :: "int \<Rightarrow> 'a SignalManager \<Rightarrow> 'a SignalManager" where
  "set_reset_on_handle signo m = m\<lparr>reset_set := insert signo (reset_set m)\<rparr>"

definition is_reset_on_handle :: "int \<Rightarrow> 'a SignalManager \<Rightarrow> bool" where
  "is_reset_on_handle signo m \<longleftrightarrow> signo \<in> reset_set m"

text \<open>The table behind \<^verbatim>\<open>GlobalData::get()\<close>, which panics while it is not there.\<close>

definition global_manager :: "('a, 'w) sig_st \<Rightarrow> 'a SignalManager" where
  "global_manager s = (case sg_global s of Some m \<Rightarrow> m | None \<Rightarrow> SignalManager_new)"

definition upd_manager :: "('a SignalManager \<Rightarrow> 'a SignalManager) \<Rightarrow> ('a, 'w) sig_st \<Rightarrow> ('a, 'w) sig_st" where
  "upd_manager f s = s\<lparr>sg_global := map_option f (sg_global s)\<rparr>"

text \<open>
  \<^verbatim>\<open>set_action_impl\<close> takes the lock of the table twice: once to look for the signal, once to change the table. The second half panics if the
  slot it saw has gone.
\<close>

definition set_action_impl_act ::
  "bool \<Rightarrow> int \<Rightarrow> sigaction \<Rightarrow> 'a \<Rightarrow> ('a, 'w) sig_st \<Rightarrow> (nat \<times> ('a, 'w) sig_st) outcome" where
  "set_action_impl_act present signo act action s =
     (if \<not> present
      then case ActionSlot_set action (ActionSlot_new act) s of
             Ret (i, slot, s1) \<Rightarrow> Ret (i, upd_manager (\<lambda>m. m\<lparr>action_set := (action_set m)(signo \<mapsto> slot)\<rparr>) s1)
           | Panic \<Rightarrow> Panic | Undef \<Rightarrow> Undef
      else case action_set (global_manager s) signo of
             None \<Rightarrow> Panic
           | Some slot \<Rightarrow>
               (case ActionSlot_set action slot s of
                  Ret (i, slot', s1) \<Rightarrow> Ret (i, upd_manager (\<lambda>m. m\<lparr>action_set := (action_set m)(signo \<mapsto> slot')\<rparr>) s1)
                | Panic \<Rightarrow> Panic | Undef \<Rightarrow> Undef))"

definition set_action_impl :: "int \<Rightarrow> sigaction \<Rightarrow> 'a \<Rightarrow> ('a, 'w) sig_st \<Rightarrow> (nat \<times> ('a, 'w) sig_st) outcome" where
  "set_action_impl signo act action s =
     set_action_impl_act (action_set (global_manager s) signo \<noteq> None) signo act action s"

definition handler :: "('a, 'w) sig_ffi \<Rightarrow> int \<Rightarrow> siginfo_t \<Rightarrow> ('a, 'w) sig_st \<Rightarrow> ('a, 'w) sig_st" where
  "handler P signum info s =
     (case SigNum_from_raw signum of
        None \<Rightarrow> s
      | Some signo \<Rightarrow>
          (case get_action signo (global_manager s) of
             None \<Rightarrow> s
           | Some action_slot \<Rightarrow>
               let act = cur action_slot;
                   s1 = (if is_reset_on_handle signo (global_manager s) then upd_manager (\<lambda>m. snd (clear_action signo m)) s else s);
                   old_mask = get_block_mask s1;
                   s2 = block (sa_mask act) s1;
                   is_siginfo = (sa_flags act AND SA_SIGINFO \<noteq> 0);
                   s3 = (if is_siginfo \<and> sa_sigaction act \<noteq> 0 then run_call P (Fn_sa_sigaction (sa_sigaction act) signo info) s2
                         else if \<not> is_siginfo \<and> sa_sigaction act \<noteq> 0 then run_call P (Fn_sa_handler (sa_sigaction act) signo) s2
                         else s2);
                   s4 = fold (\<lambda>e. run_call P (Action (snd e) info)) (actions action_slot) s3
               in set_block_mask old_mask s4))"

section \<open>signal.rs\<close>

definition ensure :: "('a, 'w) sig_st \<Rightarrow> ('a, 'w) sig_st" where
  "ensure s = (case sg_global s of None \<Rightarrow> s\<lparr>sg_global := Some SignalManager_new, sg_at_exit := True\<rparr> | Some _ \<Rightarrow> s)"

text \<open>\<^verbatim>\<open>GlobalData::clear\<close>, which runs at exit.\<close>

definition signal_clear :: "('a, 'w) sig_ffi \<Rightarrow> ('a, 'w) sig_st \<Rightarrow> ('a, 'w) sig_st outcome" where
  "signal_clear P s =
     (case sg_global s of
        None \<Rightarrow> Panic
      | Some m \<Rightarrow> Ret (if \<not> is_action_empty m then s\<lparr>sg_world := snd (u_signal_clear_ocall P (get_enclave_id P) (sg_world s))\<rparr> else s))"

definition t_signal_handler_ecall :: "('a, 'w) sig_ffi \<Rightarrow> siginfo_t option \<Rightarrow> ('a, 'w) sig_st \<Rightarrow> (int \<times> ('a, 'w) sig_st) outcome" where
  "t_signal_handler_ecall P info s =
     (case info of
        None \<Rightarrow> Ret (- 1, s)
      | Some si_info \<Rightarrow>
          (case sg_global s of
             None \<Rightarrow> Panic
           | Some _ \<Rightarrow>
               (case SigSet_is_member (get_block_mask s) (si_signo si_info) s of (b, s1) \<Rightarrow>
                  if b then Ret (- 1, s1) else Ret (0, handler P (si_signo si_info) si_info s1))))"

text \<open>\<^verbatim>\<open>sigaction\<close> and \<^verbatim>\<open>sigprocmask\<close> of \<^verbatim>\<open>sgx_libc\<close>, on the structures instead of their addresses; \<open>oldact\<close> is an output of the host.\<close>

definition ocall_sigaction ::
  "('a, 'w) sig_ffi \<Rightarrow> int \<Rightarrow> sigaction \<Rightarrow> sigaction \<Rightarrow> ('a, 'w) sig_st \<Rightarrow> int \<times> sigaction \<times> ('a, 'w) sig_st" where
  "ocall_sigaction P signum act oldact s =
     (case u_sigaction_ocall P signum act (get_enclave_id P) (sg_world s) of ((status, result, error, oldact'), w) \<Rightarrow>
        let s1 = s\<lparr>sg_world := w\<rparr>
        in if status = SGX_SUCCESS then (result, oldact', if result = - 1 then sg_set_errno error s1 else s1)
           else (- 1, oldact, sg_set_errno SIG_ESGX s1))"

definition ocall_sigprocmask :: "('a, 'w) sig_ffi \<Rightarrow> int \<Rightarrow> sigset_t \<Rightarrow> ('a, 'w) sig_st \<Rightarrow> int \<times> ('a, 'w) sig_st" where
  "ocall_sigprocmask P how sset s =
     (case u_sigprocmask_ocall P how sset (sg_world s) of ((status, result, error), w) \<Rightarrow>
        let s1 = s\<lparr>sg_world := w\<rparr>
        in if status = SGX_SUCCESS then (result, if result = - 1 then sg_set_errno error s1 else s1)
           else (- 1, sg_set_errno SIG_ESGX s1))"

text \<open>The result, \<^verbatim>\<open>*oldset\<close> and the state.\<close>

definition rsgx_sigprocmask ::
  "('a, 'w) sig_ffi \<Rightarrow> int \<Rightarrow> sigset_t \<Rightarrow> sigset_t \<Rightarrow> ('a, 'w) sig_st \<Rightarrow> int \<times> sigset_t \<times> ('a, 'w) sig_st" where
  "rsgx_sigprocmask P how sset oldset s =
     (if how \<noteq> SIG_BLOCK \<and> how \<noteq> SIG_UNBLOCK \<and> how \<noteq> SIG_SETMASK then (- 1, oldset, sg_set_errno SIG_EINVAL s)
      else let oldset' = get_block_mask s;
               signals_to_block = (if how = SIG_BLOCK \<or> how = SIG_SETMASK then sset else sigemptyset)
           in case (if how = SIG_UNBLOCK then (sset, s)
                    else if how = SIG_SETMASK then SigSet_complement sset s
                    else (sigemptyset, s)) of (signals_to_unblock, s1) \<Rightarrow>
              case ocall_sigprocmask P how sset (unblock signals_to_unblock s1) of (result, s2) \<Rightarrow>
                (result, oldset', block signals_to_block s2))"

text \<open>
  The section under the lock: \<^verbatim>\<open>&mut old_mask.raw()\<close> is a copy of the empty set, so the mask that is set at the end is empty.
\<close>

definition with_signals_blocked ::
  "('a, 'w) sig_ffi \<Rightarrow> (('a, 'w) sig_st \<Rightarrow> ('b \<times> ('a, 'w) sig_st) outcome) \<Rightarrow> ('a, 'w) sig_st \<Rightarrow> ('b \<times> ('a, 'w) sig_st) outcome" where
  "with_signals_blocked P f s =
     (let mask = sigfillset; old_mask = sigemptyset
      in case f (snd (snd (rsgx_sigprocmask P SIG_SETMASK mask old_mask s))) of
           Ret (x, s2) \<Rightarrow> Ret (x, snd (snd (rsgx_sigprocmask P SIG_SETMASK old_mask mask s2)))
         | Panic \<Rightarrow> Panic | Undef \<Rightarrow> Undef)"

definition host_act :: "sigaction \<Rightarrow> sigaction" where
  "host_act act = \<lparr>sa_sigaction = 0, sa_mask = sa_mask act, sa_flags = sa_flags act, sa_restorer = 0\<rparr>"

text \<open>What follows the section: the flag and the call of the host.\<close>

definition install_on_host ::
  "('a, 'w) sig_ffi \<Rightarrow> int \<Rightarrow> sigaction \<Rightarrow> sigaction \<Rightarrow> ('a, 'w) sig_st \<Rightarrow> int \<times> sigaction \<times> ('a, 'w) sig_st" where
  "install_on_host P signo act oldact s =
     (let new_act = host_act act;
          s1 = (if sa_flags new_act AND SA_RESETHAND \<noteq> 0 then upd_manager (set_reset_on_handle signo) s else s)
      in ocall_sigaction P signo new_act oldact s1)"

definition old_action :: "int \<Rightarrow> sigaction \<Rightarrow> ('a, 'w) sig_st \<Rightarrow> sigaction" where
  "old_action signo oldact s =
     (case get_action signo (global_manager s) of Some t \<Rightarrow> cur t | None \<Rightarrow> oldact\<lparr>sa_sigaction := SIG_DFL\<rparr>)"

definition native_sigaction ::
  "('a, 'w) sig_ffi \<Rightarrow> int \<Rightarrow> sigaction \<Rightarrow> sigaction \<Rightarrow> ('a, 'w) sig_st \<Rightarrow> (int \<times> sigaction \<times> ('a, 'w) sig_st) outcome" where
  "native_sigaction P signo act oldact s =
     (let s0 = ensure s; oldact' = old_action signo oldact s0
      in case with_signals_blocked P (\<lambda>s. Ret ((), upd_manager (set_action signo act) s)) s0 of
           Ret (_, s1) \<Rightarrow> Ret (install_on_host P signo act oldact' s1)
         | Panic \<Rightarrow> Panic | Undef \<Rightarrow> Undef)"

definition native_sigaction_impl ::
  "('a, 'w) sig_ffi \<Rightarrow> int \<Rightarrow> sigaction \<Rightarrow> sigaction \<Rightarrow> 'a \<Rightarrow> ('a, 'w) sig_st \<Rightarrow> ((int + nat) \<times> ('a, 'w) sig_st) outcome" where
  "native_sigaction_impl P signo act oldact f s =
     (let s0 = ensure s;
          exist = (get_action signo (global_manager s0) \<noteq> None);
          oldact' = old_action signo oldact s0
      in case with_signals_blocked P (set_action_impl signo act f) s0 of
           Ret (action_id, s1) \<Rightarrow>
             if exist then Ret (Inr action_id, s1)
             else (case install_on_host P signo act oldact' s1 of (result, _, s2) \<Rightarrow>
                     Ret (if result = 0 then Inr action_id else Inl result, s2))
         | Panic \<Rightarrow> Panic | Undef \<Rightarrow> Undef)"

definition rsgx_sigaction ::
  "('a, 'w) sig_ffi \<Rightarrow> int \<Rightarrow> sigaction \<Rightarrow> sigaction \<Rightarrow> ('a, 'w) sig_st \<Rightarrow> (int \<times> sigaction \<times> ('a, 'w) sig_st) outcome" where
  "rsgx_sigaction P signum act oldact s =
     (if signum \<in> set FORBIDDEN then Ret (- 1, oldact, sg_set_errno SIG_EINVAL s)
      else if get_enclave_id P = 0 then Ret (- 1, oldact, sg_set_errno SIG_ESGX s)
      else case SigNum_from_raw signum of
             None \<Rightarrow> Ret (- 1, oldact, sg_set_errno SIG_EINVAL s)
           | Some signo \<Rightarrow> native_sigaction P signo act oldact s)"

definition zeroed_sigaction :: sigaction where
  "zeroed_sigaction = \<lparr>sa_sigaction = 0, sa_mask = sigemptyset, sa_flags = 0, sa_restorer = 0\<rparr>"

definition rsgx_signal :: "('a, 'w) sig_ffi \<Rightarrow> int \<Rightarrow> usize \<Rightarrow> ('a, 'w) sig_st \<Rightarrow> (usize \<times> ('a, 'w) sig_st) outcome" where
  "rsgx_signal P signum h s =
     (case rsgx_sigaction P signum (zeroed_sigaction\<lparr>sa_sigaction := h\<rparr>) zeroed_sigaction s of
        Ret (r, oldact, s1) \<Rightarrow> Ret (if r \<noteq> 0 then SIG_ERR else sa_sigaction oldact, s1)
      | Panic \<Rightarrow> Panic | Undef \<Rightarrow> Undef)"

definition rsgx_raise :: "('a, 'w) sig_ffi \<Rightarrow> int \<Rightarrow> ('a, 'w) sig_st \<Rightarrow> int \<times> ('a, 'w) sig_st" where
  "rsgx_raise P signum s =
     (case u_raise_ocall P signum (sg_world s) of ((status, result), w) \<Rightarrow>
        (if status = SGX_SUCCESS then result else - 1, s\<lparr>sg_world := w\<rparr>))"

datatype sig_error = Raw_os_error int | Sgx_error sgx_status_t

definition register_impl ::
  "('a, 'w) sig_ffi \<Rightarrow> int \<Rightarrow> 'a \<Rightarrow> ('a, 'w) sig_st \<Rightarrow> ((sig_error + int \<times> nat) \<times> ('a, 'w) sig_st) outcome" where
  "register_impl P signal action s =
     (if signal \<in> set FORBIDDEN then Ret (Inl (Raw_os_error SIG_EINVAL), sg_set_errno SIG_EINVAL s)
      else if get_enclave_id P = 0 then Ret (Inl (Sgx_error SGX_ERROR_INVALID_ENCLAVE_ID), sg_set_errno SIG_ESGX s)
      else case SigNum_from_raw signal of
             None \<Rightarrow> Ret (Inl (Raw_os_error SIG_EINVAL), sg_set_errno SIG_EINVAL s)
           | Some signo \<Rightarrow>
               (case native_sigaction_impl P signo zeroed_sigaction zeroed_sigaction action s of
                  Ret (Inr action_id, s1) \<Rightarrow> Ret (Inr (signo, action_id), s1)
                | Ret (Inl e, s1) \<Rightarrow> Ret (Inl (Raw_os_error e), s1)
                | Panic \<Rightarrow> Panic | Undef \<Rightarrow> Undef))"

definition unregister :: "int \<times> nat \<Rightarrow> ('a, 'w) sig_st \<Rightarrow> bool \<times> ('a, 'w) sig_st" where
  "unregister sid s =
     (let s0 = ensure s
      in (fst (remove_action (fst sid) (snd sid) (global_manager s0)),
          upd_manager (\<lambda>m. snd (remove_action (fst sid) (snd sid) m)) s0))"

definition unregister_signal :: "int \<Rightarrow> ('a, 'w) sig_st \<Rightarrow> bool \<times> ('a, 'w) sig_st" where
  "unregister_signal signal s =
     (let s0 = ensure s
      in (fst (clear_action signal (global_manager s0)), upd_manager (\<lambda>m. snd (clear_action signal m)) s0))"

definition raise_signal :: "('a, 'w) sig_ffi \<Rightarrow> int \<Rightarrow> ('a, 'w) sig_st \<Rightarrow> bool \<times> ('a, 'w) sig_st" where
  "raise_signal P signal s = (case rsgx_raise P signal s of (r, s1) \<Rightarrow> (r = 0, s1))"

end
