(* ===== verification/Sgx_Signal_Proofs.thy ===== *)
theory Sgx_Signal_Proofs
  imports Sgx_Signal
begin

text \<open>
  What the masks and the table of handlers of \<open>Sgx_Signal\<close> do: the test for membership looks at one signal only, so that masking all
  depends on it; installing a handler clears the mask; the identifiers of registered closures are unique and each is called once.
\<close>

unbundle bit_operations_syntax

section \<open>Membership\<close>

text \<open>A signal is in a set when its bit is.\<close>

definition in_set :: "int \<Rightarrow> sigset_t \<Rightarrow> bool" where
  "in_set sig m \<longleftrightarrow> bit (m ! 0) (nat (sig - 1))"

definition valid_sig :: "int \<Rightarrow> bool" where
  "valid_sig sig \<longleftrightarrow> 1 \<le> sig \<and> sig \<le> 64"

lemma bad_signum_iff: "bad_signum sig \<longleftrightarrow> \<not> valid_sig sig"
  by (auto simp: bad_signum_def valid_sig_def NSIG_def SIGRTMAX_def)

lemma from_raw_valid: "SigNum_from_raw sig = (if valid_sig sig then Some sig else None)"
  by (auto simp: SigNum_from_raw_def valid_sig_def NSIG_def SIGRTMAX_def)

lemma valid_sig_word:
  assumes "valid_sig sig"
  shows "sigword sig = 0" and "sigmask_bit sig = push_bit (nat (sig - 1)) 1" and "nat (sig - 1) < 64"
  using assms by (auto simp: valid_sig_def sigword_def sigmask_bit_def)

lemma bit_sigmask: "valid_sig sig \<Longrightarrow> bit (sigmask_bit sig) k \<longleftrightarrow> k = nat (sig - 1)"
  using valid_sig_word [of sig] by (auto simp: bit_exp_iff)

lemma sigmask_bit_nonzero: "valid_sig sig \<Longrightarrow> sigmask_bit sig \<noteq> 0"
  using bit_sigmask [of sig "nat (sig - 1)"] by auto

text \<open>The test does not depend on the signal: it is the bit of signal 1, \<^verbatim>\<open>SIGHUP\<close>.\<close>

lemma sigismember_raw_first:
  assumes "valid_sig sig"
  shows "sigismember_raw sset sig = (if in_set 1 sset then 1 else 0)"
  using assms sigmask_bit_nonzero [OF assms] valid_sig_word(1) [OF assms]
  by (simp add: sigismember_raw_def in_set_def and_one_eq Let_def odd_iff_mod_2_eq_one bit_0)

definition errno_if :: "bool \<Rightarrow> ('a, 'w) sig_st \<Rightarrow> ('a, 'w) sig_st" where
  "errno_if b s = (if b then sg_set_errno SIG_EINVAL s else s)"

lemma is_member_first:
  "SigSet_is_member sset sig s = (valid_sig sig \<and> in_set 1 sset, errno_if (\<not> valid_sig sig) s)"
  by (auto simp: SigSet_is_member_def sigismember_def bad_signum_iff sigismember_raw_first errno_if_def)

lemma errno_if_errno_if [simp]: "errno_if b (errno_if c s) = errno_if (b \<or> c) s"
  by (simp add: errno_if_def sg_set_errno_def)

lemma errno_if_fields [simp]:
  "sg_mask (errno_if b s) = sg_mask s" "sg_global (errno_if b s) = sg_global s" "sg_counter (errno_if b s) = sg_counter s"
  "sg_world (errno_if b s) = sg_world s" "errno_if False s = s"
  by (simp_all add: errno_if_def sg_set_errno_def)

lemma sig_set_ops:
  "valid_sig sig \<Longrightarrow> SigSet_add m sig s = (sigaddset_raw m sig, s)"
  "\<not> valid_sig sig \<Longrightarrow> SigSet_add m sig s = (m, errno_if True s)"
  "valid_sig sig \<Longrightarrow> SigSet_delete m sig s = (sigdelset_raw m sig, s)"
  by (auto simp: SigSet_add_def SigSet_delete_def sigaddset_def sigdelset_def bad_signum_iff errno_if_def)

section \<open>The loops\<close>

definition invalid_in :: "int list \<Rightarrow> bool" where
  "invalid_in nums \<longleftrightarrow> (\<exists>n\<in>set nums. \<not> valid_sig n)"

lemma block_loop_eq:
  "block_loop sset nums m s =
     (if in_set 1 sset then fold (\<lambda>n m. sigaddset_raw m n) (filter valid_sig nums) m else m, errno_if (invalid_in nums) s)"
  by (induction sset nums m s rule: block_loop.induct)
    (auto simp: is_member_first sig_set_ops invalid_in_def)

lemma unblock_loop_eq:
  "unblock_loop sset nums m s =
     (if in_set 1 sset then fold (\<lambda>n m. sigdelset_raw m n) (filter valid_sig nums) m else m, errno_if (invalid_in nums) s)"
  by (induction sset nums m s rule: unblock_loop.induct)
    (auto simp: is_member_first sig_set_ops invalid_in_def)

lemma complement_loop_eq:
  "complement_loop sset nums m s =
     (if in_set 1 sset then m else fold (\<lambda>n m. sigaddset_raw m n) (filter valid_sig nums) m, errno_if (invalid_in nums) s)"
  by (induction sset nums m s rule: complement_loop.induct)
    (auto simp: is_member_first sig_set_ops invalid_in_def)

lemma in_set_add:
  assumes "valid_sig n" and "valid_sig sig" and "m \<noteq> []"
  shows "in_set sig (sigaddset_raw m n) \<longleftrightarrow> in_set sig m \<or> sig = n"
  using assms(3) valid_sig_word(1,3) [OF assms(1)] valid_sig_word(3) [OF assms(2)] bit_sigmask [OF assms(1)] assms(1,2) [unfolded valid_sig_def]
  by (auto simp: in_set_def sigaddset_raw_def valid_sig_def bit_or_iff)

lemma in_set_delete:
  assumes "valid_sig n" and "valid_sig sig" and "m \<noteq> []"
  shows "in_set sig (sigdelset_raw m n) \<longleftrightarrow> in_set sig m \<and> sig \<noteq> n"
  using assms(3) valid_sig_word(1,3) [OF assms(1)] valid_sig_word(3) [OF assms(2)] bit_sigmask [OF assms(1)] assms(1,2) [unfolded valid_sig_def]
  by (auto simp: in_set_def sigdelset_raw_def valid_sig_def bit_and_iff bit_not_iff)

lemma length_raw [simp]: "length (sigaddset_raw m n) = length m" "length (sigdelset_raw m n) = length m"
  by (simp_all add: sigaddset_raw_def sigdelset_raw_def)

lemma in_set_fold_add:
  "\<forall>n\<in>set ns. valid_sig n \<Longrightarrow> valid_sig sig \<Longrightarrow> m \<noteq> [] \<Longrightarrow>
     in_set sig (fold (\<lambda>n m. sigaddset_raw m n) ns m) \<longleftrightarrow> in_set sig m \<or> sig \<in> set ns"
proof (induction ns arbitrary: m)
  case (Cons n ns)
  have "sigaddset_raw m n \<noteq> []" using Cons.prems(3) by (simp add: sigaddset_raw_def)
  with Cons show ?case by (auto simp: in_set_add)
qed simp

lemma in_set_fold_delete:
  "\<forall>n\<in>set ns. valid_sig n \<Longrightarrow> valid_sig sig \<Longrightarrow> m \<noteq> [] \<Longrightarrow>
     in_set sig (fold (\<lambda>n m. sigdelset_raw m n) ns m) \<longleftrightarrow> in_set sig m \<and> sig \<notin> set ns"
proof (induction ns arbitrary: m)
  case (Cons n ns)
  have "sigdelset_raw m n \<noteq> []" using Cons.prems(3) by (simp add: sigdelset_raw_def)
  with Cons show ?case by (auto simp: in_set_delete)
qed simp

lemma length_fold_raw [simp]:
  "length (fold (\<lambda>n m. sigaddset_raw m n) ns m) = length m" "length (fold (\<lambda>n m. sigdelset_raw m n) ns m) = length m"
  by (induction ns arbitrary: m) auto

lemma in_set_consts: "valid_sig sig \<Longrightarrow> \<not> in_set sig sigemptyset" "valid_sig sig \<Longrightarrow> in_set sig sigfillset"
  using valid_sig_word(3) [of sig] by (auto simp: in_set_def sigemptyset_def sigfillset_def)

section \<open>Masking\<close>

text \<open>The mask of a thread has its sixteen words.\<close>

definition mask_ok :: "('a, 'w) sig_st \<Rightarrow> bool" where
  "mask_ok s \<longleftrightarrow> length (sg_mask s) = 16"

lemma mask_nonempty: "mask_ok s \<Longrightarrow> sg_mask s \<noteq> []"
  by (auto simp: mask_ok_def)

lemma block_fields [simp]:
  "sg_global (block sset s) = sg_global s" "sg_counter (block sset s) = sg_counter s" "sg_world (block sset s) = sg_world s"
  "mask_ok (block sset s) = mask_ok s"
  by (simp_all add: block_def block_loop_eq set_block_mask_def get_block_mask_def mask_ok_def)

lemma unblock_fields [simp]:
  "sg_global (unblock sset s) = sg_global s" "sg_counter (unblock sset s) = sg_counter s" "sg_world (unblock sset s) = sg_world s"
  "mask_ok (unblock sset s) = mask_ok s"
  by (simp_all add: unblock_def unblock_loop_eq set_block_mask_def get_block_mask_def mask_ok_def)

lemma block_effect:
  assumes "mask_ok s" and "valid_sig sig"
  shows "in_set sig (sg_mask (block sset s)) \<longleftrightarrow> in_set sig (sg_mask s) \<or> in_set 1 sset \<and> sig \<noteq> 64"
  using in_set_fold_add [of "filter valid_sig [0..SIGRTMAX - 1]" sig "sg_mask s"] mask_nonempty [OF assms(1)] assms(2)
  by (auto simp: block_def block_loop_eq set_block_mask_def get_block_mask_def valid_sig_def SIGRTMAX_def)

lemma unblock_effect:
  assumes "mask_ok s" and "valid_sig sig"
  shows "in_set sig (sg_mask (unblock sset s)) \<longleftrightarrow> in_set sig (sg_mask s) \<and> \<not> in_set 1 sset"
  using in_set_fold_delete [of "filter valid_sig [0..SIGRTMAX]" sig "sg_mask s"] mask_nonempty [OF assms(1)] assms(2)
  by (auto simp: unblock_def unblock_loop_eq set_block_mask_def get_block_mask_def valid_sig_def SIGRTMAX_def)

lemma complement_effect:
  assumes "valid_sig sig"
  shows "in_set sig (fst (SigSet_complement sset s)) \<longleftrightarrow> \<not> in_set 1 sset"
    and "\<exists>b. snd (SigSet_complement sset s) = errno_if b s"
  using in_set_fold_add [of "filter valid_sig [0..SIGRTMAX]" sig sigemptyset] in_set_consts(1) [OF assms] assms
  by (auto simp: SigSet_complement_def complement_loop_eq valid_sig_def SIGRTMAX_def sigemptyset_def)

lemma ocall_sigprocmask_fields:
  assumes "ocall_sigprocmask P how sset s = (r, s')"
  shows "sg_mask s' = sg_mask s" and "sg_global s' = sg_global s" and "sg_counter s' = sg_counter s"
  using assms by (auto simp: ocall_sigprocmask_def Let_def sg_set_errno_def split: prod.splits if_splits)

lemma sigprocmask_mask:
  assumes "mask_ok s" and "valid_sig sig" and "rsgx_sigprocmask P how sset oldset s = (r, oldset', s')"
    and "how = SIG_BLOCK \<or> how = SIG_UNBLOCK \<or> how = SIG_SETMASK"
  shows "in_set sig (sg_mask s') \<longleftrightarrow>
           (if how = SIG_BLOCK then in_set sig (sg_mask s) \<or> in_set 1 sset \<and> sig \<noteq> 64
            else if how = SIG_UNBLOCK then in_set sig (sg_mask s) \<and> \<not> in_set 1 sset
            else in_set 1 sset \<and> (in_set sig (sg_mask s) \<or> sig \<noteq> 64))"
    and "mask_ok s'" and "sg_global s' = sg_global s" and "sg_counter s' = sg_counter s" and "oldset' = sg_mask s"
proof -
  define to_block where "to_block = (if how = SIG_BLOCK \<or> how = SIG_SETMASK then sset else sigemptyset)"
  obtain to_unblock s1 where un: "(if how = SIG_UNBLOCK then (sset, s) else if how = SIG_SETMASK then SigSet_complement sset s
      else (sigemptyset, s)) = (to_unblock, s1)" by fastforce
  obtain r2 s2 where host: "ocall_sigprocmask P how sset (unblock to_unblock s1) = (r2, s2)" by fastforce
  have s': "s' = block to_block s2" and "oldset' = get_block_mask s"
    using assms(3,4) un host by (auto simp: rsgx_sigprocmask_def to_block_def Let_def split: if_splits)
  then show "oldset' = sg_mask s" by (simp add: get_block_mask_def)
  have same: "sg_mask s1 = sg_mask s" "sg_global s1 = sg_global s" "sg_counter s1 = sg_counter s"
    using un complement_effect(2) [OF assms(2), of sset s] by (auto split: if_splits)
  note fields = ocall_sigprocmask_fields [OF host]
  have ok: "mask_ok s1" "mask_ok s2"
    using assms(1) same(1) fields(1) unblock_fields(4) [of to_unblock s1] by (simp_all add: mask_ok_def)
  show "mask_ok s'" "sg_global s' = sg_global s" "sg_counter s' = sg_counter s"
    using ok same fields by (simp_all add: s')
  have mask: "in_set sig (sg_mask s') \<longleftrightarrow> in_set sig (sg_mask s) \<and> \<not> in_set 1 to_unblock \<or> in_set 1 to_block \<and> sig \<noteq> 64"
    using block_effect [OF ok(2) assms(2)] unblock_effect [OF ok(1) assms(2)] fields(1) same(1) by (simp add: s')
  have one: "valid_sig 1" by (simp add: valid_sig_def)
  show "in_set sig (sg_mask s') \<longleftrightarrow>
           (if how = SIG_BLOCK then in_set sig (sg_mask s) \<or> in_set 1 sset \<and> sig \<noteq> 64
            else if how = SIG_UNBLOCK then in_set sig (sg_mask s) \<and> \<not> in_set 1 sset
            else in_set 1 sset \<and> (in_set sig (sg_mask s) \<or> sig \<noteq> 64))"
    using mask un assms(4) complement_effect(1) [OF one, of sset s] in_set_consts(1) [OF one]
    by (auto simp: to_block_def SIG_BLOCK_def SIG_UNBLOCK_def SIG_SETMASK_def split: if_splits)
qed

lemma with_signals_blocked_clears:
  assumes "with_signals_blocked P f s = Ret (x, s')" and "mask_ok s"
    and "\<And>s1 y s2. f s1 = Ret (y, s2) \<Longrightarrow> mask_ok s1 \<Longrightarrow> mask_ok s2"
  shows "mask_ok s'" and "valid_sig sig \<Longrightarrow> \<not> in_set sig (sg_mask s')"
proof -
  have one: "valid_sig 1" by (simp add: valid_sig_def)
  obtain r o1 s1 where first: "rsgx_sigprocmask P SIG_SETMASK sigfillset sigemptyset s = (r, o1, s1)"
    by (metis prod_cases3)
  obtain s2 where f: "f s1 = Ret (x, s2)" and s': "s' = snd (snd (rsgx_sigprocmask P SIG_SETMASK sigemptyset sigfillset s2))"
    using assms(1) first by (auto simp: with_signals_blocked_def Let_def split: outcome.splits)
  have ok: "mask_ok s2" using assms(3) [OF f] sigprocmask_mask(2) [OF assms(2) one first] by simp
  obtain r' o2 where second: "rsgx_sigprocmask P SIG_SETMASK sigemptyset sigfillset s2 = (r', o2, s')"
    using s' by (metis prod.collapse)
  show "mask_ok s'" using sigprocmask_mask(2) [OF ok one second] by simp
  show "\<not> in_set sig (sg_mask s')" if "valid_sig sig"
    using sigprocmask_mask(1) [OF ok that second] in_set_consts(1) [OF one]
    by (simp add: SIG_SETMASK_def SIG_BLOCK_def SIG_UNBLOCK_def)
qed

lemma upd_manager_fields [simp]:
  "sg_mask (upd_manager f s) = sg_mask s" "sg_counter (upd_manager f s) = sg_counter s" "sg_world (upd_manager f s) = sg_world s"
  "mask_ok (upd_manager f s) = mask_ok s"
  by (simp_all add: upd_manager_def mask_ok_def)

lemma ensure_fields [simp]: "sg_mask (ensure s) = sg_mask s" "sg_counter (ensure s) = sg_counter s" "mask_ok (ensure s) = mask_ok s"
  by (auto simp: ensure_def mask_ok_def split: option.split)

lemma install_on_host_fields:
  assumes "install_on_host P signo act oldact s = (r, oldact', s')"
  shows "sg_mask s' = sg_mask s" and "sg_counter s' = sg_counter s"
    and "sg_global s' = map_option (if sa_flags act AND SA_RESETHAND \<noteq> 0 then set_reset_on_handle signo else id) (sg_global s)"
  using assms
  by (auto simp: install_on_host_def ocall_sigaction_def Let_def host_act_def sg_set_errno_def upd_manager_def option.map_id
      split: prod.splits if_splits)

text \<open>
  The signal mask follows \<^verbatim>\<open>SIGHUP\<close>. What \<^verbatim>\<open>rsgx_sigprocmask\<close> does to the mask of the thread depends on the given set only through its
  signal 1: \<^verbatim>\<open>SIG_BLOCK\<close> and \<^verbatim>\<open>SIG_SETMASK\<close> block every signal but 64 if it is in the set and none otherwise (\<^verbatim>\<open>SIG_SETMASK\<close> then unblocks
  all), \<^verbatim>\<open>SIG_UNBLOCK\<close> unblocks all signals or none.
\<close>

theorem sigprocmask_follows_first_signal:
  assumes "mask_ok s" and "1 \<le> sig" and "sig \<le> 64" and "how = SIG_BLOCK \<or> how = SIG_UNBLOCK \<or> how = SIG_SETMASK"
  shows "in_set sig (sg_mask (snd (snd (rsgx_sigprocmask P how sset oldset s)))) \<longleftrightarrow>
           (if how = SIG_BLOCK then in_set sig (sg_mask s) \<or> in_set 1 sset \<and> sig \<noteq> 64
            else if how = SIG_UNBLOCK then in_set sig (sg_mask s) \<and> \<not> in_set 1 sset
            else in_set 1 sset \<and> (in_set sig (sg_mask s) \<or> sig \<noteq> 64))"
proof -
  have "valid_sig sig" using assms(2,3) by (simp add: valid_sig_def)
  then show ?thesis
    using sigprocmask_mask(1) [OF assms(1) _ _ assms(4)] by (metis prod.collapse)
qed

text \<open>
  Installing a handler unblocks all signals. After a \<^verbatim>\<open>rsgx_sigaction\<close> that got as far as the table of handlers, no signal is blocked
  in the thread, whatever was blocked before: the mask to restore is read into a temporary and lost.
\<close>

theorem sigaction_clears_mask:
  assumes "mask_ok s" and "1 \<le> sig" and "sig \<le> 64" and "signum \<notin> set FORBIDDEN" and "get_enclave_id P \<noteq> 0"
    and "1 \<le> signum" and "signum \<le> 64"
  shows "\<exists>r oldact' s'. rsgx_sigaction P signum act oldact s = Ret (r, oldact', s') \<and> \<not> in_set sig (sg_mask s')"
proof -
  have sig: "valid_sig sig" "valid_sig signum" using assms by (auto simp: valid_sig_def)
  let ?f = "\<lambda>s. Ret ((), upd_manager (set_action signum act) s)"
  obtain s1 where run: "with_signals_blocked P ?f (ensure s) = Ret ((), s1)"
    by (simp add: with_signals_blocked_def Let_def)
  have clear: "\<not> in_set sig (sg_mask s1)"
    using with_signals_blocked_clears(2) [OF run _ _ sig(1)] assms(1) by auto
  obtain r oldact' s' where host: "install_on_host P signum act (old_action signum oldact (ensure s)) s1 = (r, oldact', s')"
    by (metis prod_cases3)
  then have "rsgx_sigaction P signum act oldact s = Ret (r, oldact', s')"
    using assms(4,5) sig(2) run by (simp add: rsgx_sigaction_def native_sigaction_def from_raw_valid)
  then show ?thesis
    using clear install_on_host_fields(1) [OF host] by auto
qed

section \<open>The table of closures\<close>

definition actions_at :: "int \<Rightarrow> ('a, 'w) sig_st \<Rightarrow> (nat \<times> 'a) list" where
  "actions_at signo s = (case action_set (global_manager s) signo of None \<Rightarrow> [] | Some slot \<Rightarrow> actions slot)"

text \<open>Every identifier in the table was handed out before.\<close>

definition reg_ok :: "('a, 'w) sig_st \<Rightarrow> bool" where
  "reg_ok s \<longleftrightarrow> (\<forall>signo. \<forall>e\<in>set (actions_at signo s). fst e < sg_counter s)"

lemma actions_at_cong:
  "sg_global s' = sg_global s \<Longrightarrow> actions_at signo s' = actions_at signo s"
  by (simp add: actions_at_def global_manager_def)

lemma global_manager_ensure [simp]: "global_manager (ensure s) = global_manager s"
  by (simp add: ensure_def global_manager_def split: option.split)

lemma sg_global_ensure: "\<exists>m. sg_global (ensure s) = Some m"
  by (simp add: ensure_def split: option.split)

lemma actions_at_ensure [simp]: "actions_at signo (ensure s) = actions_at signo s"
  by (simp add: actions_at_def)

lemma global_manager_upd: "sg_global s = Some m \<Longrightarrow> global_manager (upd_manager f s) = f (global_manager s)"
  by (simp add: upd_manager_def global_manager_def)

text \<open>The two masks around the section do not touch the table.\<close>

lemma with_signals_blocked_table:
  assumes "with_signals_blocked P f s = Ret (x, s')" and "mask_ok s"
  obtains s1 s2 where "sg_global s1 = sg_global s" and "sg_counter s1 = sg_counter s" and "mask_ok s1" and "f s1 = Ret (x, s2)"
    and "mask_ok s2 \<longrightarrow> sg_global s' = sg_global s2 \<and> sg_counter s' = sg_counter s2"
proof -
  have one: "valid_sig 1" by (simp add: valid_sig_def)
  obtain r o1 s1 where first: "rsgx_sigprocmask P SIG_SETMASK sigfillset sigemptyset s = (r, o1, s1)"
    by (metis prod_cases3)
  obtain s2 where f: "f s1 = Ret (x, s2)" and s': "s' = snd (snd (rsgx_sigprocmask P SIG_SETMASK sigemptyset sigfillset s2))"
    using assms(1) first by (auto simp: with_signals_blocked_def Let_def split: outcome.splits)
  obtain r' o2 where second: "rsgx_sigprocmask P SIG_SETMASK sigemptyset sigfillset s2 = (r', o2, s')"
    using s' by (metis prod.collapse)
  show thesis
    using that [OF _ _ _ f] sigprocmask_mask(2-4) [OF assms(2) one first] sigprocmask_mask(3,4) [OF _ one second] by auto
qed

lemma ActionSlot_set_appends:
  assumes "ActionSlot_set a slot s = Ret (i, slot', s')" and "\<forall>e\<in>set (actions slot). fst e < sg_counter s"
  shows "i = sg_counter s" and "slot' = slot\<lparr>actions := actions slot @ [(i, a)]\<rparr>" and "s' = s\<lparr>sg_counter := Suc i\<rparr>"
  using assms by (auto simp: ActionSlot_set_def ActionId_new_def btree_insert_last split: if_splits)

lemma set_action_impl_appends:
  assumes "set_action_impl signo act a s = Ret (i, s')" and "reg_ok s" and "sg_global s = Some m" and "mask_ok s"
  shows "i = sg_counter s" and "sg_counter s' = Suc i" and "mask_ok s'"
    and "actions_at signo s' = actions_at signo s @ [(i, a)]"
    and "\<And>other. other \<noteq> signo \<Longrightarrow> action_set (global_manager s') other = action_set (global_manager s) other"
    and "\<exists>m'. sg_global s' = Some m' \<and> action_set m' signo \<noteq> None"
proof -
  define slot where "slot = (case action_set (global_manager s) signo of None \<Rightarrow> ActionSlot_new act | Some sl \<Rightarrow> sl)"
  have acts: "actions slot = actions_at signo s"
    by (auto simp: slot_def actions_at_def ActionSlot_new_def split: option.split)
  obtain slot' s1 where set': "ActionSlot_set a slot s = Ret (i, slot', s1)"
    and s': "s' = upd_manager (\<lambda>m. m\<lparr>action_set := (action_set m)(signo \<mapsto> slot')\<rparr>) s1"
    using assms(1)
    by (cases "action_set (global_manager s) signo")
      (auto simp: set_action_impl_def set_action_impl_act_def slot_def split: outcome.splits prod.splits)
  have bound: "\<forall>e\<in>set (actions slot). fst e < sg_counter s"
    using assms(2) by (simp add: reg_ok_def acts)
  note app = ActionSlot_set_appends [OF set' bound]
  show "i = sg_counter s" "sg_counter s' = Suc i" "mask_ok s'"
    "actions_at signo s' = actions_at signo s @ [(i, a)]"
    "\<And>other. other \<noteq> signo \<Longrightarrow> action_set (global_manager s') other = action_set (global_manager s) other"
    "\<exists>m'. sg_global s' = Some m' \<and> action_set m' signo \<noteq> None"
    using app assms(3,4) acts by (auto simp: s' upd_manager_def global_manager_def actions_at_def mask_ok_def)
qed

lemma install_on_host_table:
  assumes "install_on_host P signo act oldact s = (r, oldact', s')"
  shows "action_set (global_manager s') = action_set (global_manager s)" and "sg_global s' = None \<longleftrightarrow> sg_global s = None"
    and "sg_counter s' = sg_counter s"
  using install_on_host_fields [OF assms]
  by (auto simp: global_manager_def set_reset_on_handle_def split: option.split if_splits)

lemma set_action_impl_mask: "set_action_impl signo act a s = Ret (i, s') \<Longrightarrow> mask_ok s' = mask_ok s"
  by (auto simp: set_action_impl_def set_action_impl_act_def ActionSlot_set_def ActionId_new_def mask_ok_def upd_manager_def
      split: if_splits option.splits outcome.splits prod.splits)

lemma native_sigaction_impl_table:
  assumes "native_sigaction_impl P signo act oldact a s = Ret (r, s')" and "mask_ok s"
  obtains i sb where "with_signals_blocked P (set_action_impl signo act a) (ensure s) = Ret (i, sb)" and "\<forall>j. r = Inr j \<longrightarrow> j = i"
    and "action_set (global_manager s') = action_set (global_manager sb)" and "sg_global s' = None \<longleftrightarrow> sg_global sb = None"
    and "sg_counter s' = sg_counter sb" and "mask_ok s'"
proof -
  obtain i sb where blocked: "with_signals_blocked P (set_action_impl signo act a) (ensure s) = Ret (i, sb)"
    using assms by (auto simp: native_sigaction_impl_def Let_def split: outcome.splits)
  have ok: "mask_ok sb"
    by (rule with_signals_blocked_clears(1) [OF blocked]) (use assms(2) in \<open>auto simp: set_action_impl_mask\<close>)
  obtain q old s2 where host: "install_on_host P signo act (old_action signo oldact (ensure s)) sb = (q, old, s2)"
    by (metis prod_cases3)
  have "s' = sb \<or> s' = s2" and "\<forall>j. r = Inr j \<longrightarrow> j = i"
    using assms blocked host by (auto simp: native_sigaction_impl_def Let_def split: if_splits)
  moreover have "mask_ok s2" using ok install_on_host_fields(1) [OF host] by (simp add: mask_ok_def)
  ultimately show thesis
    using that [OF blocked] install_on_host_table [OF host] ok by auto
qed

lemma register_table:
  fixes s :: "('a, 'w) sig_st"
  assumes "native_sigaction_impl P signo act oldact a s = Ret (r, s')" and "reg_ok s" and "mask_ok s"
  shows "\<forall>j. r = Inr j \<longrightarrow> j = sg_counter s" and "sg_counter s' = Suc (sg_counter s)"
    and "actions_at signo s' = actions_at signo s @ [(sg_counter s, a)]"
    and "\<And>other. other \<noteq> signo \<Longrightarrow> actions_at other s' = actions_at other s"
    and "\<exists>m'. sg_global s' = Some m' \<and> action_set m' signo \<noteq> None" and "mask_ok s'"
proof -
  obtain i sb where blocked: "with_signals_blocked P (set_action_impl signo act a) (ensure s) = Ret (i, sb)"
    and r: "\<forall>j. r = Inr j \<longrightarrow> j = i"
    and table: "action_set (global_manager s') = action_set (global_manager sb)" "sg_global s' = None \<longleftrightarrow> sg_global sb = None"
      "sg_counter s' = sg_counter sb" and "mask_ok s'"
    by (rule native_sigaction_impl_table [OF assms(1,3)]) auto
  then show "mask_ok s'" by simp
  have ens: "mask_ok (ensure s)" using assms(3) by simp
  obtain s1 s2 :: "('a, 'w) sig_st" where
    s1: "sg_global s1 = sg_global (ensure s)" "sg_counter s1 = sg_counter (ensure s)" "mask_ok s1"
    and set': "set_action_impl signo act a s1 = Ret (i, s2)"
    and s2: "mask_ok s2 \<longrightarrow> sg_global sb = sg_global s2 \<and> sg_counter sb = sg_counter s2"
    by (rule with_signals_blocked_table [OF blocked ens]) blast
  obtain m where m: "sg_global s1 = Some m" using s1(1) sg_global_ensure [of s] by auto
  have acts: "actions_at other s1 = actions_at other s" for other
    using actions_at_cong [OF s1(1), of other] by simp
  have ok: "reg_ok s1" using assms(2) s1(2) by (simp add: reg_ok_def acts)
  note app = set_action_impl_appends [OF set' ok m s1(3)]
  have i: "i = sg_counter s" using app(1) s1(2) by simp
  have sb: "sg_global sb = sg_global s2" "sg_counter sb = sg_counter s2" using s2 app(3) by auto
  have same: "action_set (global_manager s') = action_set (global_manager s2)"
    using table(1) sb(1) by (simp add: global_manager_def)
  show "\<forall>j. r = Inr j \<longrightarrow> j = sg_counter s" using r i by simp
  show "sg_counter s' = Suc (sg_counter s)" using app(2) sb(2) table(3) i by simp
  show "actions_at signo s' = actions_at signo s @ [(sg_counter s, a)]"
    using app(4) same acts i by (simp add: actions_at_def)
  show "actions_at other s' = actions_at other s" if "other \<noteq> signo" for other
    using app(5) [OF that] same acts [of other] by (simp add: actions_at_def)
  show "\<exists>m'. sg_global s' = Some m' \<and> action_set m' signo \<noteq> None"
    using app(6) same table(2) sb(1) by (auto simp: global_manager_def split: option.splits)
qed

lemma unregister_table:
  assumes "sg_global s = Some m" and "action_set m signo = Some slot"
  shows "unregister (signo, i) s = (map_of (actions slot) i \<noteq> None,
           s\<lparr>sg_global := Some (m\<lparr>action_set := (action_set m)(signo \<mapsto> slot\<lparr>actions := filter (\<lambda>e. fst e \<noteq> i) (actions slot)\<rparr>)\<rparr>)\<rparr>)"
  using assms by (simp add: unregister_def ensure_def Let_def remove_action_def ActionSlot_remove_def global_manager_def upd_manager_def)

text \<open>
  Registering and unregistering are inverse. A successful \<^verbatim>\<open>register\<close> appends the closure to those of its signal under a number no other
  closure has, and changes nothing else in the table; \<^verbatim>\<open>unregister\<close> of the returned identifier finds it and takes it out again.
\<close>

theorem register_unregister_roundtrip:
  assumes "register_impl P signal a s = Ret (Inr (signo, i), s')" and "reg_ok s" and "mask_ok s"
  shows "signo = signal \<and> (\<forall>other b. (i, b) \<notin> set (actions_at other s)) \<and>
         actions_at signal s' = actions_at signal s @ [(i, a)] \<and>
         (\<forall>other. other \<noteq> signal \<longrightarrow> actions_at other s' = actions_at other s) \<and>
         (\<exists>s''. unregister (signo, i) s' = (True, s'') \<and> (\<forall>other. actions_at other s'' = actions_at other s))"
proof -
  have signo: "signo = signal"
    and native: "native_sigaction_impl P signal zeroed_sigaction zeroed_sigaction a s = Ret (Inr i, s')"
    using assms(1) by (auto simp: register_impl_def from_raw_valid split: if_splits outcome.splits prod.splits sum.splits)
  have i: "i = sg_counter s" using register_table(1) [OF native assms(2,3)] by simp
  note reg = register_table(2-) [OF native assms(2,3), folded i]
  have fresh: "fst e \<noteq> i" if "e \<in> set (actions_at other s)" for e other
    using assms(2) that i unfolding reg_ok_def by (metis less_irrefl)
  obtain m slot where m: "sg_global s' = Some m" "action_set m signal = Some slot"
    using reg(4) by auto
  have acts: "actions slot = actions_at signal s @ [(i, a)]"
    using reg(2) m by (simp add: actions_at_def global_manager_def)
  have drop: "filter (\<lambda>e. fst e \<noteq> i) (actions slot) = actions_at signal s"
    using fresh by (simp add: acts filter_id_conv)
  let ?s = "snd (unregister (signal, i) s')"
  have "actions_at other ?s = actions_at other s" for other
    using reg(3) [of other] unregister_table [OF m, of i] drop m
    by (cases "other = signal") (auto simp: actions_at_def global_manager_def)
  moreover have "fst (unregister (signal, i) s')"
    unfolding unregister_table [OF m] acts by (simp add: map_of_eq_None_iff)
  ultimately have "unregister (signo, i) s' = (True, ?s) \<and> (\<forall>other. actions_at other ?s = actions_at other s)"
    by (simp add: signo prod_eq_iff)
  then show ?thesis
    using signo reg(2,3) fresh by fastforce
qed

section \<open>Delivery\<close>

text \<open>The calls a slot makes for a signal, in order.\<close>

definition calls_of :: "siginfo_t \<Rightarrow> 'a ActionSlot \<Rightarrow> 'a sig_call list" where
  "calls_of info slot =
     (if sa_sigaction (cur slot) = 0 then []
      else if sa_flags (cur slot) AND SA_SIGINFO \<noteq> 0 then [Fn_sa_sigaction (sa_sigaction (cur slot)) (si_signo info) info]
      else [Fn_sa_handler (sa_sigaction (cur slot)) (si_signo info)])
     @ map (\<lambda>e. Action (snd e) info) (actions slot)"

lemma handler_eq:
  assumes "get_action (si_signo info) (global_manager s) = Some slot" and "valid_sig (si_signo info)"
  shows "handler P (si_signo info) info s =
    set_block_mask (sg_mask s) (fold (run_call P) (calls_of info slot)
      (block (sa_mask (cur slot))
        (if is_reset_on_handle (si_signo info) (global_manager s)
         then upd_manager (\<lambda>m. snd (clear_action (si_signo info) m)) s else s)))"
  using assms
  by (simp add: handler_def from_raw_valid Let_def calls_of_def get_block_mask_def fold_map comp_def)


section \<open>Flags and results\<close>

lemma rsgx_sigaction_run:
  fixes s :: "('a, 'w) sig_st"
  assumes "signum \<notin> set FORBIDDEN" and "get_enclave_id P \<noteq> 0" and "valid_sig signum" and "mask_ok s"
  obtains s1 where "rsgx_sigaction P signum act oldact s = Ret (install_on_host P signum act (old_action signum oldact (ensure s)) s1)"
    and "global_manager s1 = set_action signum act (global_manager s)" and "\<exists>m. sg_global s1 = Some m"
    and "sg_counter s1 = sg_counter s" and "mask_ok s1"
proof -
  let ?f = "\<lambda>s. Ret ((), upd_manager (set_action signum act) s)"
  obtain s1 where run: "with_signals_blocked P ?f (ensure s) = Ret ((), s1)"
    by (simp add: with_signals_blocked_def Let_def)
  have ens: "mask_ok (ensure s)" using assms(4) by simp
  have ok: "mask_ok s1" using with_signals_blocked_clears(1) [OF run ens] by auto
  obtain sa sb :: "('a, 'w) sig_st" where sa: "sg_global sa = sg_global (ensure s)" "sg_counter sa = sg_counter (ensure s)" "mask_ok sa" and sb: "?f sa = Ret ((), sb)"
    and s1: "mask_ok sb \<longrightarrow> sg_global s1 = sg_global sb \<and> sg_counter s1 = sg_counter sb"
    by (rule with_signals_blocked_table [OF run ens]) blast
  obtain m where m: "sg_global (ensure s) = Some m" using sg_global_ensure by blast
  have "sg_global s1 = Some (set_action signum act m)"
    using s1 sa sb m by (auto simp: upd_manager_def mask_ok_def)
  moreover have "global_manager s = m"
    using m global_manager_ensure [of s] by (simp add: global_manager_def split: option.splits)
  moreover have "sg_counter s1 = sg_counter s"
    using s1 sa sb by (auto simp: upd_manager_def mask_ok_def)
  ultimately show thesis
    using that [of s1] run assms(1-3) ok
    by (simp add: rsgx_sigaction_def native_sigaction_def from_raw_valid Let_def global_manager_def)
qed

text \<open>
  \<^verbatim>\<open>SA_RESETHAND\<close> is never forgotten. Once a handler of a signal was installed with this flag, a handler installed later without it is
  removed all the same when its first signal arrives (unless a call it makes installs one again).
\<close>

theorem reset_flag_sticky:
  assumes "si_signo info \<in> reset_set (global_manager s)" and "sa_flags act AND SA_RESETHAND = 0"
    and "si_signo info \<notin> set FORBIDDEN" and "get_enclave_id P \<noteq> 0" and "1 \<le> si_signo info" and "si_signo info \<le> 64" and "mask_ok s"
    and "\<And>c t. sg_global (run_call P c t) = sg_global t"
  shows "\<exists>r oldact' s'. rsgx_sigaction P (si_signo info) act oldact s = Ret (r, oldact', s') \<and>
           action_set (global_manager s') (si_signo info) \<noteq> None \<and>
           action_set (global_manager (handler P (si_signo info) info s')) (si_signo info) = None"
proof -
  have sig: "valid_sig (si_signo info)" using assms(5,6) by (simp add: valid_sig_def)
  obtain s1 where run: "rsgx_sigaction P (si_signo info) act oldact s =
      Ret (install_on_host P (si_signo info) act (old_action (si_signo info) oldact (ensure s)) s1)"
    and s1: "global_manager s1 = set_action (si_signo info) act (global_manager s)" "\<exists>m. sg_global s1 = Some m"
    by (rule rsgx_sigaction_run [OF assms(3,4) sig assms(7), of act oldact])
  obtain r oldact' s' where host: "install_on_host P (si_signo info) act (old_action (si_signo info) oldact (ensure s)) s1 = (r, oldact', s')"
    by (metis prod_cases3)
  have glob: "sg_global s' = sg_global s1"
    using install_on_host_fields(3) [OF host] assms(2) by (simp add: option.map_id)
  obtain m where m: "sg_global s' = Some m" using s1(2) glob by auto
  have table: "global_manager s' = set_action (si_signo info) act (global_manager s)"
    using s1(1) glob by (simp add: global_manager_def)
  have get: "get_action (si_signo info) (global_manager s') = Some (ActionSlot_new act)"
    by (simp add: table get_action_def set_action_def)
  have keep: "sg_global (fold (run_call P) cs t) = sg_global t" for cs t
    using assms(8) by (induction cs arbitrary: t) auto
  have "si_signo info \<in> reset_set (global_manager s')"
    using assms(1) by (simp add: table set_action_def)
  then have "action_set (global_manager (handler P (si_signo info) info s')) (si_signo info) = None"
    using handler_eq [OF get sig, of P] m keep
    by (simp add: set_block_mask_def global_manager_def is_reset_on_handle_def upd_manager_def clear_action_def)
  then show ?thesis
    using run host get by (auto simp: get_action_def)
qed

text \<open>
  The previous handler comes from the host. When the call of the host succeeds, \<^verbatim>\<open>rsgx_signal\<close> returns the address that the host wrote
  into \<^verbatim>\<open>oldact\<close>, whatever the table of the enclave contains.
\<close>

theorem signal_returns_host_choice:
  assumes "u_sigaction_ocall P = (\<lambda>_ _ _ w. ((SGX_SUCCESS, 0, e, old), w))"
    and "signum \<notin> set FORBIDDEN" and "get_enclave_id P \<noteq> 0" and "1 \<le> signum" and "signum \<le> 64" and "mask_ok s"
  shows "\<exists>s'. rsgx_signal P signum h s = Ret (sa_sigaction old, s')"
proof -
  have sig: "valid_sig signum" using assms(4,5) by (simp add: valid_sig_def)
  obtain s1 where run: "rsgx_sigaction P signum (zeroed_sigaction\<lparr>sa_sigaction := h\<rparr>) zeroed_sigaction s =
      Ret (install_on_host P signum (zeroed_sigaction\<lparr>sa_sigaction := h\<rparr>) (old_action signum zeroed_sigaction (ensure s)) s1)"
    by (rule rsgx_sigaction_run [OF assms(2,3) sig assms(6), of "zeroed_sigaction\<lparr>sa_sigaction := h\<rparr>" zeroed_sigaction])
  show ?thesis
    by (simp add: rsgx_signal_def run install_on_host_def ocall_sigaction_def assms(1) Let_def)
qed

section \<open>Every sequence of calls\<close>

definition sig_ok :: "('a, 'w) sig_st \<Rightarrow> bool" where
  "sig_ok s \<longleftrightarrow> reg_ok s \<and> mask_ok s"

text \<open>
  The states a thread sees when it calls the interface in any order, with any host, and signals arrive in between; what the handlers do
  keeps the state in order, as their own calls do.
\<close>

inductive sig_reach :: "('a, 'w) sig_st \<Rightarrow> bool" where
  start: "sg_global s = None \<Longrightarrow> mask_ok s \<Longrightarrow> sig_reach s"
| register: "sig_reach s \<Longrightarrow> register_impl P signal a s = Ret (r, s') \<Longrightarrow> sig_reach s'"
| unregister: "sig_reach s \<Longrightarrow> sig_reach (snd (unregister sid s))"
| unregister_signal: "sig_reach s \<Longrightarrow> sig_reach (snd (unregister_signal signal s))"
| sigaction: "sig_reach s \<Longrightarrow> rsgx_sigaction P signum act oldact s = Ret (r, oldact', s') \<Longrightarrow> sig_reach s'"
| sigprocmask: "sig_reach s \<Longrightarrow> sig_reach (snd (snd (rsgx_sigprocmask P how sset oldset s)))"
| deliver: "sig_reach s \<Longrightarrow> (\<And>c t. sig_ok t \<Longrightarrow> sig_ok (run_call P c t)) \<Longrightarrow>
    t_signal_handler_ecall P info s = Ret (r, s') \<Longrightarrow> sig_reach s'"

lemma reg_ok_shrink:
  assumes "reg_ok s" and "sg_counter s \<le> sg_counter s'" and "\<And>signo. set (actions_at signo s') \<subseteq> set (actions_at signo s)"
  shows "reg_ok s'"
  using assms unfolding reg_ok_def by (meson in_mono order_less_le_trans)

lemma sig_ok_errno [simp]: "sig_ok (sg_set_errno e s) = sig_ok s"
  by (simp add: sig_ok_def reg_ok_def mask_ok_def sg_set_errno_def actions_at_def global_manager_def)

lemma sig_ok_start: "sg_global s = None \<Longrightarrow> mask_ok s \<Longrightarrow> sig_ok s"
  by (simp add: sig_ok_def reg_ok_def actions_at_def global_manager_def SignalManager_new_def)

lemma sig_ok_register:
  assumes "sig_ok s" and "register_impl P signal a s = Ret (r, s')"
  shows "sig_ok s'"
proof (cases "\<exists>q. native_sigaction_impl P signal zeroed_sigaction zeroed_sigaction a s = Ret (q, s')")
  case True
  then obtain q where q: "native_sigaction_impl P signal zeroed_sigaction zeroed_sigaction a s = Ret (q, s')" by blast
  have ok: "reg_ok s" "mask_ok s" using assms(1) by (auto simp: sig_ok_def)
  note reg = register_table [OF q ok]
  have "fst e < sg_counter s'" if "e \<in> set (actions_at other s')" for e other
    using that reg(2-4) ok(1) unfolding reg_ok_def by (cases "other = signal") (auto simp: less_Suc_eq)
  then show ?thesis using reg(6) by (simp add: sig_ok_def reg_ok_def)
next
  case False
  then have "s' = sg_set_errno SIG_EINVAL s \<or> s' = sg_set_errno SIG_ESGX s"
    using assms(2) by (auto simp: register_impl_def from_raw_valid split: if_splits outcome.splits prod.splits sum.splits)
  then show ?thesis using assms(1) by auto
qed

lemma sig_ok_sigprocmask:
  assumes "sig_ok s"
  shows "sig_ok (snd (snd (rsgx_sigprocmask P how sset oldset s)))"
proof (cases "how = SIG_BLOCK \<or> how = SIG_UNBLOCK \<or> how = SIG_SETMASK")
  case True
  obtain r o' s' where run: "rsgx_sigprocmask P how sset oldset s = (r, o', s')" by (metis prod_cases3)
  have "valid_sig 1" by (simp add: valid_sig_def)
  from sigprocmask_mask(2-4) [OF _ this run True] assms show ?thesis
    by (auto simp: sig_ok_def reg_ok_def run actions_at_def global_manager_def)
qed (use assms in \<open>auto simp: rsgx_sigprocmask_def\<close>)

lemma sig_ok_sigaction:
  assumes "sig_ok s" and "rsgx_sigaction P signum act oldact s = Ret (r, oldact', s')"
  shows "sig_ok s'"
proof (cases "signum \<notin> set FORBIDDEN \<and> get_enclave_id P \<noteq> 0 \<and> valid_sig signum")
  case True
  have ok: "reg_ok s" "mask_ok s" using assms(1) by (auto simp: sig_ok_def)
  obtain s1 where run: "rsgx_sigaction P signum act oldact s = Ret (install_on_host P signum act (old_action signum oldact (ensure s)) s1)"
    and s1: "global_manager s1 = set_action signum act (global_manager s)" "sg_counter s1 = sg_counter s" "mask_ok s1"
    by (rule rsgx_sigaction_run [OF _ _ _ ok(2), where signum = signum and P = P and act = act and oldact = oldact]) (use True in auto)
  then have host: "install_on_host P signum act (old_action signum oldact (ensure s)) s1 = (r, oldact', s')"
    using assms(2) by simp
  note tail = install_on_host_fields(1) [OF host] install_on_host_table(1,3) [OF host]
  have "set (actions_at other s') \<subseteq> set (actions_at other s)" for other
    using tail(2) s1(1) by (auto simp: actions_at_def set_action_def ActionSlot_new_def)
  then have "reg_ok s'" using reg_ok_shrink [OF ok(1), of s'] tail(3) s1(2) by simp
  then show ?thesis using tail(1) s1(3) by (simp add: sig_ok_def mask_ok_def)
qed (use assms in \<open>auto simp: rsgx_sigaction_def from_raw_valid split: if_splits\<close>)

lemma sig_ok_unregister: "sig_ok s \<Longrightarrow> sig_ok (snd (unregister sid s))"
proof -
  assume ok: "sig_ok s"
  obtain m where m: "sg_global (ensure s) = Some m" using sg_global_ensure by blast
  have gm: "global_manager s = m" using m global_manager_ensure [of s] by (simp add: global_manager_def split: option.splits)
  have "set (actions_at other (snd (unregister sid s))) \<subseteq> set (actions_at other s)" for other
    using gm m
    by (cases "action_set m (fst sid)")
      (auto simp: actions_at_def unregister_def Let_def global_manager_upd remove_action_def ActionSlot_remove_def split: option.splits if_splits)
  then have "reg_ok (snd (unregister sid s))"
    using reg_ok_shrink [of s "snd (unregister sid s)"] ok by (simp add: sig_ok_def unregister_def Let_def)
  then show ?thesis using ok by (simp add: sig_ok_def unregister_def Let_def)
qed

lemma sig_ok_cleared:
  assumes "sig_ok s" and "sg_global s = Some m"
  shows "sig_ok (upd_manager (\<lambda>m. snd (clear_action signo m)) s)"
proof -
  have "reg_ok (upd_manager (\<lambda>m. snd (clear_action signo m)) s)"
  proof (rule reg_ok_shrink [of s])
    show "set (actions_at other (upd_manager (\<lambda>m. snd (clear_action signo m)) s)) \<subseteq> set (actions_at other s)" for other
      using assms(2) by (auto simp: actions_at_def global_manager_upd clear_action_def split: option.splits if_splits)
  qed (use assms(1) in \<open>auto simp: sig_ok_def\<close>)
  then show ?thesis using assms(1) by (simp add: sig_ok_def)
qed

lemma sig_ok_ensure [simp]: "sig_ok (ensure s) = sig_ok s"
  by (simp add: sig_ok_def reg_ok_def)

lemma sig_ok_unregister_signal: "sig_ok s \<Longrightarrow> sig_ok (snd (unregister_signal signal s))"
  using sig_ok_cleared [of "ensure s"] sg_global_ensure [of s] by (auto simp: unregister_signal_def Let_def)

lemma sig_ok_block [simp]: "sig_ok (block sset s) = sig_ok s"
  by (simp add: sig_ok_def reg_ok_def actions_at_def global_manager_def)

lemma sig_ok_set_block_mask: "length sset = 16 \<Longrightarrow> sig_ok s \<Longrightarrow> sig_ok (set_block_mask sset s)"
  by (simp add: sig_ok_def mask_ok_def reg_ok_def actions_at_def global_manager_def set_block_mask_def)

lemma sig_ok_run_calls:
  "(\<And>c t. sig_ok t \<Longrightarrow> sig_ok (run_call P c t)) \<Longrightarrow> sig_ok s \<Longrightarrow> sig_ok (fold (run_call P) cs s)"
  by (induction cs arbitrary: s) auto

lemma sig_ok_handler:
  assumes "sig_ok s" and "\<And>c t. sig_ok t \<Longrightarrow> sig_ok (run_call P c t)" and "sg_global s = Some m"
  shows "sig_ok (handler P (si_signo si) si s)"
proof (cases "valid_sig (si_signo si) \<and> get_action (si_signo si) (global_manager s) \<noteq> None")
  case True
  then obtain slot where slot: "get_action (si_signo si) (global_manager s) = Some slot" by blast
  have "length (sg_mask s) = 16" using assms(1) by (simp add: sig_ok_def mask_ok_def)
  then show ?thesis
    using True sig_ok_cleared [OF assms(1,3)] assms(1)
    by (auto simp: handler_eq [OF slot] intro!: sig_ok_set_block_mask sig_ok_run_calls assms(2))
qed (use assms(1) in \<open>auto simp: handler_def from_raw_valid split: option.split\<close>)

lemma sig_ok_deliver:
  assumes "sig_ok s" and "\<And>c t. sig_ok t \<Longrightarrow> sig_ok (run_call P c t)" and "t_signal_handler_ecall P info s = Ret (r, s')"
  shows "sig_ok s'"
proof (cases info)
  case (Some si)
  obtain m where m: "sg_global s = Some m"
    using assms(3) Some by (auto simp: t_signal_handler_ecall_def split: option.splits)
  let ?s = "errno_if (\<not> valid_sig (si_signo si)) s"
  have ok: "sig_ok ?s" using assms(1) by (simp add: errno_if_def)
  have "s' = ?s \<or> s' = handler P (si_signo si) si ?s"
    using assms(3) Some m by (auto simp: t_signal_handler_ecall_def is_member_first split: if_splits)
  then show ?thesis using ok sig_ok_handler [OF ok assms(2), of m si] m by auto
qed (use assms in \<open>auto simp: t_signal_handler_ecall_def\<close>)


section \<open>Witnesses\<close>

text \<open>A host that accepts everything; the application records its calls.\<close>

definition quiet_host :: "('a, 'a sig_call list) sig_ffi" where
  "quiet_host = \<lparr>get_enclave_id = 2, u_sigaction_ocall = (\<lambda>_ _ _ w. ((SGX_SUCCESS, 0, 0, zeroed_sigaction\<lparr>sa_sigaction := 7\<rparr>), w)),
     u_sigprocmask_ocall = (\<lambda>_ _ w. ((SGX_SUCCESS, 0, 0), w)), u_raise_ocall = (\<lambda>_ w. ((SGX_SUCCESS, 0), w)),
     u_signal_clear_ocall = (\<lambda>_ w. (SGX_SUCCESS, w)), run_call = (\<lambda>c s. s\<lparr>sg_world := sg_world s @ [c]\<rparr>)\<rparr>"

definition fresh_signals :: "(string, string sig_call list) sig_st" where
  "fresh_signals = \<lparr>sg_errno = 0, sg_mask = sigemptyset, sg_counter = 1, sg_global = None, sg_at_exit = False, sg_world = []\<rparr>"

lemma fresh_signals_ok: "mask_ok fresh_signals" "reg_ok fresh_signals" "sig_reach fresh_signals"
  using sig_ok_start [of fresh_signals]
  by (auto simp: fresh_signals_def mask_ok_def sigemptyset_def sig_ok_def intro!: sig_reach.start)

theorem sigprocmask_follows_first_signal_witness:
  "\<not> in_set 2 (sg_mask (snd (snd (rsgx_sigprocmask quiet_host SIG_BLOCK (2 # replicate 15 0) [] fresh_signals)))) \<and>
   in_set 2 (sg_mask (snd (snd (rsgx_sigprocmask quiet_host SIG_BLOCK (1 # replicate 15 0) [] fresh_signals))))"
  using sigprocmask_follows_first_signal [OF fresh_signals_ok(1), of 2 SIG_BLOCK quiet_host _ "[]"]
  by (simp add: in_set_def fresh_signals_def sigemptyset_def)

theorem sigaction_clears_mask_witness:
  "\<exists>r oldact' s'. rsgx_sigaction quiet_host 10 zeroed_sigaction zeroed_sigaction (fresh_signals\<lparr>sg_mask := sigfillset\<rparr>) = Ret (r, oldact', s') \<and>
     \<not> in_set 15 (sg_mask s')"
  by (rule sigaction_clears_mask) (auto simp: mask_ok_def sigfillset_def FORBIDDEN_def quiet_host_def)

lemma register_run: "\<exists>s'. register_impl quiet_host 10 ''a'' fresh_signals = Ret (Inr (10, 1), s')"
proof -
  obtain r o' s1 where run: "rsgx_sigprocmask quiet_host SIG_SETMASK sigfillset sigemptyset (ensure fresh_signals) = (r, o', s1)"
    by (metis prod_cases3)
  have ok: "mask_ok (ensure fresh_signals)" "valid_sig 1" using fresh_signals_ok(1) by (simp_all add: valid_sig_def)
  have table: "sg_global s1 = Some SignalManager_new" "sg_counter s1 = 1"
    using sigprocmask_mask(3,4) [OF ok run] by (simp_all add: ensure_def fresh_signals_def)
  have set': "\<exists>s2. set_action_impl 10 zeroed_sigaction ''a'' s1 = Ret (1, s2)"
    using table by (simp add: set_action_impl_def set_action_impl_act_def global_manager_def SignalManager_new_def ActionSlot_set_def ActionId_new_def)
  then obtain sb where "with_signals_blocked quiet_host (set_action_impl 10 zeroed_sigaction ''a'') (ensure fresh_signals) = Ret (1, sb)"
    by (auto simp: with_signals_blocked_def run Let_def)
  moreover have "get_action 10 (global_manager (ensure fresh_signals)) = None"
    by (simp add: get_action_def) (simp add: global_manager_def fresh_signals_def SignalManager_new_def)
  moreover have "fst (install_on_host quiet_host 10 zeroed_sigaction act t) = 0" for act and t :: "(string, string sig_call list) sig_st"
    by (simp add: install_on_host_def ocall_sigaction_def quiet_host_def Let_def)
  ultimately have "\<exists>s'. native_sigaction_impl quiet_host 10 zeroed_sigaction zeroed_sigaction ''a'' fresh_signals = Ret (Inr 1, s')"
    by (auto simp: native_sigaction_impl_def Let_def split: prod.splits) (metis fst_conv)+
  then show ?thesis
    by (auto simp: register_impl_def FORBIDDEN_def SigNum_from_raw_def NSIG_def SIGRTMAX_def) (auto simp: quiet_host_def)
qed

theorem register_unregister_roundtrip_witness:
  "\<exists>s' s''. register_impl quiet_host 10 ''a'' fresh_signals = Ret (Inr (10, 1), s') \<and> actions_at 10 s' = [(1, ''a'')] \<and>
     unregister (10, 1) s' = (True, s'') \<and> actions_at 10 s'' = []"
proof -
  obtain s' where run: "register_impl quiet_host 10 ''a'' fresh_signals = Ret (Inr (10, 1), s')" using register_run by blast
  have "actions_at 10 fresh_signals = []" by (simp add: actions_at_def global_manager_def fresh_signals_def SignalManager_new_def)
  with register_unregister_roundtrip [OF run fresh_signals_ok(2,1)] run show ?thesis by auto
qed


definition one_handler :: "(string, string sig_call list) sig_st" where
  "one_handler = fresh_signals\<lparr>sg_global := Some \<lparr>action_set = [10 \<mapsto> \<lparr>cur = zeroed_sigaction\<lparr>sa_sigaction := 99\<rparr>, actions = [(1, ''a''), (2, ''b'')]\<rparr>],
     reset_set = {10}\<rparr>\<rparr>"

definition sample_info :: siginfo_t where
  "sample_info = \<lparr>si_signo = 10, si_errno = 0, si_code = 0\<rparr>"

lemma one_handler_facts:
  "sg_global one_handler = Some \<lparr>action_set = [10 \<mapsto> \<lparr>cur = zeroed_sigaction\<lparr>sa_sigaction := 99\<rparr>, actions = [(1, ''a''), (2, ''b'')]\<rparr>], reset_set = {10}\<rparr>"
  "mask_ok one_handler" "\<not> in_set 1 (sg_mask one_handler)"
  by (simp_all add: one_handler_def fresh_signals_def mask_ok_def sigemptyset_def in_set_def)


theorem reset_flag_sticky_witness:
  "\<exists>r oldact' s'. rsgx_sigaction quiet_host 10 zeroed_sigaction zeroed_sigaction one_handler = Ret (r, oldact', s') \<and>
     action_set (global_manager s') 10 \<noteq> None \<and> action_set (global_manager (handler quiet_host 10 sample_info s')) 10 = None"
  using reset_flag_sticky [of sample_info one_handler zeroed_sigaction quiet_host zeroed_sigaction] one_handler_facts(2)
  by (simp add: sample_info_def one_handler_def global_manager_def zeroed_sigaction_def FORBIDDEN_def quiet_host_def)

theorem signal_returns_host_choice_witness:
  "\<exists>s'. rsgx_signal quiet_host 10 55 one_handler = Ret (7, s')"
  using signal_returns_host_choice [of quiet_host 0 "zeroed_sigaction\<lparr>sa_sigaction := 7\<rparr>" 10 one_handler 55] one_handler_facts(2)
  by (simp add: quiet_host_def FORBIDDEN_def)

end
