(* ===== verification/Sgx_Alignalloc.thy ===== *)
theory Sgx_Alignalloc
  imports Sgx_Prelude
begin

text \<open>
  The allocator that keeps secrets away from certain bytes of a cache line, \<^verbatim>\<open>src/sgx_alloc/src/alignalloc.rs\<close>, and the box over it,
  \<^verbatim>\<open>src/sgx_alloc/src/alignbox.rs\<close>. \<^verbatim>\<open>malloc\<close> is a parameter; the state has the blocks it has given out and the words written in front of
  the objects. \<open>chk\<close> says that the crate is built with overflow checks. A write outside of its block, or of a word that is not aligned, is \<open>Undef\<close>.
\<close>

unbundle bit_operations_syntax

section \<open>Arithmetic and layouts\<close>

definition USIZE_TOP :: nat where "USIZE_TOP = 2 ^ 64"

definition add_usize :: "bool \<Rightarrow> usize \<Rightarrow> usize \<Rightarrow> usize outcome" where
  "add_usize chk a b = (if a + b < USIZE_TOP then Ret (a + b) else if chk then Panic else Ret ((a + b) mod USIZE_TOP))"

definition is_power_of_two :: "usize \<Rightarrow> bool" where
  "is_power_of_two n \<longleftrightarrow> n \<in> (\<lambda>k. 2 ^ k) ` {..<64}"

record Layout =
  lsize :: usize
  lalign :: usize

text \<open>\<^verbatim>\<open>Layout::from_size_align\<close> of the core library.\<close>

definition Layout_from_size_align :: "usize \<Rightarrow> usize \<Rightarrow> Layout option" where
  "Layout_from_size_align sz al =
     (if \<not> is_power_of_two al \<or> sz > USIZE_TOP - 1 - (al - 1) then None else Some \<lparr>lsize = sz, lalign = al\<rparr>)"

record AlignReq =
  req_offset :: usize
  req_len :: usize

section \<open>The state\<close>

text \<open>\<open>blocks\<close>: the blocks of \<^verbatim>\<open>malloc\<close> with their sizes; \<open>words\<close>: the addresses written in front of the objects.\<close>

record 'w aa_st =
  blocks :: "nat \<rightharpoonup> usize"
  words :: "nat \<rightharpoonup> nat"
  aa_world :: 'w

record 'w aa_ffi =
  c_malloc :: "usize \<Rightarrow> 'w \<Rightarrow> nat \<times> 'w"

definition malloc :: "'w aa_ffi \<Rightarrow> usize \<Rightarrow> 'w aa_st \<Rightarrow> nat \<times> 'w aa_st" where
  "malloc P n s =
     (case c_malloc P n (aa_world s) of (p, w) \<Rightarrow>
        (p, if p = 0 then s\<lparr>aa_world := w\<rparr> else s\<lparr>blocks := (blocks s)(p \<mapsto> n), aa_world := w\<rparr>))"

definition free :: "nat \<Rightarrow> 'w aa_st \<Rightarrow> 'w aa_st outcome" where
  "free p s = (if blocks s p = None then Undef else Ret (s\<lparr>blocks := (blocks s)(p := None)\<rparr>))"

section \<open>Checks\<close>

definition check_overflow :: "usize \<Rightarrow> usize \<Rightarrow> bool" where
  "check_overflow buf len \<longleftrightarrow> buf + len \<ge> USIZE_TOP"

definition check_layout :: "Layout \<Rightarrow> bool" where
  "check_layout layout \<longleftrightarrow>
     \<not> (lsize layout = 0 \<or> \<not> is_power_of_two (lalign layout) \<or> lsize layout > USIZE_TOP - 1 - (lalign layout - 1))"

text \<open>The inner loop of \<^verbatim>\<open>check_align_req\<close>, with \<open>n\<close> turns left: \<open>None\<close> when a bit is set already.\<close>

primrec mark_bits :: "nat \<Rightarrow> usize \<Rightarrow> bytes \<Rightarrow> bytes option outcome" where
  "mark_bits 0 off bmp = Ret (Some bmp)"
| "mark_bits (Suc n) off bmp =
     (if off div 8 \<ge> length bmp then Panic
      else if bmp ! (off div 8) AND push_bit (off mod 8) 1 \<noteq> 0 then Ret None
      else mark_bits n (off + 1) (bmp[off div 8 := bmp ! (off div 8) OR push_bit (off mod 8) 1]))"

text \<open>The outer loop: whether the requests pass.\<close>

fun check_reqs :: "usize \<Rightarrow> AlignReq list \<Rightarrow> bytes \<Rightarrow> bool outcome" where
  "check_reqs sz [] bmp = Ret True"
| "check_reqs sz (req # reqs) bmp =
     (if check_overflow (req_offset req) (req_len req) \<or> req_offset req + req_len req > sz then Ret False
      else bind_out (mark_bits (req_len req) (req_offset req) bmp) (\<lambda>r.
             case r of None \<Rightarrow> Ret False | Some bmp' \<Rightarrow> check_reqs sz reqs bmp'))"

text \<open>The bitmap is released on the two failing exits and not on the successful one.\<close>

definition check_align_req :: "bool \<Rightarrow> 'w aa_ffi \<Rightarrow> usize \<Rightarrow> AlignReq list \<Rightarrow> 'w aa_st \<Rightarrow> (bool \<times> 'w aa_st) outcome" where
  "check_align_req chk P sz align_req s =
     (if align_req = [] then Ret (False, s)
      else bind_out (add_usize chk sz 7) (\<lambda>t.
           let len = t div 8
           in case malloc P len s of (p, s1) \<Rightarrow>
                if p = 0 then Ret (False, s1)
                else bind_out (check_reqs sz align_req (replicate len 0)) (\<lambda>ok.
                       if ok then Ret (True, s1) else bind_out (free p s1) (\<lambda>s2. Ret (False, s2)))))"

section \<open>The padding\<close>

function gen_alignmask :: "usize \<Rightarrow> usize \<Rightarrow> u64 \<Rightarrow> u64" where
  "gen_alignmask al a m = (if a > al then gen_alignmask al (a div 2) (m OR drop_bit (a div 2) m) else m)"
  by pat_completeness auto

termination
  by (relation "measure (\<lambda>(al, a, m). a)") auto

declare gen_alignmask.simps [simp del]

text \<open>
  \<^verbatim>\<open>__rol\<close> with \<open>m = 63\<close>: \<^verbatim>\<open>c & m\<close> is \<open>c mod 64\<close>, and the negated count is taken modulo \<open>2 ^ 64\<close>. (With overflow checks, negating \<open>2 ^ 63\<close>
  panics; \<open>make_bitmap\<close> has that case.)
\<close>

definition rol :: "u64 \<Rightarrow> usize \<Rightarrow> u64" where
  "rol v c = push_bit (c mod 64) v OR drop_bit ((USIZE_TOP - c mod USIZE_TOP) mod 64) v"

definition ror :: "u64 \<Rightarrow> usize \<Rightarrow> u64" where
  "ror v c = rol v ((USIZE_TOP - c mod USIZE_TOP) mod USIZE_TOP)"

lemma shift_left_grows:
  fixes x :: u64
  assumes "x \<noteq> 0" and "\<not> bit x 63"
  shows "unat (push_bit 1 x) = 2 * unat x" and "unat x < unat (push_bit 1 x)"
proof -
  have "unat x < 2 ^ 63"
  proof -
    have "take_bit 63 x = x"
    proof (rule bit_word_eqI)
      fix n assume "n < LENGTH(64)"
      then have "n < 63 \<or> n = 63" by auto
      then show "bit (take_bit 63 x) n \<longleftrightarrow> bit x n" using assms(2) by (auto simp: bit_take_bit_iff)
    qed
    then have "unat x = take_bit 63 (unat x)"
      by (metis unsigned_take_bit_eq)
    then show ?thesis by (metis take_bit_nat_less_exp)
  qed
  then show "unat (push_bit 1 x) = 2 * unat x"
    by (simp only: unsigned_push_bit_eq) (simp add: take_bit_nat_def push_bit_eq_mult)
  then show "unat x < unat (push_bit 1 x)" using assms(1) unat_gt_0 [of x] by simp
qed

text \<open>\<^verbatim>\<open>x < 0\<close> on \<^verbatim>\<open>i64\<close> is the top bit.\<close>

function count_lzb :: "u64 \<Rightarrow> int" where
  "count_lzb bmp = (if bmp = 0 then - 1 else if bit bmp 63 then 0 else count_lzb (push_bit 1 bmp) + 1)"
  by pat_completeness auto

termination
proof (relation "measure (\<lambda>x. 2 ^ 64 - unat x)")
  show "(push_bit 1 bmp, bmp) \<in> measure (\<lambda>x. 2 ^ 64 - unat x)" if "bmp \<noteq> 0" "\<not> bit bmp 63" for bmp :: u64
    using shift_left_grows(2) [OF that] unat_less_pow [of "push_bit 1 bmp"] by (simp add: diff_less_mono2)
qed simp

declare count_lzb.simps [simp del]

definition calc_lspc :: "usize \<Rightarrow> u64 \<Rightarrow> int" where
  "calc_lspc al bmp =
     (if \<not> is_power_of_two al then - 2
      else count_lzb (NOT (ror (bmp OR ror bmp 1 OR ror bmp 2 OR ror bmp 3) 5 OR ror bmp 1)
                      AND gen_alignmask al 64 (push_bit 63 1)))"

text \<open>A request of 63 bytes, or one that starts at \<open>2 ^ 63\<close>, overflows when overflow is checked.\<close>

fun make_bitmap :: "bool \<Rightarrow> AlignReq list \<Rightarrow> u64 \<Rightarrow> u64 outcome" where
  "make_bitmap chk [] bmp = Ret bmp"
| "make_bitmap chk (req # reqs) bmp =
     (if req_len req > 63 then Ret (- 1)
      else if chk \<and> (req_len req = 63 \<or> req_offset req = 2 ^ 63) then Panic
      else make_bitmap chk reqs (bmp OR rol (push_bit (req_len req) 1 - 1) (req_offset req)))"

function calc_algn_loop :: "usize \<Rightarrow> usize \<Rightarrow> usize" where
  "calc_algn_loop sz a = (if a > 8 \<and> sz \<le> a div 2 then calc_algn_loop sz (a div 2) else a)"
  by pat_completeness auto

termination
  by (relation "measure (\<lambda>(sz, a). a)") auto

declare calc_algn_loop.simps [simp del]

definition calc_algn :: "usize \<Rightarrow> usize \<Rightarrow> usize" where
  "calc_algn al sz = (if al > 64 then al else calc_algn_loop sz 64)"

definition padding_needed_for ::
  "bool \<Rightarrow> 'w aa_ffi \<Rightarrow> Layout \<Rightarrow> AlignReq list \<Rightarrow> 'w aa_st \<Rightarrow> (usize option \<times> 'w aa_st) outcome" where
  "padding_needed_for chk P layout align_req s =
     (if \<not> check_layout layout then Ret (None, s)
      else bind_out (check_align_req chk P (lsize layout) align_req s) (\<lambda>(ok, s1).
             if \<not> ok then Ret (None, s1)
             else bind_out (make_bitmap chk align_req 0) (\<lambda>bmp.
                    let offset = calc_lspc (lalign layout) bmp
                    in Ret (if offset < 0 then None else Some (nat offset), s1))))"

definition align_needed_for :: "bool \<Rightarrow> Layout \<Rightarrow> usize \<Rightarrow> usize outcome" where
  "align_needed_for chk layout offset = bind_out (add_usize chk (lsize layout) offset) (\<lambda>t. Ret (calc_algn (lalign layout) t))"

definition pad_align_to ::
  "bool \<Rightarrow> 'w aa_ffi \<Rightarrow> Layout \<Rightarrow> AlignReq list \<Rightarrow> 'w aa_st \<Rightarrow> (Layout option \<times> 'w aa_st) outcome" where
  "pad_align_to chk P layout align_req s =
     bind_out (padding_needed_for chk P layout align_req s) (\<lambda>(r, s1).
       case r of
         None \<Rightarrow> Ret (None, s1)
       | Some pad \<Rightarrow>
           bind_out (align_needed_for chk layout pad) (\<lambda>al.
           bind_out (add_usize chk pad al) (\<lambda>t.
           bind_out (add_usize chk t (lsize layout)) (\<lambda>n.
             Ret (Layout_from_size_align n al, s1)))))"

section \<open>Allocation\<close>

definition make_aligned_ptr :: "bool \<Rightarrow> nat \<Rightarrow> usize \<Rightarrow> usize \<Rightarrow> nat outcome" where
  "make_aligned_ptr chk raw al offset =
     bind_out (add_usize chk raw al) (\<lambda>t.
       let base = unat ((word_of_nat (t + USIZE_TOP - 1) :: u64) AND NOT (word_of_nat (al - 1)))
       in if t = 0 \<and> chk then Panic else add_usize chk base offset)"

text \<open>\<^verbatim>\<open>p.sub(1).write(raw)\<close> into the block of \<open>n\<close> bytes at \<open>raw\<close>.\<close>

definition write_header :: "nat \<Rightarrow> usize \<Rightarrow> nat \<Rightarrow> 'w aa_st \<Rightarrow> 'w aa_st outcome" where
  "write_header raw n p s =
     (if raw + 8 \<le> p \<and> p \<le> raw + n \<and> p mod 8 = 0 then Ret (s\<lparr>words := (words s)(p - 8 \<mapsto> raw)\<rparr>) else Undef)"

definition alloc_with_pad_align_in :: "bool \<Rightarrow> 'w aa_ffi \<Rightarrow> Layout \<Rightarrow> Layout \<Rightarrow> 'w aa_st \<Rightarrow> (nat \<times> 'w aa_st) outcome" where
  "alloc_with_pad_align_in chk P layout align_layout s =
     (if \<not> check_layout layout then Ret (0, s)
      else if \<not> check_layout align_layout then Ret (0, s)
      else bind_out (add_usize chk (lsize layout) (lalign align_layout)) (\<lambda>t.
        if lsize align_layout < t then Ret (0, s)
        else let pad = (lsize align_layout + 2 * USIZE_TOP - lalign align_layout - lsize layout) mod USIZE_TOP
             in bind_out (add_usize chk (lsize align_layout) 8) (\<lambda>n.
                  case malloc P n s of (raw, s1) \<Rightarrow>
                    if raw = 0 then Ret (raw, s1)
                    else bind_out (make_aligned_ptr chk raw (lalign align_layout) pad) (\<lambda>p.
                         bind_out (write_header raw n p s1) (\<lambda>s2. Ret (p, s2))))))"

text \<open>Clearing the memory has no effect on this state: the variants with \<^verbatim>\<open>zeroed\<close> are the same functions.\<close>

definition whole_object :: "Layout \<Rightarrow> AlignReq list" where
  "whole_object layout = [\<lparr>req_offset = 0, req_len = lsize layout\<rparr>]"

definition alloc_with_req :: "bool \<Rightarrow> 'w aa_ffi \<Rightarrow> Layout \<Rightarrow> AlignReq list \<Rightarrow> 'w aa_st \<Rightarrow> (nat \<times> 'w aa_st) outcome" where
  "alloc_with_req chk P layout align_req s =
     (if \<not> check_layout layout then Ret (0, s)
      else bind_out (pad_align_to chk P layout (if align_req = [] then whole_object layout else align_req) s) (\<lambda>(r, s1).
             case r of None \<Rightarrow> Ret (0, s1) | Some align_layout \<Rightarrow> alloc_with_pad_align_in chk P layout align_layout s1))"

definition align_alloc :: "bool \<Rightarrow> 'w aa_ffi \<Rightarrow> Layout \<Rightarrow> 'w aa_st \<Rightarrow> (nat \<times> 'w aa_st) outcome" where
  "align_alloc chk P layout s = alloc_with_req chk P layout (whole_object layout) s"

definition align_dealloc :: "nat \<Rightarrow> 'w aa_st \<Rightarrow> 'w aa_st outcome" where
  "align_dealloc p s = (case words s (p - 8) of None \<Rightarrow> Undef | Some raw \<Rightarrow> free raw s)"

section \<open>The box\<close>

record AlignBox =
  box_ptr :: nat
  align_layout :: Layout
  origin_layout :: Layout

text \<open>\<^verbatim>\<open>allocate_in\<close> for a type of \<open>sz\<close> bytes; \<^verbatim>\<open>handle_alloc_error\<close> aborts.\<close>

definition allocate_in :: "bool \<Rightarrow> 'w aa_ffi \<Rightarrow> usize \<Rightarrow> usize \<Rightarrow> AlignReq list \<Rightarrow> 'w aa_st \<Rightarrow> (AlignBox option \<times> 'w aa_st) outcome" where
  "allocate_in chk P sz al align_req s =
     (if sz = 0 then Ret (None, s)
      else case Layout_from_size_align sz al of
             None \<Rightarrow> Ret (None, s)
           | Some layout \<Rightarrow>
               bind_out (pad_align_to chk P layout align_req s) (\<lambda>(r, s1).
                 case r of
                   None \<Rightarrow> Ret (None, s1)
                 | Some al_layout \<Rightarrow>
                     bind_out (alloc_with_req chk P layout align_req s1) (\<lambda>(p, s2).
                       if p = 0 then Panic
                       else Ret (Some \<lparr>box_ptr = p, align_layout = al_layout, origin_layout = layout\<rparr>, s2))))"

definition new_with_align_in :: "bool \<Rightarrow> 'w aa_ffi \<Rightarrow> usize \<Rightarrow> usize \<Rightarrow> 'w aa_st \<Rightarrow> (AlignBox option \<times> 'w aa_st) outcome" where
  "new_with_align_in chk P sz al s = allocate_in chk P sz al [\<lparr>req_offset = 0, req_len = sz\<rparr>] s"

definition new_in :: "bool \<Rightarrow> 'w aa_ffi \<Rightarrow> usize \<Rightarrow> usize \<Rightarrow> 'w aa_st \<Rightarrow> (AlignBox option \<times> 'w aa_st) outcome" where
  "new_in chk P sz type_align s = allocate_in chk P sz type_align [\<lparr>req_offset = 0, req_len = sz\<rparr>] s"

definition new_with_req_in ::
  "bool \<Rightarrow> 'w aa_ffi \<Rightarrow> usize \<Rightarrow> usize \<Rightarrow> usize \<Rightarrow> AlignReq list \<Rightarrow> 'w aa_st \<Rightarrow> (AlignBox option \<times> 'w aa_st) outcome" where
  "new_with_req_in chk P sz type_align al align_req s =
     (if align_req = [] then new_in chk P sz type_align s else allocate_in chk P sz al align_req s)"

definition box_drop :: "usize \<Rightarrow> AlignBox \<Rightarrow> 'w aa_st \<Rightarrow> 'w aa_st outcome" where
  "box_drop sz b s = (if sz \<noteq> 0 then align_dealloc (box_ptr b) s else Ret s)"

text \<open>
  \<^verbatim>\<open>clone\<close> and \<^verbatim>\<open>clone_from\<close>; copying the value is not part of this state. \<^verbatim>\<open>handle_alloc_error\<close> aborts, and
  the layouts are taken over from the source also when the memory is kept.
\<close>

definition box_clone :: "bool \<Rightarrow> 'w aa_ffi \<Rightarrow> AlignBox \<Rightarrow> 'w aa_st \<Rightarrow> (AlignBox \<times> 'w aa_st) outcome" where
  "box_clone chk P b s =
     bind_out (alloc_with_pad_align_in chk P (origin_layout b) (align_layout b) s) (\<lambda>(p, s1).
       if p = 0 then Panic else Ret (b\<lparr>box_ptr := p\<rparr>, s1))"

definition box_clone_from :: "bool \<Rightarrow> 'w aa_ffi \<Rightarrow> usize \<Rightarrow> AlignBox \<Rightarrow> AlignBox \<Rightarrow> 'w aa_st \<Rightarrow> (AlignBox \<times> 'w aa_st) outcome" where
  "box_clone_from chk P sz b source s =
     (if lsize (align_layout source) \<noteq> lsize (align_layout b)
      then bind_out (alloc_with_pad_align_in chk P (origin_layout source) (align_layout source) s) (\<lambda>(p, s1).
             if p = 0 then Panic
             else bind_out (box_drop sz b s1) (\<lambda>s2. Ret (source\<lparr>box_ptr := p\<rparr>, s2)))
      else Ret (source\<lparr>box_ptr := box_ptr b\<rparr>, s))"

end
