(* ===== verification/Sgx_Alignalloc_Proofs.thy ===== *)
theory Sgx_Alignalloc_Proofs
  imports Sgx_Alignalloc
begin

text \<open>
  The padding found by the bit tricks of \<open>Sgx_Alignalloc\<close> is the smallest one that keeps the requested bytes away from the bytes 0 and 4 to 7
  of their cache line; the returned objects are placed accordingly and stay in their block. The theory also says exactly for which objects
  the word in front of the object is written outside of the block, and what the allocator leaks.
\<close>

unbundle bit_operations_syntax

section \<open>Residues\<close>

lemma mod_shift_iff:
  fixes a p y :: nat
  assumes "p \<le> y"
  shows "a mod n = (y - p) mod n \<longleftrightarrow> (a + p) mod n = y mod n"
proof -
  have "int a mod int n = int (y - p) mod int n \<longleftrightarrow> int (a + p) mod int n = int y mod int n"
    using assms by (simp add: mod_eq_dvd_iff of_nat_diff algebra_simps)
  then show ?thesis by (metis of_nat_eq_iff zmod_int)
qed

lemma power_of_twoE:
  assumes "is_power_of_two n"
  obtains k where "n = 2 ^ k" and "k < 64"
  using assms by (auto simp: is_power_of_two_def)

section \<open>Rotations\<close>

lemma neg_mod_64: "(USIZE_TOP - c mod USIZE_TOP) mod 64 = (64 - c mod 64) mod 64"
proof -
  let ?t = "c mod USIZE_TOP"
  have t: "?t \<le> USIZE_TOP" "?t mod 64 = c mod 64"
    by (simp_all add: USIZE_TOP_def mod_mod_cancel)
  have "(64 - c mod 64) mod 64 = (USIZE_TOP - ?t) mod 64 \<longleftrightarrow> (64 - c mod 64 + ?t) mod 64 = USIZE_TOP mod 64"
    by (rule mod_shift_iff [OF t(1)])
  moreover have "(64 - c mod 64 + ?t) mod 64 = (64 - c mod 64 + c mod 64) mod 64"
    using t(2) by (metis mod_add_right_eq)
  moreover have "64 - c mod 64 + c mod 64 = 64" by simp
  ultimately show ?thesis by (simp add: USIZE_TOP_def)
qed

lemma bit_rol:
  assumes "k < 64"
  shows "bit (rol v c) k \<longleftrightarrow> bit v ((k + (64 - c mod 64)) mod 64)"
proof -
  have out: "\<not> bit v n" if "64 \<le> n" for n
    using that bit_imp_le_length [of v n] by auto
  have eq: "bit (rol v c) k \<longleftrightarrow> c mod 64 \<le> k \<and> bit v (k - c mod 64) \<or> bit v ((64 - c mod 64) mod 64 + k)"
    using assms by (auto simp: rol_def neg_mod_64 bit_or_iff bit_push_bit_iff bit_drop_bit_eq)
  have r: "c mod 64 < 64" by simp
  show ?thesis
  proof (cases "c mod 64 \<le> k")
    case True
    then have "k + (64 - c mod 64) = k - c mod 64 + 64" using r by linarith
    then have "(k + (64 - c mod 64)) mod 64 = k - c mod 64"
      using assms by (simp only: mod_add_self2) simp
    moreover have "(64 - c mod 64) mod 64 + k = (if c mod 64 = 0 then k else 64 - c mod 64 + k)" by auto
    moreover have "64 \<le> 64 - c mod 64 + k" using True r by linarith
    ultimately show ?thesis using eq True out [of "64 - c mod 64 + k"] by (cases "c mod 64 = 0") simp_all
  next
    case False
    then have "(k + (64 - c mod 64)) mod 64 = k + (64 - c mod 64)" "(64 - c mod 64) mod 64 = 64 - c mod 64"
      using r by simp_all
    then show ?thesis using eq False by (simp add: add.commute)
  qed
qed

lemma bit_ror:
  assumes "k < 64" and "c < 64"
  shows "bit (ror v c) k \<longleftrightarrow> bit v ((k + c) mod 64)"
proof -
  have "((USIZE_TOP - c mod USIZE_TOP) mod USIZE_TOP) mod 64 = (64 - c) mod 64"
    using neg_mod_64 [of c] assms(2) by (simp add: USIZE_TOP_def mod_mod_cancel)
  then have "bit (ror v c) k \<longleftrightarrow> bit v ((k + (64 - (64 - c) mod 64)) mod 64)"
    using bit_rol [OF assms(1), of v] by (simp add: ror_def)
  moreover have "(k + (64 - (64 - c) mod 64)) mod 64 = (k + c) mod 64"
    using assms(2) by (cases "c = 0") auto
  ultimately show ?thesis by simp
qed

section \<open>The bitmap\<close>

text \<open>The requested bytes, modulo the size of a cache line.\<close>

definition hit :: "AlignReq list \<Rightarrow> nat \<Rightarrow> bool" where
  "hit reqs k \<longleftrightarrow> (\<exists>req\<in>set reqs. \<exists>i<req_len req. (req_offset req + i) mod 64 = k)"

lemma bit_ones: "n \<le> 63 \<Longrightarrow> bit (push_bit n 1 - 1 :: u64) k \<longleftrightarrow> k < n"
  using bit_mask_iff [where 'a = u64, of n k] by (auto simp: mask_eq_exp_minus_1)

lemma line_position:
  fixes c i k :: nat
  assumes "i < 64" and "k < 64"
  shows "(c + i) mod 64 = k \<longleftrightarrow> i = (k + (64 - c mod 64)) mod 64"
proof -
  have r: "c mod 64 \<le> k + 64" "k + 64 - c mod 64 = k + (64 - c mod 64)"
    using mod_less_divisor [of 64 c] by linarith+
  have "i mod 64 = (k + 64 - c mod 64) mod 64 \<longleftrightarrow> (i + c mod 64) mod 64 = (k + 64) mod 64"
    by (rule mod_shift_iff [OF r(1)])
  moreover have "(i + c mod 64) mod 64 = (c + i) mod 64" by (metis add.commute mod_add_right_eq)
  moreover have "i mod 64 = i" "(k + 64) mod 64 = k" using assms by simp_all
  ultimately show ?thesis unfolding r(2) by metis
qed

lemma bit_rol_ones:
  assumes "n \<le> 63" and "k < 64"
  shows "bit (rol (push_bit n 1 - 1) c) k \<longleftrightarrow> (\<exists>i<n. (c + i) mod 64 = k)"
proof -
  let ?i = "(k + (64 - c mod 64)) mod 64"
  have r: "c mod 64 < 64" by simp
  have key: "(c + i) mod 64 = k \<longleftrightarrow> i = ?i" if "i < 64" for i
    by (rule line_position [OF that assms(2)])
  have i: "?i < 64" by simp
  have "(\<exists>i<n. (c + i) mod 64 = k) \<longleftrightarrow> ?i < n"
  proof
    assume "\<exists>i<n. (c + i) mod 64 = k"
    then obtain m where m: "m < n" "(c + m) mod 64 = k" by blast
    then have "m < 64" using assms(1) by linarith
    from key [OF this] m(2) have "m = ?i" by blast
    with m(1) show "?i < n" by simp
  next
    assume "?i < n"
    with key [OF i] show "\<exists>i<n. (c + i) mod 64 = k" by blast
  qed
  then show ?thesis
    using bit_rol [OF assms(2), of "push_bit n 1 - 1" c] bit_ones [OF assms(1), of ?i] by blast
qed

lemma long_request_hits_all:
  assumes "req \<in> set reqs" and "req_len req > 63" and "k < 64"
  shows "hit reqs k"
proof -
  let ?i = "(k + (64 - req_offset req mod 64)) mod 64"
  have "(req_offset req + ?i) mod 64 = k"
    using line_position [of ?i k "req_offset req"] assms(3) by simp
  moreover have "?i < 64" by simp
  then have "?i < req_len req" using assms(2) by linarith
  ultimately show ?thesis using assms(1) unfolding hit_def by blast
qed

lemma make_bitmap_bits:
  assumes "make_bitmap chk reqs b = Ret bmp" and "k < 64"
  shows "bit bmp k \<longleftrightarrow> bit b k \<or> hit reqs k"
  using assms
proof (induction chk reqs b rule: make_bitmap.induct)
  case (1 chk b)
  then show ?case by (simp add: hit_def)
next
  case (2 chk req reqs b)
  show ?case
  proof (cases "req_len req > 63")
    case True
    then have "bmp = - 1" using 2(2) by simp
    then have "bit bmp k" using 2(3) by (simp add: bit_minus_1_iff)
    with True long_request_hits_all [of req "req # reqs" k] 2(3) show ?thesis by simp
  next
    case False
    then have "bit bmp k \<longleftrightarrow> (bit b k \<or> bit (rol (push_bit (req_len req) 1 - 1) (req_offset req)) k) \<or> hit reqs k"
      using 2 by (auto simp: bit_or_iff split: if_splits)
    then show ?thesis
      using bit_rol_ones [of "req_len req" k "req_offset req"] False 2(3) by (auto simp: hit_def)
  qed
qed

section \<open>The mask and the leading zeros\<close>

lemma dvd_half_iff:
  fixes b d :: nat
  assumes "0 < b"
  shows "2 * b dvd d \<or> b \<le> d \<and> 2 * b dvd d - b \<longleftrightarrow> b dvd d"
proof
  assume "2 * b dvd d \<or> b \<le> d \<and> 2 * b dvd d - b"
  then show "b dvd d"
  proof
    assume "2 * b dvd d"
    then show ?thesis by (rule dvd_mult_right)
  next
    assume d: "b \<le> d \<and> 2 * b dvd d - b"
    then have "b dvd d - b" by (metis dvd_mult_right)
    then show ?thesis using d by (simp add: dvd_minus_self)
  qed
next
  assume "b dvd d"
  then obtain q where q: "d = b * q" by blast
  show "2 * b dvd d \<or> b \<le> d \<and> 2 * b dvd d - b"
  proof (cases "even q")
    case True
    then show ?thesis using q by (auto simp: mult.assoc)
  next
    case False
    then obtain r where "q = 2 * r + 1" by (metis oddE)
    then have "d = 2 * b * r + b" using q by (simp add: algebra_simps)
    then show ?thesis by simp
  qed
qed

text \<open>The mask has the bits of the paddings that are multiples of the alignment; the padding \<open>p\<close> is the bit \<open>63 - p\<close>.\<close>

lemma gen_alignmask_bits:
  assumes "a = 2 ^ e" and "e \<le> 6" and "al = 2 ^ j" and "\<And>p. p < 64 \<Longrightarrow> bit m (63 - p) \<longleftrightarrow> a dvd p" and "al \<le> a" and "p < 64"
  shows "bit (gen_alignmask al a m) (63 - p) \<longleftrightarrow> al dvd p"
  using assms
proof (induction e arbitrary: a m p)
  case 0
  then have "al \<le> 1" "al \<noteq> 0" by simp_all
  then have "al = 1" by linarith
  with 0 show ?case by (subst gen_alignmask.simps) simp
next
  case (Suc e)
  show ?case
  proof (cases "al = a")
    case True
    then show ?thesis using Suc.prems(4) [OF Suc.prems(6)] by (subst gen_alignmask.simps) simp
  next
    case False
    let ?b = "2 ^ e :: nat"
    have a: "a = 2 * ?b" "a div 2 = ?b" "a > al" using Suc.prems(1,5) False by simp_all
    have "j < Suc e" using a(3) Suc.prems(1,3) by (metis nat_power_less_imp_less zero_less_numeral)
    then have le: "al \<le> ?b" using Suc.prems(3) by simp
    have b: "?b \<le> 32" using power_increasing [of e 5 "2 :: nat"] Suc.prems(2) by simp
    have bits: "bit (m OR drop_bit ?b m) (63 - q) \<longleftrightarrow> ?b dvd q" if "q < 64" for q
    proof (cases "?b \<le> q")
      case True
      then have "?b + (63 - q) = 63 - (q - ?b)" "q - ?b < 64" using that by linarith+
      then show ?thesis
        using Suc.prems(4) [OF that] Suc.prems(4) [of "q - ?b"] dvd_half_iff [of ?b q] True a(1)
        by (simp add: bit_or_iff bit_drop_bit_eq)
    next
      case False
      then have "\<not> bit m (?b + (63 - q))"
        using bit_imp_le_length [of m "?b + (63 - q)"] that by auto
      then show ?thesis
        using Suc.prems(4) [OF that] dvd_half_iff [of ?b q] False a(1) by (simp add: bit_or_iff bit_drop_bit_eq)
    qed
    have "bit (gen_alignmask al ?b (m OR drop_bit ?b m)) (63 - p) \<longleftrightarrow> al dvd p"
      by (rule Suc.IH [OF refl _ Suc.prems(3) bits le Suc.prems(6)]) (use Suc.prems(2) in auto)
    then show ?thesis using a by (subst gen_alignmask.simps) simp
  qed
qed

lemma alignmask_bits:
  assumes "is_power_of_two al" and "p < 64"
  shows "bit (gen_alignmask al 64 (push_bit 63 1)) (63 - p) \<longleftrightarrow> al dvd p"
proof -
  obtain j where j: "al = 2 ^ j" using assms(1) by (rule power_of_twoE)
  have top: "bit (push_bit 63 1 :: u64) (63 - q) \<longleftrightarrow> 64 dvd q" if "q < 64" for q
  proof -
    have "bit (push_bit 63 1 :: u64) (63 - q) \<longleftrightarrow> q = 0"
      using that by (auto simp: bit_push_bit_iff bit_1_iff simp del: push_bit_of_1)
    then show ?thesis using that by (auto dest: dvd_imp_le)
  qed
  show ?thesis
  proof (cases "al \<le> 64")
    case True
    show ?thesis
      by (rule gen_alignmask_bits [of 64 6 al j]) (use True j top assms(2) in auto)
  next
    case False
    then have "gen_alignmask al 64 (push_bit 63 1) = push_bit 63 1" by (subst gen_alignmask.simps) simp
    moreover have "al dvd p \<longleftrightarrow> p = 0" using False assms(2) by (auto dest: dvd_imp_le)
    moreover have "64 dvd p \<longleftrightarrow> p = 0" using assms(2) by (auto dest: dvd_imp_le)
    ultimately show ?thesis using top [OF assms(2)] by simp
  qed
qed

lemma count_lzb_least:
  assumes "x \<noteq> 0"
  shows "\<exists>p<64. count_lzb x = int p \<and> bit x (63 - p) \<and> (\<forall>q<p. \<not> bit x (63 - q))"
  using assms
proof (induction x rule: count_lzb.induct)
  case (1 x)
  show ?case
  proof (cases "bit x 63")
    case True
    then show ?thesis using 1(2) by (intro exI [of _ 0]) (simp add: count_lzb.simps)
  next
    case False
    have "push_bit 1 x \<noteq> 0" using shift_left_grows(2) [OF 1(2) False] by auto
    from 1(1) [OF 1(2) False this] obtain p where p: "p < 64" "count_lzb (push_bit 1 x) = int p" "bit (push_bit 1 x) (63 - p)"
      "\<forall>q<p. \<not> bit (push_bit 1 x) (63 - q)" by blast
    have shift: "bit (push_bit 1 x) n \<longleftrightarrow> 1 \<le> n \<and> bit x (n - 1)" if "n < 64" for n
      using that by (simp only: bit_push_bit_iff) simp
    have "1 \<le> 63 - p" "bit x (63 - p - 1)" using p(3) shift [of "63 - p"] by auto
    moreover have "\<not> bit x (63 - q)" if "q < Suc p" for q
    proof (cases q)
      case (Suc q')
      then have "\<not> bit (push_bit 1 x) (63 - q')" using p(4) that by simp
      then show ?thesis using shift [of "63 - q'"] Suc that \<open>1 \<le> 63 - p\<close> by auto
    qed (use False in simp)
    ultimately show ?thesis
      using p(2) 1(2) False by (intro exI [of _ "Suc p"]) (subst count_lzb.simps, auto)
  qed
qed

section \<open>The smallest padding\<close>

text \<open>The bytes of a cache line where no requested byte may lie.\<close>

definition exposed :: "nat \<Rightarrow> bool" where
  "exposed k \<longleftrightarrow> k mod 64 \<in> {0, 4, 5, 6, 7}"

definition pad_ok :: "AlignReq list \<Rightarrow> nat \<Rightarrow> bool" where
  "pad_ok reqs p \<longleftrightarrow> (\<forall>req\<in>set reqs. \<forall>i<req_len req. \<not> exposed (req_offset req + i + p))"

lemma hit_shift:
  assumes "p \<le> y"
  shows "hit reqs ((y - p) mod 64) \<longleftrightarrow> (\<exists>req\<in>set reqs. \<exists>i<req_len req. (req_offset req + i + p) mod 64 = y mod 64)"
  using mod_shift_iff [OF assms, where n = 64] by (simp add: hit_def)

lemma pad_ok_hit:
  assumes "p < 64"
  shows "pad_ok reqs p \<longleftrightarrow>
    \<not> (hit reqs ((64 - p) mod 64) \<or> hit reqs ((68 - p) mod 64) \<or> hit reqs ((69 - p) mod 64) \<or> hit reqs ((70 - p) mod 64) \<or>
       hit reqs ((71 - p) mod 64))"
proof -
  have "p \<le> 64" "p \<le> 68" "p \<le> 69" "p \<le> 70" "p \<le> 71" using assms by simp_all
  note shift = this [THEN hit_shift, of reqs]
  show ?thesis unfolding shift pad_ok_def exposed_def by auto
qed

lemma lspc_bit:
  assumes "make_bitmap chk reqs 0 = Ret bmp" and "is_power_of_two al" and "p < 64"
  shows "bit (NOT (ror (bmp OR ror bmp 1 OR ror bmp 2 OR ror bmp 3) 5 OR ror bmp 1) AND gen_alignmask al 64 (push_bit 63 1)) (63 - p)
    \<longleftrightarrow> al dvd p \<and> pad_ok reqs p"
proof -
  have hits: "bit bmp (n mod 64) \<longleftrightarrow> hit reqs (n mod 64)" for n
    using make_bitmap_bits [OF assms(1), of "n mod 64"] by simp
  have sums: "63 - p + 5 = 68 - p" "63 - p + 1 = 64 - p" "68 - p + 1 = 69 - p" "68 - p + 2 = 70 - p" "68 - p + 3 = 71 - p"
    using assms(3) by linarith+
  have step: "((68 - p) mod 64 + c) mod 64 = (68 - p + c) mod 64" for c by (rule mod_add_left_eq)
  let ?k = "(68 - p) mod 64"
  have k: "?k < 64" by simp
  have five: "bit (ror v 5) (63 - p) \<longleftrightarrow> bit v ?k" for v
    using bit_ror [of "63 - p" 5 v] sums(1) by simp
  have one: "bit (ror bmp 1) (63 - p) \<longleftrightarrow> hit reqs ((64 - p) mod 64)"
    using bit_ror [of "63 - p" 1 bmp] sums(2) hits by simp
  have rest: "bit (ror bmp 1) ?k \<longleftrightarrow> hit reqs ((69 - p) mod 64)" "bit (ror bmp 2) ?k \<longleftrightarrow> hit reqs ((70 - p) mod 64)"
    "bit (ror bmp 3) ?k \<longleftrightarrow> hit reqs ((71 - p) mod 64)"
    using bit_ror [OF k, of 1 bmp] bit_ror [OF k, of 2 bmp] bit_ror [OF k, of 3 bmp] hits unfolding step sums by simp_all
  have "63 - p < LENGTH(64)" by simp
  then show ?thesis
    using one rest five hits [of "68 - p"] alignmask_bits [OF assms(2,3)] pad_ok_hit [OF assms(3), of reqs]
    by (simp add: bit_and_iff bit_or_iff bit_not_iff) blast
qed

lemma calc_lspc_least:
  assumes "make_bitmap chk reqs 0 = Ret bmp" and "is_power_of_two al"
  shows "calc_lspc al bmp =
    (if \<exists>p<64. al dvd p \<and> pad_ok reqs p then int (LEAST p. al dvd p \<and> pad_ok reqs p) else - 1)"
proof -
  let ?x = "NOT (ror (bmp OR ror bmp 1 OR ror bmp 2 OR ror bmp 3) 5 OR ror bmp 1) AND gen_alignmask al 64 (push_bit 63 1)"
  have bits: "bit ?x (63 - p) \<longleftrightarrow> al dvd p \<and> pad_ok reqs p" if "p < 64" for p
    by (rule lspc_bit [OF assms that])
  have value_eq: "calc_lspc al bmp = count_lzb ?x" using assms(2) by (simp add: calc_lspc_def)
  show ?thesis
  proof (cases "?x = 0")
    case True
    then have "\<not> (\<exists>p<64. al dvd p \<and> pad_ok reqs p)" using bits by auto
    then show ?thesis using True value_eq by (simp add: count_lzb.simps)
  next
    case False
    then obtain p where p: "p < 64" "count_lzb ?x = int p" "bit ?x (63 - p)" "\<forall>q<p. \<not> bit ?x (63 - q)"
      using count_lzb_least by blast
    then have ok: "al dvd p \<and> pad_ok reqs p" using bits by blast
    moreover have "(LEAST p. al dvd p \<and> pad_ok reqs p) = p"
    proof (rule Least_equality)
      show "al dvd p \<and> pad_ok reqs p" by (rule ok)
      fix q assume q: "al dvd q \<and> pad_ok reqs q"
      show "p \<le> q"
      proof (rule ccontr)
        assume "\<not> p \<le> q"
        then have "q < p" by simp
        with p(1,4) q bits [of q] show False by simp
      qed
    qed
    ultimately show ?thesis using p(1,2) value_eq by auto
  qed
qed

text \<open>
  C22: The padding is the smallest one. For every alignment and all requests that fit the bitmap, \<^verbatim>\<open>calc_lspc\<close> returns the least multiple of the
  alignment, below 64, at which no requested byte lies at offset 0 or 4 to 7 of its cache line, and -1 when there is none.
\<close>

theorem calc_lspc_least_padding:
  assumes "make_bitmap chk reqs 0 = Ret bmp" and "is_power_of_two al"
  shows "calc_lspc al bmp =
    (if \<exists>p<64. al dvd p \<and> pad_ok reqs p then int (LEAST p. al dvd p \<and> pad_ok reqs p) else - 1)"
  by (rule calc_lspc_least [OF assms])

theorem calc_lspc_least_padding_witness:
  "calc_lspc 8 (rol (push_bit 8 1 - 1) 0) = int (LEAST p. 8 dvd p \<and> pad_ok [\<lparr>req_offset = 0, req_len = 8\<rparr>] p) \<and>
   pad_ok [\<lparr>req_offset = 0, req_len = 8\<rparr>] 8"
proof -
  have ok: "pad_ok [\<lparr>req_offset = 0, req_len = 8\<rparr>] 8"
    by (auto simp: pad_ok_def exposed_def)
  then have "\<exists>p<64. 8 dvd p \<and> pad_ok [\<lparr>req_offset = 0, req_len = 8\<rparr>] p" by (intro exI [of _ 8]) auto
  moreover have "is_power_of_two 8" by (auto simp: is_power_of_two_def intro!: image_eqI [of _ _ 3])
  moreover have "make_bitmap False [\<lparr>req_offset = 0, req_len = 8\<rparr>] 0 = Ret (rol (push_bit 8 1 - 1) 0)" by simp
  ultimately show ?thesis
    using calc_lspc_least_padding [of False "[\<lparr>req_offset = 0, req_len = 8\<rparr>]" "rol (push_bit 8 1 - 1) 0" 8] ok by simp
qed

section \<open>The check of the requests\<close>

definition req_range :: "AlignReq \<Rightarrow> nat set" where
  "req_range req = {req_offset req..<req_offset req + req_len req}"

definition marked :: "bytes \<Rightarrow> nat set" where
  "marked bmp = {n. n div 8 < length bmp \<and> bit (bmp ! (n div 8)) (n mod 8)}"

lemma bit_test_u8: "k < 8 \<Longrightarrow> (b :: u8) AND push_bit k 1 \<noteq> 0 \<longleftrightarrow> bit b k"
proof -
  assume k: "k < 8"
  have bits: "bit (b AND push_bit k 1) n \<longleftrightarrow> bit b n \<and> n = k" for n
    using k by (auto simp: bit_and_iff bit_push_bit_iff bit_1_iff simp del: push_bit_of_1)
  have "b AND push_bit k 1 = 0" if "\<not> bit b k"
    by (rule bit_word_eqI) (use bits that in auto)
  moreover have "b AND push_bit k 1 \<noteq> 0" if "bit b k"
  proof
    assume "b AND push_bit k 1 = 0"
    then have "\<not> bit (b AND push_bit k 1) k" by simp
    with bits that show False by blast
  qed
  ultimately show ?thesis by blast
qed

lemma marked_set:
  assumes "off div 8 < length bmp"
  shows "marked (bmp[off div 8 := bmp ! (off div 8) OR push_bit (off mod 8) 1]) = insert off (marked bmp)"
proof (rule set_eqI)
  fix n :: nat
  have m: "n mod 8 < 8" by simp
  have split: "n = off \<longleftrightarrow> n div 8 = off div 8 \<and> n mod 8 = off mod 8"
    by (metis div_mult_mod_eq)
  show "n \<in> marked (bmp[off div 8 := bmp ! (off div 8) OR push_bit (off mod 8) 1]) \<longleftrightarrow> n \<in> insert off (marked bmp)"
    using assms m split
    by (cases "n div 8 = off div 8") (auto simp: marked_def bit_or_iff bit_push_bit_iff bit_1_iff simp del: push_bit_of_1)
qed

lemma mark_bits_eq:
  assumes "off + n \<le> 8 * length bmp"
  shows "if {off..<off + n} \<inter> marked bmp = {}
         then \<exists>bmp'. mark_bits n off bmp = Ret (Some bmp') \<and> marked bmp' = marked bmp \<union> {off..<off + n} \<and> length bmp' = length bmp
         else mark_bits n off bmp = Ret None"
  using assms
proof (induction n arbitrary: off bmp)
  case (Suc n)
  have idx: "off div 8 < length bmp" using Suc.prems by (simp add: div_less_iff_less_mult)
  have test: "bmp ! (off div 8) AND push_bit (off mod 8) 1 \<noteq> 0 \<longleftrightarrow> off \<in> marked bmp"
    using bit_test_u8 [of "off mod 8"] idx by (simp add: marked_def)
  have range: "{off..<off + Suc n} = insert off {Suc off..<Suc off + n}" by auto
  show ?case
  proof (cases "off \<in> marked bmp")
    case True
    then have "{off..<off + Suc n} \<inter> marked bmp \<noteq> {}" unfolding range by blast
    then show ?thesis using test idx True by simp
  next
    case False
    let ?bmp = "bmp[off div 8 := bmp ! (off div 8) OR push_bit (off mod 8) 1]"
    have mk: "marked ?bmp = insert off (marked bmp)" by (rule marked_set [OF idx])
    have "Suc off + n \<le> 8 * length ?bmp" using Suc.prems by simp
    note IH = Suc.IH [OF this]
    have disj: "{Suc off..<Suc off + n} \<inter> insert off (marked bmp) = {} \<longleftrightarrow> {off..<off + Suc n} \<inter> marked bmp = {}"
      unfolding range using False by auto
    have run: "mark_bits (Suc n) off bmp = mark_bits n (Suc off) ?bmp"
      using test False idx by simp
    have union: "insert off (marked bmp) \<union> {Suc off..<Suc off + n} = marked bmp \<union> {off..<off + Suc n}"
      unfolding range by auto
    show ?thesis using IH unfolding run mk disj union by (simp only: length_list_update)
  qed
qed simp

text \<open>The requests are accepted exactly when they lie in the object and do not overlap.\<close>

lemma check_reqs_iff:
  assumes "sz \<le> 8 * length bmp" and "sz < USIZE_TOP"
  shows "\<exists>ok. check_reqs sz reqs bmp = Ret ok \<and>
    (ok \<longleftrightarrow> (\<forall>req\<in>set reqs. req_offset req + req_len req \<le> sz \<and> req_range req \<inter> marked bmp = {}) \<and>
           sorted_wrt (\<lambda>a b. req_range a \<inter> req_range b = {}) reqs)"
  using assms
proof (induction sz reqs bmp rule: check_reqs.induct)
  case (1 sz bmp)
  show ?case by (rule exI [of _ True]) simp
next
  case (2 sz req reqs bmp)
  show ?case
  proof (cases "req_offset req + req_len req > sz")
    case True
    then show ?thesis by (auto simp: not_le)
  next
    case False
    then have fits: "req_offset req + req_len req \<le> 8 * length bmp" and no: "\<not> check_overflow (req_offset req) (req_len req)"
      using 2(2,3) by (auto simp: check_overflow_def)
    note mark = mark_bits_eq [OF fits]
    show ?thesis
    proof (cases "req_range req \<inter> marked bmp = {}")
      case True
      then obtain bmp' where bmp': "mark_bits (req_len req) (req_offset req) bmp = Ret (Some bmp')"
        "marked bmp' = marked bmp \<union> req_range req" "length bmp' = length bmp"
        using mark by (auto simp: req_range_def)
      have run: "check_reqs sz (req # reqs) bmp = check_reqs sz reqs bmp'" using False no bmp'(1) by simp
      have "\<exists>ok. check_reqs sz reqs bmp' = Ret ok \<and>
        (ok \<longleftrightarrow> (\<forall>req\<in>set reqs. req_offset req + req_len req \<le> sz \<and> req_range req \<inter> marked bmp' = {}) \<and>
               sorted_wrt (\<lambda>a b. req_range a \<inter> req_range b = {}) reqs)"
        by (rule 2(1)) (use False no bmp' 2(2,3) in auto)
      then show ?thesis unfolding run bmp'(2) using True False by (auto simp: Int_Un_distrib Int_commute)
    next
      case False
      then show ?thesis using mark no \<open>\<not> req_offset req + req_len req > sz\<close> by (auto simp: req_range_def)
    qed
  qed
qed

section \<open>Alignment\<close>

lemma and_not_ones:
  fixes x :: u64
  shows "unat (x AND NOT (mask k)) = unat x div 2 ^ k * 2 ^ k"
proof -
  have "x AND NOT (mask k) = push_bit k (drop_bit k x)"
    by (rule bit_word_eqI) (auto simp: bit_and_iff bit_not_iff bit_mask_iff bit_push_bit_iff bit_drop_bit_eq)
  moreover have "unat (push_bit k (drop_bit k x)) = take_bit 64 (unat x div 2 ^ k * 2 ^ k)"
    using unat_less_pow [of x]
    by (simp only: unsigned_push_bit_eq unsigned_drop_bit_eq) (simp add: push_bit_eq_mult drop_bit_eq_div take_bit_eq_mod)
  moreover have "unat x div 2 ^ k * 2 ^ k < 2 ^ 64"
    by (rule order_le_less_trans [OF div_times_less_eq_dividend]) (use unat_less_pow [of x] in simp)
  ultimately show ?thesis by (simp add: take_bit_nat_eq_self)
qed

lemma make_aligned_ptr_eq:
  assumes "is_power_of_two al" and "raw + al + pad < USIZE_TOP"
  shows "make_aligned_ptr chk raw al pad = Ret ((raw + al - 1) div al * al + pad)"
proof -
  obtain k where k: "al = 2 ^ k" "k < 64" using assms(1) by (rule power_of_twoE)
  have al: "1 \<le> al" using k by simp
  have "(word_of_nat (al - 1) :: u64) = mask k"
    using k by (simp add: mask_eq_exp_minus_1 of_nat_diff)
  moreover have "(word_of_nat (raw + al + USIZE_TOP - 1) :: u64) = word_of_nat (raw + al - 1)"
  proof -
    have "raw + al + USIZE_TOP - 1 = raw + al - 1 + USIZE_TOP" using al by linarith
    then show ?thesis by (simp add: USIZE_TOP_def)
  qed
  moreover have "unat (word_of_nat (raw + al - 1) :: u64) = raw + al - 1"
    using assms(2) by (simp add: unat_of_nat USIZE_TOP_def)
  ultimately have base: "unat ((word_of_nat (raw + al + USIZE_TOP - 1) :: u64) AND NOT (word_of_nat (al - 1))) = (raw + al - 1) div al * al"
    using and_not_ones [of "word_of_nat (raw + al - 1)" k] k by simp
  have "(raw + al - 1) div al * al + pad < USIZE_TOP"
    using div_times_less_eq_dividend [of "raw + al - 1" al] assms(2) by linarith
  then show ?thesis
    using assms(2) al base by (simp add: make_aligned_ptr_def add_usize_def Let_def)
qed

lemma align_up:
  fixes raw al :: nat
  assumes "0 < al"
  shows "raw \<le> (raw + al - 1) div al * al" and "(raw + al - 1) div al * al \<le> raw + al - 1" and "al dvd raw \<Longrightarrow> (raw + al - 1) div al * al = raw"
proof -
  have split: "(raw + al - 1) div al * al + (raw + al - 1) mod al = raw + al - 1" by (rule div_mult_mod_eq)
  moreover have "(raw + al - 1) mod al < al" using assms by simp
  ultimately show "raw \<le> (raw + al - 1) div al * al" by linarith
  show "(raw + al - 1) div al * al \<le> raw + al - 1" using split by linarith
  show "(raw + al - 1) div al * al = raw" if "al dvd raw"
  proof -
    from that obtain q where q: "raw = al * q" by (rule dvdE)
    have "(al * q + (al - 1)) div al = q" using assms by (subst div_mult_self4) simp_all
    moreover have "raw + al - 1 = al * q + (al - 1)" using assms q by simp
    ultimately show ?thesis using q by simp
  qed
qed

lemma calc_algn_eq:
  "calc_algn al sz = (if al > 64 then al else if sz \<le> 8 then 8 else if sz \<le> 16 then 16 else if sz \<le> 32 then 32 else 64)"
  using calc_algn_loop.simps [of sz 64] calc_algn_loop.simps [of sz 32] calc_algn_loop.simps [of sz 16] calc_algn_loop.simps [of sz 8]
  by (simp add: calc_algn_def)

lemma power_of_two_dvd:
  assumes "is_power_of_two a" and "2 ^ k \<le> a"
  shows "2 ^ k dvd a"
  using assms by (auto simp: is_power_of_two_def intro!: le_imp_power_dvd dest: power_le_imp_le_exp [rotated])

lemma powers_of_two: "is_power_of_two 1" "is_power_of_two 2" "is_power_of_two 8" "is_power_of_two 16" "is_power_of_two 32" "is_power_of_two 64"
  unfolding is_power_of_two_def
  by (auto intro: image_eqI [of _ _ 0] image_eqI [of _ _ 1] image_eqI [of _ _ 3] image_eqI [of _ _ 4] image_eqI [of _ _ 5] image_eqI [of _ _ 6])

lemma calc_algn_power: "is_power_of_two al \<Longrightarrow> is_power_of_two (calc_algn al sz)"
  using powers_of_two by (simp add: calc_algn_eq)

text \<open>No requested byte of an object at \<open>base + pad\<close> is exposed: the object lies in one line below the boundary, or the line starts at the base.\<close>

lemma placement:
  assumes "is_power_of_two al" and "a = calc_algn al (sz + pad)" and "a dvd base" and "pad_ok reqs pad"
    and "req \<in> set reqs" and "i < req_len req" and "req_offset req + req_len req \<le> sz"
  shows "\<not> exposed (base + pad + req_offset req + i)"
proof -
  let ?k = "req_offset req + i + pad"
  have k: "\<not> exposed ?k" using assms(4-6) by (simp add: pad_ok_def)
  have sum: "base + pad + req_offset req + i = base + ?k" by simp
  show ?thesis
  proof (cases "64 dvd base")
    case True
    then obtain q where "base = 64 * q" by blast
    then show ?thesis using k unfolding sum exposed_def by simp
  next
    case False
    have "\<not> 64 \<le> a"
      using power_of_two_dvd [OF calc_algn_power [OF assms(1)], of 6 "sz + pad"] assms(2,3) False by (auto dest: dvd_trans)
    then have small: "sz + pad \<le> a" "a \<in> {8, 16, 32}" using assms(2) by (auto simp: calc_algn_eq split: if_splits)
    then have a64: "a dvd 64" "8 dvd a" by auto
    have lt: "?k < a" using assms(6,7) small(1) by linarith
    have "a dvd base mod 64" using assms(3) a64(1) by (simp add: dvd_mod)
    moreover have "base mod 64 \<noteq> 0" using False by (simp add: dvd_eq_mod_eq_0)
    ultimately have b: "8 \<le> base mod 64" using a64(2) by (metis dvd_imp_le dvd_trans neq0_conv)
    have "base mod 64 + a \<le> 64"
    proof -
      obtain q where q: "base mod 64 = a * q" using \<open>a dvd base mod 64\<close> by blast
      obtain t where t: "64 = a * t" using a64(1) by blast
      have "a * q < a * t" using q t mod_less_divisor [of 64 base] by simp
      then have "q + 1 \<le> t" by simp
      then have "a * (q + 1) \<le> a * t" by (rule mult_le_mono2)
      then show ?thesis using q t by simp
    qed
    then have "base mod 64 + ?k < 64" using lt by linarith
    moreover have "(base + ?k) mod 64 = (base mod 64 + ?k) mod 64" by (rule mod_add_left_eq [symmetric])
    ultimately have "(base + ?k) mod 64 = base mod 64 + ?k" by (simp only: mod_less)
    then show ?thesis using b unfolding sum exposed_def by auto
  qed
qed

section \<open>Allocation\<close>

text \<open>
  What is relied on of \<^verbatim>\<open>malloc\<close>: a block lies in the address space, is aligned to 16 bytes (as the comment at \<^verbatim>\<open>MIN_ALIGN\<close> in \<^verbatim>\<open>system.rs\<close> says)
  and is not one that is in use.
\<close>

definition malloc_ok :: "'w aa_ffi \<Rightarrow> bool" where
  "malloc_ok P \<longleftrightarrow> (\<forall>n w p w'. c_malloc P n w = (p, w') \<longrightarrow> p \<noteq> 0 \<longrightarrow> p + n \<le> USIZE_TOP \<and> 16 dvd p)"

text \<open>The object is not nearly as large as the address space.\<close>

definition layout_ok :: "Layout \<Rightarrow> bool" where
  "layout_ok layout \<longleftrightarrow> check_layout layout \<and> lsize layout + 2 * lalign layout + 512 < USIZE_TOP"

definition padded :: "Layout \<Rightarrow> AlignReq list \<Rightarrow> nat \<Rightarrow> Layout \<Rightarrow> bool" where
  "padded layout reqs pad al \<longleftrightarrow>
     pad < 64 \<and> lalign layout dvd pad \<and> pad_ok reqs pad \<and> (\<forall>q<pad. \<not> (lalign layout dvd q \<and> pad_ok reqs q)) \<and>
     (\<forall>req\<in>set reqs. req_offset req + req_len req \<le> lsize layout) \<and>
     lalign al = calc_algn (lalign layout) (lsize layout + pad) \<and> lsize al = pad + lalign al + lsize layout"

lemma layout_okD:
  assumes "layout_ok layout"
  shows "check_layout layout" "0 < lsize layout" "is_power_of_two (lalign layout)" "0 < lalign layout"
    "lsize layout + 2 * lalign layout + 512 < USIZE_TOP"
  using assms by (auto simp: layout_ok_def check_layout_def is_power_of_two_def)

lemma calc_algn_bound: "is_power_of_two al \<Longrightarrow> calc_algn al sz \<le> al + 63"
proof -
  assume "is_power_of_two al"
  then have "al \<noteq> 0" by (auto simp: is_power_of_two_def)
  then show ?thesis by (simp add: calc_algn_eq)
qed

lemma padding_needed_for_Some:
  assumes "padding_needed_for chk P layout reqs s = Ret (Some pad, s1)" and "layout_ok layout"
  shows "pad < 64 \<and> lalign layout dvd pad \<and> pad_ok reqs pad \<and> (\<forall>q<pad. \<not> (lalign layout dvd q \<and> pad_ok reqs q))"
    and "\<forall>req\<in>set reqs. req_offset req + req_len req \<le> lsize layout"
    and "\<exists>bm w. c_malloc P ((lsize layout + 7) div 8) (aa_world s) = (bm, w) \<and> bm \<noteq> 0 \<and>
           s1 = s\<lparr>blocks := (blocks s)(bm \<mapsto> (lsize layout + 7) div 8), aa_world := w\<rparr>"
proof -
  note l = layout_okD [OF assms(2)]
  obtain bmp where check: "check_align_req chk P (lsize layout) reqs s = Ret (True, s1)"
    and bmp: "make_bitmap chk reqs 0 = Ret bmp" and pad: "0 \<le> calc_lspc (lalign layout) bmp" "pad = nat (calc_lspc (lalign layout) bmp)"
    using assms(1) l(1)
    by (auto simp: padding_needed_for_def bind_out_def Let_def split: outcome.splits prod.splits if_splits)
  have ex: "\<exists>p<64. lalign layout dvd p \<and> pad_ok reqs p" and least: "pad = (LEAST p. lalign layout dvd p \<and> pad_ok reqs p)"
    using pad calc_lspc_least [OF bmp l(3)] by (auto split: if_splits)
  then obtain p where p: "p < 64" "lalign layout dvd p \<and> pad_ok reqs p" by blast
  have "lalign layout dvd pad \<and> pad_ok reqs pad" unfolding least by (rule LeastI [of _ p]) (rule p(2))
  moreover have "pad \<le> p" unfolding least by (rule Least_le) (rule p(2))
  moreover have "\<not> (lalign layout dvd q \<and> pad_ok reqs q)" if "q < pad" for q
    using that unfolding least by (rule not_less_Least)
  ultimately show "pad < 64 \<and> lalign layout dvd pad \<and> pad_ok reqs pad \<and> (\<forall>q<pad. \<not> (lalign layout dvd q \<and> pad_ok reqs q))"
    using p(1) by auto
  have add: "add_usize chk (lsize layout) 7 = Ret (lsize layout + 7)" using l(5) by (simp add: add_usize_def)
  obtain bm w where bm: "c_malloc P ((lsize layout + 7) div 8) (aa_world s) = (bm, w)" by fastforce
  have big: "lsize layout \<le> 8 * length (replicate ((lsize layout + 7) div 8) (0 :: u8))" by simp
  have top: "lsize layout < USIZE_TOP" using l(5) by simp
  obtain ok where ok: "check_reqs (lsize layout) reqs (replicate ((lsize layout + 7) div 8) 0) = Ret ok"
    and okD: "ok \<Longrightarrow> \<forall>req\<in>set reqs. req_offset req + req_len req \<le> lsize layout"
    using check_reqs_iff [OF big top, of reqs] by blast
  have run: "ok \<and> bm \<noteq> 0 \<and> s1 = s\<lparr>blocks := (blocks s)(bm \<mapsto> (lsize layout + 7) div 8), aa_world := w\<rparr>"
    using check add bm ok
    by (auto simp: check_align_req_def Let_def malloc_def bind_out_def split: if_splits outcome.splits)
  then show "\<forall>req\<in>set reqs. req_offset req + req_len req \<le> lsize layout" using okD by blast
  show "\<exists>bm w. c_malloc P ((lsize layout + 7) div 8) (aa_world s) = (bm, w) \<and> bm \<noteq> 0 \<and>
           s1 = s\<lparr>blocks := (blocks s)(bm \<mapsto> (lsize layout + 7) div 8), aa_world := w\<rparr>"
    using bm run by blast
qed

lemma pad_align_to_Some:
  assumes "pad_align_to chk P layout reqs s = Ret (Some al, s1)" and "layout_ok layout"
  obtains pad where "padding_needed_for chk P layout reqs s = Ret (Some pad, s1)" and "padded layout reqs pad al"
proof -
  note l = layout_okD [OF assms(2)]
  obtain pad where pad: "padding_needed_for chk P layout reqs s = Ret (Some pad, s1)"
    and rest: "bind_out (align_needed_for chk layout pad) (\<lambda>al. bind_out (add_usize chk pad al) (\<lambda>t.
           bind_out (add_usize chk t (lsize layout)) (\<lambda>n. Ret (Layout_from_size_align n al, s1)))) = Ret (Some al, s1)"
    using assms(1) by (auto simp: pad_align_to_def bind_out_def split: outcome.splits prod.splits option.splits)
  note P = padding_needed_for_Some [OF pad assms(2)]
  let ?a = "calc_algn (lalign layout) (lsize layout + pad)"
  have bound: "?a \<le> lalign layout + 63" by (rule calc_algn_bound [OF l(3)])
  have fits: "lsize layout + pad < USIZE_TOP" "pad + ?a < USIZE_TOP" "pad + ?a + lsize layout < USIZE_TOP"
    using bound P(1) l(5) by linarith+
  have "Layout_from_size_align (pad + ?a + lsize layout) ?a = Some al"
    using rest fits by (simp add: align_needed_for_def add_usize_def)
  then have "padded layout reqs pad al"
    using P(1,2) by (auto simp: padded_def Layout_from_size_align_def split: if_splits)
  then show thesis using that pad by blast
qed

lemma alloc_in_eq:
  assumes "padded layout reqs pad al" and "layout_ok layout" and "malloc_ok P"
    and "c_malloc P (lsize al + 8) (aa_world s) = (raw, w)"
  shows "alloc_with_pad_align_in chk P layout al s =
    (if raw = 0 then Ret (0, s\<lparr>aa_world := w\<rparr>)
     else let p = (raw + lalign al - 1) div lalign al * lalign al + pad;
              s1 = s\<lparr>blocks := (blocks s)(raw \<mapsto> lsize al + 8), aa_world := w\<rparr>
          in if raw + 8 \<le> p \<and> p mod 8 = 0 then Ret (p, s1\<lparr>words := (words s)(p - 8 \<mapsto> raw)\<rparr>) else Undef)"
proof -
  note l = layout_okD [OF assms(2)]
  let ?a = "lalign al"
  have a: "?a = calc_algn (lalign layout) (lsize layout + pad)" "lsize al = pad + ?a + lsize layout" "pad < 64"
    using assms(1) by (auto simp: padded_def)
  have pow: "is_power_of_two ?a" unfolding a(1) by (rule calc_algn_power [OF l(3)])
  have a0: "0 < ?a" using pow by (auto simp: is_power_of_two_def)
  have small: "?a \<le> lalign layout + 63" unfolding a(1) by (rule calc_algn_bound [OF l(3)])
  have chk_al: "check_layout al" using pow a(2,3) small l(2,5) a0 by (auto simp: check_layout_def)
  have add: "add_usize chk (lsize layout) ?a = Ret (lsize layout + ?a)" "add_usize chk (lsize al) 8 = Ret (lsize al + 8)"
    using a(2,3) small l(5) by (auto simp: add_usize_def)
  have pad: "(lsize al + 2 * USIZE_TOP - ?a - lsize layout) mod USIZE_TOP = pad"
  proof -
    have "lsize al + 2 * USIZE_TOP - ?a - lsize layout = pad + 2 * USIZE_TOP" using a(2) by simp
    then have "(lsize al + 2 * USIZE_TOP - ?a - lsize layout) mod USIZE_TOP = pad mod USIZE_TOP" by (simp only: mod_mult_self1)
    then show ?thesis using a(3) by (simp add: USIZE_TOP_def)
  qed
  show ?thesis
  proof (cases "raw = 0")
    case True
    then show ?thesis
      using l(1) chk_al add a(2) assms(4) by (simp add: alloc_with_pad_align_in_def malloc_def Let_def)
  next
    case False
    have fit: "raw + (lsize al + 8) \<le> USIZE_TOP" using assms(3,4) False by (auto simp: malloc_ok_def)
    then have ptr: "make_aligned_ptr chk raw ?a pad = Ret ((raw + ?a - 1) div ?a * ?a + pad)"
      using a(2) l(2) by (intro make_aligned_ptr_eq [OF pow]) linarith
    have "(raw + ?a - 1) div ?a * ?a + pad \<le> raw + (lsize al + 8)"
      using align_up(2) [OF a0, of raw] a(2) by linarith
    then show ?thesis
      using l(1) chk_al add a(2) assms(4) False ptr pad
      by (simp add: alloc_with_pad_align_in_def malloc_def Let_def write_header_def)
  qed
qed

lemma add_usize_not_Undef: "add_usize chk a b \<noteq> Undef"
  by (simp add: add_usize_def)

lemma make_bitmap_not_Undef: "make_bitmap chk reqs bmp \<noteq> Undef"
  by (induction reqs arbitrary: bmp) simp_all

lemma check_align_req_not_Undef:
  assumes "layout_ok layout"
  shows "check_align_req chk P (lsize layout) reqs s \<noteq> Undef"
proof -
  note l = layout_okD [OF assms]
  have big: "lsize layout \<le> 8 * length (replicate ((lsize layout + 7) div 8) (0 :: u8))" by simp
  have top: "lsize layout < USIZE_TOP" using l(5) by simp
  obtain ok where ok: "check_reqs (lsize layout) reqs (replicate ((lsize layout + 7) div 8) 0) = Ret ok"
    using check_reqs_iff [OF big top, of reqs] by blast
  have add: "add_usize chk (lsize layout) 7 = Ret (lsize layout + 7)" using l(5) by (simp add: add_usize_def)
  show ?thesis
    using add ok by (auto simp: check_align_req_def Let_def malloc_def free_def split: prod.splits)
qed

lemma pad_align_to_not_Undef:
  assumes "layout_ok layout"
  shows "pad_align_to chk P layout reqs s \<noteq> Undef"
  using check_align_req_not_Undef [OF assms] make_bitmap_not_Undef add_usize_not_Undef
  by (auto simp: pad_align_to_def padding_needed_for_def align_needed_for_def bind_out_def Let_def
      split: outcome.splits option.splits if_splits)

lemma alloc_with_req_run:
  assumes "layout_ok layout" and "malloc_ok P" and "reqs \<noteq> []"
    and "alloc_with_req chk P layout reqs s = r" and "r \<noteq> Panic" and "\<And>s'. r \<noteq> Ret (0, s')"
  obtains pad al bm w raw w' where "padded layout reqs pad al"
    and "c_malloc P ((lsize layout + 7) div 8) (aa_world s) = (bm, w)" and "bm \<noteq> 0"
    and "c_malloc P (lsize al + 8) w = (raw, w')" and "raw \<noteq> 0"
    and "r = (let p = (raw + lalign al - 1) div lalign al * lalign al + pad
              in if raw + 8 \<le> p \<and> p mod 8 = 0
                 then Ret (p, s\<lparr>blocks := (blocks s)(bm \<mapsto> (lsize layout + 7) div 8, raw \<mapsto> lsize al + 8), aa_world := w',
                              words := (words s)(p - 8 \<mapsto> raw)\<rparr>)
                 else Undef)"
proof -
  note l = layout_okD [OF assms(1)]
  note no_undef = pad_align_to_not_Undef [OF assms(1), of chk P reqs s]
  obtain al s1 where al: "pad_align_to chk P layout reqs s = Ret (Some al, s1)"
    using assms(3-6) l(1) no_undef
    by (auto simp: alloc_with_req_def bind_out_def split: outcome.splits prod.splits option.splits)
  obtain pad where pad: "padding_needed_for chk P layout reqs s = Ret (Some pad, s1)" and padded: "padded layout reqs pad al"
    by (rule pad_align_to_Some [OF al assms(1)])
  obtain bm w where bm: "c_malloc P ((lsize layout + 7) div 8) (aa_world s) = (bm, w)" "bm \<noteq> 0"
    and s1: "s1 = s\<lparr>blocks := (blocks s)(bm \<mapsto> (lsize layout + 7) div 8), aa_world := w\<rparr>"
    using padding_needed_for_Some(3) [OF pad assms(1)] by blast
  obtain raw w' where raw: "c_malloc P (lsize al + 8) (aa_world s1) = (raw, w')" by fastforce
  have run: "r = alloc_with_pad_align_in chk P layout al s1"
    using assms(3,4) l(1) al by (simp add: alloc_with_req_def)
  note eq = run [unfolded alloc_in_eq [OF padded assms(1,2) raw]]
  have "raw \<noteq> 0"
  proof
    assume "raw = 0"
    then have "r = Ret (0, s1\<lparr>aa_world := w'\<rparr>)" using eq by simp
    then show False using assms(6) by blast
  qed
  then show thesis
    using that [OF padded bm, of raw w'] raw eq s1 by (simp add: Let_def)
qed

lemma alloc_with_req_Ret:
  assumes "alloc_with_req chk P layout reqs s = Ret (p, s')" and "p \<noteq> 0" and "layout_ok layout" and "malloc_ok P" and "reqs \<noteq> []"
  obtains pad al bm w raw w' where "padded layout reqs pad al"
    and "c_malloc P ((lsize layout + 7) div 8) (aa_world s) = (bm, w)" and "bm \<noteq> 0"
    and "c_malloc P (lsize al + 8) w = (raw, w')" and "raw \<noteq> 0"
    and "p = (raw + lalign al - 1) div lalign al * lalign al + pad" and "raw + 8 \<le> p"
    and "s' = s\<lparr>blocks := (blocks s)(bm \<mapsto> (lsize layout + 7) div 8, raw \<mapsto> lsize al + 8), aa_world := w',
               words := (words s)(p - 8 \<mapsto> raw)\<rparr>"
proof -
  have "Ret (p, s') \<noteq> Panic" "\<And>s''. Ret (p, s') \<noteq> Ret (0, s'')" using assms(2) by auto
  note run = alloc_with_req_run [OF assms(3,4,5,1) this]
  show thesis
  proof (rule run, goal_cases)
    case (1 pad al bm w raw w')
    show thesis
      by (rule that [OF 1(1-5)]) (use 1(6) in \<open>auto simp: Let_def split: if_splits\<close>)
  qed
qed

text \<open>The other way round: with a padding that fits and enough memory, the run gets as far as the header.\<close>

lemma pad_align_to_forward:
  assumes "layout_ok layout" and "make_bitmap chk reqs 0 = Ret bmp" and "reqs \<noteq> []"
    and "\<forall>req\<in>set reqs. req_offset req + req_len req \<le> lsize layout"
    and "sorted_wrt (\<lambda>a b. req_range a \<inter> req_range b = {}) reqs"
    and "q < 64" and "lalign layout dvd q" and "pad_ok reqs q"
    and "c_malloc P ((lsize layout + 7) div 8) (aa_world s) = (bm, w)" and "bm \<noteq> 0"
  shows "\<exists>al s1. pad_align_to chk P layout reqs s = Ret (Some al, s1)"
proof -
  note l = layout_okD [OF assms(1)]
  have big: "lsize layout \<le> 8 * length (replicate ((lsize layout + 7) div 8) (0 :: u8))" by simp
  have top: "lsize layout < USIZE_TOP" using l(5) by simp
  have "marked (replicate ((lsize layout + 7) div 8) 0) = {}" by (auto simp: marked_def)
  then have "check_reqs (lsize layout) reqs (replicate ((lsize layout + 7) div 8) 0) = Ret True"
    using check_reqs_iff [OF big top, of reqs] assms(4,5) by auto
  moreover have "add_usize chk (lsize layout) 7 = Ret (lsize layout + 7)" using l(5) by (simp add: add_usize_def)
  ultimately have check: "\<exists>s1. check_align_req chk P (lsize layout) reqs s = Ret (True, s1)"
    using assms(3,9,10) by (simp add: check_align_req_def malloc_def Let_def)
  have "\<exists>p<64. lalign layout dvd p \<and> pad_ok reqs p" using assms(6-8) by blast
  then have "0 \<le> calc_lspc (lalign layout) bmp" using calc_lspc_least [OF assms(2) l(3)] by simp
  then obtain pad s1 where pad: "padding_needed_for chk P layout reqs s = Ret (Some pad, s1)"
    using check assms(2) l(1) by (auto simp: padding_needed_for_def)
  note P = padding_needed_for_Some [OF pad assms(1)]
  let ?a = "calc_algn (lalign layout) (lsize layout + pad)"
  have bound: "?a \<le> lalign layout + 63" by (rule calc_algn_bound [OF l(3)])
  have fits: "lsize layout + pad < USIZE_TOP" "pad + ?a < USIZE_TOP" "pad + ?a + lsize layout < USIZE_TOP"
    "pad + ?a + lsize layout + ?a \<le> USIZE_TOP - 1"
    using bound P(1) l(5) by linarith+
  then have "Layout_from_size_align (pad + ?a + lsize layout) ?a = Some \<lparr>lsize = pad + ?a + lsize layout, lalign = ?a\<rparr>"
    using calc_algn_power [OF l(3), of "lsize layout + pad"] by (auto simp: Layout_from_size_align_def)
  then show ?thesis using pad fits by (simp add: pad_align_to_def align_needed_for_def add_usize_def)
qed

text \<open>Requests of at most \<open>n\<close> bytes are served.\<close>

definition serves :: "'w aa_ffi \<Rightarrow> nat \<Rightarrow> bool" where
  "serves P n \<longleftrightarrow> (\<forall>m w. m \<le> n \<longrightarrow> fst (c_malloc P m w) \<noteq> 0)"

lemma alloc_with_req_forward:
  assumes "layout_ok layout" and "malloc_ok P" and "serves P (lsize layout + lalign layout + 192)"
    and "make_bitmap chk reqs 0 = Ret bmp" and "reqs \<noteq> []"
    and "\<forall>req\<in>set reqs. req_offset req + req_len req \<le> lsize layout"
    and "sorted_wrt (\<lambda>a b. req_range a \<inter> req_range b = {}) reqs"
    and "q < 64" and "lalign layout dvd q" and "pad_ok reqs q"
  obtains pad al raw s' where "padded layout reqs pad al" and "raw \<noteq> 0" and "16 dvd raw"
    and "alloc_with_req chk P layout reqs s =
          (let p = (raw + lalign al - 1) div lalign al * lalign al + pad
           in if raw + 8 \<le> p \<and> p mod 8 = 0 then Ret (p, s') else Undef)"
proof -
  note l = layout_okD [OF assms(1)]
  have served: "c_malloc P m w = (p, w') \<Longrightarrow> m \<le> lsize layout + lalign layout + 192 \<Longrightarrow> p \<noteq> 0" for m w p w'
    using assms(3) unfolding serves_def by (metis fst_conv)
  obtain bm w where bm: "c_malloc P ((lsize layout + 7) div 8) (aa_world s) = (bm, w)" by fastforce
  then have "bm \<noteq> 0" by (rule served) (use l(2) in linarith)
  from pad_align_to_forward [OF assms(1,4-10) bm this]
  obtain al s1 where al: "pad_align_to chk P layout reqs s = Ret (Some al, s1)" by blast
  obtain pad where padded: "padded layout reqs pad al" by (rule pad_align_to_Some [OF al assms(1)])
  obtain raw w' where raw: "c_malloc P (lsize al + 8) (aa_world s1) = (raw, w')" by fastforce
  have "lalign al \<le> lalign layout + 63" "lsize al = pad + lalign al + lsize layout" "pad < 64"
    using padded calc_algn_bound [OF l(3)] by (auto simp: padded_def)
  then have raw0: "raw \<noteq> 0" by (intro served [OF raw]) linarith
  have "16 dvd raw" using assms(2) raw raw0 by (auto simp: malloc_ok_def)
  moreover have "alloc_with_req chk P layout reqs s = alloc_with_pad_align_in chk P layout al s1"
    using assms(5) l(1) al by (simp add: alloc_with_req_def)
  ultimately show thesis
    using that [OF padded raw0] alloc_in_eq [OF padded assms(1,2) raw] raw0 by (auto simp: Let_def)
qed

text \<open>
  C21: Secrets stay away from the exposed bytes. Whenever \<^verbatim>\<open>alloc_with_req\<close> returns an object, every byte that was asked to be protected lies
  outside of the bytes 0 and 4 to 7 of its cache line, and the object lies in its block behind the word that remembers the block.
\<close>

theorem secrets_not_exposed:
  assumes "alloc_with_req chk P layout reqs s = Ret (p, s')" and "p \<noteq> 0" and "layout_ok layout" and "malloc_ok P" and "reqs \<noteq> []"
  shows "(\<forall>req\<in>set reqs. \<forall>i<req_len req. (p + req_offset req + i) mod 64 \<notin> {0, 4, 5, 6, 7}) \<and>
         (\<exists>raw n. blocks s' raw = Some n \<and> words s' (p - 8) = Some raw \<and> raw + 8 \<le> p \<and> p + lsize layout \<le> raw + n)"
proof -
  obtain pad al bm w raw w' where padded: "padded layout reqs pad al"
    and p: "p = (raw + lalign al - 1) div lalign al * lalign al + pad" "raw + 8 \<le> p"
    and s': "s' = s\<lparr>blocks := (blocks s)(bm \<mapsto> (lsize layout + 7) div 8, raw \<mapsto> lsize al + 8), aa_world := w',
                    words := (words s)(p - 8 \<mapsto> raw)\<rparr>"
    by (rule alloc_with_req_Ret [OF assms])
  note l = layout_okD [OF assms(3)]
  let ?a = "lalign al"
  have a: "?a = calc_algn (lalign layout) (lsize layout + pad)" "lsize al = pad + ?a + lsize layout" "pad_ok reqs pad"
    "\<forall>req\<in>set reqs. req_offset req + req_len req \<le> lsize layout"
    using padded by (auto simp: padded_def)
  have a0: "0 < ?a"
    using calc_algn_power [OF l(3), of "lsize layout + pad", folded a(1)] by (auto simp: is_power_of_two_def)
  have "\<not> exposed (p + req_offset req + i)" if "req \<in> set reqs" "i < req_len req" for req i
    unfolding p(1) by (rule placement [OF l(3) a(1) _ a(3) that]) (use a(4) that(1) in auto)
  moreover have "p + lsize layout \<le> raw + (lsize al + 8)"
    using align_up(2) [OF a0, of raw] p(1) a(2) by linarith
  ultimately show ?thesis using p(2) unfolding s' by (auto simp: exposed_def)
qed

section \<open>Objects protected as a whole\<close>

lemma whole_pad_ok:
  assumes "p < 64" and "0 < lsize layout"
  shows "pad_ok (whole_object layout) p \<longleftrightarrow> 1 \<le> p \<and> p + lsize layout \<le> 4 \<or> 8 \<le> p \<and> p + lsize layout \<le> 64"
    (is "?l \<longleftrightarrow> ?r")
proof
  assume ?l
  then have free: "i < lsize layout \<Longrightarrow> \<not> exposed (i + p)" for i by (simp add: pad_ok_def whole_object_def)
  have "p \<notin> {0, 4, 5, 6, 7}" using free [of 0] assms by (auto simp: exposed_def)
  moreover have "p + lsize layout \<le> 4" if "p < 4"
  proof (rule ccontr)
    assume "\<not> p + lsize layout \<le> 4"
    then have "4 - p < lsize layout" using that by linarith
    then show False using free [of "4 - p"] that by (simp add: exposed_def)
  qed
  moreover have "p + lsize layout \<le> 64"
  proof (rule ccontr)
    assume "\<not> p + lsize layout \<le> 64"
    then have "64 - p < lsize layout" using assms(1) by linarith
    then show False using free [of "64 - p"] assms(1) by (simp add: exposed_def)
  qed
  ultimately show ?r by auto
next
  assume ?r
  then have "i < lsize layout \<Longrightarrow> (i + p) mod 64 = i + p \<and> i + p \<notin> {0, 4, 5, 6, 7}" for i by auto
  then show ?l by (simp add: pad_ok_def whole_object_def exposed_def)
qed

lemma power_of_two_dvd_max:
  assumes "is_power_of_two a"
  shows "a dvd max 8 a" and "8 dvd max 8 a"
proof -
  obtain k where k: "a = 2 ^ k" using assms by (auto simp: is_power_of_two_def)
  have eq: "max 8 a = 2 ^ max 3 k"
  proof (cases "k \<le> 3")
    case True
    then have "2 ^ k \<le> (2 :: nat) ^ 3" by (rule power_increasing) simp
    then show ?thesis using k True by simp
  next
    case False
    then have "(2 :: nat) ^ 3 \<le> 2 ^ k" by (intro power_increasing) simp_all
    then show ?thesis using k False by simp
  qed
  show "a dvd max 8 a" unfolding eq unfolding k by (rule le_imp_power_dvd) simp
  have "(2 :: nat) ^ 3 dvd 2 ^ max 3 k" by (rule le_imp_power_dvd) simp
  then show "8 dvd max 8 a" unfolding eq by simp
qed

text \<open>Which objects have a padding, and which one is chosen.\<close>

lemma whole_padding_exists:
  assumes "layout_ok layout"
  shows "(\<exists>p<64. lalign layout dvd p \<and> pad_ok (whole_object layout) p) \<longleftrightarrow>
    lalign layout + lsize layout \<le> 4 \<or> max 8 (lalign layout) + lsize layout \<le> 64"
proof -
  note l = layout_okD [OF assms]
  have ok: "p < 64 \<and> lalign layout dvd p \<and> pad_ok (whole_object layout) p \<longleftrightarrow>
      p < 64 \<and> lalign layout dvd p \<and> (1 \<le> p \<and> p + lsize layout \<le> 4 \<or> 8 \<le> p \<and> p + lsize layout \<le> 64)" for p
    using whole_pad_ok [OF _ l(2)] by blast
  show ?thesis
  proof
    assume "\<exists>p<64. lalign layout dvd p \<and> pad_ok (whole_object layout) p"
    then obtain p where p: "lalign layout dvd p" "1 \<le> p \<and> p + lsize layout \<le> 4 \<or> 8 \<le> p \<and> p + lsize layout \<le> 64"
      using ok by blast
    then have "lalign layout \<le> p" by (intro dvd_imp_le [OF p(1)]) auto
    then show "lalign layout + lsize layout \<le> 4 \<or> max 8 (lalign layout) + lsize layout \<le> 64" using p(2) by auto
  next
    assume "lalign layout + lsize layout \<le> 4 \<or> max 8 (lalign layout) + lsize layout \<le> 64"
    then show "\<exists>p<64. lalign layout dvd p \<and> pad_ok (whole_object layout) p"
    proof
      assume "lalign layout + lsize layout \<le> 4"
      then show ?thesis using ok [of "lalign layout"] l(4) by (intro exI [of _ "lalign layout"]) auto
    next
      assume "max 8 (lalign layout) + lsize layout \<le> 64"
      then show ?thesis
        using ok [of "max 8 (lalign layout)"] l(2) power_of_two_dvd_max(1) [OF l(3)]
        by (intro exI [of _ "max 8 (lalign layout)"]) simp
    qed
  qed
qed

lemma whole_padding_value:
  assumes "padded layout (whole_object layout) pad al" and "layout_ok layout"
  shows "pad = (if lalign layout + lsize layout \<le> 4 then lalign layout else max 8 (lalign layout))"
proof -
  note l = layout_okD [OF assms(2)]
  have pad: "pad < 64" "lalign layout dvd pad" "pad_ok (whole_object layout) pad"
    and least: "\<And>q. q < pad \<Longrightarrow> lalign layout dvd q \<Longrightarrow> \<not> pad_ok (whole_object layout) q"
    using assms(1) by (auto simp: padded_def)
  have range: "1 \<le> pad \<and> pad + lsize layout \<le> 4 \<or> 8 \<le> pad \<and> pad + lsize layout \<le> 64"
    using whole_pad_ok [OF pad(1) l(2)] pad(3) by simp
  then have le: "lalign layout \<le> pad" by (intro dvd_imp_le [OF pad(2)]) auto
  have stop: "pad \<le> q" if "q < 64" "lalign layout dvd q" "1 \<le> q \<and> q + lsize layout \<le> 4 \<or> 8 \<le> q \<and> q + lsize layout \<le> 64" for q
    using least [of q] that whole_pad_ok [OF that(1) l(2)] by (meson not_less)
  show ?thesis
  proof (cases "lalign layout + lsize layout \<le> 4")
    case True
    have "pad \<le> lalign layout" by (rule stop) (use True l(4) in auto)
    then show ?thesis using True le by simp
  next
    case False
    then have big: "8 \<le> pad" "pad + lsize layout \<le> 64" using range le by auto
    have "pad \<le> max 8 (lalign layout)"
      by (rule stop) (use big le pad(1) l(2) power_of_two_dvd_max(1) [OF l(3)] in auto)
    then show ?thesis using False big(1) le by simp
  qed
qed

lemma align_alloc_cases:
  assumes "layout_ok layout" and "malloc_ok P" and "serves P (lsize layout + lalign layout + 192)"
  shows "(align_alloc chk P layout s = Undef \<longleftrightarrow> lalign layout + lsize layout \<le> 4) \<and>
    ((\<exists>p s'. align_alloc chk P layout s = Ret (p, s') \<and> p \<noteq> 0) \<longleftrightarrow>
       4 < lalign layout + lsize layout \<and> max 8 (lalign layout) + lsize layout \<le> 64)"
proof (cases "\<exists>q<64. lalign layout dvd q \<and> pad_ok (whole_object layout) q")
  case True
  note l = layout_okD [OF assms(1)]
  then obtain q where q: "q < 64" "lalign layout dvd q" "pad_ok (whole_object layout) q" using True by blast
  note room = whole_padding_exists [OF assms(1), THEN iffD1, OF True]
  then have "lsize layout < 63" by auto
  then obtain bmp where bmp: "make_bitmap chk (whole_object layout) 0 = Ret bmp" by (simp add: whole_object_def)
  obtain pad al raw s' where padded: "padded layout (whole_object layout) pad al" and raw: "raw \<noteq> 0" "16 dvd raw"
    and run: "alloc_with_req chk P layout (whole_object layout) s =
          (let p = (raw + lalign al - 1) div lalign al * lalign al + pad in if raw + 8 \<le> p \<and> p mod 8 = 0 then Ret (p, s') else Undef)"
    by (rule alloc_with_req_forward [OF assms bmp _ _ _ q, where s = s]) (auto simp: whole_object_def)
  note pad = whole_padding_value [OF padded assms(1)]
  let ?base = "(raw + lalign al - 1) div lalign al * lalign al"
  have a: "lalign al = calc_algn (lalign layout) (lsize layout + pad)" using padded by (simp add: padded_def)
  have pow: "is_power_of_two (lalign al)" unfolding a by (rule calc_algn_power [OF l(3)])
  have "2 ^ 3 \<le> lalign al" unfolding a by (simp add: calc_algn_eq)
  then have "8 dvd lalign al" using power_of_two_dvd [OF pow, of 3] by simp
  then have base: "8 dvd ?base" by (rule dvd_mult)
  have up: "raw \<le> ?base" by (rule align_up(1)) (use \<open>2 ^ 3 \<le> lalign al\<close> in auto)
  show ?thesis
  proof (cases "lalign layout + lsize layout \<le> 4")
    case True
    then have "pad < 4" "0 < pad" using pad l(2,4) by auto
    then have "(?base + pad) mod 8 \<noteq> 0" using base by (simp add: mod_add_left_eq [symmetric] dvd_eq_mod_eq_0)
    then show ?thesis using run True by (simp add: align_alloc_def Let_def)
  next
    case False
    then have "8 dvd pad" "8 \<le> pad" using pad power_of_two_dvd_max(2) [OF l(3)] by auto
    then have "(?base + pad) mod 8 = 0" "raw + 8 \<le> ?base + pad"
      using base up by (auto simp: dvd_eq_mod_eq_0 [symmetric])
    then show ?thesis using run False room raw(1) \<open>8 \<le> pad\<close> by (simp add: align_alloc_def Let_def)
  qed
next
  case False
  have none: False if "align_alloc chk P layout s = r" "r \<noteq> Panic" "\<And>s'. r \<noteq> Ret (0, s')" for r
  proof -
    note run = alloc_with_req_run [OF assms(1,2) _ that(1) [unfolded align_alloc_def] that(2,3)]
    obtain pad al where "padded layout (whole_object layout) pad al"
      by (rule run) (auto simp: whole_object_def)
    then show False using False by (auto simp: padded_def)
  qed
  have "align_alloc chk P layout s \<noteq> Undef" using none by blast
  moreover have "align_alloc chk P layout s \<noteq> Ret (p, s')" if "p \<noteq> 0" for p s' using none that by blast
  ultimately show ?thesis using whole_padding_exists [OF assms(1)] False by blast
qed

text \<open>
  C34: Which objects \<^verbatim>\<open>AlignAlloc::alloc\<close> can place, with \<open>sz\<close> bytes aligned to \<open>al\<close> and memory at hand: it returns an object exactly when
  \<open>al + sz\<close> is more than 4 and the line behind byte 8 (or behind \<open>al\<close>) has room for it; and it writes the header to an address that is not a
  word's, or before its block, exactly for the objects with \<open>al + sz\<close> at most 4: those of one to three bytes.
\<close>

theorem align_alloc_outcome:
  assumes "layout_ok layout" and "malloc_ok P" and "serves P (lsize layout + lalign layout + 192)"
  shows "(align_alloc chk P layout s = Undef \<longleftrightarrow> lalign layout + lsize layout \<le> 4) \<and>
    ((\<exists>p s'. align_alloc chk P layout s = Ret (p, s') \<and> p \<noteq> 0) \<longleftrightarrow>
       4 < lalign layout + lsize layout \<and> max 8 (lalign layout) + lsize layout \<le> 64)"
  by (rule align_alloc_cases [OF assms])

text \<open>\<^verbatim>\<open>malloc\<close> gives out no block that is in use, in this call and in the next one.\<close>

definition malloc_fresh :: "'w aa_ffi \<Rightarrow> 'w aa_st \<Rightarrow> bool" where
  "malloc_fresh P s \<longleftrightarrow> (\<forall>n. blocks s (fst (malloc P n s)) = None) \<and>
     (\<forall>n m. let s1 = snd (malloc P n s) in blocks s1 (fst (malloc P m s1)) = None)"

text \<open>
  What an allocation leaves behind. Releasing an object with \<^verbatim>\<open>dealloc\<close> frees the block it lies in, and of the blocks there were before all are
  still there; but one more block is in use, the bitmap of one bit per byte that \<^verbatim>\<open>check_align_req\<close> frees only when it refuses the requests.
\<close>

theorem dealloc_leaves_bitmap:
  assumes "alloc_with_req chk P layout reqs s = Ret (p, s')" and "p \<noteq> 0" and "layout_ok layout" and "malloc_ok P" and "reqs \<noteq> []"
    and "malloc_fresh P s"
  shows "\<exists>bm s''. align_dealloc p s' = Ret s'' \<and> blocks s bm = None \<and> blocks s'' = (blocks s)(bm \<mapsto> (lsize layout + 7) div 8)"
proof -
  obtain al :: Layout and bm w raw w' where bm: "c_malloc P ((lsize layout + 7) div 8) (aa_world s) = (bm, w)" "bm \<noteq> 0"
    and raw: "c_malloc P (lsize al + 8) w = (raw, w')" "raw \<noteq> 0"
    and s': "s' = s\<lparr>blocks := (blocks s)(bm \<mapsto> (lsize layout + 7) div 8, raw \<mapsto> lsize al + 8), aa_world := w',
                    words := (words s)(p - 8 \<mapsto> raw)\<rparr>"
    by (rule alloc_with_req_Ret [OF assms(1-5)]) blast
  have m: "malloc P ((lsize layout + 7) div 8) s = (bm, s\<lparr>blocks := (blocks s)(bm \<mapsto> (lsize layout + 7) div 8), aa_world := w\<rparr>)"
    using bm by (simp add: malloc_def)
  then have fresh: "blocks s bm = None"
    using assms(6) unfolding malloc_fresh_def by (metis fst_conv)
  have "((blocks s)(bm \<mapsto> (lsize layout + 7) div 8)) raw = None"
  proof -
    have "let s1 = snd (malloc P ((lsize layout + 7) div 8) s) in blocks s1 (fst (malloc P (lsize al + 8) s1)) = None"
      using assms(6) unfolding malloc_fresh_def by blast
    then show ?thesis using raw unfolding m by (simp add: malloc_def Let_def)
  qed
  then have other: "raw \<noteq> bm" "blocks s raw = None" by (auto split: if_splits)
  have "align_dealloc p s' = Ret (s'\<lparr>blocks := (blocks s')(raw := None)\<rparr>)"
    unfolding s' by (simp add: align_dealloc_def free_def)
  moreover have "(blocks s')(raw := None) = (blocks s)(bm \<mapsto> (lsize layout + 7) div 8)"
    unfolding s' using other by (auto simp: fun_eq_iff)
  ultimately show ?thesis using fresh by (intro exI [of _ bm] exI [of _ "s'\<lparr>blocks := (blocks s')(raw := None)\<rparr>"]) simp
qed

text \<open>A \<^verbatim>\<open>malloc\<close> that hands out blocks of at most 512 bytes; the world counts them.\<close>

definition page_malloc :: "nat aa_ffi" where
  "page_malloc = \<lparr>c_malloc = \<lambda>n k. if n \<le> 512 then (1024 * (k mod 2 ^ 32) + 1040, k + 1) else (0, k)\<rparr>"

lemma page_malloc_ok: "malloc_ok page_malloc"
proof -
  have "1024 * (k mod 2 ^ 32) + 1040 + n \<le> USIZE_TOP \<and> 16 dvd 1024 * (k mod 2 ^ 32) + 1040" if "n \<le> 512" for n k :: nat
  proof
    have "k mod 2 ^ 32 < 2 ^ 32" by simp
    then show "1024 * (k mod 2 ^ 32) + 1040 + n \<le> USIZE_TOP" using that by (simp add: USIZE_TOP_def)
    have "16 dvd 16 * (64 * (k mod 2 ^ 32) + 65)" by (rule dvd_triv_left)
    then show "16 dvd 1024 * (k mod 2 ^ 32) + 1040" by (simp only: distrib_left mult.assoc [symmetric] mult_numeral_left) simp
  qed
  then show ?thesis by (auto simp: malloc_ok_def page_malloc_def split: if_splits)
qed

lemma page_malloc_serves: "n \<le> 512 \<Longrightarrow> serves page_malloc n"
  by (auto simp: serves_def page_malloc_def)

definition small_layout :: Layout where "small_layout = \<lparr>lsize = 32, lalign = 8\<rparr>"

definition no_blocks :: "nat aa_st" where "no_blocks = \<lparr>blocks = Map.empty, words = Map.empty, aa_world = 0\<rparr>"

lemma small_layout_ok: "layout_ok small_layout"
  using powers_of_two by (simp add: small_layout_def layout_ok_def check_layout_def USIZE_TOP_def)

lemma small_layout_runs: "\<exists>p s'. align_alloc True page_malloc small_layout no_blocks = Ret (p, s') \<and> p \<noteq> 0"
  using align_alloc_cases [OF small_layout_ok page_malloc_ok, of True no_blocks] page_malloc_serves [of 232]
  by (simp add: small_layout_def)

theorem align_alloc_outcome_witness:
  "align_alloc True page_malloc \<lparr>lsize = 3, lalign = 1\<rparr> no_blocks = Undef \<and>
   (\<exists>p s'. align_alloc True page_malloc small_layout no_blocks = Ret (p, s') \<and> p \<noteq> 0)"
proof -
  have "layout_ok \<lparr>lsize = 3, lalign = 1\<rparr>"
    using powers_of_two by (simp add: layout_ok_def check_layout_def USIZE_TOP_def)
  from align_alloc_outcome [OF this page_malloc_ok, of True no_blocks] page_malloc_serves [of 196]
    align_alloc_outcome [OF small_layout_ok page_malloc_ok, of True no_blocks] page_malloc_serves [of 232]
  show ?thesis by (simp add: small_layout_def)
qed

theorem secrets_not_exposed_witness:
  "\<exists>p s'. align_alloc True page_malloc small_layout no_blocks = Ret (p, s') \<and> p \<noteq> 0 \<and> (\<forall>i<32. (p + i) mod 64 \<notin> {0, 4, 5, 6, 7})"
proof -
  obtain p s' where run: "align_alloc True page_malloc small_layout no_blocks = Ret (p, s')" "p \<noteq> 0" using small_layout_runs by blast
  note run' = run(1) [unfolded align_alloc_def]
  show ?thesis
    using run secrets_not_exposed [OF run' run(2) small_layout_ok page_malloc_ok] by (auto simp: whole_object_def small_layout_def)
qed

theorem dealloc_leaves_bitmap_witness:
  "\<exists>p s' bm s''. align_alloc True page_malloc small_layout no_blocks = Ret (p, s') \<and> align_dealloc p s' = Ret s'' \<and> blocks s'' = [bm \<mapsto> 4]"
proof -
  obtain p s' where run: "align_alloc True page_malloc small_layout no_blocks = Ret (p, s')" "p \<noteq> 0" using small_layout_runs by blast
  note run' = run(1) [unfolded align_alloc_def]
  have "malloc_fresh page_malloc no_blocks"
    by (simp add: malloc_fresh_def malloc_def page_malloc_def no_blocks_def Let_def)
  then show ?thesis
    using run dealloc_leaves_bitmap [OF run' run(2) small_layout_ok page_malloc_ok]
    by (auto simp: whole_object_def small_layout_def no_blocks_def)
qed

section \<open>Boxes\<close>

lemma calc_algn_mono: "m \<le> n \<Longrightarrow> calc_algn al m \<le> calc_algn al n"
  by (simp add: calc_algn_eq)

text \<open>Two objects of one layout with padded layouts of one size are padded alike.\<close>

lemma padded_size_inj:
  assumes "padded layout reqs pad al" and "padded layout reqs' pad' al'" and "lsize al = lsize al'"
  shows "pad = pad' \<and> al = al'"
proof -
  have a: "lalign al = calc_algn (lalign layout) (lsize layout + pad)" "lsize al = pad + lalign al + lsize layout"
    "lalign al' = calc_algn (lalign layout) (lsize layout + pad')" "lsize al' = pad' + lalign al' + lsize layout"
    using assms(1,2) by (auto simp: padded_def)
  have "pad = pad'"
  proof (rule linorder_cases [of pad pad'])
    assume "pad < pad'"
    then show ?thesis
      using calc_algn_mono [of "lsize layout + pad" "lsize layout + pad'" "lalign layout"] a assms(3) by simp
  next
    assume "pad' < pad"
    then show ?thesis
      using calc_algn_mono [of "lsize layout + pad'" "lsize layout + pad" "lalign layout"] a assms(3) by simp
  qed
  then show ?thesis using a by simp
qed

text \<open>The memory of a box: placed for its padded layout in a block that is in use.\<close>

definition box_placed :: "AlignBox \<Rightarrow> AlignReq list \<Rightarrow> 'w aa_st \<Rightarrow> bool" where
  "box_placed b reqs s \<longleftrightarrow>
     (\<exists>pad raw. padded (origin_layout b) reqs pad (align_layout b) \<and> lalign (align_layout b) dvd box_ptr b - pad \<and> pad \<le> box_ptr b \<and>
        blocks s raw = Some (lsize (align_layout b) + 8) \<and> words s (box_ptr b - 8) = Some raw \<and> raw + 8 \<le> box_ptr b \<and>
        box_ptr b + lsize (origin_layout b) \<le> raw + (lsize (align_layout b) + 8))"

lemma box_placed_hides:
  assumes "box_placed b reqs s" and "layout_ok (origin_layout b)" and "req \<in> set reqs" and "i < req_len req"
  shows "\<not> exposed (box_ptr b + req_offset req + i)"
proof -
  note l = layout_okD [OF assms(2)]
  obtain pad where padded: "padded (origin_layout b) reqs pad (align_layout b)" and al: "lalign (align_layout b) dvd box_ptr b - pad"
    and le: "pad \<le> box_ptr b"
    using assms(1) by (auto simp: box_placed_def)
  have "\<not> exposed (box_ptr b - pad + pad + req_offset req + i)"
    by (rule placement [OF l(3) _ al _ assms(3,4)]) (use padded assms(3) in \<open>auto simp: padded_def\<close>)
  then show ?thesis using le by simp
qed

lemma alloc_in_places:
  assumes "alloc_with_pad_align_in chk P layout al s = Ret (p, s')" and "p \<noteq> 0"
    and "padded layout reqs pad al" and "layout_ok layout" and "malloc_ok P"
  shows "box_placed \<lparr>box_ptr = p, align_layout = al, origin_layout = layout\<rparr> reqs s'"
proof -
  note l = layout_okD [OF assms(4)]
  obtain raw w where raw: "c_malloc P (lsize al + 8) (aa_world s) = (raw, w)" by fastforce
  note eq = alloc_in_eq [OF assms(3,4,5) raw, of chk]
  have raw0: "raw \<noteq> 0"
  proof
    assume "raw = 0"
    then have "alloc_with_pad_align_in chk P layout al s = Ret (0, s\<lparr>aa_world := w\<rparr>)" using eq by simp
    then show False using assms(1,2) by simp
  qed
  let ?base = "(raw + lalign al - 1) div lalign al * lalign al"
  have p: "p = ?base + pad" "raw + 8 \<le> p"
    and s': "blocks s' raw = Some (lsize al + 8)" "words s' (p - 8) = Some raw"
    using eq assms(1) raw0 by (auto simp: Let_def split: if_splits)
  have size: "lsize al = pad + lalign al + lsize layout" "lalign al = calc_algn (lalign layout) (lsize layout + pad)"
    using assms(3) by (auto simp: padded_def)
  have "0 < lalign al"
    using calc_algn_power [OF l(3), of "lsize layout + pad", folded size(2)] by (auto simp: is_power_of_two_def)
  then have "p + lsize layout \<le> raw + (lsize al + 8)" using align_up(2) [of "lalign al" raw] p(1) size(1) by linarith
  then show ?thesis
    unfolding box_placed_def using assms(3) p s' by (intro exI [of _ pad] exI [of _ raw]) simp
qed

text \<open>
  \<^verbatim>\<open>clone_from\<close> between boxes of one type keeps the bytes that the source protects away from the exposed ones, also when it keeps the memory of the
  target, which was placed for other requests: padded layouts of one size have one padding.
\<close>

theorem clone_from_keeps_secrets:
  fixes s :: "'w aa_st"
  assumes "box_clone_from chk P sz b source s = Ret (b', s')" and "box_placed b reqs0 s" and "box_placed source reqs s"
    and "origin_layout b = origin_layout source" and "layout_ok (origin_layout source)" and "malloc_ok P"
  shows "\<forall>req\<in>set reqs. \<forall>i<req_len req. (box_ptr b' + req_offset req + i) mod 64 \<notin> {0, 4, 5, 6, 7}"
proof -
  obtain pad where padded: "padded (origin_layout source) reqs pad (align_layout source)" using assms(3) by (auto simp: box_placed_def)
  have "\<exists>s1 :: 'w aa_st. box_placed b' reqs s1"
  proof (cases "lsize (align_layout source) = lsize (align_layout b)")
    case True
    obtain pad0 raw where b: "padded (origin_layout b) reqs0 pad0 (align_layout b)" "lalign (align_layout b) dvd box_ptr b - pad0"
      "pad0 \<le> box_ptr b" "blocks s raw = Some (lsize (align_layout b) + 8)" "words s (box_ptr b - 8) = Some raw" "raw + 8 \<le> box_ptr b"
      "box_ptr b + lsize (origin_layout b) \<le> raw + (lsize (align_layout b) + 8)"
      using assms(2) by (auto simp: box_placed_def)
    have same: "pad = pad0" "align_layout source = align_layout b"
      using padded_size_inj [OF padded b(1) [unfolded assms(4)] True] by auto
    have "box_placed (source\<lparr>box_ptr := box_ptr b\<rparr>) reqs s"
      unfolding box_placed_def using padded b(2-7) same assms(4) by (intro exI [of _ pad] exI [of _ raw]) simp
    then show ?thesis using assms(1) True by (auto simp: box_clone_from_def)
  next
    case False
    obtain p s1 where p: "alloc_with_pad_align_in chk P (origin_layout source) (align_layout source) s = Ret (p, s1)" "p \<noteq> 0"
      "b' = source\<lparr>box_ptr := p\<rparr>"
      using assms(1) False by (auto simp: box_clone_from_def bind_out_def split: outcome.splits prod.splits if_splits)
    from alloc_in_places [OF p(1,2) padded assms(5,6)] show ?thesis unfolding p(3) by (cases source) auto
  qed
  then obtain s1 :: "'w aa_st" where "box_placed b' reqs s1" ..
  moreover have "origin_layout b' = origin_layout source"
    using assms(1) by (auto simp: box_clone_from_def bind_out_def split: outcome.splits prod.splits if_splits)
  ultimately show ?thesis using box_placed_hides [of b' reqs s1] assms(5) by (simp add: exposed_def)
qed

theorem clone_from_keeps_secrets_witness:
  "\<exists>b s. origin_layout b = small_layout \<and> box_clone_from True page_malloc 32 b b s = Ret (b, s) \<and>
     (\<forall>i<32. (box_ptr b + i) mod 64 \<notin> {0, 4, 5, 6, 7})"
proof -
  obtain p s' where run: "alloc_with_req True page_malloc small_layout (whole_object small_layout) no_blocks = Ret (p, s')" "p \<noteq> 0"
    using small_layout_runs by (auto simp: align_alloc_def)
  obtain al s1 where al: "pad_align_to True page_malloc small_layout (whole_object small_layout) no_blocks = Ret (Some al, s1)"
    and alloc: "alloc_with_pad_align_in True page_malloc small_layout al s1 = Ret (p, s')"
    using run by (auto simp: alloc_with_req_def whole_object_def bind_out_def split: outcome.splits prod.splits option.splits if_splits)
  obtain pad where "padded small_layout (whole_object small_layout) pad al" by (rule pad_align_to_Some [OF al small_layout_ok])
  from alloc_in_places [OF alloc run(2) this small_layout_ok page_malloc_ok]
  have placed: "box_placed \<lparr>box_ptr = p, align_layout = al, origin_layout = small_layout\<rparr> (whole_object small_layout) s'" .
  let ?b = "\<lparr>box_ptr = p, align_layout = al, origin_layout = small_layout\<rparr>"
  have clone: "box_clone_from True page_malloc 32 ?b ?b s' = Ret (?b, s')" by (simp add: box_clone_from_def)
  from clone_from_keeps_secrets [OF clone placed placed _ _ page_malloc_ok] small_layout_ok
  have "\<forall>i<32. (box_ptr ?b + i) mod 64 \<notin> {0, 4, 5, 6, 7}" by (simp add: whole_object_def small_layout_def)
  then show ?thesis using clone by (intro exI [of _ ?b] exI [of _ s']) simp
qed

end
