(* ===== verification/Sgx_Enclave.thy ===== *)
theory Sgx_Enclave
  imports Sgx_Trts
begin

text \<open>
  What the trusted runtime tells an enclave about itself: the metadata of \<^verbatim>\<open>src/sgx_trts/src/enclave.rs\<close> with the layout table of
  \<^verbatim>\<open>src/sgx_types/src/metadata.rs\<close>, the features of the processor (\<^verbatim>\<open>src/sgx_trts/src/cpu_feature.rs\<close> and \<^verbatim>\<open>src/sgx_types/src/cpu_feature.rs\<close>),
  \<^verbatim>\<open>cpuid.rs\<close>, the registration of exception handlers in \<^verbatim>\<open>veh.rs\<close>, and the handler for exhausted memory in \<^verbatim>\<open>oom.rs\<close>.
\<close>

unbundle bit_operations_syntax

section \<open>Metadata\<close>

definition GROUP_FLAG :: u32 where "GROUP_FLAG = push_bit 12 1"
definition LAYOUT_ID_TCS_DYN :: u16 where "LAYOUT_ID_TCS_DYN = 14"
definition PAGE_ATTR_EADD :: u16 where "PAGE_ATTR_EADD = push_bit 0 1"
definition PAGE_ATTR_EREMOVE :: u16 where "PAGE_ATTR_EREMOVE = push_bit 2 1"
definition PAGE_ATTR_POST_ADD :: u16 where "PAGE_ATTR_POST_ADD = push_bit 3 1"
definition SI_FLAGS_TCS :: u64 where "SI_FLAGS_TCS = push_bit 8 1"
definition STATIC_STACK_SIZE :: u64 where "STATIC_STACK_SIZE = 688"
definition SE_GUARD_PAGE_SIZE :: u64 where "SE_GUARD_PAGE_SIZE = push_bit 16 1"
definition LAYOUT_ENTRY_NUM :: nat where "LAYOUT_ENTRY_NUM = 42"

text \<open>
  \<^verbatim>\<open>layout_t\<close> is a union of two packed structures. They share their first three fields: \<open>id\<close>, 16 bits that are the attributes of an entry or the entry
  count of a group, and 32 bits that are the page count or the load times.
\<close>

record layout_t =
  lid :: u16
  attributes_or_entry_count :: u16
  page_count_or_load_times :: u32
  rva_or_load_step :: u64
  content_size :: u32
  content_offset :: u32
  si_flags :: u64

definition entry_attributes :: "layout_t \<Rightarrow> u16" where "entry_attributes = attributes_or_entry_count"
definition group_entry_count :: "layout_t \<Rightarrow> u16" where "group_entry_count = attributes_or_entry_count"
definition group_load_times :: "layout_t \<Rightarrow> u32" where "group_load_times = page_count_or_load_times"

definition is_group_id :: "u32 \<Rightarrow> bool" where
  "is_group_id gid \<longleftrightarrow> gid AND GROUP_FLAG \<noteq> 0"

definition is_group :: "layout_t \<Rightarrow> bool" where
  "is_group l \<longleftrightarrow> is_group_id (ucast (lid l))"

record thread_data_t =
  self_addr :: u64
  last_sp :: u64
  stack_base_addr :: u64
  stack_limit_addr :: u64
  first_ssa_gpr :: u64
  stack_guard :: u64
  td_flags :: u64
  xsave_size :: u64
  last_error :: u64
  m_next :: u64
  tls_addr :: u64
  tls_array :: u64
  exception_flag :: u64
  cxx_thread_info :: "u64 list"
  stack_commit_addr :: u64

record global_data_t =
  gd_enclave_size :: u64
  gd_heap_offset :: u64
  gd_rsrv_offset :: u64
  gd_thread_policy :: u64
  gd_tcs_max_num :: u64
  gd_tcs_num :: u64
  gd_layout_entry_num :: u32
  gd_layout_table :: "layout_t list"
  gd_elrange_start_address :: u64
  gd_elrange_size :: u64

text \<open>The variables and functions of the foreign runtime.\<close>

record trts_data =
  g_global_data :: global_data_t
  EDMM_supported :: int
  g_cpu_feature_indicator :: u64
  get_thread_data :: thread_data_t
  get_enclave_base :: u64
  get_heap_base :: u64
  get_heap_size :: u64
  get_rsrv_base :: u64
  get_rsrv_size :: u64

section \<open>The number of thread control structures\<close>

record tcs_nums =
  static_num :: u32
  dyn_num :: u32
  eremove_num :: u32

definition inc_u32 :: "bool \<Rightarrow> u32 \<Rightarrow> u32 outcome" where
  "inc_u32 chk n = (if chk \<and> n = U32_MAX then Panic else Ret (n + 1))"

text \<open>The body of the loop for an entry that is no group.\<close>

definition count_entry :: "bool \<Rightarrow> layout_t \<Rightarrow> tcs_nums \<Rightarrow> tcs_nums outcome" where
  "count_entry chk l c =
     bind_out
       (if entry_attributes l AND PAGE_ATTR_EADD \<noteq> 0 \<and> content_offset l \<noteq> 0 \<and> si_flags l = SI_FLAGS_TCS
        then if entry_attributes l AND PAGE_ATTR_EREMOVE = 0
             then bind_out (inc_u32 chk (static_num c)) (\<lambda>n. Ret (c\<lparr>static_num := n\<rparr>))
             else bind_out (inc_u32 chk (eremove_num c)) (\<lambda>n. Ret (c\<lparr>eremove_num := n\<rparr>))
        else Ret c) (\<lambda>c.
       if entry_attributes l AND PAGE_ATTR_POST_ADD \<noteq> 0 \<and> lid l = LAYOUT_ID_TCS_DYN
       then bind_out (inc_u32 chk (dyn_num c)) (\<lambda>n. Ret (c\<lparr>dyn_num := n\<rparr>))
       else Ret c)"

text \<open>A group repeats the entries before it; a count that reaches before the table panics.\<close>

function traversal_layout :: "bool \<Rightarrow> layout_t list \<Rightarrow> tcs_nums \<Rightarrow> tcs_nums outcome" where
  "traversal_layout chk layout_table c =
     for_out (\<lambda>i c.
       let layout = layout_table ! i
       in if \<not> is_group layout then count_entry chk layout c
          else repeat_out (unat (group_load_times layout)) (\<lambda>c.
                 if unat (group_entry_count layout) > i then Panic
                 else traversal_layout chk (drop (i - unat (group_entry_count layout)) (take i layout_table)) c) c)
       [0..<length layout_table] c"
  by pat_completeness auto

termination
  by (relation "measure (\<lambda>(chk, tbl, c). length tbl)") auto

declare traversal_layout.simps [simp del]

text \<open>The three numbers: static, removed at start, dynamic.\<close>

definition rsgx_get_tcs_num :: "bool \<Rightarrow> trts_data \<Rightarrow> (u32 \<times> u32 \<times> u32) outcome" where
  "rsgx_get_tcs_num chk D =
     (let gd = g_global_data D
      in if unat (gd_layout_entry_num gd) > LAYOUT_ENTRY_NUM then Panic
         else bind_out (traversal_layout chk (take (unat (gd_layout_entry_num gd)) (gd_layout_table gd))
                         \<lparr>static_num = 0, dyn_num = 0, eremove_num = 0\<rparr>)
                (\<lambda>c. Ret (static_num c, eremove_num c, dyn_num c)))"

definition rsgx_get_tcs_max_num :: "trts_data \<Rightarrow> u32" where
  "rsgx_get_tcs_max_num D =
     (if EDMM_supported D \<noteq> 0 then ucast (gd_tcs_max_num (g_global_data D)) else ucast (gd_tcs_num (g_global_data D)))"

datatype SgxThreadPolicy = Bound | Unbound

definition rsgx_get_thread_policy :: "trts_data \<Rightarrow> SgxThreadPolicy" where
  "rsgx_get_thread_policy D = (if gd_thread_policy (g_global_data D) \<noteq> 0 then Unbound else Bound)"

definition rsgx_is_supported_EDMM :: "trts_data \<Rightarrow> bool" where
  "rsgx_is_supported_EDMM D \<longleftrightarrow> EDMM_supported D \<noteq> 0"

section \<open>Snapshots\<close>

record SgxGlobalData =
  enclave_base :: u64
  enclave_size :: u64
  heap_base :: u64
  heap_offset :: u64
  heap_size :: u64
  rsrv_base :: u64
  rsrv_offset :: u64
  rsrv_size :: u64
  thread_policy :: SgxThreadPolicy
  static_tcs_num :: u32
  eremove_tcs_num :: u32
  dyn_tcs_num :: u32
  max_tcs_num :: u32
  elrange_base :: u64
  elrange_size :: u64

definition SgxGlobalData_new :: "bool \<Rightarrow> trts_data \<Rightarrow> SgxGlobalData outcome" where
  "SgxGlobalData_new chk D =
     bind_out (rsgx_get_tcs_num chk D) (\<lambda>(st, er, dy).
       Ret \<lparr>enclave_base = get_enclave_base D, enclave_size = gd_enclave_size (g_global_data D),
            heap_base = get_heap_base D, heap_offset = gd_heap_offset (g_global_data D), heap_size = get_heap_size D,
            rsrv_base = get_rsrv_base D, rsrv_offset = gd_rsrv_offset (g_global_data D), rsrv_size = get_rsrv_size D,
            thread_policy = rsgx_get_thread_policy D, static_tcs_num = st, eremove_tcs_num = er, dyn_tcs_num = dy,
            max_tcs_num = rsgx_get_tcs_max_num D, elrange_base = gd_elrange_start_address (g_global_data D),
            elrange_size = gd_elrange_size (g_global_data D)\<rparr>)"

record SgxThreadData =
  sd_td_addr :: u64
  sd_last_sp :: u64
  sd_stack_base_addr :: u64
  sd_stack_limit_addr :: u64
  sd_first_ssa_gpr :: u64
  sd_stack_guard :: u64
  sd_xsave_size :: u64
  sd_last_error :: u64
  sd_tls_addr :: u64
  sd_tls_array :: u64
  sd_exception_flag :: u64
  sd_cxx_thread_info :: "u64 list"

definition SgxThreadData_from_raw :: "thread_data_t \<Rightarrow> SgxThreadData" where
  "SgxThreadData_from_raw td =
     \<lparr>sd_td_addr = self_addr td, sd_last_sp = last_sp td, sd_stack_base_addr = stack_base_addr td,
      sd_stack_limit_addr = stack_limit_addr td, sd_first_ssa_gpr = first_ssa_gpr td, sd_stack_guard = stack_guard td,
      sd_xsave_size = xsave_size td, sd_last_error = last_error td, sd_tls_addr = tls_addr td, sd_tls_array = tls_array td,
      sd_exception_flag = exception_flag td, sd_cxx_thread_info = cxx_thread_info td\<rparr>"

definition SgxThreadData_current :: "trts_data \<Rightarrow> SgxThreadData" where
  "SgxThreadData_current D = SgxThreadData_from_raw (get_thread_data D)"

definition SgxThreadData_get_tcs :: "bool \<Rightarrow> SgxThreadData \<Rightarrow> u64 outcome" where
  "SgxThreadData_get_tcs chk t =
     (let n = unat (sd_stack_base_addr t) + unat STATIC_STACK_SIZE + unat SE_GUARD_PAGE_SIZE
      in if chk \<and> n \<ge> 2 ^ 64 then Panic else Ret (word_of_nat n))"

section \<open>Features of the processor\<close>

datatype Feature =
    F_none | F_ia32 | F_fpu | F_cmov | F_mmx | F_fxsave | F_sse | F_sse2 | F_sse3 | F_ssse3 | F_sse4_1 | F_sse4_2 | F_movbe | F_popcnt
  | F_pclmulqdq | F_aes | F_f16c | F_avx | F_rdrand | F_fma | F_bmi | F_lzcnt | F_hle | F_rtm | F_avx2 | F_avx512dq | F_ptwrite
  | F_kncni | F_avx512f | F_adx | F_rdseed | F_avx512ifma | F_full_inorder | F_avx512er | F_avx512pf | F_avx512cd | F_sha | F_mpx
  | F_avx512bw | F_avx512vl | F_avx512vbmi | F_avx512_4fmaps | F_avx512_4vnniw | F_avx512_vpopcntdq | F_avx512_bitalg | F_avx512vbmi2
  | F_gfni | F_vaes | F_vpclmulqdq | F_avx512vnni | F_clwb | F_rdpid | F_ibt | F_shstk | F_sgx | F_wbnoinvd | F_pconfig | F_end

definition features :: "Feature list" where
  "features =
     [F_none, F_ia32, F_fpu, F_cmov, F_mmx, F_fxsave, F_sse, F_sse2, F_sse3, F_ssse3, F_sse4_1, F_sse4_2, F_movbe, F_popcnt, F_pclmulqdq, 
      F_aes, F_f16c, F_avx, F_rdrand, F_fma, F_bmi, F_lzcnt, F_hle, F_rtm, F_avx2, F_avx512dq, F_ptwrite, F_kncni, F_avx512f, F_adx, 
      F_rdseed, F_avx512ifma, F_full_inorder, F_avx512er, F_avx512pf, F_avx512cd, F_sha, F_mpx, F_avx512bw, F_avx512vl, F_avx512vbmi, 
      F_avx512_4fmaps, F_avx512_4vnniw, F_avx512_vpopcntdq, F_avx512_bitalg, F_avx512vbmi2, F_gfni, F_vaes, F_vpclmulqdq, F_avx512vnni, 
      F_clwb, F_rdpid, F_ibt, F_shstk, F_sgx, F_wbnoinvd, F_pconfig, F_end]"

definition feature_id :: "Feature \<Rightarrow> nat" where
  "feature_id f = length (takeWhile (\<lambda>g. g \<noteq> f) features)"

definition get_feature_bit :: "Feature \<Rightarrow> u64" where
  "get_feature_bit f =
     (if feature_id f > feature_id F_none \<and> feature_id f < feature_id F_end then push_bit (feature_id f - 1) 1 else 0)"

definition check_for :: "trts_data \<Rightarrow> Feature \<Rightarrow> bool" where
  "check_for D fid \<longleftrightarrow> get_feature_bit fid AND g_cpu_feature_indicator D \<noteq> 0"

text \<open>The names that \<^verbatim>\<open>is_x86_feature_detected!\<close> knows; any other name is an error of compilation.\<close>

definition detected_names :: "(string \<times> Feature) list" where
  "detected_names =
     [(''ia32'', F_ia32), (''fpu'', F_fpu), (''cmov'', F_cmov), (''mmx'', F_mmx), (''fxsave'', F_fxsave), (''sse'', F_sse), 
      (''sse2'', F_sse2), (''sse3'', F_sse3), (''ssse3'', F_ssse3), (''sse4.1'', F_sse4_1), (''sse4.2'', F_sse4_2), (''movbe'', F_movbe), 
      (''popcnt'', F_popcnt), (''pclmulqdq'', F_pclmulqdq), (''aes'', F_aes), (''f16c'', F_f16c), (''avx'', F_avx), 
      (''rdrand'', F_rdrand), (''fma'', F_fma), (''bmi'', F_bmi), (''lzcnt'', F_lzcnt), (''hle'', F_hle), (''rtm'', F_rtm), 
      (''avx2'', F_avx2), (''avx512dq'', F_avx512dq), (''ptwrite'', F_ptwrite), (''kncni'', F_kncni), (''avx512f'', F_avx512f), 
      (''adx'', F_adx), (''rdseed'', F_rdseed), (''avx512ifma'', F_avx512ifma), (''inorder'', F_full_inorder), 
      (''avx512er'', F_avx512er), (''avx512pf'', F_avx512pf), (''avx512cd'', F_avx512cd), (''sha'', F_sha), (''mpx'', F_mpx), 
      (''avx512bw'', F_avx512bw), (''avx512vl'', F_avx512vl), (''avx512vbmi'', F_avx512vbmi), (''avx5124fmaps'', F_avx512_4fmaps), 
      (''avx5124vnniw'', F_avx512_4vnniw), (''avx512vpopcntdq'', F_avx512_vpopcntdq), (''avx512bitalg'', F_avx512_bitalg), 
      (''avx512vbmi2'', F_avx512vbmi2), (''gfni'', F_gfni), (''vaes'', F_vaes), (''vpclmulqdq'', F_vpclmulqdq), 
      (''avx512vnni'', F_avx512vnni), (''clwb'', F_clwb), (''rdpid'', F_rdpid), (''ibt'', F_ibt), (''shstk'', F_shstk), (''sgx'', F_sgx), 
      (''wbnoinvd'', F_wbnoinvd), (''pconfig'', F_pconfig)]"

definition is_x86_feature_detected :: "trts_data \<Rightarrow> string \<Rightarrow> bool option" where
  "is_x86_feature_detected D name = map_option (check_for D) (map_of detected_names name)"

text \<open>The constants of \<^verbatim>\<open>sgx_types\<close>, in their order, each with the feature it is named after.\<close>

definition CPU_FEATURE_constants :: "(Feature \<times> u64) list" where
  "CPU_FEATURE_constants =
     [(F_ia32, 0x1), (F_fpu, 0x2), (F_cmov, 0x4), (F_mmx, 0x8), (F_fxsave, 0x10), (F_sse, 0x20), (F_sse2, 0x40), (F_sse3, 0x80), 
      (F_ssse3, 0x100), (F_sse4_1, 0x200), (F_sse4_2, 0x400), (F_movbe, 0x800), (F_popcnt, 0x1000), (F_pclmulqdq, 0x2000), 
      (F_aes, 0x4000), (F_f16c, 0x8000), (F_avx, 0x10000), (F_rdrand, 0x20000), (F_fma, 0x40000), (F_bmi, 0x80000), (F_lzcnt, 0x100000), 
      (F_hle, 0x200000), (F_rtm, 0x400000), (F_avx2, 0x800000), (F_avx512dq, 0x1000000), (F_ptwrite, 0x2000000), (F_kncni, 0x4000000), 
      (F_avx512f, 0x8000000), (F_adx, 0x10000000), (F_rdseed, 0x20000000), (F_avx512ifma, 0x40000000), (F_full_inorder, 0x80000000), 
      (F_avx512er, 0x100000000), (F_avx512pf, 0x200000000), (F_avx512cd, 0x400000000), (F_sha, 0x800000000), (F_mpx, 0x1000000000), 
      (F_avx512bw, 0x2000000000), (F_avx512vl, 0x4000000000), (F_avx512vbmi, 0x8000000000), (F_avx512_4fmaps, 0x10000000000), 
      (F_avx512_4vnniw, 0x20000000000), (F_avx512_vpopcntdq, 0x40000000000), (F_avx512_bitalg, 0x80000000000), 
      (F_avx512vbmi2, 0x100000000000), (F_gfni, 0x200000000000), (F_vaes, 0x400000000000), (F_vpclmulqdq, 0x800000000000), 
      (F_avx512vnni, 0x1000000000000), (F_clwb, 0x2000000000000), (F_rdpid, 0x4000000000000), (F_ibt, 0x8000000000000), 
      (F_shstk, 0x10000000000000), (F_sgx, 0x20000000000000), (F_wbnoinvd, 0x40000000000000), (F_pconfig, 0x80000000000000)]"

definition RESERVED_CPU_FEATURE_BIT :: u64 where
  "RESERVED_CPU_FEATURE_BIT = NOT (0x0100000000000000 - 1)"

section \<open>cpuid, exception handlers, exhausted memory\<close>

record 'w veh_ffi =
  sgx_cpuid :: "int \<Rightarrow> 'w \<Rightarrow> (sgx_status_t \<times> int list) \<times> 'w"
  sgx_cpuidex :: "int \<Rightarrow> int \<Rightarrow> 'w \<Rightarrow> (sgx_status_t \<times> int list) \<times> 'w"
  sgx_register_exception_handler :: "u32 \<Rightarrow> 'w \<Rightarrow> addr \<times> 'w"
  sgx_unregister_exception_handler :: "addr \<Rightarrow> 'w \<Rightarrow> int \<times> 'w"

definition rsgx_cpuid :: "('w, 'z) veh_ffi_scheme \<Rightarrow> int \<Rightarrow> ('w, sgx_status_t, int list) io" where
  "rsgx_cpuid P leaf w = (case sgx_cpuid P leaf w of ((ret, info), w') \<Rightarrow> (ffi_result ret info, w'))"

definition rsgx_cpuidex :: "('w, 'z) veh_ffi_scheme \<Rightarrow> int \<Rightarrow> int \<Rightarrow> ('w, sgx_status_t, int list) io" where
  "rsgx_cpuidex P leaf subleaf w = (case sgx_cpuidex P leaf subleaf w of ((ret, info), w') \<Rightarrow> (ffi_result ret info, w'))"

definition rsgx_register_exception_handler :: "('w, 'z) veh_ffi_scheme \<Rightarrow> u32 \<Rightarrow> 'w \<Rightarrow> addr option \<times> 'w" where
  "rsgx_register_exception_handler P is_first w =
     (case sgx_register_exception_handler P is_first w of (h, w') \<Rightarrow> (if h = 0 then None else Some h, w'))"

definition rsgx_unregister_exception_handler :: "('w, 'z) veh_ffi_scheme \<Rightarrow> addr \<Rightarrow> 'w \<Rightarrow> bool \<times> 'w" where
  "rsgx_unregister_exception_handler P h w = (case sgx_unregister_exception_handler P h w of (ret, w') \<Rightarrow> (ret \<noteq> 0, w'))"

text \<open>The handler in force: the hook that is set (not null), or the default one, which aborts.\<close>

datatype oom_handler = Default_oom_handler | Oom_hook addr

definition oom_choose :: "addr \<Rightarrow> oom_handler" where
  "oom_choose hook = (if hook = 0 then Default_oom_handler else Oom_hook hook)"

definition rsgx_oom :: "addr \<Rightarrow> oom_handler" where "rsgx_oom hook = oom_choose hook"
definition set_oom_handler :: "addr \<Rightarrow> addr \<Rightarrow> addr" where "set_oom_handler h hook = h"
definition take_oom_handler :: "addr \<Rightarrow> oom_handler \<times> addr" where "take_oom_handler hook = (oom_choose hook, 0)"

end
