(* ===== verification/Sgx_Enclave_Proofs.thy ===== *)
theory Sgx_Enclave_Proofs
  imports Sgx_Enclave
begin

text \<open>
  What \<open>Sgx_Enclave\<close> computes: the number of thread control structures is that of the layout table with its groups written out, and the bits, the
  constants and the names of the features agree.
\<close>

unbundle bit_operations_syntax

section \<open>The layout table written out\<close>

fun concat_opt :: "'a list option list \<Rightarrow> 'a list option" where
  "concat_opt [] = Some []"
| "concat_opt (None # xs) = None"
| "concat_opt (Some a # xs) = map_option (\<lambda>b. a @ b) (concat_opt xs)"

text \<open>
  The reference: every group is replaced by so many copies of the entries before it, which are written out themselves. There is no result when a
  group that is loaded reaches before the table.
\<close>

function written_out :: "layout_t list \<Rightarrow> layout_t list option" where
  "written_out tbl =
     concat_opt (map (\<lambda>i.
       if \<not> is_group (tbl ! i) then Some [tbl ! i]
       else if group_load_times (tbl ! i) = 0 then Some []
       else if unat (group_entry_count (tbl ! i)) > i then None
       else map_option (\<lambda>es. concat (replicate (unat (group_load_times (tbl ! i))) es))
              (written_out (drop (i - unat (group_entry_count (tbl ! i))) (take i tbl)))) [0..<length tbl])"
  by pat_completeness auto

termination
  by (relation "measure length") auto

declare written_out.simps [simp del]

definition is_static_tcs :: "layout_t \<Rightarrow> bool" where
  "is_static_tcs l \<longleftrightarrow> entry_attributes l AND PAGE_ATTR_EADD \<noteq> 0 \<and> content_offset l \<noteq> 0 \<and> si_flags l = SI_FLAGS_TCS \<and>
     entry_attributes l AND PAGE_ATTR_EREMOVE = 0"

definition is_eremove_tcs :: "layout_t \<Rightarrow> bool" where
  "is_eremove_tcs l \<longleftrightarrow> entry_attributes l AND PAGE_ATTR_EADD \<noteq> 0 \<and> content_offset l \<noteq> 0 \<and> si_flags l = SI_FLAGS_TCS \<and>
     entry_attributes l AND PAGE_ATTR_EREMOVE \<noteq> 0"

definition is_dyn_tcs :: "layout_t \<Rightarrow> bool" where
  "is_dyn_tcs l \<longleftrightarrow> entry_attributes l AND PAGE_ATTR_POST_ADD \<noteq> 0 \<and> lid l = LAYOUT_ID_TCS_DYN"

definition how_many :: "('a \<Rightarrow> bool) \<Rightarrow> 'a list \<Rightarrow> nat" where
  "how_many p xs = length (filter p xs)"

lemma how_many_append [simp]: "how_many p (xs @ ys) = how_many p xs + how_many p ys"
  by (simp add: how_many_def)

lemma how_many_simps [simp]: "how_many p [] = 0" "how_many p [x] = (if p x then 1 else 0)"
  by (simp_all add: how_many_def)

text \<open>Counting on from \<open>c\<close>, with the overflow of a counter a panic when it is checked.\<close>

definition tally :: "layout_t list \<Rightarrow> tcs_nums \<Rightarrow> tcs_nums" where
  "tally es c = c\<lparr>static_num := static_num c + of_nat (how_many is_static_tcs es),
                  dyn_num := dyn_num c + of_nat (how_many is_dyn_tcs es),
                  eremove_num := eremove_num c + of_nat (how_many is_eremove_tcs es)\<rparr>"

definition overflows :: "u32 \<Rightarrow> nat \<Rightarrow> bool" where
  "overflows s n \<longleftrightarrow> unat s + n \<ge> 2 ^ 32"

definition any_overflow :: "layout_t list \<Rightarrow> tcs_nums \<Rightarrow> bool" where
  "any_overflow es c \<longleftrightarrow> overflows (static_num c) (how_many is_static_tcs es) \<or> overflows (dyn_num c) (how_many is_dyn_tcs es) \<or>
     overflows (eremove_num c) (how_many is_eremove_tcs es)"

definition run_count :: "bool \<Rightarrow> layout_t list \<Rightarrow> tcs_nums \<Rightarrow> tcs_nums outcome" where
  "run_count chk es c = (if chk \<and> any_overflow es c then Panic else Ret (tally es c))"

definition run_option :: "bool \<Rightarrow> layout_t list option \<Rightarrow> tcs_nums \<Rightarrow> tcs_nums outcome" where
  "run_option chk es c = (case es of None \<Rightarrow> Panic | Some es \<Rightarrow> run_count chk es c)"

lemma overflows_0 [simp]: "\<not> overflows s 0"
  using unat_less_pow [of s] by (simp add: overflows_def)

lemma overflows_add:
  "\<not> overflows s m \<Longrightarrow> overflows s (m + n) \<longleftrightarrow> overflows (s + of_nat m) n"
  "overflows s m \<Longrightarrow> overflows s (m + n)"
  by (auto simp: overflows_def unat_word_ariths unat_of_nat)

lemma tally_append: "tally (xs @ ys) c = tally ys (tally xs c)"
  by (simp add: tally_def)

lemma run_count_append: "run_count chk (xs @ ys) c = bind_out (run_count chk xs c) (run_count chk ys)"
proof (cases "chk \<and> any_overflow xs c")
  case True
  then have "any_overflow (xs @ ys) c" using overflows_add(2) by (auto simp: any_overflow_def)
  then show ?thesis using True by (simp add: run_count_def)
next
  case False
  have "any_overflow (xs @ ys) c \<longleftrightarrow> any_overflow ys (tally xs c)" if "\<not> any_overflow xs c"
    using that overflows_add(1) by (simp add: any_overflow_def tally_def)
  then show ?thesis using False by (auto simp: run_count_def tally_append)
qed

lemma run_count_Nil [simp]: "run_count chk [] c = Ret c"
  by (simp add: run_count_def any_overflow_def tally_def)

lemma run_option_append:
  "run_option chk (map_option (\<lambda>b. a @ b) es) c = bind_out (run_count chk a c) (run_option chk es)"
proof (cases es)
  case None
  have "bind_out (run_count chk a c) (\<lambda>_. Panic :: tcs_nums outcome) = Panic" by (simp add: run_count_def)
  moreover have "run_option chk None = (\<lambda>_. Panic)" by (simp add: fun_eq_iff run_option_def)
  ultimately show ?thesis using None by simp
next
  case (Some b)
  moreover have "run_option chk (Some b) = run_count chk b" by (simp add: fun_eq_iff run_option_def)
  ultimately show ?thesis by (simp add: run_option_def run_count_append)
qed

lemma count_entry_run: "count_entry chk l c = run_count chk [l] c"
proof -
  have max: "s = U32_MAX \<longleftrightarrow> overflows s 1" for s :: u32
  proof
    assume "overflows s 1"
    then have "unat s = unat U32_MAX" using unat_less_pow [of s] by (simp add: overflows_def U32_MAX_def)
    then show "s = U32_MAX" by (simp only: word_unat_eq_iff)
  qed (simp add: overflows_def U32_MAX_def)
  show ?thesis
    by (auto simp: count_entry_def inc_u32_def run_count_def any_overflow_def tally_def is_static_tcs_def is_eremove_tcs_def is_dyn_tcs_def max)
qed

lemma for_out_run:
  assumes "\<And>x c. x \<in> set xs \<Longrightarrow> f x c = run_option chk (g x) c"
  shows "for_out f xs c = run_option chk (concat_opt (map g xs)) c"
  using assms
proof (induction xs arbitrary: c)
  case Nil
  then show ?case by (simp add: run_option_def)
next
  case (Cons x xs)
  have IH: "for_out f xs = run_option chk (concat_opt (map g xs))" using Cons by (simp add: fun_eq_iff)
  show ?case
  proof (cases "g x")
    case None
    then show ?thesis using Cons.prems [of x c] by (simp add: run_option_def)
  next
    case (Some a)
    then show ?thesis using Cons.prems [of x c] IH by (simp add: run_option_append) (simp add: run_option_def)
  qed
qed

lemma repeat_out_run:
  assumes "\<And>c. f c = run_option chk es c"
  shows "repeat_out n f c = (if n = 0 then Ret c else run_option chk (map_option (\<lambda>es. concat (replicate n es)) es) c)"
proof (cases es)
  case None
  then show ?thesis using assms by (cases n) (simp_all add: run_option_def)
next
  case (Some a)
  then have "f = run_count chk a" using assms by (simp add: fun_eq_iff run_option_def)
  moreover have "repeat_out n (run_count chk a) c = run_count chk (concat (replicate n a)) c"
  proof (induction n arbitrary: c)
    case (Suc n)
    then have "repeat_out n (run_count chk a) = run_count chk (concat (replicate n a))" by (simp add: fun_eq_iff)
    then show ?case by (simp add: run_count_append)
  qed simp
  ultimately show ?thesis using Some by (simp add: run_option_def)
qed

lemma traversal_layout_run: "traversal_layout chk tbl c = run_option chk (written_out tbl) c"
proof (induction tbl arbitrary: c rule: written_out.induct)
  case (1 tbl)
  show ?case
    unfolding traversal_layout.simps [of chk tbl c] written_out.simps [of tbl]
  proof (rule for_out_run, unfold Let_def)
    fix i c assume i: "i \<in> set [0..<length tbl]"
    let ?l = "tbl ! i"
    let ?sub = "drop (i - unat (group_entry_count ?l)) (take i tbl)"
    have zero: "unat (group_load_times ?l) = 0 \<longleftrightarrow> group_load_times ?l = 0" by (simp add: unsigned_eq_0_iff)
    show "(if \<not> is_group ?l then count_entry chk ?l c
        else repeat_out (unat (group_load_times ?l)) (\<lambda>c. if i < unat (group_entry_count ?l) then Panic else traversal_layout chk ?sub c) c) =
      run_option chk (if \<not> is_group ?l then Some [?l] else if group_load_times ?l = 0 then Some []
        else if i < unat (group_entry_count ?l) then None
        else map_option (\<lambda>es. concat (replicate (unat (group_load_times ?l)) es)) (written_out ?sub)) c"
    proof (cases "\<not> is_group ?l \<or> group_load_times ?l = 0")
      case True
      then show ?thesis by (auto simp: count_entry_run run_option_def)
    next
      case False
      then have pos: "unat (group_load_times ?l) \<noteq> 0" using zero by blast
      show ?thesis
      proof (cases "i < unat (group_entry_count ?l)")
        case True
        then show ?thesis
          using False repeat_out_run [of "\<lambda>_. Panic" chk None "unat (group_load_times ?l)" c] pos by (simp add: run_option_def)
      next
        case short: False
        have "traversal_layout chk ?sub c = run_option chk (written_out ?sub) c" for c
          by (rule 1) (use i False short in auto)
        from repeat_out_run [of "traversal_layout chk ?sub" chk "written_out ?sub" "unat (group_load_times ?l)" c, OF this]
        show ?thesis using False short pos by simp
      qed
    qed
  qed
qed

text \<open>
  C35: \<^verbatim>\<open>rsgx_get_tcs_num\<close> counts the thread control structures of the layout table with its groups written out, modulo the width of the counters; with overflow
  checks it panics when a counter does not fit, and always when the table has more than 42 entries or a group reaches before the
  table.
\<close>

theorem tcs_num_counts_layout:
  "rsgx_get_tcs_num chk D =
     (if 42 < unat (gd_layout_entry_num (g_global_data D)) then Panic
      else case written_out (take (unat (gd_layout_entry_num (g_global_data D))) (gd_layout_table (g_global_data D))) of
        None \<Rightarrow> Panic
      | Some es \<Rightarrow>
          if chk \<and> (2 ^ 32 \<le> how_many is_static_tcs es \<or> 2 ^ 32 \<le> how_many is_dyn_tcs es \<or> 2 ^ 32 \<le> how_many is_eremove_tcs es) then Panic
          else Ret (of_nat (how_many is_static_tcs es), of_nat (how_many is_eremove_tcs es), of_nat (how_many is_dyn_tcs es)))"
  by (auto simp: rsgx_get_tcs_num_def Let_def LAYOUT_ENTRY_NUM_def traversal_layout_run run_option_def run_count_def any_overflow_def
      overflows_def tally_def split: option.splits)

section \<open>Features\<close>

text \<open>
  The bits computed by \<^verbatim>\<open>get_feature_bit\<close> are the constants of \<^verbatim>\<open>sgx_types\<close>, feature by feature; the macro has one name for each
  feature but the two markers; and no feature lies in the reserved bits.
\<close>

lemma feature_tables_agree:
  "map (get_feature_bit \<circ> fst) CPU_FEATURE_constants = map snd CPU_FEATURE_constants"
  "map fst CPU_FEATURE_constants = tl (butlast features)"
  "map snd detected_names = tl (butlast features)" "distinct (map fst detected_names)"
  "list_all (\<lambda>f. get_feature_bit f AND RESERVED_CPU_FEATURE_BIT = 0) features"
  by code_simp+

end
