(* ===== verification/Sgx_Exception.thy ===== *)
theory Sgx_Exception
  imports Sgx_Enclave
begin

text \<open>
  Exception handlers, \<^verbatim>\<open>src/sgx_signal/src/exception.rs\<close>: a chain of closures behind one native handler. When all of them pass, the processor state is rewritten
  so that the thread goes on in \<^verbatim>\<open>exception_panic\<close>. What a closure does is a parameter; the lock of the chain is poisoned by a panic in the section that writes it.
\<close>

unbundle bit_operations_syntax

datatype ContinueType = Search | Execution

definition EXCEPTION_CONTINUE_SEARCH :: int where "EXCEPTION_CONTINUE_SEARCH = 0"
definition EXCEPTION_CONTINUE_EXECUTION :: int where "EXCEPTION_CONTINUE_EXECUTION = - 1"

definition ContinueType_into :: "ContinueType \<Rightarrow> int" where
  "ContinueType_into c = (case c of Search \<Rightarrow> EXCEPTION_CONTINUE_SEARCH | Execution \<Rightarrow> EXCEPTION_CONTINUE_EXECUTION)"

text \<open>The registers that the code uses; \<open>other_regs\<close> has the rest of \<^verbatim>\<open>sgx_cpu_context_t\<close>.\<close>

record sgx_cpu_context_t =
  rsp :: u64
  rsi :: u64
  rdi :: u64
  rip :: u64
  other_regs :: "u64 list"

datatype sgx_exception_vector_t = Vector_DE | Vector_DB | Vector_BP | Vector_BR | Vector_UD | Vector_GP | Vector_PF | Vector_MF | Vector_AC | Vector_XM | Vector_CP

definition vector_code :: "sgx_exception_vector_t \<Rightarrow> u32" where
  "vector_code v = (case v of Vector_DE \<Rightarrow> 0 | Vector_DB \<Rightarrow> 1 | Vector_BP \<Rightarrow> 3 | Vector_BR \<Rightarrow> 5 | Vector_UD \<Rightarrow> 6 | Vector_GP \<Rightarrow> 13
     | Vector_PF \<Rightarrow> 14 | Vector_MF \<Rightarrow> 16 | Vector_AC \<Rightarrow> 17 | Vector_XM \<Rightarrow> 19 | Vector_CP \<Rightarrow> 21)"

record sgx_exception_info_t =
  cpu_context :: sgx_cpu_context_t
  exception_vector :: sgx_exception_vector_t

record 'h ExceptionManager =
  exception_handler :: "(nat \<times> 'h) list"
  native_handle :: "addr option"
  handlers_poisoned :: bool

text \<open>\<open>stack\<close>: the words of the enclave's memory that \<^verbatim>\<open>panic_handler\<close> may write.\<close>

record ('h, 'w) exc_st =
  ex_global :: "'h ExceptionManager option"
  ex_counter :: nat
  stack :: "u64 \<Rightarrow> u64"
  ex_world :: 'w

record ('h, 'w) exc_ffi = "'w veh_ffi" +
  run_handler :: "'h \<Rightarrow> sgx_exception_info_t \<Rightarrow> 'w \<Rightarrow> (ContinueType \<times> sgx_exception_info_t) \<times> 'w"
  exception_panic :: u64

definition HandlerId_new :: "('h, 'w) exc_st \<Rightarrow> (nat \<times> ('h, 'w) exc_st) outcome" where
  "HandlerId_new s = (if ex_counter s = 2 ^ 64 - 1 then Panic else Ret (ex_counter s, s\<lparr>ex_counter := ex_counter s + 1\<rparr>))"

definition ExceptionManager_new :: "('h, 'w, 'z) exc_ffi_scheme \<Rightarrow> 'w \<Rightarrow> 'h ExceptionManager \<times> 'w" where
  "ExceptionManager_new P w =
     (case rsgx_register_exception_handler P 0 w of (h, w') \<Rightarrow>
        (\<lparr>exception_handler = [], native_handle = h, handlers_poisoned = False\<rparr>, w'))"

definition exc_ensure :: "('h, 'w, 'z) exc_ffi_scheme \<Rightarrow> ('h, 'w) exc_st \<Rightarrow> 'h ExceptionManager \<times> ('h, 'w) exc_st" where
  "exc_ensure P s =
     (case ex_global s of
        Some m \<Rightarrow> (m, s)
      | None \<Rightarrow> (case ExceptionManager_new P (ex_world s) of (m, w) \<Rightarrow> (m, s\<lparr>ex_global := Some m, ex_world := w\<rparr>)))"

text \<open>The panic of \<^verbatim>\<open>HandlerId::new\<close> happens while the chain is locked for writing.\<close>

datatype ('a, 's) with_unwind = Returned 'a 's | Unwinds 's

definition register_exception_impl ::
  "('h, 'w, 'z) exc_ffi_scheme \<Rightarrow> bool \<Rightarrow> 'h \<Rightarrow> ('h, 'w) exc_st \<Rightarrow> (nat option, ('h, 'w) exc_st) with_unwind" where
  "register_exception_impl P first handler s =
     (case exc_ensure P s of (m, s1) \<Rightarrow>
        if handlers_poisoned m then Returned None s1
        else case HandlerId_new s1 of
               Ret (handler_id, s2) \<Rightarrow>
                 Returned (Some handler_id)
                   (s2\<lparr>ex_global := Some (m\<lparr>exception_handler :=
                      (if first then (handler_id, handler) # exception_handler m else exception_handler m @ [(handler_id, handler)])\<rparr>)\<rparr>)
             | _ \<Rightarrow> Unwinds (s1\<lparr>ex_global := Some (m\<lparr>handlers_poisoned := True\<rparr>)\<rparr>))"

definition register_exception where "register_exception P is_first handler = register_exception_impl P is_first handler"

definition exc_register where "exc_register P handler = register_exception_impl P True handler"

definition exc_unregister :: "('h, 'w, 'z) exc_ffi_scheme \<Rightarrow> nat \<Rightarrow> ('h, 'w) exc_st \<Rightarrow> bool \<times> ('h, 'w) exc_st" where
  "exc_unregister P i s =
     (case exc_ensure P s of (m, s1) \<Rightarrow>
        if handlers_poisoned m then (False, s1)
        else (\<exists>n \<in> set (exception_handler m). fst n = i,
              s1\<lparr>ex_global := Some (m\<lparr>exception_handler := filter (\<lambda>n. fst n \<noteq> i) (exception_handler m)\<rparr>)\<rparr>))"

definition exc_drop :: "('h, 'w, 'z) exc_ffi_scheme \<Rightarrow> 'h ExceptionManager \<Rightarrow> 'w \<Rightarrow> 'h ExceptionManager \<times> 'w" where
  "exc_drop P m w =
     (case native_handle m of
        None \<Rightarrow> (m, w)
      | Some h \<Rightarrow>
          (m\<lparr>native_handle := None, exception_handler := (if handlers_poisoned m then exception_handler m else [])\<rparr>,
           snd (rsgx_unregister_exception_handler P h w)))"

text \<open>
  The stack pointer is lowered by a word and the faulting instruction pushed when it is a multiple of 16, as by a call; the subtraction wraps, or panics when it is checked.
\<close>

definition panic_handler ::
  "bool \<Rightarrow> ('h, 'w, 'z) exc_ffi_scheme \<Rightarrow> sgx_exception_info_t \<Rightarrow> ('h, 'w) exc_st \<Rightarrow> (ContinueType \<times> sgx_exception_info_t \<times> ('h, 'w) exc_st) outcome" where
  "panic_handler chk P info s =
     (let c = cpu_context info
      in if rsp c AND 0xF = 0 \<and> chk \<and> rsp c = 0 then Panic
         else let (c1, s1) = (if rsp c AND 0xF = 0 then (c\<lparr>rsp := rsp c - 8\<rparr>, s\<lparr>stack := (stack s)(rsp c - 8 := rip c)\<rparr>) else (c, s));
                  c2 = c1\<lparr>rdi := ucast (vector_code (exception_vector info)), rsi := rip c1, rip := exception_panic P\<rparr>
              in Ret (Execution, info\<lparr>cpu_context := c2\<rparr>, s1))"

text \<open>The name with which \<^verbatim>\<open>exception_panic\<close> panics.\<close>

definition exception_name :: "sgx_exception_vector_t \<Rightarrow> string" where
  "exception_name v = (case v of Vector_DE \<Rightarrow> ''#DE'' | Vector_DB \<Rightarrow> ''#DB'' | Vector_BP \<Rightarrow> ''#BP'' | Vector_BR \<Rightarrow> ''#BR'' | Vector_UD \<Rightarrow> ''#UD''
     | Vector_GP \<Rightarrow> ''#GP'' | Vector_PF \<Rightarrow> ''#PF'' | Vector_MF \<Rightarrow> ''#MF'' | Vector_AC \<Rightarrow> ''#AC'' | Vector_XM \<Rightarrow> ''#XM'' | Vector_CP \<Rightarrow> ''#CP'')"

text \<open>The loop over the chain: whether a handler took the exception.\<close>

fun run_chain ::
  "('h, 'w, 'z) exc_ffi_scheme \<Rightarrow> (nat \<times> 'h) list \<Rightarrow> sgx_exception_info_t \<Rightarrow> ('h, 'w) exc_st \<Rightarrow> bool \<times> sgx_exception_info_t \<times> ('h, 'w) exc_st" where
  "run_chain P [] info s = (False, info, s)"
| "run_chain P (h # hs) info s =
     (case run_handler P (snd h) info (ex_world s) of
        ((Search, info'), w) \<Rightarrow> run_chain P hs info' (s\<lparr>ex_world := w\<rparr>)
      | ((Execution, info'), w) \<Rightarrow> (True, info', s\<lparr>ex_world := w\<rparr>))"

definition native_exception_handler ::
  "bool \<Rightarrow> ('h, 'w, 'z) exc_ffi_scheme \<Rightarrow> sgx_exception_info_t \<Rightarrow> ('h, 'w) exc_st \<Rightarrow> (int \<times> sgx_exception_info_t \<times> ('h, 'w) exc_st) outcome" where
  "native_exception_handler chk P info s =
     (case ex_global s of
        None \<Rightarrow> Panic
      | Some m \<Rightarrow>
          (case (if handlers_poisoned m then (False, info, s) else run_chain P (exception_handler m) info s) of (taken, info', s') \<Rightarrow>
             if taken then Ret (EXCEPTION_CONTINUE_EXECUTION, info', s')
             else bind_out (panic_handler chk P info' s') (\<lambda>(c, info'', s''). Ret (ContinueType_into c, info'', s''))))"

section \<open>The chain\<close>

text \<open>What an application does to the chain, and the identifiers it gets.\<close>

datatype 'h exc_op = Reg bool 'h | Unreg nat

fun exc_step :: "('h, 'w, 'z) exc_ffi_scheme \<Rightarrow> 'h exc_op \<Rightarrow> ('h, 'w) exc_st \<Rightarrow> ('h, 'w) exc_st" where
  "exc_step P (Reg first h) s = (case register_exception P first h s of Returned _ s' \<Rightarrow> s' | Unwinds s' \<Rightarrow> s')"
| "exc_step P (Unreg i) s = snd (exc_unregister P i s)"

text \<open>The chain by itself: a list to which handlers are added at an end, with identifiers from 1.\<close>

fun chain_step :: "'h exc_op \<Rightarrow> (nat \<times> 'h) list \<times> nat \<Rightarrow> (nat \<times> 'h) list \<times> nat" where
  "chain_step (Reg first h) (c, n) = (if first then (n, h) # c else c @ [(n, h)], n + 1)"
| "chain_step (Unreg i) (c, n) = (filter (\<lambda>x. fst x \<noteq> i) c, n)"

definition exc_init :: "(u64 \<Rightarrow> u64) \<Rightarrow> 'w \<Rightarrow> ('h, 'w) exc_st" where
  "exc_init st w = \<lparr>ex_global = None, ex_counter = 1, stack = st, ex_world = w\<rparr>"

definition exc_rel :: "('h, 'w) exc_st \<Rightarrow> (nat \<times> 'h) list \<times> nat \<Rightarrow> bool" where
  "exc_rel s c \<longleftrightarrow> ex_counter s = snd c \<and> 1 \<le> snd c \<and> distinct (map fst (fst c)) \<and> (\<forall>x\<in>set (fst c). 1 \<le> fst x \<and> fst x < snd c) \<and>
     (case ex_global s of None \<Rightarrow> fst c = [] | Some m \<Rightarrow> exception_handler m = fst c \<and> \<not> handlers_poisoned m)"

lemma exc_step_rel:
  assumes "exc_rel s c" and "snd c < 2 ^ 64 - 1"
  shows "exc_rel (exc_step P op s) (chain_step op c)"
proof (cases op)
  case (Reg first h)
  then show ?thesis
    using assms
    by (cases c)
      (auto simp: exc_rel_def register_exception_def register_exception_impl_def exc_ensure_def ExceptionManager_new_def HandlerId_new_def
        split: prod.splits option.splits)
next
  case (Unreg i)
  then show ?thesis
    using assms
    by (cases c)
      (auto simp: exc_rel_def exc_unregister_def exc_ensure_def ExceptionManager_new_def distinct_map_filter
        split: prod.splits option.splits)
qed

lemma chain_step_counter: "snd (chain_step op c) \<le> snd c + 1"
  by (cases op; cases c) auto

lemma exc_run_rel:
  assumes "exc_rel s c" and "snd c + length ops < 2 ^ 64"
  shows "exc_rel (fold (exc_step P) ops s) (fold chain_step ops c)"
  using assms
proof (induction ops arbitrary: s c)
  case (Cons op ops)
  have "exc_rel (exc_step P op s) (chain_step op c)" by (rule exc_step_rel [OF Cons.prems(1)]) (use Cons.prems(2) in simp)
  moreover have "snd (chain_step op c) + length ops < 2 ^ 64"
    using chain_step_counter [of op c] Cons.prems(2) by simp
  ultimately show ?case using Cons.IH by simp
qed simp

lemma exc_rel_init: "exc_rel (exc_init st w) ([], 1)"
  by (simp add: exc_rel_def exc_init_def)

text \<open>
  C36: The chain of exception handlers refines a list to which handlers are added at either end and taken out by their identifiers: after any sequence of registrations and
  removals (up to the number of identifiers) the chain is that list, no two handlers have one identifier, and the lock is not poisoned.
\<close>

theorem exception_chain_refines:
  assumes "length ops < 2 ^ 64 - 1"
  shows "exc_rel (fold (exc_step P) ops (exc_init st w)) (fold chain_step ops ([], 1))"
  by (rule exc_run_rel [OF exc_rel_init]) (use assms in simp)

definition ffi_example :: "(nat, unit) exc_ffi" where
  "ffi_example = \<lparr>sgx_cpuid = (\<lambda>_ w. ((SGX_SUCCESS, [0, 0, 0, 0]), w)), sgx_cpuidex = (\<lambda>_ _ w. ((SGX_SUCCESS, [0, 0, 0, 0]), w)),
     sgx_register_exception_handler = (\<lambda>_ w. (1, w)), sgx_unregister_exception_handler = (\<lambda>_ w. (0, w)),
     run_handler = (\<lambda>h info w. ((Search, info), w)), exception_panic = 0x5000\<rparr>"

theorem exception_chain_refines_witness:
  "exc_rel (fold (exc_step ffi_example) [Reg True 5, Reg False 6, Unreg 1, Reg True 7] (exc_init (\<lambda>_. 0) ())) ([(3, 7), (2, 6)], 4)"
proof -
  let ?ops = "[Reg True 5, Reg False 6, Unreg 1, Reg True 7] :: nat exc_op list"
  have chain: "fold chain_step ?ops ([], 1) = ([(3, 7), (2, 6)], 4)" by code_simp
  have "length ?ops < 2 ^ 64 - 1" by simp
  from exception_chain_refines [OF this, of ffi_example "\<lambda>_. 0" "()"] show ?thesis unfolding chain .
qed

section \<open>Delivery\<close>

lemma run_chain_search:
  assumes "\<And>h info w. h \<in> snd ` set hs \<Longrightarrow> fst (run_handler P h info w) = (Search, info)"
  shows "\<exists>w. run_chain P hs info s = (False, info, s\<lparr>ex_world := w\<rparr>)"
  using assms
proof (induction hs arbitrary: s)
  case Nil
  then show ?case by (intro exI [of _ "ex_world s"]) simp
next
  case (Cons h hs)
  obtain w where "run_handler P (snd h) info (ex_world s) = ((Search, info), w)"
    using Cons.prems [of "snd h" info "ex_world s"] by (metis image_eqI list.set_intros(1) prod.collapse)
  then show ?case using Cons.IH [of "s\<lparr>ex_world := w\<rparr>"] Cons.prems by simp
qed

lemma and_15: "(x :: u64) AND 0xF = 0 \<longleftrightarrow> 16 dvd unat x"
proof -
  have "(0xF :: u64) = mask 4" by (simp add: mask_eq_exp_minus_1)
  then have "x AND 0xF = take_bit 4 x" by (simp only: take_bit_eq_mask)
  then have "x AND 0xF = 0 \<longleftrightarrow> unat (take_bit 4 x) = 0" by (simp add: unsigned_eq_0_iff)
  also have "unat (take_bit 4 x) = unat x mod 16" by (simp add: unsigned_take_bit_eq take_bit_eq_mod unat_mod)
  finally show ?thesis by (simp add: dvd_eq_mod_eq_0)
qed

text \<open>
  C37: An exception that no handler takes is not lost. The native handler always asks to continue; the thread goes on in \<^verbatim>\<open>exception_panic\<close> with the vector and the
  faulting instruction as arguments and the stack aligned as at the entry of a function, whether or not it was aligned as for a call; the other registers are
  kept, and at most one word is written, below the stack.
\<close>

theorem untaken_exception_panics:
  assumes "ex_global s = Some m" and "\<not> handlers_poisoned m"
    and "\<And>h info w. h \<in> snd ` set (exception_handler m) \<Longrightarrow> fst (run_handler P h info w) = (Search, info)"
    and "8 dvd unat (rsp (cpu_context info))" and "16 \<le> unat (rsp (cpu_context info))"
  shows "\<exists>info' s'. native_exception_handler chk P info s = Ret (EXCEPTION_CONTINUE_EXECUTION, info', s') \<and>
    rip (cpu_context info') = exception_panic P \<and> rdi (cpu_context info') = ucast (vector_code (exception_vector info)) \<and>
    rsi (cpu_context info') = rip (cpu_context info) \<and> other_regs (cpu_context info') = other_regs (cpu_context info) \<and>
    unat (rsp (cpu_context info')) mod 16 = 8 \<and> unat (rsp (cpu_context info')) \<le> unat (rsp (cpu_context info)) \<and>
    (\<forall>a. a \<noteq> rsp (cpu_context info) - 8 \<longrightarrow> stack s' a = stack s a)"
proof -
  let ?c = "cpu_context info"
  obtain w where chain: "run_chain P (exception_handler m) info s = (False, info, s\<lparr>ex_world := w\<rparr>)"
    using run_chain_search [OF assms(3)] by blast
  have run: "native_exception_handler chk P info s =
      bind_out (panic_handler chk P info (s\<lparr>ex_world := w\<rparr>)) (\<lambda>(c, info'', s''). Ret (ContinueType_into c, info'', s''))"
    using assms(1,2) chain by (simp add: native_exception_handler_def)
  have nz: "rsp ?c \<noteq> 0" using assms(5) by auto
  show ?thesis
  proof (cases "16 dvd unat (rsp ?c)")
    case True
    have sub: "unat (rsp ?c - 8) = unat (rsp ?c) - 8" using assms(5) by (intro unat_sub [THEN trans]) (simp_all add: word_le_nat_alt)
    obtain q where q: "unat (rsp ?c) = 16 * q" using True by (rule dvdE)
    have "(16 * q - 8) mod 16 = 8"
    proof -
      have "16 * q - 8 = 8 + 16 * (q - 1)" using assms(5) q by (cases q) auto
      then show ?thesis by simp
    qed
    then show ?thesis
      using run True nz sub q by (simp add: panic_handler_def and_15 ContinueType_into_def Let_def)
  next
    case False
    have "unat (rsp ?c) mod 16 = 8"
    proof -
      obtain q where q: "unat (rsp ?c) = 8 * q" using assms(4) by (rule dvdE)
      have "odd q"
      proof
        assume "even q"
        then obtain r where "q = 2 * r" by (rule evenE)
        then show False using False q by simp
      qed
      then obtain r where "q = 2 * r + 1" by (rule oddE)
      then have "unat (rsp ?c) = 8 + 16 * r" using q by simp
      then show ?thesis by simp
    qed
    then show ?thesis
      using run False by (simp add: panic_handler_def and_15 ContinueType_into_def Let_def)
  qed
qed

definition info_example :: sgx_exception_info_t where
  "info_example = \<lparr>cpu_context = \<lparr>rsp = 0x7000, rsi = 0, rdi = 0, rip = 0x4000, other_regs = []\<rparr>, exception_vector = Vector_UD\<rparr>"

definition manager_example :: "nat ExceptionManager" where
  "manager_example = \<lparr>exception_handler = [(1, 5)], native_handle = Some 1, handlers_poisoned = False\<rparr>"

definition exc_example :: "(nat, unit) exc_st" where
  "exc_example = \<lparr>ex_global = Some manager_example, ex_counter = 2, stack = (\<lambda>_. 0), ex_world = ()\<rparr>"

theorem untaken_exception_panics_witness:
  "\<exists>info' s'. native_exception_handler True ffi_example info_example exc_example = Ret (EXCEPTION_CONTINUE_EXECUTION, info', s') \<and>
    rip (cpu_context info') = 0x5000 \<and> rdi (cpu_context info') = 6 \<and> rsi (cpu_context info') = 0x4000"
proof -
  have "\<And>h info w. fst (run_handler ffi_example h info w) = (Search, info)" by (simp add: ffi_example_def)
  moreover have "ex_global exc_example = Some manager_example" "\<not> handlers_poisoned manager_example"
    by (simp_all add: exc_example_def manager_example_def)
  moreover have "8 dvd unat (rsp (cpu_context info_example))" "16 \<le> unat (rsp (cpu_context info_example))"
    by (simp_all add: info_example_def)
  ultimately show ?thesis
    using untaken_exception_panics [of exc_example manager_example ffi_example info_example True]
    by (auto simp: info_example_def ffi_example_def vector_code_def)
qed

end
