(* ===== verification/Sgx_Net.thy ===== *)
theory Sgx_Net
  imports Sgx_Prelude
begin

text \<open>
  Internet addresses, \<^verbatim>\<open>src/sgx_tstd/src/net/ip.rs\<close> and \<^verbatim>\<open>addr.rs\<close>: addresses with their conversions and classes, socket addresses over the structures of the
  C library, and how all of them are printed, with and without a width. The parser is in \<open>Sgx_Net_Parser\<close>.
\<close>

unbundle bit_operations_syntax

section \<open>Addresses\<close>

text \<open>
  \<^verbatim>\<open>in_addr\<close> has the four bytes as a native (here: little-endian) number, \<^verbatim>\<open>in6_addr\<close> an array of 16 bytes; \<open>wf_ipv6\<close> is the length of the array.
\<close>

datatype Ipv4Addr = Ipv4Addr (s_addr: u32)
datatype Ipv6Addr = Ipv6Addr (s6_addr: bytes)
datatype IpAddr = IpV4 Ipv4Addr | IpV6 Ipv6Addr

definition wf_ipv6 :: "Ipv6Addr \<Rightarrow> bool" where "wf_ipv6 a \<longleftrightarrow> length (s6_addr a) = 16"

fun wf_ip :: "IpAddr \<Rightarrow> bool" where
  "wf_ip (IpV4 _) = True"
| "wf_ip (IpV6 a) = wf_ipv6 a"

text \<open>Conversions of numbers: \<^verbatim>\<open>from_ne_bytes\<close>, \<^verbatim>\<open>from_be_bytes\<close>, and \<^verbatim>\<open>u16::to_be\<close>, which is also \<^verbatim>\<open>from_be\<close>.\<close>

definition u32_from_ne_bytes :: "bytes \<Rightarrow> u32" where "u32_from_ne_bytes bs = word_of_nat (le_val bs)"
definition u32_to_ne_bytes :: "u32 \<Rightarrow> bytes" where "u32_to_ne_bytes x = le_bytes 4 (unat x)"
definition be_val :: "bytes \<Rightarrow> nat" where "be_val bs = le_val (rev bs)"
definition be_bytes :: "nat \<Rightarrow> nat \<Rightarrow> bytes" where "be_bytes n v = rev (le_bytes n v)"
definition u16_to_be :: "u16 \<Rightarrow> u16" where "u16_to_be x = word_of_nat (le_val (be_bytes 2 (unat x)))"

definition Ipv4Addr_new :: "u8 \<Rightarrow> u8 \<Rightarrow> u8 \<Rightarrow> u8 \<Rightarrow> Ipv4Addr" where
  "Ipv4Addr_new a b c d = Ipv4Addr (u32_from_ne_bytes [a, b, c, d])"

definition ipv4_octets :: "Ipv4Addr \<Rightarrow> bytes" where "ipv4_octets ip = u32_to_ne_bytes (s_addr ip)"

definition Ipv4Addr_from_octets :: "bytes \<Rightarrow> Ipv4Addr" where
  "Ipv4Addr_from_octets os = Ipv4Addr_new (os ! 0) (os ! 1) (os ! 2) (os ! 3)"

definition u32_from_Ipv4Addr :: "Ipv4Addr \<Rightarrow> u32" where "u32_from_Ipv4Addr ip = word_of_nat (be_val (ipv4_octets ip))"
definition Ipv4Addr_from_u32 :: "u32 \<Rightarrow> Ipv4Addr" where "Ipv4Addr_from_u32 ip = Ipv4Addr_from_octets (be_bytes 4 (unat ip))"

definition Ipv4Addr_LOCALHOST where "Ipv4Addr_LOCALHOST = Ipv4Addr_new 127 0 0 1"
definition Ipv4Addr_UNSPECIFIED where "Ipv4Addr_UNSPECIFIED = Ipv4Addr_new 0 0 0 0"
definition Ipv4Addr_BROADCAST where "Ipv4Addr_BROADCAST = Ipv4Addr_new 255 255 255 255"

text \<open>The array of eight numbers in network order is reinterpreted as bytes, and back.\<close>

definition Ipv6Addr_from_segments :: "u16 list \<Rightarrow> Ipv6Addr" where
  "Ipv6Addr_from_segments segments = (let addr16 = map u16_to_be segments in Ipv6Addr (concat (map (\<lambda>x. le_bytes 2 (unat x)) addr16)))"

definition Ipv6Addr_new :: "u16 \<Rightarrow> u16 \<Rightarrow> u16 \<Rightarrow> u16 \<Rightarrow> u16 \<Rightarrow> u16 \<Rightarrow> u16 \<Rightarrow> u16 \<Rightarrow> Ipv6Addr" where
  "Ipv6Addr_new a b c d e f g h = Ipv6Addr_from_segments [a, b, c, d, e, f, g, h]"

definition ipv6_octets :: "Ipv6Addr \<Rightarrow> bytes" where "ipv6_octets ip = s6_addr ip"

definition ipv6_segments :: "Ipv6Addr \<Rightarrow> u16 list" where
  "ipv6_segments ip = map (\<lambda>i. u16_to_be (word_of_nat (le_val (bslice (2 * i) 2 (s6_addr ip))))) [0..<8]"

definition Ipv6Addr_LOCALHOST where "Ipv6Addr_LOCALHOST = Ipv6Addr_new 0 0 0 0 0 0 0 1"
definition Ipv6Addr_UNSPECIFIED where "Ipv6Addr_UNSPECIFIED = Ipv6Addr_new 0 0 0 0 0 0 0 0"

definition u128_from_Ipv6Addr :: "Ipv6Addr \<Rightarrow> 128 word" where "u128_from_Ipv6Addr ip = word_of_nat (be_val (ipv6_octets ip))"
definition Ipv6Addr_from_u128 :: "128 word \<Rightarrow> Ipv6Addr" where "Ipv6Addr_from_u128 ip = Ipv6Addr (be_bytes 16 (unat ip))"

section \<open>Classes of addresses\<close>

definition ipv4_is_unspecified :: "Ipv4Addr \<Rightarrow> bool" where "ipv4_is_unspecified ip \<longleftrightarrow> s_addr ip = 0"
definition ipv4_is_loopback :: "Ipv4Addr \<Rightarrow> bool" where "ipv4_is_loopback ip \<longleftrightarrow> ipv4_octets ip ! 0 = 127"

definition ipv4_is_private :: "Ipv4Addr \<Rightarrow> bool" where
  "ipv4_is_private ip \<longleftrightarrow>
     (let os = ipv4_octets ip
      in if os ! 0 = 10 then True
         else if os ! 0 = 172 \<and> os ! 1 \<ge> 16 \<and> os ! 1 \<le> 31 then True
         else os ! 0 = 192 \<and> os ! 1 = 168)"

definition ipv4_is_link_local :: "Ipv4Addr \<Rightarrow> bool" where
  "ipv4_is_link_local ip \<longleftrightarrow> ipv4_octets ip ! 0 = 169 \<and> ipv4_octets ip ! 1 = 254"

definition ipv4_is_shared :: "Ipv4Addr \<Rightarrow> bool" where
  "ipv4_is_shared ip \<longleftrightarrow> ipv4_octets ip ! 0 = 100 \<and> ipv4_octets ip ! 1 AND 0xC0 = 0x40"

definition ipv4_is_benchmarking :: "Ipv4Addr \<Rightarrow> bool" where
  "ipv4_is_benchmarking ip \<longleftrightarrow> ipv4_octets ip ! 0 = 198 \<and> ipv4_octets ip ! 1 AND 0xFE = 18"

definition ipv4_is_broadcast :: "Ipv4Addr \<Rightarrow> bool" where
  "ipv4_is_broadcast ip \<longleftrightarrow> be_val (ipv4_octets ip) = be_val (ipv4_octets Ipv4Addr_BROADCAST)"

definition ipv4_is_reserved :: "Ipv4Addr \<Rightarrow> bool" where
  "ipv4_is_reserved ip \<longleftrightarrow> ipv4_octets ip ! 0 AND 240 = 240 \<and> \<not> ipv4_is_broadcast ip"

definition ipv4_is_multicast :: "Ipv4Addr \<Rightarrow> bool" where
  "ipv4_is_multicast ip \<longleftrightarrow> ipv4_octets ip ! 0 \<ge> 224 \<and> ipv4_octets ip ! 0 \<le> 239"

definition ipv4_is_documentation :: "Ipv4Addr \<Rightarrow> bool" where
  "ipv4_is_documentation ip \<longleftrightarrow> take 3 (ipv4_octets ip) \<in> {[192, 0, 2], [198, 51, 100], [203, 0, 113]}"

definition ipv4_is_global :: "Ipv4Addr \<Rightarrow> bool" where
  "ipv4_is_global ip \<longleftrightarrow>
     (let os = ipv4_octets ip
      in if be_val os = 0xC0000009 \<or> be_val os = 0xC000000A then True
         else \<not> ipv4_is_private ip \<and> \<not> ipv4_is_loopback ip \<and> \<not> ipv4_is_link_local ip \<and> \<not> ipv4_is_broadcast ip
            \<and> \<not> ipv4_is_documentation ip \<and> \<not> ipv4_is_shared ip \<and> \<not> (os ! 0 = 192 \<and> os ! 1 = 0 \<and> os ! 2 = 0)
            \<and> \<not> ipv4_is_reserved ip \<and> \<not> ipv4_is_benchmarking ip \<and> os ! 0 \<noteq> 0)"

definition to_ipv6_compatible :: "Ipv4Addr \<Rightarrow> Ipv6Addr" where "to_ipv6_compatible ip = Ipv6Addr (zeros 12 @ ipv4_octets ip)"
definition to_ipv6_mapped :: "Ipv4Addr \<Rightarrow> Ipv6Addr" where "to_ipv6_mapped ip = Ipv6Addr (zeros 10 @ [0xFF, 0xFF] @ ipv4_octets ip)"

definition ipv6_is_unspecified :: "Ipv6Addr \<Rightarrow> bool" where
  "ipv6_is_unspecified ip \<longleftrightarrow> be_val (ipv6_octets ip) = be_val (ipv6_octets Ipv6Addr_UNSPECIFIED)"

definition ipv6_is_loopback :: "Ipv6Addr \<Rightarrow> bool" where
  "ipv6_is_loopback ip \<longleftrightarrow> be_val (ipv6_octets ip) = be_val (ipv6_octets Ipv6Addr_LOCALHOST)"

definition ipv6_is_unique_local :: "Ipv6Addr \<Rightarrow> bool" where "ipv6_is_unique_local ip \<longleftrightarrow> ipv6_segments ip ! 0 AND 0xFE00 = 0xFC00"
definition ipv6_is_multicast :: "Ipv6Addr \<Rightarrow> bool" where "ipv6_is_multicast ip \<longleftrightarrow> ipv6_segments ip ! 0 AND 0xFF00 = 0xFF00"
definition ipv6_is_unicast :: "Ipv6Addr \<Rightarrow> bool" where "ipv6_is_unicast ip \<longleftrightarrow> \<not> ipv6_is_multicast ip"
definition ipv6_is_unicast_link_local :: "Ipv6Addr \<Rightarrow> bool" where "ipv6_is_unicast_link_local ip \<longleftrightarrow> ipv6_segments ip ! 0 AND 0xFFC0 = 0xFE80"

definition ipv6_is_documentation :: "Ipv6Addr \<Rightarrow> bool" where
  "ipv6_is_documentation ip \<longleftrightarrow> ipv6_segments ip ! 0 = 0x2001 \<and> ipv6_segments ip ! 1 = 0xDB8"

definition ipv6_is_benchmarking :: "Ipv6Addr \<Rightarrow> bool" where
  "ipv6_is_benchmarking ip \<longleftrightarrow> ipv6_segments ip ! 0 = 0x2001 \<and> ipv6_segments ip ! 1 = 2 \<and> ipv6_segments ip ! 2 = 0"

definition ipv6_is_unicast_global :: "Ipv6Addr \<Rightarrow> bool" where
  "ipv6_is_unicast_global ip \<longleftrightarrow> ipv6_is_unicast ip \<and> \<not> ipv6_is_loopback ip \<and> \<not> ipv6_is_unicast_link_local ip
     \<and> \<not> ipv6_is_unique_local ip \<and> \<not> ipv6_is_unspecified ip \<and> \<not> ipv6_is_documentation ip"

datatype Ipv6MulticastScope = InterfaceLocal | LinkLocal | RealmLocal | AdminLocal | SiteLocal | OrganizationLocal | Global

definition multicast_scope :: "Ipv6Addr \<Rightarrow> Ipv6MulticastScope option" where
  "multicast_scope ip =
     (if ipv6_is_multicast ip
      then map_of [(1, InterfaceLocal), (2, LinkLocal), (3, RealmLocal), (4, AdminLocal), (5, SiteLocal), (8, OrganizationLocal), (14, Global)]
             (ipv6_segments ip ! 0 AND 0x000F)
      else None)"

definition ipv6_is_global :: "Ipv6Addr \<Rightarrow> bool" where
  "ipv6_is_global ip \<longleftrightarrow>
     (case multicast_scope ip of Some Global \<Rightarrow> True | None \<Rightarrow> ipv6_is_unicast_global ip | _ \<Rightarrow> False)"

definition to_ipv4_mapped :: "Ipv6Addr \<Rightarrow> Ipv4Addr option" where
  "to_ipv4_mapped ip =
     (let os = ipv6_octets ip in if take 12 os = zeros 10 @ [0xFF, 0xFF] then Some (Ipv4Addr_from_octets (drop 12 os)) else None)"

definition to_ipv4 :: "Ipv6Addr \<Rightarrow> Ipv4Addr option" where
  "to_ipv4 ip =
     (let segs = ipv6_segments ip
      in if take 5 segs = replicate 5 0 \<and> segs ! 5 \<in> {0, 0xFFFF}
         then let ab = be_bytes 2 (unat (segs ! 6)); cd = be_bytes 2 (unat (segs ! 7))
              in Some (Ipv4Addr_new (ab ! 0) (ab ! 1) (cd ! 0) (cd ! 1))
         else None)"

definition ipv6_to_canonical :: "Ipv6Addr \<Rightarrow> IpAddr" where
  "ipv6_to_canonical ip = (case to_ipv4_mapped ip of Some mapped \<Rightarrow> IpV4 mapped | None \<Rightarrow> IpV6 ip)"

fun ip_to_canonical :: "IpAddr \<Rightarrow> IpAddr" where
  "ip_to_canonical (IpV4 v4) = IpV4 v4"
| "ip_to_canonical (IpV6 v6) = ipv6_to_canonical v6"

definition on_ip :: "(Ipv4Addr \<Rightarrow> 'a) \<Rightarrow> (Ipv6Addr \<Rightarrow> 'a) \<Rightarrow> IpAddr \<Rightarrow> 'a" where
  "on_ip f g ip = (case ip of IpV4 a \<Rightarrow> f a | IpV6 a \<Rightarrow> g a)"

definition ip_is_unspecified where "ip_is_unspecified = on_ip ipv4_is_unspecified ipv6_is_unspecified"
definition ip_is_loopback where "ip_is_loopback = on_ip ipv4_is_loopback ipv6_is_loopback"
definition ip_is_global where "ip_is_global = on_ip ipv4_is_global ipv6_is_global"
definition ip_is_multicast where "ip_is_multicast = on_ip ipv4_is_multicast ipv6_is_multicast"
definition ip_is_documentation where "ip_is_documentation = on_ip ipv4_is_documentation ipv6_is_documentation"
definition ip_is_benchmarking where "ip_is_benchmarking = on_ip ipv4_is_benchmarking ipv6_is_benchmarking"
definition ip_is_ipv4 where "ip_is_ipv4 = on_ip (\<lambda>_. True) (\<lambda>_. False)"
definition ip_is_ipv6 where "ip_is_ipv6 = on_ip (\<lambda>_. False) (\<lambda>_. True)"

section \<open>Order\<close>

datatype Ordering = Less | Equal | Greater

definition compare_nat :: "nat \<Rightarrow> nat \<Rightarrow> Ordering" where
  "compare_nat m n = (if m < n then Less else if m = n then Equal else Greater)"

fun compare_list :: "nat list \<Rightarrow> nat list \<Rightarrow> Ordering" where
  "compare_list [] [] = Equal"
| "compare_list [] (_ # _) = Less"
| "compare_list (_ # _) [] = Greater"
| "compare_list (x # xs) (y # ys) = (case compare_nat x y of Equal \<Rightarrow> compare_list xs ys | r \<Rightarrow> r)"

definition ord_then :: "Ordering \<Rightarrow> Ordering \<Rightarrow> Ordering" where
  "ord_then r r' = (case r of Equal \<Rightarrow> r' | _ \<Rightarrow> r)"

text \<open>\<^verbatim>\<open>u32::from_be\<close> swaps the bytes of the stored number.\<close>

definition ipv4_cmp :: "Ipv4Addr \<Rightarrow> Ipv4Addr \<Rightarrow> Ordering" where
  "ipv4_cmp a b = compare_nat (be_val (u32_to_ne_bytes (s_addr a))) (be_val (u32_to_ne_bytes (s_addr b)))"

definition ipv6_cmp :: "Ipv6Addr \<Rightarrow> Ipv6Addr \<Rightarrow> Ordering" where
  "ipv6_cmp a b = compare_list (map unat (ipv6_segments a)) (map unat (ipv6_segments b))"

definition ip_cmp :: "IpAddr \<Rightarrow> IpAddr \<Rightarrow> Ordering" where
  "ip_cmp a b =
     (case (a, b) of (IpV4 x, IpV4 y) \<Rightarrow> ipv4_cmp x y | (IpV6 x, IpV6 y) \<Rightarrow> ipv6_cmp x y | (IpV4 _, IpV6 _) \<Rightarrow> Less | (IpV6 _, IpV4 _) \<Rightarrow> Greater)"

section \<open>Socket addresses\<close>

record sockaddr_in =
  sin_family :: u16
  sin_port :: u16
  sin_addr :: u32
  sin_zero :: bytes

record sockaddr_in6 =
  sin6_family :: u16
  sin6_port :: u16
  sin6_flowinfo :: u32
  sin6_addr :: bytes
  sin6_scope_id :: u32

datatype SocketAddrV4 = SocketAddrV4 (inner4: sockaddr_in)
datatype SocketAddrV6 = SocketAddrV6 (inner6: sockaddr_in6)
datatype SocketAddr = SockV4 SocketAddrV4 | SockV6 SocketAddrV6

definition AF_INET :: u16 where "AF_INET = 2"
definition AF_INET6 :: u16 where "AF_INET6 = 10"

definition htons :: "u16 \<Rightarrow> u16" where "htons i = u16_to_be i"
definition ntohs :: "u16 \<Rightarrow> u16" where "ntohs i = u16_to_be i"

definition SocketAddrV4_new :: "Ipv4Addr \<Rightarrow> u16 \<Rightarrow> SocketAddrV4" where
  "SocketAddrV4_new ip port = SocketAddrV4 \<lparr>sin_family = AF_INET, sin_port = htons port, sin_addr = s_addr ip, sin_zero = zeros 8\<rparr>"

definition v4_ip :: "SocketAddrV4 \<Rightarrow> Ipv4Addr" where "v4_ip a = Ipv4Addr (sin_addr (inner4 a))"
definition v4_set_ip :: "Ipv4Addr \<Rightarrow> SocketAddrV4 \<Rightarrow> SocketAddrV4" where "v4_set_ip ip a = SocketAddrV4 ((inner4 a)\<lparr>sin_addr := s_addr ip\<rparr>)"
definition v4_port :: "SocketAddrV4 \<Rightarrow> u16" where "v4_port a = ntohs (sin_port (inner4 a))"
definition v4_set_port :: "u16 \<Rightarrow> SocketAddrV4 \<Rightarrow> SocketAddrV4" where "v4_set_port p a = SocketAddrV4 ((inner4 a)\<lparr>sin_port := htons p\<rparr>)"

definition SocketAddrV6_new :: "Ipv6Addr \<Rightarrow> u16 \<Rightarrow> u32 \<Rightarrow> u32 \<Rightarrow> SocketAddrV6" where
  "SocketAddrV6_new ip port flowinfo scope_id =
     SocketAddrV6 \<lparr>sin6_family = AF_INET6, sin6_port = htons port, sin6_flowinfo = flowinfo, sin6_addr = s6_addr ip, sin6_scope_id = scope_id\<rparr>"

definition v6_ip :: "SocketAddrV6 \<Rightarrow> Ipv6Addr" where "v6_ip a = Ipv6Addr (sin6_addr (inner6 a))"
definition v6_set_ip :: "Ipv6Addr \<Rightarrow> SocketAddrV6 \<Rightarrow> SocketAddrV6" where "v6_set_ip ip a = SocketAddrV6 ((inner6 a)\<lparr>sin6_addr := s6_addr ip\<rparr>)"
definition v6_port :: "SocketAddrV6 \<Rightarrow> u16" where "v6_port a = ntohs (sin6_port (inner6 a))"
definition v6_set_port :: "u16 \<Rightarrow> SocketAddrV6 \<Rightarrow> SocketAddrV6" where "v6_set_port p a = SocketAddrV6 ((inner6 a)\<lparr>sin6_port := htons p\<rparr>)"
definition v6_flowinfo :: "SocketAddrV6 \<Rightarrow> u32" where "v6_flowinfo a = sin6_flowinfo (inner6 a)"
definition v6_set_flowinfo :: "u32 \<Rightarrow> SocketAddrV6 \<Rightarrow> SocketAddrV6" where "v6_set_flowinfo n a = SocketAddrV6 ((inner6 a)\<lparr>sin6_flowinfo := n\<rparr>)"
definition v6_scope_id :: "SocketAddrV6 \<Rightarrow> u32" where "v6_scope_id a = sin6_scope_id (inner6 a)"
definition v6_set_scope_id :: "u32 \<Rightarrow> SocketAddrV6 \<Rightarrow> SocketAddrV6" where "v6_set_scope_id n a = SocketAddrV6 ((inner6 a)\<lparr>sin6_scope_id := n\<rparr>)"

definition SocketAddr_new :: "IpAddr \<Rightarrow> u16 \<Rightarrow> SocketAddr" where
  "SocketAddr_new ip port =
     (case ip of IpV4 a \<Rightarrow> SockV4 (SocketAddrV4_new a port) | IpV6 a \<Rightarrow> SockV6 (SocketAddrV6_new a port 0 0))"

fun sock_ip :: "SocketAddr \<Rightarrow> IpAddr" where
  "sock_ip (SockV4 a) = IpV4 (v4_ip a)"
| "sock_ip (SockV6 a) = IpV6 (v6_ip a)"

fun sock_port :: "SocketAddr \<Rightarrow> u16" where
  "sock_port (SockV4 a) = v4_port a"
| "sock_port (SockV6 a) = v6_port a"

fun sock_set_ip :: "IpAddr \<Rightarrow> SocketAddr \<Rightarrow> SocketAddr" where
  "sock_set_ip (IpV4 ip) (SockV4 a) = SockV4 (v4_set_ip ip a)"
| "sock_set_ip (IpV6 ip) (SockV6 a) = SockV6 (v6_set_ip ip a)"
| "sock_set_ip ip a = SocketAddr_new ip (sock_port a)"

fun sock_set_port :: "u16 \<Rightarrow> SocketAddr \<Rightarrow> SocketAddr" where
  "sock_set_port p (SockV4 a) = SockV4 (v4_set_port p a)"
| "sock_set_port p (SockV6 a) = SockV6 (v6_set_port p a)"

text \<open>\<^verbatim>\<open>PartialEq\<close> and \<^verbatim>\<open>Ord\<close>: the family and the filler are not compared, and the order of IPv6 leaves out the flow and the scope.\<close>

definition v4_eq :: "SocketAddrV4 \<Rightarrow> SocketAddrV4 \<Rightarrow> bool" where
  "v4_eq a b \<longleftrightarrow> sin_port (inner4 a) = sin_port (inner4 b) \<and> sin_addr (inner4 a) = sin_addr (inner4 b)"

definition v6_eq :: "SocketAddrV6 \<Rightarrow> SocketAddrV6 \<Rightarrow> bool" where
  "v6_eq a b \<longleftrightarrow> sin6_port (inner6 a) = sin6_port (inner6 b) \<and> sin6_addr (inner6 a) = sin6_addr (inner6 b)
     \<and> sin6_flowinfo (inner6 a) = sin6_flowinfo (inner6 b) \<and> sin6_scope_id (inner6 a) = sin6_scope_id (inner6 b)"

fun sock_eq :: "SocketAddr \<Rightarrow> SocketAddr \<Rightarrow> bool" where
  "sock_eq (SockV4 a) (SockV4 b) = v4_eq a b"
| "sock_eq (SockV6 a) (SockV6 b) = v6_eq a b"
| "sock_eq _ _ = False"

definition v4_cmp :: "SocketAddrV4 \<Rightarrow> SocketAddrV4 \<Rightarrow> Ordering" where
  "v4_cmp a b = ord_then (ipv4_cmp (v4_ip a) (v4_ip b)) (compare_nat (unat (v4_port a)) (unat (v4_port b)))"

definition v6_cmp :: "SocketAddrV6 \<Rightarrow> SocketAddrV6 \<Rightarrow> Ordering" where
  "v6_cmp a b = ord_then (ipv6_cmp (v6_ip a) (v6_ip b)) (compare_nat (unat (v6_port a)) (unat (v6_port b)))"

section \<open>Printing\<close>

text \<open>Numbers in a base, as \<^verbatim>\<open>{}\<close> and \<^verbatim>\<open>{:x}\<close> print them.\<close>

definition digit_char :: "nat \<Rightarrow> char" where "digit_char d = ''0123456789abcdef'' ! d"

fun fmt_number :: "nat \<Rightarrow> nat \<Rightarrow> string" where
  "fmt_number base n = (if n < base \<or> base < 2 then [digit_char n] else fmt_number base (n div base) @ [digit_char (n mod base)])"

declare fmt_number.simps [simp del]

abbreviation fmt_dec :: "'a::len word \<Rightarrow> string" where "fmt_dec w \<equiv> fmt_number 10 (unat w)"
abbreviation fmt_hex :: "'a::len word \<Rightarrow> string" where "fmt_hex w \<equiv> fmt_number 16 (unat w)"

text \<open>
  A \<^verbatim>\<open>Formatter\<close> of the standard library: \<open>fill\<close> is the encoded character. \<open>pad\<close> truncates to the precision and fills up to the width (the text is ASCII:
  characters are bytes).
\<close>

datatype Alignment = Align_Left | Align_Right | Align_Center | Align_Unknown

record Formatter =
  fwidth :: "nat option"
  fprecision :: "nat option"
  ffill :: string
  falign :: Alignment

definition pad :: "Formatter \<Rightarrow> string \<Rightarrow> string" where
  "pad f s =
     (let t = (case fprecision f of Some n \<Rightarrow> take n s | None \<Rightarrow> s)
      in case fwidth f of
           None \<Rightarrow> t
         | Some w \<Rightarrow>
             if length t \<ge> w then t
             else let p = w - length t;
                      pre = (case falign f of Align_Left \<Rightarrow> 0 | Align_Unknown \<Rightarrow> 0 | Align_Right \<Rightarrow> p | Align_Center \<Rightarrow> p div 2)
                  in concat (replicate pre (ffill f)) @ t @ concat (replicate (p - pre) (ffill f)))"

definition direct :: "Formatter \<Rightarrow> bool" where "direct f \<longleftrightarrow> fprecision f = None \<and> fwidth f = None"

text \<open>Writing into a buffer of a fixed size, whose failure is unwrapped; then what was written is padded.\<close>

definition write_unwrap :: "nat \<Rightarrow> string \<Rightarrow> string outcome" where
  "write_unwrap cap s = (if length s \<le> cap then Ret s else Panic)"

definition fmt_through :: "nat \<Rightarrow> Formatter \<Rightarrow> string outcome \<Rightarrow> string outcome" where
  "fmt_through cap f s =
     (if direct f then s else bind_out s (\<lambda>s. bind_out (write_unwrap cap s) (\<lambda>buf. Ret (pad f buf))))"

definition ipv4_string :: "Ipv4Addr \<Rightarrow> string" where
  "ipv4_string ip =
     (let os = ipv4_octets ip in fmt_dec (os ! 0) @ ''.'' @ fmt_dec (os ! 1) @ ''.'' @ fmt_dec (os ! 2) @ ''.'' @ fmt_dec (os ! 3))"

definition IPV4_BUF_LEN :: nat where "IPV4_BUF_LEN = 15"

definition Ipv4Addr_fmt :: "Formatter \<Rightarrow> Ipv4Addr \<Rightarrow> string outcome" where
  "Ipv4Addr_fmt f ip = fmt_through IPV4_BUF_LEN f (Ret (ipv4_string ip))"

record Span =
  sp_start :: nat
  sp_len :: nat

abbreviation Span_default :: Span where "Span_default \<equiv> \<lparr>sp_start = 0, sp_len = 0\<rparr>"

text \<open>The body of the loop that looks for the longest run of zeroes; the state is the longest and the current run.\<close>

definition zeroes_step :: "nat \<Rightarrow> u16 \<Rightarrow> Span \<times> Span \<Rightarrow> Span \<times> Span" where
  "zeroes_step i segment st =
     (case st of (longest, current) \<Rightarrow>
        if segment = 0
        then let current = (if sp_len current = 0 then current\<lparr>sp_start := i\<rparr> else current);
                 current = current\<lparr>sp_len := sp_len current + 1\<rparr>
             in (if sp_len current > sp_len longest then current else longest, current)
        else (longest, Span_default))"

definition zeroes :: "u16 list \<Rightarrow> Span" where
  "zeroes segments = fst (fold (\<lambda>(i, segment). zeroes_step i segment) (enumerate 0 segments) (Span_default, Span_default))"

fun fmt_subslice :: "u16 list \<Rightarrow> string" where
  "fmt_subslice [] = ''''"
| "fmt_subslice (first # tail) = fmt_hex first @ concat (map (\<lambda>segment. '':'' @ fmt_hex segment) tail)"

definition ipv6_string :: "Ipv6Addr \<Rightarrow> string outcome" where
  "ipv6_string ip =
     (let segments = ipv6_segments ip
      in if ipv6_is_unspecified ip then Ret ''::''
         else if ipv6_is_loopback ip then Ret ''::1''
         else case to_ipv4 ip of
                Some ipv4 \<Rightarrow>
                  if segments ! 5 = 0 then Ret (''::'' @ ipv4_string ipv4)
                  else if segments ! 5 = 0xFFFF then Ret (''::ffff:'' @ ipv4_string ipv4)
                  else Panic
              | None \<Rightarrow>
                  let z = zeroes segments
                  in if sp_len z > 1
                     then Ret (fmt_subslice (take (sp_start z) segments) @ ''::'' @ fmt_subslice (drop (sp_start z + sp_len z) segments))
                     else Ret (fmt_subslice segments))"

definition IPV6_BUF_LEN :: nat where "IPV6_BUF_LEN = 4 * 8 + 7"

definition Ipv6Addr_fmt :: "Formatter \<Rightarrow> Ipv6Addr \<Rightarrow> string outcome" where
  "Ipv6Addr_fmt f ip = fmt_through IPV6_BUF_LEN f (ipv6_string ip)"

fun IpAddr_fmt :: "Formatter \<Rightarrow> IpAddr \<Rightarrow> string outcome" where
  "IpAddr_fmt f (IpV4 ip) = Ipv4Addr_fmt f ip"
| "IpAddr_fmt f (IpV6 ip) = Ipv6Addr_fmt f ip"

definition IPV4_SOCKET_BUF_LEN :: nat where "IPV4_SOCKET_BUF_LEN = 3 * 4 + 3 + 1 + 5"
definition IPV6_SOCKET_BUF_LEN :: nat where "IPV6_SOCKET_BUF_LEN = 4 * 8 + 7 + 2 + 1 + 10 + 1 + 5"

definition SocketAddrV4_fmt :: "Formatter \<Rightarrow> SocketAddrV4 \<Rightarrow> string outcome" where
  "SocketAddrV4_fmt f a = fmt_through IPV4_SOCKET_BUF_LEN f (Ret (ipv4_string (v4_ip a) @ '':'' @ fmt_dec (v4_port a)))"

definition v6_string :: "SocketAddrV6 \<Rightarrow> string outcome" where
  "v6_string a =
     bind_out (ipv6_string (v6_ip a)) (\<lambda>ip.
       Ret (if v6_scope_id a = 0 then ''['' @ ip @ '']:'' @ fmt_dec (v6_port a)
            else ''['' @ ip @ ''%'' @ fmt_dec (v6_scope_id a) @ '']:'' @ fmt_dec (v6_port a)))"

definition SocketAddrV6_fmt :: "Formatter \<Rightarrow> SocketAddrV6 \<Rightarrow> string outcome" where
  "SocketAddrV6_fmt f a = fmt_through IPV6_SOCKET_BUF_LEN f (v6_string a)"

fun SocketAddr_fmt :: "Formatter \<Rightarrow> SocketAddr \<Rightarrow> string outcome" where
  "SocketAddr_fmt f (SockV4 a) = SocketAddrV4_fmt f a"
| "SocketAddr_fmt f (SockV6 a) = SocketAddrV6_fmt f a"

definition plain :: Formatter where
  "plain = \<lparr>fwidth = None, fprecision = None, ffill = '' '', falign = Align_Unknown\<rparr>"

section \<open>Structures of the C library\<close>

text \<open>
  \<^verbatim>\<open>into_inner\<close> passes the bytes of a structure and its size; \<^verbatim>\<open>sockaddr_to_addr\<close> of \<^verbatim>\<open>sys_common/net.rs\<close> reads a structure of 128 bytes by the family at its start.
\<close>

fun sock_into_inner :: "SocketAddr \<Rightarrow> bytes \<times> nat" where
  "sock_into_inner (SockV4 a) =
     (le_bytes 2 (unat (sin_family (inner4 a))) @ le_bytes 2 (unat (sin_port (inner4 a))) @ le_bytes 4 (unat (sin_addr (inner4 a))) @ sin_zero (inner4 a), 16)"
| "sock_into_inner (SockV6 a) =
     (le_bytes 2 (unat (sin6_family (inner6 a))) @ le_bytes 2 (unat (sin6_port (inner6 a))) @ le_bytes 4 (unat (sin6_flowinfo (inner6 a)))
        @ sin6_addr (inner6 a) @ le_bytes 4 (unat (sin6_scope_id (inner6 a))), 28)"

abbreviation (input) le_word :: "nat \<Rightarrow> nat \<Rightarrow> bytes \<Rightarrow> 'a::len word" where "le_word off n bs \<equiv> word_of_nat (le_val (bslice off n bs))"

datatype sock_error = Invalid_argument | Invalid_socket_address | Invalid_port_value

definition sockaddr_to_addr :: "bytes \<Rightarrow> nat \<Rightarrow> (sock_error + SocketAddr) outcome" where
  "sockaddr_to_addr storage len =
     (let family = le_word 0 2 storage :: u16
      in if family = AF_INET
         then if len \<ge> 16
              then Ret (Inr (SockV4 (SocketAddrV4 \<lparr>sin_family = family, sin_port = le_word 2 2 storage, sin_addr = le_word 4 4 storage, sin_zero = bslice 8 8 storage\<rparr>)))
              else Panic
         else if family = AF_INET6
         then if len \<ge> 28
              then Ret (Inr (SockV6 (SocketAddrV6 \<lparr>sin6_family = family, sin6_port = le_word 2 2 storage, sin6_flowinfo = le_word 4 4 storage,
                                      sin6_addr = bslice 8 16 storage, sin6_scope_id = le_word 24 4 storage\<rparr>)))
              else Panic
         else Ret (Inl Invalid_argument))"

end
