(* ===== verification/Sgx_Net_Parser.thy ===== *)
theory Sgx_Net_Parser
  imports Sgx_Net
begin

text \<open>
  The parser of addresses, \<^verbatim>\<open>src/sgx_tstd/src/net/parser.rs\<close>. A parser takes the rest of the input (bytes, as characters) and returns a result, if there is one, with
  the rest that is left, which a parser that fails may have shortened: \<open>read_atomically\<close> puts it back.
\<close>

type_synonym 'a parser = "string \<Rightarrow> 'a option \<times> string"

definition p_then :: "'a parser \<Rightarrow> ('a \<Rightarrow> 'b parser) \<Rightarrow> 'b parser" where
  "p_then p f s = (case p s of (None, s') \<Rightarrow> (None, s') | (Some x, s') \<Rightarrow> f x s')"

definition p_some :: "'a \<Rightarrow> 'a parser" where "p_some x s = (Some x, s)"
definition p_none :: "'a parser" where "p_none s = (None, s)"

definition p_map :: "('a \<Rightarrow> 'b) \<Rightarrow> 'a parser \<Rightarrow> 'b parser" where
  "p_map f p = p_then p (\<lambda>x. p_some (f x))"

definition p_or_else :: "'a parser \<Rightarrow> 'a parser \<Rightarrow> 'a parser" where
  "p_or_else p q s = (case p s of (None, s') \<Rightarrow> q s' | r \<Rightarrow> r)"

definition read_atomically :: "'a parser \<Rightarrow> 'a parser" where
  "read_atomically inner s = (case inner s of (None, _) \<Rightarrow> (None, s) | r \<Rightarrow> r)"

datatype AddrParseError = AddrParseError

definition parse_with :: "'a parser \<Rightarrow> string \<Rightarrow> AddrParseError + 'a" where
  "parse_with inner s =
     (case inner s of (result, rest) \<Rightarrow>
        (case (if rest = [] then result else None) of None \<Rightarrow> Inl AddrParseError | Some x \<Rightarrow> Inr x))"

definition peek_char :: "string \<Rightarrow> char option" where
  "peek_char s = (case s of [] \<Rightarrow> None | c # _ \<Rightarrow> Some c)"

definition read_char :: "char parser" where
  "read_char s = (case s of [] \<Rightarrow> (None, s) | c # tail \<Rightarrow> (Some c, tail))"

definition read_given_char :: "char \<Rightarrow> unit parser" where
  "read_given_char target = read_atomically (p_then read_char (\<lambda>c. if c = target then p_some () else p_none))"

definition read_separator :: "char \<Rightarrow> nat \<Rightarrow> 'a parser \<Rightarrow> 'a parser" where
  "read_separator sep index inner =
     read_atomically (if index > 0 then p_then (read_given_char sep) (\<lambda>_. inner) else inner)"

text \<open>\<^verbatim>\<open>char::to_digit\<close>, for a radix up to 16, and the checked arithmetic of an integer type.\<close>

definition to_digit :: "nat \<Rightarrow> char \<Rightarrow> nat option" where
  "to_digit radix c =
     (let n = of_char c :: nat;
          d = (if 48 \<le> n \<and> n \<le> 57 then n - 48 else if 97 \<le> n \<and> n \<le> 122 then n - 87 else if 65 \<le> n \<and> n \<le> 90 then n - 55 else radix)
      in if d < radix then Some d else None)"

definition checked_mul :: "'w::len word \<Rightarrow> nat \<Rightarrow> 'w word option" where
  "checked_mul x other =
     (if other < 2 ^ LENGTH('w) \<and> unat x * other < 2 ^ LENGTH('w) then Some (x * word_of_nat other) else None)"

definition checked_add :: "'w::len word \<Rightarrow> nat \<Rightarrow> 'w word option" where
  "checked_add x other =
     (if other < 2 ^ LENGTH('w) \<and> unat x + other < 2 ^ LENGTH('w) then Some (x + word_of_nat other) else None)"

definition read_digit :: "nat \<Rightarrow> nat parser" where
  "read_digit radix = read_atomically (p_then read_char (\<lambda>c s. (to_digit radix c, s)))"

lemma read_digit_cases:
  "read_digit radix s = (case s of [] \<Rightarrow> (None, s) | c # tail \<Rightarrow> (case to_digit radix c of None \<Rightarrow> (None, s) | Some d \<Rightarrow> (Some d, tail)))"
  by (auto simp: read_digit_def read_atomically_def p_then_def read_char_def split: list.splits option.splits)

text \<open>The loop of \<^verbatim>\<open>read_number\<close>: the value and the number of digits, or an early return.\<close>

function read_number_loop :: "nat \<Rightarrow> nat option \<Rightarrow> 'w::len word \<Rightarrow> nat \<Rightarrow> ('w word \<times> nat) parser" where
  "read_number_loop radix max_digits result digit_count s =
     (case read_digit radix s of
        (None, s') \<Rightarrow> (Some (result, digit_count), s')
      | (Some digit, s') \<Rightarrow>
          (case checked_mul result radix of
             None \<Rightarrow> (None, s')
           | Some result \<Rightarrow>
               (case checked_add result digit of
                  None \<Rightarrow> (None, s')
                | Some result \<Rightarrow>
                    (case max_digits of
                       Some max_digits' \<Rightarrow>
                         if digit_count + 1 > max_digits' then (None, s') else read_number_loop radix max_digits result (digit_count + 1) s'
                     | None \<Rightarrow> read_number_loop radix max_digits result (digit_count + 1) s'))))"
  by pat_completeness auto

termination
  by (relation "measure (\<lambda>(radix, max_digits, result, digit_count, s). length s)")
    (auto simp: read_digit_cases split: list.splits option.splits)

declare read_number_loop.simps [simp del]

definition read_number :: "nat \<Rightarrow> nat option \<Rightarrow> bool \<Rightarrow> 'w::len word parser" where
  "read_number radix max_digits allow_zero_prefix =
     read_atomically (\<lambda>s.
       let has_leading_zero = (peek_char s = Some CHR ''0'')
       in p_then (read_number_loop radix max_digits 0 0) (\<lambda>(result, digit_count).
            if digit_count = 0 then p_none
            else if \<not> allow_zero_prefix \<and> has_leading_zero \<and> digit_count > 1 then p_none
            else p_some result) s)"

section \<open>IPv4\<close>

text \<open>The loop over the slots of the array, from slot \<open>i\<close> on.\<close>

fun read_octets :: "nat \<Rightarrow> nat \<Rightarrow> bytes parser" where
  "read_octets 0 i = p_some []"
| "read_octets (Suc n) i =
     p_then (read_separator CHR ''.'' i (read_number 10 (Some 3) False)) (\<lambda>slot. p_map (\<lambda>slots. slot # slots) (read_octets n (i + 1)))"

definition read_ipv4_addr :: "Ipv4Addr parser" where
  "read_ipv4_addr = read_atomically (p_map Ipv4Addr_from_octets (read_octets 4 0))"

section \<open>IPv6\<close>

text \<open>
  \<^verbatim>\<open>read_groups\<close> fills the array \<open>groups\<close> from index \<open>i\<close> on and returns how many were read and whether the last two are an IPv4 address. It does not fail.
\<close>

function read_groups_from :: "nat \<Rightarrow> u16 list \<Rightarrow> string \<Rightarrow> (nat \<times> bool) \<times> u16 list \<times> string" where
  "read_groups_from i groups p =
     (let limit = length groups
      in if i \<ge> limit then ((limit, False), groups, p)
         else case (if i < limit - 1 then read_separator CHR '':'' i read_ipv4_addr p else (None, p)) of
                (Some v4_addr, p) \<Rightarrow>
                  let os = ipv4_octets v4_addr
                  in ((i + 2, True),
                      groups[i := word_of_nat (be_val [os ! 0, os ! 1]), i + 1 := word_of_nat (be_val [os ! 2, os ! 3])], p)
              | (None, p) \<Rightarrow>
                  (case read_separator CHR '':'' i (read_number 16 (Some 4) True) p of
                     (Some g, p) \<Rightarrow> read_groups_from (i + 1) (groups[i := g]) p
                   | (None, p) \<Rightarrow> ((i, False), groups, p)))"
  by pat_completeness auto

termination
  by (relation "measure (\<lambda>(i, groups, p). length groups - i)") auto

declare read_groups_from.simps [simp del]

definition read_groups :: "u16 list \<Rightarrow> string \<Rightarrow> (nat \<times> bool) \<times> u16 list \<times> string" where
  "read_groups groups p = read_groups_from 0 groups p"

definition read_ipv6_addr :: "Ipv6Addr parser" where
  "read_ipv6_addr =
     read_atomically (\<lambda>p.
       case read_groups (replicate 8 0) p of
         ((head_size, head_ipv4), head, p) \<Rightarrow>
           if head_size = 8 then (Some (Ipv6Addr_from_segments head), p)
           else if head_ipv4 then (None, p)
           else p_then (read_given_char CHR '':'') (\<lambda>_. p_then (read_given_char CHR '':'') (\<lambda>_ p.
                  let limit = 8 - (head_size + 1)
                  in case read_groups (replicate limit 0) p of
                       ((tail_size, _), tail, p) \<Rightarrow>
                         (Some (Ipv6Addr_from_segments (take (8 - tail_size) head @ take tail_size tail)), p))) p)"

definition read_ip_addr :: "IpAddr parser" where
  "read_ip_addr = p_or_else (p_map IpV4 read_ipv4_addr) (p_map IpV6 read_ipv6_addr)"

section \<open>Socket addresses\<close>

definition read_port :: "u16 parser" where
  "read_port = read_atomically (p_then (read_given_char CHR '':'') (\<lambda>_. read_number 10 None True))"

definition read_scope_id :: "u32 parser" where
  "read_scope_id = read_atomically (p_then (read_given_char CHR ''%'') (\<lambda>_. read_number 10 None True))"

definition read_socket_addr_v4 :: "SocketAddrV4 parser" where
  "read_socket_addr_v4 =
     read_atomically (p_then read_ipv4_addr (\<lambda>ip. p_then read_port (\<lambda>port. p_some (SocketAddrV4_new ip port))))"

text \<open>\<^verbatim>\<open>unwrap_or\<close>: a scope that is not there is 0.\<close>

definition p_unwrap_or :: "'a parser \<Rightarrow> 'a \<Rightarrow> 'a parser" where
  "p_unwrap_or p x s = (case p s of (None, s') \<Rightarrow> (Some x, s') | r \<Rightarrow> r)"

definition read_socket_addr_v6 :: "SocketAddrV6 parser" where
  "read_socket_addr_v6 =
     read_atomically (
       p_then (read_given_char CHR ''['') (\<lambda>_.
       p_then read_ipv6_addr (\<lambda>ip.
       p_then (p_unwrap_or read_scope_id 0) (\<lambda>scope_id.
       p_then (read_given_char CHR '']'') (\<lambda>_.
       p_then read_port (\<lambda>port. p_some (SocketAddrV6_new ip port 0 scope_id)))))))"

definition read_socket_addr :: "SocketAddr parser" where
  "read_socket_addr = p_or_else (p_map SockV4 read_socket_addr_v4) (p_map SockV6 read_socket_addr_v6)"

section \<open>The implementations of \<^verbatim>\<open>FromStr\<close>\<close>

definition IpAddr_from_str :: "string \<Rightarrow> AddrParseError + IpAddr" where
  "IpAddr_from_str s = parse_with read_ip_addr s"

definition Ipv4Addr_from_str :: "string \<Rightarrow> AddrParseError + Ipv4Addr" where
  "Ipv4Addr_from_str s = (if length s > 15 then Inl AddrParseError else parse_with read_ipv4_addr s)"

definition Ipv6Addr_from_str :: "string \<Rightarrow> AddrParseError + Ipv6Addr" where
  "Ipv6Addr_from_str s = parse_with read_ipv6_addr s"

definition SocketAddrV4_from_str :: "string \<Rightarrow> AddrParseError + SocketAddrV4" where
  "SocketAddrV4_from_str s = parse_with read_socket_addr_v4 s"

definition SocketAddrV6_from_str :: "string \<Rightarrow> AddrParseError + SocketAddrV6" where
  "SocketAddrV6_from_str s = parse_with read_socket_addr_v6 s"

definition SocketAddr_from_str :: "string \<Rightarrow> AddrParseError + SocketAddr" where
  "SocketAddr_from_str s = parse_with read_socket_addr s"

end
