(* ===== verification/Sgx_Net_Proofs.thy ===== *)
theory Sgx_Net_Proofs
  imports Sgx_Net_Parser
begin

text \<open>
  The addresses of \<open>Sgx_Net\<close> and their parser: numbers are read exactly as they are printed, an IPv4 address has one text, every address is read back from
  its text, the buffers of the printing are large enough, and the classes of IPv4 are blocks of addresses.
\<close>

unbundle bit_operations_syntax

section \<open>Combinators\<close>

lemma p_then_Some [simp]:
  "p_then p f s = (Some y, r) \<longleftrightarrow> (\<exists>x s'. p s = (Some x, s') \<and> f x s' = (Some y, r))"
  by (auto simp: p_then_def split: prod.splits option.splits)

lemma p_map_Some [simp]: "p_map f p s = (Some y, r) \<longleftrightarrow> (\<exists>x. p s = (Some x, r) \<and> y = f x)"
  by (auto simp: p_map_def p_some_def)

lemma read_atomically_Some [simp]: "read_atomically p s = (Some x, r) \<longleftrightarrow> p s = (Some x, r)"
  by (auto simp: read_atomically_def split: prod.splits option.splits)

lemma read_atomically_None: "fst (p s) = None \<Longrightarrow> read_atomically p s = (None, s)"
  by (auto simp: read_atomically_def split: prod.splits option.splits)

lemma read_atomically_None_iff: "read_atomically p s = (None, r) \<longleftrightarrow> fst (p s) = None \<and> r = s"
  by (auto simp: read_atomically_def split: prod.splits option.splits)

lemma read_given_char_Some [simp]: "read_given_char c s = (Some u, r) \<longleftrightarrow> s = c # r"
  by (auto simp: read_given_char_def read_char_def p_some_def p_none_def split: list.splits if_splits)

lemma read_separator_Some [simp]:
  "read_separator sep i p s = (Some x, r) \<longleftrightarrow> (if i > 0 then \<exists>s'. s = sep # s' \<and> p s' = (Some x, r) else p s = (Some x, r))"
  by (auto simp: read_separator_def)

lemma read_separator_None: "(\<And>x r. read_separator sep i p s \<noteq> (Some x, r)) \<Longrightarrow> read_separator sep i p s = (None, s)"
  by (cases "read_separator sep i p s"; cases "fst (read_separator sep i p s)")
    (auto simp: read_separator_def read_atomically_None_iff)

lemma parse_with_Inr: "parse_with p s = Inr x \<longleftrightarrow> p s = (Some x, [])"
  by (auto simp: parse_with_def split: prod.splits option.splits if_splits)

section \<open>Numbers\<close>

definition is_digit :: "nat \<Rightarrow> char \<Rightarrow> bool" where "is_digit radix c \<longleftrightarrow> to_digit radix c \<noteq> None"

abbreviation no_digit :: "nat \<Rightarrow> string \<Rightarrow> bool" where
  "no_digit radix s \<equiv> (case s of [] \<Rightarrow> True | c # _ \<Rightarrow> \<not> is_digit radix c)"

definition num_step :: "nat \<Rightarrow> nat \<Rightarrow> char \<Rightarrow> nat" where "num_step radix v c = v * radix + the (to_digit radix c)"

definition num_val :: "nat \<Rightarrow> string \<Rightarrow> nat" where "num_val radix ds = foldl (num_step radix) 0 ds"

lemma num_step_ge: "1 \<le> radix \<Longrightarrow> v \<le> num_step radix v c"
  by (cases radix) (auto simp: num_step_def)

lemma foldl_num_ge: "1 \<le> radix \<Longrightarrow> v \<le> foldl (num_step radix) v ds"
proof (induction ds arbitrary: v)
  case (Cons c ds)
  have "v \<le> num_step radix v c" using Cons.prems by (rule num_step_ge)
  also have "\<dots> \<le> foldl (num_step radix) (num_step radix v c) ds" using Cons by simp
  finally show ?case by simp
qed simp

lemma to_digit_less: "to_digit radix c = Some d \<Longrightarrow> d < radix"
  by (auto simp: to_digit_def Let_def split: if_splits)

definition within_max :: "nat option \<Rightarrow> nat \<Rightarrow> bool" where
  "within_max max_digits n \<longleftrightarrow> (case max_digits of None \<Rightarrow> True | Some m \<Rightarrow> n \<le> m)"

lemma checked_step:
  fixes r :: "'w::len word"
  assumes "to_digit radix c = Some d" and "1 < radix" and "radix < 2 ^ LENGTH('w)"
  shows "(case checked_mul r radix of None \<Rightarrow> None | Some x \<Rightarrow> checked_add x d) =
    (if num_step radix (unat r) c < 2 ^ LENGTH('w) then Some (word_of_nat (num_step radix (unat r) c)) else None)"
proof -
  have d: "d < radix" by (rule to_digit_less [OF assms(1)])
  show ?thesis
  proof (cases "unat r * radix < 2 ^ LENGTH('w)")
    case True
    then have "unat (r * word_of_nat radix) = unat r * radix"
      using assms(3) by (simp add: unat_word_ariths unat_of_nat take_bit_eq_mod)
    moreover have "num_step radix (unat r) c = unat r * radix + d" using assms(1) by (simp add: num_step_def)
    ultimately show ?thesis using True assms(3) d by (auto simp: checked_mul_def checked_add_def)
  next
    case False
    then have "\<not> num_step radix (unat r) c < 2 ^ LENGTH('w)" by (simp add: num_step_def)
    then show ?thesis using False by (simp add: checked_mul_def)
  qed
qed

text \<open>The loop takes all the digits, when their number is within the limit and their value fits.\<close>

lemma read_number_loop_spec:
  fixes r :: "'w::len word"
  assumes "1 < radix" and "radix < 2 ^ LENGTH('w)" and "within_max md k"
  shows "let ds = takeWhile (is_digit radix) s; v = foldl (num_step radix) (unat r) ds
    in (within_max md (k + length ds) \<and> v < 2 ^ LENGTH('w) \<longrightarrow>
          read_number_loop radix md r k s = (Some (word_of_nat v, k + length ds), dropWhile (is_digit radix) s)) \<and>
       (\<not> (within_max md (k + length ds) \<and> v < 2 ^ LENGTH('w)) \<longrightarrow> fst (read_number_loop radix md r k s) = None)"
  using assms(3)
proof (induction s arbitrary: r k)
  case Nil
  then show ?case by (simp add: read_number_loop.simps read_digit_cases)
next
  case (Cons c s)
  show ?case
  proof (cases "to_digit radix c")
    case None
    then show ?thesis using Cons.prems by (simp add: read_number_loop.simps read_digit_cases is_digit_def)
  next
    case (Some d)
    let ?ds = "takeWhile (is_digit radix) s"
    let ?v1 = "num_step radix (unat r) c"
    have dig: "is_digit radix c" using Some by (simp add: is_digit_def)
    have loop: "read_number_loop radix md r k (c # s) =
      (if ?v1 < 2 ^ LENGTH('w) \<and> within_max md (k + 1) then read_number_loop radix md (word_of_nat ?v1) (k + 1) s else (None, s))"
      using checked_step [OF Some assms(1,2), of r]
      by (subst read_number_loop.simps)
        (auto simp: read_digit_cases Some within_max_def split: option.splits if_splits)
    have ge: "?v1 \<le> foldl (num_step radix) ?v1 ?ds" by (rule foldl_num_ge) (use assms(1) in simp)
    show ?thesis
    proof (cases "?v1 < 2 ^ LENGTH('w) \<and> within_max md (k + 1)")
      case True
      then have "unat (word_of_nat ?v1 :: 'w word) = ?v1" by (simp add: unat_of_nat take_bit_eq_mod)
      then show ?thesis using Cons.IH [of "k + 1" "word_of_nat ?v1 :: 'w word"] True dig loop by (simp add: Let_def)
    next
      case False
      moreover have "\<not> within_max md (k + 1) \<Longrightarrow> \<not> within_max md (k + length (c # ?ds))"
        by (auto simp: within_max_def split: option.splits)
      ultimately have "\<not> (within_max md (k + length (c # ?ds)) \<and> foldl (num_step radix) ?v1 ?ds < 2 ^ LENGTH('w))"
        using ge by fastforce
      then show ?thesis using False dig loop by (auto simp: Let_def)
    qed
  qed
qed

definition number_ok :: "nat \<Rightarrow> nat option \<Rightarrow> bool \<Rightarrow> nat \<Rightarrow> string \<Rightarrow> bool" where
  "number_ok radix md az bound ds \<longleftrightarrow>
     ds \<noteq> [] \<and> within_max md (length ds) \<and> num_val radix ds < bound \<and> (az \<or> hd ds \<noteq> CHR ''0'' \<or> length ds \<le> 1)"

lemma zero_digit: "1 < radix \<Longrightarrow> is_digit radix CHR ''0''"
  by (simp add: is_digit_def to_digit_def)

text \<open>\<^verbatim>\<open>read_number\<close> in one equation: what it accepts and what it leaves.\<close>

lemma read_number_spec:
  fixes w :: "'w::len word"
  assumes "1 < radix" and "radix < 2 ^ LENGTH('w)"
  shows "(read_number radix md az s :: 'w word option \<times> string) =
    (let ds = takeWhile (is_digit radix) s
     in if number_ok radix md az (2 ^ LENGTH('w)) ds then (Some (word_of_nat (num_val radix ds)), dropWhile (is_digit radix) s) else (None, s))"
proof -
  let ?ds = "takeWhile (is_digit radix) s"
  let ?f = "\<lambda>s. let lz = (peek_char s = Some CHR ''0'')
       in p_then (read_number_loop radix md (0 :: 'w word) 0) (\<lambda>(result, digit_count).
            if digit_count = 0 then p_none
            else if \<not> az \<and> lz \<and> digit_count > 1 then p_none
            else p_some result) s"
  have rn: "(read_number radix md az s :: 'w word option \<times> string) = read_atomically ?f s"
    unfolding read_number_def by simp
  have k0: "within_max md 0" by (simp add: within_max_def split: option.splits)
  note spec = read_number_loop_spec [OF assms k0, of s "0 :: 'w word", folded num_val_def, unfolded Let_def]
  have hd: "peek_char s = Some CHR ''0'' \<longleftrightarrow> ?ds \<noteq> [] \<and> hd ?ds = CHR ''0''"
    using zero_digit [OF assms(1)] by (cases s) (auto simp: peek_char_def)
  show ?thesis
  proof (cases "within_max md (length ?ds) \<and> num_val radix ?ds < 2 ^ LENGTH('w)")
    case True
    then have "read_number_loop radix md (0 :: 'w word) 0 s = (Some (word_of_nat (num_val radix ?ds), length ?ds), dropWhile (is_digit radix) s)"
      using spec by (simp add: num_val_def)
    then show ?thesis
      using True hd by (auto simp: rn number_ok_def Let_def p_then_def p_none_def p_some_def read_atomically_def)
  next
    case False
    then have "fst (read_number_loop radix md (0 :: 'w word) 0 s) = None" using spec by (auto simp: num_val_def)
    then have "fst (?f s) = None" by (auto simp: Let_def p_then_def split: prod.splits option.splits)
    then show ?thesis using False by (auto simp: rn number_ok_def Let_def intro: read_atomically_None)
  qed
qed

section \<open>Printed numbers\<close>

lemma fmt_number_small: "n < base \<Longrightarrow> fmt_number base n = [digit_char n]"
  by (subst fmt_number.simps) simp

lemma fmt_number_large: "\<not> n < base \<Longrightarrow> 2 \<le> base \<Longrightarrow> fmt_number base n = fmt_number base (n div base) @ [digit_char (n mod base)]"
  by (subst fmt_number.simps) simp

lemma to_digit_digit_char:
  assumes "d < radix" and "radix \<le> 16"
  shows "to_digit radix (digit_char d) = Some d"
proof -
  have "d \<in> set [0..<16]" using assms by simp
  moreover have "list_all (\<lambda>d. to_digit 16 (digit_char d) = Some d) [0..<16]" by code_simp
  ultimately have "to_digit 16 (digit_char d) = Some d" by (simp add: list_all_iff del: upt_conv_Cons)
  then show ?thesis using assms by (auto simp: to_digit_def Let_def split: if_splits)
qed

lemma to_digit_10_iff: "to_digit 10 c = Some d \<longleftrightarrow> d < 10 \<and> c = digit_char d"
proof
  assume *: "to_digit 10 c = Some d"
  then have n: "of_char c = 48 + d" and d: "d < 10"
    by (auto simp: to_digit_def Let_def split: if_splits)
  have "list_all (\<lambda>d. digit_char d = char_of (48 + d)) [0..<10]" by code_simp
  then have "digit_char d = char_of (48 + d)" using d by (simp add: list_all_iff del: upt_conv_Cons)
  then show "d < 10 \<and> c = digit_char d" using d n by (metis char_of_char)
next
  assume "d < 10 \<and> c = digit_char d"
  then show "to_digit 10 c = Some d" using to_digit_digit_char [of d 10] by simp
qed

locale positional =
  fixes base :: nat
  assumes base_ge: "2 \<le> base" and base_le: "base \<le> 16"
begin

lemma digit_char_digit: "d < base \<Longrightarrow> is_digit base (digit_char d)"
  using base_le by (simp add: is_digit_def to_digit_digit_char)

lemma fmt_induct [case_names digit more]:
  assumes "\<And>n. n < base \<Longrightarrow> Q n" and "\<And>n. \<not> n < base \<Longrightarrow> Q (n div base) \<Longrightarrow> Q n"
  shows "Q n"
proof (induction n rule: less_induct)
  case (less n)
  then show ?case using assms base_ge by (cases "n < base") simp_all
qed

lemma fmt_digits: "list_all (is_digit base) (fmt_number base n)"
proof (induction n rule: fmt_induct)
  case (digit n)
  then show ?case by (simp add: fmt_number_small digit_char_digit)
next
  case (more n)
  then show ?case using base_ge by (simp add: fmt_number_large digit_char_digit)
qed

lemma fmt_nonempty: "fmt_number base n \<noteq> []"
  by (subst fmt_number.simps) simp

lemma fmt_val: "num_val base (fmt_number base n) = n"
proof (induction n rule: fmt_induct)
  case (digit n)
  then show ?case using base_le by (simp add: fmt_number_small num_val_def num_step_def to_digit_digit_char)
next
  case (more n)
  then have "num_val base (fmt_number base n) = n div base * base + n mod base"
    using base_ge base_le by (simp add: fmt_number_large num_val_def num_step_def to_digit_digit_char)
  then show ?case by simp
qed

lemma fmt_leading_zero: "hd (fmt_number base n) = CHR ''0'' \<longleftrightarrow> n = 0"
proof (induction n rule: fmt_induct)
  case (digit n)
  have "to_digit base (digit_char n) = Some n" "to_digit base CHR ''0'' = Some 0"
    using digit base_ge base_le by (simp_all add: to_digit_digit_char) (simp add: to_digit_def)
  moreover have "digit_char 0 = CHR ''0''" by (simp add: digit_char_def)
  ultimately show ?case using digit by (auto simp: fmt_number_small)
next
  case (more n)
  then show ?case using base_ge fmt_nonempty by (simp add: fmt_number_large div_eq_0_iff)
qed

lemma fmt_length: "n < base ^ Suc k \<Longrightarrow> length (fmt_number base n) \<le> Suc k"
proof (induction k arbitrary: n)
  case 0
  then show ?case by (simp add: fmt_number_small)
next
  case (Suc k)
  show ?case
  proof (cases "n < base")
    case False
    have "n div base < base ^ Suc k" using Suc.prems base_ge by (simp add: less_mult_imp_div_less mult.commute)
    then show ?thesis using Suc.IH False base_ge by (simp add: fmt_number_large)
  qed (simp add: fmt_number_small)
qed

lemma fmt_takeWhile: "no_digit base rest \<Longrightarrow> takeWhile (is_digit base) (fmt_number base n @ rest) = fmt_number base n"
  using fmt_digits [of n] by (cases rest) (auto simp: list_all_iff takeWhile_append takeWhile_eq_Nil_iff)

lemma fmt_dropWhile: "no_digit base rest \<Longrightarrow> dropWhile (is_digit base) (fmt_number base n @ rest) = rest"
  using fmt_digits [of n] by (cases rest) (auto simp: list_all_iff dropWhile_append)

text \<open>A number is read back from its text, whatever follows that is no digit.\<close>

lemma read_fmt:
  fixes w :: "'w::len word"
  assumes "no_digit base rest" and "within_max md (length (fmt_number base (unat w)))" and "base < 2 ^ LENGTH('w)"
  shows "read_number base md az (fmt_number base (unat w) @ rest) = (Some w, rest)"
proof -
  have "number_ok base md az (2 ^ LENGTH('w)) (fmt_number base (unat w))"
    using assms(2) base_ge fmt_leading_zero [of "unat w"] unsigned_less [of w]
    by (auto simp: number_ok_def fmt_nonempty fmt_val fmt_number_small)
  then show ?thesis
    using assms base_ge by (simp add: read_number_spec fmt_takeWhile fmt_dropWhile fmt_val Let_def del: split_paired_All)
qed

text \<open>A text of digits is the printed form of its value, when the digits are those of printing and none leads in vain.\<close>

lemma fmt_num_val:
  assumes "\<And>c. c \<in> set ds \<Longrightarrow> \<exists>d<base. c = digit_char d" and "ds \<noteq> []" and "hd ds \<noteq> CHR ''0'' \<or> length ds \<le> 1"
  shows "fmt_number base (num_val base ds) = ds"
  using assms
proof (induction ds rule: rev_induct)
  case (snoc c ds)
  obtain d where d: "d < base" "c = digit_char d" using snoc.prems(1) [of c] by auto
  have val: "num_val base (ds @ [c]) = num_val base ds * base + d"
    using d base_le by (simp add: num_val_def num_step_def to_digit_digit_char)
  show ?case
  proof (cases "ds = []")
    case True
    then show ?thesis using val d by (simp add: num_val_def fmt_number_small)
  next
    case False
    then have nz: "hd ds \<noteq> CHR ''0''" using snoc.prems(3) by (cases ds) auto
    then have IH: "fmt_number base (num_val base ds) = ds" using snoc False by simp
    then have "num_val base ds \<noteq> 0" using nz fmt_leading_zero [of "num_val base ds"] by simp
    then have "\<not> num_val base ds * base + d < base" by (cases "num_val base ds") auto
    then show ?thesis using val IH d base_ge by (simp add: fmt_number_large)
  qed
qed simp

end

interpretation dec: positional 10
  by unfold_locales simp_all

interpretation hex: positional 16
  by unfold_locales simp_all

section \<open>IPv4\<close>

lemma unat_u32_from_ne: "length bs = 4 \<Longrightarrow> unat (u32_from_ne_bytes bs) = le_val bs"
  using le_val_bound [of bs] by (simp add: u32_from_ne_bytes_def unat_of_nat take_bit_eq_mod)

lemma ipv4_octets_new [simp]: "ipv4_octets (Ipv4Addr_new a b c d) = [a, b, c, d]"
proof -
  have len: "length [a, b, c, d] = 4" by simp
  show ?thesis
    using le_bytes_le_val [of "[a, b, c, d]"] unat_u32_from_ne [OF len] unfolding len
    by (simp add: ipv4_octets_def Ipv4Addr_new_def u32_to_ne_bytes_def del: le_val.simps le_bytes.simps)
qed

lemma length_ipv4_octets [simp]: "length (ipv4_octets a) = 4"
  by (simp add: ipv4_octets_def u32_to_ne_bytes_def)

lemma length_4_iff: "length xs = 4 \<longleftrightarrow> (\<exists>a b c d. xs = [a, b, c, d])"
  by (auto simp: numeral_eq_Suc length_Suc_conv)

lemma ipv4_cases: obtains a b c d where "ip = Ipv4Addr_new a b c d"
proof -
  obtain a b c d where os: "ipv4_octets ip = [a, b, c, d]" using length_ipv4_octets [of ip] by (auto simp: length_4_iff simp del: length_ipv4_octets)
  have "le_val (ipv4_octets ip) = unat (s_addr ip)"
    using le_val_le_bytes [of 4 "unat (s_addr ip)"] unat_less_pow [of "s_addr ip"] by (simp add: ipv4_octets_def u32_to_ne_bytes_def)
  then have "Ipv4Addr_new a b c d = ip" unfolding os by (cases ip) (simp add: Ipv4Addr_new_def u32_from_ne_bytes_def del: le_val.simps)
  then show ?thesis using that by blast
qed

lemma ipv4_eq_iff [simp]: "Ipv4Addr_new a b c d = Ipv4Addr_new a' b' c' d' \<longleftrightarrow> a = a' \<and> b = b' \<and> c = c' \<and> d = d'"
proof
  assume "Ipv4Addr_new a b c d = Ipv4Addr_new a' b' c' d'"
  then have "ipv4_octets (Ipv4Addr_new a b c d) = ipv4_octets (Ipv4Addr_new a' b' c' d')" by (rule arg_cong)
  then show "a = a' \<and> b = b' \<and> c = c' \<and> d = d'" by simp
qed simp

lemma Ipv4Addr_from_octets_simp [simp]: "Ipv4Addr_from_octets [a, b, c, d] = Ipv4Addr_new a b c d"
  by (simp add: Ipv4Addr_from_octets_def)

lemma ipv4_string_new:
  "ipv4_string (Ipv4Addr_new a b c d) = fmt_dec a @ CHR ''.'' # fmt_dec b @ CHR ''.'' # fmt_dec c @ CHR ''.'' # fmt_dec d"
  by (simp add: ipv4_string_def)

lemma length_fmt_octet: "length (fmt_dec (b :: u8)) \<le> 3"
  using dec.fmt_length [of "unat b" 2] unat_less_pow [of b] by simp

lemma no_digit_dropWhile: "no_digit radix (dropWhile (is_digit radix) s)"
  by (induction s) auto

text \<open>An octet is read exactly in the form in which it is printed.\<close>

lemma read_octet_iff:
  "read_number 10 (Some 3) False s = (Some (b :: u8), rest) \<longleftrightarrow> s = fmt_dec b @ rest \<and> no_digit 10 rest"
proof
  assume *: "read_number 10 (Some 3) False s = (Some b, rest)"
  let ?ds = "takeWhile (is_digit 10) s"
  have ok: "number_ok 10 (Some 3) False 256 ?ds" and b: "b = word_of_nat (num_val 10 ?ds)" and rest: "rest = dropWhile (is_digit 10) s"
    using * by (auto simp: read_number_spec Let_def split: if_splits)
  have "unat b = num_val 10 ?ds" using ok b by (simp add: number_ok_def unat_of_nat take_bit_eq_mod)
  moreover have "fmt_number 10 (num_val 10 ?ds) = ?ds"
    using ok by (intro dec.fmt_num_val) (auto simp: number_ok_def is_digit_def to_digit_10_iff dest: set_takeWhileD)
  ultimately show "s = fmt_dec b @ rest \<and> no_digit 10 rest" using rest no_digit_dropWhile [of 10 s] by simp
next
  assume "s = fmt_dec b @ rest \<and> no_digit 10 rest"
  then show "read_number 10 (Some 3) False s = (Some b, rest)"
    using dec.read_fmt [of rest "Some 3" b False] length_fmt_octet [of b] by (simp add: within_max_def)
qed

lemma dot_no_digit [simp]: "\<not> is_digit 10 CHR ''.''"
  by (simp add: is_digit_def to_digit_def)

fun dotted :: "nat \<Rightarrow> bytes \<Rightarrow> string" where
  "dotted i [] = ''''"
| "dotted i (b # bs) = (if i > 0 then ''.'' else '''') @ fmt_dec b @ dotted (i + 1) bs"

lemma no_digit_dotted: "no_digit 10 (dotted (Suc i) bs @ rest) \<longleftrightarrow> bs \<noteq> [] \<or> no_digit 10 rest"
  by (cases bs) auto

lemma read_octets_iff:
  "read_octets n i s = (Some bs, rest) \<longleftrightarrow> length bs = n \<and> s = dotted i bs @ rest \<and> (n = 0 \<or> no_digit 10 rest)"
proof (induction n arbitrary: i s bs)
  case (Suc n)
  have "read_octets (Suc n) i s = (Some bs, rest) \<longleftrightarrow>
    (\<exists>b bs'. bs = b # bs' \<and> length bs' = n \<and> s = dotted i bs @ rest \<and> no_digit 10 (dotted (Suc i) bs' @ rest) \<and> (n = 0 \<or> no_digit 10 rest))"
    by (cases bs) (auto simp: Suc.IH read_octet_iff)
  also have "\<dots> \<longleftrightarrow> length bs = Suc n \<and> s = dotted i bs @ rest \<and> no_digit 10 rest"
    by (cases bs) (auto simp: no_digit_dotted)
  finally show ?case by simp
qed (auto simp: p_some_def)

lemma read_ipv4_iff: "read_ipv4_addr s = (Some ip, rest) \<longleftrightarrow> s = ipv4_string ip @ rest \<and> no_digit 10 rest"
proof -
  obtain a b c d where ip: "ip = Ipv4Addr_new a b c d" by (rule ipv4_cases)
  have "read_ipv4_addr s = (Some ip, rest) \<longleftrightarrow> read_octets 4 0 s = (Some [a, b, c, d], rest)"
  proof -
    have "Ipv4Addr_from_octets os = ip \<longleftrightarrow> os = [a, b, c, d]" if "read_octets 4 0 s = (Some os, rest)" for os
      using that by (auto simp: read_octets_iff length_4_iff ip)
    then show ?thesis by (auto simp: read_ipv4_addr_def)
  qed
  then show ?thesis by (simp add: read_octets_iff ip ipv4_string_new)
qed

lemma length_ipv4_string: "length (ipv4_string ip) \<le> 15"
proof -
  obtain a b c d where ip: "ip = Ipv4Addr_new a b c d" by (rule ipv4_cases)
  show ?thesis unfolding ip ipv4_string_new using length_fmt_octet [of a] length_fmt_octet [of b] length_fmt_octet [of c] length_fmt_octet [of d] by simp
qed

lemma Ipv4Addr_fmt_plain [simp]: "Ipv4Addr_fmt plain ip = Ret (ipv4_string ip)"
  by (simp add: Ipv4Addr_fmt_def fmt_through_def direct_def plain_def)

text \<open>
  C38: An IPv4 address has exactly one text. The parser accepts a string, whatever it is, for an address exactly when it is the text that is printed for that
  address; in particular no leading zeroes, no short forms and no trailing characters.
\<close>

theorem ipv4_text_iff: "Ipv4Addr_from_str s = Inr ip \<longleftrightarrow> Ipv4Addr_fmt plain ip = Ret s"
proof -
  have "Ipv4Addr_from_str s = Inr ip \<longleftrightarrow> length s \<le> 15 \<and> s = ipv4_string ip"
    by (auto simp: Ipv4Addr_from_str_def parse_with_Inr read_ipv4_iff)
  then show ?thesis using length_ipv4_string [of ip] by auto
qed

section \<open>Segments\<close>

definition be16 :: "u8 \<Rightarrow> u8 \<Rightarrow> u16" where "be16 a b = word_of_nat (be_val [a, b])"

lemma be_bytes_2 [simp]: "length (be_bytes n v) = n"
  by (simp add: be_bytes_def)

lemma length_2_iff: "length xs = 2 \<longleftrightarrow> (\<exists>a b. xs = [a, b])"
  by (auto simp: numeral_eq_Suc length_Suc_conv)

lemma unat_le_16: "length bs = 2 \<Longrightarrow> unat (word_of_nat (le_val bs) :: u16) = le_val bs"
  using le_val_bound [of bs] by (simp add: unat_of_nat take_bit_eq_mod)

lemma le_bytes_le_16: "length bs = 2 \<Longrightarrow> le_bytes 2 (unat (word_of_nat (le_val bs) :: u16)) = bs"
  using le_bytes_le_val [of bs] by (simp only: unat_le_16)

lemma le_16_le_bytes: "word_of_nat (le_val (le_bytes 2 (unat x))) = (x :: u16)"
  using unat_less_pow [of x] by (simp add: le_val_le_bytes del: le_bytes.simps)

lemma le_bytes_to_be: "le_bytes 2 (unat (u16_to_be x)) = be_bytes 2 (unat x)"
  by (simp add: u16_to_be_def le_bytes_le_16 del: le_bytes.simps)

lemma u16_to_be_le: "length bs = 2 \<Longrightarrow> u16_to_be (word_of_nat (le_val bs)) = word_of_nat (be_val bs)"
  by (simp add: u16_to_be_def be_bytes_def le_bytes_le_16 be_val_def del: le_bytes.simps)

lemma be_16_be_bytes: "word_of_nat (be_val (be_bytes 2 (unat x))) = (x :: u16)"
  by (simp add: be_val_def be_bytes_def le_16_le_bytes del: le_bytes.simps)

lemma be_bytes_be_16: "length bs = 2 \<Longrightarrow> be_bytes 2 (unat (word_of_nat (be_val bs) :: u16)) = bs"
  by (simp add: be_val_def be_bytes_def le_bytes_le_16 del: le_bytes.simps)

lemma u16_to_be_twice [simp]: "u16_to_be (u16_to_be x) = x"
  using u16_to_be_le [of "be_bytes 2 (unat x)"] be_16_be_bytes [of x] by (simp add: u16_to_be_def)

lemma s6_addr_from_segments: "s6_addr (Ipv6Addr_from_segments gs) = concat (map (\<lambda>g. be_bytes 2 (unat g)) gs)"
  by (simp add: Ipv6Addr_from_segments_def Let_def comp_def le_bytes_to_be del: le_bytes.simps)

lemma bslice_concat_pairs:
  assumes "\<And>g. g \<in> set gs \<Longrightarrow> length (f g) = 2" and "i < length gs"
  shows "bslice (2 * i) 2 (concat (map f gs)) = f (gs ! i)"
  using assms
proof (induction gs arbitrary: i)
  case (Cons g gs)
  then show ?case by (cases i) (simp_all add: bslice_def)
qed simp

lemma concat_bslice_pairs: "2 * n \<le> length bs \<Longrightarrow> concat (map (\<lambda>i. bslice (2 * i) 2 bs) [0..<n]) = take (2 * n) bs"
proof (induction n)
  case (Suc n)
  then show ?case using take_add [of "2 * n" 2 bs] by (simp add: bslice_def)
qed simp

lemma ipv6_segments_from [simp]: "length gs = 8 \<Longrightarrow> ipv6_segments (Ipv6Addr_from_segments gs) = gs"
  by (rule nth_equalityI)
    (simp_all add: ipv6_segments_def s6_addr_from_segments bslice_concat_pairs u16_to_be_le be_16_be_bytes)

lemma length_ipv6_segments [simp]: "length (ipv6_segments a) = 8"
  by (simp add: ipv6_segments_def)

lemma Ipv6Addr_from_segments_of [simp]:
  assumes "wf_ipv6 a"
  shows "Ipv6Addr_from_segments (ipv6_segments a) = a"
proof -
  have len: "length (bslice (2 * i) 2 (s6_addr a)) = 2" if "i < 8" for i
    using assms that by (simp add: wf_ipv6_def)
  have "s6_addr (Ipv6Addr_from_segments (ipv6_segments a)) = concat (map (\<lambda>i. bslice (2 * i) 2 (s6_addr a)) [0..<8])"
    unfolding s6_addr_from_segments ipv6_segments_def map_map comp_def
    by (rule arg_cong [where f = concat], rule map_cong) (simp_all add: u16_to_be_le len be_bytes_be_16)
  also have "\<dots> = s6_addr a" using assms concat_bslice_pairs [of 8 "s6_addr a"] by (simp add: wf_ipv6_def)
  finally show ?thesis by (rule Ipv6Addr.expand)
qed

lemma wf_from_segments [simp]: "length gs = 8 \<Longrightarrow> wf_ipv6 (Ipv6Addr_from_segments gs)"
proof -
  have "length (concat (map (\<lambda>g. be_bytes 2 (unat g)) gs)) = 2 * length gs" for gs :: "u16 list" by (induction gs) simp_all
  then show "length gs = 8 \<Longrightarrow> wf_ipv6 (Ipv6Addr_from_segments gs)" by (simp add: wf_ipv6_def s6_addr_from_segments)
qed

section \<open>Groups\<close>

lemma is_digit_10_16: "is_digit 10 c \<Longrightarrow> is_digit 16 c"
  by (auto simp: is_digit_def to_digit_def Let_def split: if_splits)

definition boundary :: "string \<Rightarrow> bool" where
  "boundary s \<longleftrightarrow> (case s of [] \<Rightarrow> True | c # _ \<Rightarrow> \<not> is_digit 16 c \<and> c \<noteq> CHR ''.'')"

lemma boundary_simps [simp]: "boundary []" "boundary (c # s) \<longleftrightarrow> \<not> is_digit 16 c \<and> c \<noteq> CHR ''.''"
  by (simp_all add: boundary_def)

lemma boundary_no_digit: "boundary s \<Longrightarrow> no_digit 16 s"
  by (cases s) auto

lemma colon_no_digit [simp]: "\<not> is_digit 16 CHR '':''" "\<not> is_digit 10 CHR '':''"
  by (simp_all add: is_digit_def to_digit_def)

lemma read_ipv4_None: "(\<And>ip r. read_ipv4_addr s \<noteq> (Some ip, r)) \<Longrightarrow> read_ipv4_addr s = (None, s)"
  by (cases "read_ipv4_addr s"; cases "fst (read_ipv4_addr s)") (auto simp: read_ipv4_addr_def read_atomically_None_iff)

lemma ipv4_string_dropWhile: "\<exists>t. dropWhile (is_digit 10) (ipv4_string ip @ r) = CHR ''.'' # t"
proof -
  obtain a b c d where ip: "ip = Ipv4Addr_new a b c d" by (rule ipv4_cases)
  show ?thesis by (simp add: ip ipv4_string_new dec.fmt_dropWhile)
qed

lemma dropWhile_hex:
  assumes "list_all (is_digit 16) hs" and "boundary rest"
  shows "dropWhile (is_digit 10) (hs @ rest) \<noteq> CHR ''.'' # t"
  using assms
proof (induction hs)
  case Nil
  then show ?case by (cases rest) (auto dest: is_digit_10_16)
next
  case (Cons c hs)
  have "\<not> is_digit 16 CHR ''.''" by (simp add: is_digit_def to_digit_def)
  then show ?case using Cons by auto
qed

text \<open>A group in hexadecimal digits is not mistaken for an IPv4 address.\<close>

lemma read_ipv4_hex:
  assumes "boundary rest"
  shows "read_ipv4_addr (fmt_number 16 n @ rest) = (None, fmt_number 16 n @ rest)"
proof (rule read_ipv4_None)
  fix ip r
  show "read_ipv4_addr (fmt_number 16 n @ rest) \<noteq> (Some ip, r)"
  proof
    assume "read_ipv4_addr (fmt_number 16 n @ rest) = (Some ip, r)"
    then obtain t where "dropWhile (is_digit 10) (fmt_number 16 n @ rest) = CHR ''.'' # t"
      using ipv4_string_dropWhile [of ip r] by (auto simp: read_ipv4_iff)
    then show False using dropWhile_hex [OF hex.fmt_digits assms] by blast
  qed
qed

lemma read_ipv4_no_digit: "no_digit 16 s \<Longrightarrow> read_ipv4_addr s = (None, s)"
proof (rule read_ipv4_None)
  fix ip r
  assume *: "no_digit 16 s"
  show "read_ipv4_addr s \<noteq> (Some ip, r)"
  proof
    assume "read_ipv4_addr s = (Some ip, r)"
    then have s: "s = ipv4_string ip @ r" by (simp add: read_ipv4_iff)
    obtain a b c d where ip: "ip = Ipv4Addr_new a b c d" by (rule ipv4_cases)
    obtain x xs where a: "fmt_dec a = x # xs" using dec.fmt_nonempty [of "unat a"] by (cases "fmt_dec a") auto
    have "is_digit 10 x" using dec.fmt_digits [of "unat a"] unfolding a by simp
    then show False using * is_digit_10_16 by (simp add: s ip ipv4_string_new a)
  qed
qed

lemma read_group:
  assumes "boundary rest"
  shows "read_number 16 (Some 4) True (fmt_hex (g :: u16) @ rest) = (Some g, rest)"
proof -
  have "length (fmt_hex g) \<le> 4" using hex.fmt_length [of "unat g" 3] unat_less_pow [of g] by simp
  then show ?thesis using hex.read_fmt [OF boundary_no_digit [OF assms], of "Some 4" g True] by (simp add: within_max_def)
qed

lemma read_number_no_digit: "no_digit 16 s \<Longrightarrow> (read_number 16 md az s :: u16 option \<times> string) = (None, s)"
  by (cases s) (simp_all add: read_number_spec number_ok_def)

lemma read_separator_apply:
  "read_separator sep i p s =
     (if i = 0 then read_atomically p s
      else case s of c # s' \<Rightarrow> if c = sep \<and> fst (p s') \<noteq> None then p s' else (None, s) | [] \<Rightarrow> (None, s))"
  by (auto simp: read_separator_def read_atomically_def p_then_def read_given_char_def read_char_def p_some_def p_none_def
      split: list.splits option.splits prod.splits)

definition sep_text :: "nat \<Rightarrow> u16 \<Rightarrow> string" where
  "sep_text i g = (if i = 0 then '''' else '':'') @ fmt_hex g"

lemma read_groups_step:
  assumes "i < length groups" and "boundary rest"
  shows "read_groups_from i groups (sep_text i g @ rest) = read_groups_from (i + 1) (groups[i := g]) rest"
  using assms
  by (subst read_groups_from.simps)
    (simp add: read_separator_apply sep_text_def read_ipv4_hex read_group read_atomically_def Let_def)

text \<open>The text of groups from index \<open>i\<close> on, and what ends it.\<close>

fun groups_text :: "nat \<Rightarrow> u16 list \<Rightarrow> string" where
  "groups_text i [] = ''''"
| "groups_text i (g # gs) = sep_text i g @ groups_text (Suc i) gs"

lemma fmt_subslice_text: "fmt_subslice gs = groups_text 0 gs"
proof -
  have "concat (map (\<lambda>g. '':'' @ fmt_hex g) gs) = groups_text (Suc i) gs" for gs :: "u16 list" and i
    by (induction gs arbitrary: i) (simp_all add: sep_text_def)
  then show ?thesis by (cases gs) (simp_all add: sep_text_def)
qed

lemma boundary_groups_text: "boundary rest \<Longrightarrow> boundary (groups_text (Suc i) gs @ rest)"
  by (cases gs) (simp_all add: sep_text_def)

lemma read_groups_run:
  assumes "i + length gs \<le> length groups" and "boundary rest"
  shows "read_groups_from i groups (groups_text i gs @ rest) =
    read_groups_from (i + length gs) (take i groups @ gs @ drop (i + length gs) groups) rest"
  using assms(1)
proof (induction gs arbitrary: i groups)
  case (Cons g gs)
  then have i: "i < length groups" by simp
  have "read_groups_from i groups (groups_text i (g # gs) @ rest) = read_groups_from (i + 1) (groups[i := g]) (groups_text (Suc i) gs @ rest)"
    using read_groups_step [OF i boundary_groups_text [OF assms(2)]] by simp
  also have "\<dots> = read_groups_from (Suc i + length gs) (take (Suc i) (groups[i := g]) @ gs @ drop (Suc i + length gs) (groups[i := g])) rest"
    using Cons.IH [of "Suc i" "groups[i := g]"] Cons.prems by simp
  also have "take (Suc i) (groups[i := g]) @ gs @ drop (Suc i + length gs) (groups[i := g]) = take i groups @ (g # gs) @ drop (i + length (g # gs)) groups"
    using i by (simp add: take_Suc_conv_app_nth)
  finally show ?case by simp
qed simp

definition halts :: "nat \<Rightarrow> string \<Rightarrow> bool" where
  "halts i s \<longleftrightarrow> (if i = 0 then no_digit 16 s else (case s of [] \<Rightarrow> True | c # t \<Rightarrow> c = CHR '':'' \<longrightarrow> no_digit 16 t))"

lemma read_groups_halt:
  assumes "halts i rest"
  shows "read_groups_from i groups rest = ((min i (length groups), False), groups, rest)"
proof (cases "i < length groups")
  case True
  have "read_separator CHR '':'' i read_ipv4_addr rest = (None, rest)"
    using assms by (cases "i = 0"; cases rest) (auto simp: read_separator_apply halts_def read_ipv4_no_digit read_atomically_def)
  moreover have "(read_separator CHR '':'' i (read_number 16 (Some 4) True) rest :: u16 option \<times> string) = (None, rest)"
    using assms by (cases "i = 0"; cases rest) (auto simp: read_separator_apply halts_def read_number_no_digit read_atomically_def)
  ultimately show ?thesis using True by (subst read_groups_from.simps) (simp add: Let_def)
qed (subst read_groups_from.simps, simp)

lemma read_groups_all:
  assumes "length gs \<le> n" and "boundary rest" and "length gs = n \<or> halts (length gs) rest"
  shows "read_groups (replicate n 0) (fmt_subslice gs @ rest) = ((length gs, False), gs @ replicate (n - length gs) 0, rest)"
proof -
  have "read_groups (replicate n 0) (fmt_subslice gs @ rest) = read_groups_from (length gs) (gs @ replicate (n - length gs) 0) rest"
    using read_groups_run [of 0 gs "replicate n 0" rest] assms(1,2) by (simp add: read_groups_def fmt_subslice_text)
  also have "\<dots> = ((length gs, False), gs @ replicate (n - length gs) 0, rest)"
  proof (cases "length gs = n")
    case True
    then show ?thesis by (subst read_groups_from.simps) simp
  next
    case False
    then show ?thesis using read_groups_halt [of "length gs" rest] assms by simp
  qed
  finally show ?thesis .
qed

text \<open>A tail that ends in an IPv4 address.\<close>

lemma read_groups_ipv4:
  assumes "length gs + 2 \<le> n" and "no_digit 10 rest" and "ip = Ipv4Addr_new a b c d"
  shows "read_groups (replicate n 0) (fmt_subslice gs @ (if gs = [] then '''' else '':'') @ ipv4_string ip @ rest) =
    ((length gs + 2, True), gs @ [be16 a b, be16 c d] @ replicate (n - length gs - 2) 0, rest)"
proof -
  let ?k = "length gs"
  have bnd: "gs \<noteq> [] \<Longrightarrow> boundary (CHR '':'' # ipv4_string ip @ rest)" by simp
  have "read_groups (replicate n 0) (fmt_subslice gs @ (if gs = [] then '''' else '':'') @ ipv4_string ip @ rest) =
    read_groups_from ?k (gs @ replicate (n - ?k) 0) ((if ?k = 0 then '''' else '':'') @ ipv4_string ip @ rest)"
    using read_groups_run [of 0 gs "replicate n 0" "CHR '':'' # ipv4_string ip @ rest"] bnd assms(1)
    by (cases "gs = []") (simp_all add: read_groups_def fmt_subslice_text)
  moreover have "read_ipv4_addr (ipv4_string ip @ rest) = (Some ip, rest)" using assms(2) by (simp add: read_ipv4_iff)
  moreover obtain m where "n = ?k + Suc (Suc m)" using assms(1) by (metis add.assoc add_2_eq_Suc' le_Suc_ex add.commute)
  ultimately show ?thesis
    using assms(1)
    by (subst (asm) read_groups_from.simps)
      (simp add: read_separator_apply read_atomically_def Let_def assms(3) be16_def list_update_append)
qed

section \<open>The longest run of zeroes\<close>

definition zero_run :: "u16 list \<Rightarrow> nat \<Rightarrow> nat \<Rightarrow> bool" where
  "zero_run gs s k \<longleftrightarrow> s + k \<le> length gs \<and> (\<forall>j<k. gs ! (s + j) = 0)"

lemma zero_run_snoc:
  "zero_run (gs @ [x]) s (Suc k) \<longleftrightarrow> zero_run gs s (Suc k) \<or> s + k = length gs \<and> x = 0 \<and> zero_run gs s k"
  by (auto simp: zero_run_def nth_append less_Suc_eq all_conj_distrib)

lemma zero_run_le: "zero_run gs s k \<Longrightarrow> s + k \<le> length gs"
  by (simp add: zero_run_def)

lemma zero_run_0 [simp]: "zero_run gs s 0 \<longleftrightarrow> s \<le> length gs"
  by (simp add: zero_run_def)

definition zeroes_state :: "u16 list \<Rightarrow> Span \<times> Span" where
  "zeroes_state gs = fold (\<lambda>(i, segment). zeroes_step i segment) (enumerate 0 gs) (Span_default, Span_default)"

lemma zeroes_state_snoc: "zeroes_state (gs @ [x]) = zeroes_step (length gs) x (zeroes_state gs)"
  by (simp add: zeroes_state_def enumerate_append_eq)

definition zeroes_inv :: "u16 list \<Rightarrow> Span \<Rightarrow> Span \<Rightarrow> bool" where
  "zeroes_inv gs l c \<longleftrightarrow>
     zero_run gs (sp_start l) (sp_len l) \<and> (\<forall>s k. zero_run gs s k \<longrightarrow> k \<le> sp_len l) \<and>
     (sp_len c > 0 \<longrightarrow> zero_run gs (sp_start c) (sp_len c) \<and> sp_start c + sp_len c = length gs) \<and>
     (\<forall>s k. zero_run gs s k \<and> s + k = length gs \<longrightarrow> k \<le> sp_len c)"

lemma zeroes_inv_step:
  assumes "zeroes_inv gs l c" and "zeroes_step (length gs) x (l, c) = (l', c')"
  shows "zeroes_inv (gs @ [x]) l' c'"
proof -
  have run_mono: "zero_run gs s k \<Longrightarrow> zero_run (gs @ [x]) s k" for s k by (auto simp: zero_run_def nth_append)
  show ?thesis
  proof (cases "x = 0")
    case True
    define c1 where "c1 = (if sp_len c = 0 then c\<lparr>sp_start := length gs\<rparr> else c)\<lparr>sp_len := sp_len c + 1\<rparr>"
    have c': "c' = c1" and l': "l' = (if sp_len c1 > sp_len l then c1 else l)"
      using assms(2) True by (auto simp: zeroes_step_def c1_def Let_def split: if_splits)
    have len: "sp_len c1 = Suc (sp_len c)" by (simp add: c1_def)
    have run: "zero_run (gs @ [x]) (sp_start c1) (sp_len c1)" "sp_start c1 + sp_len c1 = length (gs @ [x])"
      using assms(1) True by (auto simp: zeroes_inv_def c1_def zero_run_snoc)
    have last: "k \<le> sp_len c1" if "zero_run (gs @ [x]) s k" "s + k = length (gs @ [x])" for s k
      using that assms(1) by (cases k) (auto simp: zeroes_inv_def zero_run_snoc len dest: zero_run_le)
    have "k \<le> max (sp_len l) (sp_len c1)" if "zero_run (gs @ [x]) s k" for s k
    proof (cases "s + k = length (gs @ [x])")
      case True
      then show ?thesis using last [OF that] by simp
    next
      case False
      then have "k = 0 \<or> zero_run gs s k" using that by (cases k) (auto simp: zero_run_snoc)
      then show ?thesis using assms(1) by (auto simp: zeroes_inv_def le_max_iff_disj)
    qed
    then have "\<forall>s k. zero_run (gs @ [x]) s k \<longrightarrow> k \<le> sp_len l'" by (auto simp: l' max_def split: if_splits)
    moreover have "zero_run (gs @ [x]) (sp_start l') (sp_len l')" using run assms(1) run_mono by (auto simp: l' zeroes_inv_def)
    ultimately show ?thesis using run last unfolding zeroes_inv_def c' by blast
  next
    case False
    then have "l' = l" "c' = Span_default" using assms(2) by (auto simp: zeroes_step_def)
    moreover have "zero_run (gs @ [x]) s k \<Longrightarrow> k = 0 \<or> zero_run gs s k" for s k using False by (cases k) (auto simp: zero_run_snoc)
    moreover have "zero_run (gs @ [x]) s k \<Longrightarrow> s + k = length (gs @ [x]) \<Longrightarrow> k = 0" for s k
      using False by (cases k) (auto simp: zero_run_snoc zero_run_def)
    ultimately show ?thesis using assms(1) run_mono unfolding zeroes_inv_def by fastforce
  qed
qed

lemma zeroes_inv: "zeroes_inv gs (fst (zeroes_state gs)) (snd (zeroes_state gs))"
proof (induction gs rule: rev_induct)
  case Nil
  then show ?case by (auto simp: zeroes_inv_def zeroes_state_def zero_run_def)
next
  case (snoc x gs)
  then show ?case by (intro zeroes_inv_step) (auto simp: zeroes_state_snoc)
qed

lemma zeroes_split:
  "gs = take (sp_start (zeroes gs)) gs @ replicate (sp_len (zeroes gs)) 0 @ drop (sp_start (zeroes gs) + sp_len (zeroes gs)) gs" (is "_ = ?r")
  and zeroes_in: "sp_start (zeroes gs) + sp_len (zeroes gs) \<le> length gs"
proof -
  let ?s = "sp_start (zeroes gs)" and ?k = "sp_len (zeroes gs)"
  have run: "zero_run gs ?s ?k" using zeroes_inv [of gs] by (simp add: zeroes_inv_def zeroes_def zeroes_state_def)
  then show le: "?s + ?k \<le> length gs" by (simp add: zero_run_def)
  have "take ?k (drop ?s gs) = replicate ?k 0"
    using run by (intro nth_equalityI) (auto simp: zero_run_def)
  then show "gs = ?r" by (metis append_take_drop_id drop_drop add.commute)
qed

section \<open>IPv6\<close>

definition stop :: "string \<Rightarrow> bool" where
  "stop s \<longleftrightarrow> boundary s \<and> (case s of [] \<Rightarrow> True | c # _ \<Rightarrow> c \<noteq> CHR '':'')"

lemma stop_halts: "stop s \<Longrightarrow> halts i s"
  by (cases s) (auto simp: stop_def halts_def)

lemma stop_no_digit: "stop s \<Longrightarrow> no_digit 10 s"
  by (cases s) (auto simp: stop_def dest: is_digit_10_16)

lemma read_ipv6_full:
  assumes "length gs = 8" and "boundary rest"
  shows "read_ipv6_addr (fmt_subslice gs @ rest) = (Some (Ipv6Addr_from_segments gs), rest)"
  using read_groups_all [of gs 8 rest] assms by (simp add: read_ipv6_addr_def read_atomically_def)

lemma read_ipv6_head:
  assumes "length h \<le> 7" and "read_groups (replicate (7 - length h) 0) s = ((n, b), tail, rest)"
  shows "read_ipv6_addr (fmt_subslice h @ ''::'' @ s) =
    (Some (Ipv6Addr_from_segments (take (8 - n) (h @ replicate (8 - length h) 0) @ take n tail)), rest)"
proof -
  have given: "read_given_char c (c # t) = (Some (), t)" for c t by simp
  have "halts (length h) (''::'' @ s)" by (simp add: halts_def)
  then have "read_groups (replicate 8 0) (fmt_subslice h @ ''::'' @ s) = ((length h, False), h @ replicate (8 - length h) 0, ''::'' @ s)"
    using read_groups_all [of h 8 "''::'' @ s"] assms(1) by simp
  then show ?thesis using assms by (simp add: read_ipv6_addr_def read_atomically_def p_then_def given Let_def)
qed

lemma read_ipv6_compressed:
  assumes "length h + length t \<le> 7" and "stop rest"
  shows "read_ipv6_addr (fmt_subslice h @ ''::'' @ fmt_subslice t @ rest) =
    (Some (Ipv6Addr_from_segments (h @ replicate (8 - length h - length t) 0 @ t)), rest)"
proof -
  have "read_groups (replicate (7 - length h) 0) (fmt_subslice t @ rest) = ((length t, False), t @ replicate (7 - length h - length t) 0, rest)"
    by (rule read_groups_all) (use assms stop_halts in \<open>auto simp: stop_def\<close>)
  from read_ipv6_head [OF _ this] have "read_ipv6_addr (fmt_subslice h @ ''::'' @ fmt_subslice t @ rest) =
      (Some (Ipv6Addr_from_segments (take (8 - length t) (h @ replicate (8 - length h) 0) @ t)), rest)"
    using assms(1) by simp
  then show ?thesis using assms(1) by (simp add: min_absorb1 add.commute)
qed

lemma read_ipv6_ipv4:
  assumes "length t \<le> 1" and "stop rest"
  shows "read_ipv6_addr (''::'' @ fmt_subslice t @ (if t = [] then '''' else '':'') @ ipv4_string (Ipv4Addr_new a b c d) @ rest) =
    (Some (Ipv6Addr_from_segments (replicate (6 - length t) 0 @ t @ [be16 a b, be16 c d])), rest)"
  using read_ipv6_head [OF _ read_groups_ipv4 [OF _ stop_no_digit refl], of "[]" t rest a b c d] assms by simp

text \<open>What holds of the text of an IPv6 address; each case of the printing is one instance.\<close>

definition good_text :: "Ipv6Addr \<Rightarrow> string \<Rightarrow> bool" where
  "good_text ip s \<longleftrightarrow> length s \<le> 39 \<and>
     (\<forall>rest. stop rest \<longrightarrow> read_ipv6_addr (s @ rest) = (Some ip, rest) \<and> read_ipv4_addr (s @ rest) = (None, s @ rest))"

lemma length_fmt_hex: "length (fmt_hex (g :: u16)) \<le> 4"
  using hex.fmt_length [of "unat g" 3] unat_less_pow [of g] by simp

lemma length_groups_text: "length (groups_text (Suc i) gs) \<le> 5 * length gs"
proof (induction gs arbitrary: i)
  case (Cons g gs)
  have "length (groups_text (Suc (Suc i)) gs) \<le> 5 * length gs" by (rule Cons.IH)
  then show ?case using length_fmt_hex [of g] by (simp add: sep_text_def)
qed simp

lemma length_fmt_subslice: "length (fmt_subslice gs) \<le> 5 * length gs - 1"
proof (cases gs)
  case (Cons g gs')
  then show ?thesis using length_fmt_hex [of g] length_groups_text [of 0 gs'] by (simp add: fmt_subslice_text sep_text_def)
qed simp

lemma read_ipv4_subslice:
  assumes "boundary rest" and "gs \<noteq> [] \<or> no_digit 16 rest"
  shows "read_ipv4_addr (fmt_subslice gs @ rest) = (None, fmt_subslice gs @ rest)"
proof (cases gs)
  case Nil
  then show ?thesis using assms(2) by (simp add: read_ipv4_no_digit)
next
  case (Cons g gs')
  then show ?thesis
    using read_ipv4_hex [OF boundary_groups_text [OF assms(1), of 0 gs'], of "unat g"] by (simp add: fmt_subslice_text sep_text_def)
qed

lemma good_text_full: "length gs = 8 \<Longrightarrow> good_text (Ipv6Addr_from_segments gs) (fmt_subslice gs)"
  using length_fmt_subslice [of gs] read_ipv6_full [of gs] unfolding good_text_def stop_def by (auto intro!: read_ipv4_subslice)

lemma good_text_compressed:
  assumes "length h + length t \<le> 7" and "gs = h @ replicate (8 - length h - length t) 0 @ t"
  shows "good_text (Ipv6Addr_from_segments gs) (fmt_subslice h @ ''::'' @ fmt_subslice t)"
proof -
  have "length (fmt_subslice h) + 2 + length (fmt_subslice t) \<le> 39"
    using assms(1) length_fmt_subslice [of h] length_fmt_subslice [of t] by linarith
  moreover have "read_ipv4_addr (fmt_subslice h @ ''::'' @ s) = (None, fmt_subslice h @ ''::'' @ s)" for s
    by (rule read_ipv4_subslice) simp_all
  ultimately show ?thesis using read_ipv6_compressed [OF assms(1)] unfolding good_text_def assms(2) by simp
qed

lemma good_text_ipv4:
  assumes "length t \<le> 1" and "gs = replicate (6 - length t) 0 @ t @ [be16 a b, be16 c d]"
  shows "good_text (Ipv6Addr_from_segments gs) (''::'' @ fmt_subslice t @ (if t = [] then '''' else '':'') @ ipv4_string (Ipv4Addr_new a b c d))"
proof -
  have "length (fmt_subslice t) \<le> 4" using assms(1) length_fmt_subslice [of t] by linarith
  moreover have "read_ipv4_addr (CHR '':'' # s) = (None, CHR '':'' # s)" for s by (rule read_ipv4_no_digit) simp
  ultimately show ?thesis
    using read_ipv6_ipv4 [OF assms(1)] length_ipv4_string [of "Ipv4Addr_new a b c d"] unfolding good_text_def assms(2) by simp
qed

lemma be_val_inj: "length xs = length ys \<Longrightarrow> be_val xs = be_val ys \<longleftrightarrow> xs = ys"
  by (metis be_val_def le_bytes_le_val length_rev rev_rev_ident)

lemma ipv6_octets_eq_iff: "wf_ipv6 ip \<Longrightarrow> wf_ipv6 ip' \<Longrightarrow> be_val (ipv6_octets ip) = be_val (ipv6_octets ip') \<longleftrightarrow> ip = ip'"
  by (cases ip; cases ip') (simp add: wf_ipv6_def ipv6_octets_def be_val_inj)

lemma ipv6_unspecified_iff: "wf_ipv6 ip \<Longrightarrow> ipv6_is_unspecified ip \<longleftrightarrow> ip = Ipv6Addr_from_segments (replicate 8 0)"
proof -
  have eq: "Ipv6Addr_UNSPECIFIED = Ipv6Addr_from_segments (replicate 8 0)"
    by (simp add: Ipv6Addr_UNSPECIFIED_def Ipv6Addr_new_def numeral_eq_Suc)
  have "wf_ipv6 Ipv6Addr_UNSPECIFIED" unfolding eq by (rule wf_from_segments) simp
  then show "wf_ipv6 ip \<Longrightarrow> ipv6_is_unspecified ip \<longleftrightarrow> ip = Ipv6Addr_from_segments (replicate 8 0)"
    using ipv6_octets_eq_iff unfolding ipv6_is_unspecified_def eq by blast
qed

lemma ipv6_loopback_iff: "wf_ipv6 ip \<Longrightarrow> ipv6_is_loopback ip \<longleftrightarrow> ip = Ipv6Addr_from_segments (replicate 7 0 @ [1])"
proof -
  have eq: "Ipv6Addr_LOCALHOST = Ipv6Addr_from_segments (replicate 7 0 @ [1])"
    by (simp add: Ipv6Addr_LOCALHOST_def Ipv6Addr_new_def numeral_eq_Suc)
  have "wf_ipv6 Ipv6Addr_LOCALHOST" unfolding eq by (rule wf_from_segments) simp
  then show "wf_ipv6 ip \<Longrightarrow> ipv6_is_loopback ip \<longleftrightarrow> ip = Ipv6Addr_from_segments (replicate 7 0 @ [1])"
    using ipv6_octets_eq_iff unfolding ipv6_is_loopback_def eq by blast
qed

lemma length_8_split: "length gs = 8 \<Longrightarrow> gs = take 5 gs @ [gs ! 5, gs ! 6, gs ! 7]"
proof -
  assume *: "length gs = 8"
  have "gs = take 5 gs @ drop 5 gs" by simp
  also have "drop 5 gs = [gs ! 5, gs ! 6, gs ! 7]"
    using * by (simp add: Cons_nth_drop_Suc [symmetric] numeral_eq_Suc)
  finally show ?thesis .
qed

lemma to_ipv4_Some:
  assumes "to_ipv4 ip = Some v4"
  obtains a b c d where "v4 = Ipv4Addr_new a b c d" and "ipv6_segments ip ! 5 = 0 \<or> ipv6_segments ip ! 5 = 0xFFFF"
    and "ipv6_segments ip = replicate 5 0 @ [ipv6_segments ip ! 5, be16 a b, be16 c d]"
proof -
  let ?gs = "ipv6_segments ip"
  have pair: "\<exists>a b. be_bytes 2 (unat g) = [a, b] \<and> be16 a b = g" for g :: u16
  proof -
    obtain a b where ab: "be_bytes 2 (unat g) = [a, b]" using be_bytes_2 [of 2 "unat g"] unfolding length_2_iff by blast
    then show ?thesis using be_16_be_bytes [of g] by (simp add: be16_def)
  qed
  obtain a b c d where ab: "be_bytes 2 (unat (?gs ! 6)) = [a, b]" "be16 a b = ?gs ! 6"
    and cd: "be_bytes 2 (unat (?gs ! 7)) = [c, d]" "be16 c d = ?gs ! 7"
    using pair by metis
  have "take 5 ?gs = replicate 5 0" "?gs ! 5 = 0 \<or> ?gs ! 5 = 0xFFFF" "v4 = Ipv4Addr_new a b c d"
    using assms ab(1) cd(1) by (auto simp: to_ipv4_def Let_def split: if_splits)
  then show ?thesis using that length_8_split [of ?gs] ab(2) cd(2) by simp
qed

text \<open>Printing an IPv6 address does not panic, and its text is read back.\<close>

lemma ipv6_string_good:
  assumes "wf_ipv6 ip"
  shows "\<exists>s. ipv6_string ip = Ret s \<and> good_text ip s"
proof -
  let ?gs = "ipv6_segments ip"
  consider (unspecified) "ipv6_is_unspecified ip" | (loopback) "\<not> ipv6_is_unspecified ip" "ipv6_is_loopback ip"
    | (ipv4) v4 where "\<not> ipv6_is_unspecified ip" "\<not> ipv6_is_loopback ip" "to_ipv4 ip = Some v4"
    | (compressed) "\<not> ipv6_is_unspecified ip" "\<not> ipv6_is_loopback ip" "to_ipv4 ip = None" "sp_len (zeroes ?gs) > 1"
    | (full) "\<not> ipv6_is_unspecified ip" "\<not> ipv6_is_loopback ip" "to_ipv4 ip = None" "\<not> sp_len (zeroes ?gs) > 1"
    by (cases "to_ipv4 ip") auto
  then show ?thesis
  proof cases
    case unspecified
    then show ?thesis
      using good_text_compressed [of "[]" "[]" "replicate 8 0"] ipv6_unspecified_iff [OF assms] by (simp add: ipv6_string_def)
  next
    case loopback
    have "fmt_subslice [1] = ''1''" by code_simp
    then show ?thesis
      using loopback good_text_compressed [of "[]" "[1]" "replicate 7 0 @ [1]"] ipv6_loopback_iff [OF assms] by (simp add: ipv6_string_def)
  next
    case ipv4
    obtain a b c d where v4: "v4 = Ipv4Addr_new a b c d" and five: "?gs ! 5 = 0 \<or> ?gs ! 5 = 0xFFFF"
      and gs: "?gs = replicate 5 0 @ [?gs ! 5, be16 a b, be16 c d]"
      using to_ipv4_Some [OF ipv4(3)] by blast
    from five show ?thesis
    proof
      assume zero: "?gs ! 5 = 0"
      then have "?gs = replicate 6 0 @ [be16 a b, be16 c d]" using gs by (simp add: numeral_eq_Suc)
      then have "good_text ip (''::'' @ ipv4_string v4)"
        using good_text_ipv4 [of "[]" ?gs a b c d] Ipv6Addr_from_segments_of [OF assms] v4 by simp
      then show ?thesis using ipv4 zero by (simp add: ipv6_string_def)
    next
      assume ffff: "?gs ! 5 = 0xFFFF"
      then have "?gs = replicate 5 0 @ [0xFFFF] @ [be16 a b, be16 c d]" using gs by simp
      moreover have "fmt_subslice [0xFFFF] = ''ffff''" by (simp add: fmt_number_large fmt_number_small digit_char_def)
      ultimately have "good_text ip (''::ffff:'' @ ipv4_string v4)"
        using good_text_ipv4 [of "[0xFFFF]" ?gs a b c d] Ipv6Addr_from_segments_of [OF assms] v4 by simp
      then show ?thesis using ipv4 ffff by (simp add: ipv6_string_def)
    qed
  next
    case compressed
    let ?z = "zeroes ?gs"
    have len: "sp_start ?z + sp_len ?z \<le> 8" using zeroes_in [of ?gs] by simp
    then have k: "8 - length (take (sp_start ?z) ?gs) - length (drop (sp_start ?z + sp_len ?z) ?gs) = sp_len ?z" by simp
    have "good_text (Ipv6Addr_from_segments ?gs) (fmt_subslice (take (sp_start ?z) ?gs) @ ''::'' @ fmt_subslice (drop (sp_start ?z + sp_len ?z) ?gs))"
    proof (rule good_text_compressed)
      show "?gs = take (sp_start ?z) ?gs @ replicate (8 - length (take (sp_start ?z) ?gs) - length (drop (sp_start ?z + sp_len ?z) ?gs)) 0
        @ drop (sp_start ?z + sp_len ?z) ?gs"
        unfolding k by (rule zeroes_split)
    qed (use len compressed(4) in simp)
    then show ?thesis using compressed Ipv6Addr_from_segments_of [OF assms] by (simp add: ipv6_string_def Let_def)
  next
    case full
    then show ?thesis using good_text_full [of ?gs] Ipv6Addr_from_segments_of [OF assms] by (simp add: ipv6_string_def Let_def)
  qed
qed

section \<open>Round trips\<close>

lemma fmt_through_Ret: "length s \<le> cap \<Longrightarrow> fmt_through cap f (Ret s) = Ret (pad f s)"
  by (simp add: fmt_through_def direct_def write_unwrap_def pad_def)

lemma pad_plain [simp]: "pad plain s = s"
  by (simp add: pad_def plain_def)

lemma ipv6_fmt_good:
  assumes "wf_ipv6 ip"
  obtains s where "\<And>f. Ipv6Addr_fmt f ip = Ret (pad f s)" and "ipv6_string ip = Ret s" and "good_text ip s"
proof -
  obtain s where s: "ipv6_string ip = Ret s" "good_text ip s" using ipv6_string_good [OF assms] by blast
  then have "Ipv6Addr_fmt f ip = Ret (pad f s)" for f
    by (simp add: Ipv6Addr_fmt_def IPV6_BUF_LEN_def good_text_def fmt_through_Ret)
  then show ?thesis using that s by blast
qed

lemma stop_Nil [simp]: "stop []"
  by (simp add: stop_def)

text \<open>
  Every IP address is read back from its text: the text of an IPv4 or IPv6 address is accepted by the parser of its own type and by the parser of addresses of
  either kind, and both return the address.
\<close>

lemma ip_text_roundtrip:
  assumes "wf_ip ip"
  shows "\<exists>s. IpAddr_fmt plain ip = Ret s \<and> IpAddr_from_str s = Inr ip \<and>
    (case ip of IpV4 v4 \<Rightarrow> Ipv4Addr_from_str s = Inr v4 | IpV6 v6 \<Rightarrow> Ipv6Addr_from_str s = Inr v6)"
proof (cases ip)
  case (IpV4 v4)
  have "read_ipv4_addr (ipv4_string v4) = (Some v4, [])" by (simp add: read_ipv4_iff)
  then show ?thesis
    using length_ipv4_string [of v4] IpV4
    by (simp add: IpAddr_from_str_def Ipv4Addr_from_str_def parse_with_def read_ip_addr_def p_or_else_def p_map_def p_then_def p_some_def)
next
  case (IpV6 v6)
  then obtain s where fmt: "\<And>f. Ipv6Addr_fmt f v6 = Ret (pad f s)" and good: "good_text v6 s"
    using assms ipv6_fmt_good [of v6] by auto
  have "read_ipv6_addr (s @ []) = (Some v6, [])" "read_ipv4_addr (s @ []) = (None, s @ [])" using good stop_Nil unfolding good_text_def by blast+
  then show ?thesis
    using IpV6 fmt
    by (simp add: IpAddr_from_str_def Ipv6Addr_from_str_def parse_with_def read_ip_addr_def p_or_else_def p_map_def p_then_def p_some_def)
qed

fun wf_sock :: "SocketAddr \<Rightarrow> bool" where
  "wf_sock (SockV4 _) = True"
| "wf_sock (SockV6 a) = wf_ipv6 (v6_ip a)"

fun without_flow :: "SocketAddr \<Rightarrow> SocketAddr" where
  "without_flow (SockV4 a) = SockV4 a"
| "without_flow (SockV6 a) = SockV6 (v6_set_flowinfo 0 a)"

lemma read_port_text: "no_digit 10 rest \<Longrightarrow> read_port (CHR '':'' # fmt_dec p @ rest) = (Some p, rest)"
  using dec.read_fmt [of rest None p True] by (simp add: read_port_def within_max_def)

lemma read_scope_text: "no_digit 10 rest \<Longrightarrow> read_scope_id (CHR ''%'' # fmt_dec n @ rest) = (Some n, rest)"
  using dec.read_fmt [of rest None n True] by (simp add: read_scope_id_def within_max_def)

lemma read_given_other: "c \<noteq> d \<Longrightarrow> read_given_char c (d # s) = (None, d # s)"
  by (simp add: read_given_char_def read_char_def read_atomically_def p_then_def p_none_def)

lemma read_scope_other: "read_scope_id (CHR '']'' # s) = (None, CHR '']'' # s)"
  by (simp add: read_scope_id_def read_atomically_def p_then_def read_given_other)

lemma ntohs_htons [simp]: "ntohs (htons p) = p" "htons (ntohs p) = p"
  by (simp_all add: ntohs_def htons_def)

lemma bracket_stop [simp]: "stop (CHR '']'' # s)" "stop (CHR ''%'' # s)"
  by (simp_all add: stop_def is_digit_def to_digit_def)

lemma read_sock_v4:
  "read_socket_addr_v4 (ipv4_string ip @ CHR '':'' # fmt_dec p) = (Some (SocketAddrV4_new ip p), [])"
proof -
  have "read_ipv4_addr (ipv4_string ip @ CHR '':'' # fmt_dec p) = (Some ip, CHR '':'' # fmt_dec p)" by (simp add: read_ipv4_iff)
  then show ?thesis using read_port_text [of "[]" p] by (simp add: read_socket_addr_v4_def p_some_def)
qed

definition scope_text :: "u32 \<Rightarrow> string" where
  "scope_text n = (if n = 0 then '''' else CHR ''%'' # fmt_dec n)"

lemma read_scope: "p_unwrap_or read_scope_id 0 (scope_text n @ CHR '']'' # s) = (Some n, CHR '']'' # s)"
proof -
  have "no_digit 10 (CHR '']'' # s)" by (simp add: is_digit_def to_digit_def)
  then show ?thesis using read_scope_text [of "CHR '']'' # s" n] by (simp add: scope_text_def p_unwrap_or_def read_scope_other)
qed

lemma stop_scope_text: "stop (scope_text n @ CHR '']'' # s)"
  by (simp add: scope_text_def)

lemma read_sock_v6:
  assumes "good_text ip s"
  shows "read_socket_addr_v6 (CHR ''['' # s @ scope_text n @ CHR '']'' # CHR '':'' # fmt_dec p) = (Some (SocketAddrV6_new ip p 0 n), [])"
proof -
  have "read_ipv6_addr (s @ scope_text n @ CHR '']'' # CHR '':'' # fmt_dec p) = (Some ip, scope_text n @ CHR '']'' # CHR '':'' # fmt_dec p)"
    using assms stop_scope_text unfolding good_text_def by blast
  then show ?thesis using read_port_text [of "[]" p] by (simp add: read_socket_addr_v6_def read_scope p_some_def)
qed

lemma read_sock_v4_bracket: "read_socket_addr_v4 (CHR ''['' # s) = (None, CHR ''['' # s)"
proof -
  have "read_ipv4_addr (CHR ''['' # s) = (None, CHR ''['' # s)" by (rule read_ipv4_no_digit) (simp add: is_digit_def to_digit_def)
  then show ?thesis by (simp add: read_socket_addr_v4_def read_atomically_def p_then_def)
qed

lemma v6_string_text:
  "ipv6_string (v6_ip a) = Ret s \<Longrightarrow> v6_string a = Ret (CHR ''['' # s @ scope_text (v6_scope_id a) @ CHR '']'' # CHR '':'' # fmt_dec (v6_port a))"
  by (simp add: v6_string_def scope_text_def)

lemma length_fmt_dec:
  "length (fmt_dec (p :: u16)) \<le> 5" "length (fmt_dec (n :: u32)) \<le> 10"
  using dec.fmt_length [of "unat p" 4] unat_less_pow [of p] dec.fmt_length [of "unat n" 9] unat_less_pow [of n] by simp_all

lemma v6_fmt_good:
  assumes "wf_ipv6 (v6_ip a)"
  obtains s where "\<And>f. SocketAddrV6_fmt f a = Ret (pad f s)" and "read_socket_addr_v6 s = (Some (SocketAddrV6_new (v6_ip a) (v6_port a) 0 (v6_scope_id a)), [])"
    and "hd s = CHR ''[''" and "s \<noteq> []"
proof -
  obtain t where t: "ipv6_string (v6_ip a) = Ret t" "good_text (v6_ip a) t" using ipv6_string_good [OF assms] by blast
  let ?s = "CHR ''['' # t @ scope_text (v6_scope_id a) @ CHR '']'' # CHR '':'' # fmt_dec (v6_port a)"
  have "length ?s \<le> IPV6_SOCKET_BUF_LEN"
    using t(2) length_fmt_dec(1) [of "v6_port a"] length_fmt_dec(2) [of "v6_scope_id a"]
    by (simp add: good_text_def scope_text_def IPV6_SOCKET_BUF_LEN_def)
  then have "SocketAddrV6_fmt f a = Ret (pad f ?s)" for f
    unfolding SocketAddrV6_fmt_def v6_string_text [OF t(1)] by (rule fmt_through_Ret)
  then show ?thesis using that read_sock_v6 [OF t(2)] by (metis list.sel(1) list.distinct(1))
qed

lemma v4_fmt_text: "SocketAddrV4_fmt f a = Ret (pad f (ipv4_string (v4_ip a) @ CHR '':'' # fmt_dec (v4_port a)))"
  using length_ipv4_string [of "v4_ip a"] length_fmt_dec(1) [of "v4_port a"]
  by (simp add: SocketAddrV4_fmt_def IPV4_SOCKET_BUF_LEN_def fmt_through_Ret)

lemma socket_text_roundtrip:
  assumes "wf_sock a"
  shows "\<exists>s b. SocketAddr_fmt plain a = Ret s \<and> SocketAddr_from_str s = Inr b \<and> sock_eq b (without_flow a)"
proof (cases a)
  case (SockV4 v4)
  have "sock_eq (SockV4 (SocketAddrV4_new (v4_ip v4) (v4_port v4))) (without_flow a)"
    by (simp add: SockV4 v4_eq_def SocketAddrV4_new_def v4_ip_def v4_port_def)
  then show ?thesis
    using SockV4 read_sock_v4 [of "v4_ip v4" "v4_port v4"]
    by (simp add: v4_fmt_text SocketAddr_from_str_def parse_with_def read_socket_addr_def p_or_else_def p_map_def p_then_def p_some_def)
next
  case (SockV6 v6)
  then obtain s where s: "\<And>f. SocketAddrV6_fmt f v6 = Ret (pad f s)"
    "read_socket_addr_v6 s = (Some (SocketAddrV6_new (v6_ip v6) (v6_port v6) 0 (v6_scope_id v6)), [])" "hd s = CHR ''[''" "s \<noteq> []"
    using assms v6_fmt_good [of v6] by auto
  obtain t where t: "s = CHR ''['' # t" using s(3,4) by (cases s) auto
  have "sock_eq (SockV6 (SocketAddrV6_new (v6_ip v6) (v6_port v6) 0 (v6_scope_id v6))) (without_flow a)"
    by (simp add: SockV6 v6_eq_def SocketAddrV6_new_def v6_ip_def v6_port_def v6_scope_id_def v6_set_flowinfo_def)
  then show ?thesis
    using SockV6 s(1,2) unfolding t
    by (simp add: SocketAddr_from_str_def parse_with_def read_socket_addr_def p_or_else_def p_map_def p_then_def p_some_def read_sock_v4_bracket)
qed

text \<open>
  C39: Every address is read back from its text. An IPv4 or IPv6 address is returned by the parser of its own type and by the parser of addresses of either kind; a socket
  address up to the flow label, which the text does not have: the parser returns an address that the code takes for equal to the one printed with its flow label
  cleared.
\<close>

theorem address_text_roundtrip:
  assumes "wf_ip ip" and "wf_sock a"
  shows "(\<exists>s. IpAddr_fmt plain ip = Ret s \<and> IpAddr_from_str s = Inr ip \<and>
      (case ip of IpV4 v4 \<Rightarrow> Ipv4Addr_from_str s = Inr v4 | IpV6 v6 \<Rightarrow> Ipv6Addr_from_str s = Inr v6)) \<and>
    (\<exists>s b. SocketAddr_fmt plain a = Ret s \<and> SocketAddr_from_str s = Inr b \<and> sock_eq b (without_flow a))"
  using ip_text_roundtrip [OF assms(1)] socket_text_roundtrip [OF assms(2)] by blast

theorem address_text_roundtrip_witness:
  "\<exists>s b. SocketAddr_fmt plain (SockV6 (SocketAddrV6_new Ipv6Addr_LOCALHOST 443 0 7)) = Ret s \<and> SocketAddr_from_str s = Inr b \<and>
     sock_eq b (SockV6 (SocketAddrV6_new Ipv6Addr_LOCALHOST 443 0 7))"
proof -
  let ?a = "SockV6 (SocketAddrV6_new Ipv6Addr_LOCALHOST 443 0 7)"
  have "v6_ip (SocketAddrV6_new Ipv6Addr_LOCALHOST 443 0 7) = Ipv6Addr_LOCALHOST" by (simp add: v6_ip_def SocketAddrV6_new_def)
  then have "wf_sock ?a" "wf_ip (IpV6 Ipv6Addr_LOCALHOST)" by (simp_all add: Ipv6Addr_LOCALHOST_def Ipv6Addr_new_def)
  moreover have "without_flow ?a = ?a" by (simp add: v6_set_flowinfo_def SocketAddrV6_new_def)
  ultimately show ?thesis using address_text_roundtrip [of "IpV6 Ipv6Addr_LOCALHOST" ?a] by simp
qed

text \<open>
  C40: Printing never panics: the buffers of 15, 39, 21 and 58 bytes that are used for a width or a precision are large enough for every address, and the result is the plain
  text, truncated and filled up.
\<close>

theorem fmt_buffers_suffice:
  assumes "wf_ip ip" and "wf_sock a"
  shows "\<exists>s t. IpAddr_fmt plain ip = Ret s \<and> SocketAddr_fmt plain a = Ret t \<and>
    (\<forall>f. IpAddr_fmt f ip = Ret (pad f s) \<and> SocketAddr_fmt f a = Ret (pad f t))"
proof -
  have "\<exists>s. \<forall>f. IpAddr_fmt f ip = Ret (pad f s)"
  proof (cases ip)
    case (IpV4 v4)
    then show ?thesis using length_ipv4_string [of v4] by (auto simp: Ipv4Addr_fmt_def IPV4_BUF_LEN_def fmt_through_Ret)
  next
    case (IpV6 v6)
    then show ?thesis using assms(1) ipv6_fmt_good [of v6] by auto
  qed
  moreover have "\<exists>t. \<forall>f. SocketAddr_fmt f a = Ret (pad f t)"
  proof (cases a)
    case (SockV4 v4)
    then show ?thesis by (auto simp: v4_fmt_text)
  next
    case (SockV6 v6)
    then show ?thesis using assms(2) v6_fmt_good [of v6] by auto
  qed
  ultimately show ?thesis by (metis pad_plain)
qed

theorem fmt_buffers_suffice_witness:
  "\<exists>s. \<forall>f. SocketAddr_fmt f (SockV6 (SocketAddrV6_new Ipv6Addr_LOCALHOST 65535 0 4294967295)) = Ret (pad f s)"
proof -
  let ?a = "SocketAddrV6_new Ipv6Addr_LOCALHOST 65535 0 4294967295"
  have "v6_ip ?a = Ipv6Addr_LOCALHOST" by (simp add: v6_ip_def SocketAddrV6_new_def)
  then have "wf_sock (SockV6 ?a)" "wf_ip (IpV6 Ipv6Addr_LOCALHOST)" by (simp_all add: Ipv6Addr_LOCALHOST_def Ipv6Addr_new_def)
  then show ?thesis using fmt_buffers_suffice by blast
qed

section \<open>Classes of IPv4 addresses as blocks\<close>

definition quad :: "nat \<Rightarrow> nat \<Rightarrow> nat \<Rightarrow> nat \<Rightarrow> nat" where
  "quad a b c d = ((a * 256 + b) * 256 + c) * 256 + d"

text \<open>The block of the addresses that share the first \<open>k\<close> bits with \<open>base\<close>.\<close>

definition in_block :: "Ipv4Addr \<Rightarrow> nat \<times> nat \<Rightarrow> bool" where
  "in_block ip blk \<longleftrightarrow> (case blk of (base, k) \<Rightarrow> unat (u32_from_Ipv4Addr ip) div 2 ^ (32 - k) = base div 2 ^ (32 - k))"

definition outside_block :: "Ipv4Addr \<Rightarrow> nat \<times> nat \<Rightarrow> bool" where
  "outside_block ip blk \<longleftrightarrow> \<not> in_block ip blk"

lemma be_val_new: "be_val (ipv4_octets (Ipv4Addr_new a b c d)) = quad (unat a) (unat b) (unat c) (unat d)"
  by (simp add: be_val_def quad_def)

lemma value_new: "unat (u32_from_Ipv4Addr (Ipv4Addr_new a b c d)) = quad (unat a) (unat b) (unat c) (unat d)"
proof -
  have "be_val (ipv4_octets (Ipv4Addr_new a b c d)) < 2 ^ 32" using le_val_bound [of "[d, c, b, a]"] by (simp add: be_val_def)
  then show ?thesis unfolding u32_from_Ipv4Addr_def be_val_new by (simp add: unat_of_nat take_bit_eq_mod)
qed

lemma quad_div:
  assumes "b < 256" and "c < 256" and "d < 256"
  shows "quad a b c d div 256 = (a * 256 + b) * 256 + c" "quad a b c d div 65536 = a * 256 + b" "quad a b c d div 16777216 = a"
    "quad a b c d div 4194304 = a * 4 + b div 64" "quad a b c d div 1048576 = a * 16 + b div 16" "quad a b c d div 131072 = a * 128 + b div 2"
    "quad a b c d div 268435456 = a div 16"
proof -
  have snoc: "(x * 256 + y) div 256 = x" if "y < 256" for x y :: nat using that by simp
  show q8: "quad a b c d div 256 = (a * 256 + b) * 256 + c" unfolding quad_def by (rule snoc [OF assms(3)])
  have split: "quad a b c d div (256 * m) = (quad a b c d div 256) div m" for m by (rule div_mult2_eq)
  show q16: "quad a b c d div 65536 = a * 256 + b" using split [of 256] snoc [OF assms(2)] by (simp add: q8)
  have split': "quad a b c d div (65536 * m) = (a * 256 + b) div m" for m unfolding q16 [symmetric] by (rule div_mult2_eq)
  show "quad a b c d div 16777216 = a" using split' [of 256] snoc [OF assms(1)] by simp
  have part: "(a * (k * m) + b) div m = a * k + b div m" if "0 < m" for k m :: nat
    using that div_mult_self1 [of m b "a * k"] by (simp add: ac_simps)
  show "quad a b c d div 4194304 = a * 4 + b div 64" using split' [of 64] part [of 64 4] by simp
  show "quad a b c d div 1048576 = a * 16 + b div 16" using split' [of 16] part [of 16 16] by simp
  show "quad a b c d div 131072 = a * 128 + b div 2" using split' [of 2] part [of 2 128] by simp
  have "quad a b c d div (16777216 * 16) = (quad a b c d div 16777216) div 16" by (rule div_mult2_eq)
  then show "quad a b c d div 268435456 = a div 16" using split' [of 256] snoc [OF assms(1)] by simp
qed

lemma octet_high_bits:
  fixes b :: u8
  assumes "v < 256"
  shows "b AND NOT (mask k) = word_of_nat v \<longleftrightarrow> unat b div 2 ^ k * 2 ^ k = v"
proof -
  have eq: "b AND NOT (mask k) = push_bit k (drop_bit k b)"
    by (rule bit_word_eqI) (auto simp: bit_simps)
  have "unat b div 2 ^ k * 2 ^ k < 256"
    by (rule order.strict_trans1 [OF div_times_less_eq_dividend]) (use unat_less_pow [of b] in simp)
  then have "take_bit 8 (push_bit k (drop_bit k (unat b))) = unat b div 2 ^ k * 2 ^ k"
    by (simp add: take_bit_eq_mod push_bit_eq_mult drop_bit_eq_div)
  moreover have "take_bit 8 (unat b) = unat b" using unat_less_pow [of b] by (simp add: take_bit_eq_mod)
  ultimately have "unat (push_bit k (drop_bit k b)) = unat b div 2 ^ k * 2 ^ k"
    by (simp add: unsigned_push_bit_eq unsigned_drop_bit_eq)
  moreover have "unat (word_of_nat v :: u8) = v" using assms by (simp add: unat_of_nat take_bit_eq_mod)
  ultimately show ?thesis unfolding eq by (metis word_unat_eq_iff)
qed

lemma octet_masks:
  "(b :: u8) AND 0xC0 = 0x40 \<longleftrightarrow> unat b div 64 = 1" "b AND 0xFE = 18 \<longleftrightarrow> unat b div 2 = 9" "b AND 240 = 240 \<longleftrightarrow> unat b div 16 = 15"
proof -
  have masks: "(0xC0 :: u8) = NOT (mask 6)" "(0xFE :: u8) = NOT (mask 1)" "(240 :: u8) = NOT (mask 4)" by code_simp+
  show "b AND 0xC0 = 0x40 \<longleftrightarrow> unat b div 64 = 1" using octet_high_bits [of 64 b 6] unfolding masks(1) by simp
  show "b AND 0xFE = 18 \<longleftrightarrow> unat b div 2 = 9" using octet_high_bits [of 18 b 1] unfolding masks(2) by simp
  have "b AND NOT (mask 4) = 240 \<longleftrightarrow> unat b div 16 = 15" using octet_high_bits [of 240 b 4] by simp
  then show "b AND 240 = 240 \<longleftrightarrow> unat b div 16 = 15" using masks(3) by metis
qed

text \<open>The blocks of the registry of special addresses that are not reachable globally.\<close>

definition special_blocks :: "(nat \<times> nat) list" where
  "special_blocks =
     [(quad 0 0 0 0, 8), (quad 10 0 0 0, 8), (quad 100 64 0 0, 10), (quad 127 0 0 0, 8), (quad 169 254 0 0, 16), (quad 172 16 0 0, 12),
      (quad 192 0 0 0, 24), (quad 192 0 2 0, 24), (quad 192 168 0 0, 16), (quad 198 18 0 0, 15), (quad 198 51 100 0, 24), (quad 203 0 113 0, 24),
      (quad 240 0 0 0, 4)]"

lemma octets_less: "unat (b :: u8) < 256" "unat b div 64 < 4" "unat b div 16 < 16" "unat b div 2 < 128"
  using unat_less_pow [of b] by simp_all

lemma in_block_new:
  "in_block (Ipv4Addr_new a b c d) (quad p q r s, k) \<longleftrightarrow>
     quad (unat a) (unat b) (unat c) (unat d) div 2 ^ (32 - k) = quad p q r s div 2 ^ (32 - k)"
  by (simp add: in_block_def value_new)

lemma pair_eq: "u < m \<Longrightarrow> v < m \<Longrightarrow> x * m + u = y * m + v \<longleftrightarrow> x = y \<and> u = v" for u v m x y :: nat
proof
  assume "u < m" "v < m" "x * m + u = y * m + v"
  then have "(x * m + u) div m = (y * m + v) div m" "(x * m + u) mod m = (y * m + v) mod m" by simp_all
  then show "x = y \<and> u = v" using \<open>u < m\<close> \<open>v < m\<close> by simp
qed simp

lemma block_8: "in_block (Ipv4Addr_new a b c d) (quad p 0 0 0, 8) \<longleftrightarrow> unat a = p"
  by (simp add: in_block_new quad_div octets_less)

lemma block_16: "q < 256 \<Longrightarrow> in_block (Ipv4Addr_new a b c d) (quad p q 0 0, 16) \<longleftrightarrow> unat a = p \<and> unat b = q"
  by (simp add: in_block_new quad_div octets_less pair_eq)

lemma block_24: "q < 256 \<Longrightarrow> r < 256 \<Longrightarrow> in_block (Ipv4Addr_new a b c d) (quad p q r 0, 24) \<longleftrightarrow> unat a = p \<and> unat b = q \<and> unat c = r"
  by (simp add: in_block_new quad_div octets_less pair_eq del: distrib_left_numeral distrib_right_numeral)

lemma block_part:
  assumes "q < 256"
  shows "in_block (Ipv4Addr_new a b c d) (quad p q 0 0, 10) \<longleftrightarrow> unat a = p \<and> unat b div 64 = q div 64"
    "in_block (Ipv4Addr_new a b c d) (quad p q 0 0, 12) \<longleftrightarrow> unat a = p \<and> unat b div 16 = q div 16"
    "in_block (Ipv4Addr_new a b c d) (quad p q 0 0, 15) \<longleftrightarrow> unat a = p \<and> unat b div 2 = q div 2"
    "in_block (Ipv4Addr_new a b c d) (quad p q 0 0, 4) \<longleftrightarrow> unat a div 16 = p div 16"
proof -
  have "q div 64 < 4" "q div 16 < 16" "q div 2 < 128" using assms by simp_all
  then show "in_block (Ipv4Addr_new a b c d) (quad p q 0 0, 10) \<longleftrightarrow> unat a = p \<and> unat b div 64 = q div 64"
    "in_block (Ipv4Addr_new a b c d) (quad p q 0 0, 12) \<longleftrightarrow> unat a = p \<and> unat b div 16 = q div 16"
    "in_block (Ipv4Addr_new a b c d) (quad p q 0 0, 15) \<longleftrightarrow> unat a = p \<and> unat b div 2 = q div 2"
    "in_block (Ipv4Addr_new a b c d) (quad p q 0 0, 4) \<longleftrightarrow> unat a div 16 = p div 16"
    using assms by (simp_all add: in_block_new quad_div octets_less pair_eq)
qed

text \<open>
  \<^verbatim>\<open>is_global\<close> of IPv4 is membership in blocks: an address is reachable globally exactly when it is 192.0.0.9 or 192.0.0.10, or lies in none of the thirteen
  blocks of special addresses.
\<close>

theorem ipv4_global_iff_blocks:
  "ipv4_is_global ip \<longleftrightarrow>
     ip = Ipv4Addr_new 192 0 0 9 \<or> ip = Ipv4Addr_new 192 0 0 10 \<or> list_all (outside_block ip) special_blocks"
proof -
  obtain a b c d where ip: "ip = Ipv4Addr_new a b c d" by (rule ipv4_cases)
  have val: "be_val (ipv4_octets ip) = be_val (ipv4_octets ip') \<longleftrightarrow> ip = ip'" for ip'
  proof -
    obtain a' b' c' d' where "ip' = Ipv4Addr_new a' b' c' d'" by (rule ipv4_cases)
    then show ?thesis unfolding ip by (simp add: be_val_inj)
  qed
  have nums: "be_val (ipv4_octets ip) = 0xC0000009 \<longleftrightarrow> ip = Ipv4Addr_new 192 0 0 9"
    "be_val (ipv4_octets ip) = 0xC000000A \<longleftrightarrow> ip = Ipv4Addr_new 192 0 0 10"
    "ipv4_is_broadcast ip \<longleftrightarrow> ip = Ipv4Addr_new 255 255 255 255"
    using val [of "Ipv4Addr_new 192 0 0 9"] val [of "Ipv4Addr_new 192 0 0 10"] val [of "Ipv4Addr_new 255 255 255 255"]
    by (simp_all add: be_val_def ipv4_is_broadcast_def Ipv4Addr_BROADCAST_def)
  have priv: "ipv4_is_private ip \<longleftrightarrow> in_block ip (quad 10 0 0 0, 8) \<or> in_block ip (quad 172 16 0 0, 12) \<or> in_block ip (quad 192 168 0 0, 16)"
    by (auto simp: ip ipv4_is_private_def block_8 block_16 block_part word_unat_eq_iff word_le_nat_alt)
  have res: "ipv4_is_reserved ip \<or> ipv4_is_broadcast ip \<longleftrightarrow> in_block ip (quad 240 0 0 0, 4)"
    unfolding ipv4_is_reserved_def nums(3) by (auto simp: ip block_part octet_masks)
  have single:
    "ipv4_is_loopback ip \<longleftrightarrow> in_block ip (quad 127 0 0 0, 8)" "ipv4_is_link_local ip \<longleftrightarrow> in_block ip (quad 169 254 0 0, 16)"
    "ipv4_is_shared ip \<longleftrightarrow> in_block ip (quad 100 64 0 0, 10)" "ipv4_is_benchmarking ip \<longleftrightarrow> in_block ip (quad 198 18 0 0, 15)"
    "(ipv4_octets ip ! 0 = 192 \<and> ipv4_octets ip ! 1 = 0 \<and> ipv4_octets ip ! 2 = 0) \<longleftrightarrow> in_block ip (quad 192 0 0 0, 24)"
    "ipv4_octets ip ! 0 \<noteq> 0 \<longleftrightarrow> \<not> in_block ip (quad 0 0 0 0, 8)"
    by (simp_all add: ip ipv4_is_loopback_def ipv4_is_link_local_def ipv4_is_shared_def ipv4_is_benchmarking_def
        block_8 block_16 block_24 block_part octet_masks word_unat_eq_iff [of a] word_unat_eq_iff [of b] word_unat_eq_iff [of c])
  have doc: "ipv4_is_documentation ip \<longleftrightarrow>
      in_block ip (quad 192 0 2 0, 24) \<or> in_block ip (quad 198 51 100 0, 24) \<or> in_block ip (quad 203 0 113 0, 24)"
    by (simp add: ip ipv4_is_documentation_def block_24 word_unat_eq_iff)
  show ?thesis
    unfolding ipv4_is_global_def Let_def nums(1,2) priv single doc special_blocks_def list_all_Nil_iff list_all_Cons_iff outside_block_def using res by argo
qed

section \<open>Structures of the C library\<close>

text \<open>
  What \<^verbatim>\<open>into_inner\<close> passes out is read back by \<^verbatim>\<open>sockaddr_to_addr\<close> from a storage that starts with those bytes; and a length that is too short for the family makes it
  panic, which the host can choose.
\<close>

fun native :: "SocketAddr \<Rightarrow> bool" where
  "native (SockV4 a) = (sin_family (inner4 a) = AF_INET \<and> length (sin_zero (inner4 a)) = 8)"
| "native (SockV6 a) = (sin6_family (inner6 a) = AF_INET6 \<and> length (sin6_addr (inner6 a)) = 16)"

lemma le_word_at:
  fixes x :: "'a::len word"
  assumes "bs = pre @ le_bytes n (unat x) @ post" and "LENGTH('a) = 8 * n" and "off = length pre"
  shows "word_of_nat (le_val (bslice off n bs)) = x"
proof -
  have "bslice off n bs = le_bytes n (unat x)" using assms(1,3) by (simp add: bslice_def)
  moreover have "unat x < 256 ^ n" using unat_less_pow [of x] by (simp add: assms(2) power_mult)
  ultimately show ?thesis by (simp add: le_val_le_bytes)
qed

lemma bslice_at: "bs = pre @ xs @ post \<Longrightarrow> off = length pre \<Longrightarrow> n = length xs \<Longrightarrow> bslice off n bs = xs"
  by (simp add: bslice_def)

lemma sockaddr_roundtrip:
  assumes "native a" and "sock_into_inner a = (bs, n)"
  shows "sockaddr_to_addr (bs @ filler) n = Ret (Inr a)"
proof (cases a)
  case (SockV4 v4)
  obtain s where s: "v4 = SocketAddrV4 s" by (cases v4)
  let ?f = "le_bytes 2 (unat (sin_family s))" and ?p = "le_bytes 2 (unat (sin_port s))" and ?a = "le_bytes 4 (unat (sin_addr s))"
  have bs: "bs = ?f @ ?p @ ?a @ sin_zero s" "n = 16" using assms(2) SockV4 s by auto
  have len: "length (sin_zero s) = 8" "sin_family s = AF_INET" using assms(1) SockV4 s by auto
  have "word_of_nat (le_val (bslice 0 2 (bs @ filler))) = sin_family s"
    by (rule le_word_at [where pre = "[]" and post = "?p @ ?a @ sin_zero s @ filler"]) (simp_all only: bs append_assoc append_Nil, simp_all)
  moreover have "word_of_nat (le_val (bslice 2 2 (bs @ filler))) = sin_port s"
    by (rule le_word_at [where pre = ?f and post = "?a @ sin_zero s @ filler"]) (simp_all only: bs append_assoc, simp_all)
  moreover have "word_of_nat (le_val (bslice 4 4 (bs @ filler))) = sin_addr s"
    by (rule le_word_at [where pre = "?f @ ?p" and post = "sin_zero s @ filler"]) (simp_all only: bs append_assoc, simp_all)
  moreover have "bslice 8 8 (bs @ filler) = sin_zero s"
    by (rule bslice_at [where pre = "?f @ ?p @ ?a" and post = filler]) (simp_all only: bs append_assoc, simp_all add: len)
  ultimately show ?thesis using len SockV4 s bs(2) by (simp add: sockaddr_to_addr_def)
next
  case (SockV6 v6)
  obtain s where s: "v6 = SocketAddrV6 s" by (cases v6)
  let ?f = "le_bytes 2 (unat (sin6_family s))" and ?p = "le_bytes 2 (unat (sin6_port s))" and ?w = "le_bytes 4 (unat (sin6_flowinfo s))"
    and ?i = "le_bytes 4 (unat (sin6_scope_id s))"
  have bs: "bs = ?f @ ?p @ ?w @ sin6_addr s @ ?i" "n = 28" using assms(2) SockV6 s by auto
  have len: "length (sin6_addr s) = 16" "sin6_family s = AF_INET6" using assms(1) SockV6 s by auto
  have "word_of_nat (le_val (bslice 0 2 (bs @ filler))) = sin6_family s"
    by (rule le_word_at [where pre = "[]" and post = "?p @ ?w @ sin6_addr s @ ?i @ filler"]) (simp_all only: bs append_assoc append_Nil, simp_all)
  moreover have "word_of_nat (le_val (bslice 2 2 (bs @ filler))) = sin6_port s"
    by (rule le_word_at [where pre = ?f and post = "?w @ sin6_addr s @ ?i @ filler"]) (simp_all only: bs append_assoc, simp_all)
  moreover have "word_of_nat (le_val (bslice 4 4 (bs @ filler))) = sin6_flowinfo s"
    by (rule le_word_at [where pre = "?f @ ?p" and post = "sin6_addr s @ ?i @ filler"]) (simp_all only: bs append_assoc, simp_all)
  moreover have "word_of_nat (le_val (bslice 24 4 (bs @ filler))) = sin6_scope_id s"
    by (rule le_word_at [where pre = "?f @ ?p @ ?w @ sin6_addr s" and post = filler]) (simp_all only: bs append_assoc, simp_all add: len)
  moreover have "bslice 8 16 (bs @ filler) = sin6_addr s"
    by (rule bslice_at [where pre = "?f @ ?p @ ?w" and post = "?i @ filler"]) (simp_all only: bs append_assoc, simp_all add: len)
  ultimately show ?thesis using len SockV6 s bs(2) by (simp add: sockaddr_to_addr_def AF_INET_def AF_INET6_def)
qed


lemma sockaddr_short_panics:
  "le_val (bslice 0 2 storage) = 2 \<Longrightarrow> len < 16 \<Longrightarrow> sockaddr_to_addr storage len = Panic"
  "le_val (bslice 0 2 storage) = 10 \<Longrightarrow> len < 28 \<Longrightarrow> sockaddr_to_addr storage len = Panic"
  by (simp_all add: sockaddr_to_addr_def AF_INET_def AF_INET6_def)

section \<open>Setters and order\<close>

text \<open>
  A setter changes what it names and keeps the rest, the other kind of address included, where it starts from a fresh one; and the order of IPv4 addresses is the order of
  their numbers, so it is linear.
\<close>

lemma sock_set_port_ip [simp]: "sock_ip (sock_set_port p a) = sock_ip a" "sock_port (sock_set_port p a) = p"
  by (cases a; simp add: v4_set_port_def v6_set_port_def v4_ip_def v6_ip_def v4_port_def v6_port_def)+

lemma sock_set_ip_port [simp]: "sock_port (sock_set_ip ip a) = sock_port a" "sock_ip (sock_set_ip ip a) = ip"
  by (cases a; cases ip; simp add: v4_set_ip_def v6_set_ip_def v4_ip_def v6_ip_def v4_port_def v6_port_def SocketAddr_new_def
      SocketAddrV4_new_def SocketAddrV6_new_def)+

lemma ipv4_cmp_numbers: "ipv4_cmp a b = compare_nat (unat (u32_from_Ipv4Addr a)) (unat (u32_from_Ipv4Addr b))"
proof -
  have "unat (u32_from_Ipv4Addr a) = be_val (u32_to_ne_bytes (s_addr a))" for a
    using le_val_bound [of "rev (ipv4_octets a)"]
    by (simp add: u32_from_Ipv4Addr_def be_val_def ipv4_octets_def unat_of_nat take_bit_eq_mod u32_to_ne_bytes_def)
  then show ?thesis by (simp add: ipv4_cmp_def)
qed

lemma u32_ipv4_roundtrip: "u32_from_Ipv4Addr (Ipv4Addr_from_u32 n) = n" "Ipv4Addr_from_u32 (u32_from_Ipv4Addr ip) = ip"
proof -
  show "u32_from_Ipv4Addr (Ipv4Addr_from_u32 n) = n"
  proof -
    obtain a b c d where abcd: "be_bytes 4 (unat n) = [a, b, c, d]" using be_bytes_2 [of 4 "unat n"] unfolding length_4_iff by blast
    have "be_val (be_bytes 4 (unat n)) = unat n" using unat_less_pow [of n] by (simp add: be_val_def be_bytes_def le_val_le_bytes)
    then show ?thesis unfolding Ipv4Addr_from_u32_def abcd by (simp add: u32_from_Ipv4Addr_def)
  qed
  obtain a b c d where ip: "ip = Ipv4Addr_new a b c d" by (rule ipv4_cases)
  have len: "length [d, c, b, a] = 4" by simp
  have "be_bytes 4 (be_val [a, b, c, d]) = [a, b, c, d]"
    using le_bytes_le_val [of "[d, c, b, a]"] unfolding len by (simp add: be_bytes_def be_val_def del: le_val.simps le_bytes.simps)
  then show "Ipv4Addr_from_u32 (u32_from_Ipv4Addr ip) = ip"
    using value_new [of a b c d] be_val_new [of a b c d] by (simp add: ip Ipv4Addr_from_u32_def)
qed

end
