(* ===== verification/Sgx_Alloc_System.thy ===== *)
theory Sgx_Alloc_System
  imports Sgx_Alignalloc
begin

text \<open>
  The global allocator, \<^verbatim>\<open>src/sgx_alloc/src/system.rs\<close>, over the functions of the C library, and the reserved memory of \<^verbatim>\<open>src/sgx_alloc/src/rsrvmem.rs\<close>. The state is the
  map from the addresses of blocks to their bytes; the C functions are parameters. A write or a copy that leaves a block is \<open>Undef\<close>.
\<close>

type_synonym block_heap = "nat \<rightharpoonup> bytes"

record c_alloc =
  a_malloc :: "usize \<Rightarrow> block_heap \<Rightarrow> nat \<times> block_heap"
  a_calloc :: "usize \<Rightarrow> usize \<Rightarrow> block_heap \<Rightarrow> nat \<times> block_heap"
  a_realloc :: "nat \<Rightarrow> usize \<Rightarrow> block_heap \<Rightarrow> nat \<times> block_heap"
  a_memalign :: "usize \<Rightarrow> usize \<Rightarrow> block_heap \<Rightarrow> nat \<times> block_heap"
  a_free :: "nat \<Rightarrow> block_heap \<Rightarrow> block_heap"

datatype AllocError = AllocError

section \<open>Raw memory\<close>

definition write_bytes0 :: "nat \<Rightarrow> nat \<Rightarrow> nat \<Rightarrow> block_heap \<Rightarrow> block_heap outcome" where
  "write_bytes0 p off n h =
     (case h p of
        Some bs \<Rightarrow> if off + n \<le> length bs then Ret (h(p \<mapsto> bsplice off (zeros n) bs)) else Undef
      | None \<Rightarrow> Undef)"

definition copy_nonoverlapping :: "nat \<Rightarrow> nat \<Rightarrow> nat \<Rightarrow> block_heap \<Rightarrow> block_heap outcome" where
  "copy_nonoverlapping src dst n h =
     (case (h src, h dst) of
        (Some bs, Some cs) \<Rightarrow>
          if src \<noteq> dst \<and> n \<le> length bs \<and> n \<le> length cs then Ret (h(dst \<mapsto> bsplice 0 (take n bs) cs)) else Undef
      | _ \<Rightarrow> Undef)"

definition c_free :: "c_alloc \<Rightarrow> nat \<Rightarrow> block_heap \<Rightarrow> block_heap outcome" where
  "c_free P p h = (if h p = None then Undef else Ret (a_free P p h))"

definition c_realloc :: "c_alloc \<Rightarrow> nat \<Rightarrow> usize \<Rightarrow> block_heap \<Rightarrow> (nat \<times> block_heap) outcome" where
  "c_realloc P p n h = (if h p = None then Undef else Ret (a_realloc P p n h))"

section \<open>\<^verbatim>\<open>GlobalAlloc\<close>\<close>

definition MIN_ALIGN :: usize where "MIN_ALIGN = 16"

definition sys_alloc :: "c_alloc \<Rightarrow> Layout \<Rightarrow> block_heap \<Rightarrow> nat \<times> block_heap" where
  "sys_alloc P layout h =
     (if lalign layout \<le> MIN_ALIGN \<and> lalign layout \<le> lsize layout then a_malloc P (lsize layout) h
      else a_memalign P (lalign layout) (lsize layout) h)"

definition sys_alloc_zeroed :: "c_alloc \<Rightarrow> Layout \<Rightarrow> block_heap \<Rightarrow> (nat \<times> block_heap) outcome" where
  "sys_alloc_zeroed P layout h =
     (if lalign layout \<le> MIN_ALIGN \<and> lalign layout \<le> lsize layout then Ret (a_calloc P (lsize layout) 1 h)
      else case sys_alloc P layout h of (ptr, h') \<Rightarrow>
             if ptr \<noteq> 0 then bind_out (write_bytes0 ptr 0 (lsize layout) h') (\<lambda>h''. Ret (ptr, h'')) else Ret (ptr, h'))"

definition sys_dealloc :: "c_alloc \<Rightarrow> nat \<Rightarrow> Layout \<Rightarrow> block_heap \<Rightarrow> block_heap outcome" where
  "sys_dealloc P ptr layout h = c_free P ptr h"

definition realloc_fallback :: "c_alloc \<Rightarrow> nat \<Rightarrow> Layout \<Rightarrow> usize \<Rightarrow> block_heap \<Rightarrow> (nat \<times> block_heap) outcome" where
  "realloc_fallback P ptr old_layout new_size h =
     (case sys_alloc P \<lparr>lsize = new_size, lalign = lalign old_layout\<rparr> h of (new_ptr, h1) \<Rightarrow>
        if new_ptr \<noteq> 0
        then bind_out (copy_nonoverlapping ptr new_ptr (min (lsize old_layout) new_size) h1) (\<lambda>h2.
             bind_out (sys_dealloc P ptr old_layout h2) (\<lambda>h3. Ret (new_ptr, h3)))
        else Ret (new_ptr, h1))"

definition sys_realloc :: "c_alloc \<Rightarrow> nat \<Rightarrow> Layout \<Rightarrow> usize \<Rightarrow> block_heap \<Rightarrow> (nat \<times> block_heap) outcome" where
  "sys_realloc P ptr layout new_size h =
     (if lalign layout \<le> MIN_ALIGN \<and> lalign layout \<le> new_size then c_realloc P ptr new_size h
      else realloc_fallback P ptr layout new_size h)"

section \<open>\<^verbatim>\<open>Allocator\<close>\<close>

type_synonym alloc_result = "((AllocError + nat \<times> usize) \<times> block_heap) outcome"

definition non_null :: "nat \<Rightarrow> usize \<Rightarrow> block_heap \<Rightarrow> (AllocError + nat \<times> usize) \<times> block_heap" where
  "non_null p n h = (if p = 0 then Inl AllocError else Inr (p, n), h)"

text \<open>The dangling pointer of a layout is its alignment.\<close>

definition alloc_impl :: "c_alloc \<Rightarrow> bool \<Rightarrow> Layout \<Rightarrow> block_heap \<Rightarrow> alloc_result" where
  "alloc_impl P zeroed layout h =
     (if lsize layout = 0 then Ret (Inr (lalign layout, 0), h)
      else bind_out (if zeroed then sys_alloc_zeroed P layout h else Ret (sys_alloc P layout h)) (\<lambda>(raw_ptr, h').
             Ret (non_null raw_ptr (lsize layout) h')))"

definition deallocate :: "c_alloc \<Rightarrow> nat \<Rightarrow> Layout \<Rightarrow> block_heap \<Rightarrow> block_heap outcome" where
  "deallocate P ptr layout h = (if lsize layout \<noteq> 0 then sys_dealloc P ptr layout h else Ret h)"

definition move_to :: "c_alloc \<Rightarrow> nat \<Rightarrow> Layout \<Rightarrow> usize \<Rightarrow> (AllocError + nat \<times> usize) \<times> block_heap \<Rightarrow> alloc_result" where
  "move_to P ptr old_layout n r =
     (case r of
        (Inl e, h) \<Rightarrow> Ret (Inl e, h)
      | (Inr (new_ptr, len), h) \<Rightarrow>
          bind_out (copy_nonoverlapping ptr new_ptr n h) (\<lambda>h2.
          bind_out (deallocate P ptr old_layout h2) (\<lambda>h3. Ret (Inr (new_ptr, len), h3))))"

text \<open>\<open>dbg\<close>: the build has debug assertions. A false \<^verbatim>\<open>assume\<close> is undefined behaviour.\<close>

definition grow_impl :: "bool \<Rightarrow> c_alloc \<Rightarrow> nat \<Rightarrow> Layout \<Rightarrow> Layout \<Rightarrow> bool \<Rightarrow> block_heap \<Rightarrow> alloc_result" where
  "grow_impl dbg P ptr old_layout new_layout zeroed h =
     (if dbg \<and> \<not> lsize new_layout \<ge> lsize old_layout then Panic
      else if lsize old_layout = 0 then alloc_impl P zeroed new_layout h
      else if lalign old_layout = lalign new_layout
      then if \<not> lsize new_layout \<ge> lsize old_layout then Undef
           else bind_out (sys_realloc P ptr old_layout (lsize new_layout) h) (\<lambda>(raw_ptr, h').
                  if raw_ptr = 0 then Ret (Inl AllocError, h')
                  else bind_out (if zeroed then write_bytes0 raw_ptr (lsize old_layout) (lsize new_layout - lsize old_layout) h' else Ret h')
                         (\<lambda>h''. Ret (Inr (raw_ptr, lsize new_layout), h'')))
      else bind_out (alloc_impl P zeroed new_layout h) (move_to P ptr old_layout (lsize old_layout)))"

definition sys_allocate where "sys_allocate P layout h = alloc_impl P False layout h"
definition sys_allocate_zeroed where "sys_allocate_zeroed P layout h = alloc_impl P True layout h"
definition sys_grow where "sys_grow dbg P ptr old_layout new_layout h = grow_impl dbg P ptr old_layout new_layout False h"
definition sys_grow_zeroed where "sys_grow_zeroed dbg P ptr old_layout new_layout h = grow_impl dbg P ptr old_layout new_layout True h"

definition sys_shrink :: "bool \<Rightarrow> c_alloc \<Rightarrow> nat \<Rightarrow> Layout \<Rightarrow> Layout \<Rightarrow> block_heap \<Rightarrow> alloc_result" where
  "sys_shrink dbg P ptr old_layout new_layout h =
     (if dbg \<and> \<not> lsize new_layout \<le> lsize old_layout then Panic
      else if lsize new_layout = 0
      then bind_out (deallocate P ptr old_layout h) (\<lambda>h'. Ret (Inr (lalign new_layout, 0), h'))
      else if lalign old_layout = lalign new_layout
      then if \<not> lsize new_layout \<le> lsize old_layout then Undef
           else bind_out (sys_realloc P ptr old_layout (lsize new_layout) h) (\<lambda>(raw_ptr, h'). Ret (non_null raw_ptr (lsize new_layout) h'))
      else bind_out (sys_allocate P new_layout h) (move_to P ptr old_layout (lsize new_layout)))"

section \<open>What the C library documents\<close>

definition gives_block :: "nat \<Rightarrow> (bytes \<Rightarrow> bool) \<Rightarrow> block_heap \<Rightarrow> nat \<times> block_heap \<Rightarrow> bool" where
  "gives_block al ok h r \<longleftrightarrow>
     (case r of (p, h') \<Rightarrow> p = 0 \<and> h' = h \<or> p \<noteq> 0 \<and> h p = None \<and> al dvd p \<and> (\<exists>bs. ok bs \<and> h' = h(p \<mapsto> bs)))"

text \<open>A block that replaces another: the bytes that fit are kept.\<close>

definition replaces :: "nat \<Rightarrow> nat \<Rightarrow> nat \<Rightarrow> bytes \<Rightarrow> block_heap \<Rightarrow> nat \<times> block_heap \<Rightarrow> bool" where
  "replaces al n p bs h r \<longleftrightarrow>
     (case r of (q, h') \<Rightarrow> q = 0 \<and> h' = h \<or> q \<noteq> 0 \<and> al dvd q \<and> (q = p \<or> h q = None) \<and>
        (\<exists>cs. length cs = n \<and> take (min n (length bs)) cs = take (min n (length bs)) bs \<and> h' = (h(p := None))(q \<mapsto> cs)))"

text \<open>
  A block of the asked size and alignment, distinct from the live ones, or null and nothing changed; \<^verbatim>\<open>realloc\<close> keeps the bytes that fit. \<^verbatim>\<open>malloc\<close>,
  \<^verbatim>\<open>calloc\<close> and \<^verbatim>\<open>realloc\<close> align at 16 bytes.
\<close>

definition c_alloc_ok :: "c_alloc \<Rightarrow> bool" where
  "c_alloc_ok P \<longleftrightarrow>
     (\<forall>n h. 0 < n \<longrightarrow> gives_block 16 (\<lambda>bs. length bs = n) h (a_malloc P n h)) \<and>
     (\<forall>n h. 0 < n \<longrightarrow> gives_block 16 (\<lambda>bs. bs = zeros n) h (a_calloc P n 1 h)) \<and>
     (\<forall>al n h. 0 < n \<and> is_power_of_two al \<longrightarrow> gives_block al (\<lambda>bs. length bs = n) h (a_memalign P al n h)) \<and>
     (\<forall>p n h bs. 0 < n \<and> h p = Some bs \<longrightarrow> replaces 16 n p bs h (a_realloc P p n h)) \<and>
     (\<forall>p h. a_free P p h = h(p := None))"

section \<open>Reserved memory\<close>

datatype ProtectAttr = Prot_Read | Prot_ReadWrite | Prot_ReadExec | Prot_ReadWriteExec
datatype RsrvMemAllocErr = RsrvMemAllocErr

record 'w rsrv_ffi =
  sgx_alloc_rsrv_mem :: "usize \<Rightarrow> block_heap \<Rightarrow> 'w \<Rightarrow> (nat \<times> block_heap) \<times> 'w"
  sgx_alloc_rsrv_mem_ex :: "nat \<Rightarrow> usize \<Rightarrow> block_heap \<Rightarrow> 'w \<Rightarrow> (nat \<times> block_heap) \<times> 'w"
  sgx_free_rsrv_mem :: "nat \<Rightarrow> usize \<Rightarrow> block_heap \<Rightarrow> 'w \<Rightarrow> (int \<times> block_heap) \<times> 'w"
  sgx_tprotect_rsrv_mem :: "nat \<Rightarrow> usize \<Rightarrow> int \<Rightarrow> 'w \<Rightarrow> nat \<times> 'w"

definition SGX_PROT_READ :: u32 where "SGX_PROT_READ = 1"
definition SGX_PROT_WRITE :: u32 where "SGX_PROT_WRITE = 2"
definition SGX_PROT_EXEC :: u32 where "SGX_PROT_EXEC = 4"
definition SE_PAGE_SIZE :: usize where "SE_PAGE_SIZE = 0x1000"

definition rsrv_result :: "nat \<Rightarrow> RsrvMemAllocErr + nat" where
  "rsrv_result p = (if p = 0 then Inl RsrvMemAllocErr else Inr p)"

definition rsrv_alloc :: "'w rsrv_ffi \<Rightarrow> u32 \<Rightarrow> block_heap \<Rightarrow> 'w \<Rightarrow> (RsrvMemAllocErr + nat) \<times> block_heap \<times> 'w" where
  "rsrv_alloc P count h w = (case sgx_alloc_rsrv_mem P (unat count * SE_PAGE_SIZE) h w of ((p, h'), w') \<Rightarrow> (rsrv_result p, h', w'))"

definition rsrv_alloc_with_addr :: "'w rsrv_ffi \<Rightarrow> nat \<Rightarrow> u32 \<Rightarrow> block_heap \<Rightarrow> 'w \<Rightarrow> (RsrvMemAllocErr + nat) \<times> block_heap \<times> 'w" where
  "rsrv_alloc_with_addr P a count h w = (case sgx_alloc_rsrv_mem_ex P a (unat count * SE_PAGE_SIZE) h w of ((p, h'), w') \<Rightarrow> (rsrv_result p, h', w'))"

definition rsrv_alloc_zeroed :: "'w rsrv_ffi \<Rightarrow> u32 \<Rightarrow> block_heap \<Rightarrow> 'w \<Rightarrow> ((RsrvMemAllocErr + nat) \<times> block_heap \<times> 'w) outcome" where
  "rsrv_alloc_zeroed P count h w =
     (case sgx_alloc_rsrv_mem P (unat count * SE_PAGE_SIZE) h w of ((p, h'), w') \<Rightarrow>
        if p \<noteq> 0 then bind_out (write_bytes0 p 0 (unat count * SE_PAGE_SIZE) h') (\<lambda>h''. Ret (rsrv_result p, h'', w'))
        else Ret (rsrv_result p, h', w'))"

definition rsrv_dealloc :: "'w rsrv_ffi \<Rightarrow> nat \<Rightarrow> u32 \<Rightarrow> block_heap \<Rightarrow> 'w \<Rightarrow> (RsrvMemAllocErr + unit) \<times> block_heap \<times> 'w" where
  "rsrv_dealloc P a count h w =
     (case sgx_free_rsrv_mem P a (unat count * SE_PAGE_SIZE) h w of ((r, h'), w') \<Rightarrow> (if r = 0 then Inr () else Inl RsrvMemAllocErr, h', w'))"

definition prot_attr :: "ProtectAttr \<Rightarrow> u32" where
  "prot_attr prot =
     (case prot of
        Prot_Read \<Rightarrow> SGX_PROT_READ
      | Prot_ReadWrite \<Rightarrow> or SGX_PROT_READ SGX_PROT_WRITE
      | Prot_ReadExec \<Rightarrow> or SGX_PROT_READ SGX_PROT_EXEC
      | Prot_ReadWriteExec \<Rightarrow> or (or SGX_PROT_READ SGX_PROT_WRITE) SGX_PROT_EXEC)"

definition rsrv_protect :: "'w rsrv_ffi \<Rightarrow> nat \<Rightarrow> u32 \<Rightarrow> ProtectAttr \<Rightarrow> 'w \<Rightarrow> (RsrvMemAllocErr + unit) \<times> 'w" where
  "rsrv_protect P a count prot w =
     (case sgx_tprotect_rsrv_mem P a (unat count * SE_PAGE_SIZE) (sint (prot_attr prot)) w of (r, w') \<Rightarrow>
        (if r = 0 then Inr () else Inl RsrvMemAllocErr, w'))"

section \<open>The contract of an allocator\<close>

text \<open>
  \<open>owned h p l bs\<close>: the memory of layout \<open>l\<close> at \<open>p\<close> holds \<open>bs\<close>; \<open>rest h p l\<close>: the heap without it. What an allocator promises is about the memory it is given and
  leaves the rest alone; what follows of it for any sequence of resizes is proved once.
\<close>

definition layout_ok :: "Layout \<Rightarrow> bool" where "layout_ok l \<longleftrightarrow> is_power_of_two (lalign l)"

text \<open>A run of resizes; one that fails leaves the memory as it is.\<close>

fun resizes :: "(bool \<Rightarrow> nat \<Rightarrow> Layout \<Rightarrow> Layout \<Rightarrow> 'h \<Rightarrow> ((AllocError + nat \<times> usize) \<times> 'h) outcome) \<Rightarrow> bool \<Rightarrow> Layout list \<Rightarrow> nat \<Rightarrow> Layout \<Rightarrow> 'h \<Rightarrow> (nat \<times> Layout \<times> 'h) outcome" where
  "resizes f z [] p l h = Ret (p, l, h)"
| "resizes f z (l' # ls) p l h =
     bind_out (f z p l l' h) (\<lambda>(r, h').
       case r of Inl _ \<Rightarrow> resizes f z ls p l h' | Inr (p', n) \<Rightarrow> resizes f z ls p' l' h')"

locale allocator =
  fixes allocate :: "bool \<Rightarrow> Layout \<Rightarrow> 'h \<Rightarrow> ((AllocError + nat \<times> usize) \<times> 'h) outcome"
    and release :: "nat \<Rightarrow> Layout \<Rightarrow> 'h \<Rightarrow> 'h outcome"
    and resize :: "bool \<Rightarrow> nat \<Rightarrow> Layout \<Rightarrow> Layout \<Rightarrow> 'h \<Rightarrow> ((AllocError + nat \<times> usize) \<times> 'h) outcome"
    and fits :: "Layout \<Rightarrow> bool"
    and owned :: "'h \<Rightarrow> nat \<Rightarrow> Layout \<Rightarrow> bytes \<Rightarrow> bool"
    and rest :: "'h \<Rightarrow> nat \<Rightarrow> Layout \<Rightarrow> 'h"
  assumes allocate_ok: "fits l \<Longrightarrow> \<exists>r h'. allocate z l h = Ret (r, h') \<and>
      (case r of Inl _ \<Rightarrow> h' = h | Inr (p, n) \<Rightarrow> n = lsize l \<and> rest h' p l = h \<and> (\<exists>bs. owned h' p l bs \<and> (z \<longrightarrow> bs = zeros n)))"
    and release_ok: "owned h p l bs \<Longrightarrow> release p l h = Ret (rest h p l)"
    and resize_ok: "fits l' \<Longrightarrow> owned h p l bs \<Longrightarrow> \<exists>r h'. resize z p l l' h = Ret (r, h') \<and>
      (case r of Inl _ \<Rightarrow> h' = h
       | Inr (p', n) \<Rightarrow> n = lsize l' \<and> rest h' p' l' = rest h p l \<and>
           (\<exists>bs'. owned h' p' l' bs' \<and> take (min n (lsize l)) bs' = take (min n (lsize l)) bs \<and> (z \<longrightarrow> drop (lsize l) bs' = zeros (n - lsize l))))"
    and owned_length: "owned h p l bs \<Longrightarrow> length bs = lsize l"
begin

lemma allocate_release:
  assumes "fits l" and "allocate z l h = Ret (Inr (p, n), h')"
  shows "release p l h' = Ret h"
  using allocate_ok [OF assms(1), of z h] assms(2) release_ok by auto

lemma resizes_keep:
  assumes "owned h p l bs" and "\<And>l'. l' \<in> set ls \<Longrightarrow> fits l' \<and> m \<le> lsize l'" and "m \<le> lsize l"
  shows "\<exists>p' l' h' bs'. resizes resize z ls p l h = Ret (p', l', h') \<and> owned h' p' l' bs' \<and> take m bs' = take m bs \<and> rest h' p' l' = rest h p l"
  using assms
proof (induction ls arbitrary: p l h bs)
  case (Cons l1 ls)
  have ok: "fits l1" "m \<le> lsize l1" using Cons.prems(2) by simp_all
  obtain r h1 where r: "resize z p l l1 h = Ret (r, h1)" and post: "case r of Inl _ \<Rightarrow> h1 = h
       | Inr (p', n) \<Rightarrow> n = lsize l1 \<and> rest h1 p' l1 = rest h p l \<and>
           (\<exists>bs'. owned h1 p' l1 bs' \<and> take (min n (lsize l)) bs' = take (min n (lsize l)) bs \<and> (z \<longrightarrow> drop (lsize l) bs' = zeros (n - lsize l)))"
    using resize_ok [OF ok(1) Cons.prems(1), of z] by blast
  show ?case
  proof (cases r)
    case (Inl e)
    then show ?thesis using r post Cons.IH [OF Cons.prems(1) _ Cons.prems(3)] Cons.prems(2) by simp
  next
    case (Inr pn)
    obtain p1 where pn: "pn = (p1, lsize l1)" using post Inr by (cases pn) simp
    obtain bs1 where b: "owned h1 p1 l1 bs1" "take (min (lsize l1) (lsize l)) bs1 = take (min (lsize l1) (lsize l)) bs" "rest h1 p1 l1 = rest h p l"
      using post unfolding Inr pn by auto
    have "take m (take (min (lsize l1) (lsize l)) bs1) = take m (take (min (lsize l1) (lsize l)) bs)" using b(2) by simp
    then have "take m bs1 = take m bs" using ok(2) Cons.prems(3) by (simp add: min_absorb1)
    then show ?thesis using r Inr pn b Cons.IH [OF b(1) _ ok(2)] Cons.prems(2) by simp
  qed
qed auto

end

end
