(* ===== verification/Sgx_Alloc_Proofs.thy ===== *)
theory Sgx_Alloc_Proofs
  imports Sgx_Alloc_System
begin

text \<open>
  The allocator of \<open>Sgx_Alloc_System\<close> keeps the contract of the trait \<^verbatim>\<open>Allocator\<close>, over a C library that does what it documents.
\<close>

definition sys_owned :: "block_heap \<Rightarrow> nat \<Rightarrow> Layout \<Rightarrow> bytes \<Rightarrow> bool" where
  "sys_owned h p l bs \<longleftrightarrow> layout_ok l \<and> p \<noteq> 0 \<and> lalign l dvd p \<and> length bs = lsize l \<and> (lsize l = 0 \<or> h p = Some bs)"

definition sys_rest :: "block_heap \<Rightarrow> nat \<Rightarrow> Layout \<Rightarrow> block_heap" where
  "sys_rest h p l = (if lsize l = 0 then h else h(p := None))"

definition sys_resize :: "bool \<Rightarrow> c_alloc \<Rightarrow> bool \<Rightarrow> nat \<Rightarrow> Layout \<Rightarrow> Layout \<Rightarrow> block_heap \<Rightarrow> alloc_result" where
  "sys_resize dbg P z p l l' h =
     (if lsize l' \<ge> lsize l then (if z then sys_grow_zeroed dbg P p l l' h else sys_grow dbg P p l l' h) else sys_shrink dbg P p l l' h)"

section \<open>Blocks\<close>

lemma power_of_two_dvd_16: "is_power_of_two al \<Longrightarrow> al \<le> 16 \<Longrightarrow> 16 dvd p \<Longrightarrow> al dvd p"
proof -
  assume al: "is_power_of_two al" "al \<le> 16" and p: "16 dvd p"
  obtain k where k: "al = 2 ^ k" using al(1) by (auto simp: is_power_of_two_def)
  have "(2::nat) ^ k \<le> 2 ^ 4" using al(2) k by simp
  then have "k \<le> 4" by (rule power_le_imp_le_exp [rotated]) simp
  then have "(2::nat) ^ k dvd 2 ^ 4" by (rule le_imp_power_dvd)
  moreover have "(2::nat) ^ 4 = 16" by simp
  ultimately show "al dvd p" using k p by (metis dvd_trans)
qed

lemma gives_blockE:
  assumes "gives_block al ok h (p, h')"
  obtains "p = 0" and "h' = h" | bs where "p \<noteq> 0" and "h p = None" and "al dvd p" and "ok bs" and "h' = h(p \<mapsto> bs)"
  using assms by (auto simp: gives_block_def)

lemma sys_alloc_gives:
  assumes "c_alloc_ok P" and "layout_ok l" and "0 < lsize l"
  shows "gives_block (lalign l) (\<lambda>bs. length bs = lsize l) h (sys_alloc P l h)"
proof (cases "lalign l \<le> MIN_ALIGN \<and> lalign l \<le> lsize l")
  case True
  have "gives_block 16 (\<lambda>bs. length bs = lsize l) h (a_malloc P (lsize l) h)" using assms(1,3) by (simp add: c_alloc_ok_def)
  then show ?thesis
    using True assms(2) power_of_two_dvd_16 by (auto simp: sys_alloc_def gives_block_def MIN_ALIGN_def layout_ok_def split: prod.splits)
next
  case False
  then show ?thesis using assms by (auto simp: sys_alloc_def c_alloc_ok_def layout_ok_def)
qed

lemma layout_ok_pos: "layout_ok l \<Longrightarrow> lalign l \<noteq> 0"
  by (auto simp: layout_ok_def is_power_of_two_def)

lemma write_all_zeros: "h p = Some bs \<Longrightarrow> length bs = n \<Longrightarrow> write_bytes0 p 0 n h = Ret (h(p \<mapsto> zeros n))"
  by (simp add: write_bytes0_def bsplice_all)

lemma sys_alloc_zeroed_gives:
  assumes "c_alloc_ok P" and "layout_ok l" and "0 < lsize l"
  shows "\<exists>r. sys_alloc_zeroed P l h = Ret r \<and> gives_block (lalign l) (\<lambda>bs. bs = zeros (lsize l)) h r"
proof (cases "lalign l \<le> MIN_ALIGN \<and> lalign l \<le> lsize l")
  case True
  have "gives_block 16 (\<lambda>bs. bs = zeros (lsize l)) h (a_calloc P (lsize l) 1 h)" using assms(1,3) by (simp add: c_alloc_ok_def)
  then show ?thesis
    using True assms(2) power_of_two_dvd_16 by (auto simp: sys_alloc_zeroed_def gives_block_def MIN_ALIGN_def layout_ok_def split: prod.splits)
next
  case False
  obtain p h' where run: "sys_alloc P l h = (p, h')" by fastforce
  with sys_alloc_gives [OF assms, of h] have "gives_block (lalign l) (\<lambda>bs. length bs = lsize l) h (p, h')" by simp
  then show ?thesis
  proof (cases rule: gives_blockE)
    case 1
    then show ?thesis using False run by (auto simp: sys_alloc_zeroed_def gives_block_def)
  next
    case (2 bs)
    then have "write_bytes0 p 0 (lsize l) h' = Ret (h(p \<mapsto> zeros (lsize l)))" using write_all_zeros [of h' p bs] by simp
    then show ?thesis using False run 2 by (auto simp: sys_alloc_zeroed_def gives_block_def)
  qed
qed

text \<open>What the contract says of a result.\<close>

definition allocated :: "bool \<Rightarrow> Layout \<Rightarrow> block_heap \<Rightarrow> (AllocError + nat \<times> usize) \<times> block_heap \<Rightarrow> bool" where
  "allocated z l h r \<longleftrightarrow>
     (case r of
        (Inl _, h') \<Rightarrow> h' = h
      | (Inr (p, n), h') \<Rightarrow> n = lsize l \<and> sys_rest h' p l = h \<and> (\<exists>bs. sys_owned h' p l bs \<and> (z \<longrightarrow> bs = zeros n)))"

lemma allocated_block:
  assumes "gives_block (lalign l) ok h (p, h')" and "0 < lsize l" and "\<And>bs. ok bs \<Longrightarrow> length bs = lsize l \<and> (z \<longrightarrow> bs = zeros (lsize l))"
    and "layout_ok l"
  shows "allocated z l h (non_null p (lsize l) h')"
  using assms(1)
proof (cases rule: gives_blockE)
  case 1
  then show ?thesis by (simp add: allocated_def non_null_def)
next
  case (2 bs)
  then have "sys_owned h' p l bs" "sys_rest h' p l = h" "z \<longrightarrow> bs = zeros (lsize l)"
    using assms(2,3,4) by (auto simp: sys_owned_def sys_rest_def fun_eq_iff)
  then show ?thesis using 2 by (auto simp: allocated_def non_null_def)
qed

lemma alloc_impl_ok:
  assumes "c_alloc_ok P" and "layout_ok l"
  shows "\<exists>r. alloc_impl P z l h = Ret r \<and> allocated z l h r"
proof (cases "lsize l = 0")
  case True
  have "sys_owned h (lalign l) l []" using True assms(2) layout_ok_pos [OF assms(2)] by (simp add: sys_owned_def)
  then show ?thesis using True by (auto simp: alloc_impl_def allocated_def sys_rest_def intro!: exI [of _ "[]"])
next
  case False
  then have pos: "0 < lsize l" by simp
  show ?thesis
  proof (cases z)
    case True
    obtain r where "sys_alloc_zeroed P l h = Ret r" "gives_block (lalign l) (\<lambda>bs. bs = zeros (lsize l)) h r"
      using sys_alloc_zeroed_gives [OF assms pos] by blast
    then show ?thesis using allocated_block [OF _ pos _ assms(2)] False True by (cases r) (force simp: alloc_impl_def)
  next
    case False
    obtain p h' where run: "sys_alloc P l h = (p, h')" by fastforce
    with sys_alloc_gives [OF assms pos, of h] have "gives_block (lalign l) (\<lambda>bs. length bs = lsize l) h (p, h')" by simp
    then show ?thesis using allocated_block [OF _ pos _ assms(2)] False run pos by (force simp: alloc_impl_def)
  qed
qed

section \<open>Resizing\<close>

lemma copy_and_free:
  assumes "c_alloc_ok P" and "h p = Some bs" and "h q = None" and "k \<le> length bs" and "k \<le> length cs"
  shows "bind_out (copy_nonoverlapping p q k (h(q \<mapsto> cs))) (\<lambda>h2. bind_out (c_free P p h2) F) = F ((h(p := None))(q \<mapsto> take k bs @ drop k cs))"
proof -
  have ne: "p \<noteq> q" using assms(2,3) by auto
  have "copy_nonoverlapping p q k (h(q \<mapsto> cs)) = Ret (h(q \<mapsto> take k bs @ drop k cs))"
    using assms ne by (simp add: copy_nonoverlapping_def bsplice_def)
  moreover have "c_free P p (h(q \<mapsto> take k bs @ drop k cs)) = Ret ((h(p := None))(q \<mapsto> take k bs @ drop k cs))"
    using assms(1,2) ne by (simp add: c_free_def c_alloc_ok_def fun_upd_twist)
  ultimately show ?thesis by simp
qed

lemma sys_realloc_ok:
  assumes "c_alloc_ok P" and "layout_ok l" and "h p = Some bs" and "length bs = lsize l" and "0 < n"
  shows "\<exists>r. sys_realloc P p l n h = Ret r \<and> replaces (lalign l) n p bs h r"
proof (cases "lalign l \<le> MIN_ALIGN \<and> lalign l \<le> n")
  case True
  have "replaces 16 n p bs h (a_realloc P p n h)" using assms(1,3,5) by (simp add: c_alloc_ok_def)
  then have "replaces (lalign l) n p bs h (a_realloc P p n h)"
    using True assms(2) power_of_two_dvd_16 by (auto simp: replaces_def MIN_ALIGN_def layout_ok_def split: prod.splits)
  then show ?thesis using True assms(3) by (auto simp: sys_realloc_def c_realloc_def)
next
  case False
  let ?l = "\<lparr>lsize = n, lalign = lalign l\<rparr>"
  obtain q h' where run: "sys_alloc P ?l h = (q, h')" by fastforce
  have "gives_block (lalign l) (\<lambda>bs. length bs = n) h (q, h')"
    using sys_alloc_gives [OF assms(1), of ?l h] assms(2,5) run by (simp add: layout_ok_def)
  then show ?thesis
  proof (cases rule: gives_blockE)
    case 1
    then show ?thesis using False run by (auto simp: sys_realloc_def realloc_fallback_def replaces_def)
  next
    case (2 cs)
    let ?k = "min (lsize l) n"
    have "sys_realloc P p l n h = Ret (q, (h(p := None))(q \<mapsto> take ?k bs @ drop ?k cs))"
      using False run 2 copy_and_free [OF assms(1,3) 2(2), of ?k cs] assms(4)
      by (auto simp: sys_realloc_def realloc_fallback_def sys_dealloc_def)
    moreover have "replaces (lalign l) n p bs h (q, (h(p := None))(q \<mapsto> take ?k bs @ drop ?k cs))"
      using 2 assms(4) by (auto simp: replaces_def min.commute intro!: exI [of _ "take ?k bs @ drop ?k cs"])
    ultimately show ?thesis by blast
  qed
qed

definition resized :: "bool \<Rightarrow> block_heap \<Rightarrow> nat \<Rightarrow> Layout \<Rightarrow> bytes \<Rightarrow> Layout \<Rightarrow> (AllocError + nat \<times> usize) \<times> block_heap \<Rightarrow> bool" where
  "resized z h p l bs l' r \<longleftrightarrow>
     (case r of
        (Inl _, h') \<Rightarrow> h' = h
      | (Inr (p', n), h') \<Rightarrow> n = lsize l' \<and> sys_rest h' p' l' = sys_rest h p l \<and>
          (\<exists>bs'. sys_owned h' p' l' bs' \<and> take (min n (lsize l)) bs' = take (min n (lsize l)) bs \<and> (z \<longrightarrow> drop (lsize l) bs' = zeros (n - lsize l))))"

lemma resized_block:
  assumes "0 < lsize l" and "0 < lsize l'" and "layout_ok l'" and "q \<noteq> 0" and "lalign l' dvd q" and "q = p \<or> h q = None"
    and "length cs = lsize l'" and "take (min (lsize l') (lsize l)) cs = take (min (lsize l') (lsize l)) bs"
    and "z \<longrightarrow> drop (lsize l) cs = zeros (lsize l' - lsize l)"
  shows "resized z h p l bs l' (Inr (q, lsize l'), (h(p := None))(q \<mapsto> cs))"
proof -
  have "sys_rest ((h(p := None))(q \<mapsto> cs)) q l' = sys_rest h p l" using assms(1,2,6) by (auto simp: sys_rest_def fun_eq_iff)
  moreover have "sys_owned ((h(p := None))(q \<mapsto> cs)) q l' cs" using assms by (simp add: sys_owned_def)
  ultimately show ?thesis using assms(8,9) by (auto simp: resized_def)
qed

text \<open>The two ways to resize: in place or by the C library, and by a new block and a copy.\<close>

lemma resized_replaces:
  assumes "replaces (lalign l) (lsize l') p bs h (q, h')" and "q \<noteq> 0" and "lalign l = lalign l'"
    and "0 < lsize l" and "0 < lsize l'" and "layout_ok l'" and "length bs = lsize l"
  shows "\<exists>cs. h' = (h(p := None))(q \<mapsto> cs) \<and> length cs = lsize l' \<and>
    (\<forall>ds z. length ds = lsize l' \<and> take (lsize l) ds = take (lsize l) cs \<and> (z \<longrightarrow> drop (lsize l) ds = zeros (lsize l' - lsize l)) \<longrightarrow>
      resized z h p l bs l' (Inr (q, lsize l'), (h(p := None))(q \<mapsto> ds)))"
proof -
  obtain cs where cs: "length cs = lsize l'" "take (min (lsize l') (lsize l)) cs = take (min (lsize l') (lsize l)) bs" "h' = (h(p := None))(q \<mapsto> cs)"
    and q: "lalign l dvd q" "q = p \<or> h q = None"
    using assms(1,2,7) by (auto simp: replaces_def)
  have "take (min (lsize l') (lsize l)) ds = take (min (lsize l') (lsize l)) bs" if "take (lsize l) ds = take (lsize l) cs" for ds
    using that cs(2) by (metis min.commute take_take)
  then show ?thesis using cs q assms by (auto intro!: resized_block)
qed

lemma move_ok:
  assumes "c_alloc_ok P" and "allocated z l' h r" and "sys_owned h p l bs" and "0 < lsize l" and "0 < lsize l'" and "k = min (lsize l') (lsize l)"
    and "layout_ok l'"
  shows "\<exists>r'. move_to P p l k r = Ret r' \<and> resized z h p l bs l' r'"
proof -
  obtain res h1 where r: "r = (res, h1)" by fastforce
  have hp: "h p = Some bs" "length bs = lsize l" using assms(3,4) by (auto simp: sys_owned_def)
  show ?thesis
  proof (cases res)
    case (Inl e)
    then show ?thesis using assms(2) by (auto simp: r move_to_def allocated_def resized_def)
  next
    case (Inr qn)
    obtain q where qn: "qn = (q, lsize l')" using assms(2) by (cases qn) (auto simp: r Inr allocated_def)
    obtain cs where cs: "sys_owned h1 q l' cs" "z \<longrightarrow> cs = zeros (lsize l')" "sys_rest h1 q l' = h"
      using assms(2) by (auto simp: r Inr qn allocated_def)
    have h: "h = h1(q := None)" "h1 q = Some cs" "length cs = lsize l'" "q \<noteq> 0" "lalign l' dvd q"
      using cs(1,3) assms(5) by (auto simp: sys_owned_def sys_rest_def)
    have h1: "h1 = h(q \<mapsto> cs)" "h q = None" using h by (auto simp: fun_eq_iff)
    have "move_to P p l k r = Ret (Inr (q, lsize l'), (h(p := None))(q \<mapsto> take k bs @ drop k cs))"
      using copy_and_free [OF assms(1) hp(1) h1(2), of k cs] hp(2) h(3) assms(4,6)
      by (simp add: r Inr qn move_to_def h1(1) deallocate_def sys_dealloc_def)
    moreover have "resized z h p l bs l' (Inr (q, lsize l'), (h(p := None))(q \<mapsto> take k bs @ drop k cs))"
      using h h1(2) hp(2) cs(2) assms(4,5,6,7) by (intro resized_block) (auto simp: min_def)
    ultimately show ?thesis by blast
  qed
qed

lemma grow_ok:
  assumes "c_alloc_ok P" and "layout_ok l'" and "sys_owned h p l bs" and "lsize l \<le> lsize l'"
  shows "\<exists>r. grow_impl dbg P p l l' z h = Ret r \<and> resized z h p l bs l' r"
proof (cases "lsize l = 0")
  case True
  obtain r where r: "alloc_impl P z l' h = Ret r" "allocated z l' h r" using alloc_impl_ok [OF assms(1,2)] by blast
  have "resized z h p l bs l' r" using r(2) True by (auto simp: allocated_def resized_def sys_rest_def split: prod.splits sum.splits)
  then show ?thesis using r(1) True assms(4) by (simp add: grow_impl_def)
next
  case False
  then have pos: "0 < lsize l" "0 < lsize l'" using assms(4) by simp_all
  have own: "h p = Some bs" "length bs = lsize l" "layout_ok l" using assms(3) pos by (auto simp: sys_owned_def)
  show ?thesis
  proof (cases "lalign l = lalign l'")
    case al: True
    obtain q h' where run: "sys_realloc P p l (lsize l') h = Ret (q, h')" "replaces (lalign l) (lsize l') p bs h (q, h')"
      using sys_realloc_ok [of P l h p bs "lsize l'", OF assms(1) own(3,1,2) pos(2)] by fastforce
    show ?thesis
    proof (cases "q = 0")
      case True
      then show ?thesis using run pos al assms(4) by (auto simp: grow_impl_def resized_def replaces_def)
    next
      case False
      obtain cs where cs: "h' = (h(p := None))(q \<mapsto> cs)" "length cs = lsize l'" and
        fin: "\<And>ds z. length ds = lsize l' \<Longrightarrow> take (lsize l) ds = take (lsize l) cs \<Longrightarrow> (z \<longrightarrow> drop (lsize l) ds = zeros (lsize l' - lsize l)) \<Longrightarrow>
          resized z h p l bs l' (Inr (q, lsize l'), (h(p := None))(q \<mapsto> ds))"
        using resized_replaces [OF run(2) False al pos assms(2) own(2)] by blast
      let ?ds = "if z then take (lsize l) cs @ zeros (lsize l' - lsize l) else cs"
      have "grow_impl dbg P p l l' z h = Ret (Inr (q, lsize l'), (h(p := None))(q \<mapsto> ?ds))"
        using run(1) pos al assms(4) False cs by (simp add: grow_impl_def write_bytes0_def bsplice_def)
      moreover have "resized z h p l bs l' (Inr (q, lsize l'), (h(p := None))(q \<mapsto> ?ds))"
        by (rule fin) (use cs(2) assms(4) in auto)
      ultimately show ?thesis by blast
    qed
  next
    case al: False
    obtain r where r: "alloc_impl P z l' h = Ret r" "allocated z l' h r" using alloc_impl_ok [OF assms(1,2)] by blast
    have "lsize l = min (lsize l') (lsize l)" using assms(4) by simp
    from move_ok [OF assms(1) r(2) assms(3) pos this assms(2)] show ?thesis
      using r(1) al pos assms(4) by (auto simp: grow_impl_def)
  qed
qed

lemma deallocate_ok:
  assumes "c_alloc_ok P" and "sys_owned h p l bs"
  shows "deallocate P p l h = Ret (sys_rest h p l)"
  using assms by (auto simp: deallocate_def sys_dealloc_def c_free_def sys_owned_def sys_rest_def c_alloc_ok_def)

lemma shrink_ok:
  assumes "c_alloc_ok P" and "layout_ok l'" and "sys_owned h p l bs" and "lsize l' < lsize l"
  shows "\<exists>r. sys_shrink dbg P p l l' h = Ret r \<and> resized z h p l bs l' r"
proof (cases "lsize l' = 0")
  case True
  have "sys_owned (sys_rest h p l) (lalign l') l' []" using True assms(2) layout_ok_pos [OF assms(2)] by (simp add: sys_owned_def)
  then have "resized z h p l bs l' (Inr (lalign l', 0), sys_rest h p l)" using True by (auto simp: resized_def sys_rest_def)
  then show ?thesis using True deallocate_ok [OF assms(1,3)] by (simp add: sys_shrink_def)
next
  case False
  then have pos: "0 < lsize l" "0 < lsize l'" using assms(4) by simp_all
  have own: "h p = Some bs" "length bs = lsize l" "layout_ok l" using assms(3) pos by (auto simp: sys_owned_def)
  show ?thesis
  proof (cases "lalign l = lalign l'")
    case al: True
    obtain q h' where run: "sys_realloc P p l (lsize l') h = Ret (q, h')" "replaces (lalign l) (lsize l') p bs h (q, h')"
      using sys_realloc_ok [of P l h p bs "lsize l'", OF assms(1) own(3,1,2) pos(2)] by fastforce
    have "sys_shrink dbg P p l l' h = Ret (non_null q (lsize l') h')" using run(1) pos al assms(4) by (simp add: sys_shrink_def)
    moreover have "resized z h p l bs l' (non_null q (lsize l') h')"
    proof (cases "q = 0")
      case True
      then show ?thesis using run(2) by (auto simp: non_null_def resized_def replaces_def)
    next
      case False
      obtain cs where cs: "h' = (h(p := None))(q \<mapsto> cs)" "length cs = lsize l'" and
        fin: "\<And>ds z. length ds = lsize l' \<Longrightarrow> take (lsize l) ds = take (lsize l) cs \<Longrightarrow> (z \<longrightarrow> drop (lsize l) ds = zeros (lsize l' - lsize l)) \<Longrightarrow>
          resized z h p l bs l' (Inr (q, lsize l'), (h(p := None))(q \<mapsto> ds))"
        using resized_replaces [OF run(2) False al pos assms(2) own(2)] by blast
      have "resized z h p l bs l' (Inr (q, lsize l'), h')" unfolding cs(1) by (rule fin) (use cs(2) assms(4) in auto)
      then show ?thesis using False by (simp add: non_null_def)
    qed
    ultimately show ?thesis by blast
  next
    case al: False
    obtain r where r: "alloc_impl P False l' h = Ret r" "allocated False l' h r" using alloc_impl_ok [OF assms(1,2)] by blast
    have k: "lsize l' = min (lsize l') (lsize l)" using assms(4) by simp
    obtain r' where "move_to P p l (lsize l') r = Ret r'" "resized False h p l bs l' r'"
      using move_ok [OF assms(1) r(2) assms(3) pos k assms(2)] by blast
    moreover have "resized z h p l bs l' r'" if "resized False h p l bs l' r'" for r'
    proof -
      have "drop (lsize l) bs' = zeros (lsize l' - lsize l)" if "sys_owned h' p' l' bs'" for h' p' bs'
        using that assms(4) by (simp add: sys_owned_def)
      then show ?thesis using that unfolding resized_def by (fastforce split: prod.splits sum.splits)
    qed
    ultimately show ?thesis using r(1) al pos assms(4) by (auto simp: sys_shrink_def sys_allocate_def)
  qed
qed

lemma sys_resize_ok:
  assumes "c_alloc_ok P" and "layout_ok l'" and "sys_owned h p l bs"
  shows "\<exists>r. sys_resize dbg P z p l l' h = Ret r \<and> resized z h p l bs l' r"
  using grow_ok [OF assms, of dbg True] grow_ok [OF assms, of dbg False] shrink_ok [OF assms, of dbg z]
  by (cases z) (auto simp: sys_resize_def sys_grow_def sys_grow_zeroed_def not_le)

definition sys_new :: "c_alloc \<Rightarrow> bool \<Rightarrow> Layout \<Rightarrow> block_heap \<Rightarrow> alloc_result" where
  "sys_new P z l h = (if z then sys_allocate_zeroed P l h else sys_allocate P l h)"

lemma sys_new_impl: "sys_new P z l h = alloc_impl P z l h"
  by (simp add: sys_new_def sys_allocate_def sys_allocate_zeroed_def)

interpretation sys: allocator "sys_new P" "deallocate P" "sys_resize dbg P" "\<lambda>l. c_alloc_ok P \<and> layout_ok l" "\<lambda>h p l bs. c_alloc_ok P \<and> sys_owned h p l bs" sys_rest
  for P dbg
proof
  fix l z h
  assume "c_alloc_ok P \<and> layout_ok l"
  then obtain r h' where "alloc_impl P z l h = Ret (r, h')" "allocated z l h (r, h')" "c_alloc_ok P" using alloc_impl_ok [of P l z h] by auto
  then show "\<exists>r h'. sys_new P z l h = Ret (r, h') \<and>
      (case r of Inl _ \<Rightarrow> h' = h
       | Inr (p, n) \<Rightarrow> n = lsize l \<and> sys_rest h' p l = h \<and> (\<exists>bs. (c_alloc_ok P \<and> sys_owned h' p l bs) \<and> (z \<longrightarrow> bs = zeros n)))"
    unfolding sys_new_impl by (cases r) (auto simp: allocated_def)
next
  fix l' h p l bs z
  assume "c_alloc_ok P \<and> layout_ok l'" "c_alloc_ok P \<and> sys_owned h p l bs"
  then obtain r h' where "sys_resize dbg P z p l l' h = Ret (r, h')" "resized z h p l bs l' (r, h')" "c_alloc_ok P"
    using sys_resize_ok [of P l' h p l bs dbg z] by auto
  then show "\<exists>r h'. sys_resize dbg P z p l l' h = Ret (r, h') \<and>
      (case r of Inl _ \<Rightarrow> h' = h
       | Inr (p', n) \<Rightarrow> n = lsize l' \<and> sys_rest h' p' l' = sys_rest h p l \<and>
           (\<exists>bs'. (c_alloc_ok P \<and> sys_owned h' p' l' bs') \<and> take (min n (lsize l)) bs' = take (min n (lsize l)) bs
              \<and> (z \<longrightarrow> drop (lsize l) bs' = zeros (n - lsize l))))"
    by (cases r) (auto simp: resized_def)
next
  fix h p l bs
  assume own: "c_alloc_ok P \<and> sys_owned h p l bs"
  then show "deallocate P p l h = Ret (sys_rest h p l)" using deallocate_ok by blast
  show "length bs = lsize l" using own by (simp add: sys_owned_def)
qed

text \<open>
  C23: Resizing keeps the contents. Over a C library that does what it documents, memory that was allocated can be grown and shrunk any number of times, with any alignments,
  with or without success and with or without zeroing: no step panics or leaves a block, the first bytes (as many as every size on the way has) stay the same, and releasing
  the memory in the end gives the heap from before the allocation.
\<close>

theorem resizing_keeps_contents:
  assumes "c_alloc_ok P" and "layout_ok l" and "sys_new P z l h = Ret (Inr (p, n), h1)"
    and "\<forall>l'\<in>set ls. layout_ok l' \<and> m \<le> lsize l'" and "m \<le> lsize l"
  shows "\<exists>bs p' l' h' bs'. sys_owned h1 p l bs \<and> resizes (sys_resize dbg P) y ls p l h1 = Ret (p', l', h') \<and> sys_owned h' p' l' bs' \<and>
    take m bs' = take m bs \<and> deallocate P p' l' h' = Ret h"
proof -
  have fits: "c_alloc_ok P \<and> layout_ok l" using assms(1,2) by simp
  obtain bs where bs: "sys_owned h1 p l bs" "sys_rest h1 p l = h" using sys.allocate_ok [OF fits, of z h] assms(3) by auto
  have "\<exists>p' l' h' bs'. resizes (sys_resize dbg P) y ls p l h1 = Ret (p', l', h') \<and> (c_alloc_ok P \<and> sys_owned h' p' l' bs') \<and> take m bs' = take m bs
      \<and> sys_rest h' p' l' = sys_rest h1 p l"
    by (rule sys.resizes_keep) (use assms bs in auto)
  then show ?thesis using bs sys.release_ok by (metis (no_types))
qed

text \<open>A library with one place for a block of each alignment.\<close>

definition one_place :: "nat \<Rightarrow> usize \<Rightarrow> block_heap \<Rightarrow> nat \<times> block_heap" where
  "one_place p n h = (if h p = None then (p, h(p \<mapsto> zeros n)) else (0, h))"

definition one_place_library :: c_alloc where
  "one_place_library =
     \<lparr>a_malloc = one_place 4096, a_calloc = (\<lambda>n k. one_place 4096 (n * k)),
      a_realloc = (\<lambda>p n h. case h p of Some bs \<Rightarrow> if p \<noteq> 0 \<and> 16 dvd p then (p, h(p \<mapsto> take n (bs @ zeros n))) else (0, h) | None \<Rightarrow> (0, h)),
      a_memalign = (\<lambda>al. one_place (al * 4096)), a_free = (\<lambda>p h. h(p := None))\<rparr>"

lemma one_place_library_ok: "c_alloc_ok one_place_library"
proof -
  have "gives_block al ok h (one_place p n h)" if "p \<noteq> 0" "al dvd p" "ok (zeros n)" for al p n ok h
    using that by (auto simp: gives_block_def one_place_def)
  moreover have "al * 4096 \<noteq> 0" if "is_power_of_two al" for al using that by (auto simp: is_power_of_two_def)
  moreover have "(16::nat) dvd 4096" by simp
  moreover have "replaces 16 n p bs h (p, h(p \<mapsto> take n (bs @ zeros n)))" if "p \<noteq> 0" "16 dvd p" for n p bs h
    using that by (auto simp: replaces_def intro!: exI [of _ "take n (bs @ zeros n)"])
  moreover have "replaces 16 n p bs h (0, h)" for n p bs h by (simp add: replaces_def)
  ultimately show ?thesis by (auto simp: c_alloc_ok_def one_place_library_def)
qed

theorem resizing_keeps_contents_witness:
  "\<exists>bs p' l' h' bs'. sys_owned [4096 \<mapsto> zeros 8] 4096 \<lparr>lsize = 8, lalign = 8\<rparr> bs \<and>
     resizes (sys_resize True one_place_library) True [\<lparr>lsize = 32, lalign = 8\<rparr>, \<lparr>lsize = 16, lalign = 64\<rparr>] 4096 \<lparr>lsize = 8, lalign = 8\<rparr> [4096 \<mapsto> zeros 8]
       = Ret (p', l', h') \<and>
     sys_owned h' p' l' bs' \<and> take 8 bs' = take 8 bs \<and> deallocate one_place_library p' l' h' = Ret Map.empty"
proof -
  have ok: "layout_ok \<lparr>lsize = n, lalign = 2 ^ k\<rparr>" if "k < 64" for n k using that by (auto simp: layout_ok_def is_power_of_two_def)
  have al: "layout_ok \<lparr>lsize = n, lalign = 8\<rparr>" "layout_ok \<lparr>lsize = n, lalign = 64\<rparr>" for n using ok [of 3 n] ok [of 6 n] by simp_all
  have new: "sys_new one_place_library False \<lparr>lsize = 8, lalign = 8\<rparr> Map.empty = Ret (Inr (4096, 8), [4096 \<mapsto> zeros 8])"
    by (simp add: sys_new_def sys_allocate_def alloc_impl_def sys_alloc_def MIN_ALIGN_def one_place_library_def one_place_def non_null_def)
  show ?thesis
    by (rule resizing_keeps_contents [OF one_place_library_ok al(1) new]) (simp_all add: al)
qed

end
