(* ===== verification/Sgx_Urts.thy ===== *)
theory Sgx_Urts
  imports Sgx_Error
begin

text \<open>
  The untrusted side of events and signals: the table of events of \<^verbatim>\<open>src/sgx_urts/src/event.rs\<close> with the calls that enclaves make, and the dispatcher of signals of
  \<^verbatim>\<open>src/sgx_urts/src/signal.rs\<close>. System calls are parameters over a world \<open>'w\<close>. An event lives in a box that is never freed: it is a number, and \<open>counters\<close> has
  its value.
\<close>

section \<open>Events\<close>

record 'w ev_st =
  cache :: "(nat \<times> nat) list"
  counters :: "nat \<Rightarrow> u32"
  next_event :: nat
  ev_world :: 'w

text \<open>\<open>futex_wait\<close> gets the timeout and returns the result with \<^verbatim>\<open>errno\<close>; what other threads do to the events while the caller sleeps is part of it.\<close>

record 'w futex_ffi =
  futex_wait :: "nat \<Rightarrow> int \<Rightarrow> nat option \<Rightarrow> 'w ev_st \<Rightarrow> (int \<times> int) \<times> 'w ev_st"
  futex_wake :: "nat \<Rightarrow> int \<Rightarrow> 'w \<Rightarrow> 'w"

definition ETIMEDOUT_host :: int where "ETIMEDOUT_host = 110"
definition EINVAL_host :: int where "EINVAL_host = 22"

definition ev_init :: "'w \<Rightarrow> 'w ev_st" where
  "ev_init w = \<lparr>cache = [], counters = (\<lambda>_. 0), next_event = 0, ev_world = w\<rparr>"

definition get_event :: "nat \<Rightarrow> 'w ev_st \<Rightarrow> nat \<times> 'w ev_st" where
  "get_event tcs s =
     (case find (\<lambda>x. fst x = tcs) (cache s) of
        Some x \<Rightarrow> (snd x, s)
      | None \<Rightarrow>
          (next_event s,
           s\<lparr>cache := cache s @ [(tcs, next_event s)], counters := (counters s)(next_event s := 0), next_event := next_event s + 1\<rparr>))"

text \<open>The counter is an \<^verbatim>\<open>AtomicI32\<close>, whose arithmetic wraps; only equalities are tested, so that the sign does not matter.\<close>

definition fetch_add :: "nat \<Rightarrow> u32 \<Rightarrow> 'w ev_st \<Rightarrow> u32 \<times> 'w ev_st" where
  "fetch_add e n s = (counters s e, s\<lparr>counters := (counters s)(e := counters s e + n)\<rparr>)"

definition compare_exchange :: "nat \<Rightarrow> u32 \<Rightarrow> u32 \<Rightarrow> 'w ev_st \<Rightarrow> 'w ev_st" where
  "compare_exchange e old new s = (if counters s e = old then s\<lparr>counters := (counters s)(e := new)\<rparr> else s)"

definition SeEvent_wait_timeout :: "'w futex_ffi \<Rightarrow> nat \<Rightarrow> nat \<Rightarrow> 'w ev_st \<Rightarrow> int \<times> 'w ev_st" where
  "SeEvent_wait_timeout P e timeout s =
     (case fetch_add e (- 1) s of (v, s1) \<Rightarrow>
        if v \<noteq> 0 then (0, s1)
        else case futex_wait P e (- 1) (Some timeout) s1 of ((ret, err), s2) \<Rightarrow>
                  if ret < 0 \<and> err = ETIMEDOUT_host then (- 1, compare_exchange e (- 1) 0 s2) else (0, s2))"

definition SeEvent_wait :: "'w futex_ffi \<Rightarrow> nat \<Rightarrow> 'w ev_st \<Rightarrow> int \<times> 'w ev_st" where
  "SeEvent_wait P e s =
     (case fetch_add e (- 1) s of (v, s1) \<Rightarrow> if v \<noteq> 0 then (0, s1) else (0, snd (futex_wait P e (- 1) None s1)))"

definition SeEvent_wake :: "'w futex_ffi \<Rightarrow> nat \<Rightarrow> 'w ev_st \<Rightarrow> int \<times> 'w ev_st" where
  "SeEvent_wake P e s =
     (case fetch_add e 1 s of (v, s1) \<Rightarrow> (0, if v \<noteq> 0 then s1\<lparr>ev_world := futex_wake P e 1 (ev_world s1)\<rparr> else s1))"

text \<open>The calls: the result and what is stored to \<^verbatim>\<open>*error\<close>, when it is not null. \<open>errno\<close> is the value of \<^verbatim>\<open>Error::last_os_error\<close>.\<close>

type_synonym 'w ev_call = "'w ev_st \<Rightarrow> (int \<times> int) \<times> 'w ev_st"

definition finish :: "int \<Rightarrow> int \<times> 'w ev_st \<Rightarrow> (int \<times> int) \<times> 'w ev_st" where
  "finish errno r = (case r of (result, s) \<Rightarrow> if result \<noteq> 0 then ((- 1, errno), s) else ((result, 0), s))"

definition u_thread_set_event_ocall :: "'w futex_ffi \<Rightarrow> int \<Rightarrow> nat \<Rightarrow> 'w ev_call" where
  "u_thread_set_event_ocall P errno tcs s =
     (if tcs = 0 then ((- 1, EINVAL_host), s) else case get_event tcs s of (e, s1) \<Rightarrow> finish errno (SeEvent_wake P e s1))"

definition u_thread_wait_event_ocall :: "'w futex_ffi \<Rightarrow> int \<Rightarrow> nat \<Rightarrow> nat option \<Rightarrow> 'w ev_call" where
  "u_thread_wait_event_ocall P errno tcs timeout s =
     (if tcs = 0 then ((- 1, EINVAL_host), s)
      else case get_event tcs s of (e, s1) \<Rightarrow>
             finish errno (case timeout of None \<Rightarrow> SeEvent_wait P e s1 | Some t \<Rightarrow> SeEvent_wait_timeout P e t s1))"

fun set_events_loop :: "'w futex_ffi \<Rightarrow> int \<Rightarrow> nat list \<Rightarrow> int \<Rightarrow> 'w ev_call" where
  "set_events_loop P errno [] result s = ((result, 0), s)"
| "set_events_loop P errno (tcs # tcss) result s =
     (case get_event tcs s of (e, s1) \<Rightarrow>
      case SeEvent_wake P e s1 of (result', s2) \<Rightarrow>
        if result' \<noteq> 0 then ((- 1, errno), s2) else set_events_loop P errno tcss result' s2)"

text \<open>\<open>None\<close>: the pointer to the array is null.\<close>

definition u_thread_set_multiple_events_ocall :: "'w futex_ffi \<Rightarrow> int \<Rightarrow> nat list option \<Rightarrow> 'w ev_call" where
  "u_thread_set_multiple_events_ocall P errno tcss s =
     (case tcss of None \<Rightarrow> ((- 1, EINVAL_host), s) | Some l \<Rightarrow> set_events_loop P errno l 0 s)"

definition u_thread_setwait_events_ocall :: "'w futex_ffi \<Rightarrow> int \<Rightarrow> nat \<Rightarrow> nat \<Rightarrow> nat option \<Rightarrow> 'w ev_call" where
  "u_thread_setwait_events_ocall P errno waiter_tcs self_tcs timeout s =
     (case u_thread_set_event_ocall P errno waiter_tcs s of ((result, err), s1) \<Rightarrow>
        if result < 0 then ((result, err), s1) else u_thread_wait_event_ocall P errno self_tcs timeout s1)"

section \<open>One event per thread\<close>

definition event_of :: "'w ev_st \<Rightarrow> nat \<Rightarrow> u32" where
  "event_of s tcs = (case map_of (cache s) tcs of None \<Rightarrow> 0 | Some e \<Rightarrow> counters s e)"

definition table_ok :: "'w ev_st \<Rightarrow> bool" where
  "table_ok s \<longleftrightarrow> distinct (map fst (cache s)) \<and> distinct (map snd (cache s)) \<and> (\<forall>x\<in>set (cache s). snd x < next_event s)"

lemma find_map_of: "find (\<lambda>x. fst x = t) xs = map_option (\<lambda>e. (t, e)) (map_of xs t)"
  by (induction xs) auto

lemma table_ok_init: "table_ok (ev_init w)"
  by (simp add: table_ok_def ev_init_def)

text \<open>Finding the event of a thread adds it to the table when it is not there, which nobody can see.\<close>

lemma get_event_ok:
  assumes "table_ok s" and "get_event tcs s = (e, s')"
  shows "table_ok s'" and "map_of (cache s') tcs = Some e" and "event_of s' = event_of s" and "ev_world s' = ev_world s"
proof -
  have "table_ok s' \<and> map_of (cache s') tcs = Some e \<and> event_of s' = event_of s \<and> ev_world s' = ev_world s"
  proof (cases "map_of (cache s) tcs")
    case None
    then have notin: "tcs \<notin> fst ` set (cache s)" by (simp add: map_of_eq_None_iff)
    have e: "e = next_event s" and s': "s' = s\<lparr>cache := cache s @ [(tcs, e)], counters := (counters s)(e := 0), next_event := e + 1\<rparr>"
      using assms(2) None by (auto simp: get_event_def find_map_of)
    have fresh: "map_of (cache s) t = Some i \<Longrightarrow> i \<noteq> e" for t i
      using assms(1) map_of_SomeD [of "cache s" t i] unfolding table_ok_def e by fastforce
    have "event_of s' t = event_of s t" for t
      using None fresh by (cases "map_of (cache s) t") (auto simp: event_of_def s' map_add_def)
    moreover have "table_ok s'" using assms(1) notin by (fastforce simp: table_ok_def s' e less_Suc_eq)
    moreover have "map_of (cache s') tcs = Some e" using None by (simp add: s' map_add_def)
    ultimately show ?thesis by (auto simp: s')
  next
    case (Some i)
    then show ?thesis using assms by (auto simp: get_event_def find_map_of)
  qed
  then show "table_ok s'" "map_of (cache s') tcs = Some e" "event_of s' = event_of s" "ev_world s' = ev_world s" by blast+
qed

lemma event_of_update:
  assumes "table_ok s" and "map_of (cache s) tcs = Some e"
  shows "event_of (s\<lparr>counters := (counters s)(e := v)\<rparr>) = (event_of s)(tcs := v)" and "counters s e = event_of s tcs"
proof -
  have "map_of (cache s) t \<noteq> Some e" if "t \<noteq> tcs" for t
  proof
    assume "map_of (cache s) t = Some e"
    then have "(t, e) \<in> set (cache s)" "(tcs, e) \<in> set (cache s)" using assms(2) by (auto dest: map_of_SomeD)
    then show False using assms(1) that unfolding table_ok_def distinct_map inj_on_def by fastforce
  qed
  then show "event_of (s\<lparr>counters := (counters s)(e := v)\<rparr>) = (event_of s)(tcs := v)"
    using assms(2) by (fastforce simp: event_of_def fun_eq_iff split: option.splits)
  show "counters s e = event_of s tcs" using assms(2) by (simp add: event_of_def)
qed

lemma wake_ok:
  assumes "table_ok s" and "map_of (cache s) tcs = Some e"
  obtains s' where "SeEvent_wake P e s = (0, s')" and "table_ok s'" and "event_of s' = (event_of s)(tcs := event_of s tcs + 1)"
proof -
  let ?s = "s\<lparr>counters := (counters s)(e := counters s e + 1)\<rparr>"
  have "event_of ?s = (event_of s)(tcs := event_of s tcs + 1)" "table_ok ?s"
    using event_of_update [OF assms] assms(1) by (simp_all add: table_ok_def)
  moreover have "event_of (?s\<lparr>ev_world := w\<rparr>) = event_of ?s" "table_ok (?s\<lparr>ev_world := w\<rparr>) = table_ok ?s" for w
    by (simp_all add: event_of_def table_ok_def fun_eq_iff split: option.splits)
  ultimately show ?thesis
    using that [of "if counters s e \<noteq> 0 then ?s\<lparr>ev_world := futex_wake P e 1 (ev_world s)\<rparr> else ?s"]
    by (cases "counters s e = 0") (simp_all add: SeEvent_wake_def fetch_add_def)
qed

lemma set_events_loop_ok:
  assumes "table_ok s"
  shows "\<exists>s'. set_events_loop P errno tcss 0 s = ((0, 0), s') \<and> table_ok s' \<and> (\<forall>t. event_of s' t = event_of s t + of_nat (count_list tcss t))"
  using assms
proof (induction tcss arbitrary: s)
  case (Cons tcs tcss)
  obtain e s1 where g: "get_event tcs s = (e, s1)" by fastforce
  note ok = get_event_ok [OF Cons.prems g]
  obtain s2 where w: "SeEvent_wake P e s1 = (0, s2)" "table_ok s2" "event_of s2 = (event_of s1)(tcs := event_of s1 tcs + 1)"
    using wake_ok [OF ok(1,2)] by blast
  obtain s' where "set_events_loop P errno tcss 0 s2 = ((0, 0), s')" "table_ok s'" "\<forall>t. event_of s' t = event_of s2 t + of_nat (count_list tcss t)"
    using Cons.IH [OF w(2)] by blast
  then show ?case using g w(1,3) ok(3) by auto
qed auto

text \<open>
  C25: The table gives every thread its own event. Setting the events of a list of threads succeeds and adds to the event of each thread the number of times it is in the
  list (in the wrapping arithmetic of the counter), to no other event anything, whichever of them were in the table before; a call that waits on a thread whose event is not 0 takes one off and returns without
  sleeping, and otherwise sleeps with the event at -1.
\<close>

theorem events_per_thread:
  assumes "table_ok s"
  shows "(\<exists>s'. u_thread_set_multiple_events_ocall P errno (Some tcss) s = ((0, 0), s') \<and> table_ok s' \<and>
      (\<forall>t. event_of s' t = event_of s t + of_nat (count_list tcss t))) \<and>
    (\<exists>e s1. map_of (cache s1) self = Some e \<and> table_ok s1 \<and> event_of s1 = (event_of s)(self := event_of s self - 1) \<and>
      (self \<noteq> 0 \<longrightarrow> u_thread_wait_event_ocall P errno self None s = ((0, 0), if event_of s self = 0 then snd (futex_wait P e (- 1) None s1) else s1)))"
proof (intro conjI)
  show "\<exists>s'. u_thread_set_multiple_events_ocall P errno (Some tcss) s = ((0, 0), s') \<and> table_ok s' \<and>
      (\<forall>t. event_of s' t = event_of s t + of_nat (count_list tcss t))"
    using set_events_loop_ok [OF assms] by (simp add: u_thread_set_multiple_events_ocall_def)
  obtain e s1 where g: "get_event self s = (e, s1)" by fastforce
  note ok = get_event_ok [OF assms g]
  let ?s = "s1\<lparr>counters := (counters s1)(e := counters s1 e - 1)\<rparr>"
  have "map_of (cache ?s) self = Some e" "table_ok ?s" "event_of ?s = (event_of s)(self := event_of s self - 1)"
    using event_of_update [OF ok(1,2)] ok by (simp_all add: table_ok_def)
  moreover have "self \<noteq> 0 \<Longrightarrow> u_thread_wait_event_ocall P errno self None s =
      ((0, 0), if event_of s self = 0 then snd (futex_wait P e (- 1) None ?s) else ?s)"
    using g event_of_update(2) [OF ok(1,2)] ok(3)
    by (simp add: u_thread_wait_event_ocall_def SeEvent_wait_def fetch_add_def finish_def)
  ultimately show "\<exists>e s1. map_of (cache s1) self = Some e \<and> table_ok s1 \<and> event_of s1 = (event_of s)(self := event_of s self - 1) \<and>
      (self \<noteq> 0 \<longrightarrow> u_thread_wait_event_ocall P errno self None s = ((0, 0), if event_of s self = 0 then snd (futex_wait P e (- 1) None s1) else s1))"
    by blast
qed

definition futex_example :: "unit futex_ffi" where
  "futex_example = \<lparr>futex_wait = (\<lambda>e v t s. ((0, 0), s)), futex_wake = (\<lambda>e n w. w)\<rparr>"

theorem events_per_thread_witness:
  "\<exists>s'. u_thread_set_multiple_events_ocall futex_example 0 (Some [7, 9, 7]) (ev_init ()) = ((0, 0), s') \<and> event_of s' 7 = 2 \<and> event_of s' 9 = 1"
proof -
  have "event_of (ev_init ()) t = 0" for t by (simp add: event_of_def ev_init_def)
  then show ?thesis
    using events_per_thread [OF table_ok_init, of futex_example 0 "[7, 9, 7]" "()" 7] by auto
qed

section \<open>The dispatcher of signals\<close>

definition SIGRTMAX_host :: int where "SIGRTMAX_host = 64"
definition NSIG_host :: int where "NSIG_host = SIGRTMAX_host + 1"

definition SigNum_from_raw_host :: "int \<Rightarrow> int option" where
  "SigNum_from_raw_host signo = (if signo \<le> 0 \<or> signo \<ge> NSIG_host then None else Some signo)"

record host_sigaction =
  h_sigaction :: nat
  h_flags :: u32
  h_mask :: "int set"

text \<open>\<open>dispatcher\<close>: the global data, when they are there, with the map from signals to enclaves.\<close>

record 'w disp_st =
  dispatcher :: "(int \<rightharpoonup> nat) option"
  d_world :: 'w

record ('i, 'w) disp_ffi =
  libc_setmask :: "int set \<Rightarrow> 'w \<Rightarrow> 'w"
  libc_sigaction :: "int \<Rightarrow> host_sigaction \<Rightarrow> 'w \<Rightarrow> (int \<times> int \<times> host_sigaction) \<times> 'w"
  libc_signal_default :: "int \<Rightarrow> 'w \<Rightarrow> 'w"
  t_signal_handler :: "nat \<Rightarrow> 'i \<Rightarrow> 'w \<Rightarrow> (sgx_status_t \<times> int) \<times> 'w"
  handle_signal_entry_addr :: nat

definition SA_SIGINFO_host :: u32 where "SA_SIGINFO_host = 4"

definition disp_init :: "'w \<Rightarrow> 'w disp_st" where "disp_init w = \<lparr>dispatcher = None, d_world = w\<rparr>"

definition disp_ensure :: "'w disp_st \<Rightarrow> (int \<rightharpoonup> nat) \<times> 'w disp_st" where
  "disp_ensure s = (case dispatcher s of Some m \<Rightarrow> (m, s) | None \<Rightarrow> (Map.empty, s\<lparr>dispatcher := Some Map.empty\<rparr>))"

text \<open>
  Around a change of the map all signals are blocked. The old mask is written to a copy (\<^verbatim>\<open>&mut oldmask.raw()\<close>), so that what is put back is the empty set of
  \<^verbatim>\<open>SigSet::new\<close>.
\<close>

definition all_blocked :: "('i, 'w) disp_ffi \<Rightarrow> ('w disp_st \<Rightarrow> 'a \<times> 'w disp_st) \<Rightarrow> 'w disp_st \<Rightarrow> 'a \<times> 'w disp_st" where
  "all_blocked P f s =
     (let s1 = s\<lparr>d_world := libc_setmask P {1..SIGRTMAX_host} (d_world s)\<rparr>
      in case f s1 of (x, s2) \<Rightarrow> (x, s2\<lparr>d_world := libc_setmask P {} (d_world s2)\<rparr>))"

definition register_signal :: "('i, 'w) disp_ffi \<Rightarrow> int \<Rightarrow> nat \<Rightarrow> 'w disp_st \<Rightarrow> nat option \<times> 'w disp_st" where
  "register_signal P signo eid s =
     (case disp_ensure s of (m, s1) \<Rightarrow> all_blocked P (\<lambda>s2. (m signo, s2\<lparr>dispatcher := Some (m(signo \<mapsto> eid))\<rparr>)) s1)"

definition get_eid_for_signal :: "int \<Rightarrow> (int \<rightharpoonup> nat) \<Rightarrow> nat option" where "get_eid_for_signal signo m = m signo"

text \<open>The entries of a hash map come in no particular order; here they come by number.\<close>

definition deregister_all_signals_for_eid :: "('i, 'w) disp_ffi \<Rightarrow> nat \<Rightarrow> 'w disp_st \<Rightarrow> 'w disp_st" where
  "deregister_all_signals_for_eid P eid s =
     (case disp_ensure s of (m, s1) \<Rightarrow>
        snd (all_blocked P (\<lambda>s2. ((), s2\<lparr>dispatcher := Some (m |` {k. m k \<noteq> Some eid}),
               d_world := fold (libc_signal_default P) (filter (\<lambda>k. m k = Some eid) [1..SIGRTMAX_host]) (d_world s2)\<rparr>)) s1))"

definition disp_handle_signal :: "('i, 'w) disp_ffi \<Rightarrow> int \<Rightarrow> 'i \<Rightarrow> (int \<rightharpoonup> nat) \<Rightarrow> 'w \<Rightarrow> int \<times> 'w" where
  "disp_handle_signal P signo info m w =
     (case get_eid_for_signal signo m of
        None \<Rightarrow> (- 1, w)
      | Some eid \<Rightarrow> (case t_signal_handler P eid info w of ((result, retval), w') \<Rightarrow> (if result \<noteq> SGX_SUCCESS then - 1 else retval, w')))"

text \<open>\<open>info\<close> is null as \<open>None\<close>.\<close>

definition handle_signal_entry :: "('i, 'w) disp_ffi \<Rightarrow> int \<Rightarrow> 'i option \<Rightarrow> 'w disp_st \<Rightarrow> 'w disp_st outcome" where
  "handle_signal_entry P signum info s =
     (case (info, SigNum_from_raw_host signum) of
        (Some i, Some signo) \<Rightarrow>
          (case dispatcher s of None \<Rightarrow> Panic | Some m \<Rightarrow> Ret (s\<lparr>d_world := snd (disp_handle_signal P signo i m (d_world s))\<rparr>))
      | _ \<Rightarrow> Ret s)"

text \<open>The result, what is stored to \<^verbatim>\<open>*error\<close>, and to \<^verbatim>\<open>*oldact\<close>, if it is written.\<close>

definition u_sigaction_ocall ::
  "('i, 'w) disp_ffi \<Rightarrow> int \<Rightarrow> host_sigaction option \<Rightarrow> nat \<Rightarrow> 'w disp_st \<Rightarrow> (int \<times> int \<times> host_sigaction option) \<times> 'w disp_st" where
  "u_sigaction_ocall P signum act eid s =
     (case (SigNum_from_raw_host signum, act) of
        (Some signo, Some e_act) \<Rightarrow>
          if h_sigaction e_act = 0
          then let s1 = snd (register_signal P signo eid s);
                   new_act = \<lparr>h_sigaction = handle_signal_entry_addr P, h_flags = or (h_flags e_act) SA_SIGINFO_host, h_mask = h_mask e_act\<rparr>
               in case libc_sigaction P signum new_act (d_world s1) of ((ret, errno, _), w) \<Rightarrow>
                    ((ret, if ret < 0 then errno else 0, None), s1\<lparr>d_world := w\<rparr>)
          else case libc_sigaction P signum e_act (d_world s) of ((ret, errno, old), w) \<Rightarrow>
                 ((ret, if ret < 0 then errno else 0, Some old), s\<lparr>d_world := w\<rparr>)
      | _ \<Rightarrow> ((- 1, EINVAL_host, None), s))"

definition u_signal_clear_ocall :: "('i, 'w) disp_ffi \<Rightarrow> nat \<Rightarrow> 'w disp_st \<Rightarrow> 'w disp_st" where
  "u_signal_clear_ocall P eid s = deregister_all_signals_for_eid P eid s"

section \<open>Who gets a signal\<close>

text \<open>What enclaves ask for: to handle a signal themselves (the address is 0), to install an action of their own, to be forgotten.\<close>

datatype disp_op = Take int "u32 \<times> int set" nat | Install int host_sigaction nat | Clear nat

fun disp_step :: "('i, 'w) disp_ffi \<Rightarrow> disp_op \<Rightarrow> 'w disp_st \<Rightarrow> 'w disp_st" where
  "disp_step P (Take k fm eid) s = snd (u_sigaction_ocall P k (Some \<lparr>h_sigaction = 0, h_flags = fst fm, h_mask = snd fm\<rparr>) eid s)"
| "disp_step P (Install k act eid) s = snd (u_sigaction_ocall P k (Some (act\<lparr>h_sigaction := Suc (h_sigaction act)\<rparr>)) eid s)"
| "disp_step P (Clear eid) s = u_signal_clear_ocall P eid s"

fun owner_step :: "disp_op \<Rightarrow> (int \<rightharpoonup> nat) \<Rightarrow> (int \<rightharpoonup> nat)" where
  "owner_step (Take k _ eid) m = (if k \<in> {1..64} then m(k \<mapsto> eid) else m)"
| "owner_step (Install _ _ _) m = m"
| "owner_step (Clear eid) m = m |` {k. m k \<noteq> Some eid}"

definition owners :: "'w disp_st \<Rightarrow> (int \<rightharpoonup> nat)" where
  "owners s = (case dispatcher s of None \<Rightarrow> Map.empty | Some m \<Rightarrow> m)"

lemma owners_ensure: "disp_ensure s = (m, s') \<Longrightarrow> m = owners s \<and> owners s' = owners s"
  by (auto simp: disp_ensure_def owners_def split: option.splits)

lemma owners_step: "owners (disp_step P op s) = owner_step op (owners s)"
proof (cases op)
  case (Take k fm eid)
  then show ?thesis
    by (cases "disp_ensure s")
      (auto simp: u_sigaction_ocall_def register_signal_def all_blocked_def SigNum_from_raw_host_def NSIG_host_def SIGRTMAX_host_def Let_def
        owners_def dest: owners_ensure split: prod.splits)
next
  case (Install k act eid)
  then show ?thesis by (auto simp: u_sigaction_ocall_def owners_def split: prod.splits option.splits)
next
  case (Clear eid)
  then show ?thesis
    by (cases "disp_ensure s")
      (auto simp: u_signal_clear_ocall_def deregister_all_signals_for_eid_def all_blocked_def owners_def Let_def dest: owners_ensure split: prod.splits)
qed

lemma owners_run: "owners (fold (disp_step P) ops s) = fold owner_step ops (owners s)"
  by (induction ops arbitrary: s) (simp_all add: owners_step)

text \<open>
  C24: A signal reaches the enclave that asked for it last. After any sequence of calls of any enclaves, and whatever the system calls answer, the dispatcher refines the map
  in which the last enclave that took a signal and was not cleared since owns it; a signal that arrives is handed to its owner, once and with its information, and
  otherwise to nobody.
\<close>

theorem signals_reach_owner:
  assumes "s = fold (disp_step P) ops (disp_init w)" and "dispatcher s \<noteq> None" and "k \<in> {1..64}"
  shows "handle_signal_entry P k (Some info) s =
    Ret (s\<lparr>d_world := (case fold owner_step ops Map.empty k of None \<Rightarrow> d_world s | Some eid \<Rightarrow> snd (t_signal_handler P eid info (d_world s)))\<rparr>)"
proof -
  obtain m where m: "dispatcher s = Some m" using assms(2) by blast
  have "owners (disp_init w) = Map.empty" by (simp add: owners_def disp_init_def)
  then have "m = fold owner_step ops Map.empty" using owners_run [of P ops "disp_init w"] m unfolding assms(1) [symmetric] by (simp add: owners_def)
  then show ?thesis
    using assms(3) m
    by (auto simp: handle_signal_entry_def SigNum_from_raw_host_def NSIG_host_def SIGRTMAX_host_def disp_handle_signal_def get_eid_for_signal_def
        split: option.splits prod.splits)
qed

definition disp_example :: "(nat, nat list) disp_ffi" where
  "disp_example = \<lparr>libc_setmask = (\<lambda>_ w. w), libc_sigaction = (\<lambda>k act w. ((0, 0, act), w)), libc_signal_default = (\<lambda>_ w. w),
     t_signal_handler = (\<lambda>eid info w. ((SGX_SUCCESS, 0), w @ [eid])), handle_signal_entry_addr = 1\<rparr>"

theorem signals_reach_owner_witness:
  "\<exists>s'. handle_signal_entry disp_example 10 (Some 0)
       (fold (disp_step disp_example) [Take 10 (0, {}) 3, Take 10 (0, {}) 5, Take 12 (0, {}) 3, Clear 3] (disp_init [])) = Ret s' \<and> d_world s' = [5]"
proof -
  let ?ops = "[Take 10 (0, {}) 3, Take 10 (0, {}) 5, Take 12 (0, {}) 3, Clear 3]"
  let ?s = "fold (disp_step disp_example) ?ops (disp_init [])"
  have fold_skip: "fold (\<lambda>_ w. w) xs v = v" for xs :: "int list" and v :: "nat list" by (induction xs) simp_all
  have d: "dispatcher ?s \<noteq> None" "d_world ?s = []"
    by (simp_all add: u_sigaction_ocall_def register_signal_def all_blocked_def SigNum_from_raw_host_def NSIG_host_def SIGRTMAX_host_def Let_def
        u_signal_clear_ocall_def deregister_all_signals_for_eid_def disp_ensure_def disp_init_def disp_example_def fold_skip)
  have "fold owner_step ?ops Map.empty 10 = Some 5" by (simp add: restrict_map_def)
  then show ?thesis
    using signals_reach_owner [OF refl d(1), of 10 0] d(2) by (simp add: disp_example_def)
qed

text \<open>Registration, and the removal of an enclave, leave the thread with no signal blocked, whatever was blocked before.\<close>

lemma registration_unblocks:
  "\<exists>w. d_world (snd (register_signal P signo eid s)) = libc_setmask P {} w" "\<exists>w. d_world (deregister_all_signals_for_eid P eid s) = libc_setmask P {} w"
  by (auto simp: register_signal_def deregister_all_signals_for_eid_def all_blocked_def Let_def split: prod.splits)

end
