(* ===== verification/Sgx_Pfs.thy ===== *)
theory Sgx_Pfs
  imports Sgx_Trts
begin

text \<open>
  Files that are encrypted outside of the enclave, \<^verbatim>\<open>src/sgx_tprotected_fs/src/fs.rs\<close>, and the keys of remote attestation, \<^verbatim>\<open>src/sgx_tkey_exchange/src/lib.rs\<close>: safe
  interfaces of foreign libraries, which are parameters over a world \<open>'w\<close>. A result is a system error number or a value.
\<close>

section \<open>Protected files\<close>

definition EINVAL_c :: int where "EINVAL_c = 22"
definition EIO_c :: int where "EIO_c = 5"
definition EOF_c :: int where "EOF_c = - 1"

type_synonym ('w, 'a) sys = "'w \<Rightarrow> (int + 'a) \<times> 'w"

text \<open>\<open>sgx_fread\<close> returns the count and the bytes it wrote into the buffer.\<close>

record 'w pfs_ffi =
  sgx_fopen :: "string \<Rightarrow> string \<Rightarrow> bytes \<Rightarrow> 'w \<Rightarrow> addr \<times> 'w"
  sgx_fopen_auto_key :: "string \<Rightarrow> string \<Rightarrow> 'w \<Rightarrow> addr \<times> 'w"
  sgx_fwrite :: "bytes \<Rightarrow> addr \<Rightarrow> 'w \<Rightarrow> nat \<times> 'w"
  sgx_fread :: "nat \<Rightarrow> addr \<Rightarrow> 'w \<Rightarrow> (nat \<times> bytes) \<times> 'w"
  sgx_ftell :: "addr \<Rightarrow> 'w \<Rightarrow> int \<times> 'w"
  sgx_fseek :: "addr \<Rightarrow> int \<Rightarrow> int \<Rightarrow> 'w \<Rightarrow> int \<times> 'w"
  sgx_fflush :: "addr \<Rightarrow> 'w \<Rightarrow> int \<times> 'w"
  sgx_ferror :: "addr \<Rightarrow> 'w \<Rightarrow> int \<times> 'w"
  sgx_feof :: "addr \<Rightarrow> 'w \<Rightarrow> int \<times> 'w"
  sgx_clearerr :: "addr \<Rightarrow> 'w \<Rightarrow> 'w"
  sgx_fclose :: "addr \<Rightarrow> 'w \<Rightarrow> int \<times> 'w"
  sgx_fclear_cache :: "addr \<Rightarrow> 'w \<Rightarrow> int \<times> 'w"
  sgx_remove :: "string \<Rightarrow> 'w \<Rightarrow> int \<times> 'w"
  sgx_fexport_auto_key :: "string \<Rightarrow> 'w \<Rightarrow> (int \<times> bytes) \<times> 'w"
  sgx_fimport_auto_key :: "string \<Rightarrow> bytes \<Rightarrow> 'w \<Rightarrow> int \<times> 'w"
  errno_of :: "'w \<Rightarrow> int"

definition max_len :: nat where "max_len = 2 ^ 32 - 1"

definition file_or_errno :: "'w pfs_ffi \<Rightarrow> addr \<times> 'w \<Rightarrow> (int + addr) \<times> 'w" where
  "file_or_errno P r = (case r of (file, w) \<Rightarrow> (if file = 0 then Inl (errno_of P w) else Inr file, w))"

definition rsgx_fopen where "rsgx_fopen P filename mode key w = file_or_errno P (sgx_fopen P filename mode key w)"
definition rsgx_fopen_auto_key where "rsgx_fopen_auto_key P filename mode w = file_or_errno P (sgx_fopen_auto_key P filename mode w)"

definition rsgx_ferror :: "'w pfs_ffi \<Rightarrow> addr \<Rightarrow> 'w \<Rightarrow> int \<times> 'w" where
  "rsgx_ferror P stream w = (case sgx_ferror P stream w of (err, w') \<Rightarrow> (if err = - 1 then EINVAL_c else err, w'))"

definition throw_ferror :: "'w pfs_ffi \<Rightarrow> addr \<Rightarrow> ('w, 'a) sys" where
  "throw_ferror P stream w = (case rsgx_ferror P stream w of (err, w') \<Rightarrow> (Inl err, w'))"

definition rsgx_feof :: "'w pfs_ffi \<Rightarrow> addr \<Rightarrow> ('w, bool) sys" where
  "rsgx_feof P stream w =
     (if stream = 0 then (Inl EINVAL_c, w) else case sgx_feof P stream w of (r, w') \<Rightarrow> (Inr (r = 1), w'))"

definition rsgx_fwrite :: "'w pfs_ffi \<Rightarrow> addr \<Rightarrow> bytes \<Rightarrow> ('w, nat) sys" where
  "rsgx_fwrite P stream buf w =
     (if stream = 0 then (Inl EINVAL_c, w)
      else let write_size = min (length buf) max_len
           in case sgx_fwrite P (take write_size buf) stream w of (ret_size, w') \<Rightarrow>
                if ret_size \<noteq> write_size then throw_ferror P stream w' else (Inr ret_size, w'))"

text \<open>With the buffer afterwards: the foreign function was told its size.\<close>

definition rsgx_fread :: "'w pfs_ffi \<Rightarrow> addr \<Rightarrow> bytes \<Rightarrow> 'w \<Rightarrow> (int + nat) \<times> bytes \<times> 'w" where
  "rsgx_fread P stream buf w =
     (if stream = 0 then (Inl EINVAL_c, buf, w)
      else let read_size = min (length buf) max_len
           in case sgx_fread P read_size stream w of ((ret_size, data), w1) \<Rightarrow>
                let buf' = bsplice 0 (take read_size data) buf
                in if ret_size \<noteq> read_size
                   then case rsgx_feof P stream w1 of
                          (Inl e, w2) \<Rightarrow> (Inl e, buf', w2)
                        | (Inr is_eof, w2) \<Rightarrow>
                            if is_eof then (Inr ret_size, buf', w2)
                            else (case throw_ferror P stream w2 of (r, w3) \<Rightarrow> (r, buf', w3))
                   else (Inr ret_size, buf', w1))"

definition rsgx_ftell :: "'w pfs_ffi \<Rightarrow> addr \<Rightarrow> ('w, int) sys" where
  "rsgx_ftell P stream w =
     (if stream = 0 then (Inl EINVAL_c, w)
      else case sgx_ftell P stream w of (pos, w') \<Rightarrow> (if pos = - 1 then Inl (errno_of P w') else Inr pos, w'))"

definition rsgx_fseek :: "'w pfs_ffi \<Rightarrow> addr \<Rightarrow> int \<Rightarrow> int \<Rightarrow> ('w, unit) sys" where
  "rsgx_fseek P stream offset origin w =
     (if stream = 0 then (Inl EINVAL_c, w)
      else case sgx_fseek P stream offset origin w of (ret, w') \<Rightarrow> if ret = 0 then (Inr (), w') else throw_ferror P stream w')"

definition rsgx_fflush :: "'w pfs_ffi \<Rightarrow> addr \<Rightarrow> ('w, unit) sys" where
  "rsgx_fflush P stream w =
     (case sgx_fflush P stream w of (ret, w') \<Rightarrow>
        if ret = 0 then (Inr (), w') else if ret = EOF_c then throw_ferror P stream w' else (Inl ret, w'))"

definition rsgx_clearerr where "rsgx_clearerr P stream w = sgx_clearerr P stream w"

definition rsgx_fclose :: "'w pfs_ffi \<Rightarrow> addr \<Rightarrow> ('w, unit) sys" where
  "rsgx_fclose P stream w =
     (if stream = 0 then (Inl EINVAL_c, w) else case sgx_fclose P stream w of (ret, w') \<Rightarrow> (if ret = 0 then Inr () else Inl EIO_c, w'))"

definition rsgx_fclear_cache :: "'w pfs_ffi \<Rightarrow> addr \<Rightarrow> ('w, unit) sys" where
  "rsgx_fclear_cache P stream w =
     (if stream = 0 then (Inl EINVAL_c, w)
      else case sgx_fclear_cache P stream w of (ret, w') \<Rightarrow> if ret = 0 then (Inr (), w') else throw_ferror P stream w')"

definition rsgx_remove :: "'w pfs_ffi \<Rightarrow> string \<Rightarrow> ('w, unit) sys" where
  "rsgx_remove P filename w = (case sgx_remove P filename w of (ret, w') \<Rightarrow> (if ret = 0 then Inr () else Inl (errno_of P w'), w'))"

text \<open>The foreign function writes the key through the reference, of 16 bytes: the result carries the key afterwards.\<close>

definition rsgx_fexport_auto_key :: "'w pfs_ffi \<Rightarrow> string \<Rightarrow> 'w \<Rightarrow> ((int + unit) \<times> bytes) \<times> 'w" where
  "rsgx_fexport_auto_key P filename w =
     (case sgx_fexport_auto_key P filename w of ((ret, key), w') \<Rightarrow> ((if ret = 0 then Inr () else Inl (errno_of P w'), fit 16 key), w'))"

definition rsgx_fimport_auto_key :: "'w pfs_ffi \<Rightarrow> string \<Rightarrow> bytes \<Rightarrow> ('w, unit) sys" where
  "rsgx_fimport_auto_key P filename key w =
     (case sgx_fimport_auto_key P filename key w of (ret, w') \<Rightarrow> (if ret = 0 then Inr () else Inl (errno_of P w'), w'))"

record SgxFileStream =
  stream_of :: addr

definition map_stream :: "(int + addr) \<times> 'w \<Rightarrow> (int + SgxFileStream) \<times> 'w" where
  "map_stream r = (case r of (Inl e, w) \<Rightarrow> (Inl e, w) | (Inr f, w) \<Rightarrow> (Inr \<lparr>stream_of = f\<rparr>, w))"

definition SgxFileStream_open where "SgxFileStream_open P filename mode key w = map_stream (rsgx_fopen P filename mode key w)"
definition SgxFileStream_open_auto_key where "SgxFileStream_open_auto_key P filename mode w = map_stream (rsgx_fopen_auto_key P filename mode w)"
definition SgxFileStream_read where "SgxFileStream_read P self buf w = rsgx_fread P (stream_of self) buf w"
definition SgxFileStream_write where "SgxFileStream_write P self buf w = rsgx_fwrite P (stream_of self) buf w"
definition SgxFileStream_tell where "SgxFileStream_tell P self w = rsgx_ftell P (stream_of self) w"

datatype pfs_SeekFrom = Seek_Start | Seek_End | Seek_Current

definition seek_whence :: "pfs_SeekFrom \<Rightarrow> int" where
  "seek_whence origin = (case origin of Seek_Start \<Rightarrow> 0 | Seek_End \<Rightarrow> 2 | Seek_Current \<Rightarrow> 1)"

definition SgxFileStream_seek where "SgxFileStream_seek P self offset origin w = rsgx_fseek P (stream_of self) offset (seek_whence origin) w"
definition SgxFileStream_flush where "SgxFileStream_flush P self w = rsgx_fflush P (stream_of self) w"
definition SgxFileStream_error where "SgxFileStream_error P self w = rsgx_ferror P (stream_of self) w"

definition SgxFileStream_is_eof :: "'w pfs_ffi \<Rightarrow> SgxFileStream \<Rightarrow> 'w \<Rightarrow> (bool \<times> 'w) outcome" where
  "SgxFileStream_is_eof P self w = (case rsgx_feof P (stream_of self) w of (Inr b, w') \<Rightarrow> Ret (b, w') | (Inl _, _) \<Rightarrow> Panic)"

definition SgxFileStream_clearerr where "SgxFileStream_clearerr P self w = rsgx_clearerr P (stream_of self) w"
definition SgxFileStream_clear_cache where "SgxFileStream_clear_cache P self w = rsgx_fclear_cache P (stream_of self) w"
definition SgxFileStream_drop where "SgxFileStream_drop P self w = snd (rsgx_fclose P (stream_of self) w)"

definition pfs_remove where "pfs_remove P filename w = rsgx_remove P filename w"
definition export_auto_key :: "'w pfs_ffi \<Rightarrow> string \<Rightarrow> ('w, bytes) sys" where
  "export_auto_key P filename w =
     (case rsgx_fexport_auto_key P filename w of ((Inr _, key), w') \<Rightarrow> (Inr key, w') | ((Inl e, _), w') \<Rightarrow> (Inl e, w'))"

text \<open>The aligned key is a structure with padding, whose key is written in place.\<close>

record sgx_align_key_128bit_t =
  align_pad :: bytes
  align_key :: bytes

definition export_align_auto_key :: "'w pfs_ffi \<Rightarrow> string \<Rightarrow> ('w, sgx_align_key_128bit_t) sys" where
  "export_align_auto_key P filename w =
     (case rsgx_fexport_auto_key P filename w of
        ((Inr _, key), w') \<Rightarrow> (Inr \<lparr>align_pad = zeros 16, align_key = key\<rparr>, w') | ((Inl e, _), w') \<Rightarrow> (Inl e, w'))"

definition import_auto_key where "import_auto_key P filename key w = rsgx_fimport_auto_key P filename key w"

section \<open>What the interface promises\<close>

text \<open>A stream that was opened is not null, so that asking for its end cannot panic.\<close>

lemma open_not_null:
  "SgxFileStream_open P filename mode key w = (Inr f, w') \<Longrightarrow> stream_of f \<noteq> 0"
  "SgxFileStream_open_auto_key P filename mode w = (Inr f, w') \<Longrightarrow> stream_of f \<noteq> 0"
  by (auto simp: SgxFileStream_open_def SgxFileStream_open_auto_key_def map_stream_def rsgx_fopen_def rsgx_fopen_auto_key_def file_or_errno_def
      split: prod.splits sum.splits if_splits)

lemma is_eof_total: "stream_of f \<noteq> 0 \<Longrightarrow> \<exists>b w'. SgxFileStream_is_eof P f w = Ret (b, w')"
  by (auto simp: SgxFileStream_is_eof_def rsgx_feof_def split: prod.splits)

text \<open>
  Reading changes at most the buffer's first \<^verbatim>\<open>u32::MAX\<close> bytes and keeps its length; a count that is returned is at most the size of the buffer when the library returns no
  more than it was asked for. Writing writes all of the buffer, up to that limit, or fails.
\<close>

definition reads_at_most :: "'w pfs_ffi \<Rightarrow> bool" where
  "reads_at_most P \<longleftrightarrow> (\<forall>n f w. fst (fst (sgx_fread P n f w)) \<le> n)"

lemma fread_bounds:
  assumes "SgxFileStream_read P f buf w = (r, buf', w')"
  shows "length buf' = length buf" and "drop max_len buf' = drop max_len buf"
proof -
  let ?n = "min (length buf) max_len"
  obtain data where "buf' = buf \<or> buf' = bsplice 0 (take ?n data) buf"
    using assms by (auto simp: SgxFileStream_read_def rsgx_fread_def Let_def split: prod.splits sum.splits if_splits)
  then show "length buf' = length buf" "drop max_len buf' = drop max_len buf"
    by (auto simp: bsplice_def drop_append)
qed

lemma fread_count:
  assumes "reads_at_most P" and "SgxFileStream_read P f buf w = (Inr n, buf', w')"
  shows "n \<le> length buf"
proof -
  have "fst (fst (sgx_fread P k s w)) \<le> k" for k s w using assms(1) by (simp add: reads_at_most_def)
  from this [of "min (length buf) max_len" "stream_of f" w] show ?thesis
    using assms(2)
    by (auto simp: SgxFileStream_read_def rsgx_fread_def throw_ferror_def Let_def split: prod.splits sum.splits if_splits)
qed

lemma fwrite_all: "SgxFileStream_write P f buf w = (Inr n, w') \<Longrightarrow> n = min (length buf) max_len"
  by (auto simp: SgxFileStream_write_def rsgx_fwrite_def throw_ferror_def Let_def split: prod.splits if_splits)

section \<open>Remote attestation\<close>

datatype sgx_ra_key_type_t = SGX_RA_KEY_SK | SGX_RA_KEY_MK

record 'w ra_ffi =
  sgx_ra_init :: "bytes \<Rightarrow> int \<Rightarrow> 'w \<Rightarrow> (sgx_status_t \<times> u32) \<times> 'w"
  sgx_ra_init_ex :: "bytes \<Rightarrow> int \<Rightarrow> addr \<Rightarrow> 'w \<Rightarrow> (sgx_status_t \<times> u32) \<times> 'w"
  sgx_ra_get_keys :: "u32 \<Rightarrow> sgx_ra_key_type_t \<Rightarrow> 'w \<Rightarrow> (sgx_status_t \<times> bytes) \<times> 'w"
  sgx_ra_close :: "u32 \<Rightarrow> 'w \<Rightarrow> sgx_status_t \<times> 'w"

definition rsgx_ra_init :: "'w ra_ffi \<Rightarrow> bytes \<Rightarrow> int \<Rightarrow> 'w \<Rightarrow> u32 SgxResult \<times> 'w" where
  "rsgx_ra_init R p_pub_key b_pse w =
     (case sgx_ra_init R p_pub_key b_pse w of ((ret, ctx), w') \<Rightarrow> (ffi_result ret ctx, w'))"

definition rsgx_ra_init_ex :: "'w ra_ffi \<Rightarrow> bytes \<Rightarrow> int \<Rightarrow> addr \<Rightarrow> 'w \<Rightarrow> u32 SgxResult \<times> 'w" where
  "rsgx_ra_init_ex R p_pub_key b_pse derive_key_cb w =
     (case sgx_ra_init_ex R p_pub_key b_pse derive_key_cb w of ((ret, ctx), w') \<Rightarrow> (ffi_result ret ctx, w'))"

definition rsgx_ra_get_keys :: "'w ra_ffi \<Rightarrow> u32 \<Rightarrow> sgx_ra_key_type_t \<Rightarrow> 'w \<Rightarrow> bytes SgxResult \<times> 'w" where
  "rsgx_ra_get_keys R ctx keytype w =
     (case sgx_ra_get_keys R ctx keytype w of ((ret, key), w') \<Rightarrow> (ffi_result ret (fit 16 key), w'))"

definition rsgx_ra_close :: "'w ra_ffi \<Rightarrow> u32 \<Rightarrow> 'w \<Rightarrow> SgxError \<times> 'w" where
  "rsgx_ra_close R ctx w = (case sgx_ra_close R ctx w of (ret, w') \<Rightarrow> (ffi_result ret (), w'))"

text \<open>A key that is returned has the size of its type and the library reported success.\<close>

lemma ra_get_keys_success:
  "rsgx_ra_get_keys R ctx keytype w = (Inr key, w')
     \<Longrightarrow> length key = 16 \<and> fst (fst (sgx_ra_get_keys R ctx keytype w)) = SGX_SUCCESS"
  by (auto simp: rsgx_ra_get_keys_def split: prod.splits)

end
