(* ===== verification/Sgx_Sgxfs.thy ===== *)
theory Sgx_Sgxfs
  imports Sgx_Pfs Sgx_Io_Cursor
begin

text \<open>
  Files of the enclave's standard library, \<^verbatim>\<open>src/sgx_tstd/src/sgxfs.rs\<close> and \<^verbatim>\<open>src/sgx_tstd/src/sys/sgxfs.rs\<close>, over the protected files of \<open>Sgx_Pfs\<close>: options, the translation of errors, and
  writing a whole file. Reading to the end and copying rest on other parts of \<^verbatim>\<open>io\<close> and are not modelled. The newtypes around \<^verbatim>\<open>SgxFileStream\<close> are the stream itself.
\<close>

section \<open>Errors\<close>

text \<open>\<^verbatim>\<open>io::Error\<close> without the boxed errors of other crates.\<close>

datatype fs_error = Os int | Simple ErrorKind | SimpleMessage ErrorKind string | SgxStatus sgx_status_t

definition error_kind_table :: "(int \<times> ErrorKind) list" where
  "error_kind_table =
     [(7, ArgumentListTooLong), (98, AddrInUse), (99, AddrNotAvailable), (16, ResourceBusy), (103, ConnectionAborted), (111, ConnectionRefused),
      (104, ConnectionReset), (35, Deadlock), (122, FilesystemQuotaExceeded), (17, AlreadyExists), (27, FileTooLarge), (113, HostUnreachable), (4,
      Interrupted), (22, InvalidInput), (21, IsADirectory), (40, FilesystemLoop), (2, NotFound), (12, OutOfMemory), (28, StorageFull), (38,
      Unsupported), (31, TooManyLinks), (36, InvalidFilename), (100, NetworkDown), (101, NetworkUnreachable), (107, NotConnected), (20,
      NotADirectory), (39, DirectoryNotEmpty), (32, BrokenPipe), (30, ReadOnlyFilesystem), (29, NotSeekable), (116, StaleNetworkFileHandle), (110,
      TimedOut), (26, ExecutableFileBusy), (18, CrossesDevices)]"

definition decode_error_kind :: "int \<Rightarrow> ErrorKind" where
  "decode_error_kind errno =
     (case map_of error_kind_table errno of
        Some k \<Rightarrow> k
      | None \<Rightarrow> if errno = 13 \<or> errno = 1 then PermissionDenied else if errno = 11 then WouldBlock else Uncategorized)"

definition error_kind :: "fs_error \<Rightarrow> ErrorKind" where
  "error_kind e = (case e of Os code \<Rightarrow> decode_error_kind code | Simple k \<Rightarrow> k | SimpleMessage k _ \<Rightarrow> k | SgxStatus _ \<Rightarrow> ErrorKind.SgxError)"

definition NulError_into :: fs_error where "NulError_into = SimpleMessage InvalidInput ''data provided contains a nul byte''"

text \<open>Numbers above 4096 are taken for a status (\<^verbatim>\<open>r as u32\<close>).\<close>

definition status_error :: "int \<Rightarrow> fs_error" where
  "status_error r = SgxStatus (case from_repr (word_of_int r) of Some s \<Rightarrow> s | None \<Rightarrow> SGX_ERROR_UNEXPECTED)"

definition tell_error :: "int \<Rightarrow> fs_error" where "tell_error err = (if err > 4096 then status_error err else Os err)"

definition stream_error :: "int \<Rightarrow> fs_error" where
  "stream_error err =
     (if err = 1 then SgxStatus SGX_ERROR_UNEXPECTED
      else if err = 2 then SgxStatus SGX_ERROR_INVALID_PARAMETER
      else if err = 3 then SgxStatus SGX_ERROR_OUT_OF_MEMORY
      else if err = 4 \<or> err = 5 then Os err
      else if err > 4096 then status_error err
      else Os err)"

definition path_error :: "int \<Rightarrow> fs_error" where
  "path_error err = (if err = 2 then Os 2 else stream_error err)"

section \<open>Options\<close>

record OpenOptions =
  o_read :: bool
  o_write :: bool
  o_append :: bool
  o_update :: bool
  o_binary :: bool

definition OpenOptions_new :: OpenOptions where
  "OpenOptions_new = \<lparr>o_read = False, o_write = False, o_append = False, o_update = False, o_binary = False\<rparr>"

definition opt_read where "opt_read b self = self\<lparr>o_read := b\<rparr>"
definition opt_write where "opt_write b self = self\<lparr>o_write := b\<rparr>"
definition opt_append where "opt_append b self = self\<lparr>o_append := b\<rparr>"
definition opt_update where "opt_update b self = self\<lparr>o_update := b\<rparr>"
definition opt_binary where "opt_binary b self = self\<lparr>o_binary := b\<rparr>"

definition get_access_mode :: "OpenOptions \<Rightarrow> fs_error + string" where
  "get_access_mode self =
     (let finish = (\<lambda>mode. Inr (mode @ (if o_update self then ''+'' else []) @ (if o_binary self then ''b'' else [])))
      in case (o_read self, o_write self, o_append self) of
           (True, False, False) \<Rightarrow> finish ''r''
         | (False, True, False) \<Rightarrow> finish ''w''
         | (False, False, True) \<Rightarrow> finish ''a''
         | _ \<Rightarrow> Inl (Os EINVAL_c))"

section \<open>Files\<close>

type_synonym ('w, 'a) fs_call = "('w, fs_error, 'a) io"

text \<open>\<^verbatim>\<open>CString::new\<close> refuses a string with a zero.\<close>

definition CString_new :: "string \<Rightarrow> ('w, string) fs_call" where
  "CString_new s = (if char_of (0::nat) \<in> set s then throwE NulError_into else returnE s)"

definition SgxFile_open_c :: "'w pfs_ffi \<Rightarrow> string \<Rightarrow> string \<Rightarrow> bytes \<Rightarrow> bool \<Rightarrow> ('w, SgxFileStream) fs_call" where
  "SgxFile_open_c P path opts key auto_key =
     map_errW path_error (if auto_key then SgxFileStream_open_auto_key P path opts else SgxFileStream_open P path opts key)"

definition SgxFile_open :: "'w pfs_ffi \<Rightarrow> string \<Rightarrow> OpenOptions \<Rightarrow> ('w, SgxFileStream) fs_call" where
  "SgxFile_open P path opts =
     bindE (CString_new path) (\<lambda>cpath.
     bindE (\<lambda>w. (get_access_mode opts, w)) (\<lambda>mode.
     bindE (CString_new mode) (\<lambda>copts. SgxFile_open_c P cpath copts (zeros 16) True)))"

definition SgxFile_open_ex :: "'w pfs_ffi \<Rightarrow> string \<Rightarrow> OpenOptions \<Rightarrow> bytes \<Rightarrow> ('w, SgxFileStream) fs_call" where
  "SgxFile_open_ex P path opts key =
     bindE (CString_new path) (\<lambda>cpath.
     bindE (\<lambda>w. (get_access_mode opts, w)) (\<lambda>mode.
     bindE (CString_new mode) (\<lambda>copts. SgxFile_open_c P cpath copts key False)))"

definition SgxFile_read :: "'w pfs_ffi \<Rightarrow> SgxFileStream \<Rightarrow> bytes \<Rightarrow> 'w \<Rightarrow> (fs_error + nat) \<times> bytes \<times> 'w" where
  "SgxFile_read P self buf w = (case SgxFileStream_read P self buf w of (r, rest) \<Rightarrow> (map_sum stream_error id r, rest))"

definition SgxFile_write :: "'w pfs_ffi \<Rightarrow> SgxFileStream \<Rightarrow> bytes \<Rightarrow> ('w, nat) fs_call" where
  "SgxFile_write P self buf = map_errW stream_error (SgxFileStream_write P self buf)"

definition SgxFile_tell :: "'w pfs_ffi \<Rightarrow> SgxFileStream \<Rightarrow> ('w, nat) fs_call" where
  "SgxFile_tell P self = bindE (map_errW tell_error (SgxFileStream_tell P self)) (\<lambda>offset. returnE (nat (offset mod 2 ^ 64)))"

text \<open>\<^verbatim>\<open>off as i64\<close> for an offset from the start, a \<^verbatim>\<open>u64\<close>.\<close>

definition SgxFile_seek :: "'w pfs_ffi \<Rightarrow> SgxFileStream \<Rightarrow> SeekFrom \<Rightarrow> ('w, nat) fs_call" where
  "SgxFile_seek P self p =
     (case (case p of Start off \<Rightarrow> (Seek_Start, (int off + 2 ^ 63) mod 2 ^ 64 - 2 ^ 63) | End off \<Rightarrow> (Seek_End, off) | Current off \<Rightarrow> (Seek_Current, off)) of
        (whence, offset) \<Rightarrow> bindE (map_errW tell_error (SgxFileStream_seek P self offset whence)) (\<lambda>_. SgxFile_tell P self))"

definition SgxFile_flush :: "'w pfs_ffi \<Rightarrow> SgxFileStream \<Rightarrow> ('w, unit) fs_call" where
  "SgxFile_flush P self = map_errW stream_error (SgxFileStream_flush P self)"

definition SgxFile_is_eof where "SgxFile_is_eof P self w = SgxFileStream_is_eof P self w"
definition SgxFile_clearerr where "SgxFile_clearerr P self w = SgxFileStream_clearerr P self w"

definition SgxFile_clear_cache :: "'w pfs_ffi \<Rightarrow> SgxFileStream \<Rightarrow> ('w, unit) fs_call" where
  "SgxFile_clear_cache P self = map_errW stream_error (SgxFileStream_clear_cache P self)"

definition sgxfs_remove :: "'w pfs_ffi \<Rightarrow> string \<Rightarrow> ('w, unit) fs_call" where
  "sgxfs_remove P path = bindE (CString_new path) (\<lambda>c. map_errW path_error (pfs_remove P c))"

definition sgxfs_export_auto_key :: "'w pfs_ffi \<Rightarrow> string \<Rightarrow> ('w, bytes) fs_call" where
  "sgxfs_export_auto_key P path = bindE (CString_new path) (\<lambda>c. map_errW path_error (export_auto_key P c))"

definition sgxfs_export_align_auto_key :: "'w pfs_ffi \<Rightarrow> string \<Rightarrow> ('w, sgx_align_key_128bit_t) fs_call" where
  "sgxfs_export_align_auto_key P path = bindE (CString_new path) (\<lambda>c. map_errW path_error (export_align_auto_key P c))"

definition sgxfs_import_auto_key :: "'w pfs_ffi \<Rightarrow> string \<Rightarrow> bytes \<Rightarrow> ('w, unit) fs_call" where
  "sgxfs_import_auto_key P path key = bindE (CString_new path) (\<lambda>c. map_errW path_error (import_auto_key P c key))"

section \<open>The interface\<close>

definition File_open where "File_open P path = SgxFile_open P path (opt_read True OpenOptions_new)"
definition File_create where "File_create P path = SgxFile_open P path (opt_write True OpenOptions_new)"
definition File_open_ex where "File_open_ex P path key = SgxFile_open_ex P path (opt_read True OpenOptions_new) key"
definition File_create_ex where "File_create_ex P path key = SgxFile_open_ex P path (opt_write True OpenOptions_new) key"

text \<open>
  The provided method \<^verbatim>\<open>Write::write_all\<close> at a file. It goes on after an interruption, so that it may not end, which is \<open>None\<close>; a count beyond the buffer would
  make the slice panic.
\<close>

partial_function (option) File_write_all :: "'w pfs_ffi \<Rightarrow> SgxFileStream \<Rightarrow> bytes \<Rightarrow> 'w \<Rightarrow> ((fs_error + unit) \<times> 'w) outcome option" where
  "File_write_all F self buf w =
     (if buf = [] then Some (Ret (Inr (), w))
      else case SgxFile_write F self buf w of
             (Inl e, w') \<Rightarrow> if error_kind e = Interrupted then File_write_all F self buf w' else Some (Ret (Inl e, w'))
           | (Inr n, w') \<Rightarrow>
               if n = 0 then Some (Ret (Inl (SimpleMessage WriteZero ''failed to write whole buffer''), w'))
               else if n > length buf then Some Panic
               else File_write_all F self (drop n buf) w')"

text \<open>The file is dropped, and thereby closed, after the write.\<close>

definition sgxfs_write :: "'w pfs_ffi \<Rightarrow> string \<Rightarrow> bytes \<Rightarrow> 'w \<Rightarrow> ((fs_error + unit) \<times> 'w) outcome option" where
  "sgxfs_write P path contents w =
     (case File_create P path w of
        (Inl e, w1) \<Rightarrow> Some (Ret (Inl e, w1))
      | (Inr file, w1) \<Rightarrow>
          map_option (\<lambda>r. case r of Ret (x, w2) \<Rightarrow> Ret (x, SgxFileStream_drop P file w2) | Panic \<Rightarrow> Panic | Undef \<Rightarrow> Undef) (File_write_all P file contents w1))"

section \<open>Options and modes\<close>

text \<open>Exactly one of reading, writing and appending must be chosen, and different options open in different modes.\<close>

lemma access_mode_inj: "get_access_mode o1 = Inr m \<Longrightarrow> get_access_mode o2 = Inr m \<Longrightarrow> o1 = (o2 :: OpenOptions)"
  by (auto simp: get_access_mode_def Let_def split: bool.splits if_splits)

lemma access_mode_iff:
  "(\<exists>m. get_access_mode opts = Inr m) \<longleftrightarrow> length (filter id [o_read opts, o_write opts, o_append opts]) = 1"
  by (simp add: get_access_mode_def Let_def split: bool.splits)

lemma create_mode: "get_access_mode (opt_write True OpenOptions_new) = Inr ''w''"
  by (simp add: get_access_mode_def opt_write_def OpenOptions_new_def)

section \<open>Writing a whole file\<close>

text \<open>
  What the library documents: a write that reports all of its bytes appends them to the contents, and \<^verbatim>\<open>sgx_ferror\<close> reports no interruption (4).
\<close>

definition appends :: "'w pfs_ffi \<Rightarrow> ('w \<Rightarrow> addr \<Rightarrow> bytes) \<Rightarrow> bool" where
  "appends P contents \<longleftrightarrow> (\<forall>bs f w w'. sgx_fwrite P bs f w = (length bs, w') \<longrightarrow> contents w' f = contents w f @ bs)"

definition no_interruption :: "'w pfs_ffi \<Rightarrow> bool" where
  "no_interruption P \<longleftrightarrow> (\<forall>f w. fst (sgx_ferror P f w) \<noteq> 4)"

lemma interrupted_iff: "error_kind (stream_error err) = Interrupted \<longleftrightarrow> err = 4"
  by (simp add: stream_error_def status_error_def error_kind_def decode_error_kind_def error_kind_table_def split: option.splits)

lemma file_write_error:
  assumes "no_interruption P" and "SgxFile_write P f buf w = (Inl e, w')"
  shows "error_kind e \<noteq> Interrupted"
proof -
  obtain err where err: "SgxFileStream_write P f buf w = (Inl err, w')" "e = stream_error err"
    using assms(2) by (auto simp: SgxFile_write_def map_errW_def split: prod.splits sum.splits)
  have "fst (sgx_ferror P g v) \<noteq> 4" for g v using assms(1) by (simp add: no_interruption_def)
  from this [of "stream_of f"] have "err \<noteq> 4"
    using err(1)
    by (auto simp: SgxFileStream_write_def rsgx_fwrite_def throw_ferror_def rsgx_ferror_def EINVAL_c_def Let_def split: prod.splits if_splits)
      (metis fst_conv)
  then show ?thesis using err(2) interrupted_iff by simp
qed

lemma file_write_ok:
  assumes "SgxFile_write P f buf w = (Inr n, w')"
  shows "n = min (length buf) max_len" and "appends P contents \<Longrightarrow> contents w' (stream_of f) = contents w (stream_of f) @ take n buf"
proof -
  have wr: "SgxFileStream_write P f buf w = (Inr n, w')"
    using assms by (auto simp: SgxFile_write_def map_errW_def split: prod.splits sum.splits)
  from fwrite_all [OF this] show n: "n = min (length buf) max_len" .
  have "sgx_fwrite P (take n buf) (stream_of f) w = (n, w')"
    using wr unfolding n by (auto simp: SgxFileStream_write_def rsgx_fwrite_def throw_ferror_def Let_def split: prod.splits if_splits)
  then show "contents w' (stream_of f) = contents w (stream_of f) @ take n buf" if "appends P contents"
    using that n unfolding appends_def by (metis length_take min.absorb2 min.cobounded1)
qed

lemma write_all_complete:
  assumes "appends P contents" and "no_interruption P"
  shows "\<exists>r w'. File_write_all P f buf w = Some (Ret (r, w')) \<and> (r = Inr () \<longrightarrow> contents w' (stream_of f) = contents w (stream_of f) @ buf)"
proof (induction buf arbitrary: w rule: length_induct)
  case (1 buf)
  show ?case
  proof (cases "SgxFile_write P f buf w")
    case (Pair r w1)
    show ?thesis
    proof (cases "buf = []")
      case True
      then show ?thesis by (simp add: File_write_all.simps)
    next
      case nonempty: False
      show ?thesis
      proof (cases r)
        case (Inl e)
        then show ?thesis using Pair nonempty file_write_error [OF assms(2)] by (simp add: File_write_all.simps)
      next
        case (Inr n)
        note ok = file_write_ok [OF Pair [unfolded Inr]]
        have n: "n \<noteq> 0" "n \<le> length buf" using ok(1) nonempty by (auto simp: max_len_def)
        then have "length (drop n buf) < length buf" by simp
        then obtain r' w' where "File_write_all P f (drop n buf) w1 = Some (Ret (r', w'))"
            "r' = Inr () \<longrightarrow> contents w' (stream_of f) = contents w1 (stream_of f) @ drop n buf"
          using 1 by blast
        then show ?thesis using Pair Inr n nonempty ok(2) [OF assms(1)] by (simp add: File_write_all.simps [of P f buf])
      qed
    qed
  qed
qed


text \<open>A library that keeps what is written to its only file, in the world.\<close>

definition one_file_library :: "bytes pfs_ffi" where
  "one_file_library =
     \<lparr>sgx_fopen = (\<lambda>_ _ _ w. (1, [])), sgx_fopen_auto_key = (\<lambda>_ _ w. (1, [])), sgx_fwrite = (\<lambda>bs f w. (length bs, w @ bs)),
      sgx_fread = (\<lambda>n f w. ((0, []), w)), sgx_ftell = (\<lambda>f w. (0, w)), sgx_fseek = (\<lambda>f o' s w. (0, w)), sgx_fflush = (\<lambda>f w. (0, w)),
      sgx_ferror = (\<lambda>f w. (0, w)), sgx_feof = (\<lambda>f w. (1, w)), sgx_clearerr = (\<lambda>f w. w), sgx_fclose = (\<lambda>f w. (0, w)),
      sgx_fclear_cache = (\<lambda>f w. (0, w)), sgx_remove = (\<lambda>p w. (0, [])), sgx_fexport_auto_key = (\<lambda>p w. ((0, []), w)),
      sgx_fimport_auto_key = (\<lambda>p k w. (0, w)), errno_of = (\<lambda>w. 0)\<rparr>"


text \<open>Error 4 is passed on as \<^verbatim>\<open>EINTR\<close>: when the library keeps reporting it, the write never returns.\<close>

lemmas write_all_induct = File_write_all.raw_induct [rotated, consumes 1, case_names step]

lemma write_all_returns:
  "File_write_all P f buf w = Some y \<Longrightarrow> buf \<noteq> [] \<Longrightarrow> \<exists>v. \<forall>v'. SgxFile_write P f buf v \<noteq> (Inl (Os 4), v')"
proof (induction P f buf w y rule: write_all_induct)
  case (step go P f buf w y)
  show ?case
  proof (rule ccontr)
    assume err: "\<nexists>v. \<forall>v'. SgxFile_write P f buf v \<noteq> (Inl (Os 4), v')"
    from err obtain w' where "SgxFile_write P f buf w = (Inl (Os 4), w')" by blast
    moreover have "error_kind (Os 4) = Interrupted" using interrupted_iff [of 4] by (simp add: stream_error_def)
    ultimately have "go P f buf w' = Some y" using step(2,3) by (simp split: if_splits)
    then show False using step(1,3) err by blast
  qed
qed

lemma interrupted_for_ever:
  assumes "\<And>w. \<exists>w'. SgxFile_write P f buf w = (Inl (Os 4), w')" and "buf \<noteq> []"
  shows "File_write_all P f buf w = None"
  using write_all_returns [of P f buf w] assms by (cases "File_write_all P f buf w") blast+

end
