(* ===== verification/Sgx_Time.thy ===== *)
theory Sgx_Time
  imports Sgx_Error
begin

text \<open>
  Points in time and durations, \<^verbatim>\<open>src/sgx_tstd/src/sys/time.rs\<close> and \<^verbatim>\<open>src/sgx_tstd/src/time.rs\<close>. Machine integers are integers with the conversions and the overflow written out:
  \<open>chk\<close> says whether the build has overflow checks, without which arithmetic wraps. The newtypes around \<^verbatim>\<open>Timespec\<close> are \<^verbatim>\<open>Timespec\<close> itself.
\<close>

section \<open>Machine arithmetic\<close>

definition wrap_signed :: "nat \<Rightarrow> int \<Rightarrow> int" where
  "wrap_signed n x = (x + 2 ^ (n - 1)) mod 2 ^ n - 2 ^ (n - 1)"

definition in_signed :: "nat \<Rightarrow> int \<Rightarrow> bool" where "in_signed n x \<longleftrightarrow> - (2 ^ (n - 1)) \<le> x \<and> x < 2 ^ (n - 1)"
definition in_unsigned :: "nat \<Rightarrow> int \<Rightarrow> bool" where "in_unsigned n x \<longleftrightarrow> 0 \<le> x \<and> x < 2 ^ n"

text \<open>The result of an operation on \<^verbatim>\<open>i64\<close> or \<^verbatim>\<open>i32\<close>, on \<^verbatim>\<open>u32\<close>, and of a checked operation.\<close>

definition signed_op :: "bool \<Rightarrow> nat \<Rightarrow> int \<Rightarrow> int outcome" where
  "signed_op chk n x = (if in_signed n x then Ret x else if chk then Panic else Ret (wrap_signed n x))"

definition unsigned_op :: "bool \<Rightarrow> nat \<Rightarrow> int \<Rightarrow> int outcome" where
  "unsigned_op chk n x = (if in_unsigned n x then Ret x else if chk then Panic else Ret (x mod 2 ^ n))"

definition checked_i64 :: "int \<Rightarrow> int option" where "checked_i64 x = (if in_signed 64 x then Some x else None)"

definition as_unsigned :: "nat \<Rightarrow> int \<Rightarrow> int" where "as_unsigned n x = x mod 2 ^ n"

section \<open>Time\<close>

record Duration =
  secs :: int
  nanos :: int

definition NSEC_PER_SEC :: int where "NSEC_PER_SEC = 1000000000"

text \<open>\<^verbatim>\<open>Duration::new\<close> carries whole seconds.\<close>

definition Duration_new :: "int \<Rightarrow> int \<Rightarrow> Duration outcome" where
  "Duration_new s n =
     (let s' = s + n div NSEC_PER_SEC
      in if in_unsigned 64 s' then Ret \<lparr>secs = s', nanos = n mod NSEC_PER_SEC\<rparr> else Panic)"

definition Duration_default :: Duration where "Duration_default = \<lparr>secs = 0, nanos = 0\<rparr>"

record Timespec =
  tv_sec :: int
  tv_nsec :: int

definition Timespec_zero :: Timespec where "Timespec_zero = \<lparr>tv_sec = 0, tv_nsec = 0\<rparr>"

definition timespec_eq :: "Timespec \<Rightarrow> Timespec \<Rightarrow> bool" where
  "timespec_eq self other \<longleftrightarrow> tv_sec self = tv_sec other \<and> tv_nsec self = tv_nsec other"

text \<open>The order of pairs.\<close>

definition timespec_ge :: "Timespec \<Rightarrow> Timespec \<Rightarrow> bool" where
  "timespec_ge self other \<longleftrightarrow> tv_sec self > tv_sec other \<or> tv_sec self = tv_sec other \<and> tv_nsec self \<ge> tv_nsec other"

text \<open>The difference: \<^verbatim>\<open>Ok\<close> when the other time is not later, \<^verbatim>\<open>Err\<close> otherwise.\<close>

function sub_timespec :: "bool \<Rightarrow> Timespec \<Rightarrow> Timespec \<Rightarrow> (Duration + Duration) outcome" where
  "sub_timespec chk self other =
     (if timespec_ge self other
      then bind_out
             (if tv_nsec self \<ge> tv_nsec other
              then bind_out (signed_op chk 64 (tv_sec self - tv_sec other)) (\<lambda>s.
                   bind_out (signed_op chk 64 (tv_nsec self - tv_nsec other)) (\<lambda>n.
                   Ret (as_unsigned 64 s, as_unsigned 32 n)))
              else bind_out (signed_op chk 64 (tv_sec self - tv_sec other)) (\<lambda>d.
                   bind_out (signed_op chk 64 (d - 1)) (\<lambda>s.
                   bind_out (unsigned_op chk 32 (as_unsigned 32 (tv_nsec self) + as_unsigned 32 NSEC_PER_SEC)) (\<lambda>a.
                   bind_out (unsigned_op chk 32 (a - as_unsigned 32 (tv_nsec other))) (\<lambda>n.
                   Ret (as_unsigned 64 s, n))))))
             (\<lambda>(s, n). bind_out (Duration_new s n) (\<lambda>d. Ret (Inr d)))
      else bind_out (sub_timespec chk other self) (\<lambda>r. Ret (case r of Inr d \<Rightarrow> Inl d | Inl d \<Rightarrow> Inr d)))"
  by pat_completeness auto
termination
  by (relation "measure (\<lambda>(_, a, b). if timespec_ge a b then 0 else 1)") (auto simp: timespec_ge_def)

declare sub_timespec.simps [simp del]

text \<open>\<^verbatim>\<open>try_into\<close>: seconds that are no \<^verbatim>\<open>i64\<close> give \<^verbatim>\<open>None\<close>.\<close>

definition Timespec_checked_add_duration :: "bool \<Rightarrow> Timespec \<Rightarrow> Duration \<Rightarrow> Timespec option outcome" where
  "Timespec_checked_add_duration chk self other =
     (case Option.bind (checked_i64 (secs other)) (\<lambda>s. checked_i64 (tv_sec self + s)) of
        None \<Rightarrow> Ret None
      | Some s \<Rightarrow>
          bind_out (unsigned_op chk 32 (nanos other + as_unsigned 32 (tv_nsec self))) (\<lambda>nsec.
          if nsec \<ge> as_unsigned 32 NSEC_PER_SEC
          then Ret (map_option (\<lambda>s'. \<lparr>tv_sec = s', tv_nsec = nsec - as_unsigned 32 NSEC_PER_SEC\<rparr>) (checked_i64 (s + 1)))
          else Ret (Some \<lparr>tv_sec = s, tv_nsec = nsec\<rparr>)))"

definition Timespec_checked_sub_duration :: "bool \<Rightarrow> Timespec \<Rightarrow> Duration \<Rightarrow> Timespec option outcome" where
  "Timespec_checked_sub_duration chk self other =
     (case Option.bind (checked_i64 (secs other)) (\<lambda>s. checked_i64 (tv_sec self - s)) of
        None \<Rightarrow> Ret None
      | Some s \<Rightarrow>
          bind_out (signed_op chk 32 (wrap_signed 32 (tv_nsec self) - wrap_signed 32 (nanos other))) (\<lambda>nsec.
          if nsec < 0
          then Ret (map_option (\<lambda>s'. \<lparr>tv_sec = s', tv_nsec = nsec + NSEC_PER_SEC\<rparr>) (checked_i64 (s - 1)))
          else Ret (Some \<lparr>tv_sec = s, tv_nsec = nsec\<rparr>)))"

section \<open>The interface\<close>

definition map_out :: "('a \<Rightarrow> 'b) \<Rightarrow> 'a outcome \<Rightarrow> 'b outcome" where "map_out f x = bind_out x (\<lambda>a. Ret (f a))"

definition result_ok :: "'e + 'a \<Rightarrow> 'a option" where "result_ok r = (case r of Inr x \<Rightarrow> Some x | Inl _ \<Rightarrow> None)"

definition checked_sub_instant where "checked_sub_instant chk self other = map_out result_ok (sub_timespec chk self other)"
definition checked_duration_since where "checked_duration_since chk self earlier = checked_sub_instant chk self earlier"

definition unwrap_or_default :: "Duration option \<Rightarrow> Duration" where "unwrap_or_default r = (case r of Some d \<Rightarrow> d | None \<Rightarrow> Duration_default)"

definition Instant_duration_since where "Instant_duration_since chk self earlier = map_out unwrap_or_default (checked_duration_since chk self earlier)"
definition saturating_duration_since where "saturating_duration_since chk self earlier = map_out unwrap_or_default (checked_duration_since chk self earlier)"

definition Instant_checked_add where "Instant_checked_add chk self duration = Timespec_checked_add_duration chk self duration"
definition Instant_checked_sub where "Instant_checked_sub chk self duration = Timespec_checked_sub_duration chk self duration"

text \<open>\<^verbatim>\<open>expect\<close>.\<close>

definition expect_out :: "'a option outcome \<Rightarrow> 'a outcome" where
  "expect_out x = bind_out x (\<lambda>r. case r of None \<Rightarrow> Panic | Some a \<Rightarrow> Ret a)"

definition Instant_add where "Instant_add chk self other = expect_out (Instant_checked_add chk self other)"
definition Instant_sub where "Instant_sub chk self other = expect_out (Instant_checked_sub chk self other)"
definition Instant_sub_Instant where "Instant_sub_Instant chk self other = Instant_duration_since chk self other"

definition SystemTime_duration_since where "SystemTime_duration_since chk self earlier = sub_timespec chk self earlier"
definition SystemTime_checked_add where "SystemTime_checked_add chk self duration = Timespec_checked_add_duration chk self duration"
definition SystemTime_checked_sub where "SystemTime_checked_sub chk self duration = Timespec_checked_sub_duration chk self duration"
definition SystemTime_add where "SystemTime_add chk self dur = expect_out (SystemTime_checked_add chk self dur)"
definition SystemTime_sub where "SystemTime_sub chk self dur = expect_out (SystemTime_checked_sub chk self dur)"
definition UNIX_EPOCH :: Timespec where "UNIX_EPOCH = Timespec_zero"

text \<open>The clock of the host: the status of the call, its result and what it left in the structure. \<^verbatim>\<open>cvt\<close> takes -1 for an error, and \<^verbatim>\<open>unwrap\<close> panics on it.\<close>

type_synonym 'w host_clock = "int \<Rightarrow> 'w \<Rightarrow> (sgx_status_t \<times> int \<times> Timespec) \<times> 'w"

definition CLOCK_REALTIME :: int where "CLOCK_REALTIME = 0"
definition CLOCK_MONOTONIC :: int where "CLOCK_MONOTONIC = 1"

definition clock_gettime :: "'w host_clock \<Rightarrow> int \<Rightarrow> 'w \<Rightarrow> (int \<times> Timespec) \<times> 'w" where
  "clock_gettime H clk w = (case H clk w of ((status, result, t), w') \<Rightarrow> ((if status = SGX_SUCCESS then result else - 1, t), w'))"

definition clock_now :: "'w host_clock \<Rightarrow> int \<Rightarrow> 'w \<Rightarrow> (Timespec \<times> 'w) outcome" where
  "clock_now H clk w = (case clock_gettime H clk w of ((result, t), w') \<Rightarrow> if result = - 1 then Panic else Ret (t, w'))"

definition Instant_now where "Instant_now H w = clock_now H CLOCK_MONOTONIC w"
definition SystemTime_now where "SystemTime_now H w = clock_now H CLOCK_REALTIME w"

definition Instant_elapsed :: "bool \<Rightarrow> 'w host_clock \<Rightarrow> Timespec \<Rightarrow> 'w \<Rightarrow> (Duration \<times> 'w) outcome" where
  "Instant_elapsed chk H self w =
     bind_out (Instant_now H w) (\<lambda>(now, w'). map_out (\<lambda>d. (d, w')) (Instant_sub_Instant chk now self))"

definition SystemTime_elapsed :: "bool \<Rightarrow> 'w host_clock \<Rightarrow> Timespec \<Rightarrow> 'w \<Rightarrow> ((Duration + Duration) \<times> 'w) outcome" where
  "SystemTime_elapsed chk H self w =
     bind_out (SystemTime_now H w) (\<lambda>(now, w'). map_out (\<lambda>d. (d, w')) (SystemTime_duration_since chk now self))"

section \<open>Nanoseconds\<close>

text \<open>What the operations mean: a time is a number of nanoseconds. A structure is in order when its nanoseconds are below a second.\<close>

definition time_ns :: "Timespec \<Rightarrow> int" where "time_ns t = tv_sec t * 1000000000 + tv_nsec t"
definition duration_ns :: "Duration \<Rightarrow> int" where "duration_ns d = secs d * 1000000000 + nanos d"

definition time_of :: "int \<Rightarrow> Timespec option" where
  "time_of n = (if in_signed 64 (n div 1000000000) then Some \<lparr>tv_sec = n div 1000000000, tv_nsec = n mod 1000000000\<rparr> else None)"

definition duration_of :: "int \<Rightarrow> Duration" where
  "duration_of n = \<lparr>secs = n div 1000000000, nanos = n mod 1000000000\<rparr>"

definition time_ok :: "Timespec \<Rightarrow> bool" where
  "time_ok t \<longleftrightarrow> in_signed 64 (tv_sec t) \<and> 0 \<le> tv_nsec t \<and> tv_nsec t < 1000000000"

definition duration_ok :: "Duration \<Rightarrow> bool" where
  "duration_ok d \<longleftrightarrow> in_unsigned 64 (secs d) \<and> 0 \<le> nanos d \<and> nanos d < 1000000000"

lemma small_conversions:
  assumes "0 \<le> (x::int)" and "x < 2000000000"
  shows "as_unsigned 32 x = x" and "wrap_signed 32 x = x"
  using assms by (simp_all add: as_unsigned_def wrap_signed_def)

lemma time_of_carry:
  assumes "0 \<le> n" and "n < 2000000000"
  shows "time_of (s * 1000000000 + n) =
    (if n \<ge> 1000000000 then map_option (\<lambda>s'. \<lparr>tv_sec = s', tv_nsec = n - 1000000000\<rparr>) (checked_i64 (s + 1))
     else map_option (\<lambda>s'. \<lparr>tv_sec = s', tv_nsec = n\<rparr>) (checked_i64 s))"
proof -
  have "n div 1000000000 = (if n \<ge> 1000000000 then 1 else 0)"
  proof (cases "n \<ge> 1000000000")
    case True
    then have "(n - 1000000000) div 1000000000 = 0" using assms by simp
    then show ?thesis using True div_add_self2 [of 1000000000 "n - 1000000000"] by simp
  qed (use assms in simp)
  moreover from this have "n mod 1000000000 = (if n \<ge> 1000000000 then n - 1000000000 else n)"
    using minus_div_mult_eq_mod [of n 1000000000] by (auto split: if_splits)
  ultimately show ?thesis by (simp add: time_of_def checked_i64_def)
qed

lemma add_duration_exact:
  assumes "time_ok t" and "duration_ok d"
  shows "Timespec_checked_add_duration chk t d = Ret (if secs d < 2 ^ 63 then time_of (time_ns t + duration_ns d) else None)"
proof -
  have n: "0 \<le> tv_nsec t" "tv_nsec t < 1000000000" "0 \<le> nanos d" "nanos d < 1000000000"
    using assms by (simp_all add: time_ok_def duration_ok_def)
  have "time_ns t + duration_ns d = (tv_sec t + secs d) * 1000000000 + (nanos d + tv_nsec t)"
    by (simp add: time_ns_def duration_ns_def algebra_simps)
  moreover have "unsigned_op chk 32 (nanos d + as_unsigned 32 (tv_nsec t)) = Ret (nanos d + tv_nsec t)"
    using n by (simp add: unsigned_op_def in_unsigned_def small_conversions)
  ultimately show ?thesis
    using n assms time_of_carry [of "nanos d + tv_nsec t" "tv_sec t + secs d"]
    by (auto simp: Timespec_checked_add_duration_def checked_i64_def in_signed_def in_unsigned_def time_ok_def duration_ok_def NSEC_PER_SEC_def small_conversions)
qed

lemma time_of_borrow:
  assumes "- 1000000000 < n" and "n < 1000000000"
  shows "time_of (s * 1000000000 + n) =
    (if n < 0 then map_option (\<lambda>s'. \<lparr>tv_sec = s', tv_nsec = n + 1000000000\<rparr>) (checked_i64 (s - 1))
     else map_option (\<lambda>s'. \<lparr>tv_sec = s', tv_nsec = n\<rparr>) (checked_i64 s))"
proof (cases "n < 0")
  case True
  have "s * 1000000000 + n = (s - 1) * 1000000000 + (n + 1000000000)" by simp
  then show ?thesis using assms True time_of_carry [of "n + 1000000000" "s - 1"] by simp
next
  case False
  then show ?thesis using assms time_of_carry [of n s] by simp
qed

lemma sub_duration_exact:
  assumes "time_ok t" and "duration_ok d"
  shows "Timespec_checked_sub_duration chk t d = Ret (if secs d < 2 ^ 63 then time_of (time_ns t - duration_ns d) else None)"
proof -
  have n: "0 \<le> tv_nsec t" "tv_nsec t < 1000000000" "0 \<le> nanos d" "nanos d < 1000000000"
    using assms by (simp_all add: time_ok_def duration_ok_def)
  have "time_ns t - duration_ns d = (tv_sec t - secs d) * 1000000000 + (tv_nsec t - nanos d)"
    by (simp add: time_ns_def duration_ns_def algebra_simps)
  moreover have "signed_op chk 32 (wrap_signed 32 (tv_nsec t) - wrap_signed 32 (nanos d)) = Ret (tv_nsec t - nanos d)"
    using n by (simp add: signed_op_def in_signed_def small_conversions)
  ultimately show ?thesis
    using n assms time_of_borrow [of "tv_nsec t - nanos d" "tv_sec t - secs d"]
    by (auto simp: Timespec_checked_sub_duration_def checked_i64_def in_signed_def in_unsigned_def time_ok_def duration_ok_def NSEC_PER_SEC_def)
qed

text \<open>The difference of seconds can leave \<^verbatim>\<open>i64\<close>, but wrapping arithmetic followed by the conversion to \<^verbatim>\<open>u64\<close> is right.\<close>

lemma signed_op_cases:
  "signed_op chk n x = (if chk \<and> \<not> in_signed n x then Panic else Ret (if in_signed n x then x else wrap_signed n x))"
  by (simp add: signed_op_def)

lemma wrap_signed_mod: "0 < n \<Longrightarrow> wrap_signed n x mod 2 ^ n = x mod 2 ^ n"
  by (simp add: wrap_signed_def mod_simps)

lemma wrap_signed_diff_mod: "0 < n \<Longrightarrow> (wrap_signed n x - y) mod 2 ^ n = (x - y) mod 2 ^ n"
  by (metis mod_diff_left_eq wrap_signed_mod)

lemma seconds_difference:
  assumes "0 \<le> x" and "x < 2 ^ 64"
  shows "map_out (as_unsigned 64) (signed_op chk 64 x) = (if chk \<and> x \<ge> 2 ^ 63 then Panic else Ret x)"
    and "0 < x \<Longrightarrow> map_out (as_unsigned 64) (bind_out (signed_op chk 64 x) (\<lambda>d. signed_op chk 64 (d - 1))) = (if chk \<and> x \<ge> 2 ^ 63 then Panic else Ret (x - 1))"
proof -
  have big: "in_signed 64 x \<longleftrightarrow> x < 2 ^ 63" using assms by (auto simp: in_signed_def)
  have m: "x mod 2 ^ 64 = x" using assms by simp
  show "map_out (as_unsigned 64) (signed_op chk 64 x) = (if chk \<and> x \<ge> 2 ^ 63 then Panic else Ret x)"
    using m wrap_signed_mod [of 64 x] by (simp add: map_out_def signed_op_cases big as_unsigned_def)
  assume "0 < x"
  then have m1: "(x - 1) mod 2 ^ 64 = x - 1" using assms by simp
  have small: "x < 2 ^ 63 \<Longrightarrow> in_signed 64 (x - 1)" using \<open>0 < x\<close> by (simp add: in_signed_def)
  show "map_out (as_unsigned 64) (bind_out (signed_op chk 64 x) (\<lambda>d. signed_op chk 64 (d - 1))) = (if chk \<and> x \<ge> 2 ^ 63 then Panic else Ret (x - 1))"
  proof (cases "x < 2 ^ 63")
    case True
    then show ?thesis using small m1 by (simp add: map_out_def signed_op_cases big as_unsigned_def)
  next
    case False
    then show ?thesis using m1 wrap_signed_mod [of 64] wrap_signed_diff_mod [of 64 x 1] by (simp add: map_out_def signed_op_cases big as_unsigned_def)
  qed
qed

lemma time_order: "time_ok t \<Longrightarrow> time_ok u \<Longrightarrow> timespec_ge t u \<longleftrightarrow> time_ns t \<ge> time_ns u"
  by (auto simp: timespec_ge_def time_ok_def time_ns_def)

lemma duration_of_ns: "0 \<le> n \<Longrightarrow> n < 1000000000 \<Longrightarrow> duration_of (s * 1000000000 + n) = \<lparr>secs = s, nanos = n\<rparr>"
  by (simp add: duration_of_def)

lemma Duration_new_exact: "0 \<le> s \<Longrightarrow> s < 2 ^ 64 \<Longrightarrow> 0 \<le> n \<Longrightarrow> n < 1000000000 \<Longrightarrow> Duration_new s n = Ret \<lparr>secs = s, nanos = n\<rparr>"
  by (simp add: Duration_new_def NSEC_PER_SEC_def in_unsigned_def)

lemma map_out_RetE: "map_out f x = Ret y \<Longrightarrow> (\<And>a. x = Ret a \<Longrightarrow> f a = y \<Longrightarrow> thesis) \<Longrightarrow> thesis"
  by (cases x) (auto simp: map_out_def)

lemma map_out_PanicD: "map_out f x = Panic \<Longrightarrow> x = Panic"
  by (cases x) (auto simp: map_out_def)

lemmas sub_timespec_ge = sub_timespec.simps [THEN trans, OF if_P]

lemma later_seconds:
  assumes "time_ok t" and "time_ok u" and "time_ns t \<ge> time_ns u"
  shows "timespec_ge t u" and "0 \<le> tv_sec t - tv_sec u" and "tv_sec t - tv_sec u < 2 ^ 64"
  using assms time_order [OF assms(1,2)] by (auto simp: timespec_ge_def time_ok_def in_signed_def)

lemma sub_no_borrow:
  assumes "time_ok t" and "time_ok u" and "time_ns t \<ge> time_ns u" and le: "tv_nsec u \<le> tv_nsec t"
  shows "sub_timespec chk t u = (if chk \<and> tv_sec t - tv_sec u \<ge> 2 ^ 63 then Panic else Ret (Inr (duration_of (time_ns t - time_ns u))))"
proof -
  let ?x = "tv_sec t - tv_sec u" and ?n = "tv_nsec t - tv_nsec u"
  note x = later_seconds [OF assms(1-3)]
  have n: "0 \<le> ?n" "?n < 1000000000" using assms by (simp_all add: time_ok_def)
  have "time_ns t - time_ns u = ?x * 1000000000 + ?n" by (simp add: time_ns_def algebra_simps)
  then have d: "duration_of (time_ns t - time_ns u) = \<lparr>secs = ?x, nanos = ?n\<rparr>" using duration_of_ns [OF n, of ?x] by simp
  show ?thesis
  proof (cases "chk \<and> ?x \<ge> 2 ^ 63")
    case True
    then have "signed_op chk 64 ?x = Panic" using seconds_difference(1) [OF x(2,3), of chk] map_out_PanicD [of "as_unsigned 64"] by simp
    then show ?thesis using x(1) le True by (simp add: sub_timespec_ge)
  next
    case False
    then have "map_out (as_unsigned 64) (signed_op chk 64 ?x) = Ret ?x" using seconds_difference(1) [OF x(2,3), of chk] by simp
    then obtain s where "signed_op chk 64 ?x = Ret s" "as_unsigned 64 s = ?x" by (rule map_out_RetE)
    moreover have "signed_op chk 64 ?n = Ret ?n" "as_unsigned 32 ?n = ?n" using n by (simp_all add: signed_op_def in_signed_def small_conversions)
    ultimately show ?thesis using x(1) le False d Duration_new_exact [OF x(2,3) n] by (simp add: sub_timespec_ge)
  qed
qed

lemma sub_borrow:
  assumes "time_ok t" and "time_ok u" and "time_ns t \<ge> time_ns u" and gt: "\<not> tv_nsec u \<le> tv_nsec t"
  shows "sub_timespec chk t u = (if chk \<and> tv_sec t - tv_sec u \<ge> 2 ^ 63 then Panic else Ret (Inr (duration_of (time_ns t - time_ns u))))"
proof -
  let ?x = "tv_sec t - tv_sec u" and ?n = "tv_nsec t + 1000000000 - tv_nsec u"
  let ?seconds = "bind_out (signed_op chk 64 ?x) (\<lambda>d. signed_op chk 64 (d - 1))"
  note x = later_seconds [OF assms(1-3)]
  have lt: "0 < ?x" using gt x(1) by (auto simp: timespec_ge_def)
  have n: "0 \<le> ?n" "?n < 1000000000" using assms by (simp_all add: time_ok_def)
  have "time_ns t - time_ns u = (?x - 1) * 1000000000 + ?n" by (simp add: time_ns_def algebra_simps)
  then have d: "duration_of (time_ns t - time_ns u) = \<lparr>secs = ?x - 1, nanos = ?n\<rparr>" using duration_of_ns [OF n, of "?x - 1"] by simp
  show ?thesis
  proof (cases "chk \<and> ?x \<ge> 2 ^ 63")
    case True
    then have "?seconds = Panic" using seconds_difference(2) [OF x(2,3) lt, of chk] map_out_PanicD [of "as_unsigned 64"] by simp
    then have "bind_out (signed_op chk 64 ?x) (\<lambda>d. bind_out (signed_op chk 64 (d - 1)) F) = Panic" for F :: "int \<Rightarrow> (int \<times> int) outcome"
      by (cases "signed_op chk 64 ?x") auto
    then show ?thesis using x(1) gt True by (simp add: sub_timespec_ge)
  next
    case False
    then have "map_out (as_unsigned 64) ?seconds = Ret (?x - 1)" using seconds_difference(2) [OF x(2,3) lt, of chk] by simp
    then obtain s where s: "?seconds = Ret s" "as_unsigned 64 s = ?x - 1" by (rule map_out_RetE)
    then obtain e where "signed_op chk 64 ?x = Ret e" "signed_op chk 64 (e - 1) = Ret s" by (cases "signed_op chk 64 ?x") simp_all
    moreover have "unsigned_op chk 32 (as_unsigned 32 (tv_nsec t) + as_unsigned 32 NSEC_PER_SEC) = Ret (tv_nsec t + 1000000000)"
        "unsigned_op chk 32 (tv_nsec t + 1000000000 - as_unsigned 32 (tv_nsec u)) = Ret ?n"
      using assms n by (simp_all add: unsigned_op_def in_unsigned_def NSEC_PER_SEC_def small_conversions time_ok_def)
    moreover have "Duration_new (?x - 1) ?n = Ret \<lparr>secs = ?x - 1, nanos = ?n\<rparr>" using Duration_new_exact [OF _ _ n, of "?x - 1"] x lt by simp
    ultimately show ?thesis using x(1) gt False s(2) d by (simp add: sub_timespec_ge)
  qed
qed

text \<open>The seconds of the later time minus those of the earlier.\<close>

definition seconds_apart :: "Timespec \<Rightarrow> Timespec \<Rightarrow> int" where "seconds_apart t u = \<bar>tv_sec t - tv_sec u\<bar>"

lemma sub_exact:
  assumes "time_ok t" and "time_ok u"
  shows "sub_timespec chk t u =
    (if chk \<and> seconds_apart t u \<ge> 2 ^ 63 then Panic
     else Ret (if time_ns t \<ge> time_ns u then Inr (duration_of (time_ns t - time_ns u)) else Inl (duration_of (time_ns u - time_ns t))))"
proof (cases "time_ns t \<ge> time_ns u")
  case True
  then show ?thesis
    using sub_no_borrow [OF assms True] sub_borrow [OF assms True] later_seconds(2) [OF assms True]
    by (cases "tv_nsec u \<le> tv_nsec t") (simp_all add: seconds_apart_def)
next
  case False
  then have le: "time_ns u \<ge> time_ns t" and nge: "\<not> timespec_ge t u" using time_order [OF assms] by simp_all
  have "sub_timespec chk u t = (if chk \<and> seconds_apart t u \<ge> 2 ^ 63 then Panic else Ret (Inr (duration_of (time_ns u - time_ns t))))"
    using sub_no_borrow [OF assms(2,1) le] sub_borrow [OF assms(2,1) le] later_seconds(2) [OF assms(2,1) le]
    by (cases "tv_nsec t \<le> tv_nsec u") (simp_all add: seconds_apart_def abs_minus_commute)
  then show ?thesis using False nge by (simp add: sub_timespec.simps [of chk t u])
qed



text \<open>What was added is what has passed since.\<close>

lemma add_then_since:
  assumes "time_ok t" and "duration_ok d" and "0 \<le> tv_sec t" and "Instant_checked_add chk t d = Ret (Some u)"
  shows "Instant_duration_since chk u t = Ret d"
proof -
  have u: "time_of (time_ns t + duration_ns d) = Some u"
    using assms(4) add_duration_exact [OF assms(1,2), of chk] by (auto simp: Instant_checked_add_def split: if_splits)
  then have ns: "time_ns u = time_ns t + duration_ns d" and ok: "time_ok u"
    by (auto simp: time_of_def time_ns_def time_ok_def split: if_splits)
  have pos: "0 \<le> duration_ns d" and d: "duration_of (duration_ns d) = d"
    using assms(2) duration_of_ns [of "nanos d" "secs d"] by (simp_all add: duration_ok_def in_unsigned_def duration_ns_def)
  have "\<not> seconds_apart u t \<ge> 2 ^ 63"
    using later_seconds(2) [OF ok assms(1)] ns pos ok assms(3) by (simp add: seconds_apart_def time_ok_def in_signed_def)
  then show ?thesis
    using sub_exact [OF ok assms(1), of chk] ns pos d
    by (simp add: Instant_duration_since_def checked_duration_since_def checked_sub_instant_def map_out_def result_ok_def unwrap_or_default_def)
qed

text \<open>
  The host's structure is taken as it is: a clock whose nanoseconds are negative makes a build with overflow checks panic on \<^verbatim>\<open>elapsed\<close>, and a clock that jumps makes
  the time that has passed any duration.
\<close>

lemma host_clock_unchecked:
  assumes "time_ok t"
  shows "tv_sec t < 2 ^ 63 - 1 \<Longrightarrow> \<exists>H. Instant_elapsed True H t w = Panic"
    and "time_ok u \<Longrightarrow> \<exists>H. Instant_elapsed False H t w = Ret (duration_of (max 0 (time_ns u - time_ns t)), w)"
proof -
  let ?late = "\<lparr>tv_sec = tv_sec t + 1, tv_nsec = - 1\<rparr>"
  assume "tv_sec t < 2 ^ 63 - 1"
  then have "sub_timespec True ?late t = Panic"
    using assms by (simp add: sub_timespec_ge timespec_ge_def time_ok_def signed_op_def in_signed_def unsigned_op_def in_unsigned_def as_unsigned_def NSEC_PER_SEC_def)
  then have "Instant_elapsed True (\<lambda>_ w. ((SGX_SUCCESS, 0, ?late), w)) t w = Panic"
    by (simp add: Instant_elapsed_def Instant_now_def clock_now_def clock_gettime_def Instant_sub_Instant_def Instant_duration_since_def
        checked_duration_since_def checked_sub_instant_def map_out_def)
  then show "\<exists>H. Instant_elapsed True H t w = Panic" by blast
next
  assume "time_ok u"
  moreover have "duration_of 0 = Duration_default" by (simp add: duration_of_def Duration_default_def)
  ultimately have "Instant_elapsed False (\<lambda>_ w. ((SGX_SUCCESS, 0, u), w)) t w = Ret (duration_of (max 0 (time_ns u - time_ns t)), w)"
    using sub_exact [OF _ assms, of u False]
    by (auto simp: Instant_elapsed_def Instant_now_def clock_now_def clock_gettime_def Instant_sub_Instant_def Instant_duration_since_def
        checked_duration_since_def checked_sub_instant_def map_out_def result_ok_def unwrap_or_default_def max_def)
  then show "\<exists>H. Instant_elapsed False H t w = Ret (duration_of (max 0 (time_ns u - time_ns t)), w)" by blast
qed

end
