(* ===== verification/Spec2Isabelle.thy ===== *)
theory Spec2Isabelle
  imports Sgx_Tdh_Protocol Sgx_Tseal_Proofs Sgx_Tcrypto_Keys Sgx_Decode_Sound Sgx_Lock_Spec Sgx_Getaddrinfo_Proofs Sgx_Signal_Proofs Sgx_Alignalloc_Proofs Sgx_Enclave_Proofs Sgx_Exception Sgx_Net_Proofs Sgx_Alloc_Proofs Sgx_Urts Sgx_Sgxfs Sgx_Time
begin

text \<open>
  Verification of the Rust SGX SDK: the crates that run inside an enclave and what they rely on.

  \<^bold>\<open>The program.\<close> The SDK is a set of crates under \<^verbatim>\<open>src/\<close>. An enclave uses \<^verbatim>\<open>sgx_types\<close> (C structures and status codes),
  \<^verbatim>\<open>sgx_trts\<close> (random bytes, checks of pointers), \<^verbatim>\<open>sgx_tse\<close> (reports and keys of the processor), \<^verbatim>\<open>sgx_tcrypto\<close> (hashes, MACs,
  encryption), and on top of them \<^verbatim>\<open>sgx_tdh\<close> (local attestation) and \<^verbatim>\<open>sgx_tseal\<close> (sealing). \<^verbatim>\<open>sgx_serialize\<close> turns values into bytes.
  \<^verbatim>\<open>sgx_tstd\<close> is the standard library inside the enclave: its locks put a thread to sleep through events that the untrusted
  \<^verbatim>\<open>sgx_urts\<close> keeps. \<^verbatim>\<open>sgx_libc\<close> has the calls out of the enclave, to a host that is not trusted; \<^verbatim>\<open>sgx_signal\<close> delivers the signals of the host to
  handlers in the enclave, and \<^verbatim>\<open>sgx_alloc\<close> places secrets in memory.

  \<^bold>\<open>Conventions.\<close> Functions of the foreign SDK (\<^verbatim>\<open>sgx_*\<close> declared in \<^verbatim>\<open>extern "C"\<close> blocks, ocalls, \<^verbatim>\<open>malloc\<close>) are fields of a record of
  parameters, usually called \<open>P\<close>; what is relied on of them is a named predicate, and each theorem that has one has a witness with concrete
  functions. State is passed explicitly; \<open>error + 'a\<close> is a \<^verbatim>\<open>Result\<close>; \<open>outcome\<close> separates a value (\<open>Ret\<close>), a panic (\<open>Panic\<close>) and
  undefined behaviour (\<open>Undef\<close>). \<open>chk\<close> says whether the build has overflow checks. Machine integers whose width matters are words; lengths are natural
  numbers with the bound written out. Raw pointer code works on byte regions or on a memory of bytes, whichever the claims depend on.

  \<^bold>\<open>The theories.\<close>

  \<^item> \<open>Sgx_Prelude\<close>: integers, bytes, the little-endian codec, byte regions, fallible computations, the collections of rewrite rules.
  \<^item> \<open>Sgx_Error\<close>, \<open>Sgx_Types\<close>: \<^verbatim>\<open>sgx_types/src/error.rs\<close>, \<^verbatim>\<open>macros.rs\<close> and \<^verbatim>\<open>types.rs\<close>: \<^verbatim>\<open>sgx_status_t\<close> with its conversions and the
    structures of attestation with their layout in memory; that the layouts can be read back.
  \<^item> \<open>Sgx_Trts\<close>: \<^verbatim>\<open>sgx_trts/src/trts.rs\<close>, \<^verbatim>\<open>memeq.rs\<close> and \<^verbatim>\<open>sgx_tse/src/se.rs\<close>; the comparison in constant time is equality.
  \<^item> \<open>Sgx_Tcrypto\<close>: \<^verbatim>\<open>sgx_tcrypto/src/crypto.rs\<close>: the handles of SHA, CMAC, HMAC and ECC and the one-shot functions. The locale
    \<open>session_handle\<close> is the contract of a handle, interpreted on five handle types.
  \<^item> \<open>Sgx_Tdh_Msg\<close>, \<open>Sgx_Tdh\<close>, \<open>Sgx_Tdh_Spec\<close>, \<open>Sgx_Tdh_Protocol\<close>: \<^verbatim>\<open>sgx_tdh/src/dh.rs\<close> and \<^verbatim>\<open>ecp.rs\<close>: the raw form of message 3, the four session
    operations in both versions of the protocol, what they compute over the mathematical functions, and the protocol as a whole: the order of the calls (locale
    \<open>dh_session\<close>, interpreted on both session types), authentication of the peer, an honest run, the error paths.
  \<^item> \<open>Sgx_Tseal\<close>, \<open>Sgx_Tseal_Proofs\<close>: \<^verbatim>\<open>sgx_tseal/src/internal.rs\<close>, \<^verbatim>\<open>seal.rs\<close>, \<^verbatim>\<open>aad.rs\<close>: sealing and unsealing, round trips, authenticity,
    and the import of raw blobs under memory that changes between two reads.
  \<^item> \<open>Sgx_Leb128\<close>, \<open>Sgx_Serialize\<close>, \<open>Sgx_Opaque\<close>, \<open>Sgx_Serialize_Types\<close>, \<open>Sgx_Decode_Sound\<close>, \<open>Sgx_Io_Cursor\<close>: \<^verbatim>\<open>sgx_serialize/src\<close> and the cursor
    of \<^verbatim>\<open>sgx_tstd/src/io\<close>. The traits \<^verbatim>\<open>Encoder\<close> and \<^verbatim>\<open>Decoder\<close> are records of functions; the locales \<open>codec_state\<close> and \<open>codec_pair\<close> state what a pair of
    implementations promises, and \<open>Sgx_Opaque\<close> interprets them. All types round-trip; arbitrary bytes give an error, a panic or a value of the
    type.
  \<^item> \<open>Sgx_Sync\<close>, \<open>Sgx_Sync_Proofs\<close>, \<open>Sgx_RwLock\<close>, \<open>Sgx_RwLock_Proofs\<close>, \<open>Sgx_Lock_Spec\<close>: \<^verbatim>\<open>sgx_tstd/src/sys/mutex.rs\<close>, \<^verbatim>\<open>condvar.rs\<close>, \<^verbatim>\<open>rwlock.rs\<close> and
    the events of \<^verbatim>\<open>sgx_urts/src/event.rs\<close>. Each section under a spin lock is one function; step relations interleave the sections of all threads with
    a host that wakes whom it likes. Exclusion for every host; no lost wake-up with prompt wakes; refinement of an abstract lock (locale
    \<open>lock_provider\<close>, interpreted on the mutex and on the writer's side of the reader-writer lock); and the runs in which the code goes wrong.
  \<^item> \<open>Sgx_Ocall\<close>, \<open>Sgx_Ocall_Calls\<close>, \<open>Sgx_Ocall_Proofs\<close>, \<open>Sgx_Getaddrinfo\<close>, \<open>Sgx_Getaddrinfo_Proofs\<close>: \<^verbatim>\<open>sgx_libc/src/linux/x86_64/ocall.rs\<close> on a memory of
    bytes that the host may write outside of the enclave, with a log of what was allocated there, and for \<^verbatim>\<open>getaddrinfo\<close> a model of the
    enclave's heap.
  \<^item> \<open>Sgx_Signal\<close>, \<open>Sgx_Signal_Proofs\<close>: \<^verbatim>\<open>sgx_signal/src/manager.rs\<close> and \<^verbatim>\<open>signal.rs\<close> over the signal sets of
    \<^verbatim>\<open>sgx_libc/src/linux/x86_64/mod.rs\<close>: registration, masks and delivery; an invariant of the table over all sequences of operations.
  \<^item> \<open>Sgx_Alignalloc\<close>, \<open>Sgx_Alignalloc_Proofs\<close>: \<^verbatim>\<open>sgx_alloc/src/alignalloc.rs\<close> and \<^verbatim>\<open>alignbox.rs\<close>: the padding chosen is the least one, protected
    bytes are not exposed, which objects can be placed, what a release leaves behind.
  \<^item> \<open>Sgx_Tcrypto_Keys\<close>: the rest of \<^verbatim>\<open>sgx_tcrypto/src/crypto.rs\<close>: SHA-1 and SHA-384, HMAC, AES-CTR, ECDSA, RSA keys and the AES-GCM object; the locale \<open>resource\<close> is
    the contract of an object that owns something of the foreign library, of which \<open>session_handle\<close> is an instance.
  \<^item> \<open>Sgx_Enclave\<close>, \<open>Sgx_Enclave_Proofs\<close>: \<^verbatim>\<open>enclave.rs\<close>, \<^verbatim>\<open>cpu_feature.rs\<close>, \<^verbatim>\<open>cpuid.rs\<close>, \<^verbatim>\<open>veh.rs\<close> and \<^verbatim>\<open>oom.rs\<close> of \<^verbatim>\<open>sgx_trts/src\<close>: the layout
    table and its traversal, which counts what the table stands for; the tables of features agree.
  \<^item> \<open>Sgx_Exception\<close>: \<^verbatim>\<open>sgx_signal/src/exception.rs\<close>: the chain of handlers refines a list; what happens to an exception no handler takes.
  \<^item> \<open>Sgx_Net\<close>, \<open>Sgx_Net_Parser\<close>, \<open>Sgx_Net_Proofs\<close>: \<^verbatim>\<open>ip.rs\<close>, \<^verbatim>\<open>addr.rs\<close> and \<^verbatim>\<open>parser.rs\<close> of \<^verbatim>\<open>sgx_tstd/src/net\<close>: addresses, their classes, their text and the
    parser. An IPv4 address has one text; every address is read back; the buffers of the printing suffice. The locale \<open>positional\<close> has the theory of printed numbers, for
    decimal and hexadecimal ones.
  \<^item> \<open>Sgx_Alloc_System\<close>, \<open>Sgx_Alloc_Proofs\<close>: \<^verbatim>\<open>system.rs\<close> and \<^verbatim>\<open>rsrvmem.rs\<close> of \<^verbatim>\<open>sgx_alloc/src\<close>, on a heap of blocks. The locale \<open>allocator\<close> is the contract of growing and shrinking,
    interpreted on the allocator of the system.
  \<^item> \<open>Sgx_Urts\<close>: \<^verbatim>\<open>sgx_urts/src/event.rs\<close> and \<^verbatim>\<open>signal.rs\<close>, the other side of the locks and of the signals: the table of events gives each thread its own; the dispatcher of
    signals refines a map from signals to enclaves.
  \<^item> \<open>Sgx_Pfs\<close>, \<open>Sgx_Sgxfs\<close>: \<^verbatim>\<open>sgx_tprotected_fs/src/fs.rs\<close>, and over it \<^verbatim>\<open>sgxfs.rs\<close> and \<^verbatim>\<open>sys/sgxfs.rs\<close> of \<^verbatim>\<open>sgx_tstd/src\<close>: protected files; writing a file writes all of it. The keys
    of remote attestation (\<^verbatim>\<open>sgx_tkey_exchange/src/lib.rs\<close>) are in \<open>Sgx_Pfs\<close> too.
  \<^item> \<open>Sgx_Time\<close>: \<^verbatim>\<open>time.rs\<close> and \<^verbatim>\<open>sys/time.rs\<close> of \<^verbatim>\<open>sgx_tstd/src\<close>: the arithmetic of time is that of nanoseconds, in builds with and without overflow checks.
  \<^bold>\<open>Loops.\<close> Loops over lists and counters are recursive functions with a termination proof. Loops that the host controls (the list of
  \<^verbatim>\<open>getaddrinfo\<close>, the strings of \<^verbatim>\<open>environ\<close>, the retries of \<^verbatim>\<open>write_all\<close>) are partial functions with the value \<open>None\<close> for a run that does not end, and when they end is a
  theorem. No definition uses fuel. The memory of the host does not change while the loop of \<^verbatim>\<open>getaddrinfo\<close> runs (the call itself may
  leave any memory behind).

  \<^bold>\<open>Not modelled.\<close> Copies of the Rust standard library and of other crates (\<^verbatim>\<open>sgx_tstd\<close> apart from the parts above, hashbrown, \<^verbatim>\<open>sgx_rand\<close>,
  \<^verbatim>\<open>sgx_demangle\<close>, \<^verbatim>\<open>sgx_backtrace\<close>, \<^verbatim>\<open>sgx_unwind\<close>), which the repository carries along; the untrusted libraries other than the events and the dispatcher of signals;
  procedural macros, build scripts and tests; foreign code. The locks have no model of time: a timeout may fire at any moment. The poisoning of the typed locks, and
  the contents of objects placed by the aligned allocator, are outside of the state. The manifest lists these parts one by one.
\<close>

end
